(* ===== verification/Prelude.thy ===== *)
theory Prelude
  imports Main "HOL-Library.Word" "HOL-Library.Monad_Syntax"
begin

text \<open>
  Shared vocabulary of the development: the widths of the C integer types the firmware uses,
  byte-addressed memory, and the lemmas on words, memory and partial results that the
  component theories rely on.

  Every operation that can loop has a result of type \<open>'a option\<close>: \<open>Some\<close> is
  what the C function returns (with the state it leaves), \<open>None\<close> stands for a call that
  never returns.
\<close>

unbundle bit_operations_syntax

type_synonym u8 = "8 word"
type_synonym u16 = "16 word"
type_synonym u32 = "32 word"
type_synonym memory = "u32 \<Rightarrow> u8"

named_theorems qspi_field \<open>fields of the world that an operation leaves alone\<close>
named_theorems hal_defs \<open>definitions of the HAL operations, for symbolic execution\<close>

section \<open>Memory\<close>

text \<open>
  \<open>bytes_at m p n\<close> is the array of \<open>n\<close> bytes a C program sees at the address
  \<open>p\<close>, and \<open>store_bytes\<close> is \<open>memcpy\<close> of a list of bytes to an address.
\<close>

definition bytes_at :: "memory \<Rightarrow> u32 \<Rightarrow> nat \<Rightarrow> u8 list" where
  "bytes_at m p n = map (\<lambda>i. m (p + of_nat i)) [0..<n]"

fun store_bytes :: "memory \<Rightarrow> u32 \<Rightarrow> u8 list \<Rightarrow> memory" where
  "store_bytes m p [] = m"
| "store_bytes m p (b # bs) = store_bytes (m(p := b)) (p + 1) bs"

lemma length_bytes_at [simp]: "length (bytes_at m p n) = n"
  by (simp add: bytes_at_def)

lemma bytes_at_0 [simp]: "bytes_at m p 0 = []"
  by (simp add: bytes_at_def)

lemma bytes_at_Suc: "bytes_at m p (Suc n) = m p # bytes_at m (p + 1) n"
proof -
  have "[0..<Suc n] = 0 # map Suc [0..<n]"
    by (simp add: map_Suc_upt upt_conv_Cons del: upt_Suc)
  then show ?thesis
    by (simp add: bytes_at_def algebra_simps)
qed

lemma bytes_at_add: "bytes_at m p (a + b) = bytes_at m p a @ bytes_at m (p + of_nat a) b"
  by (induction a arbitrary: p) (simp_all add: bytes_at_Suc algebra_simps)

lemma nth_bytes_at: "i < n \<Longrightarrow> bytes_at m p n ! i = m (p + of_nat i)"
  by (simp add: bytes_at_def)

lemma store_bytes_append:
  "store_bytes m p (xs @ ys) = store_bytes (store_bytes m p xs) (p + of_nat (length xs)) ys"
  by (induction xs arbitrary: m p) (simp_all add: algebra_simps)

text \<open>A byte outside the destination keeps its value; offsets are taken modulo \<open>2 ^ 32\<close>.\<close>

lemma store_bytes_other:
  "length bs \<le> unat (a - p) \<Longrightarrow> store_bytes m p bs a = m a"
proof (induction bs arbitrary: m p)
  case Nil
  then show ?case by simp
next
  case (Cons b bs)
  from Cons.prems have ne: "a - p \<noteq> 0" by auto
  then have "unat (a - (p + 1)) = unat (a - p) - 1"
    by (simp add: unat_minus_one diff_diff_eq [symmetric])
  with Cons.prems have "length bs \<le> unat (a - (p + 1))" by simp
  then have "store_bytes (m(p := b)) (p + 1) bs a = (m(p := b)) a" by (rule Cons.IH)
  with ne show ?case by auto
qed

lemma store_bytes_nth:
  assumes "i < length bs" and "length bs \<le> 2 ^ 32"
  shows "store_bytes m p bs (p + of_nat i) = bs ! i"
  using assms
proof (induction bs arbitrary: m p i)
  case Nil
  then show ?case by simp
next
  case (Cons b bs)
  show ?case
  proof (cases i)
    case 0
    have "unat (p - (p + 1)) = 2 ^ 32 - 1"
      by (simp add: unsigned_minus_1_eq_mask mask_eq_exp_minus_1)
    then have "length bs \<le> unat (p - (p + 1))" using Cons.prems by simp
    then have "store_bytes (m(p := b)) (p + 1) bs p = (m(p := b)) p" by (rule store_bytes_other)
    with 0 show ?thesis by simp
  next
    case (Suc j)
    with Cons.prems have "store_bytes (m(p := b)) (p + 1) bs ((p + 1) + of_nat j) = bs ! j"
      by (intro Cons.IH) auto
    with Suc show ?thesis by (simp add: algebra_simps)
  qed
qed

lemma bytes_at_store_bytes:
  assumes "length bs \<le> 2 ^ 32"
  shows "bytes_at (store_bytes m p bs) p (length bs) = bs"
  using assms by (intro nth_equalityI) (simp_all add: nth_bytes_at store_bytes_nth)

lemma option_eqI:
  assumes "\<And>r. f = Some r \<Longrightarrow> g = Some r" "\<And>r. g = Some r \<Longrightarrow> f = Some r"
  shows "f = g"
  using assms by (cases f; cases g) auto

section \<open>Words\<close>

lemma unat_pred: "x \<noteq> 0 \<Longrightarrow> unat (x - 1 :: 'a::len word) = unat x - 1"
  by (rule unat_minus_one)

lemma unat_Suc_pred:
  fixes x :: "'a::len word"
  assumes "0 < x"
  shows "unat x = Suc (unat (x - 1))"
proof -
  from assms have "x \<noteq> 0" by auto
  moreover then have "0 < unat x" by (simp add: unat_gt_0)
  ultimately show ?thesis by (simp add: unat_pred)
qed

lemma unat_u32_less: "unat (x :: u32) < 4294967296"
proof -
  have "(unsigned x :: nat) < 2 ^ LENGTH(32)" by (rule unsigned_less)
  then show ?thesis by simp
qed

lemma unat_u16_less: "unat (x :: u16) < 65536"
proof -
  have "(unsigned x :: nat) < 2 ^ LENGTH(16)" by (rule unsigned_less)
  then show ?thesis by simp
qed

lemma unat_ucast_u16 [simp]: "unat (ucast (n :: u16) :: u32) = unat n"
proof -
  have "unat n < 2 ^ 32" using unat_u16_less [of n] by simp
  then show ?thesis by (simp add: unsigned_ucast_eq take_bit_nat_eq_self)
qed

lemma unat_next:
  fixes i n :: "'a::len word"
  assumes "i < n"
  shows "unat (i + 1) = Suc (unat i)"
proof -
  have "unat i < unat n" using assms by (simp add: word_less_nat_alt)
  moreover have "unat n < 2 ^ LENGTH('a)" by (rule unsigned_less)
  ultimately have "Suc (unat i) < 2 ^ LENGTH('a)" by (meson Suc_leI le_less_trans)
  then show ?thesis by (simp add: unat_word_ariths)
qed

lemma unat_add_u32:
  fixes a b :: u32
  assumes "unat a + unat b < 2 ^ 32"
  shows "unat (a + b) = unat a + unat b"
  using assms by (simp add: unat_word_ariths)

lemma and_not_mask: "y AND NOT (mask n) = push_bit n (drop_bit n (y :: u32))"
  by (rule bit_word_eqI) (auto simp: bit_simps)

lemma unat_pow_u32: "k < 32 \<Longrightarrow> unat (2 ^ k :: u32) = 2 ^ k"
proof -
  assume "k < 32"
  then have "(2 :: nat) ^ k < 2 ^ 32" by (intro power_strict_increasing) auto
  then have "unat (of_nat (2 ^ k) :: u32) = 2 ^ k" by (simp add: unsigned_of_nat take_bit_eq_mod del: of_nat_power)
  then show ?thesis by simp
qed

lemma unat_align_down_pow:
  assumes "k < 32"
  shows "unat (y AND NOT (mask k) :: u32) = unat y div 2 ^ k * 2 ^ k"
proof -
  have "unat (drop_bit k y) = drop_bit k (unat y)" by (rule bit_eqI) (auto simp: bit_simps)
  then have "unat (drop_bit k y) = unat y div 2 ^ k" by (simp only: drop_bit_eq_div)
  moreover have "unat y div 2 ^ k * 2 ^ k < 2 ^ 32" using unat_u32_less [of y] le_less_trans [OF div_times_less_eq_dividend] by simp
  ultimately show ?thesis using assms unfolding and_not_mask
    by (simp add: push_bit_eq_mult unat_word_ariths unat_pow_u32)
qed

section \<open>Partial results\<close>

lemma bind_Some_iff:
  "Option.bind x f = Some y \<longleftrightarrow> (\<exists>z. x = Some z \<and> f z = Some y)"
  by (cases x) auto

lemma bind_prod_Some_iff:
  "Option.bind x (\<lambda>(a, b). f a b) = Some y \<longleftrightarrow> (\<exists>a b. x = Some (a, b) \<and> f a b = Some y)"
  by (cases x) auto

end
