(* ===== verification/Qspi_Regs.thy ===== *)
theory Qspi_Regs
  imports Prelude
begin

text \<open>
  The register level below the HAL: the QUADSPI register block and the GPIO, RCC, SysTick and
  memory-mapped flash locations the firmware touches, the bit masks of
  \<open>stm32h750xx.h\<close>, and the CMSIS register macros.

  The hardware is no part of the repository. It is a parameter: a value of the record
  \<open>'h mmio\<close> says what each bus access does to a hardware state of any type
  \<open>'h\<close>. A read may change the hardware (reading the data register pops the FIFO), and
  two reads of one register need not agree.
\<close>

section \<open>Register locations\<close>

text \<open>The fields of \<open>QUADSPI_TypeDef\<close>, and the other registers the boot code uses.\<close>

datatype ioreg =
    CR | DCR | SR | FCR | DLR | CCR | AR | ABR | DR | PSMKR | PSMAR | PIR | LPTR
  | MODER nat | OTYPER nat | OSPEEDR nat | PUPDR nat | AFR nat nat
  | IDR nat | ODR nat | BSRR nat | LCKR nat
  | EXTICR nat | IMR1 | EMR1 | RTSR1 | FTSR1 | PR1
  | AHB3ENR | AHB4ENR | APB4ENR
  | SYSTICK_CTRL | SYSTICK_VAL | SYSTICK_LOAD
  | MSP

text \<open>The return codes of every HAL function.\<close>

datatype HAL_StatusTypeDef = HAL_OK | HAL_ERROR | HAL_BUSY | HAL_TIMEOUT

text \<open>
  Bus accesses: 32-bit loads and stores of registers, byte loads and stores of the QUADSPI data
  register, 32-bit loads from the memory-mapped flash window, and the reading of the time base
  by \<open>HAL_GetTick\<close> (the tick interrupt advances it behind the program's back, so each
reading is an access too). \<open>HAL_MDMA_Abort\<close> and its siblings belong to the MDMA
  driver, which is not modelled; they are accesses with a result.
\<close>

record 'h mmio =
  io_rd :: "ioreg \<Rightarrow> 'h \<Rightarrow> u32 \<times> 'h"
  io_wr :: "ioreg \<Rightarrow> u32 \<Rightarrow> 'h \<Rightarrow> 'h"
  io_rd8 :: "'h \<Rightarrow> u8 \<times> 'h"
  io_wr8 :: "u8 \<Rightarrow> 'h \<Rightarrow> 'h"
  io_ld :: "u32 \<Rightarrow> 'h \<Rightarrow> u32 \<times> 'h"
  io_tick :: "'h \<Rightarrow> u32 \<times> 'h"
  mdma_disable :: "'h \<Rightarrow> 'h"
  mdma_abort :: "'h \<Rightarrow> HAL_StatusTypeDef \<times> 'h"
  mdma_abort_it :: "'h \<Rightarrow> HAL_StatusTypeDef \<times> 'h"

section \<open>Bit masks of the QUADSPI registers\<close>

abbreviation (input) QUADSPI_CR_EN :: u32 where "QUADSPI_CR_EN \<equiv> 0x00000001"
abbreviation (input) QUADSPI_CR_ABORT :: u32 where "QUADSPI_CR_ABORT \<equiv> 0x00000002"
abbreviation (input) QUADSPI_CR_DMAEN :: u32 where "QUADSPI_CR_DMAEN \<equiv> 0x00000004"
abbreviation (input) QUADSPI_CR_TCEN :: u32 where "QUADSPI_CR_TCEN \<equiv> 0x00000008"
abbreviation (input) QUADSPI_CR_SSHIFT :: u32 where "QUADSPI_CR_SSHIFT \<equiv> 0x00000010"
abbreviation (input) QUADSPI_CR_DFM :: u32 where "QUADSPI_CR_DFM \<equiv> 0x00000040"
abbreviation (input) QUADSPI_CR_FSEL :: u32 where "QUADSPI_CR_FSEL \<equiv> 0x00000080"
abbreviation (input) QUADSPI_CR_FTHRES :: u32 where "QUADSPI_CR_FTHRES \<equiv> 0x00000F00"
abbreviation (input) QUADSPI_CR_FTHRES_Pos :: nat where "QUADSPI_CR_FTHRES_Pos \<equiv> 8"
abbreviation (input) QUADSPI_CR_TEIE :: u32 where "QUADSPI_CR_TEIE \<equiv> 0x00010000"
abbreviation (input) QUADSPI_CR_TCIE :: u32 where "QUADSPI_CR_TCIE \<equiv> 0x00020000"
abbreviation (input) QUADSPI_CR_FTIE :: u32 where "QUADSPI_CR_FTIE \<equiv> 0x00040000"
abbreviation (input) QUADSPI_CR_SMIE :: u32 where "QUADSPI_CR_SMIE \<equiv> 0x00080000"
abbreviation (input) QUADSPI_CR_TOIE :: u32 where "QUADSPI_CR_TOIE \<equiv> 0x00100000"
abbreviation (input) QUADSPI_CR_APMS :: u32 where "QUADSPI_CR_APMS \<equiv> 0x00400000"
abbreviation (input) QUADSPI_CR_PMM :: u32 where "QUADSPI_CR_PMM \<equiv> 0x00800000"
abbreviation (input) QUADSPI_CR_PRESCALER :: u32 where "QUADSPI_CR_PRESCALER \<equiv> 0xFF000000"
abbreviation (input) QUADSPI_CR_PRESCALER_Pos :: nat where "QUADSPI_CR_PRESCALER_Pos \<equiv> 24"
abbreviation (input) QUADSPI_DCR_CKMODE :: u32 where "QUADSPI_DCR_CKMODE \<equiv> 0x00000001"
abbreviation (input) QUADSPI_DCR_CSHT :: u32 where "QUADSPI_DCR_CSHT \<equiv> 0x00000700"
abbreviation (input) QUADSPI_DCR_FSIZE :: u32 where "QUADSPI_DCR_FSIZE \<equiv> 0x001F0000"
abbreviation (input) QUADSPI_DCR_FSIZE_Pos :: nat where "QUADSPI_DCR_FSIZE_Pos \<equiv> 16"
abbreviation (input) QUADSPI_SR_TEF :: u32 where "QUADSPI_SR_TEF \<equiv> 0x00000001"
abbreviation (input) QUADSPI_SR_TCF :: u32 where "QUADSPI_SR_TCF \<equiv> 0x00000002"
abbreviation (input) QUADSPI_SR_FTF :: u32 where "QUADSPI_SR_FTF \<equiv> 0x00000004"
abbreviation (input) QUADSPI_SR_SMF :: u32 where "QUADSPI_SR_SMF \<equiv> 0x00000008"
abbreviation (input) QUADSPI_SR_TOF :: u32 where "QUADSPI_SR_TOF \<equiv> 0x00000010"
abbreviation (input) QUADSPI_SR_BUSY :: u32 where "QUADSPI_SR_BUSY \<equiv> 0x00000020"
abbreviation (input) QUADSPI_SR_FLEVEL :: u32 where "QUADSPI_SR_FLEVEL \<equiv> 0x00003F00"
abbreviation (input) QUADSPI_CCR_INSTRUCTION :: u32 where "QUADSPI_CCR_INSTRUCTION \<equiv> 0x000000FF"
abbreviation (input) QUADSPI_CCR_IMODE :: u32 where "QUADSPI_CCR_IMODE \<equiv> 0x00000300"
abbreviation (input) QUADSPI_CCR_ADMODE :: u32 where "QUADSPI_CCR_ADMODE \<equiv> 0x00000C00"
abbreviation (input) QUADSPI_CCR_ADSIZE :: u32 where "QUADSPI_CCR_ADSIZE \<equiv> 0x00003000"
abbreviation (input) QUADSPI_CCR_ABMODE :: u32 where "QUADSPI_CCR_ABMODE \<equiv> 0x0000C000"
abbreviation (input) QUADSPI_CCR_ABSIZE :: u32 where "QUADSPI_CCR_ABSIZE \<equiv> 0x00030000"
abbreviation (input) QUADSPI_CCR_DCYC :: u32 where "QUADSPI_CCR_DCYC \<equiv> 0x007C0000"
abbreviation (input) QUADSPI_CCR_DCYC_Pos :: nat where "QUADSPI_CCR_DCYC_Pos \<equiv> 18"
abbreviation (input) QUADSPI_CCR_DMODE :: u32 where "QUADSPI_CCR_DMODE \<equiv> 0x03000000"
abbreviation (input) QUADSPI_CCR_FMODE :: u32 where "QUADSPI_CCR_FMODE \<equiv> 0x0C000000"
abbreviation (input) QUADSPI_CCR_SIOO :: u32 where "QUADSPI_CCR_SIOO \<equiv> 0x10000000"
abbreviation (input) QUADSPI_CCR_DHHC :: u32 where "QUADSPI_CCR_DHHC \<equiv> 0x40000000"
abbreviation (input) QUADSPI_CCR_DDRM :: u32 where "QUADSPI_CCR_DDRM \<equiv> 0x80000000"

section \<open>Bus traffic\<close>

text \<open>
  The accesses with an effect on the bus: register stores, and byte stores to and loads from the
  data register. \<open>bus io h tr h'\<close> says that the hardware gets from \<open>h\<close> to
  \<open>h'\<close> by exactly the accesses \<open>tr\<close>, in this order, with register and clock
  readings anywhere in between.
\<close>

datatype bus_event = W ioreg u32 | W8 u8 | R8 u8

inductive bus :: "'h mmio \<Rightarrow> 'h \<Rightarrow> bus_event list \<Rightarrow> 'h \<Rightarrow> bool" for io where
  bus_refl: "bus io h [] h"
| bus_rd: "bus io h tr h1 \<Longrightarrow> bus io h tr (snd (io_rd io r h1))"
| bus_tick: "bus io h tr h1 \<Longrightarrow> bus io h tr (snd (io_tick io h1))"
| bus_wr: "bus io h tr h1 \<Longrightarrow> bus io h (tr @ [W r v]) (io_wr io r v h1)"
| bus_wr8: "bus io h tr h1 \<Longrightarrow> bus io h (tr @ [W8 b]) (io_wr8 io b h1)"
| bus_rd8: "bus io h tr h1 \<Longrightarrow> bus io h (tr @ [R8 (fst (io_rd8 io h1))]) (snd (io_rd8 io h1))"

text \<open>
  \<open>log_io io\<close> is the hardware \<open>io\<close> with a list beside its state that collects
  the traffic. It answers every access exactly as \<open>io\<close> does, so what it records is what
  the program does on \<open>io\<close>.
\<close>

definition log_io :: "'h mmio \<Rightarrow> ('h \<times> bus_event list) mmio" where
  "log_io io = \<lparr>
     io_rd = (\<lambda>r (h, l). (case io_rd io r h of (v, h') \<Rightarrow> (v, (h', l)))),
     io_wr = (\<lambda>r v (h, l). (io_wr io r v h, l @ [W r v])),
     io_rd8 = (\<lambda>(h, l). (case io_rd8 io h of (v, h') \<Rightarrow> (v, (h', l @ [R8 v])))),
     io_wr8 = (\<lambda>v (h, l). (io_wr8 io v h, l @ [W8 v])),
     io_ld = (\<lambda>a (h, l). (case io_ld io a h of (v, h') \<Rightarrow> (v, (h', l)))),
     io_tick = (\<lambda>(h, l). (case io_tick io h of (v, h') \<Rightarrow> (v, (h', l)))),
     mdma_disable = (\<lambda>(h, l). (mdma_disable io h, l)),
     mdma_abort = (\<lambda>(h, l). (case mdma_abort io h of (v, h') \<Rightarrow> (v, (h', l)))),
     mdma_abort_it = (\<lambda>(h, l). (case mdma_abort_it io h of (v, h') \<Rightarrow> (v, (h', l))))\<rparr>"

lemma bus_trans:
  assumes "bus io h2 b h3" and "bus io h1 a h2"
  shows "bus io h1 (a @ b) h3"
  using assms
proof (induction rule: bus.induct)
  case bus_refl
  then show ?case by simp
next
  case (bus_wr h tr h1' r v)
  then have "bus io h1 ((a @ tr) @ [W r v]) (io_wr io r v h1')" by (blast intro: bus.bus_wr)
  then show ?case by simp
next
  case (bus_wr8 h tr h1' b)
  then have "bus io h1 ((a @ tr) @ [W8 b]) (io_wr8 io b h1')" by (blast intro: bus.bus_wr8)
  then show ?case by simp
next
  case (bus_rd8 h tr h1')
  then have "bus io h1 ((a @ tr) @ [R8 (fst (io_rd8 io h1'))]) (snd (io_rd8 io h1'))"
    by (blast intro: bus.bus_rd8)
  then show ?case by simp
qed (auto intro: bus.intros)

text \<open>The recording hardware records the traffic.\<close>

lemma bus_log_io: "bus (log_io io) hl tr hl' \<Longrightarrow> snd hl' = snd hl @ tr"
  by (induction rule: bus.induct) (auto simp: log_io_def split: prod.splits)

end
