(* ===== verification/Hal_Qspi_Defs.thy ===== *)
theory Hal_Qspi_Defs
  imports Qspi_Regs
begin

text \<open>
  The data of the QUADSPI HAL driver (\<open>stm32h7xx_hal_qspi.h\<close>) and its blocking
  operations (\<open>stm32h7xx_hal_qspi.c\<close>), one definition per C function, in the order of
  the file. \<open>assert_param\<close> expands to nothing in this build (\<open>USE_FULL_ASSERT\<close>
  is not defined) and the registered-callback variant is disabled.
\<close>

section \<open>Types of the driver\<close>

datatype HAL_LockTypeDef = HAL_UNLOCKED | HAL_LOCKED

datatype FlagStatus = RESET | SET

datatype HAL_QSPI_StateTypeDef =
    HAL_QSPI_STATE_RESET
  | HAL_QSPI_STATE_READY
  | HAL_QSPI_STATE_BUSY
  | HAL_QSPI_STATE_BUSY_INDIRECT_TX
  | HAL_QSPI_STATE_BUSY_INDIRECT_RX
  | HAL_QSPI_STATE_BUSY_AUTO_POLLING
  | HAL_QSPI_STATE_BUSY_MEM_MAPPED
  | HAL_QSPI_STATE_ABORT
  | HAL_QSPI_STATE_ERROR

fun state_code :: "HAL_QSPI_StateTypeDef \<Rightarrow> u32" where
  "state_code HAL_QSPI_STATE_RESET = 0x00"
| "state_code HAL_QSPI_STATE_READY = 0x01"
| "state_code HAL_QSPI_STATE_BUSY = 0x02"
| "state_code HAL_QSPI_STATE_BUSY_INDIRECT_TX = 0x12"
| "state_code HAL_QSPI_STATE_BUSY_INDIRECT_RX = 0x22"
| "state_code HAL_QSPI_STATE_BUSY_AUTO_POLLING = 0x42"
| "state_code HAL_QSPI_STATE_BUSY_MEM_MAPPED = 0x82"
| "state_code HAL_QSPI_STATE_ABORT = 0x08"
| "state_code HAL_QSPI_STATE_ERROR = 0x04"

record QSPI_InitTypeDef =
  ClockPrescaler :: u32
  FifoThreshold :: u32
  SampleShifting :: u32
  FlashSize :: u32
  ChipSelectHighTime :: u32
  ClockMode :: u32
  FlashID :: u32
  DualFlash :: u32

text \<open>
  The handle. \<open>Instance\<close> is the base address of the register block, the buffer
  pointers are addresses into memory. The MDMA handle is not modelled.
\<close>

record QSPI_HandleTypeDef =
  Instance :: u32
  Init :: QSPI_InitTypeDef
  pTxBuffPtr :: u32
  TxXferSize :: u32
  TxXferCount :: u32
  pRxBuffPtr :: u32
  RxXferSize :: u32
  RxXferCount :: u32
  Lock :: HAL_LockTypeDef
  State :: HAL_QSPI_StateTypeDef
  ErrorCode :: u32
  Timeout :: u32

record QSPI_CommandTypeDef =
  Instruction :: u32
  Address :: u32
  AlternateBytes :: u32
  AddressSize :: u32
  AlternateBytesSize :: u32
  DummyCycles :: u32
  InstructionMode :: u32
  AddressMode :: u32
  AlternateByteMode :: u32
  DataMode :: u32
  NbData :: u32
  DdrMode :: u32
  DdrHoldHalfCycle :: u32
  SIOOMode :: u32

record QSPI_AutoPollingTypeDef =
  Match :: u32
  Mask :: u32
  Interval :: u32
  StatusBytesSize :: u32
  MatchMode :: u32
  AutomaticStop :: u32

record QSPI_MemoryMappedTypeDef =
  TimeOutPeriod :: u32
  TimeOutActivation :: u32

section \<open>Constants\<close>

abbreviation (input) HAL_MAX_DELAY :: u32 where "HAL_MAX_DELAY \<equiv> 0xFFFFFFFF"
abbreviation (input) HAL_QPSI_TIMEOUT_DEFAULT_VALUE :: u32 where "HAL_QPSI_TIMEOUT_DEFAULT_VALUE \<equiv> 5000"

abbreviation (input) HAL_QSPI_ERROR_NONE :: u32 where "HAL_QSPI_ERROR_NONE \<equiv> 0x00"
abbreviation (input) HAL_QSPI_ERROR_TIMEOUT :: u32 where "HAL_QSPI_ERROR_TIMEOUT \<equiv> 0x01"
abbreviation (input) HAL_QSPI_ERROR_TRANSFER :: u32 where "HAL_QSPI_ERROR_TRANSFER \<equiv> 0x02"
abbreviation (input) HAL_QSPI_ERROR_DMA :: u32 where "HAL_QSPI_ERROR_DMA \<equiv> 0x04"
abbreviation (input) HAL_QSPI_ERROR_INVALID_PARAM :: u32 where "HAL_QSPI_ERROR_INVALID_PARAM \<equiv> 0x08"

abbreviation (input) QSPI_SAMPLE_SHIFTING_HALFCYCLE :: u32 where
  "QSPI_SAMPLE_SHIFTING_HALFCYCLE \<equiv> QUADSPI_CR_SSHIFT"
abbreviation (input) QSPI_CS_HIGH_TIME_1_CYCLE :: u32 where "QSPI_CS_HIGH_TIME_1_CYCLE \<equiv> 0"
abbreviation (input) QSPI_CLOCK_MODE_3 :: u32 where "QSPI_CLOCK_MODE_3 \<equiv> QUADSPI_DCR_CKMODE"
abbreviation (input) QSPI_FLASH_ID_1 :: u32 where "QSPI_FLASH_ID_1 \<equiv> 0"
abbreviation (input) QSPI_DUALFLASH_DISABLE :: u32 where "QSPI_DUALFLASH_DISABLE \<equiv> 0"
abbreviation (input) QSPI_ADDRESS_24_BITS :: u32 where "QSPI_ADDRESS_24_BITS \<equiv> 0x00002000"
abbreviation (input) QSPI_INSTRUCTION_NONE :: u32 where "QSPI_INSTRUCTION_NONE \<equiv> 0"
abbreviation (input) QSPI_INSTRUCTION_1_LINE :: u32 where "QSPI_INSTRUCTION_1_LINE \<equiv> 0x00000100"
abbreviation (input) QSPI_ADDRESS_NONE :: u32 where "QSPI_ADDRESS_NONE \<equiv> 0"
abbreviation (input) QSPI_ADDRESS_1_LINE :: u32 where "QSPI_ADDRESS_1_LINE \<equiv> 0x00000400"
abbreviation (input) QSPI_ADDRESS_4_LINES :: u32 where "QSPI_ADDRESS_4_LINES \<equiv> 0x00000C00"
abbreviation (input) QSPI_ALTERNATE_BYTES_NONE :: u32 where "QSPI_ALTERNATE_BYTES_NONE \<equiv> 0"
abbreviation (input) QSPI_DATA_NONE :: u32 where "QSPI_DATA_NONE \<equiv> 0"
abbreviation (input) QSPI_DATA_1_LINE :: u32 where "QSPI_DATA_1_LINE \<equiv> 0x01000000"
abbreviation (input) QSPI_DATA_4_LINES :: u32 where "QSPI_DATA_4_LINES \<equiv> 0x03000000"
abbreviation (input) QSPI_DDR_MODE_DISABLE :: u32 where "QSPI_DDR_MODE_DISABLE \<equiv> 0"
abbreviation (input) QSPI_DDR_HHC_ANALOG_DELAY :: u32 where "QSPI_DDR_HHC_ANALOG_DELAY \<equiv> 0"
abbreviation (input) QSPI_SIOO_INST_EVERY_CMD :: u32 where "QSPI_SIOO_INST_EVERY_CMD \<equiv> 0"
abbreviation (input) QSPI_MATCH_MODE_AND :: u32 where "QSPI_MATCH_MODE_AND \<equiv> 0"
abbreviation (input) QSPI_AUTOMATIC_STOP_ENABLE :: u32 where
  "QSPI_AUTOMATIC_STOP_ENABLE \<equiv> QUADSPI_CR_APMS"
abbreviation (input) QSPI_TIMEOUT_COUNTER_DISABLE :: u32 where "QSPI_TIMEOUT_COUNTER_DISABLE \<equiv> 0"
abbreviation (input) QSPI_TIMEOUT_COUNTER_ENABLE :: u32 where
  "QSPI_TIMEOUT_COUNTER_ENABLE \<equiv> QUADSPI_CR_TCEN"

abbreviation (input) QSPI_FLAG_BUSY :: u32 where "QSPI_FLAG_BUSY \<equiv> QUADSPI_SR_BUSY"
abbreviation (input) QSPI_FLAG_TO :: u32 where "QSPI_FLAG_TO \<equiv> QUADSPI_SR_TOF"
abbreviation (input) QSPI_FLAG_SM :: u32 where "QSPI_FLAG_SM \<equiv> QUADSPI_SR_SMF"
abbreviation (input) QSPI_FLAG_FT :: u32 where "QSPI_FLAG_FT \<equiv> QUADSPI_SR_FTF"
abbreviation (input) QSPI_FLAG_TC :: u32 where "QSPI_FLAG_TC \<equiv> QUADSPI_SR_TCF"
abbreviation (input) QSPI_FLAG_TE :: u32 where "QSPI_FLAG_TE \<equiv> QUADSPI_SR_TEF"

abbreviation (input) QSPI_IT_TO :: u32 where "QSPI_IT_TO \<equiv> QUADSPI_CR_TOIE"
abbreviation (input) QSPI_IT_SM :: u32 where "QSPI_IT_SM \<equiv> QUADSPI_CR_SMIE"
abbreviation (input) QSPI_IT_FT :: u32 where "QSPI_IT_FT \<equiv> QUADSPI_CR_FTIE"
abbreviation (input) QSPI_IT_TC :: u32 where "QSPI_IT_TC \<equiv> QUADSPI_CR_TCIE"
abbreviation (input) QSPI_IT_TE :: u32 where "QSPI_IT_TE \<equiv> QUADSPI_CR_TEIE"

abbreviation (input) QSPI_FUNCTIONAL_MODE_INDIRECT_WRITE :: u32 where
  "QSPI_FUNCTIONAL_MODE_INDIRECT_WRITE \<equiv> 0"
abbreviation (input) QSPI_FUNCTIONAL_MODE_INDIRECT_READ :: u32 where
  "QSPI_FUNCTIONAL_MODE_INDIRECT_READ \<equiv> 0x04000000"
abbreviation (input) QSPI_FUNCTIONAL_MODE_AUTO_POLLING :: u32 where
  "QSPI_FUNCTIONAL_MODE_AUTO_POLLING \<equiv> 0x08000000"
abbreviation (input) QSPI_FUNCTIONAL_MODE_MEMORY_MAPPED :: u32 where
  "QSPI_FUNCTIONAL_MODE_MEMORY_MAPPED \<equiv> QUADSPI_CCR_FMODE"

section \<open>The world of the driver\<close>

text \<open>
  What a driver function can read and change: the handle (the global \<open>hqspi\<close>), the
  memory its buffer pointers point into, and the hardware.
\<close>

record 'h qworld =
  hq :: QSPI_HandleTypeDef
  mem :: memory
  hw :: 'h

type_synonym 'h hal_result = "(HAL_StatusTypeDef \<times> 'h qworld) option"

definition set_State :: "HAL_QSPI_StateTypeDef \<Rightarrow> 'h qworld \<Rightarrow> 'h qworld" where
  "set_State s w = w\<lparr>hq := (hq w)\<lparr>State := s\<rparr>\<rparr>"

definition set_ErrorCode :: "u32 \<Rightarrow> 'h qworld \<Rightarrow> 'h qworld" where
  "set_ErrorCode e w = w\<lparr>hq := (hq w)\<lparr>ErrorCode := e\<rparr>\<rparr>"

definition set_Lock :: "HAL_LockTypeDef \<Rightarrow> 'h qworld \<Rightarrow> 'h qworld" where
  "set_Lock l w = w\<lparr>hq := (hq w)\<lparr>Lock := l\<rparr>\<rparr>"

section \<open>Register macros\<close>

definition READ_REG :: "'h mmio \<Rightarrow> ioreg \<Rightarrow> 'h qworld \<Rightarrow> u32 \<times> 'h qworld" where
  "READ_REG io r w = (case io_rd io r (hw w) of (v, h) \<Rightarrow> (v, w\<lparr>hw := h\<rparr>))"

definition WRITE_REG :: "'h mmio \<Rightarrow> ioreg \<Rightarrow> u32 \<Rightarrow> 'h qworld \<Rightarrow> 'h qworld" where
  "WRITE_REG io r v w = w\<lparr>hw := io_wr io r v (hw w)\<rparr>"

definition READ_BIT :: "'h mmio \<Rightarrow> ioreg \<Rightarrow> u32 \<Rightarrow> 'h qworld \<Rightarrow> u32 \<times> 'h qworld" where
  "READ_BIT io r b w = (case READ_REG io r w of (v, w1) \<Rightarrow> (v AND b, w1))"

definition SET_BIT :: "'h mmio \<Rightarrow> ioreg \<Rightarrow> u32 \<Rightarrow> 'h qworld \<Rightarrow> 'h qworld" where
  "SET_BIT io r b w = (case READ_REG io r w of (v, w1) \<Rightarrow> WRITE_REG io r (v OR b) w1)"

definition CLEAR_BIT :: "'h mmio \<Rightarrow> ioreg \<Rightarrow> u32 \<Rightarrow> 'h qworld \<Rightarrow> 'h qworld" where
  "CLEAR_BIT io r b w = (case READ_REG io r w of (v, w1) \<Rightarrow> WRITE_REG io r (v AND NOT b) w1)"

definition MODIFY_REG :: "'h mmio \<Rightarrow> ioreg \<Rightarrow> u32 \<Rightarrow> u32 \<Rightarrow> 'h qworld \<Rightarrow> 'h qworld" where
  "MODIFY_REG io r clearmask setmask w =
     (case READ_REG io r w of (v, w1) \<Rightarrow> WRITE_REG io r ((v AND NOT clearmask) OR setmask) w1)"

definition HAL_QSPI_GET_FLAG :: "'h mmio \<Rightarrow> u32 \<Rightarrow> 'h qworld \<Rightarrow> FlagStatus \<times> 'h qworld" where
  "HAL_QSPI_GET_FLAG io flag w =
     (case READ_BIT io SR flag w of (v, w1) \<Rightarrow> (if v \<noteq> 0 then SET else RESET, w1))"

definition HAL_QSPI_CLEAR_FLAG :: "'h mmio \<Rightarrow> u32 \<Rightarrow> 'h qworld \<Rightarrow> 'h qworld" where
  "HAL_QSPI_CLEAR_FLAG io flag w = WRITE_REG io FCR flag w"

definition HAL_QSPI_ENABLE :: "'h mmio \<Rightarrow> 'h qworld \<Rightarrow> 'h qworld" where
  "HAL_QSPI_ENABLE io w = SET_BIT io CR QUADSPI_CR_EN w"

definition HAL_QSPI_DISABLE :: "'h mmio \<Rightarrow> 'h qworld \<Rightarrow> 'h qworld" where
  "HAL_QSPI_DISABLE io w = CLEAR_BIT io CR QUADSPI_CR_EN w"

definition HAL_QSPI_ENABLE_IT :: "'h mmio \<Rightarrow> u32 \<Rightarrow> 'h qworld \<Rightarrow> 'h qworld" where
  "HAL_QSPI_ENABLE_IT io it w = SET_BIT io CR it w"

definition HAL_QSPI_DISABLE_IT :: "'h mmio \<Rightarrow> u32 \<Rightarrow> 'h qworld \<Rightarrow> 'h qworld" where
  "HAL_QSPI_DISABLE_IT io it w = CLEAR_BIT io CR it w"

definition get_tick :: "'h mmio \<Rightarrow> 'h qworld \<Rightarrow> u32 \<times> 'h qworld" where
  "get_tick io w = (case io_tick io (hw w) of (t, h) \<Rightarrow> (t, w\<lparr>hw := h\<rparr>))"

section \<open>Waiting for a flag\<close>

text \<open>
  The busy-wait loop. The subtraction of the tick values wraps around as in C; with
  \<open>HAL_MAX_DELAY\<close> the loop has no other exit than the flag.
\<close>

partial_function (option) QSPI_WaitFlagStateUntilTimeout ::
  "'h mmio \<Rightarrow> u32 \<Rightarrow> FlagStatus \<Rightarrow> u32 \<Rightarrow> u32 \<Rightarrow> 'h qworld \<Rightarrow> 'h hal_result" where
  "QSPI_WaitFlagStateUntilTimeout io Flag st Tickstart timeout w =
     (let (f, w1) = HAL_QSPI_GET_FLAG io Flag w in
      if f = st then Some (HAL_OK, w1)
      else if timeout \<noteq> HAL_MAX_DELAY then
        (let (t, w2) = get_tick io w1 in
         if t - Tickstart > timeout \<or> timeout = 0
         then Some (HAL_ERROR,
                set_ErrorCode (ErrorCode (hq w2) OR HAL_QSPI_ERROR_TIMEOUT)
                  (set_State HAL_QSPI_STATE_ERROR w2))
         else QSPI_WaitFlagStateUntilTimeout io Flag st Tickstart timeout w2)
      else QSPI_WaitFlagStateUntilTimeout io Flag st Tickstart timeout w1)"

section \<open>Configuration of the communication registers\<close>

text \<open>
  \<open>QSPI_Config\<close> writes the data length, the alternate bytes, the communication
  configuration and the address, each only when the command has that phase. The seven
  \<open>WRITE_REG\<close>s of \<open>CCR\<close> in the C function differ in the fields they include.
\<close>

definition ccr_base :: "QSPI_CommandTypeDef \<Rightarrow> u32" where
  "ccr_base cmd = DdrMode cmd OR DdrHoldHalfCycle cmd OR SIOOMode cmd OR
     DataMode cmd OR push_bit QUADSPI_CCR_DCYC_Pos (DummyCycles cmd)"

definition write_AR :: "'h mmio \<Rightarrow> QSPI_CommandTypeDef \<Rightarrow> u32 \<Rightarrow> 'h qworld \<Rightarrow> 'h qworld" where
  "write_AR io cmd FunctionalMode w =
     (if FunctionalMode \<noteq> QSPI_FUNCTIONAL_MODE_MEMORY_MAPPED
      then WRITE_REG io AR (Address cmd) w else w)"

definition QSPI_Config ::
  "'h mmio \<Rightarrow> QSPI_CommandTypeDef \<Rightarrow> u32 \<Rightarrow> 'h qworld \<Rightarrow> 'h qworld" where
  "QSPI_Config io cmd FunctionalMode w0 =
    (let w = (if DataMode cmd \<noteq> QSPI_DATA_NONE \<and>
                 FunctionalMode \<noteq> QSPI_FUNCTIONAL_MODE_MEMORY_MAPPED
              then WRITE_REG io DLR (NbData cmd - 1) w0 else w0) in
     if InstructionMode cmd \<noteq> QSPI_INSTRUCTION_NONE then
       if AlternateByteMode cmd \<noteq> QSPI_ALTERNATE_BYTES_NONE then
         (let w1 = WRITE_REG io ABR (AlternateBytes cmd) w in
          if AddressMode cmd \<noteq> QSPI_ADDRESS_NONE then
            write_AR io cmd FunctionalMode
              (WRITE_REG io CCR (ccr_base cmd OR AlternateBytesSize cmd OR
                 AlternateByteMode cmd OR AddressSize cmd OR AddressMode cmd OR
                 InstructionMode cmd OR Instruction cmd OR FunctionalMode) w1)
          else
            WRITE_REG io CCR (ccr_base cmd OR AlternateBytesSize cmd OR
               AlternateByteMode cmd OR AddressMode cmd OR InstructionMode cmd OR
               Instruction cmd OR FunctionalMode) w1)
       else
         if AddressMode cmd \<noteq> QSPI_ADDRESS_NONE then
           write_AR io cmd FunctionalMode
             (WRITE_REG io CCR (ccr_base cmd OR AlternateByteMode cmd OR AddressSize cmd OR
                AddressMode cmd OR InstructionMode cmd OR Instruction cmd OR FunctionalMode) w)
         else
           WRITE_REG io CCR (ccr_base cmd OR AlternateByteMode cmd OR AddressMode cmd OR
              InstructionMode cmd OR Instruction cmd OR FunctionalMode) w
     else
       if AlternateByteMode cmd \<noteq> QSPI_ALTERNATE_BYTES_NONE then
         (let w1 = WRITE_REG io ABR (AlternateBytes cmd) w in
          if AddressMode cmd \<noteq> QSPI_ADDRESS_NONE then
            write_AR io cmd FunctionalMode
              (WRITE_REG io CCR (ccr_base cmd OR AlternateBytesSize cmd OR
                 AlternateByteMode cmd OR AddressSize cmd OR AddressMode cmd OR
                 InstructionMode cmd OR FunctionalMode) w1)
          else
            WRITE_REG io CCR (ccr_base cmd OR AlternateBytesSize cmd OR
               AlternateByteMode cmd OR AddressMode cmd OR InstructionMode cmd OR
               FunctionalMode) w1)
       else
         if AddressMode cmd \<noteq> QSPI_ADDRESS_NONE then
           write_AR io cmd FunctionalMode
             (WRITE_REG io CCR (ccr_base cmd OR AlternateByteMode cmd OR AddressSize cmd OR
                AddressMode cmd OR InstructionMode cmd OR FunctionalMode) w)
         else if DataMode cmd \<noteq> QSPI_DATA_NONE then
           WRITE_REG io CCR (ccr_base cmd OR AlternateByteMode cmd OR AddressMode cmd OR
              InstructionMode cmd OR FunctionalMode) w
         else w)"

section \<open>Initialisation\<close>

text \<open>A handle argument: the null pointer, or the address of the global handle.\<close>

datatype handle_ptr = NULL_HANDLE | HQSPI

definition HAL_QSPI_SetTimeout :: "u32 \<Rightarrow> 'h qworld \<Rightarrow> 'h qworld" where
  "HAL_QSPI_SetTimeout t w = w\<lparr>hq := (hq w)\<lparr>Timeout := t\<rparr>\<rparr>"

text \<open>
  \<open>HAL_QSPI_MspInit\<close> is a weak symbol that the user of the driver overrides, so the
  initialisation takes it as an argument.
\<close>

definition HAL_QSPI_Init ::
  "'h mmio \<Rightarrow> ('h qworld \<Rightarrow> 'h qworld) \<Rightarrow> handle_ptr \<Rightarrow> 'h qworld \<Rightarrow> 'h hal_result" where
  "HAL_QSPI_Init io MspInit p w0 =
    (let (tickstart, w) = get_tick io w0 in
     if p = NULL_HANDLE then Some (HAL_ERROR, w)
     else if Lock (hq w) = HAL_LOCKED then Some (HAL_BUSY, w)
     else
       (let w1 = set_Lock HAL_LOCKED w;
            w2 = (if State (hq w1) = HAL_QSPI_STATE_RESET
                  then HAL_QSPI_SetTimeout HAL_QPSI_TIMEOUT_DEFAULT_VALUE
                         (MspInit (set_Lock HAL_UNLOCKED w1))
                  else w1);
            w3 = MODIFY_REG io CR QUADSPI_CR_FTHRES
                   (push_bit QUADSPI_CR_FTHRES_Pos (FifoThreshold (Init (hq w2)) - 1)) w2
        in do {
          (status, w4) \<leftarrow> QSPI_WaitFlagStateUntilTimeout io QSPI_FLAG_BUSY RESET tickstart
                            (Timeout (hq w3)) w3;
          let w5 = (if status = HAL_OK
                    then
                      (let i = Init (hq w4);
                           a = MODIFY_REG io CR (QUADSPI_CR_PRESCALER OR QUADSPI_CR_SSHIFT OR
                                 QUADSPI_CR_FSEL OR QUADSPI_CR_DFM)
                                 (push_bit QUADSPI_CR_PRESCALER_Pos (ClockPrescaler i) OR
                                  SampleShifting i OR FlashID i OR DualFlash i) w4;
                           b = MODIFY_REG io DCR (QUADSPI_DCR_FSIZE OR QUADSPI_DCR_CSHT OR
                                 QUADSPI_DCR_CKMODE)
                                 (push_bit QUADSPI_DCR_FSIZE_Pos (FlashSize i) OR
                                  ChipSelectHighTime i OR ClockMode i) a
                       in set_State HAL_QSPI_STATE_READY
                            (set_ErrorCode HAL_QSPI_ERROR_NONE (HAL_QSPI_ENABLE io b)))
                    else w4);
          Some (status, set_Lock HAL_UNLOCKED w5)
        }))"

definition HAL_QSPI_DeInit ::
  "'h mmio \<Rightarrow> ('h qworld \<Rightarrow> 'h qworld) \<Rightarrow> handle_ptr \<Rightarrow> 'h qworld \<Rightarrow> 'h hal_result" where
  "HAL_QSPI_DeInit io MspDeInit p w =
    (if p = NULL_HANDLE then Some (HAL_ERROR, w)
     else if Lock (hq w) = HAL_LOCKED then Some (HAL_BUSY, w)
     else
       (let w1 = MspDeInit (HAL_QSPI_DISABLE io (set_Lock HAL_LOCKED w));
            w2 = set_State HAL_QSPI_STATE_RESET (set_ErrorCode HAL_QSPI_ERROR_NONE w1)
        in Some (HAL_OK, set_Lock HAL_UNLOCKED w2)))"

section \<open>Blocking commands and transfers\<close>

definition HAL_QSPI_Command ::
  "'h mmio \<Rightarrow> QSPI_CommandTypeDef \<Rightarrow> u32 \<Rightarrow> 'h qworld \<Rightarrow> 'h hal_result" where
  "HAL_QSPI_Command io cmd timeout w0 =
    (let (tickstart, w) = get_tick io w0 in
     if Lock (hq w) = HAL_LOCKED then Some (HAL_BUSY, w)
     else do {
       (status, w') \<leftarrow>
         (let w1 = set_Lock HAL_LOCKED w in
          if State (hq w1) = HAL_QSPI_STATE_READY then do {
            let w2 = set_State HAL_QSPI_STATE_BUSY (set_ErrorCode HAL_QSPI_ERROR_NONE w1);
            (status, w3) \<leftarrow> QSPI_WaitFlagStateUntilTimeout io QSPI_FLAG_BUSY RESET tickstart timeout w2;
            if status = HAL_OK then do {
              let w4 = QSPI_Config io cmd QSPI_FUNCTIONAL_MODE_INDIRECT_WRITE w3;
              if DataMode cmd = QSPI_DATA_NONE then do {
                (status, w5) \<leftarrow> QSPI_WaitFlagStateUntilTimeout io QSPI_FLAG_TC SET tickstart timeout w4;
                Some (status,
                  if status = HAL_OK
                  then set_State HAL_QSPI_STATE_READY (HAL_QSPI_CLEAR_FLAG io QSPI_FLAG_TC w5)
                  else w5)
              }
              else Some (status, set_State HAL_QSPI_STATE_READY w4)
            }
            else Some (status, w3)
          }
          else Some (HAL_BUSY, w1));
       Some (status, set_Lock HAL_UNLOCKED w')
     })"

text \<open>One round of the transmit loop: the byte under the pointer goes to the data register.\<close>

definition tx_byte :: "'h mmio \<Rightarrow> 'h qworld \<Rightarrow> 'h qworld" where
  "tx_byte io w =
     w\<lparr>hw := io_wr8 io (mem w (pTxBuffPtr (hq w))) (hw w),
       hq := (hq w)\<lparr>pTxBuffPtr := pTxBuffPtr (hq w) + 1, TxXferCount := TxXferCount (hq w) - 1\<rparr>\<rparr>"

partial_function (option) QSPI_tx_loop ::
  "'h mmio \<Rightarrow> u32 \<Rightarrow> u32 \<Rightarrow> 'h qworld \<Rightarrow> 'h hal_result" where
  "QSPI_tx_loop io tickstart timeout w =
    (if TxXferCount (hq w) > 0 then do {
       (status, w1) \<leftarrow> QSPI_WaitFlagStateUntilTimeout io QSPI_FLAG_FT SET tickstart timeout w;
       if status \<noteq> HAL_OK then Some (status, w1)
       else QSPI_tx_loop io tickstart timeout (tx_byte io w1)
     }
     else Some (HAL_OK, w))"

text \<open>The end of a blocking transfer: wait for the transfer-complete flag and clear it.\<close>

definition QSPI_finish_xfer :: "'h mmio \<Rightarrow> u32 \<Rightarrow> u32 \<Rightarrow> 'h qworld \<Rightarrow> 'h hal_result" where
  "QSPI_finish_xfer io tickstart timeout w = do {
     (status, w1) \<leftarrow> QSPI_WaitFlagStateUntilTimeout io QSPI_FLAG_TC SET tickstart timeout w;
     Some (status, if status = HAL_OK then HAL_QSPI_CLEAR_FLAG io QSPI_FLAG_TC w1 else w1)
   }"

definition HAL_QSPI_Transmit ::
  "'h mmio \<Rightarrow> u32 \<Rightarrow> u32 \<Rightarrow> 'h qworld \<Rightarrow> 'h hal_result" where
  "HAL_QSPI_Transmit io pData timeout w0 =
    (let (tickstart, w) = get_tick io w0 in
     if Lock (hq w) = HAL_LOCKED then Some (HAL_BUSY, w)
     else do {
       (status, w') \<leftarrow>
         (let w1 = set_Lock HAL_LOCKED w in
          if State (hq w1) = HAL_QSPI_STATE_READY then
            (let w2 = set_ErrorCode HAL_QSPI_ERROR_NONE w1 in
             if pData \<noteq> 0 then do {
               let w3 = set_State HAL_QSPI_STATE_BUSY_INDIRECT_TX w2;
               let (d1, w4) = READ_REG io DLR w3;
               let (d2, w5) = READ_REG io DLR w4;
               let w6 = w5\<lparr>hq := (hq w5)\<lparr>TxXferCount := d1 + 1, TxXferSize := d2 + 1,
                                          pTxBuffPtr := pData\<rparr>\<rparr>;
               let w7 = MODIFY_REG io CCR QUADSPI_CCR_FMODE QSPI_FUNCTIONAL_MODE_INDIRECT_WRITE w6;
               (status, w8) \<leftarrow> QSPI_tx_loop io tickstart timeout w7;
               (status, w9) \<leftarrow> (if status = HAL_OK then QSPI_finish_xfer io tickstart timeout w8
                                else Some (status, w8));
               Some (status, set_State HAL_QSPI_STATE_READY w9)
             }
             else Some (HAL_ERROR,
                    set_ErrorCode (ErrorCode (hq w2) OR HAL_QSPI_ERROR_INVALID_PARAM) w2))
          else Some (HAL_BUSY, w1));
       Some (status, set_Lock HAL_UNLOCKED w')
     })"

definition rx_byte :: "'h mmio \<Rightarrow> 'h qworld \<Rightarrow> 'h qworld" where
  "rx_byte io w =
     (case io_rd8 io (hw w) of (b, h) \<Rightarrow>
        w\<lparr>hw := h, mem := (mem w)(pRxBuffPtr (hq w) := b),
          hq := (hq w)\<lparr>pRxBuffPtr := pRxBuffPtr (hq w) + 1, RxXferCount := RxXferCount (hq w) - 1\<rparr>\<rparr>)"

partial_function (option) QSPI_rx_loop ::
  "'h mmio \<Rightarrow> u32 \<Rightarrow> u32 \<Rightarrow> 'h qworld \<Rightarrow> 'h hal_result" where
  "QSPI_rx_loop io tickstart timeout w =
    (if RxXferCount (hq w) > 0 then do {
       (status, w1) \<leftarrow> QSPI_WaitFlagStateUntilTimeout io (QSPI_FLAG_FT OR QSPI_FLAG_TC) SET
                         tickstart timeout w;
       if status \<noteq> HAL_OK then Some (status, w1)
       else QSPI_rx_loop io tickstart timeout (rx_byte io w1)
     }
     else Some (HAL_OK, w))"

definition HAL_QSPI_Receive ::
  "'h mmio \<Rightarrow> u32 \<Rightarrow> u32 \<Rightarrow> 'h qworld \<Rightarrow> 'h hal_result" where
  "HAL_QSPI_Receive io pData timeout w00 =
    (let (tickstart, w0) = get_tick io w00;
         (addr_reg, w) = READ_REG io AR w0 in
     if Lock (hq w) = HAL_LOCKED then Some (HAL_BUSY, w)
     else do {
       (status, w') \<leftarrow>
         (let w1 = set_Lock HAL_LOCKED w in
          if State (hq w1) = HAL_QSPI_STATE_READY then
            (let w2 = set_ErrorCode HAL_QSPI_ERROR_NONE w1 in
             if pData \<noteq> 0 then do {
               let w3 = set_State HAL_QSPI_STATE_BUSY_INDIRECT_RX w2;
               let (d1, w4) = READ_REG io DLR w3;
               let (d2, w5) = READ_REG io DLR w4;
               let w6 = w5\<lparr>hq := (hq w5)\<lparr>RxXferCount := d1 + 1, RxXferSize := d2 + 1,
                                          pRxBuffPtr := pData\<rparr>\<rparr>;
               let w7 = MODIFY_REG io CCR QUADSPI_CCR_FMODE QSPI_FUNCTIONAL_MODE_INDIRECT_READ w6;
               let w8 = WRITE_REG io AR addr_reg w7;
               (status, w9) \<leftarrow> QSPI_rx_loop io tickstart timeout w8;
               (status, w10) \<leftarrow> (if status = HAL_OK then QSPI_finish_xfer io tickstart timeout w9
                                 else Some (status, w9));
               Some (status, set_State HAL_QSPI_STATE_READY w10)
             }
             else Some (HAL_ERROR,
                    set_ErrorCode (ErrorCode (hq w2) OR HAL_QSPI_ERROR_INVALID_PARAM) w2))
          else Some (HAL_BUSY, w1));
       Some (status, set_Lock HAL_UNLOCKED w')
     })"

section \<open>Automatic polling and memory-mapped mode\<close>

text \<open>
  The command structure is updated in place (\<open>cmd->NbData\<close>); the model passes the
  updated structure to \<open>QSPI_Config\<close>. No caller in the repository reads it back.
\<close>

definition HAL_QSPI_AutoPolling ::
  "'h mmio \<Rightarrow> QSPI_CommandTypeDef \<Rightarrow> QSPI_AutoPollingTypeDef \<Rightarrow> u32 \<Rightarrow> 'h qworld \<Rightarrow> 'h hal_result" where
  "HAL_QSPI_AutoPolling io cmd cfg timeout w0 =
    (let (tickstart, w) = get_tick io w0 in
     if Lock (hq w) = HAL_LOCKED then Some (HAL_BUSY, w)
     else do {
       (status, w') \<leftarrow>
         (let w1 = set_Lock HAL_LOCKED w in
          if State (hq w1) = HAL_QSPI_STATE_READY then do {
            let w2 = set_State HAL_QSPI_STATE_BUSY_AUTO_POLLING
                       (set_ErrorCode HAL_QSPI_ERROR_NONE w1);
            (status, w3) \<leftarrow> QSPI_WaitFlagStateUntilTimeout io QSPI_FLAG_BUSY RESET tickstart timeout w2;
            if status = HAL_OK then do {
              let w4 = WRITE_REG io PIR (Interval cfg)
                         (WRITE_REG io PSMKR (Mask cfg) (WRITE_REG io PSMAR (Match cfg) w3));
              let w5 = MODIFY_REG io CR (QUADSPI_CR_PMM OR QUADSPI_CR_APMS)
                         (MatchMode cfg OR QSPI_AUTOMATIC_STOP_ENABLE) w4;
              let w6 = QSPI_Config io (cmd\<lparr>NbData := StatusBytesSize cfg\<rparr>)
                         QSPI_FUNCTIONAL_MODE_AUTO_POLLING w5;
              (status, w7) \<leftarrow> QSPI_WaitFlagStateUntilTimeout io QSPI_FLAG_SM SET tickstart timeout w6;
              Some (status,
                if status = HAL_OK
                then set_State HAL_QSPI_STATE_READY (HAL_QSPI_CLEAR_FLAG io QSPI_FLAG_SM w7)
                else w7)
            }
            else Some (status, w3)
          }
          else Some (HAL_BUSY, w1));
       Some (status, set_Lock HAL_UNLOCKED w')
     })"

definition HAL_QSPI_MemoryMapped ::
  "'h mmio \<Rightarrow> QSPI_CommandTypeDef \<Rightarrow> QSPI_MemoryMappedTypeDef \<Rightarrow> 'h qworld \<Rightarrow> 'h hal_result" where
  "HAL_QSPI_MemoryMapped io cmd cfg w0 =
    (let (tickstart, w) = get_tick io w0 in
     if Lock (hq w) = HAL_LOCKED then Some (HAL_BUSY, w)
     else do {
       (status, w') \<leftarrow>
         (let w1 = set_Lock HAL_LOCKED w in
          if State (hq w1) = HAL_QSPI_STATE_READY then do {
            let w2 = set_State HAL_QSPI_STATE_BUSY_MEM_MAPPED
                       (set_ErrorCode HAL_QSPI_ERROR_NONE w1);
            (status, w3) \<leftarrow> QSPI_WaitFlagStateUntilTimeout io QSPI_FLAG_BUSY RESET tickstart
                              (Timeout (hq w2)) w2;
            if status = HAL_OK then do {
              let w4 = MODIFY_REG io CR QUADSPI_CR_TCEN (TimeOutActivation cfg) w3;
              let w5 = (if TimeOutActivation cfg = QSPI_TIMEOUT_COUNTER_ENABLE
                        then HAL_QSPI_ENABLE_IT io QSPI_IT_TO
                               (HAL_QSPI_CLEAR_FLAG io QSPI_FLAG_TO
                                 (WRITE_REG io LPTR (TimeOutPeriod cfg) w4))
                        else w4);
              Some (status, QSPI_Config io cmd QSPI_FUNCTIONAL_MODE_MEMORY_MAPPED w5)
            }
            else Some (status, w3)
          }
          else Some (HAL_BUSY, w1));
       Some (status, set_Lock HAL_UNLOCKED w')
     })"

section \<open>State, abort and configuration of a running driver\<close>

definition HAL_QSPI_GetState :: "'h qworld \<Rightarrow> HAL_QSPI_StateTypeDef" where
  "HAL_QSPI_GetState w = State (hq w)"

definition HAL_QSPI_GetError :: "'h qworld \<Rightarrow> u32" where
  "HAL_QSPI_GetError w = ErrorCode (hq w)"

definition HAL_QSPI_Abort :: "'h mmio \<Rightarrow> 'h qworld \<Rightarrow> 'h hal_result" where
  "HAL_QSPI_Abort io w0 =
    (let (tickstart, w) = get_tick io w0 in
     if state_code (State (hq w)) AND 2 \<noteq> 0 then
       (let w1 = set_Lock HAL_UNLOCKED w;
            (dma, w2) = READ_BIT io CR QUADSPI_CR_DMAEN w1;
            w3 = (if dma \<noteq> 0 then
                    (let a = CLEAR_BIT io CR QUADSPI_CR_DMAEN w2;
                         (st, h) = mdma_abort io (hw a);
                         b = a\<lparr>hw := h\<rparr>
                     in if st \<noteq> HAL_OK
                        then set_ErrorCode (ErrorCode (hq b) OR HAL_QSPI_ERROR_DMA) b else b)
                  else w2);
            w4 = SET_BIT io CR QUADSPI_CR_ABORT w3
        in do {
          (status, w5) \<leftarrow> QSPI_WaitFlagStateUntilTimeout io QSPI_FLAG_TC SET tickstart
                            (Timeout (hq w4)) w4;
          (status, w6) \<leftarrow>
            (if status = HAL_OK
             then (let c = HAL_QSPI_CLEAR_FLAG io QSPI_FLAG_TC w5
                   in QSPI_WaitFlagStateUntilTimeout io QSPI_FLAG_BUSY RESET tickstart
                        (Timeout (hq c)) c)
             else Some (status, w5));
          Some (status, if status = HAL_OK then set_State HAL_QSPI_STATE_READY w6 else w6)
        })
     else Some (HAL_OK, w))"

definition HAL_QSPI_SetFifoThreshold :: "'h mmio \<Rightarrow> u32 \<Rightarrow> 'h qworld \<Rightarrow> 'h hal_result" where
  "HAL_QSPI_SetFifoThreshold io Threshold w =
    (if Lock (hq w) = HAL_LOCKED then Some (HAL_BUSY, w)
     else
       (let w1 = set_Lock HAL_LOCKED w;
            (status, w2) =
              (if State (hq w1) = HAL_QSPI_STATE_READY
               then (let a = w1\<lparr>hq := (hq w1)\<lparr>Init := (Init (hq w1))\<lparr>FifoThreshold := Threshold\<rparr>\<rparr>\<rparr>
                     in (HAL_OK, MODIFY_REG io CR QUADSPI_CR_FTHRES
                           (push_bit QUADSPI_CR_FTHRES_Pos (FifoThreshold (Init (hq a)) - 1)) a))
               else (HAL_BUSY, w1))
        in Some (status, set_Lock HAL_UNLOCKED w2)))"

definition HAL_QSPI_GetFifoThreshold :: "'h mmio \<Rightarrow> 'h qworld \<Rightarrow> u32 \<times> 'h qworld" where
  "HAL_QSPI_GetFifoThreshold io w =
    (case READ_BIT io CR QUADSPI_CR_FTHRES w of (v, w1) \<Rightarrow>
       (drop_bit QUADSPI_CR_FTHRES_Pos v + 1, w1))"

definition HAL_QSPI_SetFlashID :: "'h mmio \<Rightarrow> u32 \<Rightarrow> 'h qworld \<Rightarrow> 'h hal_result" where
  "HAL_QSPI_SetFlashID io fid w =
    (if Lock (hq w) = HAL_LOCKED then Some (HAL_BUSY, w)
     else
       (let w1 = set_Lock HAL_LOCKED w;
            (status, w2) =
              (if State (hq w1) = HAL_QSPI_STATE_READY
               then (let a = w1\<lparr>hq := (hq w1)\<lparr>Init := (Init (hq w1))\<lparr>FlashID := fid\<rparr>\<rparr>\<rparr>
                     in (HAL_OK, MODIFY_REG io CR QUADSPI_CR_FSEL fid a))
               else (HAL_BUSY, w1))
        in Some (status, set_Lock HAL_UNLOCKED w2)))"

declare QSPI_WaitFlagStateUntilTimeout.simps [code]
declare QSPI_tx_loop.simps [code]
declare QSPI_rx_loop.simps [code]

end
