(* ===== verification/Hal_Qspi.thy ===== *)
theory Hal_Qspi
  imports Hal_Qspi_Defs
begin

text \<open>
  What the blocking operations of the QUADSPI driver guarantee, for any hardware: which handle
  fields they change, what they write to the bus, when they refuse to run.
\<close>

section \<open>Elementary accesses\<close>

lemma READ_REG_eq: "READ_REG io r w = (fst (io_rd io r (hw w)), w\<lparr>hw := snd (io_rd io r (hw w))\<rparr>)"
  by (simp add: READ_REG_def split: prod.splits)

lemma get_tick_eq: "get_tick io w = (fst (io_tick io (hw w)), w\<lparr>hw := snd (io_tick io (hw w))\<rparr>)"
  by (simp add: get_tick_def split: prod.splits)

lemma READ_BIT_eq:
  "READ_BIT io r b w = (fst (io_rd io r (hw w)) AND b, w\<lparr>hw := snd (io_rd io r (hw w))\<rparr>)"
  by (simp add: READ_BIT_def READ_REG_eq)

lemma MODIFY_REG_eq:
  "MODIFY_REG io r c s w =
     w\<lparr>hw := io_wr io r ((fst (io_rd io r (hw w)) AND NOT c) OR s) (snd (io_rd io r (hw w)))\<rparr>"
  by (simp add: MODIFY_REG_def READ_REG_eq WRITE_REG_def)

lemma SET_BIT_eq:
  "SET_BIT io r b w = w\<lparr>hw := io_wr io r (fst (io_rd io r (hw w)) OR b) (snd (io_rd io r (hw w)))\<rparr>"
  by (simp add: SET_BIT_def READ_REG_eq WRITE_REG_def)

lemma CLEAR_BIT_eq:
  "CLEAR_BIT io r b w =
     w\<lparr>hw := io_wr io r (fst (io_rd io r (hw w)) AND NOT b) (snd (io_rd io r (hw w)))\<rparr>"
  by (simp add: CLEAR_BIT_def READ_REG_eq WRITE_REG_def)

lemma GET_FLAG_eq:
  "HAL_QSPI_GET_FLAG io f w =
     (if fst (io_rd io SR (hw w)) AND f \<noteq> 0 then SET else RESET, w\<lparr>hw := snd (io_rd io SR (hw w))\<rparr>)"
  by (simp add: HAL_QSPI_GET_FLAG_def READ_BIT_eq)

lemmas reg_simps = READ_REG_eq get_tick_eq READ_BIT_eq MODIFY_REG_eq SET_BIT_eq CLEAR_BIT_eq
  GET_FLAG_eq WRITE_REG_def HAL_QSPI_CLEAR_FLAG_def HAL_QSPI_ENABLE_def HAL_QSPI_DISABLE_def
  HAL_QSPI_ENABLE_IT_def HAL_QSPI_DISABLE_IT_def

lemmas handle_simps = set_State_def set_ErrorCode_def set_Lock_def HAL_QSPI_SetTimeout_def

section \<open>The wait loop\<close>

text \<open>
  A wait that returns has either seen the flag, with nothing but the hardware changed, or has
  timed out, with the handle in the error state. It only reads.
\<close>

definition wait_result ::
  "'h mmio \<Rightarrow> u32 \<Rightarrow> 'h qworld \<Rightarrow> HAL_StatusTypeDef \<times> 'h qworld \<Rightarrow> bool" where
  "wait_result io timeout w r \<longleftrightarrow>
     (\<exists>h. bus io (hw w) [] h \<and>
       (r = (HAL_OK, w\<lparr>hw := h\<rparr>) \<or>
        timeout \<noteq> HAL_MAX_DELAY \<and>
        r = (HAL_ERROR, w\<lparr>hw := h, hq := (hq w)\<lparr>State := HAL_QSPI_STATE_ERROR,
               ErrorCode := ErrorCode (hq w) OR HAL_QSPI_ERROR_TIMEOUT\<rparr>\<rparr>)))"

lemma wait_result_step:
  assumes "bus io (hw w) [] h" and "wait_result io timeout (w\<lparr>hw := h\<rparr>) r"
  shows "wait_result io timeout w r"
proof -
  from assms(2) obtain h' where "bus io h [] h'" and
    "r = (HAL_OK, w\<lparr>hw := h'\<rparr>) \<or> timeout \<noteq> HAL_MAX_DELAY \<and>
       r = (HAL_ERROR, w\<lparr>hw := h', hq := (hq w)\<lparr>State := HAL_QSPI_STATE_ERROR,
               ErrorCode := ErrorCode (hq w) OR HAL_QSPI_ERROR_TIMEOUT\<rparr>\<rparr>)"
    by (auto simp: wait_result_def)
  moreover from \<open>bus io h [] h'\<close> assms(1) have "bus io (hw w) ([] @ []) h'" by (rule bus_trans)
  ultimately show ?thesis by (auto simp: wait_result_def)
qed

lemma wait_spec:
  assumes "QSPI_WaitFlagStateUntilTimeout io f st t0 timeout w = Some r"
  shows "wait_result io timeout w r"
proof (rule QSPI_WaitFlagStateUntilTimeout.raw_induct
    [where P = "\<lambda>io f st t0 timeout w r. wait_result io timeout w r", OF _ assms])
  fix wait :: "'b mmio \<Rightarrow> u32 \<Rightarrow> FlagStatus \<Rightarrow> u32 \<Rightarrow> u32 \<Rightarrow> 'b qworld \<Rightarrow> 'b hal_result"
  fix io :: "'b mmio" and f :: u32 and st :: FlagStatus and t0 timeout :: u32
    and w :: "'b qworld" and r
  assume IH: "\<And>io f st t0 timeout w r.
      wait io f st t0 timeout w = Some r \<Longrightarrow> wait_result io timeout w r"
    and eq: "(let (fl, w1) = HAL_QSPI_GET_FLAG io f w
          in if fl = st then Some (HAL_OK, w1)
             else if timeout \<noteq> HAL_MAX_DELAY
                  then let (t, w2) = get_tick io w1
                       in if t - t0 > timeout \<or> timeout = 0
                          then Some (HAL_ERROR,
                            set_ErrorCode (ErrorCode (hq w2) OR HAL_QSPI_ERROR_TIMEOUT)
                              (set_State HAL_QSPI_STATE_ERROR w2))
                          else wait io f st t0 timeout w2
                  else wait io f st t0 timeout w1) = Some r"
  define h1 where "h1 = snd (io_rd io SR (hw w))"
  define h2 where "h2 = snd (io_tick io h1)"
  have b1: "bus io (hw w) [] h1" unfolding h1_def by (intro bus.intros)
  then have b2: "bus io (hw w) [] h2" unfolding h2_def by (rule bus.intros)
  define fl where "fl = (if fst (io_rd io SR (hw w)) AND f \<noteq> 0 then SET else RESET)"
  define late where "late \<longleftrightarrow> fst (io_tick io h1) - t0 > timeout \<or> timeout = 0"
  have eq': "(if fl = st then Some (HAL_OK, w\<lparr>hw := h1\<rparr>)
       else if timeout \<noteq> HAL_MAX_DELAY
       then if late
            then Some (HAL_ERROR, w\<lparr>hw := h2, hq := (hq w)\<lparr>State := HAL_QSPI_STATE_ERROR,
                    ErrorCode := ErrorCode (hq w) OR HAL_QSPI_ERROR_TIMEOUT\<rparr>\<rparr>)
            else wait io f st t0 timeout (w\<lparr>hw := h2\<rparr>)
       else wait io f st t0 timeout (w\<lparr>hw := h1\<rparr>)) = Some r"
    using eq by (simp add: reg_simps handle_simps fl_def late_def h1_def h2_def
        cong: if_cong split del: if_split)
  show "wait_result io timeout w r"
  proof (cases "fl = st \<or> timeout \<noteq> HAL_MAX_DELAY \<and> late")
    case True
    with eq' b1 b2 show ?thesis by (auto simp: wait_result_def split: if_splits)
  next
    case False
    with eq' obtain h where "bus io (hw w) [] h" "wait io f st t0 timeout (w\<lparr>hw := h\<rparr>) = Some r"
      using b1 b2 by (auto split: if_splits)
    then show ?thesis by (blast intro: wait_result_step IH)
  qed
qed

lemma wait_cases:
  assumes "QSPI_WaitFlagStateUntilTimeout io f st t0 timeout w = Some (s, w')"
  obtains (ok) h where "s = HAL_OK" "w' = w\<lparr>hw := h\<rparr>" "bus io (hw w) [] h"
  | (timeout) h where "s = HAL_ERROR" "timeout \<noteq> HAL_MAX_DELAY" "bus io (hw w) [] h"
      "w' = w\<lparr>hw := h, hq := (hq w)\<lparr>State := HAL_QSPI_STATE_ERROR,
               ErrorCode := ErrorCode (hq w) OR HAL_QSPI_ERROR_TIMEOUT\<rparr>\<rparr>"
  using wait_spec [OF assms] by (auto simp: wait_result_def)

section \<open>The transfer loops\<close>

text \<open>The handle after a wait that timed out.\<close>

abbreviation timed_out :: "QSPI_HandleTypeDef \<Rightarrow> QSPI_HandleTypeDef" where
  "timed_out h \<equiv> h\<lparr>State := HAL_QSPI_STATE_ERROR,
                   ErrorCode := ErrorCode h OR HAL_QSPI_ERROR_TIMEOUT\<rparr>"

text \<open>
  The transmit loop that ends with \<open>HAL_OK\<close> has written exactly the bytes of the buffer
  to the data register, in order; one that times out has written a proper prefix of them. The
  receive loop stores what it reads from the data register, again in order.
\<close>

definition tx_result ::
  "'h mmio \<Rightarrow> u32 \<Rightarrow> 'h qworld \<Rightarrow> HAL_StatusTypeDef \<Rightarrow> 'h qworld \<Rightarrow> bool" where
  "tx_result io timeout w s w' \<longleftrightarrow>
     (\<exists>k. mem w' = mem w \<and>
        bus io (hw w) (map W8 (bytes_at (mem w) (pTxBuffPtr (hq w)) k)) (hw w') \<and>
        (let h = (hq w)\<lparr>pTxBuffPtr := pTxBuffPtr (hq w) + of_nat k,
                        TxXferCount := TxXferCount (hq w) - of_nat k\<rparr> in
         s = HAL_OK \<and> k = unat (TxXferCount (hq w)) \<and> hq w' = h
       \<or> s = HAL_ERROR \<and> timeout \<noteq> HAL_MAX_DELAY \<and> k < unat (TxXferCount (hq w)) \<and>
         hq w' = timed_out h))"

definition rx_result ::
  "'h mmio \<Rightarrow> u32 \<Rightarrow> 'h qworld \<Rightarrow> HAL_StatusTypeDef \<Rightarrow> 'h qworld \<Rightarrow> bool" where
  "rx_result io timeout w s w' \<longleftrightarrow>
     (\<exists>bs. mem w' = store_bytes (mem w) (pRxBuffPtr (hq w)) bs \<and>
        bus io (hw w) (map R8 bs) (hw w') \<and>
        (let h = (hq w)\<lparr>pRxBuffPtr := pRxBuffPtr (hq w) + of_nat (length bs),
                        RxXferCount := RxXferCount (hq w) - of_nat (length bs)\<rparr> in
         s = HAL_OK \<and> length bs = unat (RxXferCount (hq w)) \<and> hq w' = h
       \<or> s = HAL_ERROR \<and> timeout \<noteq> HAL_MAX_DELAY \<and> length bs < unat (RxXferCount (hq w)) \<and>
         hq w' = timed_out h))"

lemma tx_result_step:
  assumes "0 < TxXferCount (hq w)" and "bus io (hw w) [] h"
    and "tx_result io timeout (tx_byte io (w\<lparr>hw := h\<rparr>)) s w'"
  shows "tx_result io timeout w s w'"
proof -
  let ?w2 = "tx_byte io (w\<lparr>hw := h\<rparr>)" and ?p = "pTxBuffPtr (hq w)"
  have first: "bus io (hw w) [W8 (mem w ?p)] (hw ?w2)"
    using bus_wr8 [OF assms(2), of "mem w ?p"] by (simp add: tx_byte_def)
  have "unat (TxXferCount (hq w)) = Suc (unat (TxXferCount (hq w) - 1))"
    using assms(1) by (rule unat_Suc_pred)
  moreover from assms(3) obtain k where k: "mem w' = mem ?w2"
    "bus io (hw ?w2) (map W8 (bytes_at (mem ?w2) (pTxBuffPtr (hq ?w2)) k)) (hw w')"
    "(let h = (hq ?w2)\<lparr>pTxBuffPtr := pTxBuffPtr (hq ?w2) + of_nat k,
                       TxXferCount := TxXferCount (hq ?w2) - of_nat k\<rparr> in
        s = HAL_OK \<and> k = unat (TxXferCount (hq ?w2)) \<and> hq w' = h
      \<or> s = HAL_ERROR \<and> timeout \<noteq> HAL_MAX_DELAY \<and> k < unat (TxXferCount (hq ?w2)) \<and>
        hq w' = timed_out h)"
    unfolding tx_result_def by blast
  moreover have "bus io (hw w) (map W8 (bytes_at (mem w) ?p (Suc k))) (hw w')"
    using bus_trans [OF k(2) first] by (simp add: bytes_at_Suc tx_byte_def)
  ultimately show ?thesis
    by (auto simp: tx_result_def tx_byte_def Let_def algebra_simps intro!: exI [of _ "Suc k"])
qed

lemma rx_result_step:
  assumes "0 < RxXferCount (hq w)" and "bus io (hw w) [] h"
    and "rx_result io timeout (rx_byte io (w\<lparr>hw := h\<rparr>)) s w'"
  shows "rx_result io timeout w s w'"
proof -
  let ?w2 = "rx_byte io (w\<lparr>hw := h\<rparr>)" and ?b = "fst (io_rd8 io h)"
  have w2: "mem ?w2 = (mem w)(pRxBuffPtr (hq w) := ?b)" "hw ?w2 = snd (io_rd8 io h)"
    "hq ?w2 = (hq w)\<lparr>pRxBuffPtr := pRxBuffPtr (hq w) + 1, RxXferCount := RxXferCount (hq w) - 1\<rparr>"
    by (simp_all add: rx_byte_def split: prod.splits)
  have first: "bus io (hw w) [R8 ?b] (hw ?w2)"
    using bus_rd8 [OF assms(2)] by (simp add: w2)
  have "unat (RxXferCount (hq w)) = Suc (unat (RxXferCount (hq w) - 1))"
    using assms(1) by (rule unat_Suc_pred)
  moreover from assms(3) obtain bs where bs:
    "mem w' = store_bytes (mem ?w2) (pRxBuffPtr (hq ?w2)) bs"
    "bus io (hw ?w2) (map R8 bs) (hw w')"
    "(let h = (hq ?w2)\<lparr>pRxBuffPtr := pRxBuffPtr (hq ?w2) + of_nat (length bs),
                       RxXferCount := RxXferCount (hq ?w2) - of_nat (length bs)\<rparr> in
        s = HAL_OK \<and> length bs = unat (RxXferCount (hq ?w2)) \<and> hq w' = h
      \<or> s = HAL_ERROR \<and> timeout \<noteq> HAL_MAX_DELAY \<and> length bs < unat (RxXferCount (hq ?w2)) \<and>
        hq w' = timed_out h)"
    unfolding rx_result_def by blast
  moreover have "bus io (hw w) (map R8 (?b # bs)) (hw w')"
    using bus_trans [OF bs(2) first] by simp
  ultimately show ?thesis
    by (auto simp: rx_result_def w2 Let_def algebra_simps intro!: exI [of _ "?b # bs"])
qed

lemma tx_loop_spec:
  "QSPI_tx_loop io t0 timeout w = Some (s, w') \<Longrightarrow> tx_result io timeout w s w'"
proof (induction "unat (TxXferCount (hq w))" arbitrary: w)
  case 0
  then show ?case
    by (auto simp: QSPI_tx_loop.simps tx_result_def unat_eq_zero intro!: exI [of _ 0] bus_refl)
next
  case (Suc n)
  then have pos: "0 < TxXferCount (hq w)" by (simp add: word_less_nat_alt)
  with Suc.prems obtain s1 w1 where
    wt: "QSPI_WaitFlagStateUntilTimeout io QSPI_FLAG_FT SET t0 timeout w = Some (s1, w1)" and
    rest: "(if s1 \<noteq> HAL_OK then Some (s1, w1) else QSPI_tx_loop io t0 timeout (tx_byte io w1))
             = Some (s, w')"
    by (subst (asm) QSPI_tx_loop.simps) (auto simp: bind_Some_iff)
  from wt show ?case
  proof (cases rule: wait_cases)
    case (timeout h)
    with rest pos show ?thesis
      by (auto simp: tx_result_def word_less_nat_alt intro!: exI [of _ 0])
  next
    case (ok h)
    have "n = unat (TxXferCount (hq (tx_byte io w1)))"
      using Suc.hyps(2) unat_Suc_pred [OF pos] ok by (simp add: tx_byte_def)
    then have "tx_result io timeout (tx_byte io w1) s w'"
      using rest ok by (intro Suc.hyps(1)) simp_all
    with ok pos show ?thesis by (auto intro: tx_result_step)
  qed
qed

lemma rx_loop_spec:
  "QSPI_rx_loop io t0 timeout w = Some (s, w') \<Longrightarrow> rx_result io timeout w s w'"
proof (induction "unat (RxXferCount (hq w))" arbitrary: w)
  case 0
  then show ?case
    by (auto simp: QSPI_rx_loop.simps rx_result_def unat_eq_zero intro!: exI [of _ "[]"] bus_refl)
next
  case (Suc n)
  then have pos: "0 < RxXferCount (hq w)" by (simp add: word_less_nat_alt)
  with Suc.prems obtain s1 w1 where
    wt: "QSPI_WaitFlagStateUntilTimeout io (QSPI_FLAG_FT OR QSPI_FLAG_TC) SET t0 timeout w
           = Some (s1, w1)" and
    rest: "(if s1 \<noteq> HAL_OK then Some (s1, w1) else QSPI_rx_loop io t0 timeout (rx_byte io w1))
             = Some (s, w')"
    by (subst (asm) QSPI_rx_loop.simps) (auto simp: bind_Some_iff)
  from wt show ?case
  proof (cases rule: wait_cases)
    case (timeout h)
    with rest pos show ?thesis
      by (auto simp: rx_result_def word_less_nat_alt intro!: exI [of _ "[]"])
  next
    case (ok h)
    have "n = unat (RxXferCount (hq (rx_byte io w1)))"
      using Suc.hyps(2) unat_Suc_pred [OF pos] ok by (simp add: rx_byte_def split: prod.splits)
    then have "rx_result io timeout (rx_byte io w1) s w'"
      using rest ok by (intro Suc.hyps(1)) simp_all
    with ok pos show ?thesis by (auto intro: rx_result_step)
  qed
qed

section \<open>The register writes of a command\<close>

text \<open>
  A compact description of what \<open>QSPI_Config\<close> does: one store per phase the command
  has, and one configuration word that collects the fields of the phases present.
\<close>

definition ccr_word :: "QSPI_CommandTypeDef \<Rightarrow> u32 \<Rightarrow> u32" where
  "ccr_word cmd mode = ccr_base cmd OR AlternateByteMode cmd OR AddressMode cmd OR
     InstructionMode cmd OR mode OR
     (if AlternateByteMode cmd \<noteq> QSPI_ALTERNATE_BYTES_NONE then AlternateBytesSize cmd else 0) OR
     (if AddressMode cmd \<noteq> QSPI_ADDRESS_NONE then AddressSize cmd else 0) OR
     (if InstructionMode cmd \<noteq> QSPI_INSTRUCTION_NONE then Instruction cmd else 0)"

definition config_trace :: "QSPI_CommandTypeDef \<Rightarrow> u32 \<Rightarrow> bus_event list" where
  "config_trace cmd mode =
     (if DataMode cmd \<noteq> QSPI_DATA_NONE \<and> mode \<noteq> QSPI_FUNCTIONAL_MODE_MEMORY_MAPPED
      then [W DLR (NbData cmd - 1)] else []) @
     (if AlternateByteMode cmd \<noteq> QSPI_ALTERNATE_BYTES_NONE
      then [W ABR (AlternateBytes cmd)] else []) @
     (if InstructionMode cmd = QSPI_INSTRUCTION_NONE \<and> AddressMode cmd = QSPI_ADDRESS_NONE \<and>
         AlternateByteMode cmd = QSPI_ALTERNATE_BYTES_NONE \<and> DataMode cmd = QSPI_DATA_NONE
      then [] else [W CCR (ccr_word cmd mode)]) @
     (if AddressMode cmd \<noteq> QSPI_ADDRESS_NONE \<and> mode \<noteq> QSPI_FUNCTIONAL_MODE_MEMORY_MAPPED
      then [W AR (Address cmd)] else [])"

text \<open>Playing a trace of stores on the hardware.\<close>

fun play :: "'h mmio \<Rightarrow> bus_event list \<Rightarrow> 'h \<Rightarrow> 'h" where
  "play io [] h = h"
| "play io (W r v # tr) h = play io tr (io_wr io r v h)"
| "play io (W8 b # tr) h = play io tr (io_wr8 io b h)"
| "play io (R8 b # tr) h = play io tr (snd (io_rd8 io h))"

lemma play_append: "play io (a @ b) h = play io b (play io a h)"
  by (induction io a h rule: play.induct) simp_all

definition command_trace :: "QSPI_CommandTypeDef \<Rightarrow> bus_event list" where
  "command_trace cmd = config_trace cmd QSPI_FUNCTIONAL_MODE_INDIRECT_WRITE @
     (if DataMode cmd = QSPI_DATA_NONE then [W FCR QSPI_FLAG_TC] else [])"

lemma QSPI_Config_play:
  "QSPI_Config io cmd mode w = w\<lparr>hw := play io (config_trace cmd mode) (hw w)\<rparr>"
  by (simp add: QSPI_Config_def config_trace_def ccr_word_def write_AR_def WRITE_REG_def Let_def
      or.assoc or.commute or.left_commute)

lemma bus_play:
  assumes "\<forall>b. R8 b \<notin> set tr" and "bus io h0 a h"
  shows "bus io h0 (a @ tr) (play io tr h)"
  using assms
proof (induction io tr h arbitrary: a rule: play.induct)
  case (2 io r v tr h)
  then have "bus io h0 ((a @ [W r v]) @ tr) (play io tr (io_wr io r v h))"
    by (intro "2.IH") (auto intro: bus.intros)
  then show ?case by simp
next
  case (3 io b tr h)
  then have "bus io h0 ((a @ [W8 b]) @ tr) (play io tr (io_wr8 io b h))"
    by (intro "3.IH") (auto intro: bus.intros)
  then show ?case by simp
qed auto

lemma bus_config:
  "bus io h0 a h \<Longrightarrow> bus io h0 (a @ config_trace cmd mode) (play io (config_trace cmd mode) h)"
  by (rule bus_play) (auto simp: config_trace_def)

lemma bus_WRITE: "bus io h0 a h \<Longrightarrow> bus io h0 (a @ [W r v]) (io_wr io r v h)"
  by (rule bus.intros)

lemma bus_append_quiet: "bus io h1 [] h2 \<Longrightarrow> bus io h0 a h1 \<Longrightarrow> bus io h0 a h2"
  using bus_trans [of io h1 "[]" h2 h0 a] by simp

section \<open>The contract of a guarded operation\<close>

text \<open>
  Every HAL operation of this driver, and every flash operation built on them, refuses to run
  unless the handle is ready: it answers with something else than its success code, changes
  neither handle nor memory, and writes nothing to the bus. It also releases the lock it takes.
  The locale states this contract for one operation; what follows from it for operations
  executed one after the other is proved once, here.
\<close>

abbreviation unlocked :: "'h qworld \<Rightarrow> bool" where
  "unlocked w \<equiv> Lock (hq w) = HAL_UNLOCKED"

abbreviation ready :: "'h qworld \<Rightarrow> bool" where
  "ready w \<equiv> State (hq w) = HAL_QSPI_STATE_READY"

definition refused :: "'h mmio \<Rightarrow> 'h qworld \<Rightarrow> 'h qworld \<Rightarrow> bool" where
  "refused io w w' \<longleftrightarrow> (\<exists>h. w' = w\<lparr>hw := h\<rparr> \<and> bus io (hw w) [] h)"

locale guarded =
  fixes io :: "'h mmio"
    and op :: "'h qworld \<Rightarrow> ('s \<times> 'h qworld) option"
    and ok :: 's
  assumes refuses: "unlocked w \<Longrightarrow> \<not> ready w \<Longrightarrow> \<exists>s w'. op w = Some (s, w') \<and> s \<noteq> ok \<and> refused io w w'"
    and releases: "op w = Some (s, w') \<Longrightarrow> unlocked w \<Longrightarrow> unlocked w'"
begin

lemma ok_needs_ready: "op w = Some (ok, w') \<Longrightarrow> unlocked w \<Longrightarrow> ready w"
  using refuses by fastforce

lemma refused_keeps: "refused io w w' \<Longrightarrow> unlocked w' = unlocked w \<and> ready w' = ready w"
  by (auto simp: refused_def)

lemma repeat_refused:
  assumes "unlocked w" "\<not> ready w" "op w = Some (s, w')"
  shows "\<exists>s' w''. op w' = Some (s', w'') \<and> s' \<noteq> ok \<and> refused io w' w''"
proof -
  from assms refuses obtain "refused io w w'" by fastforce
  with assms refused_keeps show ?thesis by (intro refuses) auto
qed

end

text \<open>
  \<open>check r ok err k\<close> is the C idiom \<open>if (r != ok) return err;\<close> followed by
  \<open>k\<close>.
\<close>

definition check ::
  "('s \<times> 'w) option \<Rightarrow> 's \<Rightarrow> int \<Rightarrow> ('w \<Rightarrow> (int \<times> 'w) option) \<Rightarrow> (int \<times> 'w) option" where
  "check r ok err k = do { (s, w) \<leftarrow> r; if s \<noteq> ok then Some (err, w) else k w }"

lemma guarded_check:
  fixes io :: "'h mmio" and op :: "'h qworld \<Rightarrow> ('s \<times> 'h qworld) option"
  assumes g: "guarded io op ok" and "err \<noteq> 0"
    and k: "\<And>w s w'. k w = Some (s, w') \<Longrightarrow> unlocked w \<Longrightarrow> unlocked w'"
  shows "guarded io (\<lambda>w. check (op w) ok err k) 0"
proof
  fix w :: "'h qworld" assume "unlocked w" "\<not> ready w"
  with guarded.refuses [OF g] obtain s w' where "op w = Some (s, w')" "s \<noteq> ok" "refused io w w'"
    by blast
  with \<open>err \<noteq> 0\<close> show "\<exists>s w'. check (op w) ok err k = Some (s, w') \<and> s \<noteq> 0 \<and> refused io w w'"
    by (auto simp: check_def)
next
  fix w w' :: "'h qworld" and s assume "check (op w) ok err k = Some (s, w')" "unlocked w"
  with guarded.releases [OF g] k show "unlocked w'"
    by (auto simp: check_def bind_Some_iff split: if_splits)
qed

lemma check_Some:
  assumes "check r ok err k = Some (rc, w')"
  obtains s w1 where "r = Some (s, w1)" "s \<noteq> ok" "rc = err" "w' = w1"
  | w1 where "r = Some (ok, w1)" "k w1 = Some (rc, w')"
  using assms by (auto simp: check_def bind_Some_iff split: if_splits)

end
