(* ===== verification/Hal_Qspi_Ops.thy ===== *)
theory Hal_Qspi_Ops
  imports Hal_Qspi
begin

text \<open>
  The outcome of each blocking operation of the QUADSPI driver on a ready, unlocked handle: what
  it returns, what it leaves in the handle and what it puts on the bus. The operations share
  their frame (lock, state check, unlock) and their first wait; both are described once and the
  operations are shown to have that shape.
\<close>

section \<open>The common frame\<close>

definition locked_run :: "('h qworld \<Rightarrow> 'h hal_result) \<Rightarrow> 'h qworld \<Rightarrow> 'h hal_result" where
  "locked_run body w =
    (if Lock (hq w) = HAL_LOCKED then Some (HAL_BUSY, w)
     else do {
       (status, w') \<leftarrow>
         (let w1 = set_Lock HAL_LOCKED w in
          if State (hq w1) = HAL_QSPI_STATE_READY then body w1 else Some (HAL_BUSY, w1));
       Some (status, set_Lock HAL_UNLOCKED w')
     })"

definition begin_op ::
  "'h mmio \<Rightarrow> HAL_QSPI_StateTypeDef \<Rightarrow> u32 \<Rightarrow> u32 \<Rightarrow> ('h qworld \<Rightarrow> 'h hal_result) \<Rightarrow>
   'h qworld \<Rightarrow> 'h hal_result" where
  "begin_op io st t timeout k w = do {
     (status, w1) \<leftarrow> QSPI_WaitFlagStateUntilTimeout io QSPI_FLAG_BUSY RESET t timeout
                       (set_State st (set_ErrorCode HAL_QSPI_ERROR_NONE w));
     if status = HAL_OK then k w1 else Some (status, w1)
   }"

definition end_wait ::
  "'h mmio \<Rightarrow> u32 \<Rightarrow> u32 \<Rightarrow> u32 \<Rightarrow> 'h qworld \<Rightarrow> 'h hal_result" where
  "end_wait io flag t timeout w = do {
     (status, w1) \<leftarrow> QSPI_WaitFlagStateUntilTimeout io flag SET t timeout w;
     Some (status, if status = HAL_OK
                   then set_State HAL_QSPI_STATE_READY (HAL_QSPI_CLEAR_FLAG io flag w1) else w1)
   }"

text \<open>Updates of the world and of the handle in a fixed order, so that worlds can be compared.\<close>

lemma world_order [simp]:
  fixes w :: "'h qworld"
  shows "w\<lparr>hw := h, hq := q\<rparr> = w\<lparr>hq := q, hw := h\<rparr>"
    and "w\<lparr>mem := m, hq := q\<rparr> = w\<lparr>hq := q, mem := m\<rparr>"
    and "w\<lparr>hw := h, mem := m\<rparr> = w\<lparr>mem := m, hw := h\<rparr>"
  by simp_all

lemma handle_order [simp]:
  fixes h :: QSPI_HandleTypeDef
  shows "h\<lparr>ErrorCode := e, State := s\<rparr> = h\<lparr>State := s, ErrorCode := e\<rparr>"
    and "h\<lparr>ErrorCode := e, Lock := l\<rparr> = h\<lparr>Lock := l, ErrorCode := e\<rparr>"
    and "h\<lparr>State := s, Lock := l\<rparr> = h\<lparr>Lock := l, State := s\<rparr>"
  by simp_all

lemma handle_restore:
  "Lock h = l \<Longrightarrow> h\<lparr>Lock := l\<rparr> = h"
  "State h = s \<Longrightarrow> h\<lparr>State := s\<rparr> = h"
  by (auto intro!: QSPI_HandleTypeDef.equality)

lemma guarded_locked_run:
  fixes io :: "'h mmio"
  assumes op: "\<And>w. op w = locked_run (body w) (w\<lparr>hw := g (hw w)\<rparr>)"
    and g: "\<And>h. bus io h [] (g h)"
  shows "guarded io op HAL_OK"
proof
  fix w :: "'h qworld" assume "unlocked w" "\<not> ready w"
  then show "\<exists>s w'. op w = Some (s, w') \<and> s \<noteq> HAL_OK \<and> refused io w w'"
    using g by (auto simp: op locked_run_def refused_def handle_simps handle_restore)
next
  fix w w' :: "'h qworld" and s assume "op w = Some (s, w')" "unlocked w"
  then show "unlocked w'"
    by (auto simp: op locked_run_def set_Lock_def bind_Some_iff)
qed

abbreviation busy_world :: "HAL_QSPI_StateTypeDef \<Rightarrow> 'h \<Rightarrow> 'h qworld \<Rightarrow> 'h qworld" where
  "busy_world st h w \<equiv> w\<lparr>hq := (hq w)\<lparr>Lock := HAL_LOCKED, ErrorCode := 0, State := st\<rparr>, hw := h\<rparr>"

abbreviation error_world :: "'h \<Rightarrow> 'h qworld \<Rightarrow> 'h qworld" where
  "error_world h w \<equiv> w\<lparr>hq := (hq w)\<lparr>State := HAL_QSPI_STATE_ERROR,
                                    ErrorCode := HAL_QSPI_ERROR_TIMEOUT\<rparr>, hw := h\<rparr>"

abbreviation done_world :: "'h \<Rightarrow> 'h qworld \<Rightarrow> 'h qworld" where
  "done_world h w \<equiv> w\<lparr>hq := (hq w)\<lparr>ErrorCode := 0\<rparr>, hw := h\<rparr>"

lemma begin_op_cases:
  assumes "locked_run (begin_op io st t timeout k) (w\<lparr>hw := h0\<rparr>) = Some (s, w')"
    and "unlocked w" "ready w" and b0: "bus io (hw w) [] h0"
  obtains (timeout) h where "s = HAL_ERROR" "timeout \<noteq> HAL_MAX_DELAY" "bus io (hw w) [] h"
      "w' = error_world h w"
  | (go) h w1 where "bus io (hw w) [] h" "k (busy_world st h w) = Some (s, w1)"
      "w' = set_Lock HAL_UNLOCKED w1"
proof -
  from assms obtain s1 w1 w2 where
    wt: "QSPI_WaitFlagStateUntilTimeout io QSPI_FLAG_BUSY RESET t timeout (busy_world st h0 w)
           = Some (s1, w1)" and
    rest: "(if s1 = HAL_OK then k w1 else Some (s1, w1)) = Some (s, w2)"
      "w' = set_Lock HAL_UNLOCKED w2"
    by (auto simp: locked_run_def begin_op_def handle_simps bind_Some_iff)
  from wt show thesis
  proof (cases rule: wait_cases)
    case (timeout h)
    then have "bus io (hw w) [] h" using b0 by (auto intro: bus_append_quiet)
    with timeout rest assms(2) show thesis
      by (intro that(1) [of h]) (auto simp: handle_simps handle_restore)
  next
    case (ok h)
    then have "bus io (hw w) [] h" using b0 by (auto intro: bus_append_quiet)
    with ok rest show thesis by (intro that(2) [of h w2]) auto
  qed
qed

lemma end_wait_cases:
  assumes "end_wait io flag t timeout w1 = Some (s, w2)"
    and "unlocked w" and "ready w" and "w1 = busy_world st h1 w" and "bus io (hw w) tr h1"
  obtains (ok) h where "s = HAL_OK" "bus io (hw w) (tr @ [W FCR flag]) h"
      "set_Lock HAL_UNLOCKED w2 = done_world h w"
  | (timeout) h where "s = HAL_ERROR" "timeout \<noteq> HAL_MAX_DELAY" "bus io (hw w) tr h"
      "set_Lock HAL_UNLOCKED w2 = error_world h w"
proof -
  from assms(1) obtain w3 where
    wt: "QSPI_WaitFlagStateUntilTimeout io flag SET t timeout w1 = Some (s, w3)" and
    w2: "w2 = (if s = HAL_OK
          then set_State HAL_QSPI_STATE_READY (HAL_QSPI_CLEAR_FLAG io flag w3) else w3)"
    by (auto simp: end_wait_def bind_Some_iff)
  from wt show thesis
  proof (cases rule: wait_cases)
    case (ok h)
    then have "bus io (hw w) tr h" using assms(4,5) by (auto intro: bus_append_quiet)
    then have "bus io (hw w) (tr @ [W FCR flag]) (io_wr io FCR flag h)" by (rule bus_WRITE)
    with ok assms(2-4) w2 show thesis
      by (intro that(1)) (auto simp: reg_simps handle_simps handle_restore)
  next
    case (timeout h)
    then have "bus io (hw w) tr h" using assms(4,5) by (auto intro: bus_append_quiet)
    with timeout assms(2-4) w2 show thesis
      by (intro that(2)) (auto simp: handle_simps handle_restore)
  qed
qed

lemma bus_first_tick: "bus io h [] (snd (io_tick io h))"
  by (intro bus.intros)

section \<open>Commands\<close>

definition command_body where
  "command_body io cmd t timeout w =
     (let w4 = QSPI_Config io cmd QSPI_FUNCTIONAL_MODE_INDIRECT_WRITE w in
      if DataMode cmd = QSPI_DATA_NONE then end_wait io QSPI_FLAG_TC t timeout w4
      else Some (HAL_OK, set_State HAL_QSPI_STATE_READY w4))"

lemma Command_shape:
  "HAL_QSPI_Command io cmd timeout w =
     locked_run (begin_op io HAL_QSPI_STATE_BUSY (fst (io_tick io (hw w))) timeout
         (command_body io cmd (fst (io_tick io (hw w))) timeout))
       (w\<lparr>hw := snd (io_tick io (hw w))\<rparr>)"
  by (simp add: HAL_QSPI_Command_def locked_run_def begin_op_def command_body_def end_wait_def
      get_tick_eq Let_def cong: if_cong)

definition command_result ::
  "'h mmio \<Rightarrow> QSPI_CommandTypeDef \<Rightarrow> u32 \<Rightarrow> 'h qworld \<Rightarrow> HAL_StatusTypeDef \<Rightarrow> 'h qworld \<Rightarrow> bool" where
  "command_result io cmd timeout w s w' \<longleftrightarrow>
     s = HAL_OK \<and> (\<exists>h. w' = done_world h w \<and> bus io (hw w) (command_trace cmd) h) \<or>
     s = HAL_ERROR \<and> timeout \<noteq> HAL_MAX_DELAY \<and> (\<exists>h. w' = error_world h w \<and>
       (bus io (hw w) [] h \<or> DataMode cmd = QSPI_DATA_NONE \<and>
        bus io (hw w) (config_trace cmd QSPI_FUNCTIONAL_MODE_INDIRECT_WRITE) h))"

lemma Command_ready:
  assumes "unlocked w" "ready w" "HAL_QSPI_Command io cmd timeout w = Some (s, w')"
  shows "command_result io cmd timeout w s w'"
  using assms(3) [unfolded Command_shape] assms(1,2) bus_first_tick
proof (cases rule: begin_op_cases)
  case (timeout h)
  then show ?thesis by (auto simp: command_result_def)
next
  case (go h w1)
  let ?tr = "config_trace cmd QSPI_FUNCTIONAL_MODE_INDIRECT_WRITE"
  have b1: "bus io (hw w) ?tr (play io ?tr h)" using bus_config [OF go(1)] by simp
  show ?thesis
  proof (cases "DataMode cmd = QSPI_DATA_NONE")
    case False
    with go assms(1,2) b1 show ?thesis
      by (auto simp: command_result_def command_trace_def command_body_def QSPI_Config_play
          handle_simps handle_restore)
  next
    case True
    then have "end_wait io QSPI_FLAG_TC (fst (io_tick io (hw w))) timeout
        (busy_world HAL_QSPI_STATE_BUSY (play io ?tr h) w) = Some (s, w1)"
      using go(2) by (simp add: command_body_def QSPI_Config_play)
    from this assms(1,2) refl b1 show ?thesis
      by (cases rule: end_wait_cases)
        (use go(3) True in \<open>auto simp: command_result_def command_trace_def\<close>)
  qed
qed

section \<open>Automatic polling\<close>

definition polling_trace :: "QSPI_CommandTypeDef \<Rightarrow> QSPI_AutoPollingTypeDef \<Rightarrow> u32 \<Rightarrow> bus_event list" where
  "polling_trace cmd cfg cr =
     [W PSMAR (Match cfg), W PSMKR (Mask cfg), W PIR (Interval cfg),
      W CR ((cr AND NOT (QUADSPI_CR_PMM OR QUADSPI_CR_APMS)) OR
            (MatchMode cfg OR QSPI_AUTOMATIC_STOP_ENABLE))] @
     config_trace (cmd\<lparr>NbData := StatusBytesSize cfg\<rparr>) QSPI_FUNCTIONAL_MODE_AUTO_POLLING"

definition polling_body where
  "polling_body io cmd cfg t timeout w3 =
     (let w4 = WRITE_REG io PIR (Interval cfg)
                 (WRITE_REG io PSMKR (Mask cfg) (WRITE_REG io PSMAR (Match cfg) w3));
          w5 = MODIFY_REG io CR (QUADSPI_CR_PMM OR QUADSPI_CR_APMS)
                 (MatchMode cfg OR QSPI_AUTOMATIC_STOP_ENABLE) w4
      in end_wait io QSPI_FLAG_SM t timeout
           (QSPI_Config io (cmd\<lparr>NbData := StatusBytesSize cfg\<rparr>) QSPI_FUNCTIONAL_MODE_AUTO_POLLING w5))"

lemma AutoPolling_shape:
  "HAL_QSPI_AutoPolling io cmd cfg timeout w =
     locked_run (begin_op io HAL_QSPI_STATE_BUSY_AUTO_POLLING (fst (io_tick io (hw w))) timeout
         (polling_body io cmd cfg (fst (io_tick io (hw w))) timeout))
       (w\<lparr>hw := snd (io_tick io (hw w))\<rparr>)"
  by (simp add: HAL_QSPI_AutoPolling_def locked_run_def begin_op_def polling_body_def end_wait_def
      get_tick_eq Let_def cong: if_cong)

definition polling_result where
  "polling_result io cmd cfg timeout w s w' \<longleftrightarrow>
     s = HAL_OK \<and> (\<exists>h cr. w' = done_world h w \<and>
       bus io (hw w) (polling_trace cmd cfg cr @ [W FCR QSPI_FLAG_SM]) h) \<or>
     s = HAL_ERROR \<and> timeout \<noteq> HAL_MAX_DELAY \<and> (\<exists>h. w' = error_world h w \<and>
       (bus io (hw w) [] h \<or> (\<exists>cr. bus io (hw w) (polling_trace cmd cfg cr) h)))"

lemma AutoPolling_ready:
  assumes "unlocked w" "ready w" "HAL_QSPI_AutoPolling io cmd cfg timeout w = Some (s, w')"
  shows "polling_result io cmd cfg timeout w s w'"
  using assms(3) [unfolded AutoPolling_shape] assms(1,2) bus_first_tick
proof (cases rule: begin_op_cases)
  case (timeout h)
  then show ?thesis by (auto simp: polling_result_def)
next
  case (go h w1)
  let ?h3 = "io_wr io PIR (Interval cfg) (io_wr io PSMKR (Mask cfg) (io_wr io PSMAR (Match cfg) h))"
  let ?cr = "fst (io_rd io CR ?h3)"
  let ?h4 = "io_wr io CR ((?cr AND NOT (QUADSPI_CR_PMM OR QUADSPI_CR_APMS)) OR
               (MatchMode cfg OR QSPI_AUTOMATIC_STOP_ENABLE)) (snd (io_rd io CR ?h3))"
  let ?cmd = "cmd\<lparr>NbData := StatusBytesSize cfg\<rparr>"
  let ?h5 = "play io (config_trace ?cmd QSPI_FUNCTIONAL_MODE_AUTO_POLLING) ?h4"
  have b: "bus io (hw w) (polling_trace cmd cfg ?cr) ?h5"
    using bus_config [OF bus_WRITE [OF bus_rd [OF bus_WRITE [OF bus_WRITE [OF bus_WRITE [OF go(1)]]]]]]
    by (simp add: polling_trace_def)
  have "end_wait io QSPI_FLAG_SM (fst (io_tick io (hw w))) timeout
        (busy_world HAL_QSPI_STATE_BUSY_AUTO_POLLING ?h5 w) = Some (s, w1)"
    using go(2) by (simp add: polling_body_def QSPI_Config_play MODIFY_REG_eq WRITE_REG_def Let_def)
  from this assms(1,2) refl b show ?thesis
    by (cases rule: end_wait_cases)
      (use go(3) in \<open>auto simp: polling_result_def\<close>)
qed

section \<open>Memory-mapped mode\<close>

definition memmap_body where
  "memmap_body io cmd cfg w3 =
     (let w4 = MODIFY_REG io CR QUADSPI_CR_TCEN (TimeOutActivation cfg) w3;
          w5 = (if TimeOutActivation cfg = QSPI_TIMEOUT_COUNTER_ENABLE
                then HAL_QSPI_ENABLE_IT io QSPI_IT_TO
                       (HAL_QSPI_CLEAR_FLAG io QSPI_FLAG_TO
                         (WRITE_REG io LPTR (TimeOutPeriod cfg) w4))
                else w4)
      in Some (HAL_OK, QSPI_Config io cmd QSPI_FUNCTIONAL_MODE_MEMORY_MAPPED w5))"

lemma MemoryMapped_shape:
  "HAL_QSPI_MemoryMapped io cmd cfg w =
     locked_run (begin_op io HAL_QSPI_STATE_BUSY_MEM_MAPPED (fst (io_tick io (hw w)))
         (Timeout (hq w)) (memmap_body io cmd cfg))
       (w\<lparr>hw := snd (io_tick io (hw w))\<rparr>)"
  by (simp add: HAL_QSPI_MemoryMapped_def locked_run_def begin_op_def memmap_body_def
      get_tick_eq Let_def handle_simps cong: if_cong)

definition memmap_trace :: "QSPI_CommandTypeDef \<Rightarrow> QSPI_MemoryMappedTypeDef \<Rightarrow> u32 \<Rightarrow> u32 \<Rightarrow> bus_event list" where
  "memmap_trace cmd cfg cr cr' =
     [W CR ((cr AND NOT QUADSPI_CR_TCEN) OR TimeOutActivation cfg)] @
     (if TimeOutActivation cfg = QSPI_TIMEOUT_COUNTER_ENABLE
      then [W LPTR (TimeOutPeriod cfg), W FCR QSPI_FLAG_TO, W CR (cr' OR QSPI_IT_TO)] else []) @
     config_trace cmd QSPI_FUNCTIONAL_MODE_MEMORY_MAPPED"

definition memmap_result where
  "memmap_result io cmd cfg w s w' \<longleftrightarrow>
     s = HAL_OK \<and> (\<exists>h cr cr'. bus io (hw w) (memmap_trace cmd cfg cr cr') h \<and>
       w' = w\<lparr>hq := (hq w)\<lparr>State := HAL_QSPI_STATE_BUSY_MEM_MAPPED, ErrorCode := 0\<rparr>, hw := h\<rparr>) \<or>
     s = HAL_ERROR \<and> Timeout (hq w) \<noteq> HAL_MAX_DELAY \<and>
       (\<exists>h. w' = error_world h w \<and> bus io (hw w) [] h)"

lemma MemoryMapped_ready:
  assumes "unlocked w" "ready w" "HAL_QSPI_MemoryMapped io cmd cfg w = Some (s, w')"
  shows "memmap_result io cmd cfg w s w'"
  using assms(3) [unfolded MemoryMapped_shape] assms(1,2) bus_first_tick
proof (cases rule: begin_op_cases)
  case (timeout h)
  then show ?thesis by (auto simp: memmap_result_def)
next
  case (go h w1)
  let ?cr = "fst (io_rd io CR h)"
  let ?h1 = "io_wr io CR ((?cr AND NOT QUADSPI_CR_TCEN) OR TimeOutActivation cfg) (snd (io_rd io CR h))"
  let ?h2 = "io_wr io FCR QSPI_FLAG_TO (io_wr io LPTR (TimeOutPeriod cfg) ?h1)"
  let ?cr' = "fst (io_rd io CR ?h2)"
  let ?h3 = "io_wr io CR (?cr' OR QSPI_IT_TO) (snd (io_rd io CR ?h2))"
  let ?h4 = "if TimeOutActivation cfg = QSPI_TIMEOUT_COUNTER_ENABLE then ?h3 else ?h1"
  let ?h5 = "play io (config_trace cmd QSPI_FUNCTIONAL_MODE_MEMORY_MAPPED) ?h4"
  note b1 = bus_WRITE [OF bus_rd [OF go(1), of CR], of CR "(?cr AND NOT QUADSPI_CR_TCEN) OR TimeOutActivation cfg"]
  note b3 = bus_WRITE [OF bus_rd [OF bus_WRITE [OF bus_WRITE [OF b1, of LPTR "TimeOutPeriod cfg"],
        of FCR QSPI_FLAG_TO], of CR], of CR "?cr' OR QSPI_IT_TO"]
  have "bus io (hw w) (memmap_trace cmd cfg ?cr ?cr') ?h5"
    using bus_config [OF b1, of cmd QSPI_FUNCTIONAL_MODE_MEMORY_MAPPED]
      bus_config [OF b3, of cmd QSPI_FUNCTIONAL_MODE_MEMORY_MAPPED]
    by (cases "TimeOutActivation cfg = QSPI_TIMEOUT_COUNTER_ENABLE") (simp_all add: memmap_trace_def)
  moreover have "s = HAL_OK" "w1 = busy_world HAL_QSPI_STATE_BUSY_MEM_MAPPED ?h5 w"
    using go(2) by (auto simp: memmap_body_def reg_simps QSPI_Config_play Let_def)
  ultimately obtain h5 cr cr' where "bus io (hw w) (memmap_trace cmd cfg cr cr') h5" "s = HAL_OK"
    "w1 = busy_world HAL_QSPI_STATE_BUSY_MEM_MAPPED h5 w" by blast
  then show ?thesis
    using go(3) assms(1) unfolding memmap_result_def
    by (intro disjI1 conjI exI [of _ h5] exI [of _ cr] exI [of _ cr'])
      (simp_all add: handle_simps handle_restore)
qed

section \<open>Transfers\<close>

text \<open>
  A transfer that fails leaves the handle ready again: \<open>HAL_QSPI_Transmit\<close> and
  \<open>HAL_QSPI_Receive\<close> set the state to ready after their loops, also when a wait has
  just set it to the error state. \<open>xfer_frame\<close> says what a transfer keeps.
\<close>

definition xfer_frame :: "QSPI_HandleTypeDef \<Rightarrow> QSPI_HandleTypeDef \<Rightarrow> bool" where
  "xfer_frame h h' \<longleftrightarrow> State h' = HAL_QSPI_STATE_READY \<and> Lock h' = HAL_UNLOCKED \<and>
     Init h' = Init h \<and> Timeout h' = Timeout h \<and> Instance h' = Instance h"

definition transmit_result where
  "transmit_result io pData timeout w s w' \<longleftrightarrow>
     xfer_frame (hq w) (hq w') \<and> mem w' = mem w \<and>
     (if pData = 0
      then s = HAL_ERROR \<and> ErrorCode (hq w') = HAL_QSPI_ERROR_INVALID_PARAM \<and> bus io (hw w) [] (hw w')
      else let h0 = snd (io_tick io (hw w));
             n = unat (fst (io_rd io DLR h0) + 1);
             ccr = fst (io_rd io CCR (snd (io_rd io DLR (snd (io_rd io DLR h0)))));
             start = W CCR (ccr AND NOT QUADSPI_CCR_FMODE) in
        s = HAL_OK \<and> ErrorCode (hq w') = 0 \<and>
          bus io (hw w) (start # map W8 (bytes_at (mem w) pData n) @ [W FCR QSPI_FLAG_TC]) (hw w') \<or>
        s = HAL_ERROR \<and> timeout \<noteq> HAL_MAX_DELAY \<and> ErrorCode (hq w') = HAL_QSPI_ERROR_TIMEOUT \<and>
          (\<exists>k\<le>n. bus io (hw w) (start # map W8 (bytes_at (mem w) pData k)) (hw w')))"

definition receive_result where
  "receive_result io pData timeout w s w' \<longleftrightarrow>
     xfer_frame (hq w) (hq w') \<and>
     (if pData = 0
      then s = HAL_ERROR \<and> ErrorCode (hq w') = HAL_QSPI_ERROR_INVALID_PARAM \<and> mem w' = mem w \<and>
        bus io (hw w) [] (hw w')
      else \<exists>bs. let h1 = snd (io_tick io (hw w)); h2 = snd (io_rd io AR h1);
             n = unat (fst (io_rd io DLR h2) + 1);
             ccr = fst (io_rd io CCR (snd (io_rd io DLR (snd (io_rd io DLR h2)))));
             start = [W CCR ((ccr AND NOT QUADSPI_CCR_FMODE) OR QSPI_FUNCTIONAL_MODE_INDIRECT_READ),
                      W AR (fst (io_rd io AR h1))] in
        mem w' = store_bytes (mem w) pData bs \<and>
        (s = HAL_OK \<and> ErrorCode (hq w') = 0 \<and> length bs = n \<and>
          bus io (hw w) (start @ map R8 bs @ [W FCR QSPI_FLAG_TC]) (hw w') \<or>
        s = HAL_ERROR \<and> timeout \<noteq> HAL_MAX_DELAY \<and> ErrorCode (hq w') = HAL_QSPI_ERROR_TIMEOUT \<and>
          length bs \<le> n \<and> bus io (hw w) (start @ map R8 bs) (hw w')))"

lemma finish_xfer_cases:
  assumes "QSPI_finish_xfer io t timeout w = Some (s, w')"
  obtains (ok) h where "s = HAL_OK" "w' = w\<lparr>hw := io_wr io FCR QSPI_FLAG_TC h\<rparr>" "bus io (hw w) [] h"
  | (timeout) h where "s = HAL_ERROR" "timeout \<noteq> HAL_MAX_DELAY" "bus io (hw w) [] h"
      "w' = w\<lparr>hq := timed_out (hq w), hw := h\<rparr>"
proof -
  from assms obtain w1 where
    wt: "QSPI_WaitFlagStateUntilTimeout io QSPI_FLAG_TC SET t timeout w = Some (s, w1)" and
    w': "w' = (if s = HAL_OK then HAL_QSPI_CLEAR_FLAG io QSPI_FLAG_TC w1 else w1)"
    by (auto simp: QSPI_finish_xfer_def bind_Some_iff)
  from wt show thesis
    by (cases rule: wait_cases) (use w' in \<open>auto simp: reg_simps intro: that\<close>)
qed

text \<open>What follows the set-up of a transfer: the loop, the final wait, the return to ready.\<close>

definition xfer_tail where
  "xfer_tail io loop t timeout w = do {
     (status, w1) \<leftarrow> loop io t timeout w;
     (status, w2) \<leftarrow> (if status = HAL_OK then QSPI_finish_xfer io t timeout w1 else Some (status, w1));
     Some (status, set_State HAL_QSPI_STATE_READY w2)
   }"

definition transmit_setup where
  "transmit_setup io pData w =
     (let (d1, w1) = READ_REG io DLR (set_State HAL_QSPI_STATE_BUSY_INDIRECT_TX w);
          (d2, w2) = READ_REG io DLR w1
      in MODIFY_REG io CCR QUADSPI_CCR_FMODE QSPI_FUNCTIONAL_MODE_INDIRECT_WRITE
           (w2\<lparr>hq := (hq w2)\<lparr>TxXferCount := d1 + 1, TxXferSize := d2 + 1, pTxBuffPtr := pData\<rparr>\<rparr>))"

definition receive_setup where
  "receive_setup io pData ar w =
     (let (d1, w1) = READ_REG io DLR (set_State HAL_QSPI_STATE_BUSY_INDIRECT_RX w);
          (d2, w2) = READ_REG io DLR w1
      in WRITE_REG io AR ar
           (MODIFY_REG io CCR QUADSPI_CCR_FMODE QSPI_FUNCTIONAL_MODE_INDIRECT_READ
             (w2\<lparr>hq := (hq w2)\<lparr>RxXferCount := d1 + 1, RxXferSize := d2 + 1, pRxBuffPtr := pData\<rparr>\<rparr>)))"

definition xfer_body where
  "xfer_body pData run w =
     (let w1 = set_ErrorCode HAL_QSPI_ERROR_NONE w in
      if pData \<noteq> (0 :: u32) then run w1
      else Some (HAL_ERROR, set_ErrorCode (ErrorCode (hq w1) OR HAL_QSPI_ERROR_INVALID_PARAM) w1))"

lemma Transmit_shape:
  "HAL_QSPI_Transmit io pData timeout w =
     locked_run (xfer_body pData (\<lambda>w. xfer_tail io QSPI_tx_loop (fst (io_tick io (hw w0))) timeout
         (transmit_setup io pData w)))
       (w\<lparr>hw := snd (io_tick io (hw w))\<rparr>)" if "w0 = w"
  by (simp add: HAL_QSPI_Transmit_def locked_run_def xfer_body_def xfer_tail_def transmit_setup_def
      that get_tick_eq Let_def split_def cong: if_cong)

lemma Receive_shape:
  "HAL_QSPI_Receive io pData timeout w =
     locked_run (xfer_body pData (\<lambda>w. xfer_tail io QSPI_rx_loop (fst (io_tick io (hw w0))) timeout
         (receive_setup io pData (fst (io_rd io AR (snd (io_tick io (hw w0))))) w)))
       (w\<lparr>hw := snd (io_rd io AR (snd (io_tick io (hw w))))\<rparr>)" if "w0 = w"
  by (simp add: HAL_QSPI_Receive_def locked_run_def xfer_body_def xfer_tail_def receive_setup_def
      that get_tick_eq READ_REG_eq Let_def split_def cong: if_cong)

lemma xfer_tail_cases:
  assumes "xfer_tail io loop t timeout w = Some (s, w')"
  obtains (stopped) w1 where "loop io t timeout w = Some (s, w1)" "s \<noteq> HAL_OK"
      "w' = set_State HAL_QSPI_STATE_READY w1"
  | (complete) w1 h where "loop io t timeout w = Some (HAL_OK, w1)" "s = HAL_OK" "bus io (hw w1) [] h"
      "w' = set_State HAL_QSPI_STATE_READY (w1\<lparr>hw := io_wr io FCR QSPI_FLAG_TC h\<rparr>)"
  | (incomplete) w1 h where "loop io t timeout w = Some (HAL_OK, w1)" "s = HAL_ERROR"
      "timeout \<noteq> HAL_MAX_DELAY" "bus io (hw w1) [] h"
      "w' = set_State HAL_QSPI_STATE_READY (w1\<lparr>hq := timed_out (hq w1), hw := h\<rparr>)"
proof -
  from assms obtain s1 w1 w2 where l: "loop io t timeout w = Some (s1, w1)" and
    f: "(if s1 = HAL_OK then QSPI_finish_xfer io t timeout w1 else Some (s1, w1)) = Some (s, w2)" and
    w': "w' = set_State HAL_QSPI_STATE_READY w2"
    by (auto simp: xfer_tail_def bind_Some_iff)
  show thesis
  proof (cases "s1 = HAL_OK")
    case True
    with f have "QSPI_finish_xfer io t timeout w1 = Some (s, w2)" by simp
    then show thesis
      by (cases rule: finish_xfer_cases) (use True l w' in \<open>auto intro: that\<close>)
  next
    case False
    with f l w' show thesis by (auto intro: that)
  qed
qed

lemma transmit_setup_eq:
  fixes w :: "'h qworld"
  assumes "h1 = snd (io_rd io DLR (hw w))" and "h2 = snd (io_rd io DLR h1)"
  shows "transmit_setup io pData w =
      w\<lparr>hq := (hq w)\<lparr>State := HAL_QSPI_STATE_BUSY_INDIRECT_TX, TxXferCount := fst (io_rd io DLR (hw w)) + 1,
                     TxXferSize := fst (io_rd io DLR h1) + 1, pTxBuffPtr := pData\<rparr>,
        hw := io_wr io CCR (fst (io_rd io CCR h2) AND NOT QUADSPI_CCR_FMODE) (snd (io_rd io CCR h2))\<rparr>"
  by (simp add: transmit_setup_def reg_simps handle_simps assms)

lemma receive_setup_eq:
  fixes w :: "'h qworld"
  assumes "h1 = snd (io_rd io DLR (hw w))" and "h2 = snd (io_rd io DLR h1)"
  shows "receive_setup io pData ar w =
      w\<lparr>hq := (hq w)\<lparr>State := HAL_QSPI_STATE_BUSY_INDIRECT_RX, RxXferCount := fst (io_rd io DLR (hw w)) + 1,
                     RxXferSize := fst (io_rd io DLR h1) + 1, pRxBuffPtr := pData\<rparr>,
        hw := io_wr io AR ar (io_wr io CCR ((fst (io_rd io CCR h2) AND NOT QUADSPI_CCR_FMODE) OR
                QSPI_FUNCTIONAL_MODE_INDIRECT_READ) (snd (io_rd io CCR h2)))\<rparr>"
  by (simp add: receive_setup_def reg_simps handle_simps assms)

definition tail_frame :: "QSPI_HandleTypeDef \<Rightarrow> QSPI_HandleTypeDef \<Rightarrow> bool" where
  "tail_frame h h' \<longleftrightarrow> State h' = HAL_QSPI_STATE_READY \<and> Lock h' = Lock h \<and>
     Init h' = Init h \<and> Timeout h' = Timeout h \<and> Instance h' = Instance h"

lemma tx_tail:
  assumes "xfer_tail io QSPI_tx_loop t timeout w = Some (s, w')"
    and n: "n = unat (TxXferCount (hq w))" and p: "p = pTxBuffPtr (hq w)"
  shows "tail_frame (hq w) (hq w') \<and> mem w' = mem w \<and>
    (s = HAL_OK \<and> ErrorCode (hq w') = ErrorCode (hq w) \<and>
       bus io (hw w) (map W8 (bytes_at (mem w) p n) @ [W FCR QSPI_FLAG_TC]) (hw w') \<or>
     s = HAL_ERROR \<and> timeout \<noteq> HAL_MAX_DELAY \<and>
       ErrorCode (hq w') = ErrorCode (hq w) OR HAL_QSPI_ERROR_TIMEOUT \<and>
       (\<exists>k\<le>n. bus io (hw w) (map W8 (bytes_at (mem w) p k)) (hw w')))"
  using assms(1)
proof (cases rule: xfer_tail_cases)
  case (stopped w1)
  from tx_loop_spec [OF stopped(1)] stopped(2,3) show ?thesis
    by (auto simp: tx_result_def tail_frame_def set_State_def n p Let_def intro: less_imp_le)
next
  case (complete w1 h)
  from tx_loop_spec [OF complete(1)] have l: "mem w1 = mem w"
    "bus io (hw w) (map W8 (bytes_at (mem w) p n)) (hw w1)"
    "hq w1 = (hq w)\<lparr>pTxBuffPtr := p + of_nat n, TxXferCount := TxXferCount (hq w) - of_nat n\<rparr>"
    by (auto simp: tx_result_def n p Let_def)
  from bus_append_quiet [OF complete(3) l(2)] have
    "bus io (hw w) (map W8 (bytes_at (mem w) p n) @ [W FCR QSPI_FLAG_TC]) (io_wr io FCR QSPI_FLAG_TC h)"
    by (rule bus_WRITE)
  with complete l show ?thesis by (auto simp: tail_frame_def set_State_def)
next
  case (incomplete w1 h)
  from tx_loop_spec [OF incomplete(1)] have l: "mem w1 = mem w"
    "bus io (hw w) (map W8 (bytes_at (mem w) p n)) (hw w1)"
    "hq w1 = (hq w)\<lparr>pTxBuffPtr := p + of_nat n, TxXferCount := TxXferCount (hq w) - of_nat n\<rparr>"
    by (auto simp: tx_result_def n p Let_def)
  from incomplete l bus_append_quiet [OF incomplete(4) l(2)] show ?thesis
    by (auto simp: tail_frame_def set_State_def)
qed

lemma rx_tail:
  assumes "xfer_tail io QSPI_rx_loop t timeout w = Some (s, w')"
    and n: "n = unat (RxXferCount (hq w))" and p: "p = pRxBuffPtr (hq w)"
  shows "\<exists>bs. tail_frame (hq w) (hq w') \<and> mem w' = store_bytes (mem w) p bs \<and>
    (s = HAL_OK \<and> ErrorCode (hq w') = ErrorCode (hq w) \<and> length bs = n \<and>
       bus io (hw w) (map R8 bs @ [W FCR QSPI_FLAG_TC]) (hw w') \<or>
     s = HAL_ERROR \<and> timeout \<noteq> HAL_MAX_DELAY \<and>
       ErrorCode (hq w') = ErrorCode (hq w) OR HAL_QSPI_ERROR_TIMEOUT \<and>
       length bs \<le> n \<and> bus io (hw w) (map R8 bs) (hw w'))"
  using assms(1)
proof (cases rule: xfer_tail_cases)
  case (stopped w1)
  from rx_loop_spec [OF stopped(1)] stopped(2,3) show ?thesis
    by (auto simp: rx_result_def tail_frame_def set_State_def n p Let_def intro: less_imp_le)
next
  case (complete w1 h)
  from rx_loop_spec [OF complete(1)] obtain bs where l: "mem w1 = store_bytes (mem w) p bs"
    "length bs = n" "bus io (hw w) (map R8 bs) (hw w1)"
    "hq w1 = (hq w)\<lparr>pRxBuffPtr := p + of_nat n, RxXferCount := RxXferCount (hq w) - of_nat n\<rparr>"
    by (auto simp: rx_result_def n p Let_def)
  from bus_append_quiet [OF complete(3) l(3)] have
    "bus io (hw w) (map R8 bs @ [W FCR QSPI_FLAG_TC]) (io_wr io FCR QSPI_FLAG_TC h)"
    by (rule bus_WRITE)
  with complete l show ?thesis by (auto simp: tail_frame_def set_State_def intro!: exI [of _ bs])
next
  case (incomplete w1 h)
  from rx_loop_spec [OF incomplete(1)] obtain bs where l: "mem w1 = store_bytes (mem w) p bs"
    "length bs = n" "bus io (hw w) (map R8 bs) (hw w1)"
    "hq w1 = (hq w)\<lparr>pRxBuffPtr := p + of_nat n, RxXferCount := RxXferCount (hq w) - of_nat n\<rparr>"
    by (auto simp: rx_result_def n p Let_def)
  from incomplete l bus_append_quiet [OF incomplete(4) l(3)] show ?thesis
    by (auto simp: tail_frame_def set_State_def intro!: exI [of _ bs])
qed

lemma Transmit_ready:
  assumes "unlocked w" "ready w" "HAL_QSPI_Transmit io pData timeout w = Some (s, w')"
  shows "transmit_result io pData timeout w s w'"
proof (cases "pData = 0")
  case True
  with assms show ?thesis
    by (auto simp: Transmit_shape [OF refl] locked_run_def xfer_body_def handle_simps
        transmit_result_def xfer_frame_def intro: bus_first_tick)
next
  case False
  define h0 where "h0 = snd (io_tick io (hw w))"
  define h2 where "h2 = snd (io_rd io DLR (snd (io_rd io DLR h0)))"
  define n where "n = unat (fst (io_rd io DLR h0) + 1)"
  define w2 where "w2 = w\<lparr>hw := h0, hq := (hq w)\<lparr>Lock := HAL_LOCKED, ErrorCode := 0\<rparr>\<rparr>"
  define w7 where "w7 = transmit_setup io pData w2"
  let ?c = "fst (io_rd io CCR h2)"
  let ?start = "W CCR (?c AND NOT QUADSPI_CCR_FMODE)"
  note w7 = transmit_setup_eq [OF refl refl, of io pData w2, folded w7_def]
  from False assms obtain w9 where
    tail: "xfer_tail io QSPI_tx_loop (fst (io_tick io (hw w))) timeout w7 = Some (s, w9)" and
    w': "w' = set_Lock HAL_UNLOCKED w9"
    by (auto simp: Transmit_shape [OF refl] locked_run_def xfer_body_def set_Lock_def set_ErrorCode_def
        w7_def w2_def h0_def bind_Some_iff)
  have "bus io (hw w) [] (snd (io_rd io CCR h2))"
    unfolding h2_def h0_def by (intro bus.intros)
  from bus_WRITE [OF this, of CCR "?c AND NOT QUADSPI_CCR_FMODE"]
  have b7: "bus io (hw w) [?start] (hw w7)" by (simp add: w7 w2_def h2_def)
  have f: "mem w7 = mem w" "n = unat (TxXferCount (hq w7))" "pData = pTxBuffPtr (hq w7)"
    "ErrorCode (hq w7) = 0" "Init (hq w7) = Init (hq w)" "Timeout (hq w7) = Timeout (hq w)"
    "Instance (hq w7) = Instance (hq w)"
    by (simp_all add: w7 w2_def n_def)
  have b: "bus io (hw w) (?start # tr) h" if "bus io (hw w7) tr h" for tr h
    using bus_trans [OF that b7] by simp
  from tx_tail [OF tail f(2,3)] show ?thesis
    using False f(1,4-7) b w'
    by (auto simp: transmit_result_def xfer_frame_def tail_frame_def set_Lock_def Let_def
        n_def [symmetric] h0_def [symmetric] h2_def [symmetric])
qed

lemma bus_first_AR: "bus io h [] (snd (io_rd io AR (snd (io_tick io h))))"
  by (intro bus.intros)

lemma Receive_ready:
  assumes "unlocked w" "ready w" "HAL_QSPI_Receive io pData timeout w = Some (s, w')"
  shows "receive_result io pData timeout w s w'"
proof (cases "pData = 0")
  case True
  with assms show ?thesis
    by (auto simp: Receive_shape [OF refl] locked_run_def xfer_body_def handle_simps
        receive_result_def xfer_frame_def intro: bus_first_AR)
next
  case False
  define h0 where "h0 = snd (io_rd io AR (snd (io_tick io (hw w))))"
  define ar where "ar = fst (io_rd io AR (snd (io_tick io (hw w))))"
  define h2 where "h2 = snd (io_rd io DLR (snd (io_rd io DLR h0)))"
  define n where "n = unat (fst (io_rd io DLR h0) + 1)"
  define w2 where "w2 = w\<lparr>hw := h0, hq := (hq w)\<lparr>Lock := HAL_LOCKED, ErrorCode := 0\<rparr>\<rparr>"
  define w7 where "w7 = receive_setup io pData ar w2"
  let ?c = "fst (io_rd io CCR h2)"
  let ?v = "(?c AND NOT QUADSPI_CCR_FMODE) OR QSPI_FUNCTIONAL_MODE_INDIRECT_READ"
  note w7 = receive_setup_eq [OF refl refl, of io pData ar w2, folded w7_def]
  from False assms obtain w9 where
    tail: "xfer_tail io QSPI_rx_loop (fst (io_tick io (hw w))) timeout w7 = Some (s, w9)" and
    w': "w' = set_Lock HAL_UNLOCKED w9"
    by (auto simp: Receive_shape [OF refl] locked_run_def xfer_body_def set_Lock_def set_ErrorCode_def
        w7_def w2_def h0_def ar_def bind_Some_iff)
  have "bus io (hw w) [] (snd (io_rd io CCR h2))"
    unfolding h2_def h0_def by (intro bus.intros)
  from bus_WRITE [OF bus_WRITE [OF this, of CCR ?v], of AR ar]
  have b7: "bus io (hw w) [W CCR ?v, W AR ar] (hw w7)" by (simp add: w7 w2_def h2_def)
  have f: "mem w7 = mem w" "n = unat (RxXferCount (hq w7))" "pData = pRxBuffPtr (hq w7)"
    "ErrorCode (hq w7) = 0" "Init (hq w7) = Init (hq w)" "Timeout (hq w7) = Timeout (hq w)"
    "Instance (hq w7) = Instance (hq w)"
    by (simp_all add: w7 w2_def n_def)
  have b: "bus io (hw w) (W CCR ?v # W AR ar # tr) h" if "bus io (hw w7) tr h" for tr h
    using bus_trans [OF that b7] by simp
  from rx_tail [OF tail f(2,3)] obtain bs where "tail_frame (hq w7) (hq w9)"
    "mem w9 = store_bytes (mem w) pData bs" and "s = HAL_OK \<and> ErrorCode (hq w9) = 0 \<and> length bs = n \<and>
       bus io (hw w) (W CCR ?v # W AR ar # map R8 bs @ [W FCR QSPI_FLAG_TC]) (hw w9) \<or>
     s = HAL_ERROR \<and> timeout \<noteq> HAL_MAX_DELAY \<and> ErrorCode (hq w9) = HAL_QSPI_ERROR_TIMEOUT \<and>
       length bs \<le> n \<and> bus io (hw w) (W CCR ?v # W AR ar # map R8 bs) (hw w9)"
    using f(1,4) b by auto
  then show ?thesis
    using False f(5-7) w'
    by (auto simp: receive_result_def xfer_frame_def tail_frame_def set_Lock_def Let_def
        n_def [symmetric] h0_def [symmetric] h2_def [symmetric] ar_def [symmetric] intro!: exI [of _ bs])
qed

end
