(* ===== verification/Hal_Qspi_State.thy ===== *)
theory Hal_Qspi_State
  imports Hal_Qspi_Ops
begin

text \<open>
  The operations that bring the driver into and out of its working state: initialisation, abort,
  the FIFO threshold. The handle state as a state machine, and the interpretations that show
  every operation of the driver to obey the contract \<open>guarded\<close>.
\<close>

section \<open>Guarded operations\<close>

interpretation command: guarded io "HAL_QSPI_Command io cmd timeout" HAL_OK for io cmd timeout
  by (rule guarded_locked_run [OF Command_shape bus_first_tick])

interpretation polling: guarded io "HAL_QSPI_AutoPolling io cmd cfg timeout" HAL_OK
  for io cmd cfg timeout
  by (rule guarded_locked_run [OF AutoPolling_shape bus_first_tick])

interpretation memmap: guarded io "HAL_QSPI_MemoryMapped io cmd cfg" HAL_OK for io cmd cfg
  by (rule guarded_locked_run [OF MemoryMapped_shape bus_first_tick])

interpretation transmit: guarded io "HAL_QSPI_Transmit io pData timeout" HAL_OK
  for io pData timeout
  by (rule guarded_locked_run [OF Transmit_shape [OF refl] bus_first_tick])

interpretation receive: guarded io "HAL_QSPI_Receive io pData timeout" HAL_OK
  for io pData timeout
  by (rule guarded_locked_run [OF Receive_shape [OF refl] bus_first_AR])

lemma SetFifoThreshold_shape:
  "HAL_QSPI_SetFifoThreshold io t w =
     locked_run (\<lambda>w1. Some (HAL_OK, MODIFY_REG io CR QUADSPI_CR_FTHRES
         (push_bit QUADSPI_CR_FTHRES_Pos (t - 1))
         (w1\<lparr>hq := (hq w1)\<lparr>Init := (Init (hq w1))\<lparr>FifoThreshold := t\<rparr>\<rparr>\<rparr>)))
       (w\<lparr>hw := id (hw w)\<rparr>)"
  by (simp add: HAL_QSPI_SetFifoThreshold_def locked_run_def Let_def)

lemma SetFlashID_shape:
  "HAL_QSPI_SetFlashID io fid w =
     locked_run (\<lambda>w1. Some (HAL_OK, MODIFY_REG io CR QUADSPI_CR_FSEL fid
         (w1\<lparr>hq := (hq w1)\<lparr>Init := (Init (hq w1))\<lparr>FlashID := fid\<rparr>\<rparr>\<rparr>)))
       (w\<lparr>hw := id (hw w)\<rparr>)"
  by (simp add: HAL_QSPI_SetFlashID_def locked_run_def Let_def)

interpretation fifo: guarded io "HAL_QSPI_SetFifoThreshold io t" HAL_OK for io t
  by (rule guarded_locked_run [OF SetFifoThreshold_shape]) (simp add: bus_refl)

interpretation flash_id: guarded io "HAL_QSPI_SetFlashID io fid" HAL_OK for io fid
  by (rule guarded_locked_run [OF SetFlashID_shape]) (simp add: bus_refl)

section \<open>Initialisation\<close>

text \<open>
  The board hook that \<open>HAL_QSPI_Init\<close> calls: it programs other peripherals and leaves the
  handle and the memory alone. \<close>

definition init_handle :: "QSPI_HandleTypeDef \<Rightarrow> QSPI_HandleTypeDef" where
  "init_handle q = (if State q = HAL_QSPI_STATE_RESET
     then q\<lparr>Timeout := HAL_QPSI_TIMEOUT_DEFAULT_VALUE\<rparr> else q)"

definition init_trace :: "QSPI_InitTypeDef \<Rightarrow> u32 \<Rightarrow> u32 \<Rightarrow> u32 \<Rightarrow> u32 \<Rightarrow> bus_event list" where
  "init_trace i c1 c2 d c3 =
     [W CR ((c1 AND NOT QUADSPI_CR_FTHRES) OR push_bit QUADSPI_CR_FTHRES_Pos (FifoThreshold i - 1)),
      W CR ((c2 AND NOT (QUADSPI_CR_PRESCALER OR QUADSPI_CR_SSHIFT OR QUADSPI_CR_FSEL OR QUADSPI_CR_DFM)) OR
            (push_bit QUADSPI_CR_PRESCALER_Pos (ClockPrescaler i) OR SampleShifting i OR FlashID i OR DualFlash i)),
      W DCR ((d AND NOT (QUADSPI_DCR_FSIZE OR QUADSPI_DCR_CSHT OR QUADSPI_DCR_CKMODE)) OR
            (push_bit QUADSPI_DCR_FSIZE_Pos (FlashSize i) OR ChipSelectHighTime i OR ClockMode i)),
      W CR (c3 OR QUADSPI_CR_EN)]"

definition init_configure :: "'h mmio \<Rightarrow> u32 \<Rightarrow> 'h qworld \<Rightarrow> 'h hal_result" where
  "init_configure io tickstart w2 =
     (let w3 = MODIFY_REG io CR QUADSPI_CR_FTHRES
                 (push_bit QUADSPI_CR_FTHRES_Pos (FifoThreshold (Init (hq w2)) - 1)) w2
      in do {
        (status, w4) \<leftarrow> QSPI_WaitFlagStateUntilTimeout io QSPI_FLAG_BUSY RESET tickstart
                          (Timeout (hq w3)) w3;
        let i = Init (hq w4);
        let w5 = (if status = HAL_OK
                  then set_State HAL_QSPI_STATE_READY (set_ErrorCode HAL_QSPI_ERROR_NONE
                    (HAL_QSPI_ENABLE io
                      (MODIFY_REG io DCR (QUADSPI_DCR_FSIZE OR QUADSPI_DCR_CSHT OR QUADSPI_DCR_CKMODE)
                         (push_bit QUADSPI_DCR_FSIZE_Pos (FlashSize i) OR ChipSelectHighTime i OR ClockMode i)
                        (MODIFY_REG io CR (QUADSPI_CR_PRESCALER OR QUADSPI_CR_SSHIFT OR
                           QUADSPI_CR_FSEL OR QUADSPI_CR_DFM)
                           (push_bit QUADSPI_CR_PRESCALER_Pos (ClockPrescaler i) OR
                            SampleShifting i OR FlashID i OR DualFlash i) w4))))
                  else w4);
        Some (status, set_Lock HAL_UNLOCKED w5)
      })"

lemma Init_shape:
  assumes "unlocked w"
  shows "HAL_QSPI_Init io MspInit HQSPI w =
     (let w1 = set_Lock HAL_LOCKED (w\<lparr>hw := snd (io_tick io (hw w))\<rparr>) in
      init_configure io (fst (io_tick io (hw w)))
        (if State (hq w1) = HAL_QSPI_STATE_RESET
         then HAL_QSPI_SetTimeout HAL_QPSI_TIMEOUT_DEFAULT_VALUE (MspInit (set_Lock HAL_UNLOCKED w1))
         else w1))"
  using assms by (simp add: HAL_QSPI_Init_def init_configure_def get_tick_eq Let_def cong: if_cong)

lemma init_configure_cases:
  assumes "init_configure io t w = Some (s, w')"
  obtains (ok) c1 c2 d c3 where "s = HAL_OK" "mem w' = mem w"
      "hq w' = (hq w)\<lparr>Lock := HAL_UNLOCKED, State := HAL_QSPI_STATE_READY, ErrorCode := 0\<rparr>"
      "bus io (hw w) (init_trace (Init (hq w)) c1 c2 d c3) (hw w')"
  | (timeout) c1 where "s = HAL_ERROR" "mem w' = mem w"
      "hq w' = timed_out ((hq w)\<lparr>Lock := HAL_UNLOCKED\<rparr>)" "Timeout (hq w) \<noteq> HAL_MAX_DELAY"
      "bus io (hw w) (take 1 (init_trace (Init (hq w)) c1 0 0 0)) (hw w')"
proof -
  let ?i = "Init (hq w)" and ?c1 = "fst (io_rd io CR (hw w))"
  let ?v1 = "(?c1 AND NOT QUADSPI_CR_FTHRES) OR push_bit QUADSPI_CR_FTHRES_Pos (FifoThreshold ?i - 1)"
  define h1 where "h1 = io_wr io CR ?v1 (snd (io_rd io CR (hw w)))"
  have b1: "bus io (hw w) [W CR ?v1] h1"
    using bus_WRITE [OF bus_rd [OF bus_refl, of io "hw w" CR], of CR ?v1] by (simp add: h1_def)
  from assms obtain w4 where
    wt: "QSPI_WaitFlagStateUntilTimeout io QSPI_FLAG_BUSY RESET t (Timeout (hq w)) (w\<lparr>hw := h1\<rparr>)
           = Some (s, w4)" and
    w': "w' = set_Lock HAL_UNLOCKED (if s = HAL_OK
                  then set_State HAL_QSPI_STATE_READY (set_ErrorCode HAL_QSPI_ERROR_NONE
                    (HAL_QSPI_ENABLE io
                      (MODIFY_REG io DCR (QUADSPI_DCR_FSIZE OR QUADSPI_DCR_CSHT OR QUADSPI_DCR_CKMODE)
                         (push_bit QUADSPI_DCR_FSIZE_Pos (FlashSize (Init (hq w4))) OR
                          ChipSelectHighTime (Init (hq w4)) OR ClockMode (Init (hq w4)))
                        (MODIFY_REG io CR (QUADSPI_CR_PRESCALER OR QUADSPI_CR_SSHIFT OR
                           QUADSPI_CR_FSEL OR QUADSPI_CR_DFM)
                           (push_bit QUADSPI_CR_PRESCALER_Pos (ClockPrescaler (Init (hq w4))) OR
                            SampleShifting (Init (hq w4)) OR FlashID (Init (hq w4)) OR
                            DualFlash (Init (hq w4))) w4)))) else w4)"
    by (auto simp: init_configure_def MODIFY_REG_eq bind_Some_iff Let_def h1_def split del: if_split)
  from wt show thesis
  proof (cases rule: wait_cases)
    case (timeout h)
    from timeout bus_append_quiet [OF _ b1, of h] w' show thesis
      by (intro that(2) [of ?c1]) (auto simp: init_trace_def handle_simps)
  next
    case (ok h)
    note b2 = bus_append_quiet [OF ok(3) [simplified] b1]
    note b = bus_WRITE [OF bus_rd [OF bus_WRITE [OF bus_rd [OF bus_WRITE [OF bus_rd [OF b2]]]]]]
    show thesis
      by (rule that(1)) (use ok w' in \<open>auto simp: reg_simps handle_simps init_trace_def
          intro!: b [simplified]\<close>)
  qed
qed

locale board_hook =
  fixes io :: "'h mmio" and MspInit :: "'h qworld \<Rightarrow> 'h qworld"
  assumes hook: "\<exists>h tr. MspInit w = w\<lparr>hw := h\<rparr> \<and> bus io (hw w) tr h"
begin

lemma Init_cases:
  assumes run: "HAL_QSPI_Init io MspInit HQSPI w = Some (s, w')" and "unlocked w"
  obtains (ok) msp c1 c2 d c3 where "s = HAL_OK" "mem w' = mem w"
      "hq w' = (init_handle (hq w))\<lparr>State := HAL_QSPI_STATE_READY, ErrorCode := 0\<rparr>"
      "bus io (hw w) (msp @ init_trace (Init (hq w)) c1 c2 d c3) (hw w')"
  | (timeout) msp c1 where "s = HAL_ERROR" "mem w' = mem w"
      "hq w' = timed_out (init_handle (hq w))" "Timeout (init_handle (hq w)) \<noteq> HAL_MAX_DELAY"
      "bus io (hw w) (msp @ take 1 (init_trace (Init (hq w)) c1 0 0 0)) (hw w')"
proof -
  define h0 where "h0 = snd (io_tick io (hw w))"
  define w1 where "w1 = set_Lock HAL_LOCKED (w\<lparr>hw := h0\<rparr>)"
  define w2 where "w2 = (if State (hq w1) = HAL_QSPI_STATE_RESET
    then HAL_QSPI_SetTimeout HAL_QPSI_TIMEOUT_DEFAULT_VALUE (MspInit (set_Lock HAL_UNLOCKED w1)) else w1)"
  have "\<exists>msp. bus io (hw w) msp (hw w2) \<and> mem w2 = mem w \<and>
      (hq w2)\<lparr>Lock := HAL_UNLOCKED\<rparr> = init_handle (hq w)"
  proof (cases "State (hq w) = HAL_QSPI_STATE_RESET")
    case True
    obtain h tr where "MspInit (set_Lock HAL_UNLOCKED w1) = (set_Lock HAL_UNLOCKED w1)\<lparr>hw := h\<rparr>"
      "bus io h0 tr h" using hook [of "set_Lock HAL_UNLOCKED w1"] by (auto simp: w1_def set_Lock_def)
    moreover have "bus io (hw w) tr h"
      using calculation(2) bus_first_tick [of io "hw w"] bus_trans [of io h0 tr h "hw w" "[]"]
      by (simp add: h0_def)
    ultimately show ?thesis using True assms(2)
      by (auto simp: w2_def w1_def handle_simps init_handle_def handle_restore)
  next
    case False
    then show ?thesis using assms(2) bus_first_tick [of io "hw w"]
      by (auto simp: w2_def w1_def handle_simps init_handle_def handle_restore h0_def)
  qed
  then obtain msp where msp: "bus io (hw w) msp (hw w2)" "mem w2 = mem w"
    "(hq w2)\<lparr>Lock := HAL_UNLOCKED\<rparr> = init_handle (hq w)" by blast
  have i: "Init (hq w2) = Init (hq w)" "Timeout (hq w2) = Timeout (init_handle (hq w))"
    using arg_cong [OF msp(3), of Init] arg_cong [OF msp(3), of Timeout]
    by (simp_all add: init_handle_def split: if_splits)
  have "init_configure io (fst (io_tick io (hw w))) w2 = Some (s, w')"
    using run assms(2) by (simp only: Init_shape w2_def w1_def h0_def Let_def)
  then show thesis
  proof (cases rule: init_configure_cases)
    case (ok c1 c2 d c3)
    from that(1) [OF ok(1) _ _ bus_trans [OF ok(4) msp(1), unfolded i]] ok(2,3) msp(2,3)
    show thesis by simp
  next
    case (timeout c1)
    from that(2) [OF timeout(1) _ _ timeout(4) [unfolded i] bus_trans [OF timeout(5) msp(1), unfolded i]]
      timeout(2,3) msp(2,3)
    show thesis by simp
  qed
qed

end

section \<open>Abort\<close>

text \<open>
  \<open>HAL_QSPI_Abort\<close> acts in the busy states only, the ones with bit 1 of the state code.
  It ends in the ready state or, when a wait times out, in the error state.
\<close>

lemma busy_state_code: "state_code st AND 2 \<noteq> 0 \<longleftrightarrow>
   st \<in> {HAL_QSPI_STATE_BUSY, HAL_QSPI_STATE_BUSY_INDIRECT_TX, HAL_QSPI_STATE_BUSY_INDIRECT_RX,
         HAL_QSPI_STATE_BUSY_AUTO_POLLING, HAL_QSPI_STATE_BUSY_MEM_MAPPED}"
  by (cases st) simp_all

lemma wait_handle:
  assumes "QSPI_WaitFlagStateUntilTimeout io f st t timeout w = Some (s, w')"
  shows "mem w' = mem w \<and> (s = HAL_OK \<and> hq w' = hq w \<or> s = HAL_ERROR \<and> hq w' = timed_out (hq w))"
  using assms by (cases rule: wait_cases) auto

lemma Abort_idle:
  assumes "state_code (State (hq w)) AND 2 = 0"
  shows "HAL_QSPI_Abort io w = Some (HAL_OK, w\<lparr>hw := snd (io_tick io (hw w))\<rparr>)"
  using assms by (simp add: HAL_QSPI_Abort_def get_tick_eq)

definition abort_request :: "'h mmio \<Rightarrow> 'h qworld \<Rightarrow> 'h qworld" where
  "abort_request io w =
     (let w1 = set_Lock HAL_UNLOCKED w;
          (dma, w2) = READ_BIT io CR QUADSPI_CR_DMAEN w1;
          w3 = (if dma \<noteq> 0 then
                  (let a = CLEAR_BIT io CR QUADSPI_CR_DMAEN w2;
                       (st, h) = mdma_abort io (hw a);
                       b = a\<lparr>hw := h\<rparr>
                   in if st \<noteq> HAL_OK
                      then set_ErrorCode (ErrorCode (hq b) OR HAL_QSPI_ERROR_DMA) b else b)
                else w2)
      in SET_BIT io CR QUADSPI_CR_ABORT w3)"

definition abort_finish :: "'h mmio \<Rightarrow> u32 \<Rightarrow> 'h qworld \<Rightarrow> 'h hal_result" where
  "abort_finish io t w = do {
     (status, w5) \<leftarrow> QSPI_WaitFlagStateUntilTimeout io QSPI_FLAG_TC SET t (Timeout (hq w)) w;
     (status, w6) \<leftarrow>
       (if status = HAL_OK
        then (let c = HAL_QSPI_CLEAR_FLAG io QSPI_FLAG_TC w5
              in QSPI_WaitFlagStateUntilTimeout io QSPI_FLAG_BUSY RESET t (Timeout (hq c)) c)
        else Some (status, w5));
     Some (status, if status = HAL_OK then set_State HAL_QSPI_STATE_READY w6 else w6)
   }"

lemma Abort_shape:
  "state_code (State (hq w)) AND 2 \<noteq> 0 \<Longrightarrow>
   HAL_QSPI_Abort io w = abort_finish io (fst (io_tick io (hw w)))
     (abort_request io (w\<lparr>hw := snd (io_tick io (hw w))\<rparr>))"
  by (simp add: HAL_QSPI_Abort_def abort_request_def abort_finish_def get_tick_eq Let_def split_def
      cong: if_cong)

lemma abort_request_keeps:
  "mem (abort_request io w) = mem w" "Lock (hq (abort_request io w)) = HAL_UNLOCKED"
  "Init (hq (abort_request io w)) = Init (hq w)" "Timeout (hq (abort_request io w)) = Timeout (hq w)"
  by (simp_all add: abort_request_def reg_simps handle_simps Let_def split_def)

lemma abort_finish_ends:
  assumes "abort_finish io t w = Some (s, w')"
  shows "mem w' = mem w \<and> Lock (hq w') = Lock (hq w) \<and> Init (hq w') = Init (hq w) \<and>
    Timeout (hq w') = Timeout (hq w) \<and>
    (s = HAL_OK \<and> ready w' \<or> s = HAL_ERROR \<and> State (hq w') = HAL_QSPI_STATE_ERROR)"
proof -
  from assms obtain s5 w5 w6 where
    a: "QSPI_WaitFlagStateUntilTimeout io QSPI_FLAG_TC SET t (Timeout (hq w)) w = Some (s5, w5)" and
    b: "(if s5 = HAL_OK
         then QSPI_WaitFlagStateUntilTimeout io QSPI_FLAG_BUSY RESET t (Timeout (hq w5))
                (HAL_QSPI_CLEAR_FLAG io QSPI_FLAG_TC w5)
         else Some (s5, w5)) = Some (s, w6)" and
    w': "w' = (if s = HAL_OK then set_State HAL_QSPI_STATE_READY w6 else w6)"
    by (auto simp: abort_finish_def Let_def HAL_QSPI_CLEAR_FLAG_def WRITE_REG_def bind_Some_iff
        cong: if_cong split del: if_split)
  note wait_handle [OF a]
  moreover from b have "s5 = HAL_OK \<Longrightarrow> mem w6 = mem w5 \<and>
     (s = HAL_OK \<and> hq w6 = hq w5 \<or> s = HAL_ERROR \<and> hq w6 = timed_out (hq w5))"
    by (auto dest: wait_handle simp: reg_simps)
  moreover from b have "s5 \<noteq> HAL_OK \<Longrightarrow> s = s5 \<and> w6 = w5" by simp
  ultimately show ?thesis using w' by (auto simp: set_State_def)
qed

lemma Abort_busy:
  assumes "HAL_QSPI_Abort io w = Some (s, w')" and "state_code (State (hq w)) AND 2 \<noteq> 0"
  shows "mem w' = mem w \<and> unlocked w' \<and> Init (hq w') = Init (hq w) \<and> Timeout (hq w') = Timeout (hq w) \<and>
    (s = HAL_OK \<and> ready w' \<or> s = HAL_ERROR \<and> State (hq w') = HAL_QSPI_STATE_ERROR)"
  using abort_finish_ends [OF assms(1) [unfolded Abort_shape [OF assms(2)]]]
  by (simp add: abort_request_keeps)

end
