(* ===== verification/Hal_Qspi_Machine.thy ===== *)
theory Hal_Qspi_Machine
  imports Hal_Qspi_State
begin

text \<open>
  The driver as a whole: when its busy-wait loop returns, and which handle states a sequence of
  calls can reach.
\<close>

section \<open>When the wait loop returns\<close>

text \<open>
  \<open>poll io timed n h\<close> is the hardware before round \<open>n\<close> of the wait loop, and
  \<open>wait_exits\<close> the condition on which a round leaves it.
\<close>

primrec poll :: "'h mmio \<Rightarrow> bool \<Rightarrow> nat \<Rightarrow> 'h \<Rightarrow> 'h" where
  "poll io timed 0 h = h"
| "poll io timed (Suc n) h = poll io timed n
     (let h1 = snd (io_rd io SR h) in if timed then snd (io_tick io h1) else h1)"

definition wait_exits ::
  "'h mmio \<Rightarrow> u32 \<Rightarrow> FlagStatus \<Rightarrow> u32 \<Rightarrow> u32 \<Rightarrow> 'h \<Rightarrow> bool" where
  "wait_exits io f st t0 timeout h \<longleftrightarrow>
     (fst (io_rd io SR h) AND f \<noteq> 0) = (st = SET) \<or>
     timeout \<noteq> HAL_MAX_DELAY \<and>
       (timeout < fst (io_tick io (snd (io_rd io SR h))) - t0 \<or> timeout = 0)"

lemma flag_eq: "((if b then SET else RESET) = st) = (b = (st = SET))"
  by (cases st) auto

lemma wait_unfold:
  "QSPI_WaitFlagStateUntilTimeout io f st t0 timeout w =
     (let h1 = snd (io_rd io SR (hw w)); h2 = snd (io_tick io h1) in
      if (fst (io_rd io SR (hw w)) AND f \<noteq> 0) = (st = SET) then Some (HAL_OK, w\<lparr>hw := h1\<rparr>)
      else if timeout = HAL_MAX_DELAY then QSPI_WaitFlagStateUntilTimeout io f st t0 timeout (w\<lparr>hw := h1\<rparr>)
      else if timeout < fst (io_tick io h1) - t0 \<or> timeout = 0
        then Some (HAL_ERROR, w\<lparr>hq := timed_out (hq w), hw := h2\<rparr>)
      else QSPI_WaitFlagStateUntilTimeout io f st t0 timeout (w\<lparr>hw := h2\<rparr>))"
  by (subst QSPI_WaitFlagStateUntilTimeout.simps)
    (simp add: GET_FLAG_eq get_tick_eq set_State_def set_ErrorCode_def Let_def flag_eq)

lemma wait_exit_now:
  "wait_exits io f st t0 timeout (hw w) \<Longrightarrow>
   \<exists>r. QSPI_WaitFlagStateUntilTimeout io f st t0 timeout w = Some r"
  by (subst wait_unfold) (auto simp: wait_exits_def Let_def)

lemma wait_continue:
  "\<not> wait_exits io f st t0 timeout (hw w) \<Longrightarrow>
   QSPI_WaitFlagStateUntilTimeout io f st t0 timeout w =
   QSPI_WaitFlagStateUntilTimeout io f st t0 timeout
     (w\<lparr>hw := poll io (timeout \<noteq> HAL_MAX_DELAY) 1 (hw w)\<rparr>)"
  by (subst wait_unfold) (auto simp: wait_exits_def Let_def)

lemma wait_returns_if:
  "wait_exits io f st t0 timeout (poll io (timeout \<noteq> HAL_MAX_DELAY) n (hw w)) \<Longrightarrow>
   \<exists>r. QSPI_WaitFlagStateUntilTimeout io f st t0 timeout w = Some r"
proof (induction n arbitrary: w)
  case 0
  then show ?case by (intro wait_exit_now) simp
next
  case (Suc n)
  show ?case
  proof (cases "wait_exits io f st t0 timeout (hw w)")
    case True
    then show ?thesis by (rule wait_exit_now)
  next
    case False
    have "\<exists>r. QSPI_WaitFlagStateUntilTimeout io f st t0 timeout
        (w\<lparr>hw := poll io (timeout \<noteq> HAL_MAX_DELAY) 1 (hw w)\<rparr>) = Some r"
      by (rule Suc.IH) (use Suc.prems in simp)
    with wait_continue [OF False] show ?thesis by simp
  qed
qed

lemma wait_returns_only_if:
  assumes "QSPI_WaitFlagStateUntilTimeout io f st t0 timeout w = Some r"
  shows "\<exists>n. wait_exits io f st t0 timeout (poll io (timeout \<noteq> HAL_MAX_DELAY) n (hw w))"
proof (rule QSPI_WaitFlagStateUntilTimeout.raw_induct [OF _ assms, where P = "\<lambda>io f st t0 timeout w r.
    \<exists>n. wait_exits io f st t0 timeout (poll io (timeout \<noteq> HAL_MAX_DELAY) n (hw w))"], goal_cases)
  case (1 wait io f st t0 timeout w r)
  show ?case
  proof (cases "wait_exits io f st t0 timeout (hw w)")
    case True
    then show ?thesis by (intro exI [of _ 0]) simp
  next
    case False
    then have "wait io f st t0 timeout (w\<lparr>hw := poll io (timeout \<noteq> HAL_MAX_DELAY) 1 (hw w)\<rparr>) = Some r"
      using 1(2) by (auto simp: GET_FLAG_eq get_tick_eq wait_exits_def flag_eq Let_def split: if_splits)
    from 1(1) [OF this] obtain n where "wait_exits io f st t0 timeout
        (poll io (timeout \<noteq> HAL_MAX_DELAY) n (poll io (timeout \<noteq> HAL_MAX_DELAY) 1 (hw w)))"
      by auto
    then show ?thesis by (intro exI [of _ "Suc n"]) (simp add: Let_def split: if_splits)
  qed
qed

section \<open>The reachable states of the handle\<close>

definition settled :: "'h qworld \<Rightarrow> bool" where
  "settled w \<longleftrightarrow> unlocked w \<and> State (hq w) \<in> {HAL_QSPI_STATE_RESET, HAL_QSPI_STATE_READY,
     HAL_QSPI_STATE_ERROR, HAL_QSPI_STATE_BUSY_MEM_MAPPED}"

text \<open>One call of the blocking interface, with the board hooks given.\<close>

inductive driver_call :: "'h mmio \<Rightarrow> ('h qworld \<Rightarrow> 'h qworld) \<Rightarrow> ('h qworld \<Rightarrow> 'h qworld) \<Rightarrow>
   'h qworld \<Rightarrow> HAL_StatusTypeDef \<Rightarrow> 'h qworld \<Rightarrow> bool" for io MspInit MspDeInit where
  init: "HAL_QSPI_Init io MspInit p w = Some (s, w') \<Longrightarrow> driver_call io MspInit MspDeInit w s w'"
| deinit: "HAL_QSPI_DeInit io MspDeInit p w = Some (s, w') \<Longrightarrow> driver_call io MspInit MspDeInit w s w'"
| command: "HAL_QSPI_Command io cmd timeout w = Some (s, w') \<Longrightarrow> driver_call io MspInit MspDeInit w s w'"
| transmit: "HAL_QSPI_Transmit io pData timeout w = Some (s, w') \<Longrightarrow> driver_call io MspInit MspDeInit w s w'"
| receive: "HAL_QSPI_Receive io pData timeout w = Some (s, w') \<Longrightarrow> driver_call io MspInit MspDeInit w s w'"
| polling: "HAL_QSPI_AutoPolling io cmd cfg timeout w = Some (s, w') \<Longrightarrow> driver_call io MspInit MspDeInit w s w'"
| memmap: "HAL_QSPI_MemoryMapped io cmd mcfg w = Some (s, w') \<Longrightarrow> driver_call io MspInit MspDeInit w s w'"
| abort: "HAL_QSPI_Abort io w = Some (s, w') \<Longrightarrow> driver_call io MspInit MspDeInit w s w'"
| fifo: "HAL_QSPI_SetFifoThreshold io t w = Some (s, w') \<Longrightarrow> driver_call io MspInit MspDeInit w s w'"
| flash_id: "HAL_QSPI_SetFlashID io t w = Some (s, w') \<Longrightarrow> driver_call io MspInit MspDeInit w s w'"
| timeout: "driver_call io MspInit MspDeInit w HAL_OK (HAL_QSPI_SetTimeout t w)"

inductive driver_run :: "'h mmio \<Rightarrow> ('h qworld \<Rightarrow> 'h qworld) \<Rightarrow> ('h qworld \<Rightarrow> 'h qworld) \<Rightarrow>
   'h qworld \<Rightarrow> 'h qworld \<Rightarrow> bool" for io MspInit MspDeInit where
  start: "driver_run io MspInit MspDeInit w w"
| call: "driver_run io MspInit MspDeInit w w1 \<Longrightarrow> driver_call io MspInit MspDeInit w1 s w2 \<Longrightarrow>
    driver_run io MspInit MspDeInit w w2"

text \<open>An operation that is guarded keeps a settled state if it does so on a ready handle.\<close>

context guarded
begin

lemma settled_step:
  assumes "op w = Some (s, w')" and "settled w" and "unlocked w \<Longrightarrow> ready w \<Longrightarrow> settled w'"
  shows "settled w'"
proof (cases "ready w")
  case True
  with assms(2,3) show ?thesis by (simp add: settled_def)
next
  case False
  with assms(1,2) refuses [of w] have "refused io w w'" by (auto simp: settled_def)
  with assms(2) show ?thesis by (auto simp: settled_def refused_def)
qed

end

lemma settled_locked_run:
  assumes "locked_run body w = Some (s, w')"
    and "\<And>w1 s1 w2. body w1 = Some (s1, w2) \<Longrightarrow> State (hq w2) = State (hq w1)"
    and "settled w"
  shows "settled w'"
  using assms by (auto simp: locked_run_def settled_def set_Lock_def bind_Some_iff split: if_splits)

lemma driver_call_settled:
  assumes "driver_call io MspInit MspDeInit w s w'" and "settled w"
    and hooks: "board_hook io MspInit" "board_hook io MspDeInit"
  shows "settled w'"
  using assms(1)
proof cases
  case (init p)
  show ?thesis
  proof (cases p)
    case NULL_HANDLE
    with init assms(2) show ?thesis by (auto simp: HAL_QSPI_Init_def get_tick_eq settled_def)
  next
    case HQSPI
    from assms(2) have "unlocked w" by (simp add: settled_def)
    with hooks(1) init [unfolded HQSPI] show ?thesis
      by (cases rule: board_hook.Init_cases) (auto simp: settled_def init_handle_def)
  qed
next
  case (deinit p)
  then show ?thesis using assms(2) board_hook.hook [OF hooks(2)]
    by (auto simp: HAL_QSPI_DeInit_def settled_def Let_def handle_simps split: if_splits)
next
  case (command cmd timeout)
  then show ?thesis using assms(2)
    by (rule command.settled_step)
      (frule (1) Command_ready [OF _ _ command], auto simp: command_result_def settled_def)
next
  case (transmit pData timeout)
  then show ?thesis using assms(2)
    by (rule transmit.settled_step)
      (frule (1) Transmit_ready [OF _ _ transmit], auto simp: transmit_result_def xfer_frame_def settled_def)
next
  case (receive pData timeout)
  then show ?thesis using assms(2)
    by (rule receive.settled_step)
      (frule (1) Receive_ready [OF _ _ receive], auto simp: receive_result_def xfer_frame_def settled_def)
next
  case (polling cmd cfg timeout)
  then show ?thesis using assms(2)
    by (rule polling.settled_step)
      (frule (1) AutoPolling_ready [OF _ _ polling], auto simp: polling_result_def settled_def)
next
  case (memmap cmd mcfg)
  then show ?thesis using assms(2)
    by (rule memmap.settled_step)
      (frule (1) MemoryMapped_ready [OF _ _ memmap], auto simp: memmap_result_def settled_def)
next
  case abort
  then show ?thesis using assms(2) Abort_busy [OF abort] Abort_idle [of w io]
    by (cases "state_code (State (hq w)) AND 2 = 0") (auto simp: settled_def)
next
  case (fifo t)
  from settled_locked_run [OF fifo [unfolded SetFifoThreshold_shape]] assms(2) show ?thesis
    by (auto simp: MODIFY_REG_eq)
next
  case (flash_id t)
  from settled_locked_run [OF flash_id [unfolded SetFlashID_shape]] assms(2) show ?thesis
    by (auto simp: MODIFY_REG_eq)
next
  case (timeout t)
  with assms(2) show ?thesis by (simp add: settled_def HAL_QSPI_SetTimeout_def)
qed

lemma driver_run_settled:
  assumes "driver_run io MspInit MspDeInit w w'" and "settled w"
    and "board_hook io MspInit" "board_hook io MspDeInit"
  shows "settled w'"
  using assms by (induction rule: driver_run.induct) (auto intro: driver_call_settled)

section \<open>A concrete register file\<close>

text \<open>
  Hardware for concrete runs: a register file whose status register always reports the last
  operation as complete, a data register that delivers the bytes of a list, and a clock that
  advances by a fixed step at each reading.
\<close>

record demo =
  regs :: "ioreg \<Rightarrow> u32"
  fifo_in :: "u8 list"
  now :: u32

definition demo_io :: "u32 \<Rightarrow> u32 \<Rightarrow> demo mmio" where
  "demo_io sr step = \<lparr>
     io_rd = (\<lambda>r h. (if r = SR then sr else regs h r, h)),
     io_wr = (\<lambda>r v h. h\<lparr>regs := (regs h)(r := v)\<rparr>),
     io_rd8 = (\<lambda>h. (case fifo_in h of [] \<Rightarrow> (0, h) | b # bs \<Rightarrow> (b, h\<lparr>fifo_in := bs\<rparr>))),
     io_wr8 = (\<lambda>b h. h),
     io_ld = (\<lambda>a h. (0, h)),
     io_tick = (\<lambda>h. (now h, h\<lparr>now := now h + step\<rparr>)),
     mdma_disable = (\<lambda>h. h),
     mdma_abort = (\<lambda>h. (HAL_OK, h)),
     mdma_abort_it = (\<lambda>h. (HAL_OK, h))\<rparr>"

text \<open>All completion flags set and not busy; and the busy flag stuck.\<close>

abbreviation (input) SR_DONE :: u32 where "SR_DONE \<equiv> 0x0E"
abbreviation (input) SR_STUCK :: u32 where "SR_STUCK \<equiv> 0x20"

definition demo_handle :: QSPI_HandleTypeDef where
  "demo_handle = \<lparr>Instance = 0x52005000,
     Init = \<lparr>ClockPrescaler = 1, FifoThreshold = 32, SampleShifting = 0x10, FlashSize = 22,
             ChipSelectHighTime = 0, ClockMode = 1, FlashID = 0, DualFlash = 0\<rparr>,
     pTxBuffPtr = 0, TxXferSize = 0, TxXferCount = 0, pRxBuffPtr = 0, RxXferSize = 0,
     RxXferCount = 0, Lock = HAL_UNLOCKED, State = HAL_QSPI_STATE_READY, ErrorCode = 0,
     Timeout = 5000\<rparr>"

definition demo_world :: "u8 list \<Rightarrow> demo qworld" where
  "demo_world bs = \<lparr>hq = demo_handle, mem = (\<lambda>a. 0),
     hw = \<lparr>regs = (\<lambda>r. 0), fifo_in = bs, now = 0\<rparr>\<rparr>"

definition log_world :: "u8 list \<Rightarrow> (demo \<times> bus_event list) qworld" where
  "log_world bs = \<lparr>hq = demo_handle, mem = (\<lambda>a. ucast a),
     hw = (\<lparr>regs = (\<lambda>r. 0), fifo_in = bs, now = 0\<rparr>, [])\<rparr>"

end
