(* ===== verification/Hal_Qspi_Props.thy ===== *)
theory Hal_Qspi_Props
  imports Hal_Qspi_Machine
begin

text \<open>
  The properties of the QUADSPI driver. The ones on bus traffic run the driver on the recording
  hardware \<open>log_io io\<close>, for any hardware \<open>io\<close>, so that they say exactly what is
  written and in which order.
\<close>

lemma log_io_fst [simp]:
  "fst (io_rd (log_io io) r hl) = fst (io_rd io r (fst hl))"
  "fst (snd (io_rd (log_io io) r hl)) = snd (io_rd io r (fst hl))"
  "fst (io_tick (log_io io) hl) = fst (io_tick io (fst hl))"
  "fst (snd (io_tick (log_io io) hl)) = snd (io_tick io (fst hl))"
  by (cases hl; simp add: log_io_def split: prod.splits)+

definition read_id_cmd :: QSPI_CommandTypeDef where
  "read_id_cmd = \<lparr>Instruction = 0x9F, Address = 0, AlternateBytes = 0, AddressSize = 0x2000,
     AlternateBytesSize = 0, DummyCycles = 0, InstructionMode = 0x100, AddressMode = 0,
     AlternateByteMode = 0, DataMode = 0x1000000, NbData = 3, DdrMode = 0, DdrHoldHalfCycle = 0,
     SIOOMode = 0\<rparr>"

lemma run_status:
  assumes "map_option fst r = Some s"
  obtains w' where "r = Some (s, w')"
  using assms by (cases r) auto

text \<open>
  C20. A command on a ready handle ends in one of two ways. With \<open>HAL_OK\<close> it has put
  exactly the register writes of the command on the bus (data length, alternate bytes,
  configuration word, address, each only if the command has that phase) and changed nothing but
  the error code. With \<open>HAL_ERROR\<close> a wait has timed out: the handle is in the error
  state and at most the configuration was written.
\<close>

theorem command_traffic:
  assumes "unlocked w" "ready w" "HAL_QSPI_Command (log_io io) cmd timeout w = Some (s, w')"
  shows "mem w' = mem w \<and>
    (s = HAL_OK \<and> hq w' = (hq w)\<lparr>ErrorCode := 0\<rparr> \<and> snd (hw w') = snd (hw w) @ command_trace cmd \<or>
     s = HAL_ERROR \<and> timeout \<noteq> HAL_MAX_DELAY \<and>
       hq w' = (hq w)\<lparr>State := HAL_QSPI_STATE_ERROR, ErrorCode := HAL_QSPI_ERROR_TIMEOUT\<rparr> \<and>
       snd (hw w') \<in> {snd (hw w), snd (hw w) @ config_trace cmd QSPI_FUNCTIONAL_MODE_INDIRECT_WRITE})"
  using Command_ready [OF assms] by (auto simp: command_result_def dest: bus_log_io)

lemma command_traffic_witness:
  "\<exists>w'. HAL_QSPI_Command (log_io (demo_io SR_DONE 1)) read_id_cmd 5000 (log_world []) = Some (HAL_OK, w') \<and>
     snd (hw w') = [W DLR 2, W CCR 0x0100019F]"
proof -
  have "map_option fst (HAL_QSPI_Command (log_io (demo_io SR_DONE 1)) read_id_cmd 5000 (log_world []))
      = Some HAL_OK" by code_simp
  then obtain w' where run: "HAL_QSPI_Command (log_io (demo_io SR_DONE 1)) read_id_cmd 5000 (log_world [])
      = Some (HAL_OK, w')" by (rule run_status)
  have "unlocked (log_world [])" "ready (log_world [])" by code_simp+
  from command_traffic [OF this run] have "snd (hw w') = snd (hw (log_world [])) @ command_trace read_id_cmd"
    by simp
  moreover have "snd (hw (log_world [])) @ command_trace read_id_cmd = [W DLR 2, W CCR 0x0100019F]"
    by code_simp
  ultimately show ?thesis using run by simp
qed

text \<open>
  C21. A transmission on a ready handle that returns \<open>HAL_OK\<close> selects indirect-write mode,
  writes exactly the bytes of the buffer to the data register, as many as the data-length
  register says, in order, and clears the completion flag. One that times out has written a
  prefix of them. In both cases the handle is ready again, with the failure in the error code
  only.
\<close>

theorem transmit_traffic:
  assumes "unlocked w" "ready w" "pData \<noteq> 0"
    and "HAL_QSPI_Transmit (log_io io) pData timeout w = Some (s, w')"
    and "n = unat (fst (io_rd io DLR (snd (io_tick io (fst (hw w))))) + 1)"
  shows "unlocked w' \<and> ready w' \<and> mem w' = mem w \<and>
    (\<exists>ccr. s = HAL_OK \<and> ErrorCode (hq w') = 0 \<and>
       snd (hw w') = snd (hw w) @ [W CCR (ccr AND NOT QUADSPI_CCR_FMODE)] @
         map W8 (bytes_at (mem w) pData n) @ [W FCR QSPI_FLAG_TC] \<or>
     s = HAL_ERROR \<and> ErrorCode (hq w') = HAL_QSPI_ERROR_TIMEOUT \<and>
       (\<exists>k\<le>n. snd (hw w') = snd (hw w) @ [W CCR (ccr AND NOT QUADSPI_CCR_FMODE)] @
         map W8 (bytes_at (mem w) pData k)))"
  using Transmit_ready [OF assms(1,2,4)] assms(3,5)
  by (fastforce simp: transmit_result_def xfer_frame_def Let_def dest: bus_log_io)

lemma transmit_traffic_witness:
  "\<exists>w'. HAL_QSPI_Transmit (log_io (demo_io SR_DONE 1)) 0x20 5000 (log_world []) = Some (HAL_OK, w') \<and>
     (\<exists>ccr. snd (hw w') = [W CCR (ccr AND NOT QUADSPI_CCR_FMODE), W8 0x20, W FCR QSPI_FLAG_TC])"
proof -
  have "map_option fst (HAL_QSPI_Transmit (log_io (demo_io SR_DONE 1)) 0x20 5000 (log_world []))
      = Some HAL_OK" by code_simp
  then obtain w' where run: "HAL_QSPI_Transmit (log_io (demo_io SR_DONE 1)) 0x20 5000 (log_world [])
      = Some (HAL_OK, w')" by (rule run_status)
  have pre: "unlocked (log_world [])" "ready (log_world [])" "(0x20 :: u32) \<noteq> 0" by code_simp+
  have n: "1 = unat (fst (io_rd (demo_io SR_DONE 1) DLR
      (snd (io_tick (demo_io SR_DONE 1) (fst (hw (log_world [])))))) + 1)" by code_simp
  have b: "bytes_at (mem (log_world [])) 0x20 1 = [0x20]" "snd (hw (log_world [])) = []" by code_simp+
  from transmit_traffic [OF pre run n] have "\<exists>ccr. snd (hw w') = snd (hw (log_world [])) @
      [W CCR (ccr AND NOT QUADSPI_CCR_FMODE)] @ map W8 (bytes_at (mem (log_world [])) 0x20 1) @
      [W FCR QSPI_FLAG_TC]"
    by auto
  with run b show ?thesis by auto
qed

text \<open>
  A reception on a ready handle that returns \<open>HAL_OK\<close> selects indirect-read mode and
  rewrites the address register with the value it had, which starts the transfer; the bytes it
  reads from the data register, as many as the data-length register says, are stored in order
  from the buffer address on, and no other byte of memory changes. One that times out has stored
  a prefix.
\<close>

theorem receive_traffic:
  assumes "unlocked w" "ready w" "pData \<noteq> 0"
    and "HAL_QSPI_Receive (log_io io) pData timeout w = Some (s, w')"
    and "h1 = snd (io_tick io (fst (hw w)))"
    and "n = unat (fst (io_rd io DLR (snd (io_rd io AR h1))) + 1)"
  shows "unlocked w' \<and> ready w' \<and>
    (\<exists>ccr bs tail. mem w' = store_bytes (mem w) pData bs \<and>
       snd (hw w') = snd (hw w) @
         [W CCR ((ccr AND NOT QUADSPI_CCR_FMODE) OR QSPI_FUNCTIONAL_MODE_INDIRECT_READ),
          W AR (fst (io_rd io AR h1))] @ map R8 bs @ tail \<and>
       (s = HAL_OK \<and> ErrorCode (hq w') = 0 \<and> length bs = n \<and> tail = [W FCR QSPI_FLAG_TC] \<or>
        s = HAL_ERROR \<and> ErrorCode (hq w') = HAL_QSPI_ERROR_TIMEOUT \<and> length bs \<le> n \<and> tail = []))"
  using Receive_ready [OF assms(1,2,4)] assms(3,5,6)
  by (fastforce simp: receive_result_def xfer_frame_def Let_def dest: bus_log_io)

lemma receive_traffic_witness:
  "\<exists>w'. HAL_QSPI_Receive (log_io (demo_io SR_DONE 1)) 0x20 5000 (log_world [0xEF]) = Some (HAL_OK, w') \<and>
     (\<exists>b. mem w' = (mem (log_world []))(0x20 := b))"
proof -
  have "map_option fst (HAL_QSPI_Receive (log_io (demo_io SR_DONE 1)) 0x20 5000 (log_world [0xEF]))
      = Some HAL_OK" by code_simp
  then obtain w' where run: "HAL_QSPI_Receive (log_io (demo_io SR_DONE 1)) 0x20 5000 (log_world [0xEF])
      = Some (HAL_OK, w')" by (rule run_status)
  have pre: "unlocked (log_world [0xEF])" "ready (log_world [0xEF])" "(0x20 :: u32) \<noteq> 0" by code_simp+
  have n: "1 = unat (fst (io_rd (demo_io SR_DONE 1) DLR (snd (io_rd (demo_io SR_DONE 1) AR
      (snd (io_tick (demo_io SR_DONE 1) (fst (hw (log_world [0xEF])))))))) + 1)" by code_simp
  from receive_traffic [OF pre run refl n] obtain bs where
    "mem w' = store_bytes (mem (log_world [0xEF])) 0x20 bs" "length bs = 1" by auto
  moreover from this(2) obtain b where "bs = [b]" by (auto simp: length_Suc_conv)
  ultimately have "mem w' = (mem (log_world []))(0x20 := b)" by (simp add: log_world_def)
  with run show ?thesis by blast
qed

text \<open>
  C22. While the handle is not ready (not initialised, in the error state, or in memory-mapped
  mode) each of the seven functions \<open>HAL_QSPI_Command\<close>, \<open>HAL_QSPI_Transmit\<close>, \<open>HAL_QSPI_Receive\<close>,
  \<open>HAL_QSPI_AutoPolling\<close>, \<open>HAL_QSPI_MemoryMapped\<close>, \<open>HAL_QSPI_SetFifoThreshold\<close> and \<open>HAL_QSPI_SetFlashID\<close> is refused: it returns
  without a success code, puts nothing on the bus and leaves handle and memory as they were. \<open>Init\<close>, \<open>DeInit\<close>,
  \<open>Abort\<close> and \<open>SetTimeout\<close> are not among them: they act on handles that are not ready.
\<close>

theorem not_ready_refused:
  assumes "unlocked w" "\<not> ready w"
    and "op \<in> {HAL_QSPI_Command (log_io io) cmd timeout, HAL_QSPI_Transmit (log_io io) pData timeout,
               HAL_QSPI_Receive (log_io io) pData timeout, HAL_QSPI_AutoPolling (log_io io) cmd cfg timeout,
               HAL_QSPI_MemoryMapped (log_io io) cmd mcfg, HAL_QSPI_SetFifoThreshold (log_io io) t,
               HAL_QSPI_SetFlashID (log_io io) fid}"
  shows "\<exists>s w'. op w = Some (s, w') \<and> s \<noteq> HAL_OK \<and> hq w' = hq w \<and> mem w' = mem w \<and>
           snd (hw w') = snd (hw w)"
proof -
  have quiet: "hq w' = hq w \<and> mem w' = mem w \<and> snd (hw w') = snd (hw w)" if "refused (log_io io) w w'" for w'
    using that by (auto simp: refused_def dest: bus_log_io)
  note contracts = command.refuses transmit.refuses receive.refuses polling.refuses memmap.refuses
    fifo.refuses flash_id.refuses
  from assms(3) have "\<exists>s w'. op w = Some (s, w') \<and> s \<noteq> HAL_OK \<and> refused (log_io io) w w'"
    by (elim insertE emptyE; simp only:) (rule contracts [OF assms(1,2)])+
  with quiet show ?thesis by blast
qed

lemma not_ready_refused_witness:
  "\<exists>s w'. HAL_QSPI_Command (log_io (demo_io SR_DONE 1)) read_id_cmd 5000
      (set_State HAL_QSPI_STATE_BUSY_MEM_MAPPED (log_world [])) = Some (s, w') \<and> s \<noteq> HAL_OK \<and>
      snd (hw w') = []"
proof -
  let ?w = "set_State HAL_QSPI_STATE_BUSY_MEM_MAPPED (log_world [])"
  have "unlocked ?w" "\<not> ready ?w" "snd (hw ?w) = []" by code_simp+
  with not_ready_refused [of ?w "HAL_QSPI_Command (log_io (demo_io SR_DONE 1)) read_id_cmd 5000"
      "demo_io SR_DONE 1" read_id_cmd 5000] show ?thesis by auto
qed

text \<open>
  C23. Whatever sequence of calls is made on a handle that starts in the reset state and unlocked,
  the handle is afterwards unlocked and in one of four states: reset, ready, error or
  memory-mapped. A blocking call never leaves it locked or in a transient busy state. The board
  hooks are only assumed to leave the handle and memory alone.
\<close>

theorem reachable_settled:
  assumes "driver_run io MspInit MspDeInit w w'"
    and "unlocked w" "State (hq w) = HAL_QSPI_STATE_RESET"
    and "board_hook io MspInit" "board_hook io MspDeInit"
  shows "unlocked w' \<and> State (hq w') \<in> {HAL_QSPI_STATE_RESET, HAL_QSPI_STATE_READY,
     HAL_QSPI_STATE_ERROR, HAL_QSPI_STATE_BUSY_MEM_MAPPED}"
  using driver_run_settled [OF assms(1) _ assms(4,5)] assms(2,3) by (simp add: settled_def)

lemma trivial_hook: "board_hook io (\<lambda>w. w)"
proof
  fix w :: "'a qworld"
  show "\<exists>h tr. w = w\<lparr>hw := h\<rparr> \<and> bus io (hw w) tr h"
    by (intro exI [of _ "hw w"] exI [of _ "[]"]) (simp add: bus_refl)
qed

lemma reachable_settled_witness:
  "\<exists>w'. HAL_QSPI_Init (demo_io SR_STUCK 3000) (\<lambda>w. w) HQSPI
        (set_State HAL_QSPI_STATE_RESET (demo_world [])) = Some (HAL_ERROR, w') \<and> unlocked w'"
proof -
  let ?w = "set_State HAL_QSPI_STATE_RESET (demo_world [])"
  have "map_option fst (HAL_QSPI_Init (demo_io SR_STUCK 3000) (\<lambda>w. w) HQSPI ?w) = Some HAL_ERROR"
    by code_simp
  then obtain w' where run: "HAL_QSPI_Init (demo_io SR_STUCK 3000) (\<lambda>w. w) HQSPI ?w = Some (HAL_ERROR, w')"
    by (rule run_status)
  have "driver_run (demo_io SR_STUCK 3000) (\<lambda>w. w) (\<lambda>w. w) ?w w'"
    by (rule driver_run.call [OF driver_run.start driver_call.init [OF run]])
  moreover have "unlocked ?w" "State (hq ?w) = HAL_QSPI_STATE_RESET" by code_simp+
  ultimately show ?thesis using reachable_settled [OF _ _ _ trivial_hook trivial_hook] run by blast
qed

text \<open>
  The busy-wait of the driver returns exactly when, in some round, the polled flag has the
  expected value or the elapsed time exceeds the limit. So with \<open>HAL_MAX_DELAY\<close> it
  depends on the flag alone.
\<close>

theorem wait_returns_iff:
  "(\<exists>r. QSPI_WaitFlagStateUntilTimeout io flag st t0 timeout w = Some r) \<longleftrightarrow>
   (\<exists>n. wait_exits io flag st t0 timeout (poll io (timeout \<noteq> HAL_MAX_DELAY) n (hw w)))"
  using wait_returns_if [of io flag st t0 timeout _ w] wait_returns_only_if [of io flag st t0 timeout w]
  by blast

lemma poll_stuck:
  assumes "io_rd io SR h = (v, h)" and "io_tick io h = (t, h)"
  shows "poll io timed n h = h"
  by (induction n) (auto simp: assms Let_def)

text \<open>
  The limit of the wait is measured by the time base. If the time base stands still, as it
  does when the tick interrupt is not configured, and a command finds the peripheral busy for
  good, the command never returns, whatever its timeout.
\<close>

theorem frozen_clock_hangs:
  assumes "io_rd io SR (hw w) = (v, hw w)" and "io_tick io (hw w) = (t, hw w)"
    and "v AND QSPI_FLAG_BUSY \<noteq> 0" and "timeout \<noteq> 0" and "unlocked w" "ready w"
  shows "HAL_QSPI_Command io cmd timeout w = None"
proof -
  let ?w = "set_State HAL_QSPI_STATE_BUSY (set_ErrorCode HAL_QSPI_ERROR_NONE (set_Lock HAL_LOCKED w))"
  have hw: "hw ?w = hw w" by (simp add: handle_simps)
  have "\<not> wait_exits io QSPI_FLAG_BUSY RESET t timeout (poll io timed n (hw ?w))" for timed n
    using assms(3,4) unfolding hw poll_stuck [OF assms(1,2)] by (simp add: wait_exits_def assms(1,2))
  then have "QSPI_WaitFlagStateUntilTimeout io QSPI_FLAG_BUSY RESET t timeout ?w = None"
    using wait_returns_only_if [of io QSPI_FLAG_BUSY RESET t timeout ?w] by (metis not_None_eq)
  then show ?thesis
    using assms(5,6) by (simp add: Command_shape locked_run_def begin_op_def assms(2) set_Lock_def)
qed

lemma frozen_clock_hangs_witness:
  "HAL_QSPI_Command (demo_io SR_STUCK 0) read_id_cmd 5000 (demo_world []) = None"
  by (rule frozen_clock_hangs [where v = SR_STUCK and t = 0])
    (simp_all add: demo_io_def demo_world_def demo_handle_def)

lemma fthres_field:
  "drop_bit 8 ((c AND NOT QUADSPI_CR_FTHRES OR push_bit 8 x) AND QUADSPI_CR_FTHRES) = x AND 15"
  for c x :: u32
proof (rule bit_word_eqI)
  fix n assume n: "n < LENGTH(32)"
  have m: "bit (0xF00 :: u32) k \<longleftrightarrow> k \<in> {8, 9, 10, 11}" for k
  proof -
    have "(0xF00 :: u32) = push_bit 8 (mask 4)" by (simp add: mask_eq_exp_minus_1)
    then show ?thesis unfolding \<open>_ = push_bit 8 (mask 4)\<close> bit_push_bit_iff bit_mask_iff by auto
  qed
  have m': "bit (15 :: u32) k \<longleftrightarrow> k < 4" for k
  proof -
    have "(15 :: u32) = mask 4" by (simp add: mask_eq_exp_minus_1)
    then show ?thesis unfolding \<open>_ = mask 4\<close> bit_mask_iff by auto
  qed
  show "bit (drop_bit 8 ((c AND NOT QUADSPI_CR_FTHRES OR push_bit 8 x) AND QUADSPI_CR_FTHRES)) n =
      bit (x AND 15) n"
    unfolding bit_drop_bit_eq comp_apply bit_and_iff bit_or_iff bit_not_iff m m' bit_push_bit_iff
    using n by auto
qed

text \<open>
  Setting the FIFO threshold and reading it back. The mask \<open>QUADSPI_CR_FTHRES\<close> covers
  four bits, so the value read is the value set reduced to the range 1 to 16, although the
  threshold may be configured up to 32 (the flash driver configures 32 and would read 16).
\<close>

theorem fifo_threshold_readback:
  assumes latch: "\<And>v h. fst (io_rd io CR (io_wr io CR v h)) = v"
    and "unlocked w" "ready w"
  shows "\<exists>w1 w2. HAL_QSPI_SetFifoThreshold io t w = Some (HAL_OK, w1) \<and>
     FifoThreshold (Init (hq w1)) = t \<and>
     HAL_QSPI_GetFifoThreshold io w1 = (((t - 1) AND 15) + 1, w2)"
proof -
  define v where "v = (fst (io_rd io CR (hw w)) AND NOT QUADSPI_CR_FTHRES) OR push_bit 8 (t - 1)"
  obtain w1 where w1: "HAL_QSPI_SetFifoThreshold io t w = Some (HAL_OK, w1)"
    "hw w1 = io_wr io CR v (snd (io_rd io CR (hw w)))" "FifoThreshold (Init (hq w1)) = t"
    using assms(2,3) by (simp add: HAL_QSPI_SetFifoThreshold_def MODIFY_REG_eq handle_simps v_def)
  have "HAL_QSPI_GetFifoThreshold io w1 = (drop_bit 8 (v AND QUADSPI_CR_FTHRES) + 1,
      w1\<lparr>hw := snd (io_rd io CR (hw w1))\<rparr>)"
    by (simp only: HAL_QSPI_GetFifoThreshold_def READ_BIT_eq w1(2) latch prod.case)
  with w1 show ?thesis unfolding v_def fthres_field by blast
qed

lemma fifo_threshold_readback_witness:
  "\<exists>w1 w2. HAL_QSPI_SetFifoThreshold (demo_io SR_DONE 1) 32 (demo_world []) = Some (HAL_OK, w1) \<and>
     FifoThreshold (Init (hq w1)) = 32 \<and>
     HAL_QSPI_GetFifoThreshold (demo_io SR_DONE 1) w1 = (16, w2)"
proof -
  have "(((32 :: u32) - 1) AND 15) + 1 = 16" by code_simp
  with fifo_threshold_readback [of "demo_io SR_DONE 1" "demo_world []" 32] show ?thesis
    by (simp add: demo_io_def demo_world_def demo_handle_def)
qed

text \<open>
  Aborting. In a busy state, memory-mapped mode included, an abort that returns
  \<open>HAL_OK\<close> leaves the handle ready and unlocked, one that times out leaves it in the
  error state. In the error state an abort returns \<open>HAL_OK\<close> too but changes nothing, so
  the next command is still refused: only a new initialisation recovers from a timeout.
\<close>

theorem abort_outcome:
  assumes "HAL_QSPI_Abort io w = Some (s, w')"
  shows "if state_code (State (hq w)) AND 2 \<noteq> 0
    then unlocked w' \<and> mem w' = mem w \<and>
      (s = HAL_OK \<and> ready w' \<or> s = HAL_ERROR \<and> State (hq w') = HAL_QSPI_STATE_ERROR)
    else s = HAL_OK \<and> hq w' = hq w \<and> mem w' = mem w"
  using Abort_busy [OF assms] Abort_idle [of w io] assms by auto

lemma abort_outcome_witness:
  "\<exists>w'. HAL_QSPI_Abort (demo_io SR_DONE 1) (set_State HAL_QSPI_STATE_BUSY_MEM_MAPPED (demo_world []))
      = Some (HAL_OK, w') \<and> ready w'"
proof -
  let ?w = "set_State HAL_QSPI_STATE_BUSY_MEM_MAPPED (demo_world [])"
  have "map_option fst (HAL_QSPI_Abort (demo_io SR_DONE 1) ?w) = Some HAL_OK" by code_simp
  then obtain w' where run: "HAL_QSPI_Abort (demo_io SR_DONE 1) ?w = Some (HAL_OK, w')" by (rule run_status)
  have "state_code (State (hq ?w)) AND 2 \<noteq> 0" by code_simp
  with abort_outcome [OF run] run show ?thesis by auto
qed

text \<open>
  Initialisation works from every state of an unlocked handle, the error and the
  memory-mapped state included. With \<open>HAL_OK\<close> the handle is ready, has no error, keeps
  its configuration, and has the default timeout if it was in the reset state; the last four
  writes program the FIFO threshold, the clock and sampling fields, the size and mode fields, and
  the enable bit. Otherwise the peripheral stayed busy and the handle is in the error state.
\<close>

theorem init_outcome:
  assumes "board_hook (log_io io) MspInit" and "unlocked w"
    and "HAL_QSPI_Init (log_io io) MspInit HQSPI w = Some (s, w')"
  shows "Init (hq w') = Init (hq w) \<and> mem w' = mem w \<and> unlocked w' \<and>
    (State (hq w) = HAL_QSPI_STATE_RESET \<longrightarrow> Timeout (hq w') = HAL_QPSI_TIMEOUT_DEFAULT_VALUE) \<and>
    (s = HAL_OK \<and> ready w' \<and> ErrorCode (hq w') = 0 \<and>
       (\<exists>pre c1 c2 d c3. snd (hw w') = snd (hw w) @ pre @ init_trace (Init (hq w)) c1 c2 d c3) \<or>
     s = HAL_ERROR \<and> State (hq w') = HAL_QSPI_STATE_ERROR)"
  using assms(1,3,2)
  by (cases rule: board_hook.Init_cases) (auto simp: init_handle_def dest!: bus_log_io, blast+)

lemma init_outcome_witness:
  "\<exists>w'. HAL_QSPI_Init (log_io (demo_io SR_DONE 1)) (\<lambda>w. w) HQSPI
        (set_State HAL_QSPI_STATE_ERROR (log_world [])) = Some (HAL_OK, w') \<and> ready w'"
proof -
  let ?w = "set_State HAL_QSPI_STATE_ERROR (log_world [])"
  have "map_option fst (HAL_QSPI_Init (log_io (demo_io SR_DONE 1)) (\<lambda>w. w) HQSPI ?w) = Some HAL_OK"
    by code_simp
  then obtain w' where run: "HAL_QSPI_Init (log_io (demo_io SR_DONE 1)) (\<lambda>w. w) HQSPI ?w = Some (HAL_OK, w')"
    by (rule run_status)
  have "unlocked ?w" by code_simp
  with init_outcome [OF trivial_hook _ run] run show ?thesis by auto
qed

end
