(* ===== verification/Hal_Qspi_IT.thy ===== *)
theory Hal_Qspi_IT
  imports Hal_Qspi_Machine
begin

text \<open>
  The interrupt-driven interface of the QUADSPI driver (\<open>stm32h7xx_hal_qspi.c\<close>): the
  functions that start an operation and return, and the interrupt handler that carries it on. The
  handler's result lists the callback functions it calls, which are empty unless the
  application replaces them. The MDMA channel is reached through the hardware parameter:
  \<open>mdma_abort_it\<close> is the call of \<open>HAL_MDMA_Abort_IT\<close> with the abort callback registered.
\<close>

section \<open>Starting an operation\<close>

definition HAL_QSPI_Command_IT :: "'h mmio \<Rightarrow> QSPI_CommandTypeDef \<Rightarrow> 'h qworld \<Rightarrow> 'h hal_result" where
  "HAL_QSPI_Command_IT io cmd w0 =
    (let (tickstart, w) = get_tick io w0 in
     if Lock (hq w) = HAL_LOCKED then Some (HAL_BUSY, w)
     else
       (let w1 = set_Lock HAL_LOCKED w in
        if State (hq w1) = HAL_QSPI_STATE_READY then do {
          let w2 = set_State HAL_QSPI_STATE_BUSY (set_ErrorCode HAL_QSPI_ERROR_NONE w1);
          (status, w3) \<leftarrow> QSPI_WaitFlagStateUntilTimeout io QSPI_FLAG_BUSY RESET tickstart
                            (Timeout (hq w2)) w2;
          Some (status,
            if status = HAL_OK then
              (let w4 = (if DataMode cmd = QSPI_DATA_NONE
                         then HAL_QSPI_CLEAR_FLAG io (QSPI_FLAG_TE OR QSPI_FLAG_TC) w3 else w3);
                   w5 = QSPI_Config io cmd QSPI_FUNCTIONAL_MODE_INDIRECT_WRITE w4
               in if DataMode cmd = QSPI_DATA_NONE
                  then HAL_QSPI_ENABLE_IT io (QSPI_IT_TE OR QSPI_IT_TC) (set_Lock HAL_UNLOCKED w5)
                  else set_Lock HAL_UNLOCKED (set_State HAL_QSPI_STATE_READY w5))
            else set_Lock HAL_UNLOCKED w3)
        }
        else Some (HAL_BUSY, set_Lock HAL_UNLOCKED w1)))"

definition HAL_QSPI_Transmit_IT :: "'h mmio \<Rightarrow> u32 \<Rightarrow> 'h qworld \<Rightarrow> 'h hal_result" where
  "HAL_QSPI_Transmit_IT io pData w =
    (if Lock (hq w) = HAL_LOCKED then Some (HAL_BUSY, w)
     else
       (let w1 = set_Lock HAL_LOCKED w in
        if State (hq w1) = HAL_QSPI_STATE_READY then
          (let w2 = set_ErrorCode HAL_QSPI_ERROR_NONE w1 in
           if pData \<noteq> 0 then
             (let w3 = set_State HAL_QSPI_STATE_BUSY_INDIRECT_TX w2;
                  (d1, w4) = READ_REG io DLR w3;
                  (d2, w5) = READ_REG io DLR w4;
                  w6 = w5\<lparr>hq := (hq w5)\<lparr>TxXferCount := d1 + 1, TxXferSize := d2 + 1,
                                        pTxBuffPtr := pData\<rparr>\<rparr>;
                  w7 = HAL_QSPI_CLEAR_FLAG io (QSPI_FLAG_TE OR QSPI_FLAG_TC) w6;
                  w8 = MODIFY_REG io CCR QUADSPI_CCR_FMODE QSPI_FUNCTIONAL_MODE_INDIRECT_WRITE w7
              in Some (HAL_OK, HAL_QSPI_ENABLE_IT io (QSPI_IT_TE OR QSPI_IT_FT OR QSPI_IT_TC)
                                 (set_Lock HAL_UNLOCKED w8)))
           else Some (HAL_ERROR, set_Lock HAL_UNLOCKED
                  (set_ErrorCode (ErrorCode (hq w2) OR HAL_QSPI_ERROR_INVALID_PARAM) w2)))
        else Some (HAL_BUSY, set_Lock HAL_UNLOCKED w1)))"

definition HAL_QSPI_Receive_IT :: "'h mmio \<Rightarrow> u32 \<Rightarrow> 'h qworld \<Rightarrow> 'h hal_result" where
  "HAL_QSPI_Receive_IT io pData w0 =
    (let (addr_reg, w) = READ_REG io AR w0 in
     if Lock (hq w) = HAL_LOCKED then Some (HAL_BUSY, w)
     else
       (let w1 = set_Lock HAL_LOCKED w in
        if State (hq w1) = HAL_QSPI_STATE_READY then
          (let w2 = set_ErrorCode HAL_QSPI_ERROR_NONE w1 in
           if pData \<noteq> 0 then
             (let w3 = set_State HAL_QSPI_STATE_BUSY_INDIRECT_RX w2;
                  (d1, w4) = READ_REG io DLR w3;
                  (d2, w5) = READ_REG io DLR w4;
                  w6 = w5\<lparr>hq := (hq w5)\<lparr>RxXferCount := d1 + 1, RxXferSize := d2 + 1,
                                        pRxBuffPtr := pData\<rparr>\<rparr>;
                  w7 = HAL_QSPI_CLEAR_FLAG io (QSPI_FLAG_TE OR QSPI_FLAG_TC) w6;
                  w8 = MODIFY_REG io CCR QUADSPI_CCR_FMODE QSPI_FUNCTIONAL_MODE_INDIRECT_READ w7;
                  w9 = WRITE_REG io AR addr_reg w8
              in Some (HAL_OK, HAL_QSPI_ENABLE_IT io (QSPI_IT_TE OR QSPI_IT_FT OR QSPI_IT_TC)
                                 (set_Lock HAL_UNLOCKED w9)))
           else Some (HAL_ERROR, set_Lock HAL_UNLOCKED
                  (set_ErrorCode (ErrorCode (hq w2) OR HAL_QSPI_ERROR_INVALID_PARAM) w2)))
        else Some (HAL_BUSY, set_Lock HAL_UNLOCKED w1)))"

definition HAL_QSPI_AutoPolling_IT ::
  "'h mmio \<Rightarrow> QSPI_CommandTypeDef \<Rightarrow> QSPI_AutoPollingTypeDef \<Rightarrow> 'h qworld \<Rightarrow> 'h hal_result" where
  "HAL_QSPI_AutoPolling_IT io cmd cfg w0 =
    (let (tickstart, w) = get_tick io w0 in
     if Lock (hq w) = HAL_LOCKED then Some (HAL_BUSY, w)
     else
       (let w1 = set_Lock HAL_LOCKED w in
        if State (hq w1) = HAL_QSPI_STATE_READY then do {
          let w2 = set_State HAL_QSPI_STATE_BUSY_AUTO_POLLING (set_ErrorCode HAL_QSPI_ERROR_NONE w1);
          (status, w3) \<leftarrow> QSPI_WaitFlagStateUntilTimeout io QSPI_FLAG_BUSY RESET tickstart
                            (Timeout (hq w2)) w2;
          Some (status,
            if status = HAL_OK then
              (let w4 = WRITE_REG io PIR (Interval cfg)
                          (WRITE_REG io PSMKR (Mask cfg) (WRITE_REG io PSMAR (Match cfg) w3));
                   w5 = MODIFY_REG io CR (QUADSPI_CR_PMM OR QUADSPI_CR_APMS)
                          (MatchMode cfg OR AutomaticStop cfg) w4;
                   w6 = HAL_QSPI_CLEAR_FLAG io (QSPI_FLAG_TE OR QSPI_FLAG_SM) w5;
                   w7 = QSPI_Config io (cmd\<lparr>NbData := StatusBytesSize cfg\<rparr>)
                          QSPI_FUNCTIONAL_MODE_AUTO_POLLING w6
               in HAL_QSPI_ENABLE_IT io (QSPI_IT_SM OR QSPI_IT_TE) (set_Lock HAL_UNLOCKED w7))
            else set_Lock HAL_UNLOCKED w3)
        }
        else Some (HAL_BUSY, set_Lock HAL_UNLOCKED w1)))"

definition HAL_QSPI_Abort_IT :: "'h mmio \<Rightarrow> 'h qworld \<Rightarrow> HAL_StatusTypeDef \<times> 'h qworld" where
  "HAL_QSPI_Abort_IT io w =
    (if state_code (State (hq w)) AND 2 \<noteq> 0 then
       (let w1 = set_State HAL_QSPI_STATE_ABORT (set_Lock HAL_UNLOCKED w);
            w2 = HAL_QSPI_DISABLE_IT io
                   (QSPI_IT_TO OR QSPI_IT_SM OR QSPI_IT_FT OR QSPI_IT_TC OR QSPI_IT_TE) w1;
            (dma, w3) = READ_BIT io CR QUADSPI_CR_DMAEN w2
        in if dma \<noteq> 0 then
             (let w4 = CLEAR_BIT io CR QUADSPI_CR_DMAEN w3;
                  (st, h) = mdma_abort_it io (hw w4);
                  w5 = w4\<lparr>hw := h\<rparr>
              in if st \<noteq> HAL_OK
                 then (HAL_ERROR, set_ErrorCode (ErrorCode (hq w5) OR HAL_QSPI_ERROR_DMA) w5)
                 else (HAL_OK, w5))
           else
             (HAL_OK, SET_BIT io CR QUADSPI_CR_ABORT
                (HAL_QSPI_ENABLE_IT io QSPI_IT_TC (HAL_QSPI_CLEAR_FLAG io QSPI_FLAG_TC w3))))
     else (HAL_OK, w))"

section \<open>The interrupt handler\<close>

datatype qspi_callback =
    HAL_QSPI_FifoThresholdCallback | HAL_QSPI_TxCpltCallback | HAL_QSPI_RxCpltCallback
  | HAL_QSPI_CmdCpltCallback | HAL_QSPI_AbortCpltCallback | HAL_QSPI_ErrorCallback
  | HAL_QSPI_StatusMatchCallback | HAL_QSPI_TimeOutCallback

text \<open>The functions the MDMA channel calls back when it has finished, failed or been aborted.\<close>

definition QSPI_DMARxCplt :: "'h mmio \<Rightarrow> 'h qworld \<Rightarrow> 'h qworld" where
  "QSPI_DMARxCplt io w = HAL_QSPI_ENABLE_IT io QSPI_IT_TC (w\<lparr>hq := (hq w)\<lparr>RxXferCount := 0\<rparr>\<rparr>)"

definition QSPI_DMATxCplt :: "'h mmio \<Rightarrow> 'h qworld \<Rightarrow> 'h qworld" where
  "QSPI_DMATxCplt io w = HAL_QSPI_ENABLE_IT io QSPI_IT_TC (w\<lparr>hq := (hq w)\<lparr>TxXferCount := 0\<rparr>\<rparr>)"

definition QSPI_DMAError :: "'h mmio \<Rightarrow> 'h qworld \<Rightarrow> 'h qworld" where
  "QSPI_DMAError io w =
    (let w1 = w\<lparr>hq := (hq w)\<lparr>RxXferCount := 0, TxXferCount := 0,
                            ErrorCode := ErrorCode (hq w) OR HAL_QSPI_ERROR_DMA\<rparr>\<rparr>
     in snd (HAL_QSPI_Abort_IT io (CLEAR_BIT io CR QUADSPI_CR_DMAEN w1)))"

definition QSPI_DMAAbortCplt :: "'h mmio \<Rightarrow> 'h qworld \<Rightarrow> qspi_callback list \<times> 'h qworld" where
  "QSPI_DMAAbortCplt io w =
    (let w1 = w\<lparr>hq := (hq w)\<lparr>RxXferCount := 0, TxXferCount := 0\<rparr>\<rparr> in
     if State (hq w1) = HAL_QSPI_STATE_ABORT
     then ([], SET_BIT io CR QUADSPI_CR_ABORT
                 (HAL_QSPI_ENABLE_IT io QSPI_IT_TC (HAL_QSPI_CLEAR_FLAG io QSPI_FLAG_TC w1)))
     else ([HAL_QSPI_ErrorCallback], set_State HAL_QSPI_STATE_READY w1))"

text \<open>The loops of the handler: every round moves one byte, so they end with the transfer.\<close>

lemma tx_byte_count: "TxXferCount (hq w) > 0 \<Longrightarrow> unat (TxXferCount (hq (tx_byte io w))) < unat (TxXferCount (hq w))"
  using unat_Suc_pred [of "TxXferCount (hq w)"] by (simp add: tx_byte_def)

lemma rx_byte_count: "RxXferCount (hq w) > 0 \<Longrightarrow> unat (RxXferCount (hq (rx_byte io w))) < unat (RxXferCount (hq w))"
  using unat_Suc_pred [of "RxXferCount (hq w)"] by (simp add: rx_byte_def split: prod.splits)

function irq_tx_loop :: "'h mmio \<Rightarrow> 'h qworld \<Rightarrow> 'h qworld" where
  "irq_tx_loop io w =
    (case HAL_QSPI_GET_FLAG io QSPI_FLAG_FT w of (f, w1) \<Rightarrow>
       if f \<noteq> RESET then
         if TxXferCount (hq w1) > 0 then irq_tx_loop io (tx_byte io w1)
         else HAL_QSPI_DISABLE_IT io QSPI_IT_FT w1
       else w1)"
  by pat_completeness auto
termination
  by (relation "measure (\<lambda>(io, w). unat (TxXferCount (hq w)))")
    (auto simp: GET_FLAG_eq intro!: tx_byte_count [THEN order.strict_trans2])

function irq_rx_loop :: "'h mmio \<Rightarrow> 'h qworld \<Rightarrow> 'h qworld" where
  "irq_rx_loop io w =
    (case HAL_QSPI_GET_FLAG io QSPI_FLAG_FT w of (f, w1) \<Rightarrow>
       if f \<noteq> RESET then
         if RxXferCount (hq w1) > 0 then irq_rx_loop io (rx_byte io w1)
         else HAL_QSPI_DISABLE_IT io QSPI_IT_FT w1
       else w1)"
  by pat_completeness auto
termination
  by (relation "measure (\<lambda>(io, w). unat (RxXferCount (hq w)))")
    (auto simp: GET_FLAG_eq intro!: rx_byte_count [THEN order.strict_trans2])

function irq_drain_loop :: "'h mmio \<Rightarrow> 'h qworld \<Rightarrow> 'h qworld" where
  "irq_drain_loop io w =
    (case READ_BIT io SR QUADSPI_SR_FLEVEL w of (v, w1) \<Rightarrow>
       if v \<noteq> 0 then
         if RxXferCount (hq w1) > 0 then irq_drain_loop io (rx_byte io w1) else w1
       else w1)"
  by pat_completeness auto
termination
  by (relation "measure (\<lambda>(io, w). unat (RxXferCount (hq w)))")
    (auto simp: READ_BIT_eq intro!: rx_byte_count [THEN order.strict_trans2])

declare irq_tx_loop.simps [simp del] irq_rx_loop.simps [simp del] irq_drain_loop.simps [simp del]

definition irq_disable_dma :: "'h mmio \<Rightarrow> 'h qworld \<Rightarrow> bool \<times> 'h qworld" where
  "irq_disable_dma io w =
    (case READ_BIT io CR QUADSPI_CR_DMAEN w of (dma, w1) \<Rightarrow>
       if dma \<noteq> 0
       then (True, (case CLEAR_BIT io CR QUADSPI_CR_DMAEN w1 of w2 \<Rightarrow> w2\<lparr>hw := mdma_disable io (hw w2)\<rparr>))
       else (False, w1))"

definition irq_fifo_threshold :: "'h mmio \<Rightarrow> 'h qworld \<Rightarrow> qspi_callback list \<times> 'h qworld" where
  "irq_fifo_threshold io w =
    ([HAL_QSPI_FifoThresholdCallback],
     if State (hq w) = HAL_QSPI_STATE_BUSY_INDIRECT_TX then irq_tx_loop io w
     else if State (hq w) = HAL_QSPI_STATE_BUSY_INDIRECT_RX then irq_rx_loop io w
     else w)"

definition irq_transfer_complete :: "'h mmio \<Rightarrow> 'h qworld \<Rightarrow> qspi_callback list \<times> 'h qworld" where
  "irq_transfer_complete io w0 =
    (let w = HAL_QSPI_DISABLE_IT io (QSPI_IT_TC OR QSPI_IT_TE OR QSPI_IT_FT) (WRITE_REG io FCR QSPI_FLAG_TC w0) in
     if State (hq w) = HAL_QSPI_STATE_BUSY_INDIRECT_TX then
       (case irq_disable_dma io w of (_, w1) \<Rightarrow>
          ([HAL_QSPI_TxCpltCallback], set_State HAL_QSPI_STATE_READY w1))
     else if State (hq w) = HAL_QSPI_STATE_BUSY_INDIRECT_RX then
       (case irq_disable_dma io w of (dma, w1) \<Rightarrow>
          ([HAL_QSPI_RxCpltCallback],
           set_State HAL_QSPI_STATE_READY (if dma then w1 else irq_drain_loop io w1)))
     else if State (hq w) = HAL_QSPI_STATE_BUSY then
       ([HAL_QSPI_CmdCpltCallback], set_State HAL_QSPI_STATE_READY w)
     else if State (hq w) = HAL_QSPI_STATE_ABORT then
       (if ErrorCode (hq w) = HAL_QSPI_ERROR_NONE then [HAL_QSPI_AbortCpltCallback] else [HAL_QSPI_ErrorCallback],
        set_State HAL_QSPI_STATE_READY (CLEAR_BIT io CCR QUADSPI_CCR_FMODE w))
     else ([], w))"

definition irq_status_match :: "'h mmio \<Rightarrow> 'h qworld \<Rightarrow> qspi_callback list \<times> 'h qworld" where
  "irq_status_match io w =
    (case READ_BIT io CR QUADSPI_CR_APMS (WRITE_REG io FCR QSPI_FLAG_SM w) of (v, w1) \<Rightarrow>
       ([HAL_QSPI_StatusMatchCallback],
        if v \<noteq> 0 then set_State HAL_QSPI_STATE_READY (HAL_QSPI_DISABLE_IT io (QSPI_IT_SM OR QSPI_IT_TE) w1)
        else w1))"

definition irq_transfer_error :: "'h mmio \<Rightarrow> 'h qworld \<Rightarrow> qspi_callback list \<times> 'h qworld" where
  "irq_transfer_error io w =
    (let w1 = HAL_QSPI_DISABLE_IT io (QSPI_IT_SM OR QSPI_IT_TC OR QSPI_IT_TE OR QSPI_IT_FT)
                (WRITE_REG io FCR QSPI_FLAG_TE w);
         w2 = set_ErrorCode (ErrorCode (hq w1) OR HAL_QSPI_ERROR_TRANSFER) w1;
         (dma, w3) = READ_BIT io CR QUADSPI_CR_DMAEN w2
     in if dma \<noteq> 0 then
          (let w4 = CLEAR_BIT io CR QUADSPI_CR_DMAEN w3;
               (st, h) = mdma_abort_it io (hw w4);
               w5 = w4\<lparr>hw := h\<rparr>
           in if st \<noteq> HAL_OK
              then ([HAL_QSPI_ErrorCallback], set_State HAL_QSPI_STATE_READY
                      (set_ErrorCode (ErrorCode (hq w5) OR HAL_QSPI_ERROR_DMA) w5))
              else ([], w5))
        else ([HAL_QSPI_ErrorCallback], set_State HAL_QSPI_STATE_READY w3))"

definition HAL_QSPI_IRQHandler :: "'h mmio \<Rightarrow> 'h qworld \<Rightarrow> qspi_callback list \<times> 'h qworld" where
  "HAL_QSPI_IRQHandler io w0 =
    (let (flag, w1) = READ_REG io SR w0;
         (itsource, w) = READ_REG io CR w1;
         pending = (\<lambda>fl it :: u32. flag AND fl = fl \<and> itsource AND it = it)
     in if pending QSPI_FLAG_FT QSPI_IT_FT then irq_fifo_threshold io w
        else if pending QSPI_FLAG_TC QSPI_IT_TC then irq_transfer_complete io w
        else if pending QSPI_FLAG_SM QSPI_IT_SM then irq_status_match io w
        else if pending QSPI_FLAG_TE QSPI_IT_TE then irq_transfer_error io w
        else if pending QSPI_FLAG_TO QSPI_IT_TO
        then ([HAL_QSPI_TimeOutCallback], WRITE_REG io FCR QSPI_FLAG_TO w)
        else ([], w))"

section \<open>What the handler does to the log of a recording hardware\<close>

lemma log_snd [simp]:
  "snd (io_wr (log_io io) r v h) = snd h @ [W r v]"
  "snd (snd (io_rd (log_io io) r h)) = snd h"
  "snd (io_wr8 (log_io io) b h) = snd h @ [W8 b]"
  "snd (snd (io_rd8 (log_io io) h)) = snd h @ [R8 (fst (io_rd8 (log_io io) h))]"
  "snd (snd (io_tick (log_io io) h)) = snd h"
  "snd (mdma_disable (log_io io) h) = snd h"
  "snd (snd (mdma_abort_it (log_io io) h)) = snd h"
  by (simp_all add: log_io_def split_def)

text \<open>The bytes written to and read from the data register, in order.\<close>

fun sent :: "bus_event list \<Rightarrow> u8 list" where
  "sent [] = []"
| "sent (W8 b # tr) = b # sent tr"
| "sent (e # tr) = sent tr"

fun received :: "bus_event list \<Rightarrow> u8 list" where
  "received [] = []"
| "received (R8 b # tr) = b # received tr"
| "received (e # tr) = received tr"

lemma sent_append [simp]: "sent (a @ b) = sent a @ sent b"
  by (induction a rule: sent.induct) simp_all

lemma received_append [simp]: "received (a @ b) = received a @ received b"
  by (induction a rule: received.induct) simp_all

text \<open>
  \<open>tx_moved w k w'\<close>: \<open>k\<close> more bytes of the transmit buffer were sent, nothing was received and
  memory is unchanged; \<open>rx_moved w bs w'\<close>: the bytes \<open>bs\<close> were received and
  stored in the receive buffer, nothing was sent.
\<close>

definition tx_moved :: "('h \<times> bus_event list) qworld \<Rightarrow> nat \<Rightarrow> ('h \<times> bus_event list) qworld \<Rightarrow> bool" where
  "tx_moved w k w' \<longleftrightarrow> k \<le> unat (TxXferCount (hq w)) \<and>
     pTxBuffPtr (hq w') = pTxBuffPtr (hq w) + of_nat k \<and>
     unat (TxXferCount (hq w')) = unat (TxXferCount (hq w)) - k \<and>
     sent (snd (hw w')) = sent (snd (hw w)) @ bytes_at (mem w) (pTxBuffPtr (hq w)) k \<and>
     received (snd (hw w')) = received (snd (hw w)) \<and> mem w' = mem w \<and> Lock (hq w') = Lock (hq w)"

definition rx_moved :: "('h \<times> bus_event list) qworld \<Rightarrow> u8 list \<Rightarrow> ('h \<times> bus_event list) qworld \<Rightarrow> bool" where
  "rx_moved w bs w' \<longleftrightarrow> length bs \<le> unat (RxXferCount (hq w)) \<and>
     pRxBuffPtr (hq w') = pRxBuffPtr (hq w) + of_nat (length bs) \<and>
     unat (RxXferCount (hq w')) = unat (RxXferCount (hq w)) - length bs \<and>
     received (snd (hw w')) = received (snd (hw w)) @ bs \<and>
     sent (snd (hw w')) = sent (snd (hw w)) \<and> mem w' = store_bytes (mem w) (pRxBuffPtr (hq w)) bs \<and>
     Lock (hq w') = Lock (hq w)"

lemma tx_moved_0: "tx_moved w 0 w' \<longleftrightarrow> pTxBuffPtr (hq w') = pTxBuffPtr (hq w) \<and>
    TxXferCount (hq w') = TxXferCount (hq w) \<and> sent (snd (hw w')) = sent (snd (hw w)) \<and>
    received (snd (hw w')) = received (snd (hw w)) \<and> mem w' = mem w \<and> Lock (hq w') = Lock (hq w)"
  by (auto simp: tx_moved_def word_unat_eq_iff)

lemma rx_moved_0: "rx_moved w [] w' \<longleftrightarrow> pRxBuffPtr (hq w') = pRxBuffPtr (hq w) \<and>
    RxXferCount (hq w') = RxXferCount (hq w) \<and> sent (snd (hw w')) = sent (snd (hw w)) \<and>
    received (snd (hw w')) = received (snd (hw w)) \<and> mem w' = mem w \<and> Lock (hq w') = Lock (hq w)"
  by (auto simp: rx_moved_def word_unat_eq_iff)

lemma tx_moved_trans:
  assumes "tx_moved w a w1" "tx_moved w1 b w2"
  shows "tx_moved w (a + b) w2"
  using assms by (auto simp: tx_moved_def bytes_at_add)

lemma rx_moved_trans:
  assumes "rx_moved w a w1" "rx_moved w1 b w2"
  shows "rx_moved w (a @ b) w2"
  using assms by (auto simp: rx_moved_def store_bytes_append)

lemma tx_byte_moved:
  assumes "TxXferCount (hq w) > 0"
  shows "tx_moved w 1 (tx_byte (log_io io) w)"
  using assms unat_Suc_pred [OF assms]
  by (simp add: tx_moved_def tx_byte_def bytes_at_Suc)

lemma rx_byte_moved:
  assumes "RxXferCount (hq w) > 0"
  shows "\<exists>b. rx_moved w [b] (rx_byte (log_io io) w)"
  using assms unat_Suc_pred [OF assms]
  by (auto simp: rx_moved_def rx_byte_def split_def intro!: exI [of _ "fst (io_rd8 (log_io io) (hw w))"])

lemma irq_tx_loop_moved:
  "\<exists>k. tx_moved w k (irq_tx_loop (log_io io) w) \<and> State (hq (irq_tx_loop (log_io io) w)) = State (hq w)"
proof (induction "log_io io" w rule: irq_tx_loop.induct)
  case (1 w)
  let ?w1 = "w\<lparr>hw := snd (io_rd (log_io io) SR (hw w))\<rparr>"
  have start: "tx_moved w 0 ?w1" by (simp add: tx_moved_0)
  show ?case
  proof (cases "fst (io_rd (log_io io) SR (hw w)) AND QSPI_FLAG_FT \<noteq> 0 \<and> TxXferCount (hq w) > 0")
    case True
    then have "TxXferCount (hq ?w1) > 0" by simp
    note step = tx_moved_trans [OF start tx_byte_moved [OF this, of io]]
    from 1 True obtain k where "tx_moved (tx_byte (log_io io) ?w1) k (irq_tx_loop (log_io io) (tx_byte (log_io io) ?w1))"
      "State (hq (irq_tx_loop (log_io io) (tx_byte (log_io io) ?w1))) = State (hq (tx_byte (log_io io) ?w1))"
      by (auto simp: GET_FLAG_eq)
    moreover have "irq_tx_loop (log_io io) w = irq_tx_loop (log_io io) (tx_byte (log_io io) ?w1)"
      using True by (subst irq_tx_loop.simps) (simp add: GET_FLAG_eq)
    ultimately show ?thesis using tx_moved_trans [OF step] by (auto simp: tx_byte_def)
  next
    case False
    then show ?thesis
      by (subst (1 2) irq_tx_loop.simps) (auto simp: reg_simps tx_moved_0 intro!: exI [of _ 0])
  qed
qed

lemma irq_rx_loop_moved:
  "\<exists>bs. rx_moved w bs (irq_rx_loop (log_io io) w) \<and> State (hq (irq_rx_loop (log_io io) w)) = State (hq w)"
proof (induction "log_io io" w rule: irq_rx_loop.induct)
  case (1 w)
  let ?w1 = "w\<lparr>hw := snd (io_rd (log_io io) SR (hw w))\<rparr>"
  have start: "rx_moved w [] ?w1" by (simp add: rx_moved_0)
  show ?case
  proof (cases "fst (io_rd (log_io io) SR (hw w)) AND QSPI_FLAG_FT \<noteq> 0 \<and> RxXferCount (hq w) > 0")
    case True
    then have "RxXferCount (hq ?w1) > 0" by simp
    from rx_byte_moved [OF this] obtain b where "rx_moved ?w1 [b] (rx_byte (log_io io) ?w1)" ..
    note step = rx_moved_trans [OF start this]
    from 1 True obtain bs where "rx_moved (rx_byte (log_io io) ?w1) bs (irq_rx_loop (log_io io) (rx_byte (log_io io) ?w1))"
      "State (hq (irq_rx_loop (log_io io) (rx_byte (log_io io) ?w1))) = State (hq (rx_byte (log_io io) ?w1))"
      by (auto simp: GET_FLAG_eq)
    moreover have "irq_rx_loop (log_io io) w = irq_rx_loop (log_io io) (rx_byte (log_io io) ?w1)"
      using True by (subst irq_rx_loop.simps) (simp add: GET_FLAG_eq)
    ultimately show ?thesis using rx_moved_trans [OF step] by (auto simp: rx_byte_def split_def)
  next
    case False
    then show ?thesis
      by (subst (1 2) irq_rx_loop.simps) (auto simp: reg_simps rx_moved_0 intro!: exI [of _ "[]"])
  qed
qed

lemma irq_drain_loop_moved:
  "\<exists>bs. rx_moved w bs (irq_drain_loop (log_io io) w)"
proof (induction "log_io io" w rule: irq_drain_loop.induct)
  case (1 w)
  let ?w1 = "w\<lparr>hw := snd (io_rd (log_io io) SR (hw w))\<rparr>"
  have start: "rx_moved w [] ?w1" by (simp add: rx_moved_0)
  show ?case
  proof (cases "fst (io_rd (log_io io) SR (hw w)) AND QUADSPI_SR_FLEVEL \<noteq> 0 \<and> RxXferCount (hq w) > 0")
    case True
    then have "RxXferCount (hq ?w1) > 0" by simp
    from rx_byte_moved [OF this] obtain b where "rx_moved ?w1 [b] (rx_byte (log_io io) ?w1)" ..
    note step = rx_moved_trans [OF start this]
    from 1 True obtain bs where "rx_moved (rx_byte (log_io io) ?w1) bs (irq_drain_loop (log_io io) (rx_byte (log_io io) ?w1))"
      by (auto simp: READ_BIT_eq)
    moreover have "irq_drain_loop (log_io io) w = irq_drain_loop (log_io io) (rx_byte (log_io io) ?w1)"
      using True by (subst irq_drain_loop.simps) (simp add: READ_BIT_eq)
    ultimately show ?thesis using rx_moved_trans [OF step] by auto
  next
    case False
    then show ?thesis
      by (subst irq_drain_loop.simps) (auto simp: READ_BIT_eq rx_moved_0 intro!: exI [of _ "[]"])
  qed
qed

section \<open>The start functions obey the contract of the blocking ones\<close>

lemma guarded_IT:
  fixes op :: "'h qworld \<Rightarrow> 'h hal_result"
  assumes "\<And>w. unlocked w \<Longrightarrow> \<not> ready w \<Longrightarrow> op w = Some (HAL_BUSY, w\<lparr>hw := g (hw w)\<rparr>)"
    and "\<And>h. bus io h [] (g h)"
    and "\<And>w s w'. op w = Some (s, w') \<Longrightarrow> unlocked w \<Longrightarrow> unlocked w'"
  shows "guarded io op HAL_OK"
proof
  fix w :: "'h qworld" assume "unlocked w" "\<not> ready w"
  from assms(1) [OF this] assms(2) [of "hw w"]
  show "\<exists>s w'. op w = Some (s, w') \<and> s \<noteq> HAL_OK \<and> refused io w w'" by (auto simp: refused_def)
qed (rule assms(3))

interpretation command_it: guarded io "HAL_QSPI_Command_IT io cmd" HAL_OK for io cmd
  by (rule guarded_IT [OF _ bus_first_tick])
    (auto simp: HAL_QSPI_Command_IT_def handle_simps handle_restore bind_Some_iff Let_def
      reg_simps split: if_splits)

interpretation polling_it: guarded io "HAL_QSPI_AutoPolling_IT io cmd cfg" HAL_OK for io cmd cfg
  by (rule guarded_IT [OF _ bus_first_tick])
    (auto simp: HAL_QSPI_AutoPolling_IT_def handle_simps handle_restore bind_Some_iff Let_def
      reg_simps split: if_splits)

interpretation transmit_it: guarded io "HAL_QSPI_Transmit_IT io pData" HAL_OK for io pData
  by (rule guarded_IT [where g = id])
    (auto simp: HAL_QSPI_Transmit_IT_def handle_simps handle_restore Let_def
      reg_simps bus_refl split: if_splits)

interpretation receive_it: guarded io "HAL_QSPI_Receive_IT io pData" HAL_OK for io pData
  by (rule guarded_IT [where g = "\<lambda>h. snd (io_rd io AR h)"])
    (auto simp: HAL_QSPI_Receive_IT_def handle_simps handle_restore Let_def
      reg_simps bus_rd [OF bus_refl] split: if_splits)

end
