(* ===== verification/Hal_Qspi_IT_Props.thy ===== *)
theory Hal_Qspi_IT_Props
  imports Hal_Qspi_IT Hal_Qspi_Props
begin

text \<open>
  The properties of the interrupt-driven interface. An interrupt is taken after the hardware has
  evolved on its own; the evolution is any function of the hardware state, so the statements hold
  for every timing of the controller.
\<close>

section \<open>One interrupt\<close>

definition irq_pending :: "'h mmio \<Rightarrow> u32 \<Rightarrow> u32 \<Rightarrow> 'h \<Rightarrow> bool" where
  "irq_pending io fl it h \<longleftrightarrow> fst (io_rd io SR h) AND fl = fl \<and>
     fst (io_rd io CR (snd (io_rd io SR h))) AND it = it"

abbreviation irq_polled :: "'h mmio \<Rightarrow> 'h qworld \<Rightarrow> 'h qworld" where
  "irq_polled io w \<equiv> w\<lparr>hw := snd (io_rd io CR (snd (io_rd io SR (hw w))))\<rparr>"

lemma IRQHandler_eq:
  "HAL_QSPI_IRQHandler io w =
    (if irq_pending io QSPI_FLAG_FT QSPI_IT_FT (hw w) then irq_fifo_threshold io (irq_polled io w)
     else if irq_pending io QSPI_FLAG_TC QSPI_IT_TC (hw w) then irq_transfer_complete io (irq_polled io w)
     else if irq_pending io QSPI_FLAG_SM QSPI_IT_SM (hw w) then irq_status_match io (irq_polled io w)
     else if irq_pending io QSPI_FLAG_TE QSPI_IT_TE (hw w) then irq_transfer_error io (irq_polled io w)
     else if irq_pending io QSPI_FLAG_TO QSPI_IT_TO (hw w)
     then ([HAL_QSPI_TimeOutCallback], WRITE_REG io FCR QSPI_FLAG_TO (irq_polled io w))
     else ([], irq_polled io w))"
  unfolding HAL_QSPI_IRQHandler_def irq_pending_def READ_REG_eq Let_def by simp

text \<open>What one interrupt does in the course of a transmission, and of a reception.\<close>

definition tx_irq_ok where
  "tx_irq_ok w cbs w' \<longleftrightarrow> (\<exists>k. tx_moved w k w') \<and>
     State (hq w') \<in> {HAL_QSPI_STATE_BUSY_INDIRECT_TX, HAL_QSPI_STATE_READY} \<and>
     set cbs \<inter> {HAL_QSPI_RxCpltCallback, HAL_QSPI_CmdCpltCallback, HAL_QSPI_AbortCpltCallback} = {} \<and>
     (State (hq w) = HAL_QSPI_STATE_READY \<longrightarrow> State (hq w') = HAL_QSPI_STATE_READY) \<and>
     count_list cbs HAL_QSPI_TxCpltCallback \<le>
       (if State (hq w) \<noteq> HAL_QSPI_STATE_READY \<and> State (hq w') = HAL_QSPI_STATE_READY then 1 else 0)"

definition rx_irq_ok where
  "rx_irq_ok w cbs w' \<longleftrightarrow> (\<exists>bs. rx_moved w bs w') \<and>
     State (hq w') \<in> {HAL_QSPI_STATE_BUSY_INDIRECT_RX, HAL_QSPI_STATE_READY} \<and>
     set cbs \<inter> {HAL_QSPI_TxCpltCallback, HAL_QSPI_CmdCpltCallback, HAL_QSPI_AbortCpltCallback} = {} \<and>
     (State (hq w) = HAL_QSPI_STATE_READY \<longrightarrow> State (hq w') = HAL_QSPI_STATE_READY) \<and>
     count_list cbs HAL_QSPI_RxCpltCallback \<le>
       (if State (hq w) \<noteq> HAL_QSPI_STATE_READY \<and> State (hq w') = HAL_QSPI_STATE_READY then 1 else 0)"

lemma tx_irq_okI:
  assumes "tx_moved w k w'" "State (hq w') = State (hq w) \<or> State (hq w') = HAL_QSPI_STATE_READY"
    and "State (hq w) \<in> {HAL_QSPI_STATE_BUSY_INDIRECT_TX, HAL_QSPI_STATE_READY}"
    and "set cbs \<subseteq> {HAL_QSPI_FifoThresholdCallback, HAL_QSPI_ErrorCallback, HAL_QSPI_StatusMatchCallback, HAL_QSPI_TimeOutCallback}"
  shows "tx_irq_ok w cbs w'"
proof -
  have "count_list cbs HAL_QSPI_TxCpltCallback = 0" using assms(4) by (auto simp: count_list_0_iff)
  with assms show ?thesis by (auto simp: tx_irq_ok_def)
qed

lemma rx_irq_okI:
  assumes "rx_moved w bs w'" "State (hq w') = State (hq w) \<or> State (hq w') = HAL_QSPI_STATE_READY"
    and "State (hq w) \<in> {HAL_QSPI_STATE_BUSY_INDIRECT_RX, HAL_QSPI_STATE_READY}"
    and "set cbs \<subseteq> {HAL_QSPI_FifoThresholdCallback, HAL_QSPI_ErrorCallback, HAL_QSPI_StatusMatchCallback, HAL_QSPI_TimeOutCallback}"
  shows "rx_irq_ok w cbs w'"
proof -
  have "count_list cbs HAL_QSPI_RxCpltCallback = 0" using assms(4) by (auto simp: count_list_0_iff)
  with assms show ?thesis by (auto simp: rx_irq_ok_def)
qed

text \<open>The branches of the handler that move no data.\<close>

abbreviation quiet_callbacks :: "qspi_callback set" where
  "quiet_callbacks \<equiv> {HAL_QSPI_FifoThresholdCallback, HAL_QSPI_ErrorCallback,
     HAL_QSPI_StatusMatchCallback, HAL_QSPI_TimeOutCallback}"

definition no_data :: "('h \<times> bus_event list) qworld \<Rightarrow> qspi_callback list \<times> ('h \<times> bus_event list) qworld \<Rightarrow> bool" where
  "no_data w r \<longleftrightarrow> tx_moved w 0 (snd r) \<and> rx_moved w [] (snd r) \<and> set (fst r) \<subseteq> quiet_callbacks \<and>
     (State (hq (snd r)) = State (hq w) \<or> State (hq (snd r)) = HAL_QSPI_STATE_READY)"

lemmas no_data_simps = no_data_def tx_moved_0 rx_moved_0 reg_simps handle_simps Let_def split_def

lemma status_match_no_data: "no_data w (irq_status_match (log_io io) (irq_polled (log_io io) w))"
  by (simp add: irq_status_match_def no_data_simps)

lemma transfer_error_no_data: "no_data w (irq_transfer_error (log_io io) (irq_polled (log_io io) w))"
  by (simp add: irq_transfer_error_def no_data_simps)

lemma disable_dma_no_data: "tx_moved w 0 (snd (irq_disable_dma (log_io io) w)) \<and>
    rx_moved w [] (snd (irq_disable_dma (log_io io) w)) \<and>
    hq (snd (irq_disable_dma (log_io io) w)) = hq w"
  by (simp add: irq_disable_dma_def no_data_simps)

lemma fifo_threshold_tx:
  assumes "State (hq w) \<in> {HAL_QSPI_STATE_BUSY_INDIRECT_TX, HAL_QSPI_STATE_READY}"
  shows "\<exists>k. tx_moved w k (snd (irq_fifo_threshold (log_io io) w)) \<and>
    State (hq (snd (irq_fifo_threshold (log_io io) w))) = State (hq w)"
  using assms irq_tx_loop_moved [of w io]
  by (auto simp: irq_fifo_threshold_def tx_moved_0 intro: exI [of _ 0])

lemma fifo_threshold_rx:
  assumes "State (hq w) \<in> {HAL_QSPI_STATE_BUSY_INDIRECT_RX, HAL_QSPI_STATE_READY}"
  shows "\<exists>bs. rx_moved w bs (snd (irq_fifo_threshold (log_io io) w)) \<and>
    State (hq (snd (irq_fifo_threshold (log_io io) w))) = State (hq w)"
  using assms irq_rx_loop_moved [of w io]
  by (auto simp: irq_fifo_threshold_def rx_moved_0 intro: exI [of _ "[]"])

text \<open>The world in which the transfer-complete branch looks at the state.\<close>

definition irq_tc_start :: "'h mmio \<Rightarrow> 'h qworld \<Rightarrow> 'h qworld" where
  "irq_tc_start io w = HAL_QSPI_DISABLE_IT io (QSPI_IT_TC OR QSPI_IT_TE OR QSPI_IT_FT) (WRITE_REG io FCR QSPI_FLAG_TC w)"

lemma irq_tc_start_keeps: "hq (irq_tc_start io w) = hq w" "mem (irq_tc_start io w) = mem w"
  by (simp_all add: irq_tc_start_def reg_simps)

lemma irq_tc_start_quiet: "tx_moved w 0 (irq_tc_start (log_io io) (irq_polled (log_io io) w))"
    "rx_moved w [] (irq_tc_start (log_io io) (irq_polled (log_io io) w))"
  by (simp_all add: irq_tc_start_def no_data_simps)

lemma transfer_complete_eq:
  fixes io :: "'h mmio"
  defines "d \<equiv> \<lambda>w. irq_disable_dma io (irq_tc_start io w)"
  shows "irq_transfer_complete io w =
    (case State (hq w) of
       HAL_QSPI_STATE_BUSY_INDIRECT_TX \<Rightarrow> ([HAL_QSPI_TxCpltCallback], set_State HAL_QSPI_STATE_READY (snd (d w)))
     | HAL_QSPI_STATE_BUSY_INDIRECT_RX \<Rightarrow> ([HAL_QSPI_RxCpltCallback], set_State HAL_QSPI_STATE_READY
         (if fst (d w) then snd (d w) else irq_drain_loop io (snd (d w))))
     | HAL_QSPI_STATE_BUSY \<Rightarrow> ([HAL_QSPI_CmdCpltCallback], set_State HAL_QSPI_STATE_READY (irq_tc_start io w))
     | HAL_QSPI_STATE_ABORT \<Rightarrow>
         (if ErrorCode (hq w) = HAL_QSPI_ERROR_NONE then [HAL_QSPI_AbortCpltCallback] else [HAL_QSPI_ErrorCallback],
          set_State HAL_QSPI_STATE_READY (CLEAR_BIT io CCR QUADSPI_CCR_FMODE (irq_tc_start io w)))
     | _ \<Rightarrow> ([], irq_tc_start io w))"
  unfolding irq_transfer_complete_def irq_tc_start_def [symmetric] Let_def irq_tc_start_keeps d_def
  by (simp add: split_def split: HAL_QSPI_StateTypeDef.split)

lemma transfer_complete_tx:
  assumes "State (hq w) \<in> {HAL_QSPI_STATE_BUSY_INDIRECT_TX, HAL_QSPI_STATE_READY}"
  shows "tx_irq_ok w (fst (irq_transfer_complete (log_io io) (irq_polled (log_io io) w)))
     (snd (irq_transfer_complete (log_io io) (irq_polled (log_io io) w)))"
proof -
  let ?w = "irq_tc_start (log_io io) (irq_polled (log_io io) w)"
  let ?d = "snd (irq_disable_dma (log_io io) ?w)"
  have q: "hq ?w = hq w" by (simp add: irq_tc_start_keeps)
  have m: "tx_moved w 0 ?d" "tx_moved w 0 (set_State HAL_QSPI_STATE_READY ?d)"
    using tx_moved_trans [OF irq_tc_start_quiet(1) disable_dma_no_data [THEN conjunct1], of w io io]
    by (simp_all add: tx_moved_0 set_State_def)
  show ?thesis
    using assms m irq_tc_start_quiet(1) [of w io]
    by (auto simp: tx_irq_ok_def transfer_complete_eq q set_State_def intro: exI [of _ 0])
qed

lemma transfer_complete_rx:
  assumes "State (hq w) \<in> {HAL_QSPI_STATE_BUSY_INDIRECT_RX, HAL_QSPI_STATE_READY}"
  shows "rx_irq_ok w (fst (irq_transfer_complete (log_io io) (irq_polled (log_io io) w)))
     (snd (irq_transfer_complete (log_io io) (irq_polled (log_io io) w)))"
proof -
  let ?w = "irq_tc_start (log_io io) (irq_polled (log_io io) w)"
  let ?d = "irq_disable_dma (log_io io) ?w"
  let ?e = "if fst ?d then snd ?d else irq_drain_loop (log_io io) (snd ?d)"
  have q: "hq ?w = hq w" by (simp add: irq_tc_start_keeps)
  have d: "rx_moved w [] (snd ?d)"
    using rx_moved_trans [OF irq_tc_start_quiet(2) disable_dma_no_data [THEN conjunct2, THEN conjunct1], of w io io]
    by simp
  obtain bs where "rx_moved (snd ?d) bs (irq_drain_loop (log_io io) (snd ?d))"
    using irq_drain_loop_moved by blast
  with d have "\<exists>bs. rx_moved w bs ?e" using rx_moved_trans [OF d] by (auto intro: exI [of _ "[]"])
  then have "\<exists>bs. rx_moved w bs (set_State HAL_QSPI_STATE_READY ?e)"
    by (simp add: rx_moved_def set_State_def)
  with assms irq_tc_start_quiet(2) [of w io] show ?thesis
    by (auto simp: rx_irq_ok_def transfer_complete_eq q set_State_def intro: exI [of _ "[]"]
      split del: if_split)
qed

lemma no_data_ok:
  assumes "no_data w r"
  shows "State (hq w) \<in> {HAL_QSPI_STATE_BUSY_INDIRECT_TX, HAL_QSPI_STATE_READY} \<Longrightarrow> tx_irq_ok w (fst r) (snd r)"
    and "State (hq w) \<in> {HAL_QSPI_STATE_BUSY_INDIRECT_RX, HAL_QSPI_STATE_READY} \<Longrightarrow> rx_irq_ok w (fst r) (snd r)"
  using assms by (auto simp: no_data_def intro!: tx_irq_okI [of _ 0] rx_irq_okI [of _ "[]"])

lemma timeout_no_data: "no_data w ([HAL_QSPI_TimeOutCallback], WRITE_REG (log_io io) FCR v (irq_polled (log_io io) w))"
  "no_data w ([], irq_polled (log_io io) w)"
  by (simp_all add: no_data_simps)

lemmas no_data_branches = status_match_no_data transfer_error_no_data timeout_no_data

lemma polled_moved: "tx_moved w 0 (irq_polled (log_io io) w)" "rx_moved w [] (irq_polled (log_io io) w)"
  by (simp_all add: tx_moved_0 rx_moved_0)

lemma irq_tx_step:
  assumes "State (hq w) \<in> {HAL_QSPI_STATE_BUSY_INDIRECT_TX, HAL_QSPI_STATE_READY}"
    and "HAL_QSPI_IRQHandler (log_io io) w = (cbs, w')"
  shows "tx_irq_ok w cbs w'"
proof -
  let ?f = "irq_fifo_threshold (log_io io) (irq_polled (log_io io) w)"
  obtain k where "tx_moved (irq_polled (log_io io) w) k (snd ?f)" "State (hq (snd ?f)) = State (hq w)"
    using fifo_threshold_tx [of "irq_polled (log_io io) w" io] assms(1) by auto
  then have "tx_irq_ok w (fst ?f) (snd ?f)"
    using tx_moved_trans [OF polled_moved(1)] assms(1)
    by (intro tx_irq_okI [of _ k]) (auto simp: irq_fifo_threshold_def)
  then have "tx_irq_ok w (fst (HAL_QSPI_IRQHandler (log_io io) w)) (snd (HAL_QSPI_IRQHandler (log_io io) w))"
    using transfer_complete_tx [OF assms(1), of io] no_data_ok(1) [OF _ assms(1)] no_data_branches [of w io]
    unfolding IRQHandler_eq by (simp split: if_split)
  with assms(2) show ?thesis by simp
qed

lemma irq_rx_step:
  assumes "State (hq w) \<in> {HAL_QSPI_STATE_BUSY_INDIRECT_RX, HAL_QSPI_STATE_READY}"
    and "HAL_QSPI_IRQHandler (log_io io) w = (cbs, w')"
  shows "rx_irq_ok w cbs w'"
proof -
  let ?f = "irq_fifo_threshold (log_io io) (irq_polled (log_io io) w)"
  obtain bs where "rx_moved (irq_polled (log_io io) w) bs (snd ?f)" "State (hq (snd ?f)) = State (hq w)"
    using fifo_threshold_rx [of "irq_polled (log_io io) w" io] assms(1) by auto
  then have "rx_irq_ok w (fst ?f) (snd ?f)"
    using rx_moved_trans [OF polled_moved(2)] assms(1)
    by (intro rx_irq_okI [of _ bs]) (auto simp: irq_fifo_threshold_def)
  then have "rx_irq_ok w (fst (HAL_QSPI_IRQHandler (log_io io) w)) (snd (HAL_QSPI_IRQHandler (log_io io) w))"
    using transfer_complete_rx [OF assms(1), of io] no_data_ok(2) [OF _ assms(1)] no_data_branches [of w io]
    unfolding IRQHandler_eq by (simp split: if_split)
  with assms(2) show ?thesis by simp
qed

section \<open>Sequences of interrupts\<close>

text \<open>Each interrupt is preceded by an evolution of the hardware; the log records the driver's traffic only.\<close>

fun irq_seq :: "('h \<times> bus_event list) mmio \<Rightarrow> ('h \<Rightarrow> 'h) list \<Rightarrow> ('h \<times> bus_event list) qworld \<Rightarrow>
    qspi_callback list \<times> ('h \<times> bus_event list) qworld" where
  "irq_seq io [] w = ([], w)"
| "irq_seq io (e # es) w =
    (let (cbs, w1) = HAL_QSPI_IRQHandler io (w\<lparr>hw := apfst e (hw w)\<rparr>);
         (cbs', w2) = irq_seq io es w1
     in (cbs @ cbs', w2))"

lemma evolved_moved: "tx_moved w 0 (w\<lparr>hw := apfst e (hw w)\<rparr>)" "rx_moved w [] (w\<lparr>hw := apfst e (hw w)\<rparr>)"
  by (simp_all add: tx_moved_0 rx_moved_0)

lemma tx_irq_ok_trans:
  assumes "tx_irq_ok w a w1" "tx_irq_ok w1 b w2"
  shows "tx_irq_ok w (a @ b) w2"
  using assms tx_moved_trans [of w _ w1 _ w2] unfolding tx_irq_ok_def
  by (auto split: if_splits)

lemma rx_irq_ok_trans:
  assumes "rx_irq_ok w a w1" "rx_irq_ok w1 b w2"
  shows "rx_irq_ok w (a @ b) w2"
  using assms rx_moved_trans [of w _ w1 _ w2] unfolding rx_irq_ok_def
  by (auto split: if_splits)

lemma irq_seq_tx:
  assumes "State (hq w) \<in> {HAL_QSPI_STATE_BUSY_INDIRECT_TX, HAL_QSPI_STATE_READY}"
    and "irq_seq (log_io io) es w = (cbs, w')"
  shows "tx_irq_ok w cbs w'"
  using assms
proof (induction es arbitrary: w cbs)
  case Nil
  then show ?case by (intro tx_irq_okI [of _ 0]) (auto simp: tx_moved_0)
next
  case (Cons e es)
  let ?e = "w\<lparr>hw := apfst e (hw w)\<rparr>"
  obtain a w1 where h: "HAL_QSPI_IRQHandler (log_io io) ?e = (a, w1)" by fastforce
  obtain b where r: "irq_seq (log_io io) es w1 = (b, w')" and c: "cbs = a @ b"
    using Cons.prems(2) by (auto simp: h split: prod.splits)
  have "tx_irq_ok w [] ?e" using Cons.prems(1) by (intro tx_irq_okI [OF evolved_moved(1)]) auto
  moreover have "tx_irq_ok ?e a w1" using Cons.prems(1) h by (intro irq_tx_step) auto
  ultimately have ok: "tx_irq_ok w a w1" using tx_irq_ok_trans by fastforce
  then have "tx_irq_ok w1 b w'" using r by (intro Cons.IH) (auto simp: tx_irq_ok_def)
  with ok c show ?case using tx_irq_ok_trans by blast
qed

lemma irq_seq_rx:
  assumes "State (hq w) \<in> {HAL_QSPI_STATE_BUSY_INDIRECT_RX, HAL_QSPI_STATE_READY}"
    and "irq_seq (log_io io) es w = (cbs, w')"
  shows "rx_irq_ok w cbs w'"
  using assms
proof (induction es arbitrary: w cbs)
  case Nil
  then show ?case by (intro rx_irq_okI [of _ "[]"]) (auto simp: rx_moved_0)
next
  case (Cons e es)
  let ?e = "w\<lparr>hw := apfst e (hw w)\<rparr>"
  obtain a w1 where h: "HAL_QSPI_IRQHandler (log_io io) ?e = (a, w1)" by fastforce
  obtain b where r: "irq_seq (log_io io) es w1 = (b, w')" and c: "cbs = a @ b"
    using Cons.prems(2) by (auto simp: h split: prod.splits)
  have "rx_irq_ok w [] ?e" using Cons.prems(1) by (intro rx_irq_okI [OF evolved_moved(2)]) auto
  moreover have "rx_irq_ok ?e a w1" using Cons.prems(1) h by (intro irq_rx_step) auto
  ultimately have ok: "rx_irq_ok w a w1" using rx_irq_ok_trans by fastforce
  then have "rx_irq_ok w1 b w'" using r by (intro Cons.IH) (auto simp: rx_irq_ok_def)
  with ok c show ?case using rx_irq_ok_trans by blast
qed

section \<open>Aborting\<close>









section \<open>Starting a transfer\<close>

lemma Transmit_IT_start:
  assumes "unlocked w" "ready w" "pData \<noteq> 0" "HAL_QSPI_Transmit_IT (log_io io) pData w = Some (s, w1)"
  shows "s = HAL_OK \<and> unlocked w1 \<and> State (hq w1) = HAL_QSPI_STATE_BUSY_INDIRECT_TX \<and>
    pTxBuffPtr (hq w1) = pData \<and> TxXferCount (hq w1) = fst (io_rd io DLR (fst (hw w))) + 1 \<and>
    mem w1 = mem w \<and> sent (snd (hw w1)) = sent (snd (hw w)) \<and> received (snd (hw w1)) = received (snd (hw w))"
  using assms by (simp add: HAL_QSPI_Transmit_IT_def reg_simps handle_simps Let_def) auto

lemma Receive_IT_start:
  assumes "unlocked w" "ready w" "pData \<noteq> 0" "HAL_QSPI_Receive_IT (log_io io) pData w = Some (s, w1)"
  shows "s = HAL_OK \<and> unlocked w1 \<and> State (hq w1) = HAL_QSPI_STATE_BUSY_INDIRECT_RX \<and>
    pRxBuffPtr (hq w1) = pData \<and>
    RxXferCount (hq w1) = fst (io_rd io DLR (snd (io_rd io AR (fst (hw w))))) + 1 \<and>
    mem w1 = mem w \<and> sent (snd (hw w1)) = sent (snd (hw w)) \<and> received (snd (hw w1)) = received (snd (hw w))"
  using assms by (simp add: HAL_QSPI_Receive_IT_def reg_simps handle_simps Let_def) auto

section \<open>Completion\<close>

lemma drain_log: "\<exists>tr. snd (hw (irq_drain_loop (log_io io) w)) = snd (hw w) @ tr"
proof (induction "log_io io" w rule: irq_drain_loop.induct)
  case (1 w)
  then show ?case
    by (subst irq_drain_loop.simps) (fastforce simp: READ_BIT_eq rx_byte_def split_def)
qed

lemma irq_tc_start_log: "\<exists>v. snd (hw (irq_tc_start (log_io io) w)) = snd (hw w) @
    [W FCR QSPI_FLAG_TC, W CR (v AND NOT (QSPI_IT_TC OR QSPI_IT_TE OR QSPI_IT_FT))]"
  by (auto simp: irq_tc_start_def reg_simps)

lemma disable_dma_log: "\<exists>tr. snd (hw (snd (irq_disable_dma (log_io io) w))) = snd (hw w) @ tr"
  by (simp add: irq_disable_dma_def reg_simps)

lemma transfer_complete_log:
  "\<exists>tr. snd (hw (snd (irq_transfer_complete (log_io io) w))) = snd (hw (irq_tc_start (log_io io) w)) @ tr"
proof -
  let ?d = "irq_disable_dma (log_io io) (irq_tc_start (log_io io) w)"
  obtain a where "snd (hw (snd ?d)) = snd (hw (irq_tc_start (log_io io) w)) @ a"
    using disable_dma_log by blast
  moreover obtain b where "snd (hw (irq_drain_loop (log_io io) (snd ?d))) = snd (hw (snd ?d)) @ b"
    using drain_log by blast
  ultimately show ?thesis
    by (auto simp: transfer_complete_eq set_State_def CLEAR_BIT_eq split: HAL_QSPI_StateTypeDef.split)
qed

lemma transfer_complete_state:
  "State (hq (snd (irq_transfer_complete (log_io io) w))) =
     (if State (hq w) \<in> {HAL_QSPI_STATE_BUSY_INDIRECT_TX, HAL_QSPI_STATE_BUSY_INDIRECT_RX,
           HAL_QSPI_STATE_BUSY, HAL_QSPI_STATE_ABORT} then HAL_QSPI_STATE_READY else State (hq w))"
  by (auto simp: transfer_complete_eq set_State_def irq_tc_start_keeps split: HAL_QSPI_StateTypeDef.split)

text \<open>The callback that reports the end of an operation.\<close>

fun completion_callback :: "HAL_QSPI_StateTypeDef \<Rightarrow> u32 \<Rightarrow> qspi_callback list" where
  "completion_callback HAL_QSPI_STATE_BUSY_INDIRECT_TX e = [HAL_QSPI_TxCpltCallback]"
| "completion_callback HAL_QSPI_STATE_BUSY_INDIRECT_RX e = [HAL_QSPI_RxCpltCallback]"
| "completion_callback HAL_QSPI_STATE_BUSY e = [HAL_QSPI_CmdCpltCallback]"
| "completion_callback HAL_QSPI_STATE_ABORT e =
     (if e = 0 then [HAL_QSPI_AbortCpltCallback] else [HAL_QSPI_ErrorCallback])"
| "completion_callback _ e = []"

lemma transfer_complete_callback:
  "fst (irq_transfer_complete io w) = completion_callback (State (hq w)) (ErrorCode (hq w))"
  by (cases "State (hq w)") (simp_all add: transfer_complete_eq)

section \<open>Properties\<close>

text \<open>
  C29. An interrupt-driven transmission on a ready handle returns \<open>HAL_OK\<close> at once. Under
  any number of interrupts, at any times, the bytes that reach the data register are a prefix of
  the buffer in order, never more than the data-length register announced, and the count of bytes
  left in the handle is exact. Memory does not change and nothing is read from the data
  register. The completion callback is called at most once, and only when the handle
  has become ready again; no other operation's completion is reported.
\<close>

theorem interrupt_transmit:
  assumes "unlocked w" "ready w" "pData \<noteq> 0"
    and "HAL_QSPI_Transmit_IT (log_io io) pData w = Some (s, w1)"
    and "irq_seq (log_io io) es w1 = (cbs, w2)"
    and "n = unat (fst (io_rd io DLR (fst (hw w))) + 1)"
  shows "s = HAL_OK \<and> unlocked w2 \<and> mem w2 = mem w \<and>
    State (hq w2) \<in> {HAL_QSPI_STATE_BUSY_INDIRECT_TX, HAL_QSPI_STATE_READY} \<and>
    (\<exists>k\<le>n. sent (snd (hw w2)) = sent (snd (hw w)) @ bytes_at (mem w) pData k \<and>
       unat (TxXferCount (hq w2)) = n - k) \<and>
    received (snd (hw w2)) = received (snd (hw w)) \<and>
    count_list cbs HAL_QSPI_TxCpltCallback \<le> (if ready w2 then 1 else 0) \<and>
    set cbs \<inter> {HAL_QSPI_RxCpltCallback, HAL_QSPI_CmdCpltCallback, HAL_QSPI_AbortCpltCallback} = {}"
proof -
  note st = Transmit_IT_start [OF assms(1-4)]
  then have "tx_irq_ok w1 cbs w2" using assms(5) by (intro irq_seq_tx) auto
  with st assms(6) show ?thesis by (fastforce simp: tx_irq_ok_def tx_moved_def)
qed

lemma interrupt_transmit_witness:
  "\<exists>w1 w2. HAL_QSPI_Transmit_IT (log_io (demo_io SR_DONE 1)) 0x20 (log_world []) = Some (HAL_OK, w1) \<and>
     irq_seq (log_io (demo_io SR_DONE 1)) [id, id] w1 =
       ([HAL_QSPI_FifoThresholdCallback, HAL_QSPI_TxCpltCallback], w2) \<and>
     sent (snd (hw w2)) = [0x20]"
proof -
  let ?t = "HAL_QSPI_Transmit_IT (log_io (demo_io SR_DONE 1)) 0x20 (log_world [])"
  let ?i = "\<lambda>r. irq_seq (log_io (demo_io SR_DONE 1)) [id, id] (snd (the r))"
  have "map_option fst ?t = Some HAL_OK" by code_simp
  then obtain w1 where t: "?t = Some (HAL_OK, w1)" by (rule run_status)
  have cb: "fst (?i ?t) = [HAL_QSPI_FifoThresholdCallback, HAL_QSPI_TxCpltCallback]"
    "TxXferCount (hq (snd (?i ?t))) = 0" by code_simp+
  have i: "irq_seq (log_io (demo_io SR_DONE 1)) [id, id] w1 = (fst (?i ?t), snd (?i ?t))"
    by (simp add: t)
  have pre: "unlocked (log_world [])" "ready (log_world [])" "(0x20 :: u32) \<noteq> 0" by code_simp+
  have n: "1 = unat (fst (io_rd (demo_io SR_DONE 1) DLR (fst (hw (log_world [])))) + 1)" by code_simp
  have b: "bytes_at (mem (log_world [])) 0x20 1 = [0x20]" "sent (snd (hw (log_world []))) = []" by code_simp+
  from interrupt_transmit [OF pre t i n] obtain k where "k \<le> 1"
    "sent (snd (hw (snd (?i ?t)))) = sent (snd (hw (log_world []))) @ bytes_at (mem (log_world [])) 0x20 k"
    "unat (TxXferCount (hq (snd (?i ?t)))) = 1 - k" by blast
  then have "sent (snd (hw (snd (?i ?t)))) = [0x20]" using b cb(2) by (cases k) auto
  with t i [unfolded cb(1)] show ?thesis by blast
qed

text \<open>
  C30. An interrupt-driven reception on a ready handle returns \<open>HAL_OK\<close> at once. Under any
  number of interrupts, at any times, the bytes read from the data register are stored in order
  from the buffer address on, never more than the data-length register announced, and no
  other byte of memory changes; nothing is sent. The completion callback is called at most once,
  and only when the handle has become ready again.
\<close>

theorem interrupt_receive:
  assumes "unlocked w" "ready w" "pData \<noteq> 0"
    and "HAL_QSPI_Receive_IT (log_io io) pData w = Some (s, w1)"
    and "irq_seq (log_io io) es w1 = (cbs, w2)"
    and "n = unat (fst (io_rd io DLR (snd (io_rd io AR (fst (hw w))))) + 1)"
  shows "s = HAL_OK \<and> unlocked w2 \<and>
    State (hq w2) \<in> {HAL_QSPI_STATE_BUSY_INDIRECT_RX, HAL_QSPI_STATE_READY} \<and>
    (\<exists>bs. length bs \<le> n \<and> received (snd (hw w2)) = received (snd (hw w)) @ bs \<and>
       mem w2 = store_bytes (mem w) pData bs \<and> unat (RxXferCount (hq w2)) = n - length bs) \<and>
    sent (snd (hw w2)) = sent (snd (hw w)) \<and>
    count_list cbs HAL_QSPI_RxCpltCallback \<le> (if ready w2 then 1 else 0) \<and>
    set cbs \<inter> {HAL_QSPI_TxCpltCallback, HAL_QSPI_CmdCpltCallback, HAL_QSPI_AbortCpltCallback} = {}"
proof -
  note st = Receive_IT_start [OF assms(1-4)]
  then have "rx_irq_ok w1 cbs w2" using assms(5) by (intro irq_seq_rx) auto
  with st assms(6) show ?thesis by (fastforce simp: rx_irq_ok_def rx_moved_def)
qed

lemma interrupt_receive_witness:
  "\<exists>w1 w2 bs. HAL_QSPI_Receive_IT (log_io (demo_io SR_DONE 1)) 0x20 (log_world [0x5A]) = Some (HAL_OK, w1) \<and>
     irq_seq (log_io (demo_io SR_DONE 1)) [id, id] w1 =
       ([HAL_QSPI_FifoThresholdCallback, HAL_QSPI_RxCpltCallback], w2) \<and>
     length bs = 1 \<and> received (snd (hw w2)) = bs \<and> mem w2 = store_bytes (mem (log_world [0x5A])) 0x20 bs"
proof -
  let ?t = "HAL_QSPI_Receive_IT (log_io (demo_io SR_DONE 1)) 0x20 (log_world [0x5A])"
  let ?i = "\<lambda>r. irq_seq (log_io (demo_io SR_DONE 1)) [id, id] (snd (the r))"
  have "map_option fst ?t = Some HAL_OK" by code_simp
  then obtain w1 where t: "?t = Some (HAL_OK, w1)" by (rule run_status)
  have cb: "fst (?i ?t) = [HAL_QSPI_FifoThresholdCallback, HAL_QSPI_RxCpltCallback]"
    "RxXferCount (hq (snd (?i ?t))) = 0" by code_simp+
  have i: "irq_seq (log_io (demo_io SR_DONE 1)) [id, id] w1 = (fst (?i ?t), snd (?i ?t))"
    by (simp add: t)
  have pre: "unlocked (log_world [0x5A])" "ready (log_world [0x5A])" "(0x20 :: u32) \<noteq> 0" by code_simp+
  have n: "1 = unat (fst (io_rd (demo_io SR_DONE 1) DLR (snd (io_rd (demo_io SR_DONE 1) AR
      (fst (hw (log_world [0x5A])))))) + 1)" by code_simp
  have b: "received (snd (hw (log_world [0x5A]))) = []" by code_simp
  from interrupt_receive [OF pre t i n] obtain bs where "length bs \<le> 1"
    "received (snd (hw (snd (?i ?t)))) = received (snd (hw (log_world [0x5A]))) @ bs"
    "mem (snd (?i ?t)) = store_bytes (mem (log_world [0x5A])) 0x20 bs"
    "unat (RxXferCount (hq (snd (?i ?t)))) = 1 - length bs" by blast
  moreover then have "length bs = 1" using cb(2) by simp
  ultimately show ?thesis using t i [unfolded cb(1)] unfolding b append_Nil by blast
qed

text \<open>
  When the transfer-complete interrupt is taken (and the FIFO-threshold one, which has
  priority, is not pending), the handler first clears the flag and disables the transfer
  interrupts; an operation in progress ends in the ready state and exactly the callback of that operation is
  called, the error callback in place of the abort callback if an error was recorded. A handle
  in any other state keeps it and no callback is called.
\<close>

theorem irq_completes:
  assumes "HAL_QSPI_IRQHandler (log_io io) w = (cbs, w')"
    and "irq_pending (log_io io) QSPI_FLAG_TC QSPI_IT_TC (hw w)"
    and "\<not> irq_pending (log_io io) QSPI_FLAG_FT QSPI_IT_FT (hw w)"
  shows "cbs = completion_callback (State (hq w)) (ErrorCode (hq w)) \<and>
    State (hq w') = (if State (hq w) \<in> {HAL_QSPI_STATE_BUSY_INDIRECT_TX, HAL_QSPI_STATE_BUSY_INDIRECT_RX,
        HAL_QSPI_STATE_BUSY, HAL_QSPI_STATE_ABORT} then HAL_QSPI_STATE_READY else State (hq w)) \<and>
    (\<exists>v tr. snd (hw w') = snd (hw w) @ [W FCR QSPI_FLAG_TC,
        W CR (v AND NOT (QSPI_IT_TC OR QSPI_IT_TE OR QSPI_IT_FT))] @ tr)"
proof -
  let ?r = "irq_transfer_complete (log_io io) (irq_polled (log_io io) w)"
  have "(cbs, w') = ?r" using assms by (simp add: IRQHandler_eq)
  then have r: "cbs = fst ?r" "w' = snd ?r" by (metis fst_conv, metis snd_conv)
  from transfer_complete_log [of io "irq_polled (log_io io) w"] irq_tc_start_log [of io "irq_polled (log_io io) w"]
  have "\<exists>v tr. snd (hw w') = snd (hw w) @ [W FCR QSPI_FLAG_TC,
        W CR (v AND NOT (QSPI_IT_TC OR QSPI_IT_TE OR QSPI_IT_FT))] @ tr"
    unfolding r by auto
  then show ?thesis
    using r transfer_complete_callback [of "log_io io" "irq_polled (log_io io) w"]
      transfer_complete_state [of io "irq_polled (log_io io) w"] by simp
qed

lemma irq_completes_witness:
  "fst (HAL_QSPI_IRQHandler (log_io (demo_io SR_DONE 1))
     (set_State HAL_QSPI_STATE_BUSY (WRITE_REG (log_io (demo_io SR_DONE 1)) CR QSPI_IT_TC (log_world [])))) =
   [HAL_QSPI_CmdCpltCallback]"
proof -
  let ?w = "set_State HAL_QSPI_STATE_BUSY (WRITE_REG (log_io (demo_io SR_DONE 1)) CR QSPI_IT_TC (log_world []))"
  have "irq_pending (log_io (demo_io SR_DONE 1)) QSPI_FLAG_TC QSPI_IT_TC (hw ?w)"
    "\<not> irq_pending (log_io (demo_io SR_DONE 1)) QSPI_FLAG_FT QSPI_IT_FT (hw ?w)" by code_simp+
  from irq_completes [OF _ this] have "fst (HAL_QSPI_IRQHandler (log_io (demo_io SR_DONE 1)) ?w) =
      completion_callback (State (hq ?w)) (ErrorCode (hq ?w))" by (simp add: prod_eq_iff)
  also have "\<dots> = [HAL_QSPI_CmdCpltCallback]" by code_simp
  finally show ?thesis .
qed



text \<open>
  The functions that start an interrupt-driven operation refuse one on a handle that is not
  ready: they return a status other than \<open>HAL_OK\<close> at once and change neither the
  handle, nor memory, nor the registers.
\<close>

theorem it_refused:
  assumes "unlocked w" "\<not> ready w"
    and "r \<in> {HAL_QSPI_Command_IT (log_io io) cmd w, HAL_QSPI_Transmit_IT (log_io io) pData w,
              HAL_QSPI_Receive_IT (log_io io) pData w, HAL_QSPI_AutoPolling_IT (log_io io) cmd cfg w}"
  shows "\<exists>s w'. r = Some (s, w') \<and> s \<noteq> HAL_OK \<and> hq w' = hq w \<and> mem w' = mem w \<and> snd (hw w') = snd (hw w)"
proof -
  have "\<exists>s w'. r = Some (s, w') \<and> s \<noteq> HAL_OK \<and> refused (log_io io) w w'"
    using assms(3) command_it.refuses [OF assms(1,2), of "log_io io" cmd]
      transmit_it.refuses [OF assms(1,2), of "log_io io" pData] receive_it.refuses [OF assms(1,2), of "log_io io" pData]
      polling_it.refuses [OF assms(1,2), of "log_io io" cmd cfg] by auto
  then show ?thesis by (auto simp: refused_def dest!: bus_log_io)
qed

lemma it_refused_witness:
  "\<exists>w'. HAL_QSPI_Transmit_IT (log_io (demo_io SR_DONE 1)) 0x20 (set_State HAL_QSPI_STATE_BUSY (log_world [])) =
     Some (HAL_BUSY, w') \<and> snd (hw w') = []"
proof -
  let ?w = "set_State HAL_QSPI_STATE_BUSY (log_world [])"
  let ?t = "HAL_QSPI_Transmit_IT (log_io (demo_io SR_DONE 1)) 0x20 ?w"
  have pre: "unlocked ?w" "\<not> ready ?w" "map_option fst ?t = Some HAL_BUSY" "snd (hw ?w) = []" by code_simp+
  have "?t \<in> {HAL_QSPI_Command_IT (log_io (demo_io SR_DONE 1)) read_id_cmd ?w, ?t,
      HAL_QSPI_Receive_IT (log_io (demo_io SR_DONE 1)) 0x20 ?w,
      HAL_QSPI_AutoPolling_IT (log_io (demo_io SR_DONE 1)) read_id_cmd
        \<lparr>Match = 0, Mask = 1, Interval = 0x10, StatusBytesSize = 1, MatchMode = 0, AutomaticStop = 0\<rparr> ?w}" by simp
  from it_refused [OF pre(1,2) this] obtain s w' where "?t = Some (s, w')" "snd (hw w') = snd (hw ?w)"
    by blast
  with pre(3,4) show ?thesis by auto
qed

end
