(* ===== verification/Hal_Gpio.thy ===== *)
theory Hal_Gpio
  imports Hal_Qspi_Machine
begin

text \<open>
  The GPIO driver (\<open>stm32h7xx_hal_gpio.c\<close>), which the board hook of the flash driver uses
  to route the six QUADSPI signals. A port is its index (\<open>GPIO_GET_INDEX\<close>: GPIOA is 0,
  GPIOB is 1 and so on).
\<close>

section \<open>Operations\<close>

record GPIO_InitTypeDef =
  Pin :: u32
  Mode :: u32
  Pull :: u32
  Speed :: u32
  Alternate :: u32

datatype GPIO_PinState = GPIO_PIN_RESET | GPIO_PIN_SET

abbreviation (input) GPIO_MODE_OUTPUT_PP :: u32 where "GPIO_MODE_OUTPUT_PP \<equiv> 0x01"
abbreviation (input) GPIO_MODE_OUTPUT_OD :: u32 where "GPIO_MODE_OUTPUT_OD \<equiv> 0x11"
abbreviation (input) GPIO_MODE_AF_PP :: u32 where "GPIO_MODE_AF_PP \<equiv> 0x02"
abbreviation (input) GPIO_MODE_AF_OD :: u32 where "GPIO_MODE_AF_OD \<equiv> 0x12"
abbreviation (input) GPIO_NOPULL :: u32 where "GPIO_NOPULL \<equiv> 0"
abbreviation (input) GPIO_SPEED_FREQ_VERY_HIGH :: u32 where "GPIO_SPEED_FREQ_VERY_HIGH \<equiv> 3"
abbreviation (input) GPIO_MODE :: u32 where "GPIO_MODE \<equiv> 0x03"
abbreviation (input) EXTI_MODE :: u32 where "EXTI_MODE \<equiv> 0x10000000"
abbreviation (input) GPIO_MODE_IT :: u32 where "GPIO_MODE_IT \<equiv> 0x00010000"
abbreviation (input) GPIO_MODE_EVT :: u32 where "GPIO_MODE_EVT \<equiv> 0x00020000"
abbreviation (input) RISING_EDGE :: u32 where "RISING_EDGE \<equiv> 0x00100000"
abbreviation (input) FALLING_EDGE :: u32 where "FALLING_EDGE \<equiv> 0x00200000"
abbreviation (input) GPIO_OUTPUT_TYPE :: u32 where "GPIO_OUTPUT_TYPE \<equiv> 0x10"
abbreviation (input) GPIO_LCKR_LCKK :: u32 where "GPIO_LCKR_LCKK \<equiv> 0x00010000"

text \<open>
  The clock-enable macros set a bit of an enable register and read it back as a delay.
\<close>

definition RCC_CLK_ENABLE :: "'h mmio \<Rightarrow> ioreg \<Rightarrow> u32 \<Rightarrow> 'h qworld \<Rightarrow> 'h qworld" where
  "RCC_CLK_ENABLE io r b w = snd (READ_BIT io r b (SET_BIT io r b w))"

text \<open>
  The driver reads a register into \<open>temp\<close>, clears a field, sets it and writes it back:
  the same accesses as \<open>MODIFY_REG\<close>.
\<close>

definition gpio_exti_pin :: "'h mmio \<Rightarrow> nat \<Rightarrow> GPIO_InitTypeDef \<Rightarrow> nat \<Rightarrow> 'h qworld \<Rightarrow> 'h qworld" where
  "gpio_exti_pin io port cfg position w0 =
    (let iocurrent = Pin cfg AND push_bit position 1;
         line = (\<lambda>b :: u32. if Mode cfg AND b = b then iocurrent else 0);
         w1 = RCC_CLK_ENABLE io APB4ENR 2 w0;
         w2 = MODIFY_REG io (EXTICR (position div 4)) (push_bit (4 * (position mod 4)) 0x0F)
                (push_bit (4 * (position mod 4)) (of_nat port)) w1;
         w3 = MODIFY_REG io IMR1 iocurrent (line GPIO_MODE_IT) w2;
         w4 = MODIFY_REG io EMR1 iocurrent (line GPIO_MODE_EVT) w3;
         w5 = MODIFY_REG io RTSR1 iocurrent (line RISING_EDGE) w4
     in MODIFY_REG io FTSR1 iocurrent (line FALLING_EDGE) w5)"

definition gpio_init_pin :: "'h mmio \<Rightarrow> nat \<Rightarrow> GPIO_InitTypeDef \<Rightarrow> nat \<Rightarrow> 'h qworld \<Rightarrow> 'h qworld" where
  "gpio_init_pin io port cfg position w0 =
    (let w1 = (if Mode cfg = GPIO_MODE_AF_PP \<or> Mode cfg = GPIO_MODE_AF_OD
               then MODIFY_REG io (AFR port (position div 8)) (push_bit ((position mod 8) * 4) 0xF)
                      (push_bit ((position mod 8) * 4) (Alternate cfg)) w0
               else w0);
         w2 = MODIFY_REG io (MODER port) (push_bit (position * 2) 3)
                (push_bit (position * 2) (Mode cfg AND GPIO_MODE)) w1;
         w3 = (if Mode cfg \<in> {GPIO_MODE_OUTPUT_PP, GPIO_MODE_AF_PP, GPIO_MODE_OUTPUT_OD, GPIO_MODE_AF_OD}
               then MODIFY_REG io (OTYPER port) (push_bit position 1)
                      (push_bit position (drop_bit 4 (Mode cfg AND GPIO_OUTPUT_TYPE)))
                      (MODIFY_REG io (OSPEEDR port) (push_bit (position * 2) 3)
                        (push_bit (position * 2) (Speed cfg)) w2)
               else w2);
         w4 = MODIFY_REG io (PUPDR port) (push_bit (position * 2) 3)
                (push_bit (position * 2) (Pull cfg)) w3
     in if Mode cfg AND EXTI_MODE = EXTI_MODE then gpio_exti_pin io port cfg position w4 else w4)"

text \<open>The loop over the pin positions ends because a 32-bit mask is zero after 32 shifts.\<close>

lemma drop_bit_bound:
  fixes x :: u32
  assumes "drop_bit n x \<noteq> 0"
  shows "n < 32"
proof (rule ccontr)
  assume "\<not> n < 32"
  then have "drop_bit n x = 0"
    by (intro bit_word_eqI) (auto simp: bit_drop_bit_eq dest: bit_imp_le_length)
  with assms show False ..
qed

function gpio_pins ::
  "(nat \<Rightarrow> 'h qworld \<Rightarrow> 'h qworld) \<Rightarrow> u32 \<Rightarrow> nat \<Rightarrow> 'h qworld \<Rightarrow> 'h qworld" where
  "gpio_pins body pins position w =
    (if drop_bit position pins \<noteq> 0
     then gpio_pins body pins (position + 1)
            (if pins AND push_bit position 1 \<noteq> 0 then body position w else w)
     else w)"
  by pat_completeness auto
termination by (relation "measure (\<lambda>(_, _, position, _). 32 - position)") (auto dest: drop_bit_bound)

declare gpio_pins.simps [simp del]

definition HAL_GPIO_Init :: "'h mmio \<Rightarrow> nat \<Rightarrow> GPIO_InitTypeDef \<Rightarrow> 'h qworld \<Rightarrow> 'h qworld" where
  "HAL_GPIO_Init io port cfg w = gpio_pins (gpio_init_pin io port cfg) (Pin cfg) 0 w"

definition gpio_deinit_pin :: "'h mmio \<Rightarrow> nat \<Rightarrow> u32 \<Rightarrow> nat \<Rightarrow> 'h qworld \<Rightarrow> 'h qworld" where
  "gpio_deinit_pin io port pins position w0 =
    (let iocurrent = pins AND push_bit position 1;
         field = push_bit (4 * (position mod 4)) (0x0F :: u32);
         (v, w1) = READ_REG io (EXTICR (position div 4)) w0;
         w2 = (if v AND field = push_bit (4 * (position mod 4)) (of_nat port)
               then CLEAR_BIT io FTSR1 iocurrent (CLEAR_BIT io RTSR1 iocurrent
                      (CLEAR_BIT io EMR1 iocurrent (CLEAR_BIT io IMR1 iocurrent
                        (CLEAR_BIT io (EXTICR (position div 4)) field w1))))
               else w1);
         w3 = SET_BIT io (MODER port) (push_bit (position * 2) 3) w2;
         w4 = CLEAR_BIT io (AFR port (position div 8)) (push_bit ((position mod 8) * 4) 0xF) w3;
         w5 = CLEAR_BIT io (OSPEEDR port) (push_bit (position * 2) 3) w4;
         w6 = CLEAR_BIT io (OTYPER port) (push_bit position 1) w5
     in CLEAR_BIT io (PUPDR port) (push_bit (position * 2) 3) w6)"

definition HAL_GPIO_DeInit :: "'h mmio \<Rightarrow> nat \<Rightarrow> u32 \<Rightarrow> 'h qworld \<Rightarrow> 'h qworld" where
  "HAL_GPIO_DeInit io port pins w = gpio_pins (gpio_deinit_pin io port pins) pins 0 w"

definition HAL_GPIO_ReadPin :: "'h mmio \<Rightarrow> nat \<Rightarrow> u16 \<Rightarrow> 'h qworld \<Rightarrow> GPIO_PinState \<times> 'h qworld" where
  "HAL_GPIO_ReadPin io port pin w =
    (case READ_REG io (IDR port) w of (v, w1) \<Rightarrow>
       (if v AND ucast pin \<noteq> 0 then GPIO_PIN_SET else GPIO_PIN_RESET, w1))"

definition HAL_GPIO_WritePin :: "'h mmio \<Rightarrow> nat \<Rightarrow> u16 \<Rightarrow> GPIO_PinState \<Rightarrow> 'h qworld \<Rightarrow> 'h qworld" where
  "HAL_GPIO_WritePin io port pin st w =
    (if st \<noteq> GPIO_PIN_RESET then WRITE_REG io (BSRR port) (ucast pin) w
     else WRITE_REG io (BSRR port) (push_bit 16 (ucast pin)) w)"

definition HAL_GPIO_TogglePin :: "'h mmio \<Rightarrow> nat \<Rightarrow> u16 \<Rightarrow> 'h qworld \<Rightarrow> 'h qworld" where
  "HAL_GPIO_TogglePin io port pin w =
    (case READ_REG io (ODR port) w of (v, w1) \<Rightarrow>
       if v AND ucast pin = ucast pin then WRITE_REG io (BSRR port) (push_bit 16 (ucast pin)) w1
       else WRITE_REG io (BSRR port) (ucast pin) w1)"

definition HAL_GPIO_LockPin :: "'h mmio \<Rightarrow> nat \<Rightarrow> u16 \<Rightarrow> 'h qworld \<Rightarrow> HAL_StatusTypeDef \<times> 'h qworld" where
  "HAL_GPIO_LockPin io port pin w =
    (let key = GPIO_LCKR_LCKK OR ucast pin;
         w1 = WRITE_REG io (LCKR port) key w;
         w2 = WRITE_REG io (LCKR port) (ucast pin) w1;
         w3 = WRITE_REG io (LCKR port) key w2;
         (_, w4) = READ_REG io (LCKR port) w3;
         (v, w5) = READ_REG io (LCKR port) w4
     in (if v AND GPIO_LCKR_LCKK \<noteq> 0 then HAL_OK else HAL_ERROR, w5))"

text \<open>The interrupt handler reports whether it called \<open>HAL_GPIO_EXTI_Callback\<close>.\<close>

definition HAL_GPIO_EXTI_IRQHandler :: "'h mmio \<Rightarrow> u16 \<Rightarrow> 'h qworld \<Rightarrow> bool \<times> 'h qworld" where
  "HAL_GPIO_EXTI_IRQHandler io pin w =
    (case READ_REG io PR1 w of (v, w1) \<Rightarrow>
       if v AND ucast pin \<noteq> 0 then (True, WRITE_REG io PR1 (ucast pin) w1) else (False, w1))"

section \<open>The driver touches registers only\<close>

text \<open>
  \<open>reg_only io f\<close>: the step \<open>f\<close> leaves handle and memory alone and acts on the
  hardware through register accesses.
\<close>

definition reg_only :: "'h mmio \<Rightarrow> ('h qworld \<Rightarrow> 'h qworld) \<Rightarrow> bool" where
  "reg_only io f \<longleftrightarrow> (\<forall>w. \<exists>h tr. f w = w\<lparr>hw := h\<rparr> \<and> bus io (hw w) tr h)"

lemma reg_only_id: "reg_only io (\<lambda>w. w)"
  unfolding reg_only_def by (metis bus_refl qworld.surjective qworld.update_convs(3))

lemma reg_only_comp:
  assumes "reg_only io f" "reg_only io g"
  shows "reg_only io (\<lambda>w. f (g w))"
  unfolding reg_only_def
proof
  fix w :: "'a qworld"
  from assms(2) obtain h1 t1 where g: "g w = w\<lparr>hw := h1\<rparr>" "bus io (hw w) t1 h1"
    unfolding reg_only_def by blast
  from assms(1) obtain h2 t2 where f: "f (g w) = (g w)\<lparr>hw := h2\<rparr>" "bus io (hw (g w)) t2 h2"
    unfolding reg_only_def by blast
  with g have "f (g w) = w\<lparr>hw := h2\<rparr>" "bus io (hw w) (t1 @ t2) h2"
    by (auto intro: bus_trans)
  then show "\<exists>h tr. f (g w) = w\<lparr>hw := h\<rparr> \<and> bus io (hw w) tr h" by blast
qed

lemma reg_only_if: "reg_only io f \<Longrightarrow> reg_only io g \<Longrightarrow> reg_only io (\<lambda>w. if c then f w else g w)"
  by (cases c) simp_all

lemma reg_only_MODIFY: "reg_only io (MODIFY_REG io r a b)"
  unfolding reg_only_def MODIFY_REG_eq by (blast intro: bus.intros)

lemma reg_only_CLK: "reg_only io (RCC_CLK_ENABLE io r b)"
  unfolding reg_only_def RCC_CLK_ENABLE_def by (simp add: reg_simps) (blast intro: bus.intros)

lemma reg_only_pins:
  assumes "\<And>n. reg_only io (body n)"
  shows "reg_only io (gpio_pins body pins n)"
proof (induction "32 - n" arbitrary: n rule: less_induct)
  case less
  show ?case
  proof (cases "drop_bit n pins = 0")
    case True
    then have "gpio_pins body pins n = (\<lambda>w. w)" by (simp add: gpio_pins.simps fun_eq_iff)
    then show ?thesis by (simp add: reg_only_id)
  next
    case False
    then have "reg_only io (gpio_pins body pins (n + 1))" by (intro less) (auto dest: drop_bit_bound)
    moreover have "reg_only io (\<lambda>w. if pins AND push_bit n 1 \<noteq> 0 then body n w else w)"
      by (intro reg_only_if assms reg_only_id)
    ultimately have "reg_only io (\<lambda>w. gpio_pins body pins (n + 1)
        (if pins AND push_bit n 1 \<noteq> 0 then body n w else w))" by (rule reg_only_comp)
    moreover have "gpio_pins body pins n = (\<lambda>w. gpio_pins body pins (n + 1)
        (if pins AND push_bit n 1 \<noteq> 0 then body n w else w))"
      using False by (subst gpio_pins.simps [abs_def]) (simp add: fun_eq_iff)
    ultimately show ?thesis by simp
  qed
qed

lemmas reg_only_intros = reg_only_id reg_only_if reg_only_MODIFY reg_only_CLK
  reg_only_comp [of _ "MODIFY_REG _ _ _ _"] reg_only_comp [of _ "RCC_CLK_ENABLE _ _ _"]

lemma reg_only_init_pin: "reg_only io (gpio_init_pin io port cfg n)"
  unfolding gpio_init_pin_def gpio_exti_pin_def Let_def
  by (intro reg_only_if reg_only_intros)

lemma reg_only_GPIO_Init: "reg_only io (HAL_GPIO_Init io port cfg)"
  unfolding HAL_GPIO_Init_def by (intro reg_only_pins reg_only_init_pin)

section \<open>The fields of the configuration registers\<close>

text \<open>
  The documented behaviour of the configuration registers of the GPIO ports: they read back what was written last, and
  nothing else changes them, neither reading a register nor writing another one. Nothing is assumed of the other
  registers, among them the status registers and those that are set or cleared by writing a one.
\<close>

definition config_reg :: "ioreg \<Rightarrow> bool" where
  "config_reg r = (case r of MODER _ \<Rightarrow> True | OTYPER _ \<Rightarrow> True | OSPEEDR _ \<Rightarrow> True | PUPDR _ \<Rightarrow> True | AFR _ _ \<Rightarrow> True
     | _ \<Rightarrow> False)"

definition latching :: "'h mmio \<Rightarrow> ('h \<Rightarrow> ioreg \<Rightarrow> u32) \<Rightarrow> bool" where
  "latching io reg \<longleftrightarrow> (\<forall>c. config_reg c \<longrightarrow>
     (\<forall>h. fst (io_rd io c h) = reg h c) \<and>
     (\<forall>r h. reg (snd (io_rd io r h)) c = reg h c) \<and>
     (\<forall>r v h. reg (io_wr io r v h) c = (if r = c then v else reg h c)))"

lemma latching_MODIFY:
  "latching io reg \<Longrightarrow> config_reg q \<Longrightarrow>
   reg (hw (MODIFY_REG io r c s w)) q = (if r = q then (reg (hw w) q AND NOT c) OR s else reg (hw w) q)"
  by (simp add: MODIFY_REG_eq latching_def)

lemma latching_CLK:
  "latching io reg \<Longrightarrow> config_reg q \<Longrightarrow>
   reg (hw (RCC_CLK_ENABLE io r b w)) q = (if r = q then reg (hw w) q OR b else reg (hw w) q)"
  by (simp add: RCC_CLK_ENABLE_def reg_simps latching_def)

lemma config_reg_simps [simp]: "config_reg (MODER port)" "config_reg (AFR port k)"
  by (simp_all add: config_reg_def)

text \<open>The mode and the alternate function of a pin, as the registers hold them.\<close>

definition pin_mode :: "(ioreg \<Rightarrow> u32) \<Rightarrow> nat \<Rightarrow> nat \<Rightarrow> u32" where
  "pin_mode rg port p = drop_bit (p * 2) (rg (MODER port)) AND 3"

definition pin_function :: "(ioreg \<Rightarrow> u32) \<Rightarrow> nat \<Rightarrow> nat \<Rightarrow> u32" where
  "pin_function rg port p = drop_bit ((p mod 8) * 4) (rg (AFR port (p div 8))) AND 15"

lemma field_update:
  fixes v x m :: u32
  assumes m: "m = mask k" and "x AND m = x" and "i * k + k \<le> 32" and "j * k + k \<le> 32"
  shows "drop_bit (j * k) ((v AND NOT (push_bit (i * k) m)) OR push_bit (i * k) x) AND m =
    (if i = j then x else drop_bit (j * k) v AND m)"
proof (rule bit_word_eqI)
  fix n assume "n < LENGTH(32)"
  have x: "bit x a \<Longrightarrow> a < k" for a
    using assms(2) unfolding m by (metis bit_and_iff bit_mask_iff)
  have apart: "\<not> (i * k \<le> j * k + n \<and> j * k + n < i * k + k)" if "n < k" "i \<noteq> j"
  proof (cases "i < j")
    case True
    then have "Suc i * k \<le> j * k" by (intro mult_le_mono1) simp
    then show ?thesis by simp
  next
    case False
    with that have "Suc j * k \<le> i * k" by (intro mult_le_mono1) simp
    with that show ?thesis by simp
  qed
  show "bit (drop_bit (j * k) ((v AND NOT (push_bit (i * k) m)) OR push_bit (i * k) x) AND m) n =
      bit (if i = j then x else drop_bit (j * k) v AND m) n"
  proof (cases "n < k")
    case False
    then show ?thesis using x [of n] by (auto simp: m bit_and_iff bit_mask_iff)
  next
    case True
    then have "j * k + n < 32" using assms(4) by simp
    with True show ?thesis using apart [OF True] x [of "j * k + n - i * k"]
      by (auto simp: m bit_and_iff bit_or_iff bit_not_iff bit_mask_iff bit_drop_bit_eq bit_push_bit_iff)
  qed
qed

lemma pins_fields:
  assumes step: "\<And>n w. n < 16 \<Longrightarrow> get (body n w) p = (if p = n then x else get w p)"
    and pins: "\<And>n. bit pins n \<Longrightarrow> n < 16"
  shows "get (gpio_pins body pins k w) p = (if k \<le> p \<and> bit pins p then x else get w p)"
  using step pins
proof (induction body pins k w rule: gpio_pins.induct)
  case (1 body pins k w)
  have sel: "pins AND push_bit k 1 \<noteq> 0 \<longleftrightarrow> bit pins k"
    by (simp add: push_bit_eq_mult and_exp_eq_0_iff_not_bit)
  show ?case
  proof (cases "drop_bit k pins = 0")
    case True
    have "bit (drop_bit k pins) (p - k)" if "k \<le> p" "bit pins p"
      using that by (simp add: bit_drop_bit_eq)
    then have "k \<le> p \<Longrightarrow> \<not> bit pins p" using True by auto
    with True show ?thesis by (auto simp: gpio_pins.simps)
  next
    case False
    let ?w = "if bit pins k then body k w else w"
    have "gpio_pins body pins k w = gpio_pins body pins (k + 1) ?w"
      by (subst gpio_pins.simps) (use False in \<open>simp only: sel if_True simp_thms\<close>)
    moreover have "get (gpio_pins body pins (k + 1) ?w) p =
        (if k + 1 \<le> p \<and> bit pins p then x else get ?w p)"
      using "1.IH" [OF False] "1.prems" unfolding sel by blast
    moreover have "get ?w p = (if p = k \<and> bit pins k then x else get w p)"
      using "1.prems" by auto
    ultimately show ?thesis by (cases "p = k") auto
  qed
qed

lemma init_pin_mode:
  assumes "latching io reg" and "n < 16" and "p < 16"
  shows "pin_mode (reg (hw (gpio_init_pin io port cfg n w))) port p =
    (if p = n then Mode cfg AND 3 else pin_mode (reg (hw w)) port p)"
proof -
  have "reg (hw (gpio_init_pin io port cfg n w)) (MODER port) =
      (reg (hw w) (MODER port) AND NOT (push_bit (n * 2) 3)) OR push_bit (n * 2) (Mode cfg AND 3)"
    by (simp add: gpio_init_pin_def gpio_exti_pin_def latching_MODIFY [OF assms(1)]
        latching_CLK [OF assms(1)] Let_def)
  moreover have "(3 :: u32) = mask 2" by (simp add: mask_eq_exp_minus_1)
  ultimately show ?thesis
    using field_update [of 3 2 "Mode cfg AND 3" n p "reg (hw w) (MODER port)"] assms(2,3)
    unfolding pin_mode_def by (simp add: and.assoc eq_commute [of n p])
qed

lemma init_pin_function:
  assumes "latching io reg" and "n < 16" and "p < 16" and "Alternate cfg AND 15 = Alternate cfg"
    and af: "Mode cfg = GPIO_MODE_AF_PP \<or> Mode cfg = GPIO_MODE_AF_OD"
  shows "pin_function (reg (hw (gpio_init_pin io port cfg n w))) port p =
    (if p = n then Alternate cfg else pin_function (reg (hw w)) port p)"
proof -
  have r: "reg (hw (gpio_init_pin io port cfg n w)) (AFR port k) =
      (if k = n div 8 then (reg (hw w) (AFR port k) AND NOT (push_bit ((n mod 8) * 4) 15)) OR
         push_bit ((n mod 8) * 4) (Alternate cfg) else reg (hw w) (AFR port k))" for k
    using af by (auto simp: gpio_init_pin_def gpio_exti_pin_def latching_MODIFY [OF assms(1)]
        latching_CLK [OF assms(1)] Let_def)
  have m: "(15 :: u32) = mask 4" by (simp add: mask_eq_exp_minus_1)
  have np: "n = p" if "n mod 8 = p mod 8" "n div 8 = p div 8"
    using that by (metis mod_div_mult_eq)
  have le: "(n mod 8) * 4 + 4 \<le> 32" "(p mod 8) * 4 + 4 \<le> 32"
    using mod_less_divisor [of 8 n] mod_less_divisor [of 8 p] by linarith+
  show ?thesis
  proof (cases "p div 8 = n div 8")
    case True
    with field_update [OF m assms(4) le, of "reg (hw w) (AFR port (n div 8))"] np show ?thesis
      by (auto simp: pin_function_def r)
  next
    case False
    then show ?thesis by (auto simp: pin_function_def r)
  qed
qed

lemma low_mask_bit:
  fixes pins :: u32
  assumes "pins < 65536" and "bit pins n"
  shows "n < 16"
proof -
  have "unat pins < 2 ^ 16" using assms(1) by (simp add: word_less_nat_alt)
  then have "take_bit 16 (unat pins) = unat pins" by (rule take_bit_nat_eq_self)
  moreover have "bit (unat pins) n" using assms(2) by (simp add: bit_unsigned_iff bit_imp_le_length)
  ultimately show ?thesis by (metis bit_take_bit_iff)
qed

text \<open>
  \<open>HAL_GPIO_Init\<close> in an alternate-function mode gives every pin of the mask the
  requested mode and alternate function, and leaves mode and function of every other pin of the
  port as they were, provided the configuration registers of the ports keep what is written to them. The loop over the pins ends for every mask.
\<close>

theorem gpio_init_fields:
  assumes "latching io reg" and "Pin cfg < 65536" and "p < 16"
    and "Mode cfg = GPIO_MODE_AF_PP \<or> Mode cfg = GPIO_MODE_AF_OD"
    and "Alternate cfg AND 15 = Alternate cfg"
  shows "pin_mode (reg (hw (HAL_GPIO_Init io port cfg w))) port p =
      (if bit (Pin cfg) p then Mode cfg AND 3 else pin_mode (reg (hw w)) port p) \<and>
    pin_function (reg (hw (HAL_GPIO_Init io port cfg w))) port p =
      (if bit (Pin cfg) p then Alternate cfg else pin_function (reg (hw w)) port p)"
proof -
  note pins = low_mask_bit [OF assms(2)]
  note mode = pins_fields [where get = "\<lambda>w. pin_mode (reg (hw w)) port" and p = p and k = 0
      and body = "gpio_init_pin io port cfg", OF init_pin_mode [OF assms(1) _ assms(3)] pins]
  note func = pins_fields [where get = "\<lambda>w. pin_function (reg (hw w)) port" and p = p and k = 0
      and body = "gpio_init_pin io port cfg",
      OF init_pin_function [OF assms(1) _ assms(3) assms(5) assms(4)] pins]
  show ?thesis by (simp add: HAL_GPIO_Init_def mode func)
qed


text \<open>The hardware of the concrete runs, whose status register ignores writes, keeps the configuration registers.\<close>

lemma latching_demo: "latching (demo_io sr d) regs"
  by (auto simp: latching_def demo_io_def config_reg_def)

lemma gpio_init_fields_witness:
  "pin_mode (regs (hw (HAL_GPIO_Init (demo_io 0x0E 1) 1 \<lparr>Pin = 4, Mode = 2, Pull = 0, Speed = 3, Alternate = 9\<rparr>
      (demo_world [])))) 1 2 = 2"
  using gpio_init_fields [OF latching_demo, where p = 2 and port = 1 and w = "demo_world []"
      and cfg = "\<lparr>Pin = 4, Mode = 2, Pull = 0, Speed = 3, Alternate = 9\<rparr>"] by simp

end
