(* ===== verification/W25qxx_Defs.thy ===== *)
theory W25qxx_Defs
  imports Hal_Gpio
begin

text \<open>
  The W25Q64 flash driver of the bootloader (\<open>applications/w25qxx.c\<close> and
  \<open>w25qxx.h\<close>), one definition per function.

  A C function that fills a local \<open>QSPI_CommandTypeDef\<close> leaves the fields it does not
  assign uninitialised. \<open>locals\<close> holds such an arbitrary initial content, and the address
  of the receive buffer that \<open>QSPI_W25Qxx_ReadID\<close> has on its stack. The messages printed
  on the console are not modelled.
\<close>

section \<open>Constants\<close>

abbreviation (input) QSPI_W25Qxx_OK :: int where "QSPI_W25Qxx_OK \<equiv> 0"
abbreviation (input) W25Qxx_ERROR_INIT :: int where "W25Qxx_ERROR_INIT \<equiv> -1"
abbreviation (input) W25Qxx_ERROR_WriteEnable :: int where "W25Qxx_ERROR_WriteEnable \<equiv> -2"
abbreviation (input) W25Qxx_ERROR_AUTOPOLLING :: int where "W25Qxx_ERROR_AUTOPOLLING \<equiv> -3"
abbreviation (input) W25Qxx_ERROR_Erase :: int where "W25Qxx_ERROR_Erase \<equiv> -4"
abbreviation (input) W25Qxx_ERROR_TRANSMIT :: int where "W25Qxx_ERROR_TRANSMIT \<equiv> -5"
abbreviation (input) W25Qxx_ERROR_MemoryMapped :: int where "W25Qxx_ERROR_MemoryMapped \<equiv> -6"

abbreviation (input) W25Qxx_CMD_EnableReset :: u32 where "W25Qxx_CMD_EnableReset \<equiv> 0x66"
abbreviation (input) W25Qxx_CMD_ResetDevice :: u32 where "W25Qxx_CMD_ResetDevice \<equiv> 0x99"
abbreviation (input) W25Qxx_CMD_JedecID :: u32 where "W25Qxx_CMD_JedecID \<equiv> 0x9F"
abbreviation (input) W25Qxx_CMD_WriteEnable :: u32 where "W25Qxx_CMD_WriteEnable \<equiv> 0x06"
abbreviation (input) W25Qxx_CMD_SectorErase :: u32 where "W25Qxx_CMD_SectorErase \<equiv> 0x20"
abbreviation (input) W25Qxx_CMD_BlockErase_32K :: u32 where "W25Qxx_CMD_BlockErase_32K \<equiv> 0x52"
abbreviation (input) W25Qxx_CMD_BlockErase_64K :: u32 where "W25Qxx_CMD_BlockErase_64K \<equiv> 0xD8"
abbreviation (input) W25Qxx_CMD_ChipErase :: u32 where "W25Qxx_CMD_ChipErase \<equiv> 0xC7"
abbreviation (input) W25Qxx_CMD_QuadInputPageProgram :: u32 where "W25Qxx_CMD_QuadInputPageProgram \<equiv> 0x32"
abbreviation (input) W25Qxx_CMD_FastReadQuad_IO :: u32 where "W25Qxx_CMD_FastReadQuad_IO \<equiv> 0xEB"
abbreviation (input) W25Qxx_CMD_ReadStatus_REG1 :: u32 where "W25Qxx_CMD_ReadStatus_REG1 \<equiv> 0x05"
abbreviation (input) W25Qxx_Status_REG1_BUSY :: u32 where "W25Qxx_Status_REG1_BUSY \<equiv> 0x01"
abbreviation (input) W25Qxx_Status_REG1_WEL :: u32 where "W25Qxx_Status_REG1_WEL \<equiv> 0x02"
abbreviation (input) W25Qxx_PageSize :: u32 where "W25Qxx_PageSize \<equiv> 256"
abbreviation (input) W25Qxx_FLASH_ID :: u32 where "W25Qxx_FLASH_ID \<equiv> 0xEF4017"
abbreviation (input) W25Qxx_ChipErase_TIMEOUT_MAX :: u32 where "W25Qxx_ChipErase_TIMEOUT_MAX \<equiv> 100000"
abbreviation (input) QUADSPI_BASE :: u32 where "QUADSPI_BASE \<equiv> 0x52005000"

abbreviation (input) GPIOB :: nat where "GPIOB \<equiv> 1"
abbreviation (input) GPIOD :: nat where "GPIOD \<equiv> 3"
abbreviation (input) GPIOE :: nat where "GPIOE \<equiv> 4"

record locals =
  junk :: QSPI_CommandTypeDef
  id_buf :: u32

type_synonym 'h drv_result = "(int \<times> 'h qworld) option"

section \<open>Board hook and initialisation\<close>

definition GPIO_CLK_ENABLE :: "'h mmio \<Rightarrow> nat \<Rightarrow> 'h qworld \<Rightarrow> 'h qworld" where
  "GPIO_CLK_ENABLE io port w = RCC_CLK_ENABLE io AHB4ENR (push_bit port 1) w"

definition quadspi_pin :: "u32 \<Rightarrow> u32 \<Rightarrow> GPIO_InitTypeDef" where
  "quadspi_pin pin af = \<lparr>Pin = pin, Mode = GPIO_MODE_AF_PP, Pull = GPIO_NOPULL,
     Speed = GPIO_SPEED_FREQ_VERY_HIGH, Alternate = af\<rparr>"

definition HAL_QSPI_MspInit :: "'h mmio \<Rightarrow> 'h qworld \<Rightarrow> 'h qworld" where
  "HAL_QSPI_MspInit io w =
    (if Instance (hq w) = QUADSPI_BASE then
       (let w0 = RCC_CLK_ENABLE io AHB3ENR 0x4000 w;
            w1 = GPIO_CLK_ENABLE io GPIOD (GPIO_CLK_ENABLE io GPIOD (GPIO_CLK_ENABLE io GPIOE
                   (GPIO_CLK_ENABLE io GPIOD (GPIO_CLK_ENABLE io GPIOB (GPIO_CLK_ENABLE io GPIOB w0)))));
            w2 = HAL_GPIO_Init io GPIOB (quadspi_pin 0x0004 9) w1;
            w3 = HAL_GPIO_Init io GPIOB (quadspi_pin 0x0040 10) w2;
            w4 = HAL_GPIO_Init io GPIOD (quadspi_pin 0x0800 9) w3;
            w5 = HAL_GPIO_Init io GPIOE (quadspi_pin 0x0004 9) w4;
            w6 = HAL_GPIO_Init io GPIOD (quadspi_pin 0x1000 9) w5
        in HAL_GPIO_Init io GPIOD (quadspi_pin 0x2000 9) w6)
     else w)"

definition MX_QUADSPI_Init :: "'h mmio \<Rightarrow> 'h qworld \<Rightarrow> 'h qworld option" where
  "MX_QUADSPI_Init io w =
    (let w1 = w\<lparr>hq := (hq w)\<lparr>Instance := QUADSPI_BASE,
               Init := \<lparr>ClockPrescaler = 1, FifoThreshold = 32,
                        SampleShifting = QSPI_SAMPLE_SHIFTING_HALFCYCLE, FlashSize = 22,
                        ChipSelectHighTime = QSPI_CS_HIGH_TIME_1_CYCLE, ClockMode = QSPI_CLOCK_MODE_3,
                        FlashID = QSPI_FLASH_ID_1, DualFlash = QSPI_DUALFLASH_DISABLE\<rparr>\<rparr>\<rparr>
     in map_option snd (HAL_QSPI_Init io (HAL_QSPI_MspInit io) HQSPI w1))"

section \<open>Commands\<close>

text \<open>The assignments every function makes: instruction on one line, no alternate bytes, no DDR.\<close>

definition s_command :: "locals \<Rightarrow> u32 \<Rightarrow> QSPI_CommandTypeDef" where
  "s_command l instr = (junk l)\<lparr>InstructionMode := QSPI_INSTRUCTION_1_LINE,
     AlternateByteMode := QSPI_ALTERNATE_BYTES_NONE, DdrMode := QSPI_DDR_MODE_DISABLE,
     DdrHoldHalfCycle := QSPI_DDR_HHC_ANALOG_DELAY, SIOOMode := QSPI_SIOO_INST_EVERY_CMD,
     Instruction := instr\<rparr>"

definition QSPI_W25Qxx_AutoPollingMemReady :: "'h mmio \<Rightarrow> locals \<Rightarrow> 'h qworld \<Rightarrow> 'h drv_result" where
  "QSPI_W25Qxx_AutoPollingMemReady io l w =
    (let cmd = (s_command l W25Qxx_CMD_ReadStatus_REG1)\<lparr>AddressMode := QSPI_ADDRESS_NONE,
                 DataMode := QSPI_DATA_1_LINE, DummyCycles := 0\<rparr>;
         cfg = \<lparr>Match = 0, Mask = W25Qxx_Status_REG1_BUSY, Interval = 0x10, StatusBytesSize = 1,
                MatchMode = QSPI_MATCH_MODE_AND, AutomaticStop = QSPI_AUTOMATIC_STOP_ENABLE\<rparr>
     in check (HAL_QSPI_AutoPolling io cmd cfg HAL_QPSI_TIMEOUT_DEFAULT_VALUE w) HAL_OK
          W25Qxx_ERROR_AUTOPOLLING (\<lambda>w. Some (QSPI_W25Qxx_OK, w)))"

definition QSPI_W25Qxx_Reset :: "'h mmio \<Rightarrow> locals \<Rightarrow> 'h qworld \<Rightarrow> 'h drv_result" where
  "QSPI_W25Qxx_Reset io l w =
    (let cmd = (s_command l W25Qxx_CMD_EnableReset)\<lparr>AddressMode := QSPI_ADDRESS_NONE,
                 DataMode := QSPI_DATA_NONE, DummyCycles := 0\<rparr> in
     check (HAL_QSPI_Command io cmd HAL_QPSI_TIMEOUT_DEFAULT_VALUE w) HAL_OK W25Qxx_ERROR_INIT
       (\<lambda>w. check (QSPI_W25Qxx_AutoPollingMemReady io l w) QSPI_W25Qxx_OK W25Qxx_ERROR_AUTOPOLLING
       (\<lambda>w. check (HAL_QSPI_Command io (cmd\<lparr>Instruction := W25Qxx_CMD_ResetDevice\<rparr>)
              HAL_QPSI_TIMEOUT_DEFAULT_VALUE w) HAL_OK W25Qxx_ERROR_INIT
       (\<lambda>w. check (QSPI_W25Qxx_AutoPollingMemReady io l w) QSPI_W25Qxx_OK W25Qxx_ERROR_AUTOPOLLING
       (\<lambda>w. Some (QSPI_W25Qxx_OK, w))))))"

text \<open>The results of the command and of the reception are ignored.\<close>

definition QSPI_W25Qxx_ReadID :: "'h mmio \<Rightarrow> locals \<Rightarrow> 'h qworld \<Rightarrow> (u32 \<times> 'h qworld) option" where
  "QSPI_W25Qxx_ReadID io l w =
    (let cmd = (s_command l W25Qxx_CMD_JedecID)\<lparr>AddressSize := QSPI_ADDRESS_24_BITS,
                 AddressMode := QSPI_ADDRESS_NONE, DataMode := QSPI_DATA_1_LINE, DummyCycles := 0,
                 NbData := 3\<rparr> in
     do {
       (_, w1) \<leftarrow> HAL_QSPI_Command io cmd HAL_QPSI_TIMEOUT_DEFAULT_VALUE w;
       (_, w2) \<leftarrow> HAL_QSPI_Receive io (id_buf l) HAL_QPSI_TIMEOUT_DEFAULT_VALUE w1;
       let b = (\<lambda>i. ucast (mem w2 (id_buf l + i)) :: u32);
       Some (push_bit 16 (b 0) OR push_bit 8 (b 1) OR b 2, w2)
     })"

definition QSPI_W25Qxx_Init :: "'h mmio \<Rightarrow> locals \<Rightarrow> 'h qworld \<Rightarrow> 'h drv_result" where
  "QSPI_W25Qxx_Init io l w = do {
     w1 \<leftarrow> MX_QUADSPI_Init io w;
     (_, w2) \<leftarrow> QSPI_W25Qxx_Reset io l w1;
     (Device_ID, w3) \<leftarrow> QSPI_W25Qxx_ReadID io l w2;
     Some (if Device_ID = W25Qxx_FLASH_ID then QSPI_W25Qxx_OK else W25Qxx_ERROR_INIT, w3)
   }"

definition QSPI_W25Qxx_MemoryMappedMode :: "'h mmio \<Rightarrow> locals \<Rightarrow> 'h qworld \<Rightarrow> 'h drv_result" where
  "QSPI_W25Qxx_MemoryMappedMode io l w =
    (let cmd = (s_command l W25Qxx_CMD_FastReadQuad_IO)\<lparr>AddressSize := QSPI_ADDRESS_24_BITS,
                 AddressMode := QSPI_ADDRESS_4_LINES, DataMode := QSPI_DATA_4_LINES, DummyCycles := 6\<rparr>;
         cfg = \<lparr>TimeOutPeriod = 0, TimeOutActivation = QSPI_TIMEOUT_COUNTER_DISABLE\<rparr> in
     do {
       (_, w1) \<leftarrow> QSPI_W25Qxx_Reset io l w;
       check (HAL_QSPI_MemoryMapped io cmd cfg w1) HAL_OK W25Qxx_ERROR_MemoryMapped
         (\<lambda>w. Some (QSPI_W25Qxx_OK, w))
     })"

definition QSPI_W25Qxx_WriteEnable :: "'h mmio \<Rightarrow> locals \<Rightarrow> 'h qworld \<Rightarrow> 'h drv_result" where
  "QSPI_W25Qxx_WriteEnable io l w =
    (let cmd = (s_command l W25Qxx_CMD_WriteEnable)\<lparr>AddressMode := QSPI_ADDRESS_NONE,
                 DataMode := QSPI_DATA_NONE, DummyCycles := 0\<rparr>;
         cfg = \<lparr>Match = 0x02, Mask = W25Qxx_Status_REG1_WEL, Interval = 0x10, StatusBytesSize = 1,
                MatchMode = QSPI_MATCH_MODE_AND, AutomaticStop = QSPI_AUTOMATIC_STOP_ENABLE\<rparr>
     in
     check (HAL_QSPI_Command io cmd HAL_QPSI_TIMEOUT_DEFAULT_VALUE w) HAL_OK W25Qxx_ERROR_WriteEnable
       (\<lambda>w. check (HAL_QSPI_AutoPolling io (cmd\<lparr>Instruction := W25Qxx_CMD_ReadStatus_REG1,
                      DataMode := QSPI_DATA_1_LINE, NbData := 1\<rparr>) cfg HAL_QPSI_TIMEOUT_DEFAULT_VALUE w)
              HAL_OK W25Qxx_ERROR_AUTOPOLLING
       (\<lambda>w. Some (QSPI_W25Qxx_OK, w))))"

section \<open>Erasing\<close>

text \<open>The body shared by the sector and block erase functions, which differ in the instruction.\<close>

definition erase_at :: "'h mmio \<Rightarrow> locals \<Rightarrow> u32 \<Rightarrow> u32 \<Rightarrow> 'h qworld \<Rightarrow> 'h drv_result" where
  "erase_at io l instr SectorAddress w =
    (let cmd = (s_command l instr)\<lparr>AddressSize := QSPI_ADDRESS_24_BITS,
                 AddressMode := QSPI_ADDRESS_1_LINE, DataMode := QSPI_DATA_NONE, DummyCycles := 0,
                 Address := SectorAddress\<rparr> in
     check (QSPI_W25Qxx_WriteEnable io l w) QSPI_W25Qxx_OK W25Qxx_ERROR_WriteEnable
       (\<lambda>w. check (HAL_QSPI_Command io cmd HAL_QPSI_TIMEOUT_DEFAULT_VALUE w) HAL_OK W25Qxx_ERROR_Erase
       (\<lambda>w. check (QSPI_W25Qxx_AutoPollingMemReady io l w) QSPI_W25Qxx_OK W25Qxx_ERROR_AUTOPOLLING
       (\<lambda>w. Some (QSPI_W25Qxx_OK, w)))))"

definition QSPI_W25Qxx_SectorErase :: "'h mmio \<Rightarrow> locals \<Rightarrow> u32 \<Rightarrow> 'h qworld \<Rightarrow> 'h drv_result" where
  "QSPI_W25Qxx_SectorErase io l SectorAddress w = erase_at io l W25Qxx_CMD_SectorErase SectorAddress w"

definition QSPI_W25Qxx_BlockErase_32K :: "'h mmio \<Rightarrow> locals \<Rightarrow> u32 \<Rightarrow> 'h qworld \<Rightarrow> 'h drv_result" where
  "QSPI_W25Qxx_BlockErase_32K io l SectorAddress w = erase_at io l W25Qxx_CMD_BlockErase_32K SectorAddress w"

definition QSPI_W25Qxx_BlockErase_64K :: "'h mmio \<Rightarrow> locals \<Rightarrow> u32 \<Rightarrow> 'h qworld \<Rightarrow> 'h drv_result" where
  "QSPI_W25Qxx_BlockErase_64K io l SectorAddress w = erase_at io l W25Qxx_CMD_BlockErase_64K SectorAddress w"

definition QSPI_W25Qxx_ChipErase :: "'h mmio \<Rightarrow> locals \<Rightarrow> 'h qworld \<Rightarrow> 'h drv_result" where
  "QSPI_W25Qxx_ChipErase io l w =
    (let cmd = (s_command l W25Qxx_CMD_ChipErase)\<lparr>AddressSize := QSPI_ADDRESS_24_BITS,
                 AddressMode := QSPI_ADDRESS_NONE, DataMode := QSPI_DATA_NONE, DummyCycles := 0\<rparr>;
         cfg = \<lparr>Match = 0, Mask = W25Qxx_Status_REG1_BUSY, Interval = 0x10, StatusBytesSize = 1,
                MatchMode = QSPI_MATCH_MODE_AND, AutomaticStop = QSPI_AUTOMATIC_STOP_ENABLE\<rparr>
     in
     check (QSPI_W25Qxx_WriteEnable io l w) QSPI_W25Qxx_OK W25Qxx_ERROR_WriteEnable
       (\<lambda>w. check (HAL_QSPI_Command io cmd HAL_QPSI_TIMEOUT_DEFAULT_VALUE w) HAL_OK W25Qxx_ERROR_Erase
       (\<lambda>w. check (HAL_QSPI_AutoPolling io (cmd\<lparr>Instruction := W25Qxx_CMD_ReadStatus_REG1,
                      DataMode := QSPI_DATA_1_LINE, NbData := 1\<rparr>) cfg W25Qxx_ChipErase_TIMEOUT_MAX w)
              HAL_OK W25Qxx_ERROR_AUTOPOLLING
       (\<lambda>w. Some (QSPI_W25Qxx_OK, w)))))"

section \<open>Writing and reading\<close>

text \<open>\<open>NumByteToWrite\<close> is a \<open>uint16_t\<close>.\<close>

definition QSPI_W25Qxx_WritePage :: "'h mmio \<Rightarrow> locals \<Rightarrow> u32 \<Rightarrow> u32 \<Rightarrow> u16 \<Rightarrow> 'h qworld \<Rightarrow> 'h drv_result" where
  "QSPI_W25Qxx_WritePage io l pBuffer WriteAddr NumByteToWrite w =
    (let cmd = (s_command l W25Qxx_CMD_QuadInputPageProgram)\<lparr>AddressSize := QSPI_ADDRESS_24_BITS,
                 AddressMode := QSPI_ADDRESS_1_LINE, DataMode := QSPI_DATA_4_LINES, DummyCycles := 0,
                 NbData := ucast NumByteToWrite, Address := WriteAddr\<rparr> in
     check (QSPI_W25Qxx_WriteEnable io l w) QSPI_W25Qxx_OK W25Qxx_ERROR_WriteEnable
       (\<lambda>w. check (HAL_QSPI_Command io cmd HAL_QPSI_TIMEOUT_DEFAULT_VALUE w) HAL_OK W25Qxx_ERROR_TRANSMIT
       (\<lambda>w. check (HAL_QSPI_Transmit io pBuffer HAL_QPSI_TIMEOUT_DEFAULT_VALUE w) HAL_OK W25Qxx_ERROR_TRANSMIT
       (\<lambda>w. check (QSPI_W25Qxx_AutoPollingMemReady io l w) QSPI_W25Qxx_OK W25Qxx_ERROR_AUTOPOLLING
       (\<lambda>w. Some (QSPI_W25Qxx_OK, w))))))"

text \<open>The do-while loop; the call of \<open>WritePage\<close> converts the size to 16 bits.\<close>

partial_function (option) write_loop ::
  "'h mmio \<Rightarrow> locals \<Rightarrow> u32 \<Rightarrow> u32 \<Rightarrow> u32 \<Rightarrow> u32 \<Rightarrow> 'h qworld \<Rightarrow> 'h drv_result" where
  "write_loop io l end_addr write_data current_addr current_size w = do {
     (r, w1) \<leftarrow> QSPI_W25Qxx_WritePage io l write_data current_addr (ucast current_size) w;
     if r \<noteq> QSPI_W25Qxx_OK then Some (W25Qxx_ERROR_TRANSMIT, w1)
     else
       (let addr = current_addr + current_size;
            data = write_data + current_size;
            size = (if addr + W25Qxx_PageSize > end_addr then end_addr - addr else W25Qxx_PageSize)
        in if addr < end_addr then write_loop io l end_addr data addr size w1
           else Some (QSPI_W25Qxx_OK, w1))
   }"

declare write_loop.simps [code]

definition QSPI_W25Qxx_WriteBuffer :: "'h mmio \<Rightarrow> locals \<Rightarrow> u32 \<Rightarrow> u32 \<Rightarrow> u32 \<Rightarrow> 'h qworld \<Rightarrow> 'h drv_result" where
  "QSPI_W25Qxx_WriteBuffer io l pBuffer WriteAddr Size w =
    (let s = W25Qxx_PageSize - (WriteAddr mod W25Qxx_PageSize);
         current_size = (if s > Size then Size else s)
     in write_loop io l (WriteAddr + Size) pBuffer WriteAddr current_size w)"

definition QSPI_W25Qxx_ReadBuffer :: "'h mmio \<Rightarrow> locals \<Rightarrow> u32 \<Rightarrow> u32 \<Rightarrow> u32 \<Rightarrow> 'h qworld \<Rightarrow> 'h drv_result" where
  "QSPI_W25Qxx_ReadBuffer io l pBuffer ReadAddr NumByteToRead w =
    (let cmd = (s_command l W25Qxx_CMD_FastReadQuad_IO)\<lparr>AddressSize := QSPI_ADDRESS_24_BITS,
                 AddressMode := QSPI_ADDRESS_4_LINES, DataMode := QSPI_DATA_4_LINES, DummyCycles := 6,
                 NbData := NumByteToRead, Address := ReadAddr\<rparr> in
     check (HAL_QSPI_Command io cmd HAL_QPSI_TIMEOUT_DEFAULT_VALUE w) HAL_OK W25Qxx_ERROR_TRANSMIT
       (\<lambda>w. check (HAL_QSPI_Receive io pBuffer HAL_QPSI_TIMEOUT_DEFAULT_VALUE w) HAL_OK W25Qxx_ERROR_TRANSMIT
       (\<lambda>w. check (QSPI_W25Qxx_AutoPollingMemReady io l w) QSPI_W25Qxx_OK W25Qxx_ERROR_AUTOPOLLING
       (\<lambda>w. Some (QSPI_W25Qxx_OK, w)))))"

end
