(* ===== verification/W25qxx.thy ===== *)
theory W25qxx
  imports W25qxx_Defs
begin

text \<open>
  The flash driver on top of the QUADSPI driver: every flash operation inherits the contract of
  the operations it is made of, and the traffic of a successful operation is the concatenation of
  the traffic of its steps.
\<close>

section \<open>The board hook\<close>

lemmas gpio_step = reg_only_comp [OF reg_only_GPIO_Init]
lemmas clk_step = reg_only_comp [OF reg_only_CLK]

lemma reg_only_MspInit:
  "reg_only io (\<lambda>w. HAL_GPIO_Init io p1 c1 (HAL_GPIO_Init io p2 c2 (HAL_GPIO_Init io p3 c3
     (HAL_GPIO_Init io p4 c4 (HAL_GPIO_Init io p5 c5 (HAL_GPIO_Init io p6 c6
     (GPIO_CLK_ENABLE io a (GPIO_CLK_ENABLE io b (GPIO_CLK_ENABLE io c (GPIO_CLK_ENABLE io d
     (GPIO_CLK_ENABLE io e (GPIO_CLK_ENABLE io f (RCC_CLK_ENABLE io r v w)))))))))))))"
  unfolding GPIO_CLK_ENABLE_def by (rule gpio_step)+ ((rule clk_step)+, rule reg_only_id)

interpretation msp: board_hook io "HAL_QSPI_MspInit io" for io :: "'h mmio"
proof
  fix w :: "'h qworld"
  show "\<exists>h tr. HAL_QSPI_MspInit io w = w\<lparr>hw := h\<rparr> \<and> bus io (hw w) tr h"
  proof (cases "Instance (hq w) = QUADSPI_BASE")
    case True
    then show ?thesis
      using reg_only_MspInit [of io] unfolding HAL_QSPI_MspInit_def Let_def reg_only_def by simp
  next
    case False
    then show ?thesis using reg_only_id [of io]
      unfolding HAL_QSPI_MspInit_def reg_only_def by simp
  qed
qed

section \<open>Guarded flash operations\<close>

text \<open>Operations that release the lock, whatever they return.\<close>

definition releasing :: "('h qworld \<Rightarrow> ('s \<times> 'h qworld) option) \<Rightarrow> bool" where
  "releasing op \<longleftrightarrow> (\<forall>w s w'. op w = Some (s, w') \<longrightarrow> unlocked w \<longrightarrow> unlocked w')"

lemma guarded_releasing: "guarded io op ok \<Longrightarrow> releasing op"
  by (auto simp: releasing_def dest: guarded.releases)

lemma releasing_done: "releasing (\<lambda>w. Some (r, w))"
  by (simp add: releasing_def)

lemma releasing_check:
  "releasing op \<Longrightarrow> releasing k \<Longrightarrow> releasing (\<lambda>w. check (op w) ok err k)"
  by (fastforce simp: releasing_def elim: check_Some)

lemma guarded_chain:
  "guarded io op ok \<Longrightarrow> err \<noteq> 0 \<Longrightarrow> releasing k \<Longrightarrow> guarded io (\<lambda>w. check (op w) ok err k) 0"
  by (rule guarded_check) (auto simp: releasing_def)

lemmas hal_guarded = command.guarded_axioms polling.guarded_axioms memmap.guarded_axioms
  transmit.guarded_axioms receive.guarded_axioms

lemmas hal_releasing = hal_guarded [THEN guarded_releasing]

interpretation mem_ready: guarded io "QSPI_W25Qxx_AutoPollingMemReady io l" 0 for io l
  unfolding QSPI_W25Qxx_AutoPollingMemReady_def Let_def
  by (intro guarded_chain hal_guarded releasing_done) simp

interpretation reset: guarded io "QSPI_W25Qxx_Reset io l" 0 for io l
  unfolding QSPI_W25Qxx_Reset_def Let_def
  by (intro guarded_chain releasing_check releasing_done hal_guarded hal_releasing
      mem_ready.guarded_axioms [THEN guarded_releasing]) simp

interpretation write_enable: guarded io "QSPI_W25Qxx_WriteEnable io l" 0 for io l
  unfolding QSPI_W25Qxx_WriteEnable_def Let_def
  by (intro guarded_chain releasing_check releasing_done hal_guarded hal_releasing) simp

lemmas drv_releasing = hal_releasing mem_ready.guarded_axioms [THEN guarded_releasing]
  reset.guarded_axioms [THEN guarded_releasing] write_enable.guarded_axioms [THEN guarded_releasing]

interpretation erase: guarded io "erase_at io l instr a" 0 for io l instr a
  unfolding erase_at_def Let_def
  by (intro guarded_chain releasing_check releasing_done write_enable.guarded_axioms drv_releasing) simp

interpretation chip_erase: guarded io "QSPI_W25Qxx_ChipErase io l" 0 for io l
  unfolding QSPI_W25Qxx_ChipErase_def Let_def
  by (intro guarded_chain releasing_check releasing_done write_enable.guarded_axioms drv_releasing) simp

interpretation write_page: guarded io "QSPI_W25Qxx_WritePage io l p a n" 0 for io l p a n
  unfolding QSPI_W25Qxx_WritePage_def Let_def
  by (intro guarded_chain releasing_check releasing_done write_enable.guarded_axioms drv_releasing) simp

interpretation read_buffer: guarded io "QSPI_W25Qxx_ReadBuffer io l p a n" 0 for io l p a n
  unfolding QSPI_W25Qxx_ReadBuffer_def Let_def
  by (intro guarded_chain releasing_check releasing_done hal_guarded drv_releasing) simp

lemma refused_trans:
  assumes "refused io w w1" "refused io w1 w2"
  shows "refused io w w2"
proof -
  from assms(1) obtain h1 where 1: "w1 = w\<lparr>hw := h1\<rparr>" "bus io (hw w) [] h1" by (auto simp: refused_def)
  from assms(2) obtain h2 where 2: "w2 = w1\<lparr>hw := h2\<rparr>" "bus io (hw w1) [] h2" by (auto simp: refused_def)
  from 1 2 have "w2 = w\<lparr>hw := h2\<rparr>" by simp
  moreover from 1 2 have "bus io (hw w) [] h2" by (auto intro: bus_append_quiet)
  ultimately show ?thesis unfolding refused_def by blast
qed

text \<open>Two steps in sequence of which the first result is ignored.\<close>

lemma guarded_seq:
  fixes io :: "'h mmio" and op1 :: "'h qworld \<Rightarrow> ('s \<times> 'h qworld) option"
    and op2 :: "'h qworld \<Rightarrow> ('t \<times> 'h qworld) option"
  assumes g1: "guarded io op1 ok1" and g2: "guarded io op2 ok2"
  shows "guarded io (\<lambda>w. do { (_, w1) \<leftarrow> op1 w; op2 w1 }) ok2"
proof
  fix w :: "'h qworld" assume w: "unlocked w" "\<not> ready w"
  from guarded.refuses [OF g1 w] obtain s1 w1 where 1: "op1 w = Some (s1, w1)" "refused io w w1" by blast
  then have "unlocked w1" "\<not> ready w1" using w by (auto simp: refused_def)
  from guarded.refuses [OF g2 this] obtain s2 w2 where
    2: "op2 w1 = Some (s2, w2)" "s2 \<noteq> ok2" "refused io w1 w2" by blast
  from 1(2) 2(3) have "refused io w w2" by (rule refused_trans)
  with 1 2 show "\<exists>s w'. (do { (_, w1) \<leftarrow> op1 w; op2 w1 }) = Some (s, w') \<and> s \<noteq> ok2 \<and> refused io w w'"
    by simp
next
  fix w w' :: "'h qworld" and s assume "(do { (_, w1) \<leftarrow> op1 w; op2 w1 }) = Some (s, w')" "unlocked w"
  then show "unlocked w'"
    by (auto simp: bind_Some_iff dest!: guarded.releases [OF g1] intro: guarded.releases [OF g2])
qed

interpretation memory_mapped: guarded io "QSPI_W25Qxx_MemoryMappedMode io l" 0 for io l
  unfolding QSPI_W25Qxx_MemoryMappedMode_def Let_def
  by (rule guarded_seq [OF reset.guarded_axioms guarded_chain [OF memmap.guarded_axioms _ releasing_done]])
    simp

lemma write_loop_releases:
  assumes "write_loop io l e d a n w = Some r"
  shows "unlocked w \<longrightarrow> unlocked (snd r)"
proof (rule write_loop.raw_induct [OF _ assms, where P = "\<lambda>io l e d a n w r. unlocked w \<longrightarrow> unlocked (snd r)"],
    goal_cases)
  case (1 loop io l e d a n w r)
  from 1(2) obtain s w1 where page: "QSPI_W25Qxx_WritePage io l d a (ucast n) w = Some (s, w1)"
    by (auto simp: bind_Some_iff)
  with 1 write_page.releases [OF page] show ?case
    by (auto simp: Let_def split: if_splits)
qed

interpretation write_buffer: guarded io "QSPI_W25Qxx_WriteBuffer io l p a n" 0 for io :: "'h mmio" and l p a n
proof
  fix w :: "'h qworld" assume w: "unlocked w" "\<not> ready w"
  then show "\<exists>s w'. QSPI_W25Qxx_WriteBuffer io l p a n w = Some (s, w') \<and> s \<noteq> 0 \<and> refused io w w'"
    using write_page.refuses [OF w, of io l p a]
    by (subst QSPI_W25Qxx_WriteBuffer_def, subst Let_def, subst Let_def, subst write_loop.simps)
      (fastforce simp: bind_Some_iff)
next
  fix w w' :: "'h qworld" and s
  assume "QSPI_W25Qxx_WriteBuffer io l p a n w = Some (s, w')" "unlocked w"
  then show "unlocked w'"
    using write_loop_releases by (fastforce simp: QSPI_W25Qxx_WriteBuffer_def Let_def)
qed

end
