(* ===== verification/W25qxx_Traffic.thy ===== *)
theory W25qxx_Traffic
  imports W25qxx
begin

text \<open>
  What a successful flash operation puts on the bus, as literal register values. The values do
  not depend on the uninitialised fields of the command structures.
\<close>

section \<open>Successful steps\<close>

text \<open>\<open>did io w tr w'\<close>: from \<open>w\<close> to \<open>w'\<close> by the traffic \<open>tr\<close>, with the
  handle ready, unlocked and configured as before.\<close>

definition did :: "'h mmio \<Rightarrow> 'h qworld \<Rightarrow> bus_event list \<Rightarrow> 'h qworld \<Rightarrow> bool" where
  "did io w tr w' \<longleftrightarrow> bus io (hw w) tr (hw w') \<and> xfer_frame (hq w) (hq w')"

lemma did_trans:
  assumes "did io w a w1" "did io w1 b w2"
  shows "did io w (a @ b) w2"
  using assms bus_trans [of io "hw w1" b "hw w2" "hw w" a]
  by (simp add: did_def xfer_frame_def)

lemma did_ready: "did io w tr w' \<Longrightarrow> unlocked w' \<and> ready w'"
  by (simp add: did_def xfer_frame_def)

lemma check_OK:
  assumes "check (op w) ok err k = Some (0, w')" and "err \<noteq> 0"
  obtains w1 where "op w = Some (ok, w1)" "k w1 = Some (0, w')"
  using assms by (auto elim!: check_Some)

lemma Command_OK:
  assumes "HAL_QSPI_Command io cmd t w = Some (HAL_OK, w')" "unlocked w" "ready w"
  shows "did io w (command_trace cmd) w' \<and> mem w' = mem w"
  using Command_ready [OF assms(2,3,1)] assms(2,3)
  by (auto simp: command_result_def did_def xfer_frame_def)

lemma AutoPolling_OK:
  assumes "HAL_QSPI_AutoPolling io cmd cfg t w = Some (HAL_OK, w')" "unlocked w" "ready w"
  shows "\<exists>c. did io w (polling_trace cmd cfg c @ [W FCR QSPI_FLAG_SM]) w' \<and> mem w' = mem w"
  using AutoPolling_ready [OF assms(2,3,1)] assms(2,3)
  by (auto simp: polling_result_def did_def xfer_frame_def)

text \<open>
  The documented behaviour of the communication registers that the transfers rely on: after the
  register writes of a command the data-length, configuration and address registers read back
  what was written.
\<close>

definition command_latched :: "'h mmio \<Rightarrow> bool" where
  "command_latched io \<longleftrightarrow> (\<forall>cmd h h'. bus io h (command_trace cmd) h' \<longrightarrow>
     DataMode cmd \<noteq> QSPI_DATA_NONE \<longrightarrow> InstructionMode cmd \<noteq> QSPI_INSTRUCTION_NONE \<longrightarrow>
     fst (io_rd io DLR h') = NbData cmd - 1 \<and>
     fst (io_rd io CCR h') = ccr_word cmd QSPI_FUNCTIONAL_MODE_INDIRECT_WRITE \<and>
     (AddressMode cmd \<noteq> QSPI_ADDRESS_NONE \<longrightarrow> fst (io_rd io AR h') = Address cmd))"

lemma Transmit_OK:
  assumes "HAL_QSPI_Transmit io p t w = Some (HAL_OK, w')" "command_latched io" "p \<noteq> 0"
    and "did io w0 (command_trace cmd) w"
    and "DataMode cmd \<noteq> QSPI_DATA_NONE" "InstructionMode cmd \<noteq> QSPI_INSTRUCTION_NONE"
  shows "did io w (W CCR (ccr_word cmd QSPI_FUNCTIONAL_MODE_INDIRECT_WRITE AND NOT QUADSPI_CCR_FMODE) #
      map W8 (bytes_at (mem w) p (unat (NbData cmd))) @ [W FCR QSPI_FLAG_TC]) w' \<and> mem w' = mem w"
proof -
  have b: "bus io (hw w0) (command_trace cmd) (hw w)" using assms(4) by (simp add: did_def)
  let ?h0 = "snd (io_tick io (hw w))"
  let ?h2 = "snd (io_rd io DLR (snd (io_rd io DLR ?h0)))"
  have "bus io (hw w0) (command_trace cmd) ?h0" "bus io (hw w0) (command_trace cmd) ?h2"
    by (intro bus.intros b)+
  with assms(2,5,6) have "fst (io_rd io DLR ?h0) = NbData cmd - 1"
    "fst (io_rd io CCR ?h2) = ccr_word cmd QSPI_FUNCTIONAL_MODE_INDIRECT_WRITE"
    by (auto simp: command_latched_def)
  with Transmit_ready [OF _ _ assms(1)] did_ready [OF assms(4)] assms(3) show ?thesis
    by (auto simp: transmit_result_def did_def Let_def)
qed

lemma Receive_OK:
  assumes "HAL_QSPI_Receive io p t w = Some (HAL_OK, w')" "command_latched io" "p \<noteq> 0"
    and "did io w0 (command_trace cmd) w"
    and "DataMode cmd \<noteq> QSPI_DATA_NONE" "InstructionMode cmd \<noteq> QSPI_INSTRUCTION_NONE"
  shows "\<exists>bs ar. length bs = unat (NbData cmd) \<and> mem w' = store_bytes (mem w) p bs \<and>
    (AddressMode cmd \<noteq> QSPI_ADDRESS_NONE \<longrightarrow> ar = Address cmd) \<and>
    did io w ([W CCR ((ccr_word cmd QSPI_FUNCTIONAL_MODE_INDIRECT_WRITE AND NOT QUADSPI_CCR_FMODE) OR
        QSPI_FUNCTIONAL_MODE_INDIRECT_READ), W AR ar] @ map R8 bs @ [W FCR QSPI_FLAG_TC]) w'"
proof -
  have b: "bus io (hw w0) (command_trace cmd) (hw w)" using assms(4) by (simp add: did_def)
  let ?h1 = "snd (io_tick io (hw w))"
  let ?h2 = "snd (io_rd io AR ?h1)"
  let ?h3 = "snd (io_rd io DLR (snd (io_rd io DLR ?h2)))"
  have "bus io (hw w0) (command_trace cmd) ?h1" "bus io (hw w0) (command_trace cmd) ?h2"
    "bus io (hw w0) (command_trace cmd) ?h3"
    by (intro bus.intros b)+
  with assms(2,5,6) have "fst (io_rd io DLR ?h2) = NbData cmd - 1"
    "fst (io_rd io CCR ?h3) = ccr_word cmd QSPI_FUNCTIONAL_MODE_INDIRECT_WRITE"
    "AddressMode cmd \<noteq> QSPI_ADDRESS_NONE \<longrightarrow> fst (io_rd io AR ?h1) = Address cmd"
    by (auto simp: command_latched_def)
  with Receive_ready [OF _ _ assms(1)] did_ready [OF assms(4)] assms(3) show ?thesis
    by (fastforce simp: receive_result_def did_def Let_def)
qed

section \<open>The traffic of the flash operations\<close>

definition poll_trace :: "u32 \<Rightarrow> u32 \<Rightarrow> u32 \<Rightarrow> bus_event list" where
  "poll_trace mt mk c = [W PSMAR mt, W PSMKR mk, W PIR 0x10,
     W CR ((c AND NOT 0x00C00000) OR 0x00400000), W DLR 0, W CCR 0x09000105, W FCR 0x08]"

definition we_trace :: "u32 \<Rightarrow> bus_event list" where
  "we_trace c = [W CCR 0x00000106, W FCR 0x02] @ poll_trace 2 2 c"

definition reset_trace :: "u32 \<Rightarrow> u32 \<Rightarrow> bus_event list" where
  "reset_trace c d = [W CCR 0x00000166, W FCR 0x02] @ poll_trace 0 1 c @
     [W CCR 0x00000199, W FCR 0x02] @ poll_trace 0 1 d"

definition erase_trace :: "u32 \<Rightarrow> u32 \<Rightarrow> u32 \<Rightarrow> u32 \<Rightarrow> bus_event list" where
  "erase_trace instr a c d = we_trace c @
     [W CCR (0x00002500 OR instr), W AR a, W FCR 0x02] @ poll_trace 0 1 d"

definition chip_erase_trace :: "u32 \<Rightarrow> u32 \<Rightarrow> bus_event list" where
  "chip_erase_trace c d = we_trace c @ [W CCR 0x000001C7, W FCR 0x02] @ poll_trace 0 1 d"

definition program_trace :: "u32 \<Rightarrow> u8 list \<Rightarrow> u32 \<Rightarrow> u32 \<Rightarrow> bus_event list" where
  "program_trace a bs c d = we_trace c @
     [W DLR (of_nat (length bs) - 1), W CCR 0x03002532, W AR a] @
     [W CCR 0x03002532] @ map W8 bs @ [W FCR 0x02] @ poll_trace 0 1 d"

definition read_trace :: "u32 \<Rightarrow> u8 list \<Rightarrow> u32 \<Rightarrow> bus_event list" where
  "read_trace a bs c =
     [W DLR (of_nat (length bs) - 1), W CCR 0x03182DEB, W AR a] @
     [W CCR 0x07182DEB, W AR a] @ map R8 bs @ [W FCR 0x02] @ poll_trace 0 1 c"

definition id_trace :: "u32 \<Rightarrow> u8 list \<Rightarrow> bus_event list" where
  "id_trace ar bs = [W DLR 2, W CCR 0x0100019F, W CCR 0x0500019F, W AR ar] @ map R8 bs @ [W FCR 0x02]"

definition memmap_mode_trace :: "u32 \<Rightarrow> bus_event list" where
  "memmap_mode_trace c = [W CR (c AND NOT 0x08), W CCR 0x0F182DEB]"

lemmas trace_defs = config_trace_def command_trace_def ccr_word_def ccr_base_def polling_trace_def
  s_command_def poll_trace_def

lemma MemReady_OK:
  assumes "QSPI_W25Qxx_AutoPollingMemReady io l w = Some (0, w')" "unlocked w" "ready w"
  shows "\<exists>c. did io w (poll_trace 0 1 c) w' \<and> mem w' = mem w"
proof -
  from assms(1) obtain cmd cfg where "HAL_QSPI_AutoPolling io cmd cfg 5000 w = Some (HAL_OK, w')"
    and "\<And>c. polling_trace cmd cfg c @ [W FCR QSPI_FLAG_SM] = poll_trace 0 1 c"
    unfolding QSPI_W25Qxx_AutoPollingMemReady_def Let_def
    by (elim check_OK) (auto simp: trace_defs)
  with AutoPolling_OK [OF _ assms(2,3)] show ?thesis by metis
qed

lemma WriteEnable_OK:
  assumes "QSPI_W25Qxx_WriteEnable io l w = Some (0, w')" "unlocked w" "ready w"
  shows "\<exists>c. did io w (we_trace c) w' \<and> mem w' = mem w"
proof -
  from assms(1) obtain cmd cmd' cfg w1 where
    1: "HAL_QSPI_Command io cmd 5000 w = Some (HAL_OK, w1)" "command_trace cmd = [W CCR 0x106, W FCR 2]" and
    2: "HAL_QSPI_AutoPolling io cmd' cfg 5000 w1 = Some (HAL_OK, w')"
      "\<And>c. polling_trace cmd' cfg c @ [W FCR QSPI_FLAG_SM] = poll_trace 2 2 c"
    unfolding QSPI_W25Qxx_WriteEnable_def Let_def
    by (elim check_OK) (auto simp: trace_defs)
  from Command_OK [OF 1(1) assms(2,3)] have d1: "did io w [W CCR 0x106, W FCR 2] w1" "mem w1 = mem w"
    by (simp_all add: 1(2))
  from AutoPolling_OK [OF 2(1)] did_ready [OF d1(1)] 2(2) obtain c where
    "did io w1 (poll_trace 2 2 c) w'" "mem w' = mem w1" by metis
  with did_trans [OF d1(1)] d1(2) show ?thesis by (auto simp: we_trace_def)
qed

text \<open>Steps appended to what was done before.\<close>

lemma then_command:
  assumes "did io w a w1" "HAL_QSPI_Command io cmd t w1 = Some (HAL_OK, w2)"
  shows "did io w (a @ command_trace cmd) w2 \<and> mem w2 = mem w1"
  using Command_OK [OF assms(2)] did_ready [OF assms(1)] did_trans [OF assms(1)] by blast

lemma then_mem_ready:
  assumes "did io w a w1" "QSPI_W25Qxx_AutoPollingMemReady io l w1 = Some (0, w2)"
  shows "\<exists>c. did io w (a @ poll_trace 0 1 c) w2 \<and> mem w2 = mem w1"
  using MemReady_OK [OF assms(2)] did_ready [OF assms(1)] did_trans [OF assms(1)] by blast

lemma Reset_OK:
  assumes "QSPI_W25Qxx_Reset io l w = Some (0, w')" "unlocked w" "ready w"
  shows "\<exists>c d. did io w (reset_trace c d) w' \<and> mem w' = mem w"
proof -
  from assms(1) obtain cmd cmd' w1 w2 w3 where
    1: "HAL_QSPI_Command io cmd 5000 w = Some (HAL_OK, w1)" "command_trace cmd = [W CCR 0x166, W FCR 2]" and
    2: "QSPI_W25Qxx_AutoPollingMemReady io l w1 = Some (0, w2)" and
    3: "HAL_QSPI_Command io cmd' 5000 w2 = Some (HAL_OK, w3)" "command_trace cmd' = [W CCR 0x199, W FCR 2]" and
    4: "QSPI_W25Qxx_AutoPollingMemReady io l w3 = Some (0, w')"
    unfolding QSPI_W25Qxx_Reset_def Let_def by (elim check_OK) (auto simp: trace_defs)
  note d1 = Command_OK [OF 1(1) assms(2,3)]
  from then_mem_ready [OF _ 2] d1 obtain c where
    d2: "did io w (command_trace cmd @ poll_trace 0 1 c) w2" "mem w2 = mem w" by metis
  note d3 = then_command [OF d2(1) 3(1)]
  from then_mem_ready [OF _ 4] d3 d2(2) obtain d where
    "did io w (((command_trace cmd @ poll_trace 0 1 c) @ command_trace cmd') @ poll_trace 0 1 d) w'"
    "mem w' = mem w" by metis
  then show ?thesis unfolding 1(2) 3(2) by (auto simp: reset_trace_def)
qed

lemma erase_OK:
  assumes "erase_at io l instr a w = Some (0, w')" "unlocked w" "ready w"
  shows "\<exists>c d. did io w (erase_trace instr a c d) w' \<and> mem w' = mem w"
proof -
  from assms(1) obtain cmd w1 w2 where
    1: "QSPI_W25Qxx_WriteEnable io l w = Some (0, w1)" and
    2: "HAL_QSPI_Command io cmd 5000 w1 = Some (HAL_OK, w2)"
      "command_trace cmd = [W CCR (0x2500 OR instr), W AR a, W FCR 2]" and
    3: "QSPI_W25Qxx_AutoPollingMemReady io l w2 = Some (0, w')"
    unfolding erase_at_def Let_def
    by (elim check_OK) (auto simp: trace_defs or.commute or.left_commute)
  from WriteEnable_OK [OF 1 assms(2,3)] obtain c where d1: "did io w (we_trace c) w1" "mem w1 = mem w" by blast
  note d2 = then_command [OF d1(1) 2(1)]
  from then_mem_ready [OF _ 3] d2 d1(2) obtain d where
    "did io w ((we_trace c @ command_trace cmd) @ poll_trace 0 1 d) w'" "mem w' = mem w" by metis
  then show ?thesis unfolding 2(2) by (auto simp: erase_trace_def)
qed

lemma ChipErase_OK:
  assumes "QSPI_W25Qxx_ChipErase io l w = Some (0, w')" "unlocked w" "ready w"
  shows "\<exists>c d. did io w (chip_erase_trace c d) w' \<and> mem w' = mem w"
proof -
  from assms(1) obtain cmd cmd' cfg w1 w2 where
    1: "QSPI_W25Qxx_WriteEnable io l w = Some (0, w1)" and
    2: "HAL_QSPI_Command io cmd 5000 w1 = Some (HAL_OK, w2)"
      "command_trace cmd = [W CCR 0x1C7, W FCR 2]" and
    3: "HAL_QSPI_AutoPolling io cmd' cfg 100000 w2 = Some (HAL_OK, w')"
      "\<And>c. polling_trace cmd' cfg c @ [W FCR QSPI_FLAG_SM] = poll_trace 0 1 c"
    unfolding QSPI_W25Qxx_ChipErase_def Let_def
    by (elim check_OK) (auto simp: trace_defs)
  from WriteEnable_OK [OF 1 assms(2,3)] obtain c where d1: "did io w (we_trace c) w1" "mem w1 = mem w" by blast
  note d2 = then_command [OF d1(1) 2(1)]
  from AutoPolling_OK [OF 3(1)] did_ready [of io w] d2 3(2) obtain d where
    "did io w2 (poll_trace 0 1 d) w'" "mem w' = mem w2" by metis
  with d1(2) d2 did_trans [of io w _ w2] show ?thesis
    unfolding 2(2) by (fastforce simp: chip_erase_trace_def)
qed

lemma WritePage_OK:
  assumes "QSPI_W25Qxx_WritePage io l p a n w = Some (0, w')" "unlocked w" "ready w"
    and "command_latched io" "p \<noteq> 0"
  shows "\<exists>c d. did io w (program_trace a (bytes_at (mem w) p (unat n)) c d) w' \<and> mem w' = mem w"
proof -
  from assms(1) obtain cmd w1 w2 w3 where
    1: "QSPI_W25Qxx_WriteEnable io l w = Some (0, w1)" and
    2: "HAL_QSPI_Command io cmd 5000 w1 = Some (HAL_OK, w2)"
      "command_trace cmd = [W DLR (ucast n - 1), W CCR 0x03002532, W AR a]"
      "ccr_word cmd 0 = 0x03002532" "DataMode cmd \<noteq> 0" "InstructionMode cmd \<noteq> 0" "NbData cmd = ucast n" and
    3: "HAL_QSPI_Transmit io p 5000 w2 = Some (HAL_OK, w3)" and
    4: "QSPI_W25Qxx_AutoPollingMemReady io l w3 = Some (0, w')"
    unfolding QSPI_W25Qxx_WritePage_def Let_def
    by (elim check_OK) (auto simp: trace_defs)
  have n': "(of_nat (unat n) :: u32) = ucast n" by simp
  from WriteEnable_OK [OF 1 assms(2,3)] obtain c where d1: "did io w (we_trace c) w1" "mem w1 = mem w" by blast
  note d2 = then_command [OF d1(1) 2(1)]
  have "did io w1 (command_trace cmd) w2" using Command_OK [OF 2(1)] did_ready [OF d1(1)] by blast
  from Transmit_OK [OF 3 assms(4,5) this 2(4,5)] have
    d3: "did io w2 ([W CCR 0x03002532] @ map W8 (bytes_at (mem w) p (unat n)) @ [W FCR 2]) w3" "mem w3 = mem w"
    using d1(2) d2 by (simp_all add: 2(3,6))
  from then_mem_ready [OF did_trans [OF _ d3(1)] 4] d2 d3(2) obtain d where
    "did io w (((we_trace c @ command_trace cmd) @
       [W CCR 0x03002532] @ map W8 (bytes_at (mem w) p (unat n)) @ [W FCR 2]) @ poll_trace 0 1 d) w'"
    "mem w' = mem w" by metis
  then show ?thesis unfolding 2(2) by (auto simp: program_trace_def n')
qed

lemma ReadBuffer_OK:
  assumes "QSPI_W25Qxx_ReadBuffer io l p a n w = Some (0, w')" "unlocked w" "ready w"
    and "command_latched io" "p \<noteq> 0"
  shows "\<exists>bs c. length bs = unat n \<and> mem w' = store_bytes (mem w) p bs \<and> did io w (read_trace a bs c) w'"
proof -
  from assms(1) obtain cmd w1 w2 where
    1: "HAL_QSPI_Command io cmd 5000 w = Some (HAL_OK, w1)"
      "command_trace cmd = [W DLR (n - 1), W CCR 0x03182DEB, W AR a]"
      "ccr_word cmd 0 = 0x03182DEB" "DataMode cmd \<noteq> 0" "InstructionMode cmd \<noteq> 0"
      "AddressMode cmd \<noteq> 0" "Address cmd = a" "NbData cmd = n" and
    2: "HAL_QSPI_Receive io p 5000 w1 = Some (HAL_OK, w2)" and
    3: "QSPI_W25Qxx_AutoPollingMemReady io l w2 = Some (0, w')"
    unfolding QSPI_W25Qxx_ReadBuffer_def Let_def
    by (elim check_OK) (auto simp: trace_defs)
  note d1 = Command_OK [OF 1(1) assms(2,3)]
  from Receive_OK [OF 2 assms(4,5) conjunct1 [OF d1] 1(4,5)] d1 obtain bs where
    d2: "length bs = unat n" "mem w2 = store_bytes (mem w) p bs"
      "did io w1 ([W CCR 0x07182DEB, W AR a] @ map R8 bs @ [W FCR 2]) w2"
    by (auto simp: 1(3,6,7,8))
  from then_mem_ready [OF did_trans [OF conjunct1 [OF d1] d2(3)] 3] d2(2) obtain c where
    "did io w ((command_trace cmd @ [W CCR 0x07182DEB, W AR a] @ map R8 bs @ [W FCR 2]) @ poll_trace 0 1 c) w'"
    "mem w' = store_bytes (mem w) p bs" by metis
  with d2(1) show ?thesis unfolding 1(2) by (intro exI [of _ bs]) (auto simp: read_trace_def)
qed

text \<open>
  A command or a polling that fails leaves the handle in the error state, so a failed reset can
  not be followed by a successful switch to memory-mapped mode.
\<close>

lemma Command_fails:
  assumes "HAL_QSPI_Command io cmd t w = Some (s, w')" "s \<noteq> HAL_OK" "unlocked w" "ready w"
  shows "State (hq w') = HAL_QSPI_STATE_ERROR"
  using Command_ready [OF assms(3,4,1)] assms(2) by (auto simp: command_result_def)

lemma AutoPolling_fails:
  assumes "HAL_QSPI_AutoPolling io cmd cfg t w = Some (s, w')" "s \<noteq> HAL_OK" "unlocked w" "ready w"
  shows "State (hq w') = HAL_QSPI_STATE_ERROR"
  using AutoPolling_ready [OF assms(3,4,1)] assms(2) by (auto simp: polling_result_def)

lemma MemReady_fails:
  assumes "QSPI_W25Qxx_AutoPollingMemReady io l w = Some (s, w')" "s \<noteq> 0" "unlocked w" "ready w"
  shows "State (hq w') = HAL_QSPI_STATE_ERROR"
  using assms unfolding QSPI_W25Qxx_AutoPollingMemReady_def Let_def
  by (auto elim!: check_Some dest: AutoPolling_fails)

lemma Reset_fails:
  assumes "QSPI_W25Qxx_Reset io l w = Some (s, w')" "s \<noteq> 0" "unlocked w" "ready w"
  shows "State (hq w') = HAL_QSPI_STATE_ERROR"
proof -
  have *: "unlocked w2 \<and> ready w2" if "HAL_QSPI_Command io cmd 5000 w1 = Some (HAL_OK, w2)" "unlocked w1" "ready w1"
    for cmd w1 w2 using Command_OK [OF that] did_ready by blast
  have **: "unlocked w2 \<and> ready w2" if "QSPI_W25Qxx_AutoPollingMemReady io l w1 = Some (0, w2)" "unlocked w1" "ready w1"
    for w1 w2 using MemReady_OK [OF that] did_ready by blast
  from assms show ?thesis
    unfolding QSPI_W25Qxx_Reset_def Let_def
    by (elim check_Some) (auto dest: * ** Command_fails MemReady_fails)
qed

lemma MemoryMappedMode_OK:
  assumes "QSPI_W25Qxx_MemoryMappedMode io l w = Some (0, w')" "unlocked w" "ready w"
  shows "mem w' = mem w \<and> unlocked w' \<and> State (hq w') = HAL_QSPI_STATE_BUSY_MEM_MAPPED \<and>
    (\<exists>b c d. bus io (hw w) (reset_trace b c @ memmap_mode_trace d) (hw w'))"
proof -
  let ?cmd = "(s_command l W25Qxx_CMD_FastReadQuad_IO)\<lparr>AddressSize := QSPI_ADDRESS_24_BITS,
    AddressMode := QSPI_ADDRESS_4_LINES, DataMode := QSPI_DATA_4_LINES, DummyCycles := 6\<rparr>"
  let ?cfg = "\<lparr>TimeOutPeriod = 0, TimeOutActivation = QSPI_TIMEOUT_COUNTER_DISABLE\<rparr>"
  from assms(1) obtain s w1 where
    1: "QSPI_W25Qxx_Reset io l w = Some (s, w1)" and
    c: "check (HAL_QSPI_MemoryMapped io ?cmd ?cfg w1) HAL_OK (-6) (\<lambda>w. Some (0, w)) = Some (0, w')"
    unfolding QSPI_W25Qxx_MemoryMappedMode_def Let_def by (auto simp: bind_Some_iff)
  from c have 2: "HAL_QSPI_MemoryMapped io ?cmd ?cfg w1 = Some (HAL_OK, w')" by (elim check_OK) auto
  have t: "memmap_trace ?cmd ?cfg c d = memmap_mode_trace c" for c d
    by (simp add: memmap_trace_def memmap_mode_trace_def trace_defs)
  have u: "unlocked w1" using reset.releases [OF 1 assms(2)] .
  have r: "ready w1" using memmap.ok_needs_ready [OF 2 u] .
  have "s = 0" using Reset_fails [OF 1 _ assms(2,3)] r by auto
  with 1 Reset_OK [OF _ assms(2,3)] obtain a b where
    d1: "did io w (reset_trace a b) w1" "mem w1 = mem w" by blast
  from MemoryMapped_ready [OF u r 2] obtain c where "bus io (hw w1) (memmap_mode_trace c) (hw w')"
    "mem w' = mem w1" "unlocked w'" "State (hq w') = HAL_QSPI_STATE_BUSY_MEM_MAPPED"
    using u by (auto simp: memmap_result_def t)
  with d1 show ?thesis by (auto simp: did_def intro: bus_trans)
qed

text \<open>Reading the identification: results are ignored, so nothing is known after a failure.\<close>

lemma ReadID_OK:
  assumes "QSPI_W25Qxx_ReadID io l w = Some (d, w')" "unlocked w" "ready w"
    and "command_latched io" "id_buf l \<noteq> 0"
    and ready: "ready w'" and no_error: "ErrorCode (hq w') = 0"
  shows "\<exists>b0 b1 b2 ar. d = push_bit 16 (ucast b0) OR push_bit 8 (ucast b1) OR ucast b2 \<and>
    mem w' = store_bytes (mem w) (id_buf l) [b0, b1, b2] \<and> did io w (id_trace ar [b0, b1, b2]) w'"
proof -
  let ?cmd = "(s_command l W25Qxx_CMD_JedecID)\<lparr>AddressSize := QSPI_ADDRESS_24_BITS,
    AddressMode := QSPI_ADDRESS_NONE, DataMode := QSPI_DATA_1_LINE, DummyCycles := 0, NbData := 3\<rparr>"
  from assms(1) obtain s1 w1 s2 where
    1: "HAL_QSPI_Command io ?cmd 5000 w = Some (s1, w1)" and
    2: "HAL_QSPI_Receive io (id_buf l) 5000 w1 = Some (s2, w')" and
    d: "d = push_bit 16 (ucast (mem w' (id_buf l))) OR push_bit 8 (ucast (mem w' (id_buf l + 1))) OR
            ucast (mem w' (id_buf l + 2))"
    unfolding QSPI_W25Qxx_ReadID_def Let_def by (auto simp: bind_Some_iff)
  have u: "unlocked w1" using command.releases [OF 1 assms(2)] .
  have r: "ready w1" using receive.refuses [OF u, of io "id_buf l" 5000] 2 ready
    by (cases "ready w1") (auto simp: refused_def)
  have "s1 = HAL_OK" using Command_fails [OF 1 _ assms(2,3)] r by auto
  then have d1: "did io w (command_trace ?cmd) w1" "mem w1 = mem w" using Command_OK [OF _ assms(2,3)] 1 by auto
  have "s2 = HAL_OK" using Receive_ready [OF u r 2] no_error assms(5)
    by (auto simp: receive_result_def Let_def)
  with 2 have rcv: "HAL_QSPI_Receive io (id_buf l) 5000 w1 = Some (HAL_OK, w')" by simp
  from Receive_OK [OF rcv assms(4,5) d1(1)] obtain bs ar where
    bs: "length bs = 3" "mem w' = store_bytes (mem w) (id_buf l) bs"
      "did io w1 ([W CCR 0x0500019F, W AR ar] @ map R8 bs @ [W FCR 2]) w'"
    by (auto simp: trace_defs d1(2))
  then obtain b0 b1 b2 where b: "bs = [b0, b1, b2]" by (auto simp: length_Suc_conv numeral_3_eq_3)
  have "mem w' (id_buf l) = b0" "mem w' (id_buf l + 1) = b1" "mem w' (id_buf l + 2) = b2"
    using store_bytes_nth [of 0 bs "mem w" "id_buf l"] store_bytes_nth [of 1 bs "mem w" "id_buf l"]
      store_bytes_nth [of 2 bs "mem w" "id_buf l"] bs(2) b by simp_all
  moreover have "did io w (id_trace ar bs) w'"
    using did_trans [OF d1(1) bs(3)] by (simp add: id_trace_def trace_defs)
  ultimately show ?thesis using bs(2) d b by blast
qed

end
