(* ===== verification/W25qxx_Pages.thy ===== *)
theory W25qxx_Pages
  imports W25qxx_Traffic
begin

text \<open>
  The page splitting of \<open>QSPI_W25Qxx_WriteBuffer\<close>. The specification cuts the data at the
  256-byte page boundaries of the flash; the loop, which works on 32-bit addresses, issues
  exactly one page program per piece.
\<close>

section \<open>Cutting at page boundaries\<close>

function page_chunks :: "nat \<Rightarrow> u8 list \<Rightarrow> (nat \<times> u8 list) list" where
  "page_chunks a bs =
    (if bs = [] then []
     else let k = min (256 - a mod 256) (length bs)
          in (a, take k bs) # page_chunks (a + k) (drop k bs))"
  by pat_completeness auto
termination
proof (relation "measure (\<lambda>(a, bs). length bs)")
  show "wf (measure (\<lambda>(a, bs). length bs))" by simp
next
  fix a k and bs :: "u8 list"
  assume "bs \<noteq> []" "k = min (256 - a mod 256) (length bs)"
  moreover have "a mod 256 < 256" by simp
  ultimately show "((a + k, drop k bs), a, bs) \<in> measure (\<lambda>(a, bs). length bs)" by simp
qed

declare page_chunks.simps [simp del]

lemma page_chunks_Nil [simp]: "page_chunks a [] = []"
  by (simp add: page_chunks.simps)

text \<open>The pieces are the data, in order.\<close>

lemma page_chunks_data: "concat (map snd (page_chunks a bs)) = bs"
proof (induction a bs rule: page_chunks.induct)
  case (1 a bs)
  then show ?case by (cases "bs = []") (simp_all add: page_chunks.simps [of a bs] Let_def)
qed

text \<open>No piece is empty, and none crosses a page boundary.\<close>

lemma page_chunks_in_page:
  "(b, cs) \<in> set (page_chunks a bs) \<Longrightarrow> cs \<noteq> [] \<and> b mod 256 + length cs \<le> 256"
proof (induction a bs rule: page_chunks.induct)
  case (1 a bs)
  let ?k = "min (256 - a mod 256) (length bs)"
  show ?case
  proof (cases "bs = []")
    case True
    with "1.prems" show ?thesis by simp
  next
    case False
    with "1.prems" have "(b, cs) = (a, take ?k bs) \<or> (b, cs) \<in> set (page_chunks (a + ?k) (drop ?k bs))"
      by (simp add: page_chunks.simps [of a bs] Let_def)
    moreover have "0 < ?k" using False mod_less_divisor [of 256 a] by simp
    then have "take ?k bs \<noteq> []" "a mod 256 + length (take ?k bs) \<le> 256"
      using False mod_less_divisor [of 256 a] by (auto simp del: min_less_iff_conj)
    ultimately show ?thesis using "1.IH" [OF False refl] by (metis Pair_inject)
  qed
qed

text \<open>Each piece starts where the previous one ended.\<close>

fun contiguous :: "nat \<Rightarrow> (nat \<times> u8 list) list \<Rightarrow> bool" where
  "contiguous a [] \<longleftrightarrow> True"
| "contiguous a ((b, cs) # r) \<longleftrightarrow> b = a \<and> contiguous (a + length cs) r"

lemma page_chunks_contiguous: "contiguous a (page_chunks a bs)"
proof (induction a bs rule: page_chunks.induct)
  case (1 a bs)
  have "length (take (min (256 - a mod 256) (length bs)) bs) = min (256 - a mod 256) (length bs)" by simp
  with 1 show ?case
    by (cases "bs = []") (simp_all add: page_chunks.simps [of a bs] Let_def del: length_take)
qed

section \<open>The write loop\<close>

definition programs :: "bus_event list \<Rightarrow> nat \<times> u8 list \<Rightarrow> bool" where
  "programs tr piece \<longleftrightarrow> (\<exists>c d. tr = program_trace (of_nat (fst piece)) (snd piece) c d)"

lemma page_chunks_bytes:
  assumes "0 < n" and "k = min (256 - a mod 256) n"
  shows "page_chunks a (bytes_at m p n) =
    (a, bytes_at m p k) # page_chunks (a + k) (bytes_at m (p + of_nat k) (n - k))"
proof -
  have "bytes_at m p n = bytes_at m p k @ bytes_at m (p + of_nat k) (n - k)"
    using assms(2) bytes_at_add [of m p k "n - k"] by simp
  moreover from assms(1) have "bytes_at m p n \<noteq> []" by (metis length_bytes_at list.size(3) less_irrefl)
  ultimately show ?thesis
    using assms by (subst page_chunks.simps) (simp add: Let_def)
qed

lemma page_end: "k = min (256 - a mod 256) n \<Longrightarrow> k \<noteq> n \<Longrightarrow> (a + k) mod 256 = 0" for a k n :: nat
proof -
  assume "k = min (256 - a mod 256) n" "k \<noteq> n"
  then have k: "k = 256 - a mod 256" by (auto simp: min_def split: if_splits)
  have "a mod 256 + k = 256" using k mod_less_divisor [of 256 a] by simp
  then show "(a + k) mod 256 = 0" by (metis mod_add_left_eq mod_self)
qed

lemma write_size:
  fixes e a :: u32
  assumes "unat e = unat a + n" and "unat e + 256 < 2 ^ 32" and "unat a mod 256 = 0"
  shows "unat (if a + 256 > e then e - a else 256) = min (256 - unat a mod 256) n"
proof -
  have "unat (a + 256) = unat a + 256" using assms(1,2) by (subst unat_add_u32) simp_all
  moreover have "unat (e - a) = n" using assms(1) by (simp add: unat_sub_if')
  ultimately show ?thesis using assms(1,3) by (simp add: word_less_nat_alt min_def)
qed

lemma next_ptr:
  fixes p s :: u32
  assumes "unat p + n \<le> 2 ^ 32" and "unat s < n" and "p \<noteq> 0"
  shows "p + s \<noteq> 0 \<and> unat (p + s) + (n - unat s) \<le> 2 ^ 32"
proof -
  have "unat (p + s) = unat p + unat s" using assms(1,2) by (intro unat_add_u32) simp
  moreover have "unat p \<noteq> 0" using assms(3) by (simp add: unat_eq_zero)
  ultimately have "unat (p + s) \<noteq> 0" "unat (p + s) + (n - unat s) \<le> 2 ^ 32" using assms(1,2) by simp_all
  then show ?thesis by (simp add: unat_eq_zero)
qed

lemma write_loop_OK:
  assumes "write_loop io l e p a s w = Some (0, w')" "unlocked w" "ready w" "command_latched io"
    and "p \<noteq> 0" "unat p + rem \<le> 2 ^ 32" "0 < rem" "unat e = unat a + rem" "unat e + 256 < 2 ^ 32"
    and "unat s = min (256 - unat a mod 256) rem"
  shows "\<exists>trs. list_all2 programs trs (page_chunks (unat a) (bytes_at (mem w) p rem)) \<and>
    did io w (concat trs) w' \<and> mem w' = mem w"
  using assms
proof (induction rem arbitrary: p a s w rule: less_induct)
  case (less rem)
  define k where "k = unat s"
  have k: "0 < k" "k \<le> 256" "k \<le> rem" "k = min (256 - unat a mod 256) rem"
    using less.prems(7,10) mod_less_divisor [of 256 "unat a"] by (auto simp: k_def)
  have u16: "unat (ucast s :: u16) = k"
    using k(2) by (simp add: k_def unsigned_ucast_eq take_bit_nat_eq_self)
  from less.prems(1) obtain r w1 where
    page: "QSPI_W25Qxx_WritePage io l p a (ucast s) w = Some (r, w1)" and
    rest: "(if r \<noteq> 0 then Some (-5, w1) else
       (let addr = a + s; data = p + s;
            size = (if addr + 256 > e then e - addr else 256)
        in if addr < e then write_loop io l e data addr size w1 else Some (0, w1))) = Some (0, w')"
    by (subst (asm) write_loop.simps) (auto simp: bind_Some_iff)
  have r: "r = 0" using rest by (simp split: if_splits)
  from WritePage_OK [OF page [unfolded r] less.prems(2-5)] obtain c d where
    d1: "did io w (program_trace a (bytes_at (mem w) p k) c d) w1" "mem w1 = mem w"
    unfolding u16 by blast
  have chunks: "page_chunks (unat a) (bytes_at (mem w) p rem) =
      (unat a, bytes_at (mem w) p k) # page_chunks (unat a + k) (bytes_at (mem w) (p + s) (rem - k))"
    using page_chunks_bytes [OF less.prems(7) k(4)] by (simp add: k_def)
  have prog: "programs (program_trace a (bytes_at (mem w) p k) c d) (unat a, bytes_at (mem w) p k)"
    by (auto simp: programs_def)
  have addr: "unat (a + s) = unat a + k"
    using less.prems(8,9) k(3) by (intro unat_add_u32 [of a s, folded k_def]) simp
  show ?case
  proof (cases "k = rem")
    case True
    then have "\<not> a + s < e" using less.prems(8) by (simp add: word_less_nat_alt addr)
    then have "w' = w1" using rest r by simp
    with d1 chunks prog True show ?thesis
      by (intro exI [of _ "[program_trace a (bytes_at (mem w) p k) c d]"]) simp
  next
    case False
    with k have lt: "k < rem" and pg: "(unat a + k) mod 256 = 0"
      using page_end [OF k(4)] by auto
    define size where "size = (if a + s + 256 > e then e - (a + s) else 256)"
    have "write_loop io l e (p + s) (a + s) size w1 = Some (0, w')"
      using rest r lt less.prems(8) by (simp add: word_less_nat_alt addr size_def Let_def)
    moreover have "unat size = min (256 - unat (a + s) mod 256) (rem - k)"
      using write_size [of e "a + s" "rem - k"] less.prems(8,9) lt pg by (simp add: addr size_def)
    moreover have "p + s \<noteq> 0" "unat (p + s) + (rem - k) \<le> 2 ^ 32"
      using next_ptr [of p rem s] less.prems(5,6) lt by (simp_all add: k_def)
    ultimately obtain trs where "list_all2 programs trs (page_chunks (unat (a + s)) (bytes_at (mem w1) (p + s) (rem - k)))"
      "did io w1 (concat trs) w'" "mem w' = mem w1"
      using less.IH [of "rem - k" "p + s" "a + s" size w1] did_ready [OF d1(1)] k(1) lt
        less.prems(4,8,9) addr by auto
    with d1 chunks prog addr did_trans [OF d1(1)] show ?thesis
      by (intro exI [of _ "program_trace a (bytes_at (mem w) p k) c d # trs"]) simp
  qed
qed

lemma WriteBuffer_OK:
  assumes "QSPI_W25Qxx_WriteBuffer io l p a n w = Some (0, w')" "unlocked w" "ready w" "command_latched io"
    and "p \<noteq> 0" "unat p + unat n \<le> 2 ^ 32" "0 < n" "unat a + unat n \<le> 0x800000"
  shows "\<exists>trs. list_all2 programs trs (page_chunks (unat a) (bytes_at (mem w) p (unat n))) \<and>
    did io w (concat trs) w' \<and> mem w' = mem w"
proof -
  let ?s = "256 - (a mod 256)"
  have m: "unat (a mod 256) = unat a mod 256" by (simp add: unat_mod)
  have "unat ?s = 256 - unat a mod 256"
    using m mod_less_divisor [of 256 "unat a"] by (simp add: unat_sub_if')
  then have s: "unat (if ?s > n then n else ?s) = min (256 - unat a mod 256) (unat n)"
    by (simp add: word_less_nat_alt min_def)
  have e: "unat (a + n) = unat a + unat n" using assms(8) by (intro unat_add_u32) simp
  have "0 < unat n" using assms(7) by (simp add: word_less_nat_alt)
  then show ?thesis
    using write_loop_OK [OF assms(1) [unfolded QSPI_W25Qxx_WriteBuffer_def Let_def] assms(2-6) _ e _ s]
      assms(8) e by auto
qed

end
