(* ===== verification/W25qxx_Props.thy ===== *)
theory W25qxx_Props
  imports W25qxx_Pages Hal_Qspi_Props
begin

text \<open>
  The properties of the flash driver, on any hardware whose communication registers read back
  what a command wrote (\<open>command_latched\<close>).
\<close>

section \<open>The latching hypothesis on the recording and on the example hardware\<close>

lemma bus_log_fst: "bus (log_io io) hl tr hl' \<Longrightarrow> bus io (fst hl) tr (fst hl')"
proof (induction rule: bus.induct)
  case (bus_rd8 h tr h1)
  then have "bus io (fst h) (tr @ [R8 (fst (io_rd8 io (fst h1)))]) (snd (io_rd8 io (fst h1)))"
    by (intro bus.bus_rd8)
  then show ?case by (cases h1) (simp add: log_io_def split_def)
next
  case (bus_wr h tr h1 r v)
  from bus.bus_wr [OF bus_wr.IH, of r v] show ?case by (cases h1) (simp add: log_io_def)
next
  case (bus_wr8 h tr h1 b)
  from bus.bus_wr8 [OF bus_wr8.IH, of b] show ?case by (cases h1) (simp add: log_io_def)
next
  case (bus_rd h tr h1 r)
  from bus.bus_rd [OF bus_rd.IH, of r] show ?case by simp
next
  case (bus_tick h tr h1)
  from bus.bus_tick [OF bus_tick.IH] show ?case by simp
qed (rule bus.intros)

lemma command_latched_log: "command_latched io \<Longrightarrow> command_latched (log_io io)"
  unfolding command_latched_def using bus_log_fst [of io]
  by (metis log_io_fst(1))

fun reg_write :: "bus_event \<Rightarrow> (ioreg \<Rightarrow> u32) \<Rightarrow> ioreg \<Rightarrow> u32" where
  "reg_write (W r v) f = f(r := v)"
| "reg_write _ f = f"

lemma bus_demo: "bus (demo_io sr st) h tr h' \<Longrightarrow> regs h' = fold reg_write tr (regs h)"
  by (induction rule: bus.induct) (auto simp: demo_io_def split: list.splits)

lemma command_latched_demo: "command_latched (demo_io sr st)"
  unfolding command_latched_def
proof (intro allI impI)
  fix cmd h h'
  assume b: "bus (demo_io sr st) h (command_trace cmd) h'" and "DataMode cmd \<noteq> QSPI_DATA_NONE"
    "InstructionMode cmd \<noteq> QSPI_INSTRUCTION_NONE"
  then show "fst (io_rd (demo_io sr st) DLR h') = NbData cmd - 1 \<and>
     fst (io_rd (demo_io sr st) CCR h') = ccr_word cmd QSPI_FUNCTIONAL_MODE_INDIRECT_WRITE \<and>
     (AddressMode cmd \<noteq> QSPI_ADDRESS_NONE \<longrightarrow> fst (io_rd (demo_io sr st) AR h') = Address cmd)"
    using bus_demo [OF b] by (simp add: demo_io_def command_trace_def config_trace_def)
qed

definition demo_locals :: locals where
  "demo_locals = \<lparr>junk = read_id_cmd, id_buf = 0x1000\<rparr>"

lemma did_log: "did (log_io io) w tr w' \<Longrightarrow> snd (hw w') = snd (hw w) @ tr \<and> unlocked w' \<and> ready w'"
  by (auto simp: did_def xfer_frame_def dest: bus_log_io)

lemma log_world_ready: "unlocked (log_world bs)" "ready (log_world bs)" "snd (hw (log_world bs)) = []"
  by (simp_all add: log_world_def demo_handle_def)

section \<open>Writing\<close>

text \<open>
  C2. Writing a buffer. When \<open>QSPI_W25Qxx_WriteBuffer\<close> reports success for a buffer within
  the flash, the traffic is a sequence of page programs whose pieces are the buffer in order,
  each starting where the previous one ended and none crossing a 256-byte page boundary. Each
  page program consists of a write enable, the program command, the data and the wait for the
  end of the write; memory is not changed.
\<close>

theorem write_buffer_pages:
  assumes "command_latched io" "unlocked w" "ready w"
    and "QSPI_W25Qxx_WriteBuffer (log_io io) l p a n w = Some (0, w')"
    and "p \<noteq> 0" "unat p + unat n \<le> 2 ^ 32" "0 < n" "unat a + unat n \<le> 0x800000"
    and "bs = bytes_at (mem w) p (unat n)"
  shows "\<exists>pieces trs. list_all2 programs trs pieces \<and> snd (hw w') = snd (hw w) @ concat trs \<and>
     concat (map snd pieces) = bs \<and> contiguous (unat a) pieces \<and>
     (\<forall>(b, cs) \<in> set pieces. cs \<noteq> [] \<and> b mod 256 + length cs \<le> 256) \<and>
     mem w' = mem w \<and> unlocked w' \<and> ready w'"
proof -
  from WriteBuffer_OK [OF assms(4,2,3) command_latched_log [OF assms(1)] assms(5-8)] assms(9)
  obtain trs where d: "list_all2 programs trs (page_chunks (unat a) bs)"
    "did (log_io io) w (concat trs) w'" "mem w' = mem w" by blast
  show ?thesis
    using page_chunks_data [of "unat a" bs] page_chunks_contiguous [of "unat a" bs]
      page_chunks_in_page [of _ _ "unat a" bs] did_log [OF d(2)] d(1,3)
    by (intro exI [of _ "page_chunks (unat a) bs"] exI [of _ trs]) auto
qed

lemma write_buffer_pages_witness:
  "\<exists>w' trs pieces. QSPI_W25Qxx_WriteBuffer (log_io (demo_io SR_DONE 1)) demo_locals 0x20 0xFF 2 (log_world [])
      = Some (0, w') \<and> snd (hw w') = concat trs \<and> list_all2 programs trs pieces \<and>
      concat (map snd pieces) = [0x20, 0x21]"
proof -
  have "map_option fst (QSPI_W25Qxx_WriteBuffer (log_io (demo_io SR_DONE 1)) demo_locals 0x20 0xFF 2 (log_world []))
      = Some 0" by code_simp
  then obtain w' where run: "QSPI_W25Qxx_WriteBuffer (log_io (demo_io SR_DONE 1)) demo_locals 0x20 0xFF 2
      (log_world []) = Some (0, w')" by (rule run_status)
  have b: "[0x20, 0x21] = bytes_at (mem (log_world [])) 0x20 (unat (2 :: u32))" by code_simp
  from write_buffer_pages [OF command_latched_demo log_world_ready(1,2) run _ _ _ _ b] run
  show ?thesis by (fastforce simp: log_world_ready(3))
qed

section \<open>Erasing and reading\<close>

text \<open>
  Erasing. A sector or block erase that reports success has sent a write enable, waited for
  the write-enable latch, sent the erase instruction of its size with the address, and waited for
  the busy bit to clear; a chip erase the same without an address. Nothing else is sent.
\<close>

theorem erase_traffic:
  assumes "unlocked w" "ready w"
    and "(op, instr) \<in> {(QSPI_W25Qxx_SectorErase (log_io io) l a, 0x20),
       (QSPI_W25Qxx_BlockErase_32K (log_io io) l a, 0x52), (QSPI_W25Qxx_BlockErase_64K (log_io io) l a, 0xD8)}"
    and "op w = Some (0, w')"
  shows "\<exists>c d. snd (hw w') = snd (hw w) @ erase_trace instr a c d \<and> mem w' = mem w \<and> unlocked w' \<and> ready w'"
proof -
  from assms(3,4) have "erase_at (log_io io) l instr a w = Some (0, w')"
    by (auto simp: QSPI_W25Qxx_SectorErase_def QSPI_W25Qxx_BlockErase_32K_def QSPI_W25Qxx_BlockErase_64K_def)
  from erase_OK [OF this assms(1,2)] did_log show ?thesis by metis
qed

lemma erase_traffic_witness:
  "\<exists>w' c d. QSPI_W25Qxx_SectorErase (log_io (demo_io SR_DONE 1)) demo_locals 0x1000 (log_world []) = Some (0, w') \<and>
     snd (hw w') = erase_trace 0x20 0x1000 c d"
proof -
  have "map_option fst (QSPI_W25Qxx_SectorErase (log_io (demo_io SR_DONE 1)) demo_locals 0x1000 (log_world []))
      = Some 0" by code_simp
  then obtain w' where run: "QSPI_W25Qxx_SectorErase (log_io (demo_io SR_DONE 1)) demo_locals 0x1000 (log_world [])
      = Some (0, w')" by (rule run_status)
  from erase_traffic [where op = "QSPI_W25Qxx_SectorErase (log_io (demo_io SR_DONE 1)) demo_locals 0x1000"
      and instr = "0x20" and io = "demo_io SR_DONE 1" and l = demo_locals and a = "0x1000",
      OF log_world_ready(1,2) _ run] run
  show ?thesis by (auto simp: log_world_ready(3))
qed

text \<open>
  Reading. A read that reports success has sent the fast-read command with the length and
  address, and the bytes received fill the buffer in order; no other byte of memory changes.
\<close>

theorem read_buffer_traffic:
  assumes "command_latched io" "unlocked w" "ready w" "p \<noteq> 0"
    and "QSPI_W25Qxx_ReadBuffer (log_io io) l p a n w = Some (0, w')"
  shows "\<exists>bs c. length bs = unat n \<and> bytes_at (mem w') p (unat n) = bs \<and>
     snd (hw w') = snd (hw w) @ read_trace a bs c \<and> unlocked w' \<and> ready w' \<and>
     (\<forall>x. unat n \<le> unat (x - p) \<longrightarrow> mem w' x = mem w x)"
proof -
  from ReadBuffer_OK [OF assms(5,2,3) command_latched_log [OF assms(1)] assms(4)] obtain bs c where
    bs: "length bs = unat n" "mem w' = store_bytes (mem w) p bs" "did (log_io io) w (read_trace a bs c) w'"
    by blast
  have "length bs \<le> 2 ^ 32" using bs(1) unat_u32_less [of n] by simp
  then have "bytes_at (mem w') p (unat n) = bs" using bytes_at_store_bytes [of bs "mem w" p] bs(1,2) by simp
  moreover have "mem w' x = mem w x" if "unat n \<le> unat (x - p)" for x
    using store_bytes_other [of bs x p "mem w"] that bs(1,2) by simp
  ultimately show ?thesis using bs(1) did_log [OF bs(3)] by blast
qed

lemma read_buffer_traffic_witness:
  "\<exists>w' c. QSPI_W25Qxx_ReadBuffer (log_io (demo_io SR_DONE 1)) demo_locals 0x20 0x100 2 (log_world [0xAA, 0xBB])
      = Some (0, w') \<and> snd (hw w') = read_trace 0x100 [0xAA, 0xBB] c"
proof -
  let ?r = "QSPI_W25Qxx_ReadBuffer (log_io (demo_io SR_DONE 1)) demo_locals 0x20 0x100 2 (log_world [0xAA, 0xBB])"
  have run: "map_option (\<lambda>(s, w). (s, bytes_at (mem w) 0x20 (unat (2 :: u32)))) ?r = Some (0, [0xAA, 0xBB])"
    by code_simp
  then obtain w' where w': "?r = Some (0, w')" "bytes_at (mem w') 0x20 (unat (2 :: u32)) = [0xAA, 0xBB]" by auto
  from read_buffer_traffic [OF command_latched_demo log_world_ready(1,2) _ w'(1)] w' show ?thesis
    by (auto simp: log_world_ready(3))
qed

section \<open>Memory-mapped mode\<close>

text \<open>
  Switching to memory-mapped mode. When the switch reports success, the flash was reset
  successfully, the controller was given the fast-read command in memory-mapped mode without
  timeout counter, and the handle is in the memory-mapped state.
\<close>

theorem memory_mapped_traffic:
  assumes "unlocked w" "ready w"
    and "QSPI_W25Qxx_MemoryMappedMode (log_io io) l w = Some (0, w')"
  shows "mem w' = mem w \<and> unlocked w' \<and> State (hq w') = HAL_QSPI_STATE_BUSY_MEM_MAPPED \<and>
    (\<exists>b c d. snd (hw w') = snd (hw w) @ reset_trace b c @ memmap_mode_trace d)"
  using MemoryMappedMode_OK [OF assms(3,1,2)] by (blast dest: bus_log_io)

lemma memory_mapped_traffic_witness:
  "\<exists>w'. QSPI_W25Qxx_MemoryMappedMode (log_io (demo_io SR_DONE 1)) demo_locals (log_world []) = Some (0, w') \<and>
     State (hq w') = HAL_QSPI_STATE_BUSY_MEM_MAPPED"
proof -
  have "map_option fst (QSPI_W25Qxx_MemoryMappedMode (log_io (demo_io SR_DONE 1)) demo_locals (log_world []))
      = Some 0" by code_simp
  then obtain w' where run: "QSPI_W25Qxx_MemoryMappedMode (log_io (demo_io SR_DONE 1)) demo_locals (log_world [])
      = Some (0, w')" by (rule run_status)
  from memory_mapped_traffic [OF log_world_ready(1,2) run] run show ?thesis by blast
qed

text \<open>
  C18. Protection. In memory-mapped mode, and likewise after a timeout or before initialisation, each
  of eleven functions of the driver reports an error, puts nothing on the bus and leaves handle and memory alone: the
  three block erases, the chip erase, \<open>WritePage\<close>, \<open>WriteBuffer\<close>, \<open>ReadBuffer\<close>,
  \<open>WriteEnable\<close>, \<open>AutoPollingMemReady\<close>, \<open>Reset\<close> and \<open>MemoryMappedMode\<close>. Not covered are
  \<open>QSPI_W25Qxx_Init\<close>, which initialises the controller again and then talks to the flash, and
  \<open>QSPI_W25Qxx_ReadID\<close>, which has no error result.
\<close>

theorem flash_protected:
  assumes "unlocked w" "\<not> ready w"
    and "op \<in> {QSPI_W25Qxx_SectorErase (log_io io) l a, QSPI_W25Qxx_BlockErase_32K (log_io io) l a,
               QSPI_W25Qxx_BlockErase_64K (log_io io) l a, QSPI_W25Qxx_ChipErase (log_io io) l,
               QSPI_W25Qxx_WritePage (log_io io) l p a k, QSPI_W25Qxx_WriteBuffer (log_io io) l p a n,
               QSPI_W25Qxx_ReadBuffer (log_io io) l p a n, QSPI_W25Qxx_WriteEnable (log_io io) l,
               QSPI_W25Qxx_AutoPollingMemReady (log_io io) l, QSPI_W25Qxx_Reset (log_io io) l,
               QSPI_W25Qxx_MemoryMappedMode (log_io io) l}"
  shows "\<exists>s w'. op w = Some (s, w') \<and> s \<noteq> 0 \<and> hq w' = hq w \<and> mem w' = mem w \<and> snd (hw w') = snd (hw w)"
proof -
  have quiet: "hq w' = hq w \<and> mem w' = mem w \<and> snd (hw w') = snd (hw w)" if "refused (log_io io) w w'" for w'
    using that by (auto simp: refused_def dest: bus_log_io)
  note contracts = erase.refuses chip_erase.refuses write_page.refuses write_buffer.refuses
    read_buffer.refuses write_enable.refuses mem_ready.refuses reset.refuses memory_mapped.refuses
  from assms(3) have "\<exists>s w'. op w = Some (s, w') \<and> s \<noteq> 0 \<and> refused (log_io io) w w'"
    by (elim insertE emptyE; simp only: QSPI_W25Qxx_SectorErase_def QSPI_W25Qxx_BlockErase_32K_def
        QSPI_W25Qxx_BlockErase_64K_def) (rule contracts [OF assms(1,2)])+
  with quiet show ?thesis by blast
qed

lemma flash_protected_witness:
  "\<exists>s w'. QSPI_W25Qxx_ChipErase (log_io (demo_io SR_DONE 1)) demo_locals
      (set_State HAL_QSPI_STATE_BUSY_MEM_MAPPED (log_world [])) = Some (s, w') \<and> s \<noteq> 0 \<and> snd (hw w') = []"
proof -
  let ?w = "set_State HAL_QSPI_STATE_BUSY_MEM_MAPPED (log_world [])"
  have "unlocked ?w" "\<not> ready ?w" "snd (hw ?w) = []" by code_simp+
  with flash_protected [of ?w "QSPI_W25Qxx_ChipErase (log_io (demo_io SR_DONE 1)) demo_locals"
      "demo_io SR_DONE 1" demo_locals] show ?thesis by auto
qed

section \<open>Initialisation\<close>

text \<open>The three bytes can be read off the assembled identification.\<close>

lemma id_bytes:
  fixes b0 b1 b2 :: u8
  assumes "d = (push_bit 16 (ucast b0) OR push_bit 8 (ucast b1) OR ucast b2 :: u32)"
  shows "ucast (drop_bit 16 d) = b0" "ucast (drop_bit 8 d) = b1" "ucast d = b2"
  unfolding assms
  by (rule bit_word_eqI; simp add: bit_simps; auto dest: bit_imp_le_length)+

lemma ReadID_refused:
  assumes "QSPI_W25Qxx_ReadID io l w = Some (d, w')" "unlocked w" "\<not> ready w"
  shows "refused io w w'"
proof -
  from assms(1) obtain cmd s1 w1 s2 where
    1: "HAL_QSPI_Command io cmd 5000 w = Some (s1, w1)" and
    2: "HAL_QSPI_Receive io (id_buf l) 5000 w1 = Some (s2, w')"
    unfolding QSPI_W25Qxx_ReadID_def Let_def by (auto simp: bind_Some_iff)
  from command.refuses [OF assms(2,3), of io cmd 5000] 1 have r1: "refused io w w1" by auto
  with assms(2,3) have "unlocked w1" "\<not> ready w1" by (auto simp: refused_def)
  from receive.refuses [OF this, of io "id_buf l" 5000] 2 have "refused io w1 w'" by auto
  with r1 show ?thesis by (rule refused_trans)
qed

lemma MX_unlocked:
  assumes "MX_QUADSPI_Init io w = Some w'" "unlocked w"
  shows "unlocked w'"
proof -
  from assms(1) obtain s w0 where
    run: "HAL_QSPI_Init io (HAL_QSPI_MspInit io) HQSPI w0 = Some (s, w')" "unlocked w0"
    unfolding MX_QUADSPI_Init_def Let_def using assms(2) by auto
  then show ?thesis by (cases rule: msp.Init_cases) (use run(2) in \<open>auto simp: init_handle_def\<close>)
qed

text \<open>
  Identification. If the initialisation of the flash ends with a ready handle and no error,
  its last traffic is the identification command with three bytes received, and it reports
  success exactly when these are EF 40 17, the identification of the W25Q64; otherwise it reports
  \<open>W25Qxx_ERROR_INIT\<close>.
\<close>

theorem flash_init_checks_id:
  assumes "command_latched io" "unlocked w" "id_buf l \<noteq> 0"
    and "QSPI_W25Qxx_Init (log_io io) l w = Some (r, w')"
    and "ready w'" "ErrorCode (hq w') = 0"
  shows "\<exists>pre ar bs. snd (hw w') = pre @ id_trace ar bs \<and> length bs = 3 \<and>
     r = (if bs = [0xEF, 0x40, 0x17] then 0 else -1)"
proof -
  from assms(4) obtain w1 s w2 d where
    1: "MX_QUADSPI_Init (log_io io) w = Some w1" and
    2: "QSPI_W25Qxx_Reset (log_io io) l w1 = Some (s, w2)" and
    3: "QSPI_W25Qxx_ReadID (log_io io) l w2 = Some (d, w')" and
    r: "r = (if d = W25Qxx_FLASH_ID then 0 else -1)"
    unfolding QSPI_W25Qxx_Init_def by (auto simp: bind_Some_iff)
  have u: "unlocked w2" using reset.releases [OF 2 MX_unlocked [OF 1 assms(2)]] .
  have rd: "ready w2" using ReadID_refused [OF 3 u] assms(5) by (cases "ready w2") (auto simp: refused_def)
  from ReadID_OK [OF 3 u rd command_latched_log [OF assms(1)] assms(3,5,6)] obtain b0 b1 b2 ar where
    d: "d = push_bit 16 (ucast b0) OR push_bit 8 (ucast b1) OR ucast b2" and
    t: "did (log_io io) w2 (id_trace ar [b0, b1, b2]) w'" by blast
  have "d = W25Qxx_FLASH_ID \<longleftrightarrow> [b0, b1, b2] = [0xEF, 0x40, 0x17]"
  proof
    assume "d = W25Qxx_FLASH_ID"
    with id_bytes [OF d] show "[b0, b1, b2] = [0xEF, 0x40, 0x17]" by auto
  next
    assume "[b0, b1, b2] = [0xEF, 0x40, 0x17]"
    then show "d = W25Qxx_FLASH_ID" unfolding d by auto
  qed
  with r did_log [OF t] show ?thesis by (intro exI [of _ "snd (hw w2)"] exI [of _ ar] exI [of _ "[b0, b1, b2]"]) auto
qed

definition reset_world :: "u8 list \<Rightarrow> (demo \<times> bus_event list) qworld" where
  "reset_world bs = set_State HAL_QSPI_STATE_RESET (log_world bs)"

lemma flash_init_checks_id_witness:
  "\<exists>w' pre ar bs. QSPI_W25Qxx_Init (log_io (demo_io SR_DONE 1)) demo_locals (reset_world [0xEF, 0x40, 0x17])
      = Some (0, w') \<and> snd (hw w') = pre @ id_trace ar bs"
proof -
  let ?r = "QSPI_W25Qxx_Init (log_io (demo_io SR_DONE 1)) demo_locals (reset_world [0xEF, 0x40, 0x17])"
  have "map_option (\<lambda>(s, w). (s, State (hq w), ErrorCode (hq w))) ?r = Some (0, HAL_QSPI_STATE_READY, 0)"
    by code_simp
  then obtain w' where run: "?r = Some (0, w')" "ready w'" "ErrorCode (hq w') = 0" by auto
  have "unlocked (reset_world [0xEF, 0x40, 0x17])" "id_buf demo_locals \<noteq> 0" by code_simp+
  from flash_init_checks_id [OF command_latched_demo this run] run(1) show ?thesis by blast
qed

text \<open>
  The results of the identification steps are ignored. When the peripheral stays busy, the
  initialisation times out and nothing is ever sent to the flash, but the identification is then
  assembled from whatever the stack buffer holds: with EF 40 17 left there by an earlier call the
  driver reports success.
\<close>

theorem init_trusts_stack:
  "map_option (\<lambda>(r, w). (r, State (hq w), filter (\<lambda>e. case e of W CCR _ \<Rightarrow> True | R8 _ \<Rightarrow> True | _ \<Rightarrow> False) (snd (hw w))))
     (QSPI_W25Qxx_Init (log_io (demo_io SR_STUCK 3000)) demo_locals
       ((reset_world [])\<lparr>mem := store_bytes (\<lambda>a. 0) 0x1000 [0xEF, 0x40, 0x17]\<rparr>))
   = Some (0, HAL_QSPI_STATE_ERROR, [])"
  by code_simp

end
