(* ===== verification/Boot.thy ===== *)
theory Boot
  imports W25qxx_Props
begin

text \<open>
  The boot sequence (\<open>applications/main.c\<close>) and the time functions of
  \<open>drivers/drv_common.c\<close>. Console messages are not modelled.
\<close>

section \<open>Definitions\<close>

abbreviation (input) APPLICATION_ADDRESS :: u32 where "APPLICATION_ADDRESS \<equiv> 0x90000000"
abbreviation (input) RT_TICK_PER_SECOND :: u32 where "RT_TICK_PER_SECOND \<equiv> 1000"

definition LOAD32 :: "'h mmio \<Rightarrow> u32 \<Rightarrow> 'h qworld \<Rightarrow> u32 \<times> 'h qworld" where
  "LOAD32 io a w = (case io_ld io a (hw w) of (v, h) \<Rightarrow> (v, w\<lparr>hw := h\<rparr>))"

text \<open>
  The result is the address \<open>main\<close> jumps to. The results of the flash initialisation and
  of the switch to memory-mapped mode are ignored.
\<close>

definition boot_main :: "'h mmio \<Rightarrow> locals \<Rightarrow> 'h qworld \<Rightarrow> (u32 \<times> 'h qworld) option" where
  "boot_main io l w = do {
     (_, w1) \<leftarrow> QSPI_W25Qxx_Init io l w;
     (_, w2) \<leftarrow> QSPI_W25Qxx_MemoryMappedMode io l w1;
     let w3 = WRITE_REG io SYSTICK_CTRL 0 w2;
     let (JumpToApplication, w4) = LOAD32 io (APPLICATION_ADDRESS + 4) w3;
     let (sp, w5) = LOAD32 io APPLICATION_ADDRESS w4;
     let w6 = WRITE_REG io MSP sp w5;
     Some (JumpToApplication, w6)
   }"

text \<open>\<open>HAL_GetTick\<close>, given the value of \<open>rt_tick_get\<close>: 32-bit arithmetic.\<close>

definition HAL_GetTick :: "u32 \<Rightarrow> u32" where
  "HAL_GetTick rt_tick = rt_tick * 1000 div RT_TICK_PER_SECOND"

partial_function (option) us_delay_loop :: "'h mmio \<Rightarrow> u32 \<Rightarrow> u32 \<Rightarrow> u32 \<Rightarrow> 'h qworld \<Rightarrow> 'h qworld option" where
  "us_delay_loop io start reload limit w =
    (let (now, w1) = READ_REG io SYSTICK_VAL w;
         delta = (if start > now then start - now else reload + start - now)
     in if delta < limit then us_delay_loop io start reload limit w1 else Some w1)"

declare us_delay_loop.simps [code]

definition rt_hw_us_delay :: "'h mmio \<Rightarrow> u32 \<Rightarrow> u32 \<Rightarrow> 'h qworld \<Rightarrow> 'h qworld option" where
  "rt_hw_us_delay io SystemCoreClock us w =
    (let (start, w1) = READ_REG io SYSTICK_VAL w;
         (reload, w2) = READ_REG io SYSTICK_LOAD w1;
         us_tick = SystemCoreClock div 1000000
     in us_delay_loop io start reload (us_tick * us) w2)"

section \<open>States along the boot sequence\<close>

lemma Reset_state:
  assumes "QSPI_W25Qxx_Reset io l w = Some (s, w')" "unlocked w"
    and "State (hq w) \<in> {HAL_QSPI_STATE_READY, HAL_QSPI_STATE_ERROR}"
  shows "State (hq w') \<in> {HAL_QSPI_STATE_READY, HAL_QSPI_STATE_ERROR}"
proof (cases "ready w")
  case True
  with Reset_OK [OF _ assms(2)] Reset_fails [OF assms(1) _ assms(2)] assms(1) did_ready [of io w _ w']
  show ?thesis by (cases "s = 0") auto
next
  case False
  with reset.refuses [OF assms(2) False, of io l] assms(1,3) show ?thesis by (auto simp: refused_def)
qed

lemma ReadID_state:
  assumes "QSPI_W25Qxx_ReadID io l w = Some (d, w')" "unlocked w"
    and "State (hq w) \<in> {HAL_QSPI_STATE_READY, HAL_QSPI_STATE_ERROR}"
  shows "unlocked w' \<and> State (hq w') \<in> {HAL_QSPI_STATE_READY, HAL_QSPI_STATE_ERROR}"
proof (cases "ready w")
  case False
  with ReadID_refused [OF assms(1,2) False] assms(2,3) show ?thesis by (auto simp: refused_def)
next
  case True
  from assms(1) obtain cmd s1 w1 s2 where
    1: "HAL_QSPI_Command io cmd 5000 w = Some (s1, w1)" and
    2: "HAL_QSPI_Receive io (id_buf l) 5000 w1 = Some (s2, w')"
    unfolding QSPI_W25Qxx_ReadID_def Let_def by (auto simp: bind_Some_iff)
  note u1 = command.releases [OF 1 assms(2)]
  show ?thesis
  proof (cases "ready w1")
    case True
    with Receive_ready [OF u1 True 2] show ?thesis by (auto simp: receive_result_def xfer_frame_def)
  next
    case False
    with Command_ready [OF assms(2) \<open>ready w\<close> 1] have "State (hq w1) = HAL_QSPI_STATE_ERROR"
      using \<open>ready w\<close> by (auto simp: command_result_def)
    with receive.refuses [OF u1 False, of io "id_buf l" 5000] 2 u1 show ?thesis
      by (auto simp: refused_def)
  qed
qed

lemma MX_state:
  assumes "MX_QUADSPI_Init io w = Some w'" "unlocked w"
  shows "State (hq w') \<in> {HAL_QSPI_STATE_READY, HAL_QSPI_STATE_ERROR}"
proof -
  from assms(1) obtain s w0 where
    run: "HAL_QSPI_Init io (HAL_QSPI_MspInit io) HQSPI w0 = Some (s, w')" "unlocked w0"
    unfolding MX_QUADSPI_Init_def Let_def using assms(2) by auto
  then show ?thesis by (cases rule: msp.Init_cases) auto
qed

lemma Init_state:
  assumes "QSPI_W25Qxx_Init io l w = Some (r, w')" "unlocked w"
  shows "unlocked w' \<and> State (hq w') \<in> {HAL_QSPI_STATE_READY, HAL_QSPI_STATE_ERROR}"
proof -
  from assms(1) obtain w1 s w2 d where
    1: "MX_QUADSPI_Init io w = Some w1" and
    2: "QSPI_W25Qxx_Reset io l w1 = Some (s, w2)" and
    3: "QSPI_W25Qxx_ReadID io l w2 = Some (d, w')"
    unfolding QSPI_W25Qxx_Init_def by (auto simp: bind_Some_iff)
  note u1 = MX_unlocked [OF 1 assms(2)]
  from ReadID_state [OF 3 reset.releases [OF 2 u1] Reset_state [OF 2 u1 MX_state [OF 1 assms(2)]]]
  show ?thesis .
qed

lemma MemoryMappedMode_state:
  assumes "QSPI_W25Qxx_MemoryMappedMode io l w = Some (s, w')" "unlocked w"
    and "State (hq w) \<in> {HAL_QSPI_STATE_READY, HAL_QSPI_STATE_ERROR}"
  shows "unlocked w' \<and> State (hq w') = (if s = 0 then HAL_QSPI_STATE_BUSY_MEM_MAPPED else HAL_QSPI_STATE_ERROR)"
proof (cases "ready w")
  case False
  with memory_mapped.refuses [OF assms(2) False, of io l] assms show ?thesis by (auto simp: refused_def)
next
  case True
  from assms(1) obtain r w1 cmd cfg where
    1: "QSPI_W25Qxx_Reset io l w = Some (r, w1)" and
    c: "check (HAL_QSPI_MemoryMapped io cmd cfg w1) HAL_OK (-6) (\<lambda>w. Some (0, w)) = Some (s, w')"
    unfolding QSPI_W25Qxx_MemoryMappedMode_def Let_def by (auto simp: bind_Some_iff)
  note u1 = reset.releases [OF 1 assms(2)]
  from c obtain t where 2: "HAL_QSPI_MemoryMapped io cmd cfg w1 = Some (t, w')" "s = 0 \<longleftrightarrow> t = HAL_OK"
    by (auto elim!: check_Some)
  show ?thesis
  proof (cases "ready w1")
    case True
    from MemoryMapped_ready [OF u1 True 2(1)] 2(2) u1 show ?thesis by (auto simp: memmap_result_def)
  next
    case False
    with Reset_state [OF 1 assms(2,3)] have "State (hq w1) = HAL_QSPI_STATE_ERROR" by simp
    with memmap.refuses [OF u1 False, of io cmd cfg] 2 u1 show ?thesis by (auto simp: refused_def)
  qed
qed

section \<open>Properties\<close>

text \<open>
  C3. The hand-over to the application. Whenever the boot code gets to the jump, the last thing
  it did is to stop the tick timer and to load the stack pointer from the first word of the
  application; the jump goes to the address in the second word. The driver is then unlocked and
  either in memory-mapped mode, or in the error state: the jump happens in both cases.
\<close>

theorem boot_handover:
  assumes "unlocked w" and "boot_main (log_io io) l w = Some (pc, w')"
  shows "unlocked w' \<and> State (hq w') \<in> {HAL_QSPI_STATE_BUSY_MEM_MAPPED, HAL_QSPI_STATE_ERROR} \<and>
    (\<exists>pre h. let (pc', h1) = io_ld io (APPLICATION_ADDRESS + 4) h; (sp, h2) = io_ld io APPLICATION_ADDRESS h1 in
       pc = pc' \<and> hw w' = (io_wr io MSP sp h2, pre @ [W SYSTICK_CTRL 0, W MSP sp]))"
proof -
  from assms(2) obtain r w1 s w2 where
    1: "QSPI_W25Qxx_Init (log_io io) l w = Some (r, w1)" and
    2: "QSPI_W25Qxx_MemoryMappedMode (log_io io) l w1 = Some (s, w2)" and
    3: "(let w3 = WRITE_REG (log_io io) SYSTICK_CTRL 0 w2;
           (pc, w4) = LOAD32 (log_io io) (APPLICATION_ADDRESS + 4) w3;
           (sp, w5) = LOAD32 (log_io io) APPLICATION_ADDRESS w4
       in Some (pc, WRITE_REG (log_io io) MSP sp w5)) = Some (pc, w')"
    unfolding boot_main_def by (auto simp: bind_Some_iff Let_def split_def)
  from MemoryMappedMode_state [OF 2] Init_state [OF 1 assms(1)]
  have "unlocked w2 \<and> State (hq w2) \<in> {HAL_QSPI_STATE_BUSY_MEM_MAPPED, HAL_QSPI_STATE_ERROR}" by auto
  moreover from 3 have "hq w' = hq w2"
    by (auto simp: WRITE_REG_def LOAD32_def Let_def split: prod.splits)
  moreover from 3 have "\<exists>pre h. let (pc', h1) = io_ld io (APPLICATION_ADDRESS + 4) h;
        (sp, h2) = io_ld io APPLICATION_ADDRESS h1 in
       pc = pc' \<and> hw w' = (io_wr io MSP sp h2, pre @ [W SYSTICK_CTRL 0, W MSP sp])"
    by (cases "hw w2") (auto simp: WRITE_REG_def LOAD32_def log_io_def Let_def split: prod.splits
        intro!: exI [of _ "snd (hw w2)"] exI [of _ "io_wr io SYSTICK_CTRL 0 (fst (hw w2))"])
  ultimately show ?thesis by auto
qed

lemma boot_handover_witness:
  "\<exists>pc w'. boot_main (log_io (demo_io SR_STUCK 3000)) demo_locals (reset_world []) = Some (pc, w') \<and>
     State (hq w') \<in> {HAL_QSPI_STATE_BUSY_MEM_MAPPED, HAL_QSPI_STATE_ERROR}"
proof -
  have "\<not> Option.is_none (boot_main (log_io (demo_io SR_STUCK 3000)) demo_locals (reset_world []))"
    by code_simp
  then obtain pc w' where run: "boot_main (log_io (demo_io SR_STUCK 3000)) demo_locals (reset_world [])
      = Some (pc, w')" by (auto simp: Option.is_none_def)
  have "unlocked (reset_world [])" by code_simp
  from boot_handover [OF this run] run show ?thesis by blast
qed

text \<open>
  The HAL time base. The multiplication by 1000 overflows: the time equals the kernel tick
  only below 4294968, and at that tick it falls back to (almost) zero, so that a wait started one
  tick earlier sees an elapsed time far above any limit.
\<close>

theorem tick_wraps_early:
  "(HAL_GetTick t = t \<longleftrightarrow> t < 4294968) \<and> HAL_GetTick 4294968 - HAL_GetTick 4294967 > 0xFF000000"
proof -
  have "unat (t * 1000) = (unat t * 1000) mod 2 ^ 32"
    by (simp add: unat_word_ariths)
  then have g: "unat (HAL_GetTick t) = (unat t * 1000) mod 2 ^ 32 div 1000"
    by (simp add: HAL_GetTick_def unat_div)
  have "unat (HAL_GetTick t) = unat t \<longleftrightarrow> unat t < 4294968"
  proof
    assume "unat t < 4294968"
    then show "unat (HAL_GetTick t) = unat t" by (simp add: g)
  next
    assume "unat (HAL_GetTick t) = unat t"
    then have "unat t = (unat t * 1000) mod 2 ^ 32 div 1000" using g by simp
    also have "\<dots> \<le> (2 ^ 32 - 1) div 1000"
      by (intro div_le_mono) (simp add: less_Suc_eq_le [symmetric])
    finally show "unat t < 4294968" by simp
  qed
  moreover have "HAL_GetTick 4294968 - HAL_GetTick 4294967 > 0xFF000000"
    by (simp add: HAL_GetTick_def)
  ultimately show ?thesis by (simp add: word_unat_eq_iff word_less_nat_alt)
qed

lemma us_delay_delta:
  fixes start now reload :: u32
  assumes "start \<le> reload" "now \<le> reload" "reload < 2 ^ 24"
  shows "(if start > now then start - now else reload + start - now) \<le> reload"
proof (cases "start > now")
  case True
  then have "start - now \<le> start" by (simp add: word_le_nat_alt unat_sub_if' word_less_nat_alt)
  with assms(1) True show ?thesis by simp
next
  case False
  have lt: "unat start \<le> unat reload" "unat start \<le> unat now" "unat now \<le> unat reload" "unat reload < 2 ^ 24"
    using assms False by (simp_all add: word_le_nat_alt word_less_nat_alt not_less)
  then have "unat (reload + start) = unat reload + unat start" by (intro unat_add_u32) simp
  with lt have "unat (reload + start - now) = unat reload + unat start - unat now" by (simp add: unat_sub_if')
  with lt False show ?thesis by (simp add: word_le_nat_alt)
qed

lemma us_delay_loop_hangs:
  assumes "us_delay_loop io start reload limit w = Some r"
  shows "\<exists>h. \<not> (start \<le> reload \<and> fst (io_rd io SYSTICK_VAL h) \<le> reload \<and> reload < 2 ^ 24 \<and> reload < limit)"
proof (rule us_delay_loop.raw_induct [OF _ assms, where P = "\<lambda>io start reload limit w r.
    \<exists>h. \<not> (start \<le> reload \<and> fst (io_rd io SYSTICK_VAL h) \<le> reload \<and> reload < 2 ^ 24 \<and> reload < limit)"], goal_cases)
  case (1 loop io start reload limit w r)
  let ?now = "fst (io_rd io SYSTICK_VAL (hw w))"
  show ?case
  proof (cases "(if start > ?now then start - ?now else reload + start - ?now) < limit")
    case True
    with 1(2) have "loop io start reload limit (w\<lparr>hw := snd (io_rd io SYSTICK_VAL (hw w))\<rparr>) = Some r"
      by (simp add: READ_REG_eq Let_def)
    from 1(1) [OF this] show ?thesis .
  next
    case False
    then show ?thesis using us_delay_delta [of start reload ?now] by (intro exI [of _ "hw w"]) auto
  qed
qed

text \<open>
  The microsecond delay measures at most one period of the tick counter. A delay longer than
  a period (1 ms, with the counter reloaded every kernel tick) never returns: the elapsed count
  never reaches the requested one.
\<close>

theorem us_delay_hangs:
  assumes "\<And>h. fst (io_rd io SYSTICK_VAL h) \<le> reload" and "\<And>h. fst (io_rd io SYSTICK_LOAD h) = reload"
    and "reload < 2 ^ 24" and "reload < SystemCoreClock div 1000000 * us"
  shows "rt_hw_us_delay io SystemCoreClock us w = None"
proof (rule ccontr)
  assume "rt_hw_us_delay io SystemCoreClock us w \<noteq> None"
  then obtain start w2 r where "us_delay_loop io start reload (SystemCoreClock div 1000000 * us) w2 = Some r"
    "start \<le> reload"
    using assms(1,2) by (auto simp: rt_hw_us_delay_def READ_REG_eq Let_def)
  from us_delay_loop_hangs [OF this(1)] this(2) assms(1,3,4) show False by auto
qed

text \<open>A counter that stands at half of a reload value of 479999, as with a 480 MHz clock.\<close>

definition counter_io :: "demo mmio" where
  "counter_io = (demo_io 0 0)\<lparr>io_rd := (\<lambda>r h. (if r = SYSTICK_LOAD then 479999 else 240000, h))\<rparr>"

lemma us_delay_hangs_witness: "rt_hw_us_delay counter_io 480000000 1000 (demo_world []) = None"
  by (rule us_delay_hangs [where reload = 479999]) (simp_all add: counter_io_def)

text \<open>
  The delay can also be skipped: when the counter still has its starting value at the first
  check, the elapsed count is taken for a whole period and the function returns at once.
\<close>

theorem us_delay_skips:
  assumes "io_rd io SYSTICK_VAL (hw w) = (v, hw w)" and "io_rd io SYSTICK_LOAD (hw w) = (reload, hw w)"
    and "SystemCoreClock div 1000000 * us \<le> reload"
  shows "rt_hw_us_delay io SystemCoreClock us w = Some w"
proof -
  have "us_delay_loop io v reload (SystemCoreClock div 1000000 * us) w = Some w"
    using assms by (subst us_delay_loop.simps) (auto simp: READ_REG_eq Let_def)
  with assms(1,2) show ?thesis by (simp add: rt_hw_us_delay_def READ_REG_eq)
qed

lemma us_delay_skips_witness: "rt_hw_us_delay counter_io 480000000 500 (demo_world []) = Some (demo_world [])"
  by (rule us_delay_skips [where reload = 479999 and v = 240000]) (simp_all add: counter_io_def)

end
