(* ===== verification/Flash_Chip.thy ===== *)
theory Flash_Chip
  imports W25qxx_Props
begin

text \<open>
  What the traffic of the flash driver does to the flash. The chip is no part of the repository;
  \<open>chip_step\<close> states the documented behaviour of a W25Q64 behind the QUADSPI controller for
  the instructions the driver sends in indirect-write mode: write enable (06), sector and block
  erase (20, 52, D8), chip erase (C7) and quad page program (32). An erase or a program needs the
  write-enable latch, which it clears; an erase sets the bytes of the block to FF; a program can
  only clear bits, and wraps around inside its 256-byte page. The driver's operations are shown to
  refine the operations on the array of bytes.
\<close>

section \<open>The chip\<close>

record chip =
  instr :: u32
  page_pos :: nat
  wel :: bool
  cells :: "nat \<Rightarrow> u8"

definition block_size :: "u32 \<Rightarrow> nat" where
  "block_size i = (if i = 0x20 then 0x1000 else if i = 0x52 then 0x8000 else if i = 0xD8 then 0x10000 else 0)"

definition erase_cells :: "nat \<Rightarrow> nat \<Rightarrow> (nat \<Rightarrow> u8) \<Rightarrow> nat \<Rightarrow> u8" where
  "erase_cells n a c x = (if x div n = a div n then 0xFF else c x)"

text \<open>
  The low byte of the configuration register is the instruction; bits 26 and 27 are the functional
  mode, zero for indirect writes. The command starts with the write of the configuration register
  when it has neither address nor data, and with the write of the address otherwise.
\<close>

fun chip_step :: "bus_event \<Rightarrow> chip \<Rightarrow> chip" where
  "chip_step (W CCR v) k =
     (if v AND 0x0C000000 \<noteq> 0 then k\<lparr>instr := 0\<rparr>
      else if v AND 0x03000C00 \<noteq> 0 then k\<lparr>instr := v AND 0xFF\<rparr>
      else if v AND 0xFF = 0x06 then k\<lparr>instr := 0, wel := True\<rparr>
      else if v AND 0xFF = 0xC7 \<and> wel k then k\<lparr>instr := 0, wel := False, cells := (\<lambda>x. 0xFF)\<rparr>
      else k\<lparr>instr := 0\<rparr>)"
| "chip_step (W AR a) k =
     (if wel k \<and> block_size (instr k) \<noteq> 0
      then k\<lparr>instr := 0, wel := False, cells := erase_cells (block_size (instr k)) (unat a) (cells k)\<rparr>
      else k\<lparr>page_pos := unat a\<rparr>)"
| "chip_step (W8 b) k =
     (if wel k \<and> instr k = 0x32
      then k\<lparr>cells := (cells k)(page_pos k := cells k (page_pos k) AND b),
             page_pos := page_pos k div 256 * 256 + (page_pos k + 1) mod 256\<rparr>
      else k)"
| "chip_step (W FCR v) k = (if instr k = 0x32 then k\<lparr>instr := 0, wel := False\<rparr> else k)"
| "chip_step (W r v) k = k"
| "chip_step (R8 b) k = k"

definition flash_after :: "bus_event list \<Rightarrow> chip \<Rightarrow> chip" where
  "flash_after tr k = fold chip_step tr k"

lemma flash_after_append [simp]: "flash_after (a @ b) k = flash_after b (flash_after a k)"
  by (simp add: flash_after_def)

lemma flash_after_Cons [simp]: "flash_after (e # b) k = flash_after b (chip_step e k)"
  by (simp add: flash_after_def)

lemma flash_after_Nil [simp]: "flash_after [] k = k"
  by (simp add: flash_after_def)

section \<open>The driver's traffic on the chip\<close>

lemma after_poll [simp]: "flash_after (poll_trace m v c) k = k\<lparr>instr := 0\<rparr>"
  by (simp add: poll_trace_def)

lemma after_we [simp]: "flash_after (we_trace c) k = k\<lparr>instr := 0, wel := True\<rparr>"
  by (simp add: we_trace_def)

lemma after_erase:
  assumes "i \<in> {0x20, 0x52, 0xD8}"
  shows "flash_after (erase_trace i a c d) k =
    k\<lparr>instr := 0, wel := False, cells := erase_cells (block_size i) (unat a) (cells k)\<rparr>"
  using assms by (elim insertE emptyE) (simp_all add: erase_trace_def block_size_def)

lemma after_chip_erase:
  "flash_after (chip_erase_trace c d) k = k\<lparr>instr := 0, wel := False, cells := (\<lambda>x. 0xFF)\<rparr>"
  by (simp add: chip_erase_trace_def)

text \<open>Programming: the bytes are combined with the old contents, position by position.\<close>

definition program_cells :: "nat \<Rightarrow> u8 list \<Rightarrow> (nat \<Rightarrow> u8) \<Rightarrow> nat \<Rightarrow> u8" where
  "program_cells a bs c x = (if a \<le> x \<and> x < a + length bs then c x AND bs ! (x - a) else c x)"

lemma program_cells_Nil [simp]: "program_cells a [] c = c"
  by (auto simp: program_cells_def fun_eq_iff)

lemma program_cells_Cons:
  "program_cells a (b # bs) c = program_cells (Suc a) bs (c(a := c a AND b))"
  by (auto simp: program_cells_def fun_eq_iff nth_Cons' Suc_le_eq)

lemma program_cells_append:
  "program_cells a (bs @ cs) c = program_cells (a + length bs) cs (program_cells a bs c)"
  by (induction bs arbitrary: a c) (simp_all add: program_cells_Cons)

lemma after_data:
  assumes "instr k = 0x32" "wel k" "page_pos k mod 256 + length bs \<le> 256"
  shows "\<exists>n. flash_after (map W8 bs) k = k\<lparr>page_pos := n, cells := program_cells (page_pos k) bs (cells k)\<rparr>"
  using assms
proof (induction bs arbitrary: k)
  case Nil
  then show ?case by (auto intro!: exI [of _ "page_pos k"])
next
  case (Cons b bs)
  let ?k = "chip_step (W8 b) k"
  show ?case
  proof (cases "bs = []")
    case True
    with Cons.prems show ?thesis
      by (intro exI [of _ "page_pos k div 256 * 256 + (page_pos k + 1) mod 256"])
        (simp add: program_cells_Cons fun_upd_def)
  next
    case False
    then have "page_pos k mod 256 + 1 < 256" using Cons.prems(3) by (cases bs) auto
    then have m: "(page_pos k + 1) mod 256 = page_pos k mod 256 + 1" by (simp add: mod_Suc)
    then have pos: "page_pos k div 256 * 256 + (page_pos k + 1) mod 256 = Suc (page_pos k)"
      by (simp add: mod_Suc)
    with Cons.prems m have "instr ?k = 0x32" "wel ?k" "page_pos ?k mod 256 + length bs \<le> 256"
      by (simp_all del: One_nat_def)
    from Cons.IH [OF this] Cons.prems pos show ?thesis by (auto simp: program_cells_Cons fun_upd_def)
  qed
qed

lemma after_program:
  assumes "programs tr (a, bs)" "a mod 256 + length bs \<le> 256" "a < 2 ^ 32"
  shows "\<exists>n. flash_after tr k = k\<lparr>instr := 0, wel := False, page_pos := n, cells := program_cells a bs (cells k)\<rparr>"
proof -
  from assms(1) obtain c d where tr: "tr = program_trace (of_nat a) bs c d" by (auto simp: programs_def)
  have u: "unat (of_nat a :: u32) = a" using assms(3) by (simp add: unat_of_nat)
  let ?k = "k\<lparr>wel := True, page_pos := a, instr := 0x32\<rparr>"
  from after_data [of ?k bs] assms(2) obtain n where
    "flash_after (map W8 bs) ?k = ?k\<lparr>page_pos := n, cells := program_cells a bs (cells k)\<rparr>" by auto
  then show ?thesis by (intro exI [of _ n]) (simp add: tr program_trace_def block_size_def u)
qed

lemma after_pieces:
  assumes "list_all2 programs trs pieces" "contiguous a pieces"
    and "\<forall>(b, cs) \<in> set pieces. b mod 256 + length cs \<le> 256"
    and "a + length (concat (map snd pieces)) \<le> 2 ^ 32" "\<forall>(b, cs) \<in> set pieces. cs \<noteq> []"
  shows "cells (flash_after (concat trs) k) = program_cells a (concat (map snd pieces)) (cells k)"
  using assms
proof (induction trs pieces arbitrary: a k rule: list_all2_induct)
  case Nil
  then show ?case by simp
next
  case (Cons tr trs piece pieces)
  obtain cs where p: "piece = (a, cs)" using Cons.prems(1) by (cases piece) auto
  with Cons.prems have "a < 2 ^ 32" by (cases cs) auto
  with after_program [of tr a cs k] Cons.hyps(1) Cons.prems p obtain n where
    "flash_after tr k = k\<lparr>instr := 0, wel := False, page_pos := n, cells := program_cells a cs (cells k)\<rparr>"
    by auto
  moreover have "cells (flash_after (concat trs) (flash_after tr k)) =
      program_cells (a + length cs) (concat (map snd pieces)) (cells (flash_after tr k))"
    using Cons.prems p by (intro Cons.IH) (auto simp: add.assoc)
  ultimately show ?case by (simp add: p program_cells_append)
qed

lemma erased_and [simp]: "(0xFF :: u8) AND b = b"
proof -
  have "(0xFF :: u8) = - 1" by simp
  then show ?thesis by (simp only: and.left_neutral)
qed

section \<open>The interface of the flash store\<close>

text \<open>
  What a client of a flash driver relies on: the driver, when idle, erases a 64 KB block or writes
  a buffer, and a success means that the array has changed accordingly.
\<close>

definition writable :: "u32 \<Rightarrow> u32 \<Rightarrow> u32 \<Rightarrow> bool" where
  "writable p a n \<longleftrightarrow> p \<noteq> 0 \<and> unat p + unat n \<le> 2 ^ 32 \<and> 0 < n \<and> unat a + unat n \<le> 0x800000"

locale flash_store =
  fixes content :: "'w \<Rightarrow> nat \<Rightarrow> u8" and idle :: "'w \<Rightarrow> bool" and buffer :: "'w \<Rightarrow> u32 \<Rightarrow> nat \<Rightarrow> u8 list"
    and erase_block :: "u32 \<Rightarrow> 'w \<Rightarrow> (int \<times> 'w) option"
    and write_buf :: "u32 \<Rightarrow> u32 \<Rightarrow> u32 \<Rightarrow> 'w \<Rightarrow> (int \<times> 'w) option"
  assumes buffer_length: "length (buffer w q m) = m"
    and erase_ok: "idle w \<Longrightarrow> erase_block a w = Some (0, w') \<Longrightarrow>
      idle w' \<and> buffer w' = buffer w \<and> content w' = erase_cells 0x10000 (unat a) (content w)"
    and write_ok: "idle w \<Longrightarrow> writable p a n \<Longrightarrow> write_buf p a n w = Some (0, w') \<Longrightarrow>
      idle w' \<and> buffer w' = buffer w \<and> content w' = program_cells (unat a) (buffer w p (unat n)) (content w)"
begin

lemma erase_write:
  assumes "idle w" "erase_block e w = Some (0, w1)" "write_buf p a n w1 = Some (0, w')" "writable p a n"
    and "unat a div 0x10000 = unat e div 0x10000" "(unat a + unat n - 1) div 0x10000 = unat e div 0x10000"
  shows "content w' = (\<lambda>x. if unat a \<le> x \<and> x < unat a + unat n then buffer w p (unat n) ! (x - unat a)
     else if x div 0x10000 = unat e div 0x10000 then 0xFF else content w x)"
proof
  fix x
  note e = erase_ok [OF assms(1,2)]
  note wr = write_ok [OF _ assms(4,3)]
  have "x div 0x10000 = unat e div 0x10000" if "unat a \<le> x" "x < unat a + unat n"
  proof (rule antisym)
    show "x div 0x10000 \<le> unat e div 0x10000" unfolding assms(6) [symmetric] using that by (intro div_le_mono) simp
    show "unat e div 0x10000 \<le> x div 0x10000" unfolding assms(5) [symmetric] using that by (intro div_le_mono)
  qed
  then show "content w' x = (if unat a \<le> x \<and> x < unat a + unat n then buffer w p (unat n) ! (x - unat a)
     else if x div 0x10000 = unat e div 0x10000 then 0xFF else content w x)"
    using e wr by (auto simp: program_cells_def erase_cells_def buffer_length)
qed

end

section \<open>The driver implements the interface\<close>

definition flash_content :: "chip \<Rightarrow> ('h \<times> bus_event list) qworld \<Rightarrow> nat \<Rightarrow> u8" where
  "flash_content k w = cells (flash_after (snd (hw w)) k)"

definition driver_idle :: "'h mmio \<Rightarrow> ('h \<times> bus_event list) qworld \<Rightarrow> bool" where
  "driver_idle io w \<longleftrightarrow> command_latched io \<and> unlocked w \<and> ready w"

lemma flash_content_did:
  "did (log_io io) w tr w' \<Longrightarrow> flash_content k w' = cells (flash_after tr (flash_after (snd (hw w)) k))"
  using did_log [of io w tr w'] by (simp add: flash_content_def)

lemma WriteBuffer_cells:
  assumes "driver_idle io w" "writable p a n" "QSPI_W25Qxx_WriteBuffer (log_io io) l p a n w = Some (0, w')"
  shows "driver_idle io w' \<and> mem w' = mem w \<and>
    flash_content k w' = program_cells (unat a) (bytes_at (mem w) p (unat n)) (flash_content k w)"
proof -
  let ?bs = "bytes_at (mem w) p (unat n)"
  from WriteBuffer_OK [OF assms(3)] assms(1,2) obtain trs where
    d: "list_all2 programs trs (page_chunks (unat a) ?bs)" "did (log_io io) w (concat trs) w'" "mem w' = mem w"
    by (auto simp: driver_idle_def writable_def command_latched_log)
  have "cells (flash_after (concat trs) (flash_after (snd (hw w)) k)) =
      program_cells (unat a) (concat (map snd (page_chunks (unat a) ?bs))) (cells (flash_after (snd (hw w)) k))"
    using page_chunks_in_page [of _ _ "unat a" ?bs] assms(2)
    by (intro after_pieces [OF d(1) page_chunks_contiguous]) (auto simp: page_chunks_data writable_def)
  with d did_log [OF d(2)] assms(1) show ?thesis
    by (simp add: flash_content_did [OF d(2)] page_chunks_data flash_content_def driver_idle_def)
qed

lemma erase_cells_OK:
  assumes "driver_idle io w" "erase_at (log_io io) l i a w = Some (0, w')" "i \<in> {0x20, 0x52, 0xD8}"
  shows "driver_idle io w' \<and> mem w' = mem w \<and>
    flash_content k w' = erase_cells (block_size i) (unat a) (flash_content k w)"
proof -
  from erase_OK [OF assms(2)] assms(1) obtain c d where
    d: "did (log_io io) w (erase_trace i a c d) w'" "mem w' = mem w" by (auto simp: driver_idle_def)
  with did_log [OF d(1)] assms(1) show ?thesis
    by (simp add: flash_content_did [OF d(1)] after_erase [OF assms(3)] flash_content_def driver_idle_def)
qed

interpretation boot_store: flash_store "flash_content k" "driver_idle io" "\<lambda>w. bytes_at (mem w)"
  "QSPI_W25Qxx_BlockErase_64K (log_io io) l" "QSPI_W25Qxx_WriteBuffer (log_io io) l" for k and io :: "'h mmio" and l
proof
  fix w w' :: "('h \<times> bus_event list) qworld" and a :: u32
  assume "driver_idle io w" "QSPI_W25Qxx_BlockErase_64K (log_io io) l a w = Some (0, w')"
  from erase_cells_OK [OF this [unfolded QSPI_W25Qxx_BlockErase_64K_def]]
  show "driver_idle io w' \<and> bytes_at (mem w') = bytes_at (mem w) \<and>
      flash_content k w' = erase_cells 0x10000 (unat a) (flash_content k w)"
    by (simp add: block_size_def)
next
  fix w w' :: "('h \<times> bus_event list) qworld" and p a n :: u32
  assume "driver_idle io w" "writable p a n" "QSPI_W25Qxx_WriteBuffer (log_io io) l p a n w = Some (0, w')"
  from WriteBuffer_cells [OF this] show "driver_idle io w' \<and> bytes_at (mem w') = bytes_at (mem w) \<and>
      flash_content k w' = program_cells (unat a) (bytes_at (mem w) p (unat n)) (flash_content k w)" by simp
qed simp

text \<open>
  C1. Erase and write, end to end. After a successful 64 KB block erase and a successful write of a
  buffer inside that block, the flash holds exactly the bytes of the buffer at the written
  addresses, FF in the rest of the block, and its old contents everywhere else.
\<close>

theorem erase_write_content:
  assumes "command_latched io" "unlocked w" "ready w"
    and "QSPI_W25Qxx_BlockErase_64K (log_io io) l e w = Some (0, w1)"
    and "QSPI_W25Qxx_WriteBuffer (log_io io) l p a n w1 = Some (0, w')"
    and "p \<noteq> 0" "unat p + unat n \<le> 2 ^ 32" "0 < n" "unat a + unat n \<le> 0x800000"
    and "unat a div 0x10000 = unat e div 0x10000" "(unat a + unat n - 1) div 0x10000 = unat e div 0x10000"
  shows "flash_content k w' = (\<lambda>x. if unat a \<le> x \<and> x < unat a + unat n
       then bytes_at (mem w) p (unat n) ! (x - unat a)
     else if x div 0x10000 = unat e div 0x10000 then 0xFF else flash_content k w x)"
  using assms by (intro boot_store.erase_write) (simp_all add: driver_idle_def writable_def)

lemma erase_write_content_witness:
  "\<exists>w' :: (demo \<times> bus_event list) qworld. flash_content \<lparr>instr = 0, page_pos = 0, wel = False, cells = (\<lambda>x. 0)\<rparr> w' 0x100FF = 0x20 \<and>
     flash_content \<lparr>instr = 0, page_pos = 0, wel = False, cells = (\<lambda>x. 0)\<rparr> w' 0x10100 = 0x21 \<and>
     flash_content \<lparr>instr = 0, page_pos = 0, wel = False, cells = (\<lambda>x. 0)\<rparr> w' 0x10101 = 0xFF"
proof -
  let ?io = "log_io (demo_io SR_DONE 1)" and ?k = "\<lparr>instr = 0, page_pos = 0, wel = False, cells = (\<lambda>x. 0 :: u8)\<rparr>"
  have "map_option (\<lambda>(s, w). (s, State (hq w), Lock (hq w)))
      (QSPI_W25Qxx_BlockErase_64K ?io demo_locals 0x10000 (log_world [])) = Some (0, HAL_QSPI_STATE_READY, HAL_UNLOCKED)"
    by code_simp
  then obtain w1 where w1: "QSPI_W25Qxx_BlockErase_64K ?io demo_locals 0x10000 (log_world []) = Some (0, w1)" by auto
  have "map_option fst (QSPI_W25Qxx_BlockErase_64K ?io demo_locals 0x10000 (log_world []) \<bind>
      (\<lambda>(s, w1). QSPI_W25Qxx_WriteBuffer ?io demo_locals 0x20 0x100FF 2 w1)) = Some 0" by code_simp
  with w1 have "map_option fst (QSPI_W25Qxx_WriteBuffer ?io demo_locals 0x20 0x100FF 2 w1) = Some 0" by simp
  then obtain w' where w': "QSPI_W25Qxx_WriteBuffer ?io demo_locals 0x20 0x100FF 2 w1 = Some (0, w')" by (rule run_status)
  have b: "bytes_at (mem (log_world [])) 0x20 (unat (2 :: u32)) = [0x20, 0x21]" by code_simp
  have "flash_content ?k w' = (\<lambda>x. if 0x100FF \<le> x \<and> x < 0x10101 then [0x20, 0x21] ! (x - 0x100FF)
      else if x div 0x10000 = 1 then 0xFF else flash_content ?k (log_world []) x)"
    using erase_write_content [OF command_latched_demo log_world_ready(1,2) w1 w', of ?k] b
    by (simp add: fun_eq_iff)
  then show ?thesis by (intro exI [of _ w']) simp
qed

end
