(* ===== verification/Flm_Hal.thy ===== *)
theory Flm_Hal
  imports W25qxx_Props
begin

text \<open>
  The copy of the QUADSPI driver that the flash-programming algorithm links
  (\<open>FlashAlgorithm/flm_h750/Drivers/STM32H7xx_HAL_Driver/Src/stm32h7xx_hal_qspi.c\<close>). It
  differs from the bootloader's copy in that the timeout check of the wait loop is commented out,
  initialisation and de-initialisation take no lock, and the DMA and interrupt parts are
  commented out. Its time base is the variable \<open>uwTick\<close>, which nothing increments.
\<close>

section \<open>Definitions\<close>

definition flm_HAL_GetTick :: u32 where "flm_HAL_GetTick = 0"

partial_function (option) flm_QSPI_WaitFlagStateUntilTimeout ::
  "'h mmio \<Rightarrow> u32 \<Rightarrow> FlagStatus \<Rightarrow> u32 \<Rightarrow> u32 \<Rightarrow> 'h qworld \<Rightarrow> 'h hal_result" where
  "flm_QSPI_WaitFlagStateUntilTimeout io Flag st Tickstart timeout w =
     (let (f, w1) = HAL_QSPI_GET_FLAG io Flag w in
      if f \<noteq> st then flm_QSPI_WaitFlagStateUntilTimeout io Flag st Tickstart timeout w1
      else Some (HAL_OK, w1))"

text \<open>The configuration function is the same text in both copies.\<close>

definition flm_QSPI_Config :: "'h mmio \<Rightarrow> QSPI_CommandTypeDef \<Rightarrow> u32 \<Rightarrow> 'h qworld \<Rightarrow> 'h qworld" where
  "flm_QSPI_Config io cmd FunctionalMode w = QSPI_Config io cmd FunctionalMode w"

definition flm_HAL_QSPI_Init ::
  "'h mmio \<Rightarrow> ('h qworld \<Rightarrow> 'h qworld) \<Rightarrow> handle_ptr \<Rightarrow> 'h qworld \<Rightarrow> 'h hal_result" where
  "flm_HAL_QSPI_Init io MspInit p w =
    (let tickstart = flm_HAL_GetTick in
     if p = NULL_HANDLE then Some (HAL_ERROR, w)
     else
       (let w2 = (if State (hq w) = HAL_QSPI_STATE_RESET
                  then HAL_QSPI_SetTimeout HAL_QPSI_TIMEOUT_DEFAULT_VALUE (MspInit w) else w);
            w3 = MODIFY_REG io CR QUADSPI_CR_FTHRES
                   (push_bit QUADSPI_CR_FTHRES_Pos (FifoThreshold (Init (hq w2)) - 1)) w2
        in do {
          (status, w4) \<leftarrow> flm_QSPI_WaitFlagStateUntilTimeout io QSPI_FLAG_BUSY RESET tickstart
                            (Timeout (hq w3)) w3;
          Some (status,
            if status = HAL_OK
            then
              (let i = Init (hq w4);
                   a = MODIFY_REG io CR (QUADSPI_CR_PRESCALER OR QUADSPI_CR_SSHIFT OR
                         QUADSPI_CR_FSEL OR QUADSPI_CR_DFM)
                         (push_bit QUADSPI_CR_PRESCALER_Pos (ClockPrescaler i) OR
                          SampleShifting i OR FlashID i OR DualFlash i) w4;
                   b = MODIFY_REG io DCR (QUADSPI_DCR_FSIZE OR QUADSPI_DCR_CSHT OR QUADSPI_DCR_CKMODE)
                         (push_bit QUADSPI_DCR_FSIZE_Pos (FlashSize i) OR
                          ChipSelectHighTime i OR ClockMode i) a
               in set_State HAL_QSPI_STATE_READY
                    (set_ErrorCode HAL_QSPI_ERROR_NONE (HAL_QSPI_ENABLE io b)))
            else w4)
        }))"

definition flm_HAL_QSPI_DeInit ::
  "'h mmio \<Rightarrow> ('h qworld \<Rightarrow> 'h qworld) \<Rightarrow> handle_ptr \<Rightarrow> 'h qworld \<Rightarrow> 'h hal_result" where
  "flm_HAL_QSPI_DeInit io MspDeInit p w =
    (if p = NULL_HANDLE then Some (HAL_ERROR, w)
     else Some (HAL_OK, set_State HAL_QSPI_STATE_RESET (set_ErrorCode HAL_QSPI_ERROR_NONE
            (MspDeInit (HAL_QSPI_DISABLE io w)))))"

definition flm_HAL_QSPI_Command ::
  "'h mmio \<Rightarrow> QSPI_CommandTypeDef \<Rightarrow> u32 \<Rightarrow> 'h qworld \<Rightarrow> 'h hal_result" where
  "flm_HAL_QSPI_Command io cmd timeout w =
    (let tickstart = flm_HAL_GetTick in
     if Lock (hq w) = HAL_LOCKED then Some (HAL_BUSY, w)
     else do {
       (status, w') \<leftarrow>
         (let w1 = set_Lock HAL_LOCKED w in
          if State (hq w1) = HAL_QSPI_STATE_READY then do {
            let w2 = set_State HAL_QSPI_STATE_BUSY (set_ErrorCode HAL_QSPI_ERROR_NONE w1);
            (status, w3) \<leftarrow> flm_QSPI_WaitFlagStateUntilTimeout io QSPI_FLAG_BUSY RESET tickstart timeout w2;
            if status = HAL_OK then do {
              let w4 = flm_QSPI_Config io cmd QSPI_FUNCTIONAL_MODE_INDIRECT_WRITE w3;
              if DataMode cmd = QSPI_DATA_NONE then do {
                (status, w5) \<leftarrow> flm_QSPI_WaitFlagStateUntilTimeout io QSPI_FLAG_TC SET tickstart timeout w4;
                Some (status,
                  if status = HAL_OK
                  then set_State HAL_QSPI_STATE_READY (HAL_QSPI_CLEAR_FLAG io QSPI_FLAG_TC w5)
                  else w5)
              }
              else Some (status, set_State HAL_QSPI_STATE_READY w4)
            }
            else Some (status, w3)
          }
          else Some (HAL_BUSY, w1));
       Some (status, set_Lock HAL_UNLOCKED w')
     })"

partial_function (option) flm_tx_loop ::
  "'h mmio \<Rightarrow> u32 \<Rightarrow> u32 \<Rightarrow> 'h qworld \<Rightarrow> 'h hal_result" where
  "flm_tx_loop io tickstart timeout w =
    (if TxXferCount (hq w) > 0 then do {
       (status, w1) \<leftarrow> flm_QSPI_WaitFlagStateUntilTimeout io QSPI_FLAG_FT SET tickstart timeout w;
       if status \<noteq> HAL_OK then Some (status, w1)
       else flm_tx_loop io tickstart timeout (tx_byte io w1)
     }
     else Some (HAL_OK, w))"

definition flm_finish_xfer :: "'h mmio \<Rightarrow> u32 \<Rightarrow> u32 \<Rightarrow> 'h qworld \<Rightarrow> 'h hal_result" where
  "flm_finish_xfer io tickstart timeout w = do {
     (status, w1) \<leftarrow> flm_QSPI_WaitFlagStateUntilTimeout io QSPI_FLAG_TC SET tickstart timeout w;
     Some (status, if status = HAL_OK then HAL_QSPI_CLEAR_FLAG io QSPI_FLAG_TC w1 else w1)
   }"

definition flm_HAL_QSPI_Transmit ::
  "'h mmio \<Rightarrow> u32 \<Rightarrow> u32 \<Rightarrow> 'h qworld \<Rightarrow> 'h hal_result" where
  "flm_HAL_QSPI_Transmit io pData timeout w =
    (let tickstart = flm_HAL_GetTick in
     if Lock (hq w) = HAL_LOCKED then Some (HAL_BUSY, w)
     else do {
       (status, w') \<leftarrow>
         (let w1 = set_Lock HAL_LOCKED w in
          if State (hq w1) = HAL_QSPI_STATE_READY then
            (let w2 = set_ErrorCode HAL_QSPI_ERROR_NONE w1 in
             if pData \<noteq> 0 then do {
               let w3 = set_State HAL_QSPI_STATE_BUSY_INDIRECT_TX w2;
               let (d1, w4) = READ_REG io DLR w3;
               let (d2, w5) = READ_REG io DLR w4;
               let w6 = w5\<lparr>hq := (hq w5)\<lparr>TxXferCount := d1 + 1, TxXferSize := d2 + 1,
                                          pTxBuffPtr := pData\<rparr>\<rparr>;
               let w7 = MODIFY_REG io CCR QUADSPI_CCR_FMODE QSPI_FUNCTIONAL_MODE_INDIRECT_WRITE w6;
               (status, w8) \<leftarrow> flm_tx_loop io tickstart timeout w7;
               (status, w9) \<leftarrow> (if status = HAL_OK then flm_finish_xfer io tickstart timeout w8
                                else Some (status, w8));
               Some (status, set_State HAL_QSPI_STATE_READY w9)
             }
             else Some (HAL_ERROR,
                    set_ErrorCode (ErrorCode (hq w2) OR HAL_QSPI_ERROR_INVALID_PARAM) w2))
          else Some (HAL_BUSY, w1));
       Some (status, set_Lock HAL_UNLOCKED w')
     })"

partial_function (option) flm_rx_loop ::
  "'h mmio \<Rightarrow> u32 \<Rightarrow> u32 \<Rightarrow> 'h qworld \<Rightarrow> 'h hal_result" where
  "flm_rx_loop io tickstart timeout w =
    (if RxXferCount (hq w) > 0 then do {
       (status, w1) \<leftarrow> flm_QSPI_WaitFlagStateUntilTimeout io (QSPI_FLAG_FT OR QSPI_FLAG_TC) SET
                         tickstart timeout w;
       if status \<noteq> HAL_OK then Some (status, w1)
       else flm_rx_loop io tickstart timeout (rx_byte io w1)
     }
     else Some (HAL_OK, w))"

definition flm_HAL_QSPI_Receive ::
  "'h mmio \<Rightarrow> u32 \<Rightarrow> u32 \<Rightarrow> 'h qworld \<Rightarrow> 'h hal_result" where
  "flm_HAL_QSPI_Receive io pData timeout w0 =
    (let tickstart = flm_HAL_GetTick;
         (addr_reg, w) = READ_REG io AR w0 in
     if Lock (hq w) = HAL_LOCKED then Some (HAL_BUSY, w)
     else do {
       (status, w') \<leftarrow>
         (let w1 = set_Lock HAL_LOCKED w in
          if State (hq w1) = HAL_QSPI_STATE_READY then
            (let w2 = set_ErrorCode HAL_QSPI_ERROR_NONE w1 in
             if pData \<noteq> 0 then do {
               let w3 = set_State HAL_QSPI_STATE_BUSY_INDIRECT_RX w2;
               let (d1, w4) = READ_REG io DLR w3;
               let (d2, w5) = READ_REG io DLR w4;
               let w6 = w5\<lparr>hq := (hq w5)\<lparr>RxXferCount := d1 + 1, RxXferSize := d2 + 1,
                                          pRxBuffPtr := pData\<rparr>\<rparr>;
               let w7 = MODIFY_REG io CCR QUADSPI_CCR_FMODE QSPI_FUNCTIONAL_MODE_INDIRECT_READ w6;
               let w8 = WRITE_REG io AR addr_reg w7;
               (status, w9) \<leftarrow> flm_rx_loop io tickstart timeout w8;
               (status, w10) \<leftarrow> (if status = HAL_OK then flm_finish_xfer io tickstart timeout w9
                                 else Some (status, w9));
               Some (status, set_State HAL_QSPI_STATE_READY w10)
             }
             else Some (HAL_ERROR,
                    set_ErrorCode (ErrorCode (hq w2) OR HAL_QSPI_ERROR_INVALID_PARAM) w2))
          else Some (HAL_BUSY, w1));
       Some (status, set_Lock HAL_UNLOCKED w')
     })"

definition flm_HAL_QSPI_AutoPolling ::
  "'h mmio \<Rightarrow> QSPI_CommandTypeDef \<Rightarrow> QSPI_AutoPollingTypeDef \<Rightarrow> u32 \<Rightarrow> 'h qworld \<Rightarrow> 'h hal_result" where
  "flm_HAL_QSPI_AutoPolling io cmd cfg timeout w =
    (let tickstart = flm_HAL_GetTick in
     if Lock (hq w) = HAL_LOCKED then Some (HAL_BUSY, w)
     else do {
       (status, w') \<leftarrow>
         (let w1 = set_Lock HAL_LOCKED w in
          if State (hq w1) = HAL_QSPI_STATE_READY then do {
            let w2 = set_State HAL_QSPI_STATE_BUSY_AUTO_POLLING
                       (set_ErrorCode HAL_QSPI_ERROR_NONE w1);
            (status, w3) \<leftarrow> flm_QSPI_WaitFlagStateUntilTimeout io QSPI_FLAG_BUSY RESET tickstart timeout w2;
            if status = HAL_OK then do {
              let w4 = WRITE_REG io PIR (Interval cfg)
                         (WRITE_REG io PSMKR (Mask cfg) (WRITE_REG io PSMAR (Match cfg) w3));
              let w5 = MODIFY_REG io CR (QUADSPI_CR_PMM OR QUADSPI_CR_APMS)
                         (MatchMode cfg OR QSPI_AUTOMATIC_STOP_ENABLE) w4;
              let w6 = flm_QSPI_Config io (cmd\<lparr>NbData := StatusBytesSize cfg\<rparr>)
                         QSPI_FUNCTIONAL_MODE_AUTO_POLLING w5;
              (status, w7) \<leftarrow> flm_QSPI_WaitFlagStateUntilTimeout io QSPI_FLAG_SM SET tickstart timeout w6;
              Some (status,
                if status = HAL_OK
                then set_State HAL_QSPI_STATE_READY (HAL_QSPI_CLEAR_FLAG io QSPI_FLAG_SM w7)
                else w7)
            }
            else Some (status, w3)
          }
          else Some (HAL_BUSY, w1));
       Some (status, set_Lock HAL_UNLOCKED w')
     })"

definition flm_HAL_QSPI_MemoryMapped ::
  "'h mmio \<Rightarrow> QSPI_CommandTypeDef \<Rightarrow> QSPI_MemoryMappedTypeDef \<Rightarrow> 'h qworld \<Rightarrow> 'h hal_result" where
  "flm_HAL_QSPI_MemoryMapped io cmd cfg w =
    (let tickstart = flm_HAL_GetTick in
     if Lock (hq w) = HAL_LOCKED then Some (HAL_BUSY, w)
     else do {
       (status, w') \<leftarrow>
         (let w1 = set_Lock HAL_LOCKED w in
          if State (hq w1) = HAL_QSPI_STATE_READY then do {
            let w2 = set_State HAL_QSPI_STATE_BUSY_MEM_MAPPED
                       (set_ErrorCode HAL_QSPI_ERROR_NONE w1);
            (status, w3) \<leftarrow> flm_QSPI_WaitFlagStateUntilTimeout io QSPI_FLAG_BUSY RESET tickstart
                              (Timeout (hq w2)) w2;
            if status = HAL_OK then do {
              let w4 = MODIFY_REG io CR QUADSPI_CR_TCEN (TimeOutActivation cfg) w3;
              let w5 = (if TimeOutActivation cfg = QSPI_TIMEOUT_COUNTER_ENABLE
                        then HAL_QSPI_ENABLE_IT io QSPI_IT_TO
                               (HAL_QSPI_CLEAR_FLAG io QSPI_FLAG_TO
                                 (WRITE_REG io LPTR (TimeOutPeriod cfg) w4))
                        else w4);
              Some (status, flm_QSPI_Config io cmd QSPI_FUNCTIONAL_MODE_MEMORY_MAPPED w5)
            }
            else Some (status, w3)
          }
          else Some (HAL_BUSY, w1));
       Some (status, set_Lock HAL_UNLOCKED w')
     })"

definition flm_HAL_QSPI_Abort :: "'h mmio \<Rightarrow> 'h qworld \<Rightarrow> 'h hal_result" where
  "flm_HAL_QSPI_Abort io w =
    (let tickstart = flm_HAL_GetTick in
     if state_code (State (hq w)) AND 2 \<noteq> 0 then
       (let w4 = SET_BIT io CR QUADSPI_CR_ABORT (set_Lock HAL_UNLOCKED w)
        in do {
          (status, w5) \<leftarrow> flm_QSPI_WaitFlagStateUntilTimeout io QSPI_FLAG_TC SET tickstart
                            (Timeout (hq w4)) w4;
          (status, w6) \<leftarrow>
            (if status = HAL_OK
             then (let c = HAL_QSPI_CLEAR_FLAG io QSPI_FLAG_TC w5
                   in flm_QSPI_WaitFlagStateUntilTimeout io QSPI_FLAG_BUSY RESET tickstart
                        (Timeout (hq c)) c)
             else Some (status, w5));
          Some (status, if status = HAL_OK
                        then set_State HAL_QSPI_STATE_READY (CLEAR_BIT io CCR QUADSPI_CCR_FMODE w6)
                        else w6)
        })
     else Some (HAL_OK, w))"

declare flm_QSPI_WaitFlagStateUntilTimeout.simps [code]
declare flm_tx_loop.simps [code]
declare flm_rx_loop.simps [code]

end
