(* ===== verification/Flm_Equiv.thy ===== *)
theory Flm_Equiv
  imports Flm_Hal
begin

text \<open>
  The two copies of the driver agree up to the time base: the copy without timeouts behaves like
  the bootloader's copy on hardware whose clock stands still. So every theorem of the
  bootloader's driver carries over to the flash-programming algorithm.
\<close>

definition frozen :: "'h mmio \<Rightarrow> 'h mmio" where
  "frozen io = io\<lparr>io_tick := (\<lambda>h. (flm_HAL_GetTick, h))\<rparr>"

lemma frozen_io [simp]:
  "io_rd (frozen io) = io_rd io" "io_wr (frozen io) = io_wr io" "io_rd8 (frozen io) = io_rd8 io"
  "io_wr8 (frozen io) = io_wr8 io" "io_ld (frozen io) = io_ld io"
  "io_tick (frozen io) = (\<lambda>h. (flm_HAL_GetTick, h))"
  by (simp_all add: frozen_def)

lemma frozen_regs [simp]:
  "READ_REG (frozen io) = READ_REG io" "WRITE_REG (frozen io) = WRITE_REG io"
  "READ_BIT (frozen io) = READ_BIT io" "MODIFY_REG (frozen io) = MODIFY_REG io"
  "SET_BIT (frozen io) = SET_BIT io" "CLEAR_BIT (frozen io) = CLEAR_BIT io"
  "HAL_QSPI_GET_FLAG (frozen io) = HAL_QSPI_GET_FLAG io"
  "HAL_QSPI_CLEAR_FLAG (frozen io) = HAL_QSPI_CLEAR_FLAG io"
  "HAL_QSPI_ENABLE (frozen io) = HAL_QSPI_ENABLE io" "HAL_QSPI_ENABLE_IT (frozen io) = HAL_QSPI_ENABLE_IT io"
  "tx_byte (frozen io) = tx_byte io" "rx_byte (frozen io) = rx_byte io"
  "get_tick (frozen io) w = (flm_HAL_GetTick, w)"
  by (simp_all add: fun_eq_iff reg_simps tx_byte_def rx_byte_def split: prod.splits)

lemma frozen_Config [simp]: "QSPI_Config (frozen io) = QSPI_Config io"
  by (simp add: fun_eq_iff QSPI_Config_def write_AR_def)

section \<open>The wait loop\<close>

lemma wait_frozen_unfold:
  assumes "timeout \<noteq> 0"
  shows "QSPI_WaitFlagStateUntilTimeout (frozen io) f st flm_HAL_GetTick timeout w =
     (let (fl, w1) = HAL_QSPI_GET_FLAG io f w in
      if fl \<noteq> st then QSPI_WaitFlagStateUntilTimeout (frozen io) f st flm_HAL_GetTick timeout w1
      else Some (HAL_OK, w1))"
  using assms by (subst QSPI_WaitFlagStateUntilTimeout.simps) (simp split: prod.splits)

lemma flm_wait_imp:
  assumes "flm_QSPI_WaitFlagStateUntilTimeout io f st t0 timeout w = Some r" and "timeout \<noteq> 0"
  shows "QSPI_WaitFlagStateUntilTimeout (frozen io) f st flm_HAL_GetTick timeout w = Some r"
proof -
  have "timeout \<noteq> 0 \<longrightarrow> QSPI_WaitFlagStateUntilTimeout (frozen io) f st flm_HAL_GetTick timeout w = Some r"
  proof (rule flm_QSPI_WaitFlagStateUntilTimeout.raw_induct [OF _ assms(1), where P = "\<lambda>io f st t0 timeout w r.
      timeout \<noteq> 0 \<longrightarrow> QSPI_WaitFlagStateUntilTimeout (frozen io) f st flm_HAL_GetTick timeout w = Some r"], goal_cases)
    case (1 wait io f st t0 timeout w r)
    show ?case
    proof
      assume "timeout \<noteq> 0"
      then show "QSPI_WaitFlagStateUntilTimeout (frozen io) f st flm_HAL_GetTick timeout w = Some r"
        using 1(2) 1(1) [of io f st t0 timeout "snd (HAL_QSPI_GET_FLAG io f w)" r]
        by (subst wait_frozen_unfold) (auto simp: split_def Let_def split: if_splits)
    qed
  qed
  with assms(2) show ?thesis by simp
qed

lemma flm_wait_returns:
  assumes "QSPI_WaitFlagStateUntilTimeout io' f st t0 timeout w = Some r"
    and "io' = frozen io" "t0 = flm_HAL_GetTick" "timeout \<noteq> 0"
  shows "\<exists>r'. flm_QSPI_WaitFlagStateUntilTimeout io f st t timeout w = Some r'"
proof -
  have "io' = frozen io \<and> t0 = flm_HAL_GetTick \<and> timeout \<noteq> 0 \<longrightarrow>
      (\<exists>r'. flm_QSPI_WaitFlagStateUntilTimeout io f st t timeout w = Some r')"
  proof (rule QSPI_WaitFlagStateUntilTimeout.raw_induct [OF _ assms(1), where P = "\<lambda>io' f st t0 timeout w r.
      io' = frozen io \<and> t0 = flm_HAL_GetTick \<and> timeout \<noteq> 0 \<longrightarrow>
      (\<exists>r'. flm_QSPI_WaitFlagStateUntilTimeout io f st t timeout w = Some r')"], goal_cases)
    case (1 wait io' f st t0 timeout w r)
    show ?case
    proof
      assume a: "io' = frozen io \<and> t0 = flm_HAL_GetTick \<and> timeout \<noteq> 0"
      then show "\<exists>r'. flm_QSPI_WaitFlagStateUntilTimeout io f st t timeout w = Some r'"
        using 1(2) 1(1) [of io' f st t0 timeout "snd (HAL_QSPI_GET_FLAG io f w)" r]
        by (subst flm_QSPI_WaitFlagStateUntilTimeout.simps) (auto simp: split_def Let_def split: if_splits)
    qed
  qed
  with assms show ?thesis by blast
qed

lemma flm_wait_eq:
  assumes "timeout \<noteq> 0"
  shows "flm_QSPI_WaitFlagStateUntilTimeout io f st t timeout w =
    QSPI_WaitFlagStateUntilTimeout (frozen io) f st flm_HAL_GetTick timeout w"
proof (cases "flm_QSPI_WaitFlagStateUntilTimeout io f st t timeout w")
  case None
  then show ?thesis
    using flm_wait_returns [OF _ refl refl assms, of io f st w _ t]
    by (cases "QSPI_WaitFlagStateUntilTimeout (frozen io) f st flm_HAL_GetTick timeout w") auto
next
  case (Some r)
  with flm_wait_imp [OF Some assms] show ?thesis by simp
qed

section \<open>The operations\<close>

lemma flm_Command_eq:
  "timeout \<noteq> 0 \<Longrightarrow> flm_HAL_QSPI_Command io cmd timeout w = HAL_QSPI_Command (frozen io) cmd timeout w"
  by (simp add: flm_HAL_QSPI_Command_def HAL_QSPI_Command_def flm_wait_eq flm_QSPI_Config_def Let_def
      cong: if_cong)

lemma flm_AutoPolling_eq:
  "timeout \<noteq> 0 \<Longrightarrow> flm_HAL_QSPI_AutoPolling io cmd cfg timeout w = HAL_QSPI_AutoPolling (frozen io) cmd cfg timeout w"
  by (simp add: flm_HAL_QSPI_AutoPolling_def HAL_QSPI_AutoPolling_def flm_wait_eq flm_QSPI_Config_def
      Let_def cong: if_cong)

lemma flm_MemoryMapped_eq:
  "Timeout (hq w) \<noteq> 0 \<Longrightarrow> flm_HAL_QSPI_MemoryMapped io cmd cfg w = HAL_QSPI_MemoryMapped (frozen io) cmd cfg w"
  by (simp add: flm_HAL_QSPI_MemoryMapped_def HAL_QSPI_MemoryMapped_def flm_wait_eq flm_QSPI_Config_def
      handle_simps Let_def cong: if_cong)

lemma flm_tx_loop_eq:
  "timeout \<noteq> 0 \<Longrightarrow> flm_tx_loop io t timeout w = QSPI_tx_loop (frozen io) flm_HAL_GetTick timeout w"
proof (induction "unat (TxXferCount (hq w))" arbitrary: w)
  case 0
  then show ?case by (simp add: flm_tx_loop.simps QSPI_tx_loop.simps unat_eq_zero)
next
  case (Suc n)
  have pos: "0 < TxXferCount (hq w)" using Suc.hyps(2) by (simp add: word_less_nat_alt)
  have "flm_tx_loop io t timeout (tx_byte io w1) = QSPI_tx_loop (frozen io) flm_HAL_GetTick timeout (tx_byte io w1)"
    if "QSPI_WaitFlagStateUntilTimeout (frozen io) QSPI_FLAG_FT SET flm_HAL_GetTick timeout w = Some (HAL_OK, w1)" for w1
    using wait_handle [OF that] Suc.hyps(2) unat_Suc_pred [OF pos] Suc.prems
    by (intro Suc.hyps(1)) (auto simp: tx_byte_def)
  then show ?case
    using pos Suc.prems
    by (subst flm_tx_loop.simps, subst QSPI_tx_loop.simps)
      (auto simp: flm_wait_eq intro!: Option.bind_cong)
qed

lemma flm_rx_loop_eq:
  "timeout \<noteq> 0 \<Longrightarrow> flm_rx_loop io t timeout w = QSPI_rx_loop (frozen io) flm_HAL_GetTick timeout w"
proof (induction "unat (RxXferCount (hq w))" arbitrary: w)
  case 0
  then show ?case by (simp add: flm_rx_loop.simps QSPI_rx_loop.simps unat_eq_zero)
next
  case (Suc n)
  have pos: "0 < RxXferCount (hq w)" using Suc.hyps(2) by (simp add: word_less_nat_alt)
  have "flm_rx_loop io t timeout (rx_byte io w1) = QSPI_rx_loop (frozen io) flm_HAL_GetTick timeout (rx_byte io w1)"
    if "QSPI_WaitFlagStateUntilTimeout (frozen io) (QSPI_FLAG_FT OR QSPI_FLAG_TC) SET flm_HAL_GetTick timeout w
        = Some (HAL_OK, w1)" for w1
    using wait_handle [OF that] Suc.hyps(2) unat_Suc_pred [OF pos] Suc.prems
    by (intro Suc.hyps(1)) (auto simp: rx_byte_def split: prod.splits)
  then show ?case
    using pos Suc.prems
    by (subst flm_rx_loop.simps, subst QSPI_rx_loop.simps)
      (auto simp: flm_wait_eq intro!: Option.bind_cong)
qed

lemma flm_finish_eq:
  "timeout \<noteq> 0 \<Longrightarrow> flm_finish_xfer io t timeout w = QSPI_finish_xfer (frozen io) flm_HAL_GetTick timeout w"
  by (simp add: flm_finish_xfer_def QSPI_finish_xfer_def flm_wait_eq cong: if_cong)

lemma flm_Transmit_eq:
  "timeout \<noteq> 0 \<Longrightarrow> flm_HAL_QSPI_Transmit io p timeout w = HAL_QSPI_Transmit (frozen io) p timeout w"
  by (simp add: flm_HAL_QSPI_Transmit_def HAL_QSPI_Transmit_def flm_tx_loop_eq flm_finish_eq Let_def
      cong: if_cong)

lemma flm_Receive_eq:
  "timeout \<noteq> 0 \<Longrightarrow> flm_HAL_QSPI_Receive io p timeout w = HAL_QSPI_Receive (frozen io) p timeout w"
  by (simp add: flm_HAL_QSPI_Receive_def HAL_QSPI_Receive_def flm_rx_loop_eq flm_finish_eq Let_def
      cong: if_cong)

text \<open>
  Initialisation: without the lock, but on an unlocked handle with the same result. The wait does
  not look at the handle, so the lock taken in the meantime makes no difference.
\<close>

lemma flm_wait_frame_imp:
  assumes "flm_QSPI_WaitFlagStateUntilTimeout io f st t timeout w = Some r"
  shows "flm_QSPI_WaitFlagStateUntilTimeout io f st t timeout (w\<lparr>hq := q\<rparr>) = Some (fst r, (snd r)\<lparr>hq := q\<rparr>)"
proof (rule flm_QSPI_WaitFlagStateUntilTimeout.raw_induct [OF _ assms, where P = "\<lambda>io f st t timeout w r.
    flm_QSPI_WaitFlagStateUntilTimeout io f st t timeout (w\<lparr>hq := q\<rparr>) = Some (fst r, (snd r)\<lparr>hq := q\<rparr>)"], goal_cases)
  case (1 wait io f st t timeout w r)
  then show ?case
    using 1(2) 1(1) [of io f st t timeout "snd (HAL_QSPI_GET_FLAG io f w)" r]
    by (subst flm_QSPI_WaitFlagStateUntilTimeout.simps)
      (auto simp: GET_FLAG_eq Let_def split: if_splits)
qed

lemma flm_wait_frame:
  "flm_QSPI_WaitFlagStateUntilTimeout io f st t timeout (w\<lparr>hq := q\<rparr>) =
     map_option (\<lambda>(s, w'). (s, w'\<lparr>hq := q\<rparr>)) (flm_QSPI_WaitFlagStateUntilTimeout io f st t timeout w)"
proof (cases "flm_QSPI_WaitFlagStateUntilTimeout io f st t timeout w")
  case (Some r)
  from flm_wait_frame_imp [OF Some, of q] Some show ?thesis by (simp add: split_def)
next
  case None
  have "flm_QSPI_WaitFlagStateUntilTimeout io f st t timeout (w\<lparr>hq := q\<rparr>) \<noteq> Some r" for r
    using flm_wait_frame_imp [of io f st t timeout "w\<lparr>hq := q\<rparr>" r "hq w"] None by auto
  with None show ?thesis by (cases "flm_QSPI_WaitFlagStateUntilTimeout io f st t timeout (w\<lparr>hq := q\<rparr>)") auto
qed

lemma flm_wait_ok:
  assumes "flm_QSPI_WaitFlagStateUntilTimeout io f st t timeout w = Some r"
  shows "\<exists>h. r = (HAL_OK, w\<lparr>hw := h\<rparr>)"
proof (rule flm_QSPI_WaitFlagStateUntilTimeout.raw_induct [OF _ assms, where P = "\<lambda>io f st t timeout w r.
    \<exists>h. r = (HAL_OK, w\<lparr>hw := h\<rparr>)"], goal_cases)
  case (1 wait io f st t timeout w r)
  then show ?case
    using 1(2) 1(1) [of io f st t timeout "snd (HAL_QSPI_GET_FLAG io f w)" r]
    by (auto simp: GET_FLAG_eq Let_def split: if_splits)
qed

definition flm_configure :: "'h mmio \<Rightarrow> 'h qworld \<Rightarrow> 'h hal_result" where
  "flm_configure io w2 =
     (let w3 = MODIFY_REG io CR QUADSPI_CR_FTHRES
                 (push_bit QUADSPI_CR_FTHRES_Pos (FifoThreshold (Init (hq w2)) - 1)) w2
      in do {
        (status, w4) \<leftarrow> flm_QSPI_WaitFlagStateUntilTimeout io QSPI_FLAG_BUSY RESET flm_HAL_GetTick
                          (Timeout (hq w3)) w3;
        let i = Init (hq w4);
        Some (status, if status = HAL_OK
                  then set_State HAL_QSPI_STATE_READY (set_ErrorCode HAL_QSPI_ERROR_NONE
                    (HAL_QSPI_ENABLE io
                      (MODIFY_REG io DCR (QUADSPI_DCR_FSIZE OR QUADSPI_DCR_CSHT OR QUADSPI_DCR_CKMODE)
                         (push_bit QUADSPI_DCR_FSIZE_Pos (FlashSize i) OR ChipSelectHighTime i OR ClockMode i)
                        (MODIFY_REG io CR (QUADSPI_CR_PRESCALER OR QUADSPI_CR_SSHIFT OR
                           QUADSPI_CR_FSEL OR QUADSPI_CR_DFM)
                           (push_bit QUADSPI_CR_PRESCALER_Pos (ClockPrescaler i) OR
                            SampleShifting i OR FlashID i OR DualFlash i) w4))))
                  else w4)
      })"

lemma flm_Init_shape:
  "flm_HAL_QSPI_Init io M HQSPI w = flm_configure io
     (if State (hq w) = HAL_QSPI_STATE_RESET then HAL_QSPI_SetTimeout HAL_QPSI_TIMEOUT_DEFAULT_VALUE (M w) else w)"
  by (simp add: flm_HAL_QSPI_Init_def flm_configure_def Let_def cong: if_cong)

lemma flm_configure_eq:
  assumes "Timeout (hq v) \<noteq> 0" "Lock (hq v) = HAL_UNLOCKED"
  shows "init_configure (frozen io) flm_HAL_GetTick (set_Lock l v) = flm_configure io v"
proof -
  let ?f = "\<lambda>v. MODIFY_REG io CR QUADSPI_CR_FTHRES
                 (push_bit QUADSPI_CR_FTHRES_Pos (FifoThreshold (Init (hq v)) - 1)) v"
  have comm: "?f (set_Lock l v) = (?f v)\<lparr>hq := (hq v)\<lparr>Lock := l\<rparr>\<rparr>"
    by (simp add: reg_simps set_Lock_def)
  have hq: "hq (?f v) = hq v" by (simp add: reg_simps)
  show ?thesis
  proof (cases "flm_QSPI_WaitFlagStateUntilTimeout io QSPI_FLAG_BUSY RESET flm_HAL_GetTick (Timeout (hq v)) (?f v)")
    case None
    then show ?thesis
      using assms by (simp add: init_configure_def flm_configure_def comm hq flm_wait_eq [where t = flm_HAL_GetTick, symmetric] flm_wait_frame)
  next
    case (Some r)
    from flm_wait_ok [OF this] obtain h where r: "r = (HAL_OK, (?f v)\<lparr>hw := h\<rparr>)" by blast
    have tmo: "Timeout (hq (?f (set_Lock l v))) = Timeout (hq v)" by (simp add: comm)
    have wait: "QSPI_WaitFlagStateUntilTimeout (frozen io) QSPI_FLAG_BUSY RESET flm_HAL_GetTick (Timeout (hq v))
        (?f (set_Lock l v)) = Some (HAL_OK, (?f v)\<lparr>hw := h, hq := (hq v)\<lparr>Lock := l\<rparr>\<rparr>)"
      using assms(1) by (simp add: comm flm_wait_eq [where t = flm_HAL_GetTick, symmetric] flm_wait_frame Some r)
    show ?thesis
      unfolding init_configure_def flm_configure_def Let_def frozen_regs hq tmo wait Some r
      using assms(2) by (simp add: reg_simps handle_simps handle_restore)
  qed
qed

lemma flm_Init_eq:
  assumes "board_hook io' M" and "unlocked w" and "State (hq w) \<noteq> HAL_QSPI_STATE_RESET \<Longrightarrow> Timeout (hq w) \<noteq> 0"
  shows "flm_HAL_QSPI_Init io M HQSPI w = HAL_QSPI_Init (frozen io) M HQSPI w"
proof -
  let ?w2 = "if State (hq w) = HAL_QSPI_STATE_RESET
    then HAL_QSPI_SetTimeout HAL_QPSI_TIMEOUT_DEFAULT_VALUE (M w) else w"
  obtain h where M: "M w = w\<lparr>hw := h\<rparr>" using board_hook.hook [OF assms(1), of w] by blast
  have w2: "Lock (hq ?w2) = HAL_UNLOCKED" "Timeout (hq ?w2) \<noteq> 0"
    using assms(2,3) by (auto simp: M HAL_QSPI_SetTimeout_def)
  have self: "set_Lock HAL_UNLOCKED ?w2 = ?w2" using w2(1) by (auto simp: handle_restore set_Lock_def)
  have "HAL_QSPI_Init (frozen io) M HQSPI w = init_configure (frozen io) flm_HAL_GetTick
      (if State (hq w) = HAL_QSPI_STATE_RESET then ?w2 else set_Lock HAL_LOCKED ?w2)"
    using assms(2) by (simp add: Init_shape Let_def handle_restore set_Lock_def)
  also have "\<dots> = flm_configure io ?w2"
    using flm_configure_eq [OF w2(2,1), of io HAL_UNLOCKED] flm_configure_eq [OF w2(2,1), of io HAL_LOCKED]
    unfolding self by auto
  finally show ?thesis by (simp add: flm_Init_shape)
qed

end
