(* ===== verification/Flm_W25q.thy ===== *)
theory Flm_W25q
  imports Flm_Equiv
begin

text \<open>
  The flash driver of the flash-programming algorithm
  (\<open>FlashAlgorithm/flm_h750/Drivers/User/Src/qspi_w25q64.c\<close>), on its own copies of the
  QUADSPI and GPIO drivers. The GPIO copy writes the fields of a pin in another order: speed,
  output type and pull first, then the alternate function and the mode.
\<close>

section \<open>Pins and initialisation\<close>

definition flm_gpio_init_pin :: "'h mmio \<Rightarrow> nat \<Rightarrow> GPIO_InitTypeDef \<Rightarrow> nat \<Rightarrow> 'h qworld \<Rightarrow> 'h qworld" where
  "flm_gpio_init_pin io port cfg position w0 =
    (let w1 = (if Mode cfg \<in> {GPIO_MODE_OUTPUT_PP, GPIO_MODE_AF_PP, GPIO_MODE_OUTPUT_OD, GPIO_MODE_AF_OD}
               then MODIFY_REG io (OTYPER port) (push_bit position 1)
                      (push_bit position (drop_bit 4 (Mode cfg AND GPIO_OUTPUT_TYPE)))
                      (MODIFY_REG io (OSPEEDR port) (push_bit (position * 2) 3)
                        (push_bit (position * 2) (Speed cfg)) w0)
               else w0);
         w2 = MODIFY_REG io (PUPDR port) (push_bit (position * 2) 3)
                (push_bit (position * 2) (Pull cfg)) w1;
         w3 = (if Mode cfg = GPIO_MODE_AF_PP \<or> Mode cfg = GPIO_MODE_AF_OD
               then MODIFY_REG io (AFR port (position div 8)) (push_bit ((position mod 8) * 4) 0xF)
                      (push_bit ((position mod 8) * 4) (Alternate cfg)) w2
               else w2);
         w4 = MODIFY_REG io (MODER port) (push_bit (position * 2) 3)
                (push_bit (position * 2) (Mode cfg AND GPIO_MODE)) w3
     in if Mode cfg AND EXTI_MODE = EXTI_MODE then gpio_exti_pin io port cfg position w4 else w4)"

definition flm_HAL_GPIO_Init :: "'h mmio \<Rightarrow> nat \<Rightarrow> GPIO_InitTypeDef \<Rightarrow> 'h qworld \<Rightarrow> 'h qworld" where
  "flm_HAL_GPIO_Init io port cfg w = gpio_pins (flm_gpio_init_pin io port cfg) (Pin cfg) 0 w"

definition flm_HAL_QSPI_MspInit :: "'h mmio \<Rightarrow> 'h qworld \<Rightarrow> 'h qworld" where
  "flm_HAL_QSPI_MspInit io w =
    (if Instance (hq w) = QUADSPI_BASE then
       (let w0 = RCC_CLK_ENABLE io AHB3ENR 0x4000 w;
            w1 = GPIO_CLK_ENABLE io GPIOD (GPIO_CLK_ENABLE io GPIOD (GPIO_CLK_ENABLE io GPIOE
                   (GPIO_CLK_ENABLE io GPIOD (GPIO_CLK_ENABLE io GPIOB (GPIO_CLK_ENABLE io GPIOB w0)))));
            w2 = flm_HAL_GPIO_Init io GPIOB (quadspi_pin 0x0004 9) w1;
            w3 = flm_HAL_GPIO_Init io GPIOB (quadspi_pin 0x0040 10) w2;
            w4 = flm_HAL_GPIO_Init io GPIOD (quadspi_pin 0x0800 9) w3;
            w5 = flm_HAL_GPIO_Init io GPIOE (quadspi_pin 0x0004 9) w4;
            w6 = flm_HAL_GPIO_Init io GPIOD (quadspi_pin 0x1000 9) w5
        in flm_HAL_GPIO_Init io GPIOD (quadspi_pin 0x2000 9) w6)
     else w)"

definition flm_MX_QUADSPI_Init :: "'h mmio \<Rightarrow> 'h qworld \<Rightarrow> 'h qworld option" where
  "flm_MX_QUADSPI_Init io w =
    (let w1 = w\<lparr>hq := (hq w)\<lparr>Instance := QUADSPI_BASE,
               Init := \<lparr>ClockPrescaler = 1, FifoThreshold = 32,
                        SampleShifting = QSPI_SAMPLE_SHIFTING_HALFCYCLE, FlashSize = 22,
                        ChipSelectHighTime = QSPI_CS_HIGH_TIME_1_CYCLE, ClockMode = QSPI_CLOCK_MODE_3,
                        FlashID = QSPI_FLASH_ID_1, DualFlash = QSPI_DUALFLASH_DISABLE\<rparr>\<rparr>\<rparr>
     in map_option snd (flm_HAL_QSPI_Init io (flm_HAL_QSPI_MspInit io) HQSPI w1))"

section \<open>The flash driver\<close>

definition flm_QSPI_W25Qxx_AutoPollingMemReady :: "'h mmio \<Rightarrow> locals \<Rightarrow> 'h qworld \<Rightarrow> 'h drv_result" where
  "flm_QSPI_W25Qxx_AutoPollingMemReady io l w =
    (let cmd = (s_command l W25Qxx_CMD_ReadStatus_REG1)\<lparr>AddressMode := QSPI_ADDRESS_NONE,
                 DataMode := QSPI_DATA_1_LINE, DummyCycles := 0\<rparr>;
         cfg = \<lparr>Match = 0, Mask = W25Qxx_Status_REG1_BUSY, Interval = 0x10, StatusBytesSize = 1,
                MatchMode = QSPI_MATCH_MODE_AND, AutomaticStop = QSPI_AUTOMATIC_STOP_ENABLE\<rparr>
     in check (flm_HAL_QSPI_AutoPolling io cmd cfg HAL_QPSI_TIMEOUT_DEFAULT_VALUE w) HAL_OK
          W25Qxx_ERROR_AUTOPOLLING (\<lambda>w. Some (QSPI_W25Qxx_OK, w)))"

definition flm_QSPI_W25Qxx_Reset :: "'h mmio \<Rightarrow> locals \<Rightarrow> 'h qworld \<Rightarrow> 'h drv_result" where
  "flm_QSPI_W25Qxx_Reset io l w =
    (let cmd = (s_command l W25Qxx_CMD_EnableReset)\<lparr>AddressMode := QSPI_ADDRESS_NONE,
                 DataMode := QSPI_DATA_NONE, DummyCycles := 0\<rparr> in
     check (flm_HAL_QSPI_Command io cmd HAL_QPSI_TIMEOUT_DEFAULT_VALUE w) HAL_OK W25Qxx_ERROR_INIT
       (\<lambda>w. check (flm_QSPI_W25Qxx_AutoPollingMemReady io l w) QSPI_W25Qxx_OK W25Qxx_ERROR_AUTOPOLLING
       (\<lambda>w. check (flm_HAL_QSPI_Command io (cmd\<lparr>Instruction := W25Qxx_CMD_ResetDevice\<rparr>)
              HAL_QPSI_TIMEOUT_DEFAULT_VALUE w) HAL_OK W25Qxx_ERROR_INIT
       (\<lambda>w. check (flm_QSPI_W25Qxx_AutoPollingMemReady io l w) QSPI_W25Qxx_OK W25Qxx_ERROR_AUTOPOLLING
       (\<lambda>w. Some (QSPI_W25Qxx_OK, w))))))"

text \<open>The results of the command and of the reception are ignored.\<close>

definition flm_QSPI_W25Qxx_ReadID :: "'h mmio \<Rightarrow> locals \<Rightarrow> 'h qworld \<Rightarrow> (u32 \<times> 'h qworld) option" where
  "flm_QSPI_W25Qxx_ReadID io l w =
    (let cmd = (s_command l W25Qxx_CMD_JedecID)\<lparr>AddressSize := QSPI_ADDRESS_24_BITS,
                 AddressMode := QSPI_ADDRESS_NONE, DataMode := QSPI_DATA_1_LINE, DummyCycles := 0,
                 NbData := 3\<rparr> in
     do {
       (_, w1) \<leftarrow> flm_HAL_QSPI_Command io cmd HAL_QPSI_TIMEOUT_DEFAULT_VALUE w;
       (_, w2) \<leftarrow> flm_HAL_QSPI_Receive io (id_buf l) HAL_QPSI_TIMEOUT_DEFAULT_VALUE w1;
       let b = (\<lambda>i. ucast (mem w2 (id_buf l + i)) :: u32);
       Some (push_bit 16 (b 0) OR push_bit 8 (b 1) OR b 2, w2)
     })"

definition flm_QSPI_W25Qxx_Init :: "'h mmio \<Rightarrow> locals \<Rightarrow> 'h qworld \<Rightarrow> 'h drv_result" where
  "flm_QSPI_W25Qxx_Init io l w = do {
     w1 \<leftarrow> flm_MX_QUADSPI_Init io w;
     (_, w2) \<leftarrow> flm_QSPI_W25Qxx_Reset io l w1;
     (Device_ID, w3) \<leftarrow> flm_QSPI_W25Qxx_ReadID io l w2;
     Some (if Device_ID = W25Qxx_FLASH_ID then QSPI_W25Qxx_OK else W25Qxx_ERROR_INIT, w3)
   }"

definition flm_QSPI_W25Qxx_MemoryMappedMode :: "'h mmio \<Rightarrow> locals \<Rightarrow> 'h qworld \<Rightarrow> 'h drv_result" where
  "flm_QSPI_W25Qxx_MemoryMappedMode io l w =
    (let cmd = (s_command l W25Qxx_CMD_FastReadQuad_IO)\<lparr>AddressSize := QSPI_ADDRESS_24_BITS,
                 AddressMode := QSPI_ADDRESS_4_LINES, DataMode := QSPI_DATA_4_LINES, DummyCycles := 6\<rparr>;
         cfg = \<lparr>TimeOutPeriod = 0, TimeOutActivation = QSPI_TIMEOUT_COUNTER_DISABLE\<rparr> in
     do {
       (_, w1) \<leftarrow> flm_QSPI_W25Qxx_Reset io l w;
       check (flm_HAL_QSPI_MemoryMapped io cmd cfg w1) HAL_OK W25Qxx_ERROR_MemoryMapped
         (\<lambda>w. Some (QSPI_W25Qxx_OK, w))
     })"

definition flm_QSPI_W25Qxx_WriteEnable :: "'h mmio \<Rightarrow> locals \<Rightarrow> 'h qworld \<Rightarrow> 'h drv_result" where
  "flm_QSPI_W25Qxx_WriteEnable io l w =
    (let cmd = (s_command l W25Qxx_CMD_WriteEnable)\<lparr>AddressMode := QSPI_ADDRESS_NONE,
                 DataMode := QSPI_DATA_NONE, DummyCycles := 0\<rparr>;
         cfg = \<lparr>Match = 0x02, Mask = W25Qxx_Status_REG1_WEL, Interval = 0x10, StatusBytesSize = 1,
                MatchMode = QSPI_MATCH_MODE_AND, AutomaticStop = QSPI_AUTOMATIC_STOP_ENABLE\<rparr>
     in
     check (flm_HAL_QSPI_Command io cmd HAL_QPSI_TIMEOUT_DEFAULT_VALUE w) HAL_OK W25Qxx_ERROR_WriteEnable
       (\<lambda>w. check (flm_HAL_QSPI_AutoPolling io (cmd\<lparr>Instruction := W25Qxx_CMD_ReadStatus_REG1,
                      DataMode := QSPI_DATA_1_LINE, NbData := 1\<rparr>) cfg HAL_QPSI_TIMEOUT_DEFAULT_VALUE w)
              HAL_OK W25Qxx_ERROR_AUTOPOLLING
       (\<lambda>w. Some (QSPI_W25Qxx_OK, w))))"

text \<open>The body shared by the sector and block erase functions, which differ in the instruction.\<close>

definition flm_erase_at :: "'h mmio \<Rightarrow> locals \<Rightarrow> u32 \<Rightarrow> u32 \<Rightarrow> 'h qworld \<Rightarrow> 'h drv_result" where
  "flm_erase_at io l instr SectorAddress w =
    (let cmd = (s_command l instr)\<lparr>AddressSize := QSPI_ADDRESS_24_BITS,
                 AddressMode := QSPI_ADDRESS_1_LINE, DataMode := QSPI_DATA_NONE, DummyCycles := 0,
                 Address := SectorAddress\<rparr> in
     check (flm_QSPI_W25Qxx_WriteEnable io l w) QSPI_W25Qxx_OK W25Qxx_ERROR_WriteEnable
       (\<lambda>w. check (flm_HAL_QSPI_Command io cmd HAL_QPSI_TIMEOUT_DEFAULT_VALUE w) HAL_OK W25Qxx_ERROR_Erase
       (\<lambda>w. check (flm_QSPI_W25Qxx_AutoPollingMemReady io l w) QSPI_W25Qxx_OK W25Qxx_ERROR_AUTOPOLLING
       (\<lambda>w. Some (QSPI_W25Qxx_OK, w)))))"

definition flm_QSPI_W25Qxx_SectorErase :: "'h mmio \<Rightarrow> locals \<Rightarrow> u32 \<Rightarrow> 'h qworld \<Rightarrow> 'h drv_result" where
  "flm_QSPI_W25Qxx_SectorErase io l SectorAddress w = flm_erase_at io l W25Qxx_CMD_SectorErase SectorAddress w"

definition flm_QSPI_W25Qxx_BlockErase_32K :: "'h mmio \<Rightarrow> locals \<Rightarrow> u32 \<Rightarrow> 'h qworld \<Rightarrow> 'h drv_result" where
  "flm_QSPI_W25Qxx_BlockErase_32K io l SectorAddress w = flm_erase_at io l W25Qxx_CMD_BlockErase_32K SectorAddress w"

definition flm_QSPI_W25Qxx_BlockErase_64K :: "'h mmio \<Rightarrow> locals \<Rightarrow> u32 \<Rightarrow> 'h qworld \<Rightarrow> 'h drv_result" where
  "flm_QSPI_W25Qxx_BlockErase_64K io l SectorAddress w = flm_erase_at io l W25Qxx_CMD_BlockErase_64K SectorAddress w"

definition flm_QSPI_W25Qxx_ChipErase :: "'h mmio \<Rightarrow> locals \<Rightarrow> 'h qworld \<Rightarrow> 'h drv_result" where
  "flm_QSPI_W25Qxx_ChipErase io l w =
    (let cmd = (s_command l W25Qxx_CMD_ChipErase)\<lparr>AddressSize := QSPI_ADDRESS_24_BITS,
                 AddressMode := QSPI_ADDRESS_NONE, DataMode := QSPI_DATA_NONE, DummyCycles := 0\<rparr>;
         cfg = \<lparr>Match = 0, Mask = W25Qxx_Status_REG1_BUSY, Interval = 0x10, StatusBytesSize = 1,
                MatchMode = QSPI_MATCH_MODE_AND, AutomaticStop = QSPI_AUTOMATIC_STOP_ENABLE\<rparr>
     in
     check (flm_QSPI_W25Qxx_WriteEnable io l w) QSPI_W25Qxx_OK W25Qxx_ERROR_WriteEnable
       (\<lambda>w. check (flm_HAL_QSPI_Command io cmd HAL_QPSI_TIMEOUT_DEFAULT_VALUE w) HAL_OK W25Qxx_ERROR_Erase
       (\<lambda>w. check (flm_HAL_QSPI_AutoPolling io (cmd\<lparr>Instruction := W25Qxx_CMD_ReadStatus_REG1,
                      DataMode := QSPI_DATA_1_LINE, NbData := 1\<rparr>) cfg W25Qxx_ChipErase_TIMEOUT_MAX w)
              HAL_OK W25Qxx_ERROR_AUTOPOLLING
       (\<lambda>w. Some (QSPI_W25Qxx_OK, w)))))"

text \<open>\<open>NumByteToWrite\<close> is a \<open>uint16_t\<close>.\<close>

definition flm_QSPI_W25Qxx_WritePage :: "'h mmio \<Rightarrow> locals \<Rightarrow> u32 \<Rightarrow> u32 \<Rightarrow> u16 \<Rightarrow> 'h qworld \<Rightarrow> 'h drv_result" where
  "flm_QSPI_W25Qxx_WritePage io l pBuffer WriteAddr NumByteToWrite w =
    (let cmd = (s_command l W25Qxx_CMD_QuadInputPageProgram)\<lparr>AddressSize := QSPI_ADDRESS_24_BITS,
                 AddressMode := QSPI_ADDRESS_1_LINE, DataMode := QSPI_DATA_4_LINES, DummyCycles := 0,
                 NbData := ucast NumByteToWrite, Address := WriteAddr\<rparr> in
     check (flm_QSPI_W25Qxx_WriteEnable io l w) QSPI_W25Qxx_OK W25Qxx_ERROR_WriteEnable
       (\<lambda>w. check (flm_HAL_QSPI_Command io cmd HAL_QPSI_TIMEOUT_DEFAULT_VALUE w) HAL_OK W25Qxx_ERROR_TRANSMIT
       (\<lambda>w. check (flm_HAL_QSPI_Transmit io pBuffer HAL_QPSI_TIMEOUT_DEFAULT_VALUE w) HAL_OK W25Qxx_ERROR_TRANSMIT
       (\<lambda>w. check (flm_QSPI_W25Qxx_AutoPollingMemReady io l w) QSPI_W25Qxx_OK W25Qxx_ERROR_AUTOPOLLING
       (\<lambda>w. Some (QSPI_W25Qxx_OK, w))))))"

text \<open>The do-while loop; the call of \<open>WritePage\<close> converts the size to 16 bits.\<close>

partial_function (option) flm_write_loop ::
  "'h mmio \<Rightarrow> locals \<Rightarrow> u32 \<Rightarrow> u32 \<Rightarrow> u32 \<Rightarrow> u32 \<Rightarrow> 'h qworld \<Rightarrow> 'h drv_result" where
  "flm_write_loop io l end_addr write_data current_addr current_size w = do {
     (r, w1) \<leftarrow> flm_QSPI_W25Qxx_WritePage io l write_data current_addr (ucast current_size) w;
     if r \<noteq> QSPI_W25Qxx_OK then Some (W25Qxx_ERROR_TRANSMIT, w1)
     else
       (let addr = current_addr + current_size;
            data = write_data + current_size;
            size = (if addr + W25Qxx_PageSize > end_addr then end_addr - addr else W25Qxx_PageSize)
        in if addr < end_addr then flm_write_loop io l end_addr data addr size w1
           else Some (QSPI_W25Qxx_OK, w1))
   }"

declare flm_write_loop.simps [code]

definition flm_QSPI_W25Qxx_WriteBuffer :: "'h mmio \<Rightarrow> locals \<Rightarrow> u32 \<Rightarrow> u32 \<Rightarrow> u32 \<Rightarrow> 'h qworld \<Rightarrow> 'h drv_result" where
  "flm_QSPI_W25Qxx_WriteBuffer io l pBuffer WriteAddr Size w =
    (let s = W25Qxx_PageSize - (WriteAddr mod W25Qxx_PageSize);
         current_size = (if s > Size then Size else s)
     in flm_write_loop io l (WriteAddr + Size) pBuffer WriteAddr current_size w)"

definition flm_QSPI_W25Qxx_ReadBuffer :: "'h mmio \<Rightarrow> locals \<Rightarrow> u32 \<Rightarrow> u32 \<Rightarrow> u32 \<Rightarrow> 'h qworld \<Rightarrow> 'h drv_result" where
  "flm_QSPI_W25Qxx_ReadBuffer io l pBuffer ReadAddr NumByteToRead w =
    (let cmd = (s_command l W25Qxx_CMD_FastReadQuad_IO)\<lparr>AddressSize := QSPI_ADDRESS_24_BITS,
                 AddressMode := QSPI_ADDRESS_4_LINES, DataMode := QSPI_DATA_4_LINES, DummyCycles := 6,
                 NbData := NumByteToRead, Address := ReadAddr\<rparr> in
     check (flm_HAL_QSPI_Command io cmd HAL_QPSI_TIMEOUT_DEFAULT_VALUE w) HAL_OK W25Qxx_ERROR_TRANSMIT
       (\<lambda>w. check (flm_HAL_QSPI_Receive io pBuffer HAL_QPSI_TIMEOUT_DEFAULT_VALUE w) HAL_OK W25Qxx_ERROR_TRANSMIT
       (\<lambda>w. check (flm_QSPI_W25Qxx_AutoPollingMemReady io l w) QSPI_W25Qxx_OK W25Qxx_ERROR_AUTOPOLLING
       (\<lambda>w. Some (QSPI_W25Qxx_OK, w)))))"

section \<open>Agreement with the bootloader's driver\<close>

lemma flm_AutoPollingMemReady_eq:
  "flm_QSPI_W25Qxx_AutoPollingMemReady io l w = QSPI_W25Qxx_AutoPollingMemReady (frozen io) l w"
  by (simp add: flm_QSPI_W25Qxx_AutoPollingMemReady_def QSPI_W25Qxx_AutoPollingMemReady_def flm_AutoPolling_eq)

lemmas flm_hal_eq = flm_Command_eq flm_AutoPolling_eq flm_Transmit_eq flm_Receive_eq
  flm_AutoPollingMemReady_eq

lemma flm_Reset_eq: "flm_QSPI_W25Qxx_Reset io l w = QSPI_W25Qxx_Reset (frozen io) l w"
  by (simp add: flm_QSPI_W25Qxx_Reset_def QSPI_W25Qxx_Reset_def flm_hal_eq)

lemma flm_ReadID_eq: "flm_QSPI_W25Qxx_ReadID io l w = QSPI_W25Qxx_ReadID (frozen io) l w"
  by (simp add: flm_QSPI_W25Qxx_ReadID_def QSPI_W25Qxx_ReadID_def flm_hal_eq)

lemma flm_WriteEnable_eq: "flm_QSPI_W25Qxx_WriteEnable io l w = QSPI_W25Qxx_WriteEnable (frozen io) l w"
  by (simp add: flm_QSPI_W25Qxx_WriteEnable_def QSPI_W25Qxx_WriteEnable_def flm_hal_eq)

lemma flm_erase_at_eq: "flm_erase_at io l i a w = erase_at (frozen io) l i a w"
  by (simp add: flm_erase_at_def erase_at_def flm_hal_eq flm_WriteEnable_eq)

lemmas flm_erase_eq =
  flm_erase_at_eq [of _ _ W25Qxx_CMD_SectorErase,
    folded flm_QSPI_W25Qxx_SectorErase_def QSPI_W25Qxx_SectorErase_def]
  flm_erase_at_eq [of _ _ W25Qxx_CMD_BlockErase_32K,
    folded flm_QSPI_W25Qxx_BlockErase_32K_def QSPI_W25Qxx_BlockErase_32K_def]
  flm_erase_at_eq [of _ _ W25Qxx_CMD_BlockErase_64K,
    folded flm_QSPI_W25Qxx_BlockErase_64K_def QSPI_W25Qxx_BlockErase_64K_def]

lemma flm_ChipErase_eq: "flm_QSPI_W25Qxx_ChipErase io l w = QSPI_W25Qxx_ChipErase (frozen io) l w"
  by (simp add: flm_QSPI_W25Qxx_ChipErase_def QSPI_W25Qxx_ChipErase_def flm_hal_eq flm_WriteEnable_eq)

lemma flm_WritePage_eq: "flm_QSPI_W25Qxx_WritePage io l p a n w = QSPI_W25Qxx_WritePage (frozen io) l p a n w"
  by (simp add: flm_QSPI_W25Qxx_WritePage_def QSPI_W25Qxx_WritePage_def flm_hal_eq flm_WriteEnable_eq)

lemma flm_write_loop_imp:
  assumes "flm_write_loop io l e d a n w = Some r"
  shows "write_loop (frozen io) l e d a n w = Some r"
proof (rule flm_write_loop.raw_induct [OF _ assms, where P = "\<lambda>io l e d a n w r.
    write_loop (frozen io) l e d a n w = Some r"], goal_cases)
  case (1 loop io l e d a n w r)
  then show ?case
    by (cases r, subst write_loop.simps) (auto simp: flm_WritePage_eq Let_def bind_eq_Some_conv split: if_splits)
qed

lemma write_loop_imp:
  assumes "write_loop io' l e d a n w = Some r"
  shows "io' = frozen io \<longrightarrow> flm_write_loop io l e d a n w = Some r"
proof (rule write_loop.raw_induct [OF _ assms, where P = "\<lambda>io' l e d a n w r.
    io' = frozen io \<longrightarrow> flm_write_loop io l e d a n w = Some r"], goal_cases)
  case (1 loop io' l e d a n w r)
  then show ?case
    by (cases r, subst flm_write_loop.simps) (auto simp: flm_WritePage_eq Let_def bind_eq_Some_conv split: if_splits)
qed

lemma flm_write_loop_eq: "flm_write_loop io l e d a n w = write_loop (frozen io) l e d a n w"
proof (cases "flm_write_loop io l e d a n w")
  case (Some r)
  then show ?thesis using flm_write_loop_imp [OF Some] by simp
next
  case None
  then have "write_loop (frozen io) l e d a n w \<noteq> Some r" for r using write_loop_imp [of "frozen io"] by fastforce
  with None show ?thesis by (metis not_None_eq)
qed

lemma flm_WriteBuffer_eq:
  "flm_QSPI_W25Qxx_WriteBuffer io l p a n w = QSPI_W25Qxx_WriteBuffer (frozen io) l p a n w"
  by (simp add: flm_QSPI_W25Qxx_WriteBuffer_def QSPI_W25Qxx_WriteBuffer_def flm_write_loop_eq)

lemma flm_ReadBuffer_eq:
  "flm_QSPI_W25Qxx_ReadBuffer io l p a n w = QSPI_W25Qxx_ReadBuffer (frozen io) l p a n w"
  by (simp add: flm_QSPI_W25Qxx_ReadBuffer_def QSPI_W25Qxx_ReadBuffer_def flm_hal_eq)

lemmas flm_driver_eq = flm_Reset_eq flm_ReadID_eq flm_WriteEnable_eq flm_erase_eq flm_ChipErase_eq
  flm_WritePage_eq flm_WriteBuffer_eq flm_ReadBuffer_eq
  flm_AutoPollingMemReady_eq

end
