(* ===== verification/Flash_Prg.thy ===== *)
theory Flash_Prg
  imports Flm_W25q Flash_Chip
begin

text \<open>
  The programming algorithm that the debugger loads into the target
  (\<open>FlashAlgorithm/flm_h750/Flash/FlashPrg.c\<close>) and its device description
  (\<open>FlashDev.c\<close>, \<open>FlashOS.h\<close>). \<open>SystemInit\<close> and
  \<open>SystemClock_Config\<close> set up clocks and power; they are parameters of \<open>flm_Init\<close>.
  The address of the buffer \<open>Verify_Data\<close> is a parameter of \<open>flm_Verify\<close>.
\<close>

section \<open>Definitions\<close>

record FlashSectors =
  szSector :: u32
  AddrSector :: u32

record FlashDevice =
  Vers :: u16
  DevName :: string
  DevType :: u16
  DevAdr :: u32
  szDev :: u32
  szPage :: u32
  Res :: u32
  valEmpty :: u8
  toProg :: u32
  toErase :: u32
  sectors :: "FlashSectors list"

abbreviation (input) W25Qxx_Mem_Addr :: u32 where "W25Qxx_Mem_Addr \<equiv> 0x90000000"
abbreviation (input) sizeof_Verify_Data :: u32 where "sizeof_Verify_Data \<equiv> 4 * 1024"

definition the_FlashDevice :: FlashDevice where
  "the_FlashDevice = \<lparr>Vers = 0x0101, DevName = ''STM32H750Device'', DevType = 5, DevAdr = 0x90000000,
     szDev = 8 * 1024 * 1024, szPage = 4 * 1024, Res = 0, valEmpty = 0xFF, toProg = 1000, toErase = 6000,
     sectors = [\<lparr>szSector = 64 * 1024, AddrSector = 0\<rparr>,
                \<lparr>szSector = 0xFFFFFFFF, AddrSector = 0xFFFFFFFF\<rparr>]\<rparr>"

definition flm_Init ::
  "('h qworld \<Rightarrow> 'h qworld) \<Rightarrow> ('h qworld \<Rightarrow> 'h drv_result) \<Rightarrow> 'h mmio \<Rightarrow> locals \<Rightarrow>
   u32 \<Rightarrow> u32 \<Rightarrow> u32 \<Rightarrow> 'h qworld \<Rightarrow> 'h drv_result" where
  "flm_Init SystemInit SystemClock_Config io l adr clk fnc w = do {
     (_, w1) \<leftarrow> SystemClock_Config (SystemInit w);
     check (flm_QSPI_W25Qxx_Init io l w1) QSPI_W25Qxx_OK 1 (\<lambda>w. Some (0, w))
   }"

definition flm_UnInit :: "'h mmio \<Rightarrow> locals \<Rightarrow> u32 \<Rightarrow> 'h qworld \<Rightarrow> 'h drv_result" where
  "flm_UnInit io l fnc w = check (flm_QSPI_W25Qxx_Init io l w) QSPI_W25Qxx_OK 1 (\<lambda>w. Some (0, w))"

definition flm_EraseChip :: "'h mmio \<Rightarrow> locals \<Rightarrow> 'h qworld \<Rightarrow> 'h drv_result" where
  "flm_EraseChip io l w = check (flm_QSPI_W25Qxx_ChipErase io l w) QSPI_W25Qxx_OK 1 (\<lambda>w. Some (0, w))"

definition flm_EraseSector :: "'h mmio \<Rightarrow> locals \<Rightarrow> u32 \<Rightarrow> 'h qworld \<Rightarrow> 'h drv_result" where
  "flm_EraseSector io l adr w =
     check (flm_QSPI_W25Qxx_BlockErase_64K io l (adr - W25Qxx_Mem_Addr) w) QSPI_W25Qxx_OK 1 (\<lambda>w. Some (0, w))"

definition flm_BlankCheck :: "u32 \<Rightarrow> u32 \<Rightarrow> u8 \<Rightarrow> int" where
  "flm_BlankCheck adr sz pat = 1"

text \<open>The result of the write is ignored.\<close>

definition flm_ProgramPage :: "'h mmio \<Rightarrow> locals \<Rightarrow> u32 \<Rightarrow> u32 \<Rightarrow> u32 \<Rightarrow> 'h qworld \<Rightarrow> 'h drv_result" where
  "flm_ProgramPage io l adr sz buf w = do {
     (_, w1) \<leftarrow> flm_QSPI_W25Qxx_WriteBuffer io l buf (adr - W25Qxx_Mem_Addr) sz w;
     Some (0, w1)
   }"

function verify_loop :: "u32 \<Rightarrow> u32 \<Rightarrow> u32 \<Rightarrow> u32 \<Rightarrow> (u32 \<Rightarrow> u8) \<Rightarrow> u32 \<Rightarrow> u32" where
  "verify_loop adr sz buf Verify_Data m i =
     (if i < sz then if m (Verify_Data + i) \<noteq> m (buf + i) then adr + i
                     else verify_loop adr sz buf Verify_Data m (i + 1)
      else adr + sz)"
  by pat_completeness auto
termination
  by (relation "measure (\<lambda>(_, sz, _, _, _, i). unat sz - unat i)")
    (simp_all add: unat_next, simp add: word_less_nat_alt)

declare verify_loop.simps [simp del]

definition flm_Verify ::
  "'h mmio \<Rightarrow> locals \<Rightarrow> u32 \<Rightarrow> u32 \<Rightarrow> u32 \<Rightarrow> u32 \<Rightarrow> 'h qworld \<Rightarrow> (u32 \<times> 'h qworld) option" where
  "flm_Verify io l Verify_Data adr sz buf w = do {
     (_, w1) \<leftarrow> flm_QSPI_W25Qxx_ReadBuffer io l Verify_Data (adr - W25Qxx_Mem_Addr) sz w;
     Some (verify_loop adr sz buf Verify_Data (mem w1) 0, w1)
   }"

section \<open>The comparison loop\<close>

definition first_diff :: "'a list \<Rightarrow> 'a list \<Rightarrow> nat" where
  "first_diff xs ys = length (takeWhile (\<lambda>(x, y). x = y) (zip xs ys))"

lemma first_diff_Cons [simp]: "first_diff (x # xs) (y # ys) = (if x = y then Suc (first_diff xs ys) else 0)"
  by (simp add: first_diff_def)

lemma first_diff_Nil [simp]: "first_diff [] ys = 0"
  by (simp add: first_diff_def)

lemma first_diff_eq: "length xs = length ys \<Longrightarrow> first_diff xs ys = length xs \<longleftrightarrow> xs = ys"
  by (induction xs ys rule: list_induct2) auto

lemma first_diff_le: "first_diff xs ys \<le> length xs"
  unfolding first_diff_def using length_takeWhile_le [of _ "zip xs ys"] by (rule order_trans) simp

lemma verify_loop_diff:
  assumes "i \<le> sz"
  shows "verify_loop adr sz buf vd m i = adr + i +
    of_nat (first_diff (bytes_at m (vd + i) (unat (sz - i))) (bytes_at m (buf + i) (unat (sz - i))))"
  using assms
proof (induction "unat (sz - i)" arbitrary: i)
  case 0
  then have "sz = i" by (simp add: unat_eq_zero)
  then show ?case by (simp add: verify_loop.simps)
next
  case (Suc n)
  then have "i \<noteq> sz" by auto
  with Suc.prems have less: "i < sz" by simp
  then have n: "n = unat (sz - (i + 1))" using Suc.hyps(2) unat_pred [of "sz - i"]
    by (metis diff_Suc_1 diff_diff_eq nat.distinct(1) unat_eq_zero)
  have next_le: "i + 1 \<le> sz" using less by (simp add: inc_le)
  have unfold: "bytes_at m (x + i) (unat (sz - i)) = m (x + i) # bytes_at m (x + (i + 1)) n" for x
    by (simp add: Suc.hyps(2) [symmetric] bytes_at_Suc add.assoc)
  from Suc.hyps(1) [OF n next_le] less show ?case
    unfolding unfold n [symmetric] by (subst verify_loop.simps) (simp add: algebra_simps)
qed

section \<open>Without timeouts nothing fails\<close>

text \<open>
  In this copy of the driver a wait ends only when the flag is there. An operation on a ready
  handle therefore either does not return or succeeds.
\<close>

definition sure :: "('h qworld \<Rightarrow> ('s \<times> 'h qworld) option) \<Rightarrow> 's \<Rightarrow> bool" where
  "sure op ok \<longleftrightarrow> (\<forall>w s w'. op w = Some (s, w') \<longrightarrow> unlocked w \<longrightarrow> ready w \<longrightarrow>
     s = ok \<and> unlocked w' \<and> ready w')"

lemma sureD: "sure op ok \<Longrightarrow> op w = Some (s, w') \<Longrightarrow> unlocked w \<Longrightarrow> ready w \<Longrightarrow> s = ok \<and> unlocked w' \<and> ready w'"
  by (auto simp: sure_def)

lemma sureI:
  "(\<And>w s w'. unlocked w \<Longrightarrow> ready w \<Longrightarrow> op w = Some (s, w') \<Longrightarrow> s = ok \<and> unlocked w' \<and> ready w') \<Longrightarrow> sure op ok"
  unfolding sure_def by blast

lemma sure_done: "sure (\<lambda>w. Some (ok, w)) ok"
  by (simp add: sure_def)

lemma sure_check:
  assumes "sure op ok" "sure k 0"
  shows "sure (\<lambda>w. check (op w) ok err k) 0"
  unfolding sure_def
proof (intro allI impI)
  fix w s w' assume "check (op w) ok err k = Some (s, w')" "unlocked w" "ready w"
  then show "s = 0 \<and> unlocked w' \<and> ready w'"
    by (elim check_Some) (use assms in \<open>auto dest: sureD\<close>)
qed

lemma flm_wait_timeout_imp:
  assumes "flm_QSPI_WaitFlagStateUntilTimeout io f st t0 timeout w = Some r"
  shows "flm_QSPI_WaitFlagStateUntilTimeout io f st t0 timeout' w = Some r"
proof (rule flm_QSPI_WaitFlagStateUntilTimeout.raw_induct [OF _ assms, where P = "\<lambda>io f st t0 timeout w r.
    flm_QSPI_WaitFlagStateUntilTimeout io f st t0 timeout' w = Some r"], goal_cases)
  case (1 wait io f st t0 timeout w r)
  then show ?case
    using 1(2) 1(1) [of io f st t0 timeout "snd (HAL_QSPI_GET_FLAG io f w)" r]
    by (subst flm_QSPI_WaitFlagStateUntilTimeout.simps) (auto simp: split_def Let_def split: if_splits)
qed

lemma flm_wait_timeout:
  "flm_QSPI_WaitFlagStateUntilTimeout io f st t0 timeout w =
   flm_QSPI_WaitFlagStateUntilTimeout io f st t0 HAL_MAX_DELAY w"
  by (rule option_eqI) (erule flm_wait_timeout_imp)+

lemma flm_tx_loop_timeout_imp:
  assumes "flm_tx_loop io t0 timeout w = Some r"
  shows "flm_tx_loop io t0 timeout' w = Some r"
proof (rule flm_tx_loop.raw_induct [OF _ assms, where P = "\<lambda>io t0 timeout w r.
    flm_tx_loop io t0 timeout' w = Some r"], goal_cases)
  case (1 loop io t0 timeout w r)
  then show ?case
    by (cases r, subst flm_tx_loop.simps)
      (auto simp: bind_eq_Some_conv flm_wait_timeout [of _ _ _ _ timeout] flm_wait_timeout [of _ _ _ _ timeout']
        split: if_splits)
qed

lemma flm_rx_loop_timeout_imp:
  assumes "flm_rx_loop io t0 timeout w = Some r"
  shows "flm_rx_loop io t0 timeout' w = Some r"
proof (rule flm_rx_loop.raw_induct [OF _ assms, where P = "\<lambda>io t0 timeout w r.
    flm_rx_loop io t0 timeout' w = Some r"], goal_cases)
  case (1 loop io t0 timeout w r)
  then show ?case
    by (cases r, subst flm_rx_loop.simps)
      (auto simp: bind_eq_Some_conv flm_wait_timeout [of _ _ _ _ timeout] flm_wait_timeout [of _ _ _ _ timeout']
        split: if_splits)
qed

lemma flm_loop_timeout:
  "flm_tx_loop io t0 timeout w = flm_tx_loop io t0 HAL_MAX_DELAY w"
  "flm_rx_loop io t0 timeout w = flm_rx_loop io t0 HAL_MAX_DELAY w"
   apply (rule option_eqI; erule flm_tx_loop_timeout_imp)
  apply (rule option_eqI; erule flm_rx_loop_timeout_imp)
  done

lemma flm_ops_timeout:
  "flm_HAL_QSPI_Command io cmd timeout w = HAL_QSPI_Command (frozen io) cmd HAL_MAX_DELAY w"
  "flm_HAL_QSPI_AutoPolling io cmd cfg timeout w = HAL_QSPI_AutoPolling (frozen io) cmd cfg HAL_MAX_DELAY w"
  "flm_HAL_QSPI_Transmit io p timeout w = HAL_QSPI_Transmit (frozen io) p HAL_MAX_DELAY w"
  "flm_HAL_QSPI_Receive io p timeout w = HAL_QSPI_Receive (frozen io) p HAL_MAX_DELAY w"
     apply (subst flm_Command_eq [symmetric], simp)
     apply (simp add: flm_HAL_QSPI_Command_def flm_wait_timeout [of _ _ _ _ timeout] cong: if_cong)
    apply (subst flm_AutoPolling_eq [symmetric], simp)
    apply (simp add: flm_HAL_QSPI_AutoPolling_def flm_wait_timeout [of _ _ _ _ timeout] cong: if_cong)
   apply (subst flm_Transmit_eq [symmetric], simp)
   apply (simp add: flm_HAL_QSPI_Transmit_def flm_finish_xfer_def flm_wait_timeout [of _ _ _ _ timeout]
      flm_loop_timeout [of _ _ timeout] cong: if_cong)
  apply (subst flm_Receive_eq [symmetric], simp)
  apply (simp add: flm_HAL_QSPI_Receive_def flm_finish_xfer_def flm_wait_timeout [of _ _ _ _ timeout]
      flm_loop_timeout [of _ _ timeout] cong: if_cong)
  done

lemma sure_Command: "sure (flm_HAL_QSPI_Command io cmd t) HAL_OK"
  by (rule sureI, unfold flm_ops_timeout, frule (2) Command_ready) (auto simp: command_result_def)

lemma sure_AutoPolling: "sure (flm_HAL_QSPI_AutoPolling io cmd cfg t) HAL_OK"
  by (rule sureI, unfold flm_ops_timeout, frule (2) AutoPolling_ready) (auto simp: polling_result_def)

lemma sure_Transmit: "p \<noteq> 0 \<Longrightarrow> sure (flm_HAL_QSPI_Transmit io p t) HAL_OK"
  by (rule sureI, unfold flm_ops_timeout, frule (2) Transmit_ready)
    (auto simp: transmit_result_def xfer_frame_def Let_def)

lemma sure_Receive: "p \<noteq> 0 \<Longrightarrow> sure (flm_HAL_QSPI_Receive io p t) HAL_OK"
  by (rule sureI, unfold flm_ops_timeout, frule (2) Receive_ready)
    (auto simp: receive_result_def xfer_frame_def Let_def)

lemma sure_MemReady: "sure (flm_QSPI_W25Qxx_AutoPollingMemReady io l) 0"
  unfolding flm_QSPI_W25Qxx_AutoPollingMemReady_def Let_def by (intro sure_check sure_AutoPolling sure_done)

lemmas sure_intros = sure_check sure_Command sure_AutoPolling sure_Transmit sure_Receive sure_done sure_MemReady

lemma sure_WriteEnable: "sure (flm_QSPI_W25Qxx_WriteEnable io l) 0"
  unfolding flm_QSPI_W25Qxx_WriteEnable_def Let_def by (intro sure_intros)

lemma sure_erase: "sure (flm_erase_at io l i a) 0"
  unfolding flm_erase_at_def Let_def by (intro sure_intros sure_WriteEnable)

lemma sure_ChipErase: "sure (flm_QSPI_W25Qxx_ChipErase io l) 0"
  unfolding flm_QSPI_W25Qxx_ChipErase_def Let_def by (intro sure_intros sure_WriteEnable)

lemma sure_WritePage: "p \<noteq> 0 \<Longrightarrow> sure (flm_QSPI_W25Qxx_WritePage io l p a n) 0"
  unfolding flm_QSPI_W25Qxx_WritePage_def Let_def by (intro sure_intros sure_WriteEnable)

lemma sure_ReadBuffer: "p \<noteq> 0 \<Longrightarrow> sure (flm_QSPI_W25Qxx_ReadBuffer io l p a n) 0"
  unfolding flm_QSPI_W25Qxx_ReadBuffer_def Let_def by (intro sure_intros)

text \<open>The pointer of the write loop stays inside the buffer.\<close>

definition loop_inv :: "u32 \<Rightarrow> u32 \<Rightarrow> u32 \<Rightarrow> u32 \<Rightarrow> bool" where
  "loop_inv e p a s \<longleftrightarrow> p \<noteq> 0 \<and> a \<le> e \<and> s \<le> e - a \<and> unat p + unat (e - a) \<le> 2 ^ 32 \<and> unat e + 256 < 2 ^ 32"

lemma loop_inv_step:
  assumes "loop_inv e p a s" "a + s < e"
  shows "loop_inv e (p + s) (a + s) (if a + s + 256 > e then e - (a + s) else 256)"
proof -
  have le: "unat s \<le> unat (e - a)" "unat a \<le> unat e" using assms(1)
    by (simp_all add: loop_inv_def word_le_nat_alt)
  have ea: "unat (e - a) = unat e - unat a" using le(2) by (simp add: unat_sub_if')
  have as: "unat (a + s) = unat a + unat s"
    using le ea unat_u32_less [of e] by (intro unat_add_u32) simp
  have lt: "unat a + unat s < unat e" using assms(2) as by (simp add: word_less_nat_alt)
  have r: "unat (e - (a + s)) = unat e - (unat a + unat s)" using lt as by (simp add: unat_sub_if')
  have ps: "unat (p + s) = unat p + unat s"
    using assms(1) lt ea by (intro unat_add_u32) (auto simp: loop_inv_def)
  have p0: "unat p \<noteq> 0" using assms(1) by (simp add: loop_inv_def unat_eq_zero)
  have "unat (a + s + 256) = unat (a + s) + 256"
    using assms(1) lt as by (subst unat_add_u32) (simp_all add: loop_inv_def)
  then show ?thesis
    using assms(1) lt as r ps p0 ea
    by (auto simp: loop_inv_def word_le_nat_alt word_less_nat_alt unat_eq_zero [symmetric])
qed

lemma sure_write_loop:
  assumes "flm_write_loop io l e d a n w = Some r"
  shows "loop_inv e d a n \<longrightarrow> unlocked w \<longrightarrow> ready w \<longrightarrow> fst r = 0 \<and> unlocked (snd r) \<and> ready (snd r)"
proof (rule flm_write_loop.raw_induct [OF _ assms, where P = "\<lambda>io l e d a n w r.
    loop_inv e d a n \<longrightarrow> unlocked w \<longrightarrow> ready w \<longrightarrow> fst r = 0 \<and> unlocked (snd r) \<and> ready (snd r)"], goal_cases)
  case (1 loop io l e d a n w r)
  show ?case
  proof (intro impI)
    assume inv: "loop_inv e d a n" and w: "unlocked w" "ready w"
    from 1(2) obtain s w1 where pg: "flm_QSPI_W25Qxx_WritePage io l d a (ucast n) w = Some (s, w1)"
      by (auto simp: bind_eq_Some_conv)
    have "d \<noteq> 0" using inv by (simp add: loop_inv_def)
    from sureD [OF sure_WritePage [OF this] pg w] have ok: "s = 0" "unlocked w1" "ready w1" by simp_all
    show "fst r = 0 \<and> unlocked (snd r) \<and> ready (snd r)"
    proof (cases "a + n < e")
      case True
      with 1(2) pg ok(1) have "loop io l e (d + n) (a + n) (if a + n + 256 > e then e - (a + n) else 256) w1 = Some r"
        by (simp add: Let_def)
      from 1(1) [OF this] loop_inv_step [OF inv True] ok(2,3) show ?thesis by simp
    next
      case False
      with 1(2) pg ok show ?thesis by auto
    qed
  qed
qed

lemma loop_inv_start:
  assumes "writable p a n"
  shows "loop_inv (a + n) p a (if 256 - (a mod 256) > n then n else 256 - (a mod 256))"
proof -
  have "unat (a + n) = unat a + unat n" using assms by (intro unat_add_u32) (simp add: writable_def)
  then show ?thesis using assms by (auto simp: loop_inv_def writable_def word_le_nat_alt word_less_nat_alt)
qed

lemma sure_WriteBuffer: "writable p a n \<Longrightarrow> sure (flm_QSPI_W25Qxx_WriteBuffer io l p a n) 0"
  unfolding flm_QSPI_W25Qxx_WriteBuffer_def Let_def
  using sure_write_loop loop_inv_start by (intro sureI) fastforce

section \<open>The interface of the flash store\<close>

lemma frozen_log: "frozen (log_io io) = log_io (frozen io)"
  by (simp add: frozen_def log_io_def fun_eq_iff)

lemma bus_frozen: "bus (frozen io) h tr h' \<Longrightarrow> bus io h tr h'"
proof (induction rule: bus.induct)
  case (bus_rd h tr h1 r)
  from bus.bus_rd [OF bus_rd.IH] show ?case by simp
next
  case (bus_wr h tr h1 r v)
  from bus.bus_wr [OF bus_wr.IH] show ?case by simp
next
  case (bus_wr8 h tr h1 b)
  from bus.bus_wr8 [OF bus_wr8.IH] show ?case by simp
next
  case (bus_rd8 h tr h1)
  from bus.bus_rd8 [OF bus_rd8.IH] show ?case by simp
qed (simp_all add: bus.bus_refl)

lemma command_latched_frozen: "command_latched io \<Longrightarrow> command_latched (frozen io)"
  unfolding command_latched_def frozen_io using bus_frozen [of io] by blast

lemma driver_idle_frozen: "driver_idle io w \<Longrightarrow> driver_idle (frozen io) w"
  by (simp add: driver_idle_def command_latched_frozen)

lemma driver_idle_thaw: "driver_idle io w \<Longrightarrow> driver_idle (frozen io) w' \<Longrightarrow> driver_idle io w'"
  by (simp add: driver_idle_def)

lemma EraseSector_result:
  assumes "driver_idle io w" "flm_EraseSector (log_io io) l adr w = Some (s, w')"
  shows "s = 0 \<and> driver_idle io w' \<and> mem w' = mem w \<and>
    flash_content k w' = erase_cells 0x10000 (unat (adr - W25Qxx_Mem_Addr)) (flash_content k w)"
proof -
  let ?a = "adr - W25Qxx_Mem_Addr"
  have w: "unlocked w" "ready w" using assms(1) by (simp_all add: driver_idle_def)
  from assms(2) obtain s1 where run: "flm_erase_at (log_io io) l 0xD8 ?a w = Some (s1, w')"
    and s: "s1 = 0 \<longrightarrow> s = 0"
    unfolding flm_EraseSector_def flm_QSPI_W25Qxx_BlockErase_64K_def by (auto elim: check_Some)
  with sureD [OF sure_erase run w] have "s = 0" "erase_at (log_io (frozen io)) l 0xD8 ?a w = Some (0, w')"
    by (simp_all add: flm_erase_at_eq frozen_log)
  with erase_cells_OK [OF driver_idle_frozen [OF assms(1)] this(2)] driver_idle_thaw [OF assms(1)] show ?thesis
    by (simp add: block_size_def)
qed

lemma ProgramPage_result:
  assumes "driver_idle io w" "writable buf (adr - W25Qxx_Mem_Addr) sz"
    and "flm_ProgramPage (log_io io) l adr sz buf w = Some (s, w')"
  shows "s = 0 \<and> driver_idle io w' \<and> mem w' = mem w \<and> flash_content k w' =
    program_cells (unat (adr - W25Qxx_Mem_Addr)) (bytes_at (mem w) buf (unat sz)) (flash_content k w)"
proof -
  let ?a = "adr - W25Qxx_Mem_Addr"
  have w: "unlocked w" "ready w" using assms(1) by (simp_all add: driver_idle_def)
  from assms(3) obtain s1 where run: "flm_QSPI_W25Qxx_WriteBuffer (log_io io) l buf ?a sz w = Some (s1, w')"
    and s: "s = 0"
    unfolding flm_ProgramPage_def by (auto simp: bind_eq_Some_conv)
  with sureD [OF sure_WriteBuffer [OF assms(2)] run w]
  have "QSPI_W25Qxx_WriteBuffer (log_io (frozen io)) l buf ?a sz w = Some (0, w')"
    by (simp add: flm_WriteBuffer_eq frozen_log)
  from WriteBuffer_cells [OF driver_idle_frozen [OF assms(1)] assms(2) this] driver_idle_thaw [OF assms(1)] s
  show ?thesis by simp
qed

text \<open>The algorithm, addressed relative to the start of the flash, implements the flash store.\<close>

interpretation flm_store: flash_store "flash_content k" "driver_idle io" "\<lambda>w. bytes_at (mem w)"
  "\<lambda>a. flm_EraseSector (log_io io) l (a + W25Qxx_Mem_Addr)"
  "\<lambda>p a n. flm_ProgramPage (log_io io) l (a + W25Qxx_Mem_Addr) n p" for k and io :: "'h mmio" and l
proof
  fix w w' :: "('h \<times> bus_event list) qworld" and a :: u32
  assume "driver_idle io w" "flm_EraseSector (log_io io) l (a + W25Qxx_Mem_Addr) w = Some (0, w')"
  from EraseSector_result [OF this] show "driver_idle io w' \<and> bytes_at (mem w') = bytes_at (mem w) \<and>
      flash_content k w' = erase_cells 0x10000 (unat a) (flash_content k w)" by simp
next
  fix w w' :: "('h \<times> bus_event list) qworld" and p a n :: u32
  assume "driver_idle io w" "writable p a n" "flm_ProgramPage (log_io io) l (a + W25Qxx_Mem_Addr) n p w = Some (0, w')"
  from ProgramPage_result [OF this(1) _ this(3)] this(2)
  show "driver_idle io w' \<and> bytes_at (mem w') = bytes_at (mem w) \<and>
      flash_content k w' = program_cells (unat a) (bytes_at (mem w) p (unat n)) (flash_content k w)" by simp
qed simp

end
