(* ===== verification/Flash_Prg_Props.thy ===== *)
theory Flash_Prg_Props
  imports Flash_Prg
begin

text \<open>The properties of the flash-programming algorithm.\<close>

section \<open>The two copies of the driver\<close>

text \<open>
  C24. Eleven functions of the driver of the programming algorithm agree with those of the bootloader:
  \<open>Reset\<close>, \<open>ReadID\<close>, \<open>AutoPollingMemReady\<close>, \<open>WriteEnable\<close>, the three block erases, \<open>ChipErase\<close>, \<open>WritePage\<close>, \<open>WriteBuffer\<close> and \<open>ReadBuffer\<close> of the former behave,
  register access by register access, as the same functions of the latter on hardware whose clock stands still.
  \<open>Init\<close> and \<open>MemoryMappedMode\<close> are not part of the statement: the copies of \<open>HAL_QSPI_MspInit\<close>, which the initialisation calls, configure the pins in a different order,
  and the switch to memory-mapped mode waits with the timeout of the handle, which the two copies treat differently when it is 0.
\<close>

theorem flm_driver_equiv:
  "(flm_QSPI_W25Qxx_Reset io l w = QSPI_W25Qxx_Reset (frozen io) l w) \<and>
   (flm_QSPI_W25Qxx_ReadID io l w = QSPI_W25Qxx_ReadID (frozen io) l w) \<and>
   (flm_QSPI_W25Qxx_AutoPollingMemReady io l w = QSPI_W25Qxx_AutoPollingMemReady (frozen io) l w) \<and>
   (flm_QSPI_W25Qxx_WriteEnable io l w = QSPI_W25Qxx_WriteEnable (frozen io) l w) \<and>
   (flm_QSPI_W25Qxx_SectorErase io l a w = QSPI_W25Qxx_SectorErase (frozen io) l a w) \<and>
   (flm_QSPI_W25Qxx_BlockErase_32K io l a w = QSPI_W25Qxx_BlockErase_32K (frozen io) l a w) \<and>
   (flm_QSPI_W25Qxx_BlockErase_64K io l a w = QSPI_W25Qxx_BlockErase_64K (frozen io) l a w) \<and>
   (flm_QSPI_W25Qxx_ChipErase io l w = QSPI_W25Qxx_ChipErase (frozen io) l w) \<and>
   (flm_QSPI_W25Qxx_WritePage io l p a k w = QSPI_W25Qxx_WritePage (frozen io) l p a k w) \<and>
   (flm_QSPI_W25Qxx_WriteBuffer io l p a n w = QSPI_W25Qxx_WriteBuffer (frozen io) l p a n w) \<and>
   (flm_QSPI_W25Qxx_ReadBuffer io l p a n w = QSPI_W25Qxx_ReadBuffer (frozen io) l p a n w)"
  by (intro conjI flm_driver_eq)

text \<open>
  In the programming algorithm the timeout check of the wait loop is commented out. An erase of a sector or of the
  chip, a write or a read that is started on a ready handle therefore never reports an error: if it returns at all, it has
  succeeded and the handle is ready again. (\<open>Init\<close> can fail, on a wrong identification, and \<open>BlankCheck\<close> always returns 1.)
\<close>

theorem flm_never_fails:
  assumes "unlocked w" "ready w" "p \<noteq> 0" "unat p + unat n \<le> 2 ^ 32" "0 < n" "unat a + unat n \<le> 0x800000"
    and "op \<in> {flm_EraseSector io l adr, flm_EraseChip io l, flm_QSPI_W25Qxx_WriteBuffer io l p a n,
               flm_QSPI_W25Qxx_ReadBuffer io l p a n}"
    and "op w = Some (s, w')"
  shows "s = 0 \<and> unlocked w' \<and> ready w'"
proof -
  from assms(3-6) have "writable p a n" by (simp add: writable_def)
  then have "sure op 0"
    using assms(3,7) unfolding flm_EraseSector_def flm_EraseChip_def flm_QSPI_W25Qxx_BlockErase_64K_def
    by (auto intro!: sure_check sure_erase sure_ChipErase sure_WriteBuffer sure_ReadBuffer sure_done)
  from sureD [OF this assms(8,1,2)] show ?thesis .
qed

lemma flm_never_fails_witness:
  "\<exists>w'. flm_EraseChip (log_io (demo_io SR_DONE 1)) demo_locals (log_world []) = Some (0, w')"
proof -
  let ?op = "flm_EraseChip (log_io (demo_io SR_DONE 1)) demo_locals"
  have "map_option (\<lambda>_. ()) (?op (log_world [])) = Some ()" by code_simp
  then obtain s w' where run: "?op (log_world []) = Some (s, w')" by auto
  from flm_never_fails [where p = 1 and n = 1 and a = 0 and op = ?op and io = "log_io (demo_io SR_DONE 1)"
      and l = demo_locals, OF log_world_ready(1,2) _ _ _ _ _ run] run
  show ?thesis by simp
qed

section \<open>Erase, program, verify\<close>

text \<open>
  C4. Erase and program, end to end. If the erase of the sector and the programming of a page inside
  it return, both report success, and the flash then holds the page at its address, FF in the
  rest of the sector and its old contents everywhere else.
\<close>

theorem program_page_content:
  assumes "command_latched io" "unlocked w" "ready w"
    and "flm_EraseSector (log_io io) l sector w = Some (r1, w1)"
    and "flm_ProgramPage (log_io io) l adr sz buf w1 = Some (r2, w')"
    and "buf \<noteq> 0" "unat buf + unat sz \<le> 2 ^ 32" "0 < sz"
    and "0x90000000 \<le> adr" "unat adr + unat sz \<le> 0x90800000" "0x90000000 \<le> sector"
    and "unat adr div 0x10000 = unat sector div 0x10000" "(unat adr + unat sz - 1) div 0x10000 = unat sector div 0x10000"
  shows "r1 = 0 \<and> r2 = 0 \<and> (\<forall>x. flash_content k w' x =
     (if unat adr - 0x90000000 \<le> x \<and> x < unat adr - 0x90000000 + unat sz
        then bytes_at (mem w) buf (unat sz) ! (x - (unat adr - 0x90000000))
      else if x div 0x10000 = (unat sector - 0x90000000) div 0x10000 then 0xFF
      else flash_content k w x))"
proof -
  have idle: "driver_idle io w" using assms(1-3) by (simp add: driver_idle_def)
  let ?a = "adr - 0x90000000" and ?e = "sector - 0x90000000"
  have a: "unat ?a = unat adr - 0x90000000" "0x90000000 \<le> unat adr"
    using assms(9) by (simp_all add: unat_sub_if' word_le_nat_alt)
  have e: "unat ?e = unat sector - 0x90000000" "0x90000000 \<le> unat sector"
    using assms(11) by (simp_all add: unat_sub_if' word_le_nat_alt)
  have wr: "writable buf ?a sz" using assms(6-10) a by (simp add: writable_def)
  have shift: "(y - 0x90000000) div 0x10000 = y div 0x10000 - 0x9000" if "0x90000000 \<le> y" for y :: nat
  proof -
    have "((y - 0x90000000) + 0x9000 * 0x10000) div 0x10000 = 0x9000 + (y - 0x90000000) div 0x10000"
      by (rule div_mult_self1) simp
    then show ?thesis using that by simp
  qed
  have sz: "0 < unat sz" using assms(8) by (simp add: word_less_nat_alt)
  note e1 = EraseSector_result [OF idle assms(4), of k]
  then have p1: "r2 = 0" using ProgramPage_result [OF _ wr assms(5)] by simp
  have "flash_content k w' = (\<lambda>x. if unat ?a \<le> x \<and> x < unat ?a + unat sz then bytes_at (mem w) buf (unat sz) ! (x - unat ?a)
     else if x div 0x10000 = unat ?e div 0x10000 then 0xFF else flash_content k w x)"
  proof (rule flm_store.erase_write [OF idle _ _ wr])
    show "flm_EraseSector (log_io io) l (?e + W25Qxx_Mem_Addr) w = Some (0, w1)" using e1 assms(4) by simp
    show "flm_ProgramPage (log_io io) l (?a + W25Qxx_Mem_Addr) sz buf w1 = Some (0, w')" using p1 assms(5) by simp
    show "unat ?a div 0x10000 = unat ?e div 0x10000" using shift a e assms(12) by simp
    have "unat ?a + unat sz - 1 = (unat adr + unat sz - 1) - 0x90000000" "0x90000000 \<le> unat adr + unat sz - 1"
      using a sz by simp_all
    then show "(unat ?a + unat sz - 1) div 0x10000 = unat ?e div 0x10000"
      using shift [of "unat adr + unat sz - 1"] shift [of "unat sector"] a e sz assms(13) by simp
  qed
  with e1 p1 show ?thesis by (simp add: a e)
qed

lemma program_page_content_witness:
  "\<exists>w' :: (demo \<times> bus_event list) qworld.
     flash_content \<lparr>instr = 0, page_pos = 0, wel = False, cells = (\<lambda>x. 0)\<rparr> w' 0x100FF = 0x20 \<and>
     flash_content \<lparr>instr = 0, page_pos = 0, wel = False, cells = (\<lambda>x. 0)\<rparr> w' 0x10100 = 0x21 \<and>
     flash_content \<lparr>instr = 0, page_pos = 0, wel = False, cells = (\<lambda>x. 0)\<rparr> w' 0x10101 = 0xFF"
proof -
  let ?io = "log_io (demo_io SR_DONE 1)" and ?k = "\<lparr>instr = 0, page_pos = 0, wel = False, cells = (\<lambda>x. 0 :: u8)\<rparr>"
  have "map_option (\<lambda>_. ()) (flm_EraseSector ?io demo_locals 0x90010000 (log_world []) \<bind>
      (\<lambda>(s, w1). flm_ProgramPage ?io demo_locals 0x900100FF 2 0x20 w1)) = Some ()" by code_simp
  then obtain r1 w1 r2 w' where w1: "flm_EraseSector ?io demo_locals 0x90010000 (log_world []) = Some (r1, w1)"
    and w': "flm_ProgramPage ?io demo_locals 0x900100FF 2 0x20 w1 = Some (r2, w')"
    by (auto simp: bind_eq_Some_conv)
  have b: "bytes_at (mem (log_world [])) 0x20 (unat (2 :: u32)) = [0x20, 0x21]" by code_simp
  have "\<forall>x. flash_content ?k w' x = (if 0x100FF \<le> x \<and> x < 0x10101 then [0x20, 0x21] ! (x - 0x100FF)
      else if x div 0x10000 = 1 then 0xFF else flash_content ?k (log_world []) x)"
    using program_page_content [OF command_latched_demo log_world_ready(1,2) w1 w', of ?k] b by simp
  then show ?thesis by (intro exI [of _ w']) simp
qed

text \<open>
  C19. Verification. The function reads \<open>sz\<close> bytes of the flash to the address of \<open>Verify_Data\<close> and returns the address
  of the first byte that differs from the buffer, or the end address when there is none; so it
  returns the end address exactly when all bytes agree. The buffer must not overlap the \<open>sz\<close> bytes
  at \<open>Verify_Data\<close>. The call writes all of these \<open>sz\<close> bytes and no others; it has no check of the size, so it stays inside
  \<open>Verify_Data\<close> when \<open>sz\<close> is at most 4096, and overruns the array when it is larger.
\<close>

theorem verify_reports:
  assumes "command_latched io" "unlocked w" "ready w" "vd \<noteq> 0"
    and "\<forall>i < unat sz. unat sz \<le> unat (buf + of_nat i - vd)"
    and "flm_Verify (log_io io) l vd adr sz buf w = Some (r, w')"
  shows "\<exists>bs c. length bs = unat sz \<and> snd (hw w') = snd (hw w) @ read_trace (adr - 0x90000000) bs c \<and>
     r = adr + of_nat (first_diff bs (bytes_at (mem w) buf (unat sz))) \<and>
     (r = adr + sz \<longleftrightarrow> bs = bytes_at (mem w) buf (unat sz)) \<and>
     bytes_at (mem w') vd (unat sz) = bs \<and> (\<forall>x. unat sz \<le> unat (x - vd) \<longrightarrow> mem w' x = mem w x) \<and>
     (sz \<le> sizeof_Verify_Data \<longrightarrow> (\<forall>x. 4096 \<le> unat (x - vd) \<longrightarrow> mem w' x = mem w x))"
proof -
  let ?a = "adr - 0x90000000"
  from assms(6) obtain s where rd: "flm_QSPI_W25Qxx_ReadBuffer (log_io io) l vd ?a sz w = Some (s, w')"
    and r: "r = verify_loop adr sz buf vd (mem w') 0"
    unfolding flm_Verify_def by (auto simp: bind_eq_Some_conv)
  from sureD [OF sure_ReadBuffer [OF assms(4)] rd assms(2,3)]
  have "QSPI_W25Qxx_ReadBuffer (log_io (frozen io)) l vd ?a sz w = Some (0, w')"
    using rd by (simp add: flm_ReadBuffer_eq frozen_log)
  from ReadBuffer_OK [OF this assms(2,3) command_latched_log [OF command_latched_frozen [OF assms(1)]] assms(4)]
  obtain bs c where bs: "length bs = unat sz" "mem w' = store_bytes (mem w) vd bs"
    "did (log_io (frozen io)) w (read_trace ?a bs c) w'" by blast
  have len: "length bs \<le> 2 ^ 32" using bs(1) unat_u32_less [of sz] by simp
  have other: "mem w' x = mem w x" if "unat sz \<le> unat (x - vd)" for x
    using store_bytes_other [of bs x vd "mem w"] that bs(1,2) by simp
  then have buf: "bytes_at (mem w') buf (unat sz) = bytes_at (mem w) buf (unat sz)"
    using assms(5) by (simp add: bytes_at_def)
  have vd: "bytes_at (mem w') vd (unat sz) = bs" using bytes_at_store_bytes [OF len, of "mem w" vd] bs(1,2) by simp
  let ?d = "first_diff bs (bytes_at (mem w) buf (unat sz))"
  have r': "r = adr + of_nat ?d" using verify_loop_diff [of 0 sz adr buf vd "mem w'"] by (simp add: r buf vd)
  have "?d < 2 ^ 32" using first_diff_le [of bs "bytes_at (mem w) buf (unat sz)"] bs(1) unat_u32_less [of sz] by simp
  then have "unat (of_nat ?d :: u32) = ?d" by (simp add: unat_of_nat)
  then have "of_nat ?d = sz \<longleftrightarrow> ?d = unat sz" by (simp add: word_unat_eq_iff)
  with r' first_diff_eq [of bs "bytes_at (mem w) buf (unat sz)"] bs(1)
  have "r = adr + sz \<longleftrightarrow> bs = bytes_at (mem w) buf (unat sz)" by simp
  moreover have "mem w' x = mem w x" if "sz \<le> sizeof_Verify_Data" "4096 \<le> unat (x - vd)" for x
    using that by (intro other) (simp add: word_le_nat_alt)
  ultimately show ?thesis using bs(1) r' vd other did_log [OF bs(3)] by blast
qed

lemma verify_reports_witness:
  "\<exists>w'. flm_Verify (log_io (demo_io SR_DONE 1)) demo_locals 0x1000 0x90000100 2 0x20 (log_world [0x20, 0xBB])
      = Some (0x90000101, w') \<and> (\<forall>x. 4096 \<le> unat (x - 0x1000) \<longrightarrow> mem w' x = mem (log_world []) x)"
proof -
  let ?r = "flm_Verify (log_io (demo_io SR_DONE 1)) demo_locals 0x1000 0x90000100 2 0x20 (log_world [0x20, 0xBB])"
  have "map_option fst ?r = Some 0x90000101" by code_simp
  then obtain w' where run: "?r = Some (0x90000101, w')" by (rule run_status)
  have out: "\<forall>i < unat (2 :: u32). unat (2 :: u32) \<le> unat ((0x20 :: u32) + of_nat i - 0x1000)"
  proof (intro allI impI)
    fix i assume "i < unat (2 :: u32)"
    then have "i = 0 \<or> i = 1" by auto
    then show "unat (2 :: u32) \<le> unat ((0x20 :: u32) + of_nat i - 0x1000)" by (elim disjE) simp_all
  qed
  have m: "mem (log_world [0x20, 0xBB]) = mem (log_world [])" by (simp add: log_world_def)
  from verify_reports [OF command_latched_demo log_world_ready(1,2) _ out run] run show ?thesis
    by (auto simp: m)
qed

section \<open>Unreported failures\<close>

text \<open>
  C25. \<open>ProgramPage\<close> drops the result of the write: on a handle that is not ready, because
  the initialisation failed or the flash is memory mapped, it returns 0, the code for success,
  without sending anything to the flash. \<open>EraseSector\<close> reports the failure.
\<close>

theorem program_page_silent:
  assumes "unlocked w" "\<not> ready w"
  shows "\<exists>w'. flm_ProgramPage (log_io io) l adr sz buf w = Some (0, w') \<and> snd (hw w') = snd (hw w) \<and>
     (\<exists>w''. flm_EraseSector (log_io io) l adr w = Some (1, w'') \<and> snd (hw w'') = snd (hw w))"
proof -
  have quiet: "snd (hw w') = snd (hw w)" if "refused (log_io (frozen io)) w w'" for w'
    using that by (auto simp: refused_def dest: bus_log_io)
  from write_buffer.refuses [OF assms] obtain s w' where
    "QSPI_W25Qxx_WriteBuffer (log_io (frozen io)) l buf (adr - 0x90000000) sz w = Some (s, w')"
    "refused (log_io (frozen io)) w w'" by blast
  moreover from erase.refuses [OF assms] obtain s' w'' where
    "erase_at (log_io (frozen io)) l 0xD8 (adr - 0x90000000) w = Some (s', w'')" "s' \<noteq> 0"
    "refused (log_io (frozen io)) w w''" by blast
  ultimately show ?thesis using quiet
    by (simp add: flm_ProgramPage_def flm_EraseSector_def flm_QSPI_W25Qxx_BlockErase_64K_def flm_WriteBuffer_eq
        flm_erase_at_eq frozen_log check_def)
qed

lemma program_page_silent_witness:
  "\<exists>w'. flm_ProgramPage (log_io (demo_io SR_DONE 1)) demo_locals 0x90000000 256 0x20
      (set_State HAL_QSPI_STATE_BUSY_MEM_MAPPED (log_world [])) = Some (0, w') \<and> snd (hw w') = []"
proof -
  let ?w = "set_State HAL_QSPI_STATE_BUSY_MEM_MAPPED (log_world [])"
  have "unlocked ?w" "\<not> ready ?w" "snd (hw ?w) = []" by code_simp+
  with program_page_silent [of ?w "demo_io SR_DONE 1" demo_locals "0x90000000" 256 "0x20"] show ?thesis by auto
qed

section \<open>The device description\<close>

text \<open>
  The device description fits the driver. The described address range is the whole flash and
  every address in it maps to an offset below the 8 MB that the controller is configured for
  (\<open>FlashSize\<close> 22 means two to the power 23 bytes); the sector size is the size of the block
  that \<open>EraseSector\<close> erases; a page is a whole number of flash pages, divides the sector
  and fits \<open>Verify_Data\<close>; the contents of erased memory are the chip's.
\<close>

theorem device_geometry:
  assumes "DevAdr the_FlashDevice \<le> adr" "unat adr < unat (DevAdr the_FlashDevice) + unat (szDev the_FlashDevice)"
  shows "unat (adr - W25Qxx_Mem_Addr) < 2 ^ 23 \<and> unat (adr - W25Qxx_Mem_Addr) = unat adr - unat (DevAdr the_FlashDevice) \<and>
     unat (szSector (sectors the_FlashDevice ! 0)) = block_size 0xD8 \<and>
     szPage the_FlashDevice \<le> sizeof_Verify_Data \<and>
     unat W25Qxx_PageSize dvd unat (szPage the_FlashDevice) \<and>
     unat (szPage the_FlashDevice) dvd unat (szSector (sectors the_FlashDevice ! 0)) \<and>
     erase_cells (block_size 0xD8) (unat (adr - W25Qxx_Mem_Addr)) c (unat (adr - W25Qxx_Mem_Addr)) = valEmpty the_FlashDevice"
proof -
  have "0x90000000 \<le> unat adr" "unat adr < 0x90800000"
    using assms by (simp_all add: the_FlashDevice_def word_le_nat_alt)
  then show ?thesis
    by (simp add: the_FlashDevice_def unat_sub_if' word_le_nat_alt block_size_def erase_cells_def)
qed

lemma device_geometry_witness:
  "unat ((0x907FFFFF :: u32) - W25Qxx_Mem_Addr) = unat (0x907FFFFF :: u32) - unat (DevAdr the_FlashDevice)"
  using device_geometry [of "0x907FFFFF"] by (simp add: the_FlashDevice_def)

end
