(* ===== verification/Ringbuffer.thy ===== *)
theory Ringbuffer
  imports Prelude
begin

unbundle bit_operations_syntax

text \<open>
  The ring buffer of the device drivers (\<open>rt-thread/components/drivers/src/ringbuffer.c\<close>
  and \<open>include/ipc/ringbuffer.h\<close>). The indices are 15-bit and the mirrors 1-bit fields of
  the C structure: the expressions are computed in \<open>int\<close> and reduced when they are stored.
  The array behind \<open>buffer_ptr\<close> is a list of bytes; the source and destination arrays of
  the caller are lists too, so they do not overlap with the buffer. The lengths that the source
  takes as \<open>rt_uint16_t\<close> are integers from 0 to 65535 and the size of the pool, an \<open>rt_int16_t\<close>, is one from -32768 to 32767: the
  conversion of an argument outside its range is the caller's. A failed \<open>RT_ASSERT\<close> is the result \<open>None\<close>. (This
  configuration leaves \<open>RT_DEBUG\<close> undefined, so that \<open>RT_ASSERT\<close> expands to nothing; the definitions check the
  assertions nevertheless, and agree with the compiled code where they hold.)
\<close>

section \<open>Operations\<close>

record rt_ringbuffer =
  buffer_ptr :: "u8 list"
  read_mirror :: bool
  read_index :: int
  write_mirror :: bool
  write_index :: int
  buffer_size :: int

datatype rt_ringbuffer_state = RT_RINGBUFFER_EMPTY | RT_RINGBUFFER_FULL | RT_RINGBUFFER_HALFFULL

abbreviation (input) RT_ALIGN_SIZE :: int where "RT_ALIGN_SIZE \<equiv> 4"

definition RT_ALIGN_DOWN :: "int \<Rightarrow> int \<Rightarrow> int" where
  "RT_ALIGN_DOWN sz align = sz AND NOT (align - 1)"

definition uint15 :: "int \<Rightarrow> int" where "uint15 x = x mod 2 ^ 15"
definition uint16 :: "int \<Rightarrow> int" where "uint16 x = x mod 2 ^ 16"
definition ulong :: "int \<Rightarrow> int" where "ulong x = x mod 2 ^ 32"

text \<open>\<open>memcpy(&dst[i], &src[j], n)\<close> on arrays.\<close>

definition memcpy :: "u8 list \<Rightarrow> int \<Rightarrow> u8 list \<Rightarrow> int \<Rightarrow> int \<Rightarrow> u8 list" where
  "memcpy dst i src j n =
     take (nat i) dst @ take (nat n) (drop (nat j) src) @ drop (nat i + nat n) dst"

definition rt_ringbuffer_status :: "rt_ringbuffer \<Rightarrow> rt_ringbuffer_state" where
  "rt_ringbuffer_status rb =
    (if read_index rb = write_index rb then
       if read_mirror rb = write_mirror rb then RT_RINGBUFFER_EMPTY else RT_RINGBUFFER_FULL
     else RT_RINGBUFFER_HALFFULL)"

definition rt_ringbuffer_init :: "u8 list \<Rightarrow> int \<Rightarrow> rt_ringbuffer option" where
  "rt_ringbuffer_init pool sz =
    (if sz > 0
     then Some \<lparr>buffer_ptr = pool, read_mirror = False, read_index = 0, write_mirror = False,
                write_index = 0, buffer_size = RT_ALIGN_DOWN sz RT_ALIGN_SIZE\<rparr>
     else None)"

definition rt_ringbuffer_data_len :: "rt_ringbuffer \<Rightarrow> int" where
  "rt_ringbuffer_data_len rb =
    (case rt_ringbuffer_status rb of
       RT_RINGBUFFER_EMPTY \<Rightarrow> 0
     | RT_RINGBUFFER_FULL \<Rightarrow> ulong (buffer_size rb)
     | RT_RINGBUFFER_HALFFULL \<Rightarrow>
         (if write_index rb > read_index rb then ulong (write_index rb - read_index rb)
          else ulong (buffer_size rb - (read_index rb - write_index rb))))"

definition rt_ringbuffer_space_len :: "rt_ringbuffer \<Rightarrow> int" where
  "rt_ringbuffer_space_len rb = ulong (buffer_size rb - rt_ringbuffer_data_len rb)"

definition rt_ringbuffer_put :: "rt_ringbuffer \<Rightarrow> u8 list \<Rightarrow> int \<Rightarrow> int \<times> rt_ringbuffer" where
  "rt_ringbuffer_put rb ptr len0 =
    (let sz = uint16 (rt_ringbuffer_space_len rb) in
     if sz = 0 then (0, rb)
     else
       (let len = (if sz < len0 then sz else len0);
            gap = buffer_size rb - write_index rb
        in if gap > len
           then (len, rb\<lparr>buffer_ptr := memcpy (buffer_ptr rb) (write_index rb) ptr 0 len,
                         write_index := uint15 (write_index rb + len)\<rparr>)
           else (len, rb\<lparr>buffer_ptr := memcpy (memcpy (buffer_ptr rb) (write_index rb) ptr 0 gap)
                                        0 ptr gap (len - gap),
                         write_mirror := \<not> write_mirror rb,
                         write_index := uint15 (len - gap)\<rparr>)))"

definition rt_ringbuffer_put_force :: "rt_ringbuffer \<Rightarrow> u8 list \<Rightarrow> int \<Rightarrow> int \<times> rt_ringbuffer" where
  "rt_ringbuffer_put_force rb ptr0 len0 =
    (let space_length = uint16 (rt_ringbuffer_space_len rb);
         (ptr, len) = (if len0 > buffer_size rb
                       then (drop (nat (len0 - buffer_size rb)) ptr0, uint16 (buffer_size rb))
                       else (ptr0, len0));
         gap = buffer_size rb - write_index rb
     in if gap > len
        then (let rb1 = rb\<lparr>buffer_ptr := memcpy (buffer_ptr rb) (write_index rb) ptr 0 len,
                           write_index := uint15 (write_index rb + len)\<rparr>
              in (len, if len > space_length then rb1\<lparr>read_index := write_index rb1\<rparr> else rb1))
        else (let rb1 = rb\<lparr>buffer_ptr := memcpy (memcpy (buffer_ptr rb) (write_index rb) ptr 0 gap)
                                          0 ptr gap (len - gap),
                           write_mirror := \<not> write_mirror rb,
                           write_index := uint15 (len - gap)\<rparr>
              in (len, if len > space_length
                       then rb1\<lparr>read_mirror := \<not> read_mirror rb1, read_index := write_index rb1\<rparr>
                       else rb1)))"

text \<open>The bytes that reading stores at \<open>ptr\<close> are the second component of the result.\<close>

definition rt_ringbuffer_get :: "rt_ringbuffer \<Rightarrow> int \<Rightarrow> int \<times> u8 list \<times> rt_ringbuffer" where
  "rt_ringbuffer_get rb len0 =
    (let sz = rt_ringbuffer_data_len rb in
     if sz = 0 then (0, [], rb)
     else
       (let len = (if sz < len0 then uint16 sz else len0);
            gap = buffer_size rb - read_index rb
        in if gap > len
           then (len, take (nat len) (drop (nat (read_index rb)) (buffer_ptr rb)),
                 rb\<lparr>read_index := uint15 (read_index rb + len)\<rparr>)
           else (len, take (nat gap) (drop (nat (read_index rb)) (buffer_ptr rb)) @
                      take (nat (len - gap)) (buffer_ptr rb),
                 rb\<lparr>read_mirror := \<not> read_mirror rb, read_index := uint15 (len - gap)\<rparr>)))"

definition rt_ringbuffer_putchar :: "rt_ringbuffer \<Rightarrow> u8 \<Rightarrow> int \<times> rt_ringbuffer" where
  "rt_ringbuffer_putchar rb ch =
    (if rt_ringbuffer_space_len rb = 0 then (0, rb)
     else
       (let rb1 = rb\<lparr>buffer_ptr := (buffer_ptr rb)[nat (write_index rb) := ch]\<rparr>
        in (1, if write_index rb = buffer_size rb - 1
               then rb1\<lparr>write_mirror := \<not> write_mirror rb, write_index := 0\<rparr>
               else rb1\<lparr>write_index := uint15 (write_index rb + 1)\<rparr>)))"

definition rt_ringbuffer_putchar_force :: "rt_ringbuffer \<Rightarrow> u8 \<Rightarrow> int \<times> rt_ringbuffer" where
  "rt_ringbuffer_putchar_force rb ch =
    (let old_state = rt_ringbuffer_status rb;
         rb1 = rb\<lparr>buffer_ptr := (buffer_ptr rb)[nat (write_index rb) := ch]\<rparr>
     in (1, if write_index rb = buffer_size rb - 1
            then (let rb2 = rb1\<lparr>write_mirror := \<not> write_mirror rb, write_index := 0\<rparr>
                  in if old_state = RT_RINGBUFFER_FULL
                     then rb2\<lparr>read_mirror := \<not> read_mirror rb, read_index := write_index rb2\<rparr>
                     else rb2)
            else (let rb2 = rb1\<lparr>write_index := uint15 (write_index rb + 1)\<rparr>
                  in if old_state = RT_RINGBUFFER_FULL
                     then rb2\<lparr>read_index := write_index rb2\<rparr> else rb2)))"

definition rt_ringbuffer_getchar :: "rt_ringbuffer \<Rightarrow> int \<times> u8 list \<times> rt_ringbuffer" where
  "rt_ringbuffer_getchar rb =
    (if rt_ringbuffer_data_len rb = 0 then (0, [], rb)
     else (1, [buffer_ptr rb ! nat (read_index rb)],
           if read_index rb = buffer_size rb - 1
           then rb\<lparr>read_mirror := \<not> read_mirror rb, read_index := 0\<rparr>
           else rb\<lparr>read_index := uint15 (read_index rb + 1)\<rparr>))"

definition rt_ringbuffer_reset :: "rt_ringbuffer \<Rightarrow> rt_ringbuffer" where
  "rt_ringbuffer_reset rb =
     rb\<lparr>read_mirror := False, read_index := 0, write_mirror := False, write_index := 0\<rparr>"

definition rt_ringbuffer_get_size :: "rt_ringbuffer \<Rightarrow> int" where
  "rt_ringbuffer_get_size rb = uint16 (buffer_size rb)"

section \<open>Circular arrays\<close>

text \<open>The \<open>n\<close> elements from position \<open>r\<close> on, around an array of size \<open>sz\<close>.\<close>

definition ring :: "'a list \<Rightarrow> nat \<Rightarrow> nat \<Rightarrow> nat \<Rightarrow> 'a list" where
  "ring buf sz r n = map (\<lambda>i. buf ! ((r + i) mod sz)) [0..<n]"

lemma length_ring [simp]: "length (ring buf sz r n) = n"
  by (simp add: ring_def)

lemma nth_ring [simp]: "i < n \<Longrightarrow> ring buf sz r n ! i = buf ! ((r + i) mod sz)"
  by (simp add: ring_def)

lemma take_ring: "k \<le> n \<Longrightarrow> take k (ring buf sz r n) = ring buf sz r k"
  by (simp add: ring_def take_map)

lemma drop_ring: "drop k (ring buf sz r n) = ring buf sz ((r + k) mod sz) (n - k)"
  by (intro nth_equalityI) (simp_all add: mod_add_left_eq add.assoc)

lemma wrap_mod: "x < 2 * sz \<Longrightarrow> x mod sz = (if x < sz then x else x - sz)" for x sz :: nat
  by (auto simp: mod_if)

lemma wrap_arith:
  fixes w sz l j :: nat
  shows "sz - w \<le> l \<Longrightarrow> l \<le> sz \<Longrightarrow> w < sz \<Longrightarrow> w \<le> j \<Longrightarrow> j < sz \<Longrightarrow>
      \<not> j < l - (sz - w) \<and> j < w + (sz - w) \<and> j - w < l"
    and "sz - w \<le> l \<Longrightarrow> w < sz \<Longrightarrow> (j < l - (sz - w) \<longleftrightarrow> j + sz - w < l) \<and> sz - w + j = j + sz - w"
    and "w < sz \<Longrightarrow> (w + j < sz \<longleftrightarrow> j < sz - w) \<and> w + j - sz = j - (sz - w)"
  by linarith+

text \<open>Writing \<open>xs\<close> from position \<open>w\<close> on.\<close>

definition ring_written :: "'a list \<Rightarrow> nat \<Rightarrow> nat \<Rightarrow> 'a list \<Rightarrow> 'a list \<Rightarrow> bool" where
  "ring_written buf sz w xs buf' \<longleftrightarrow> length buf' = length buf \<and>
     (\<forall>j < sz. buf' ! j = (let d = (j + sz - w) mod sz in if d < length xs then xs ! d else buf ! j))"

lemma ring_distance:
  fixes r i n sz :: nat
  assumes "r < sz" "i < sz" "n \<le> sz"
  shows "((r + i) mod sz + sz - (r + n) mod sz) mod sz = (i + sz - n) mod sz"
  using assms by (auto simp: wrap_mod)

lemma ring_append:
  assumes "ring_written buf sz w xs buf'" "r < sz" "n + length xs \<le> sz" "w = (r + n) mod sz"
  shows "ring buf' sz r (n + length xs) = ring buf sz r n @ xs"
proof (intro nth_equalityI)
  fix i assume "i < length (ring buf' sz r (n + length xs))"
  then have i: "i < n + length xs" by simp
  let ?j = "(r + i) mod sz"
  have j: "?j < sz" using assms(2) by simp
  have d: "(?j + sz - w) mod sz = (i + sz - n) mod sz"
    using assms i by (simp add: ring_distance)
  have nth: "buf' ! ?j = (if (i + sz - n) mod sz < length xs then xs ! ((i + sz - n) mod sz) else buf ! ?j)"
    using assms(1) j d by (simp add: ring_written_def Let_def)
  show "ring buf' sz r (n + length xs) ! i = (ring buf sz r n @ xs) ! i"
  proof (cases "i < n")
    case True
    then have "(i + sz - n) mod sz = i + sz - n" "\<not> i + sz - n < length xs" using assms(3) by simp_all
    then show ?thesis using True i nth by (simp add: nth_append)
  next
    case False
    then have "(i + sz - n) mod sz = i - n"
      using assms(3) i by (simp add: wrap_mod)
    moreover have "i - n < length xs" using False i by linarith
    ultimately show ?thesis using False i nth by (simp add: nth_append)
  qed
qed simp

lemma length_memcpy:
  "0 \<le> i \<Longrightarrow> 0 \<le> n \<Longrightarrow> nat i + nat n \<le> length dst \<Longrightarrow> nat j + nat n \<le> length src \<Longrightarrow>
   length (memcpy dst i src j n) = length dst"
  by (simp add: memcpy_def)

lemma nth_memcpy:
  assumes "nat i + nat n \<le> length dst" "nat j + nat n \<le> length src" "x < length dst"
  shows "memcpy dst i src j n ! x =
    (if nat i \<le> x \<and> x < nat i + nat n then src ! (nat j + (x - nat i)) else dst ! x)"
proof -
  consider "x < nat i" | "nat i \<le> x" "x < nat i + nat n" | "nat i + nat n \<le> x" by linarith
  then show ?thesis
  proof cases
    case 1
    with assms show ?thesis by (simp add: memcpy_def nth_append)
  next
    case 2
    with assms have "min (length dst) (nat i) = nat i" "x - nat i < nat n"
      "x - nat i < length src - nat j" by (simp, linarith, linarith)
    with 2 assms show ?thesis by (simp add: memcpy_def nth_append)
  next
    case 3
    with assms have "min (length dst) (nat i) = nat i" "min (length src - nat j) (nat n) = nat n"
      "\<not> x - nat i < nat n" "nat i + nat n + (x - (nat i + nat n)) = x" by (simp, simp, linarith, linarith)
    with 3 assms show ?thesis by (simp add: memcpy_def nth_append)
  qed
qed

section \<open>Invariant and contents\<close>

definition rb_inv :: "rt_ringbuffer \<Rightarrow> bool" where
  "rb_inv rb \<longleftrightarrow> 0 < buffer_size rb \<and> buffer_size rb < 2 ^ 15 \<and>
     buffer_size rb \<le> int (length (buffer_ptr rb)) \<and>
     0 \<le> read_index rb \<and> read_index rb < buffer_size rb \<and>
     0 \<le> write_index rb \<and> write_index rb < buffer_size rb \<and>
     (if read_mirror rb = write_mirror rb then read_index rb \<le> write_index rb
      else write_index rb \<le> read_index rb)"

definition rb_len :: "rt_ringbuffer \<Rightarrow> int" where
  "rb_len rb = (if read_mirror rb = write_mirror rb then write_index rb - read_index rb
                else buffer_size rb - (read_index rb - write_index rb))"

definition rb_content :: "rt_ringbuffer \<Rightarrow> u8 list" where
  "rb_content rb = ring (buffer_ptr rb) (nat (buffer_size rb)) (nat (read_index rb)) (nat (rb_len rb))"

lemma length_rb_content [simp]: "length (rb_content rb) = nat (rb_len rb)"
  by (simp add: rb_content_def)

lemma rb_len_bounds: "rb_inv rb \<Longrightarrow> 0 \<le> rb_len rb \<and> rb_len rb \<le> buffer_size rb"
  by (auto simp: rb_inv_def rb_len_def split: if_splits)

lemma reduce_id: "0 \<le> x \<Longrightarrow> x < 2 ^ 15 \<Longrightarrow> uint15 x = x" "0 \<le> x \<Longrightarrow> x < 2 ^ 16 \<Longrightarrow> uint16 x = x"
  "0 \<le> x \<Longrightarrow> x < 2 ^ 32 \<Longrightarrow> ulong x = x"
  by (simp_all add: uint15_def uint16_def ulong_def)

lemma data_len_eq: "rb_inv rb \<Longrightarrow> rt_ringbuffer_data_len rb = rb_len rb"
  by (auto simp: rt_ringbuffer_data_len_def rt_ringbuffer_status_def rb_inv_def rb_len_def reduce_id split: if_splits)

lemma rb_space_bounds:
  assumes "rb_inv rb"
  shows "0 \<le> buffer_size rb - rb_len rb \<and> buffer_size rb - rb_len rb < 2 ^ 15"
proof -
  have "buffer_size rb < 2 ^ 15" using assms by (simp add: rb_inv_def)
  with rb_len_bounds [OF assms] show ?thesis by simp
qed

lemma space_len_eq: "rb_inv rb \<Longrightarrow> rt_ringbuffer_space_len rb = buffer_size rb - rb_len rb"
  using rb_space_bounds [of rb] by (simp add: rt_ringbuffer_space_len_def data_len_eq reduce_id)

lemma space_len16: "rb_inv rb \<Longrightarrow> uint16 (rt_ringbuffer_space_len rb) = buffer_size rb - rb_len rb"
  using rb_space_bounds [of rb] by (simp add: space_len_eq reduce_id)

text \<open>The write index is the position behind the contents.\<close>

lemma wrap_position:
  "0 \<le> r \<Longrightarrow> r \<le> w \<Longrightarrow> nat r + nat (w - r) = nat w"
  "0 \<le> w \<Longrightarrow> w \<le> r \<Longrightarrow> r < sz \<Longrightarrow> nat r + nat (sz - (r - w)) = nat w + nat sz"
  by simp_all

lemma write_position:
  assumes "rb_inv rb"
  shows "nat (write_index rb) = (nat (read_index rb) + nat (rb_len rb)) mod nat (buffer_size rb)"
  using assms by (cases "read_mirror rb = write_mirror rb") (auto simp: rb_inv_def rb_len_def wrap_position)

section \<open>Writing\<close>

text \<open>Both branches of the copy write the data around the end of the array.\<close>

definition ring_copy :: "u8 list \<Rightarrow> int \<Rightarrow> int \<Rightarrow> u8 list \<Rightarrow> int \<Rightarrow> u8 list" where
  "ring_copy buf sz w ptr len =
    (if sz - w > len then memcpy buf w ptr 0 len
     else memcpy (memcpy buf w ptr 0 (sz - w)) 0 ptr (sz - w) (len - (sz - w)))"

lemma ring_copy_written:
  assumes "0 \<le> w" "w < sz" "sz \<le> int (length buf)" "0 \<le> len" "len \<le> sz" "len \<le> int (length ptr)"
  shows "ring_written buf (nat sz) (nat w) (take (nat len) ptr) (ring_copy buf sz w ptr len)"
proof (cases "sz - w > len")
  case True
  have len: "length (memcpy buf w ptr 0 len) = length buf" using assms True by (intro length_memcpy) auto
  moreover have "memcpy buf w ptr 0 len ! j = (let d = (j + nat sz - nat w) mod nat sz in
      if d < length (take (nat len) ptr) then take (nat len) ptr ! d else buf ! j)" if j: "j < nat sz" for j
  proof -
    have nth: "memcpy buf w ptr 0 len ! j =
        (if nat w \<le> j \<and> j < nat w + nat len then ptr ! (j - nat w) else buf ! j)"
      using assms True j by (subst nth_memcpy) auto
    have d: "(j + nat sz - nat w) mod nat sz = (if nat w \<le> j then j - nat w else j + nat sz - nat w)"
      using assms j by (subst wrap_mod) auto
    show ?thesis unfolding nth d Let_def using assms True j by auto
  qed
  ultimately show ?thesis using True by (simp add: ring_written_def ring_copy_def)
next
  case False
  let ?b = "memcpy buf w ptr 0 (sz - w)"
  have len1: "length ?b = length buf" using assms False by (intro length_memcpy) auto
  have len: "length (memcpy ?b 0 ptr (sz - w) (len - (sz - w))) = length buf"
    using assms False len1 by (subst length_memcpy) auto
  moreover have "memcpy ?b 0 ptr (sz - w) (len - (sz - w)) ! j = (let d = (j + nat sz - nat w) mod nat sz in
      if d < length (take (nat len) ptr) then take (nat len) ptr ! d else buf ! j)" if j: "j < nat sz" for j
  proof -
    have nth1: "?b ! j = (if nat w \<le> j \<and> j < nat w + nat (sz - w) then ptr ! (j - nat w) else buf ! j)"
      using assms False j by (subst nth_memcpy) auto
    have nth: "memcpy ?b 0 ptr (sz - w) (len - (sz - w)) ! j =
        (if j < nat (len - (sz - w)) then ptr ! (nat (sz - w) + j) else ?b ! j)"
      using assms False j len1 by (subst nth_memcpy) auto
    have d: "(j + nat sz - nat w) mod nat sz = (if nat w \<le> j then j - nat w else j + nat sz - nat w)"
      using assms j by (subst wrap_mod) auto
    have e: "nat (sz - w) = nat sz - nat w" "nat (len - (sz - w)) = nat len - (nat sz - nat w)"
      "nat sz - nat w \<le> nat len" "nat len \<le> nat sz" "nat len \<le> length ptr" "nat w < nat sz"
      using assms False by auto
    show ?thesis
    proof (cases "nat w \<le> j")
      case True
      have "\<not> j < nat len - (nat sz - nat w)" "j < nat w + (nat sz - nat w)" "j - nat w < nat len"
        using wrap_arith(1) [OF e(3,4,6) True j] by simp_all
      with True e(5) show ?thesis unfolding nth nth1 d Let_def e(1,2) by simp
    next
      case False
      have "j < nat len - (nat sz - nat w) \<longleftrightarrow> j + nat sz - nat w < nat len" "nat sz - nat w + j = j + nat sz - nat w"
        using wrap_arith(2) [OF e(3,6), of j] by simp_all
      with False e(5) show ?thesis unfolding nth nth1 d Let_def e(1,2) by simp
    qed
  qed
  ultimately show ?thesis using False by (simp add: ring_written_def ring_copy_def)
qed

text \<open>Advancing the write index over \<open>len\<close> bytes.\<close>

definition rb_advance :: "rt_ringbuffer \<Rightarrow> u8 list \<Rightarrow> int \<Rightarrow> rt_ringbuffer" where
  "rb_advance rb buf len =
    (if buffer_size rb - write_index rb > len
     then rb\<lparr>buffer_ptr := buf, write_index := write_index rb + len\<rparr>
     else rb\<lparr>buffer_ptr := buf, write_mirror := \<not> write_mirror rb,
             write_index := len - (buffer_size rb - write_index rb)\<rparr>)"

lemma rb_advance_inv:
  assumes "rb_inv rb" "0 \<le> len" "len \<le> buffer_size rb - rb_len rb" "length buf = length (buffer_ptr rb)"
  shows "rb_inv (rb_advance rb buf len) \<and> rb_len (rb_advance rb buf len) = rb_len rb + len"
  using assms by (auto simp: rb_inv_def rb_len_def rb_advance_def split: if_splits)

lemma rb_advance_content:
  assumes "rb_inv rb" "0 \<le> len" "len \<le> buffer_size rb - rb_len rb" "len = int (length xs)"
    and "ring_written (buffer_ptr rb) (nat (buffer_size rb)) (nat (write_index rb)) xs buf"
  shows "rb_content (rb_advance rb buf len) = rb_content rb @ xs"
proof -
  have l: "rb_len (rb_advance rb buf len) = rb_len rb + len"
    using rb_advance_inv [OF assms(1-3)] assms(5) by (simp add: ring_written_def)
  have f: "buffer_ptr (rb_advance rb buf len) = buf" "buffer_size (rb_advance rb buf len) = buffer_size rb"
    "read_index (rb_advance rb buf len) = read_index rb" by (simp_all add: rb_advance_def)
  have "nat (rb_len rb + len) = nat (rb_len rb) + length xs"
    using rb_len_bounds [OF assms(1)] assms(4) by (simp add: nat_add_distrib)
  moreover have "ring buf (nat (buffer_size rb)) (nat (read_index rb)) (nat (rb_len rb) + length xs) =
      ring (buffer_ptr rb) (nat (buffer_size rb)) (nat (read_index rb)) (nat (rb_len rb)) @ xs"
    using assms rb_len_bounds [OF assms(1)]
    by (intro ring_append [OF assms(5) _ _ write_position]) (auto simp: rb_inv_def)
  ultimately show ?thesis by (simp add: rb_content_def l f)
qed

lemma put_advance:
  assumes "rb_inv rb" "0 \<le> len0" "len = min len0 (buffer_size rb - rb_len rb)"
  shows "rt_ringbuffer_put rb ptr len0 =
    (if buffer_size rb = rb_len rb then (0, rb)
     else (len, rb_advance rb (ring_copy (buffer_ptr rb) (buffer_size rb) (write_index rb) ptr len) len))"
proof -
  note b = rb_space_bounds [OF assms(1)]
  have i: "0 \<le> write_index rb" "write_index rb < buffer_size rb" "buffer_size rb < 2 ^ 15"
    using assms(1) by (simp_all add: rb_inv_def)
  have len: "0 \<le> len" "len \<le> buffer_size rb" using assms(2,3) b rb_len_bounds [OF assms(1)] by auto
  have "uint15 (write_index rb + len) = write_index rb + len" if "buffer_size rb - write_index rb > len"
    using i len that by (intro reduce_id) simp_all
  moreover have "uint15 (len - (buffer_size rb - write_index rb)) = len - (buffer_size rb - write_index rb)"
    if "\<not> buffer_size rb - write_index rb > len"
    using i len that by (intro reduce_id) simp_all
  moreover have "(if buffer_size rb - rb_len rb < len0 then buffer_size rb - rb_len rb else len0) = len"
    using assms(3) by simp
  ultimately show ?thesis
    by (simp add: rt_ringbuffer_put_def space_len16 [OF assms(1)] rb_advance_def ring_copy_def Let_def)
qed

lemma put_result:
  assumes "rb_inv rb" "0 \<le> len0" "len0 \<le> int (length ptr)" "rt_ringbuffer_put rb ptr len0 = (k, rb')"
  shows "k = min len0 (buffer_size rb - rb_len rb) \<and> rb_inv rb' \<and> buffer_size rb' = buffer_size rb \<and>
    rb_content rb' = rb_content rb @ take (nat k) ptr"
proof (cases "buffer_size rb = rb_len rb")
  case True
  with assms show ?thesis by (simp add: put_advance [OF _ _ refl])
next
  case False
  let ?len = "min len0 (buffer_size rb - rb_len rb)"
  let ?buf = "ring_copy (buffer_ptr rb) (buffer_size rb) (write_index rb) ptr ?len"
  have len: "0 \<le> ?len" "?len \<le> buffer_size rb - rb_len rb" "?len \<le> buffer_size rb" "?len \<le> int (length ptr)"
    using assms(2,3) rb_space_bounds [OF assms(1)] rb_len_bounds [OF assms(1)] by auto
  have k: "k = ?len" "rb' = rb_advance rb ?buf ?len"
    using assms(4) False unfolding put_advance [OF assms(1,2) refl] by auto
  have wr: "ring_written (buffer_ptr rb) (nat (buffer_size rb)) (nat (write_index rb)) (take (nat ?len) ptr) ?buf"
    using assms(1) len by (intro ring_copy_written) (simp_all add: rb_inv_def)
  have "?len = int (length (take (nat ?len) ptr))" using len by simp
  from rb_advance_content [OF assms(1) len(1,2) this wr] rb_advance_inv [OF assms(1) len(1,2), of ?buf] wr
  show ?thesis by (simp add: k ring_written_def) (simp add: rb_advance_def)
qed

section \<open>Reading\<close>

lemma ring_read:
  assumes "0 \<le> r" "r < sz" "sz \<le> int (length buf)" "0 \<le> len" "len \<le> sz"
  shows "(if sz - r > len then take (nat len) (drop (nat r) buf)
          else take (nat (sz - r)) (drop (nat r) buf) @ take (nat (len - (sz - r))) buf) =
    ring buf (nat sz) (nat r) (nat len)"
proof (cases "sz - r > len")
  case True
  with assms show ?thesis by (intro nth_equalityI) (auto simp: nth_append)
next
  case False
  with assms have e: "nat (sz - r) = nat sz - nat r" "nat (len - (sz - r)) = nat len - (nat sz - nat r)"
    "nat sz - nat r \<le> nat len" "nat r < nat sz" "nat sz \<le> length buf" "nat len \<le> nat sz" by auto
  have le: "nat sz - nat r \<le> length buf - nat r" "nat len - (nat sz - nat r) \<le> length buf"
    using e(5) diff_le_mono [of "nat sz" "length buf" "nat r"] diff_le_self [of "nat len" "nat sz - nat r"] e(6)
    by (blast, meson order_trans)
  have l: "length (take (nat (sz - r)) (drop (nat r) buf)) = nat sz - nat r"
    "length (take (nat (len - (sz - r))) buf) = nat len - (nat sz - nat r)"
    using le by (simp_all only: length_take length_drop e(1,2) min.absorb2)
  show ?thesis
  proof (intro nth_equalityI)
    show "length (if sz - r > len then take (nat len) (drop (nat r) buf)
          else take (nat (sz - r)) (drop (nat r) buf) @ take (nat (len - (sz - r))) buf) =
        length (ring buf (nat sz) (nat r) (nat len))"
      using False e(3) by (simp only: if_False length_append l length_ring) simp
    fix i assume "i < length (if sz - r > len then take (nat len) (drop (nat r) buf)
          else take (nat (sz - r)) (drop (nat r) buf) @ take (nat (len - (sz - r))) buf)"
    with False e(3) have "i < nat len" by (simp only: if_False length_append l) simp
    then have "nat r + i < 2 * nat sz" using e(4,6) by linarith
    then have "(nat r + i) mod nat sz = (if i < nat sz - nat r then nat r + i else i - (nat sz - nat r))"
      using wrap_arith(3) [OF e(4), of i] by (subst wrap_mod) auto
    moreover have "(take (nat (sz - r)) (drop (nat r) buf) @ take (nat (len - (sz - r))) buf) ! i =
        (if i < nat sz - nat r then buf ! (nat r + i) else buf ! (i - (nat sz - nat r)))"
      using \<open>i < nat len\<close> e(5) unfolding nth_append l unfolding e(1,2) by (auto simp: diff_less_mono)
    ultimately show "(if sz - r > len then take (nat len) (drop (nat r) buf)
          else take (nat (sz - r)) (drop (nat r) buf) @ take (nat (len - (sz - r))) buf) ! i =
        ring buf (nat sz) (nat r) (nat len) ! i"
      using False \<open>i < nat len\<close> by simp
  qed
qed

lemma get_result:
  assumes "rb_inv rb" "0 \<le> len0" "rt_ringbuffer_get rb len0 = (k, out, rb')"
  shows "k = min len0 (rb_len rb) \<and> out = take (nat len0) (rb_content rb) \<and> rb_inv rb' \<and>
    buffer_size rb' = buffer_size rb \<and> rb_content rb' = drop (nat len0) (rb_content rb) \<and>
    rb_len rb' = rb_len rb - k"
proof (cases "rb_len rb = 0")
  case True
  with assms show ?thesis by (simp add: rt_ringbuffer_get_def data_len_eq rb_content_def ring_def)
next
  case False
  note b = rb_len_bounds [OF assms(1)]
  define len where "len = min len0 (rb_len rb)"
  have i: "0 \<le> read_index rb" "read_index rb < buffer_size rb" "buffer_size rb < 2 ^ 15"
    "buffer_size rb \<le> int (length (buffer_ptr rb))"
    using assms(1) by (simp_all add: rb_inv_def)
  have len: "0 \<le> len" "len \<le> rb_len rb" "len \<le> buffer_size rb" using assms(2) b by (auto simp: len_def)
  define rb1 where "rb1 = (if buffer_size rb - read_index rb > len then rb\<lparr>read_index := read_index rb + len\<rparr>
    else rb\<lparr>read_mirror := \<not> read_mirror rb, read_index := len - (buffer_size rb - read_index rb)\<rparr>)"
  have cut: "(if rb_len rb < len0 then uint16 (rb_len rb) else len0) = len"
    using b i by (auto simp: len_def reduce_id)
  have "uint15 (read_index rb + len) = read_index rb + len" if "buffer_size rb - read_index rb > len"
    using i len that by (intro reduce_id) simp_all
  moreover have "uint15 (len - (buffer_size rb - read_index rb)) = len - (buffer_size rb - read_index rb)"
    if "\<not> buffer_size rb - read_index rb > len"
    using i len that by (intro reduce_id) simp_all
  ultimately have "rt_ringbuffer_get rb len0 = (len, ring (buffer_ptr rb) (nat (buffer_size rb))
      (nat (read_index rb)) (nat len), rb1)"
    using False unfolding ring_read [OF i(1,2,4) len(1,3), symmetric]
    by (simp add: rt_ringbuffer_get_def data_len_eq [OF assms(1)] cut rb1_def Let_def)
  with assms(3) have r: "k = len" "rb' = rb1"
    "out = ring (buffer_ptr rb) (nat (buffer_size rb)) (nat (read_index rb)) (nat len)" by auto
  have inv: "rb_inv rb1" "rb_len rb1 = rb_len rb - len"
    using assms(1) len i by (auto simp: rb1_def rb_inv_def rb_len_def split: if_splits)
  have pos: "nat (read_index rb1) = (nat (read_index rb) + nat len) mod nat (buffer_size rb)"
    using i len by (subst wrap_mod) (auto simp: rb1_def nat_less_iff)
  have f: "buffer_ptr rb1 = buffer_ptr rb" "buffer_size rb1 = buffer_size rb" by (simp_all add: rb1_def)
  have t: "take (nat len0) (rb_content rb) = take (nat len) (rb_content rb)"
    "drop (nat len0) (rb_content rb) = drop (nat len) (rb_content rb)"
    by (cases "len0 \<le> rb_len rb"; simp add: len_def)+
  show ?thesis
    using inv pos len b by (simp add: r len_def [symmetric] t f)
      (simp add: rb_content_def take_ring drop_ring f nat_diff_distrib)
qed

section \<open>Single characters\<close>

text \<open>The character routines are the block routines for one byte.\<close>

lemma list_update_memcpy: "nat i < length buf \<Longrightarrow> 0 \<le> i \<Longrightarrow> memcpy buf i [c] 0 1 = buf[nat i := c]"
  by (simp add: memcpy_def upd_conv_take_nth_drop)

lemma putchar_put:
  assumes "rb_inv rb"
  shows "rt_ringbuffer_putchar rb c = rt_ringbuffer_put rb [c] 1"
proof -
  have i: "0 \<le> write_index rb" "write_index rb < buffer_size rb" "buffer_size rb < 2 ^ 15"
    "nat (write_index rb) < length (buffer_ptr rb)"
    using assms by (auto simp: rb_inv_def)
  show ?thesis
  proof (cases "buffer_size rb = rb_len rb")
    case True
    with assms show ?thesis by (simp add: rt_ringbuffer_putchar_def space_len_eq put_advance [OF _ _ refl])
  next
    case False
    with rb_space_bounds [OF assms] have one: "1 = min 1 (buffer_size rb - rb_len rb)" by simp
    have c: "ring_copy (buffer_ptr rb) (buffer_size rb) (write_index rb) [c] 1 = (buffer_ptr rb)[nat (write_index rb) := c]"
    proof (cases "buffer_size rb - write_index rb > 1")
      case True
      then show ?thesis using i list_update_memcpy [of "write_index rb" "buffer_ptr rb" c] by (simp add: ring_copy_def)
    next
      case False
      with i(2) have "buffer_size rb - write_index rb = 1" by simp
      then show ?thesis using i list_update_memcpy [of "write_index rb" "buffer_ptr rb" c]
        by (simp add: ring_copy_def) (simp add: memcpy_def)
    qed
    have "uint15 (write_index rb + 1) = write_index rb + 1" if "write_index rb \<noteq> buffer_size rb - 1"
      using i that by (intro reduce_id) simp_all
    with False i show ?thesis
      by (auto simp: put_advance [OF assms _ one] c rt_ringbuffer_putchar_def space_len_eq [OF assms] rb_advance_def)
  qed
qed

lemma getchar_get:
  assumes "rb_inv rb"
  shows "rt_ringbuffer_getchar rb = rt_ringbuffer_get rb 1"
proof -
  have i: "0 \<le> read_index rb" "read_index rb < buffer_size rb" "buffer_size rb < 2 ^ 15"
    "nat (read_index rb) < length (buffer_ptr rb)"
    using assms by (auto simp: rb_inv_def)
  have t: "take (Suc 0) (drop (nat (read_index rb)) (buffer_ptr rb)) = [buffer_ptr rb ! nat (read_index rb)]"
    using i(4) by (simp add: take_Suc_conv_app_nth hd_drop_conv_nth take_Suc)
  have n: "\<not> rb_len rb < 1" if "rb_len rb \<noteq> 0" using that rb_len_bounds [OF assms] by simp
  show ?thesis
  proof (cases "1 < buffer_size rb - read_index rb")
    case True
    then have "uint15 (read_index rb + 1) = read_index rb + 1" "read_index rb \<noteq> buffer_size rb - 1"
      using i by (auto intro: reduce_id)
    with True t n show ?thesis
      by (simp add: rt_ringbuffer_getchar_def rt_ringbuffer_get_def data_len_eq [OF assms] Let_def)
  next
    case False
    then have "buffer_size rb - read_index rb = 1" "read_index rb = buffer_size rb - 1" using i by simp_all
    with t n show ?thesis
      by (simp add: rt_ringbuffer_getchar_def rt_ringbuffer_get_def data_len_eq [OF assms] Let_def uint15_def)
  qed
qed

section \<open>Overwriting the oldest data\<close>

text \<open>
  Overwriting is reading what has to go, then writing. For a block this holds when the buffer has
  the read and the write position in different mirrors, or when nothing has to go.
\<close>

lemma putchar_force_room:
  assumes "rb_inv rb" "rb_len rb < buffer_size rb"
  shows "rt_ringbuffer_putchar_force rb c = rt_ringbuffer_putchar rb c"
proof -
  have "rt_ringbuffer_status rb \<noteq> RT_RINGBUFFER_FULL"
    using assms by (auto simp: rt_ringbuffer_status_def rb_len_def)
  with assms(2) show ?thesis
    by (simp add: rt_ringbuffer_putchar_force_def rt_ringbuffer_putchar_def space_len_eq [OF assms(1)] Let_def)
qed

lemma putchar_force_full:
  assumes "rb_inv rb" "rb_len rb = buffer_size rb" "rt_ringbuffer_getchar rb = (1, out, rb1)"
  shows "rt_ringbuffer_putchar_force rb c = rt_ringbuffer_putchar rb1 c"
proof -
  have g: "rt_ringbuffer_get rb 1 = (1, out, rb1)" using assms(3) by (simp add: getchar_get [OF assms(1)])
  note r = get_result [OF assms(1) _ g]
  have pos: "0 < buffer_size rb" using assms(1) by (simp add: rb_inv_def)
  have l1: "rb_len rb1 = buffer_size rb - 1" using r assms(2) by simp
  have sp: "rt_ringbuffer_space_len rb1 = 1" using r l1 by (simp add: space_len_eq)
  have full: "read_index rb = write_index rb" "read_mirror rb \<noteq> write_mirror rb"
    using assms(1,2) by (auto simp: rb_len_def rb_inv_def split: if_splits)
  then have st: "rt_ringbuffer_status rb = RT_RINGBUFFER_FULL" by (simp add: rt_ringbuffer_status_def)
  have rb1: "rb1 = (if read_index rb = buffer_size rb - 1 then rb\<lparr>read_mirror := \<not> read_mirror rb, read_index := 0\<rparr>
       else rb\<lparr>read_index := uint15 (read_index rb + 1)\<rparr>)"
    using assms(3) by (simp add: rt_ringbuffer_getchar_def split: if_splits)
  have "rt_ringbuffer_putchar rb1 c = (let rb2 = rb1\<lparr>buffer_ptr := (buffer_ptr rb1)[nat (write_index rb1) := c]\<rparr>
        in (1, if write_index rb1 = buffer_size rb1 - 1
               then rb2\<lparr>write_mirror := \<not> write_mirror rb1, write_index := 0\<rparr>
               else rb2\<lparr>write_index := uint15 (write_index rb1 + 1)\<rparr>))"
    unfolding rt_ringbuffer_putchar_def sp by simp
  then show ?thesis
    by (cases "write_index rb = buffer_size rb - 1")
      (simp_all add: rt_ringbuffer_putchar_force_def st Let_def rb1 full(1))
qed

lemma put_force_room:
  assumes "rb_inv rb" "0 \<le> len" "len \<le> buffer_size rb - rb_len rb"
  shows "rt_ringbuffer_put_force rb ptr len =
    (len, rb_advance rb (ring_copy (buffer_ptr rb) (buffer_size rb) (write_index rb) ptr len) len)"
proof -
  have i: "0 \<le> write_index rb" "write_index rb < buffer_size rb" "buffer_size rb < 2 ^ 15"
    using assms(1) by (simp_all add: rb_inv_def)
  have len: "len \<le> buffer_size rb" using assms rb_len_bounds [OF assms(1)] by simp
  have "uint15 (write_index rb + len) = write_index rb + len" if "buffer_size rb - write_index rb > len"
    using i len that assms(2) by (intro reduce_id) simp_all
  moreover have "uint15 (len - (buffer_size rb - write_index rb)) = len - (buffer_size rb - write_index rb)"
    if "\<not> buffer_size rb - write_index rb > len"
    using i len that by (intro reduce_id) simp_all
  ultimately show ?thesis
    using len assms(3)
    by (simp add: rt_ringbuffer_put_force_def space_len16 [OF assms(1)] rb_advance_def ring_copy_def Let_def)
qed

lemma put_force_drop:
  assumes "rb_inv rb" "read_mirror rb \<noteq> write_mirror rb" "buffer_size rb - rb_len rb < len" "len \<le> buffer_size rb"
    and "rt_ringbuffer_get rb (len - (buffer_size rb - rb_len rb)) = (k, out, rb1)"
  shows "rt_ringbuffer_put_force rb ptr len =
    (len, rb_advance rb1 (ring_copy (buffer_ptr rb1) (buffer_size rb1) (write_index rb1) ptr len) len)"
proof -
  let ?d = "len - (buffer_size rb - rb_len rb)"
  have i: "0 \<le> write_index rb" "write_index rb < buffer_size rb" "buffer_size rb < 2 ^ 15"
    "0 \<le> read_index rb" "read_index rb < buffer_size rb" "write_index rb \<le> read_index rb"
    using assms(1,2) by (simp_all add: rb_inv_def)
  have n: "rb_len rb = buffer_size rb - (read_index rb - write_index rb)" using assms(2) by (simp add: rb_len_def)
  have d: "read_index rb + ?d = write_index rb + len" "0 < ?d" "?d \<le> rb_len rb" using assms(3,4) n by simp_all
  have nz: "rb_len rb \<noteq> 0" using d by simp
  have br: "buffer_size rb - read_index rb > ?d \<longleftrightarrow> buffer_size rb - write_index rb > len" using d(1) by linarith
  have w: "uint15 (write_index rb + len) = write_index rb + len" if "buffer_size rb - write_index rb > len"
    using i assms(3) n that by (intro reduce_id) simp_all
  have w': "uint15 (len - (buffer_size rb - write_index rb)) = len - (buffer_size rb - write_index rb)"
    if "\<not> buffer_size rb - write_index rb > len" using i assms(4) that by (intro reduce_id) simp_all
  have rb1: "rb1 = (if buffer_size rb - write_index rb > len then rb\<lparr>read_index := write_index rb + len\<rparr>
      else rb\<lparr>read_mirror := \<not> read_mirror rb, read_index := len - (buffer_size rb - write_index rb)\<rparr>)"
  proof (cases "buffer_size rb - write_index rb > len")
    case True
    then have "buffer_size rb - read_index rb > ?d" using br by simp
    with assms(5) d(3) nz w [OF True] show ?thesis using True
      by (simp add: rt_ringbuffer_get_def data_len_eq [OF assms(1)] Let_def d(1))
  next
    case False
    then have f: "\<not> buffer_size rb - read_index rb > ?d" using br by simp
    have "?d - (buffer_size rb - read_index rb) = len - (buffer_size rb - write_index rb)" using d(1) by simp
    with assms(5) d(3) nz w' [OF False] f show ?thesis using False
      by (simp add: rt_ringbuffer_get_def data_len_eq [OF assms(1)] Let_def)
  qed
  have sp: "\<not> len \<le> buffer_size rb - rb_len rb" using assms(3) by simp
  show ?thesis
    using assms(4) sp w w' by (simp add: rt_ringbuffer_put_force_def space_len16 [OF assms(1)] rb_advance_def
        ring_copy_def Let_def rb1)
qed

end
