(* ===== verification/Ringbuffer_Props.thy ===== *)
theory Ringbuffer_Props
  imports Ringbuffer
begin

text \<open>
  The ring buffer as a bounded queue of bytes: an interface, the FIFO law that every client can
  rely on, and the overwriting variants.
\<close>

section \<open>Bounded queues\<close>

datatype queue_op = Put "u8 list" | Get nat

locale byte_queue =
  fixes inv :: "'q \<Rightarrow> bool" and content :: "'q \<Rightarrow> u8 list" and capacity :: "'q \<Rightarrow> nat"
    and put :: "'q \<Rightarrow> u8 list \<Rightarrow> nat \<times> 'q" and get :: "'q \<Rightarrow> nat \<Rightarrow> u8 list \<times> 'q"
  assumes put_law: "inv q \<Longrightarrow> put q xs = (k, q') \<Longrightarrow> inv q' \<and> capacity q' = capacity q \<and>
      k = min (length xs) (capacity q - length (content q)) \<and> content q' = content q @ take k xs"
    and get_law: "inv q \<Longrightarrow> get q n = (out, q') \<Longrightarrow> inv q' \<and> capacity q' = capacity q \<and>
      out = take n (content q) \<and> content q' = drop n (content q)"
    and bounded: "inv q \<Longrightarrow> length (content q) \<le> capacity q"
begin

text \<open>A sequence of operations: what was accepted, what was read, and the queue afterwards.\<close>

fun run :: "queue_op list \<Rightarrow> 'q \<Rightarrow> u8 list \<times> u8 list \<times> 'q" where
  "run [] q = ([], [], q)"
| "run (Put xs # ops) q =
     (case put q xs of (k, q1) \<Rightarrow> case run ops q1 of (acc, out, q') \<Rightarrow> (take k xs @ acc, out, q'))"
| "run (Get n # ops) q =
     (case get q n of (ys, q1) \<Rightarrow> case run ops q1 of (acc, out, q') \<Rightarrow> (acc, ys @ out, q'))"

lemma run_fifo:
  "inv q \<Longrightarrow> run ops q = (acc, out, q') \<Longrightarrow> inv q' \<and> content q @ acc = out @ content q'"
proof (induction ops q arbitrary: acc out q' rule: run.induct)
  case (1 q)
  then show ?case by simp
next
  case (2 xs ops q)
  obtain k q1 where p: "put q xs = (k, q1)" by fastforce
  obtain acc' out' q2 where r: "run ops q1 = (acc', out', q2)" by (cases "run ops q1") auto
  from "2.IH" [OF p [symmetric] _ r] put_law [OF "2.prems"(1) p] "2.prems"(2) p r show ?case by simp
next
  case (3 n ops q)
  obtain ys q1 where p: "get q n = (ys, q1)" by fastforce
  obtain acc' out' q2 where r: "run ops q1 = (acc', out', q2)" by (cases "run ops q1") auto
  note g = get_law [OF "3.prems"(1) p]
  from "3.IH" [OF p [symmetric] _ r] g have i: "inv q2" "drop n (content q) @ acc' = out' @ content q2" by simp_all
  have "content q @ acc' = take n (content q) @ drop n (content q) @ acc'"
    unfolding append_assoc [symmetric] append_take_drop_id ..
  also have "\<dots> = (take n (content q) @ out') @ content q2" unfolding i(2) by simp
  finally show ?case using i(1) g "3.prems"(2) p r by simp
qed

end

section \<open>The ring buffer is a bounded queue\<close>

definition rb_put :: "rt_ringbuffer \<Rightarrow> u8 list \<Rightarrow> nat \<times> rt_ringbuffer" where
  "rb_put rb xs = (case rt_ringbuffer_put rb xs (int (length xs)) of (k, rb') \<Rightarrow> (nat k, rb'))"

definition rb_get :: "rt_ringbuffer \<Rightarrow> nat \<Rightarrow> u8 list \<times> rt_ringbuffer" where
  "rb_get rb n = (case rt_ringbuffer_get rb (int n) of (k, out, rb') \<Rightarrow> (out, rb'))"

interpretation rbq: byte_queue rb_inv rb_content "\<lambda>rb. nat (buffer_size rb)" rb_put rb_get
proof
  fix q q' xs k assume inv: "rb_inv q" and run: "rb_put q xs = (k, q')"
  then obtain k0 where "rt_ringbuffer_put q xs (int (length xs)) = (k0, q')" "k = nat k0"
    by (auto simp: rb_put_def split: prod.splits)
  with put_result [OF inv _ _ this(1)] rb_space_bounds [OF inv] rb_len_bounds [OF inv]
  show "rb_inv q' \<and> nat (buffer_size q') = nat (buffer_size q) \<and>
      k = min (length xs) (nat (buffer_size q) - length (rb_content q)) \<and> rb_content q' = rb_content q @ take k xs"
    by (auto simp: min_def nat_diff_distrib)
next
  fix q q' n out assume inv: "rb_inv q" and run: "rb_get q n = (out, q')"
  then obtain k0 where "rt_ringbuffer_get q (int n) = (k0, out, q')"
    by (auto simp: rb_get_def split: prod.splits)
  with get_result [OF inv _ this] show "rb_inv q' \<and> nat (buffer_size q') = nat (buffer_size q) \<and>
      out = take n (rb_content q) \<and> rb_content q' = drop n (rb_content q)" by simp
next
  fix q assume "rb_inv q"
  then show "length (rb_content q) \<le> nat (buffer_size q)" using rb_len_bounds [of q] by (simp add: nat_mono)
qed

text \<open>The result of a sequence of block operations.\<close>

fun rb_run :: "queue_op list \<Rightarrow> rt_ringbuffer \<Rightarrow> u8 list \<times> u8 list \<times> rt_ringbuffer" where
  "rb_run [] rb = ([], [], rb)"
| "rb_run (Put xs # ops) rb =
     (case rt_ringbuffer_put rb xs (int (length xs)) of (k, rb1) \<Rightarrow>
        case rb_run ops rb1 of (acc, out, rb') \<Rightarrow> (take (nat k) xs @ acc, out, rb'))"
| "rb_run (Get n # ops) rb =
     (case rt_ringbuffer_get rb (int n) of (k, ys, rb1) \<Rightarrow>
        case rb_run ops rb1 of (acc, out, rb') \<Rightarrow> (acc, ys @ out, rb'))"

lemma rb_put_get_eq:
  "rt_ringbuffer_put rb xs (int (length xs)) = (k, rb') \<Longrightarrow> rb_put rb xs = (nat k, rb')"
  "rt_ringbuffer_get rb (int n) = (k, out, rb') \<Longrightarrow> rb_get rb n = (out, rb')"
  by (simp_all add: rb_put_def rb_get_def)

lemma rb_run_eq: "rb_run ops rb = rbq.run ops rb"
  by (induction ops rb rule: rb_run.induct) (auto simp: rb_put_get_eq split: prod.splits)

text \<open>
  C26. First in, first out, without loss. For every sequence of block writes and block reads on a
  well-formed ring buffer, what was stored at the start followed by the bytes accepted equals the
  bytes read followed by what is stored at the end; the buffer stays well-formed.
\<close>

theorem ringbuffer_fifo:
  assumes "rb_inv rb" "rb_run ops rb = (acc, out, rb')"
  shows "rb_inv rb' \<and> rb_content rb @ acc = out @ rb_content rb'"
  using rbq.run_fifo [OF assms(1)] assms(2) by (simp add: rb_run_eq)

lemma ringbuffer_fifo_witness:
  "\<exists>rb rb'. rt_ringbuffer_init [0, 0, 0, 0] 4 = Some rb \<and>
     rb_run [Put [1, 2, 3], Get 2, Put [4, 5, 6], Get 4] rb = ([1, 2, 3, 4, 5, 6], [1, 2, 3, 4, 5, 6], rb') \<and>
     rb_content rb' = []"
proof -
  define rb where "rb = \<lparr>buffer_ptr = [0, 0, 0, 0 :: u8], read_mirror = False, read_index = 0,
    write_mirror = False, write_index = 0, buffer_size = 4\<rparr>"
  have init: "rt_ringbuffer_init [0, 0, 0, 0] 4 = Some rb" unfolding rb_def by code_simp
  have "(case rb_run [Put [1, 2, 3], Get 2, Put [4, 5, 6], Get 4] rb of (acc, out, _) \<Rightarrow> (acc, out)) =
      ([1, 2, 3, 4, 5, 6], [1, 2, 3, 4, 5, 6])" unfolding rb_def by code_simp
  then obtain rb' where run: "rb_run [Put [1, 2, 3], Get 2, Put [4, 5, 6], Get 4] rb =
      ([1, 2, 3, 4, 5, 6], [1, 2, 3, 4, 5, 6], rb')" by (auto split: prod.splits)
  have "rb_inv rb" "rb_content rb = []" unfolding rb_def by code_simp+
  with ringbuffer_fifo [OF this(1) run] init run show ?thesis by auto
qed

text \<open>
  C27. \<open>rt_ringbuffer_put\<close>, \<open>rt_ringbuffer_get\<close> and their versions for one character refine the operations on a bounded
  list: a write appends as many bytes as there is room for and returns their number, a read removes and returns the
  oldest bytes, and \<open>rt_ringbuffer_putchar\<close> and \<open>rt_ringbuffer_getchar\<close> agree with them for one byte.
\<close>

theorem ringbuffer_refines:
  assumes "rb_inv rb" "0 \<le> n" "n \<le> int (length ptr)"
    and "rt_ringbuffer_put rb ptr n = (k, rb1)" "rt_ringbuffer_get rb n = (k', out, rb2)"
  shows "k = min n (buffer_size rb - int (length (rb_content rb))) \<and> rb_inv rb1 \<and>
     rb_content rb1 = rb_content rb @ take (nat k) ptr \<and>
     k' = min n (int (length (rb_content rb))) \<and> out = take (nat n) (rb_content rb) \<and> rb_inv rb2 \<and>
     rb_content rb2 = drop (nat n) (rb_content rb) \<and>
     rt_ringbuffer_putchar rb c = rt_ringbuffer_put rb [c] 1 \<and> rt_ringbuffer_getchar rb = rt_ringbuffer_get rb 1"
  using put_result [OF assms(1-4)] get_result [OF assms(1,2,5)] rb_len_bounds [OF assms(1)]
    putchar_put [OF assms(1)] getchar_get [OF assms(1)] by simp

lemma ringbuffer_refines_witness:
  "\<exists>rb1. rt_ringbuffer_put \<lparr>buffer_ptr = [9, 0, 0, 7], read_mirror = False, read_index = 3, write_mirror = True,
      write_index = 1, buffer_size = 4\<rparr> [1, 2, 3] 3 = (2, rb1) \<and> rb_content rb1 = [7, 9, 1, 2]"
proof -
  let ?rb = "\<lparr>buffer_ptr = [9, 0, 0, 7 :: u8], read_mirror = False, read_index = 3, write_mirror = True,
      write_index = 1, buffer_size = 4\<rparr>"
  obtain k rb1 where p: "rt_ringbuffer_put ?rb [1, 2, 3] 3 = (k, rb1)" by fastforce
  obtain k' out rb2 where g: "rt_ringbuffer_get ?rb 3 = (k', out, rb2)" by (cases "rt_ringbuffer_get ?rb 3") auto
  have inv: "rb_inv ?rb" and c: "rb_content ?rb = [7, 9]" by code_simp+
  from ringbuffer_refines [OF inv _ _ p g] have "k = 2 \<and> rb_content rb1 = [7, 9, 1, 2]"
    by (simp add: c del: length_rb_content)
  with p show ?thesis by auto
qed

section \<open>Initialisation and length\<close>

text \<open>
  A ring buffer initialised with a size of at least 4 is well-formed, empty, and has the size
  rounded down to a multiple of 4 as its capacity; the free space and the stored length always
  add up to the capacity. A size from 1 to 3 gives a buffer of capacity 0.
\<close>

lemma align_down_4: "RT_ALIGN_DOWN n 4 = n div 4 * 4"
proof -
  have three: "bit (3 :: int) k \<longleftrightarrow> k < 2" for k
    using bit_mask_iff [of 2 k, where ?'a = int] by (simp add: mask_eq_exp_minus_1)
  have "n AND NOT 3 = push_bit 2 (drop_bit 2 n)"
  proof (rule bit_eqI)
    fix m :: nat
    have "2 + (m - 2) = m" if "2 \<le> m" using that by simp
    then show "bit (n AND NOT 3) m \<longleftrightarrow> bit (push_bit 2 (drop_bit 2 n)) m"
      unfolding bit_and_iff bit_not_iff three bit_push_bit_iff bit_drop_bit_eq comp_apply
      by (metis not_less possible_bit_int)
  qed
  then show ?thesis by (simp add: RT_ALIGN_DOWN_def push_bit_eq_mult drop_bit_eq_div)
qed

theorem ringbuffer_init_ok:
  assumes "4 \<le> sz" "sz < 2 ^ 15" "sz \<le> int (length pool)" "rt_ringbuffer_init pool sz = Some rb" "rb_inv q"
  shows "rb_inv rb \<and> rb_content rb = [] \<and> buffer_size rb = sz div 4 * 4 \<and>
     rt_ringbuffer_space_len q + rt_ringbuffer_data_len q = buffer_size q \<and>
     rt_ringbuffer_data_len q = int (length (rb_content q)) \<and>
     map_option buffer_size (rt_ringbuffer_init pool 3) = Some 0"
proof -
  have rb: "rb = \<lparr>buffer_ptr = pool, read_mirror = False, read_index = 0, write_mirror = False,
      write_index = 0, buffer_size = sz div 4 * 4\<rparr>"
    using assms(1,4) by (simp add: rt_ringbuffer_init_def align_down_4)
  have "0 < sz div 4 * 4" "sz div 4 * 4 \<le> sz" using assms(1) by simp_all
  then have "rb_inv rb" "rb_content rb = []" using assms(2,3)
    by (simp_all add: rb rb_inv_def rb_content_def rb_len_def ring_def)
  moreover have "rt_ringbuffer_space_len q + rt_ringbuffer_data_len q = buffer_size q"
    "rt_ringbuffer_data_len q = int (length (rb_content q))"
    using assms(5) rb_len_bounds [OF assms(5)] by (simp_all add: space_len_eq data_len_eq)
  ultimately show ?thesis by (simp add: rb) (simp add: rt_ringbuffer_init_def align_down_4)
qed

lemma ringbuffer_init_ok_witness:
  "\<exists>rb. rt_ringbuffer_init [0, 0, 0, 0, 0, 0, 0] 7 = Some rb \<and> rb_inv rb \<and> buffer_size rb = 4"
proof -
  obtain rb where r: "rt_ringbuffer_init [0, 0, 0, 0, 0, 0, 0] 7 = Some rb" by (simp add: rt_ringbuffer_init_def)
  have "rb_inv \<lparr>buffer_ptr = [0, 0, 0, 0], read_mirror = False, read_index = 0, write_mirror = False,
      write_index = 0, buffer_size = 4\<rparr>" by code_simp
  from ringbuffer_init_ok [OF _ _ _ r this] r show ?thesis by auto
qed

section \<open>Overwriting\<close>

text \<open>
  Writing a character with overwriting appends it, and drops the oldest byte exactly when the
  buffer was full.
\<close>

theorem putchar_force_appends:
  assumes "rb_inv rb" "rt_ringbuffer_putchar_force rb c = (k, rb')"
  shows "k = 1 \<and> rb_inv rb' \<and> buffer_size rb' = buffer_size rb \<and> rb_content rb' =
    (if int (length (rb_content rb)) = buffer_size rb then tl (rb_content rb) else rb_content rb) @ [c]"
proof (cases "rb_len rb = buffer_size rb")
  case False
  with rb_len_bounds [OF assms(1)] have room: "rb_len rb < buffer_size rb" by simp
  have "rt_ringbuffer_put rb [c] 1 = (k, rb')"
    using assms(2) by (simp add: putchar_force_room [OF assms(1) room] putchar_put [OF assms(1)])
  from put_result [OF assms(1) _ _ this] room rb_len_bounds [OF assms(1)] show ?thesis by auto
next
  case True
  obtain k1 out rb1 where g: "rt_ringbuffer_get rb 1 = (k1, out, rb1)" by (cases "rt_ringbuffer_get rb 1") auto
  note r = get_result [OF assms(1) _ g]
  have pos: "0 < buffer_size rb" using assms(1) by (simp add: rb_inv_def)
  with r True have k1: "k1 = 1" by simp
  have "rt_ringbuffer_put rb1 [c] 1 = (k, rb')"
    using assms(2) putchar_force_full [OF assms(1) True, of out rb1 c] g k1 r
    by (simp add: getchar_get [OF assms(1)] putchar_put)
  note p = put_result [OF _ _ _ this]
  have "rb_len rb1 = buffer_size rb - 1" using r True k1 by simp
  with p r True show ?thesis by (auto simp: drop_Suc)
qed

lemma putchar_force_appends_witness:
  "\<exists>rb'. rt_ringbuffer_putchar_force \<lparr>buffer_ptr = [1, 2, 3, 4], read_mirror = False, read_index = 3,
      write_mirror = True, write_index = 3, buffer_size = 4\<rparr> 5 = (1, rb') \<and> rb_content rb' = [1, 2, 3, 5]"
proof -
  let ?rb = "\<lparr>buffer_ptr = [1, 2, 3, 4 :: u8], read_mirror = False, read_index = 3, write_mirror = True,
      write_index = 3, buffer_size = 4\<rparr>"
  obtain k rb' where p: "rt_ringbuffer_putchar_force ?rb 5 = (k, rb')" by fastforce
  have inv: "rb_inv ?rb" and c: "rb_content ?rb = [4, 1, 2, 3]" by code_simp+
  from putchar_force_appends [OF inv p] p show ?thesis by (simp add: c del: length_rb_content)
qed

text \<open>
  Writing a block with overwriting. When the read and the write position are in different
  mirrors, or when the block fits into the free space, the block is appended and exactly as many
  of the oldest bytes are dropped as needed.
\<close>

theorem put_force_appends:
  assumes "rb_inv rb" "0 \<le> n" "n \<le> buffer_size rb" "n \<le> int (length ptr)"
    and "read_mirror rb \<noteq> write_mirror rb \<or> n \<le> buffer_size rb - int (length (rb_content rb))"
    and "rt_ringbuffer_put_force rb ptr n = (k, rb')"
  shows "k = n \<and> rb_inv rb' \<and> buffer_size rb' = buffer_size rb \<and>
    rb_content rb' = drop (nat (int (length (rb_content rb)) + n - buffer_size rb)) (rb_content rb) @ take (nat n) ptr"
proof (cases "n \<le> buffer_size rb - rb_len rb")
  case True
  let ?buf = "ring_copy (buffer_ptr rb) (buffer_size rb) (write_index rb) ptr n"
  have r: "k = n" "rb' = rb_advance rb ?buf n"
    using assms(6) unfolding put_force_room [OF assms(1,2) True] by auto
  have wr: "ring_written (buffer_ptr rb) (nat (buffer_size rb)) (nat (write_index rb)) (take (nat n) ptr) ?buf"
    using assms(1-4) by (intro ring_copy_written) (simp_all add: rb_inv_def)
  have "n = int (length (take (nat n) ptr))" using assms(2,4) by simp
  from rb_advance_content [OF assms(1,2) True this wr] rb_advance_inv [OF assms(1,2) True, of ?buf] wr True
    rb_len_bounds [OF assms(1)]
  show ?thesis by (simp add: r ring_written_def) (simp add: rb_advance_def)
next
  case False
  let ?d = "n - (buffer_size rb - rb_len rb)"
  have mirror: "read_mirror rb \<noteq> write_mirror rb" using assms(5) False rb_len_bounds [OF assms(1)] by simp
  obtain k1 out rb1 where g: "rt_ringbuffer_get rb ?d = (k1, out, rb1)" by (cases "rt_ringbuffer_get rb ?d") auto
  have d: "0 \<le> ?d" "?d \<le> rb_len rb" using False assms(3) by simp_all
  note r = get_result [OF assms(1) d(1) g]
  let ?buf = "ring_copy (buffer_ptr rb1) (buffer_size rb1) (write_index rb1) ptr n"
  have e: "k = n" "rb' = rb_advance rb1 ?buf n"
    using put_force_drop [OF assms(1) mirror _ assms(3) g, of ptr] False assms(6) by simp_all
  have "rb_len rb1 = rb_len rb - ?d" using r d by (simp add: min_def)
  then have room: "n \<le> buffer_size rb1 - rb_len rb1" using r by simp
  have inv1: "rb_inv rb1" using r by simp
  have wr: "ring_written (buffer_ptr rb1) (nat (buffer_size rb1)) (nat (write_index rb1)) (take (nat n) ptr) ?buf"
    using inv1 assms(2,3,4) r by (intro ring_copy_written) (simp_all add: rb_inv_def)
  have "n = int (length (take (nat n) ptr))" using assms(2,4) by simp
  from rb_advance_content [OF inv1 assms(2) room this wr] rb_advance_inv [OF inv1 assms(2) room, of ?buf] wr r
    rb_len_bounds [OF assms(1)]
  show ?thesis by (simp add: e ring_written_def algebra_simps) (simp add: rb_advance_def)
qed

lemma put_force_appends_witness:
  "\<exists>rb'. rt_ringbuffer_put_force \<lparr>buffer_ptr = [1, 2, 3, 4], read_mirror = False, read_index = 3,
      write_mirror = True, write_index = 2, buffer_size = 4\<rparr> [5, 6, 7] 3 = (3, rb') \<and> rb_content rb' = [2, 5, 6, 7]"
proof -
  let ?rb = "\<lparr>buffer_ptr = [1, 2, 3, 4 :: u8], read_mirror = False, read_index = 3, write_mirror = True,
      write_index = 2, buffer_size = 4\<rparr>"
  obtain k rb' where p: "rt_ringbuffer_put_force ?rb [5, 6, 7] 3 = (k, rb')" by fastforce
  have inv: "rb_inv ?rb" and c: "rb_content ?rb = [4, 1, 2]" by code_simp+
  from put_force_appends [OF inv _ _ _ _ p] p show ?thesis by (simp add: c del: length_rb_content)
qed

text \<open>
  C28. In the remaining case, both positions in the same mirror and a block larger than the free
  space, the overwriting block write loses everything: it flips the read mirror although the read
  position has not passed the end of the array, and the buffer, which should be full, counts as
  empty afterwards.
\<close>

theorem put_force_loses:
  assumes "rb_inv rb" "read_mirror rb = write_mirror rb" "n \<le> buffer_size rb"
    and "buffer_size rb - int (length (rb_content rb)) < n"
    and "rt_ringbuffer_put_force rb ptr n = (k, rb')"
  shows "k = n \<and> rb_content rb' = [] \<and> rt_ringbuffer_status rb' = RT_RINGBUFFER_EMPTY"
proof -
  have i: "0 \<le> write_index rb" "write_index rb < buffer_size rb" "0 \<le> read_index rb"
    "read_index rb \<le> write_index rb"
    using assms(1,2) by (simp_all add: rb_inv_def)
  have n: "rb_len rb = write_index rb - read_index rb" using assms(2) by (simp add: rb_len_def)
  have sp: "buffer_size rb - rb_len rb < n" using assms(4) rb_len_bounds [OF assms(1)] by simp
  with i n have g: "\<not> buffer_size rb - write_index rb > n" by simp
  show ?thesis
    using assms(2,3,5) sp g
    by (auto simp: rt_ringbuffer_put_force_def space_len16 [OF assms(1)] Let_def rt_ringbuffer_status_def
        rb_content_def rb_len_def ring_def)
qed

lemma put_force_loses_witness:
  "\<exists>rb'. rt_ringbuffer_put_force \<lparr>buffer_ptr = [1, 2, 3, 4], read_mirror = False, read_index = 1,
      write_mirror = False, write_index = 3, buffer_size = 4\<rparr> [5, 6, 7] 3 = (3, rb') \<and> rb_content rb' = []"
proof -
  let ?rb = "\<lparr>buffer_ptr = [1, 2, 3, 4 :: u8], read_mirror = False, read_index = 1, write_mirror = False,
      write_index = 3, buffer_size = 4\<rparr>"
  obtain k rb' where p: "rt_ringbuffer_put_force ?rb [5, 6, 7] 3 = (k, rb')" by fastforce
  have inv: "rb_inv ?rb" and c: "rb_content ?rb = [2, 3]" by code_simp+
  from put_force_loses [OF inv _ _ _ p] p show ?thesis by (simp add: c del: length_rb_content)
qed

end
