(* ===== verification/Kservice.thy ===== *)
theory Kservice
  imports Prelude
begin

text \<open>
  The memory and string functions of the kernel (\<open>rt-thread/src/kservice.c\<close>), on byte-addressed
  memory. Functions that return their first argument are modelled by the memory they leave.
  \<open>long\<close> has four bytes, the machine is little-endian and \<open>char\<close> is unsigned.
  The lengths are 32-bit; so is \<open>int len = count\<close> of \<open>rt_memcpy\<close>, which is only compared with
  unsigned values.
\<close>

section \<open>Definitions\<close>

definition store32 :: "memory \<Rightarrow> u32 \<Rightarrow> u32 \<Rightarrow> memory" where
  "store32 m p v = store_bytes m p [ucast v, ucast (drop_bit 8 v), ucast (drop_bit 16 v), ucast (drop_bit 24 v)]"

definition load32 :: "memory \<Rightarrow> u32 \<Rightarrow> u32" where
  "load32 m p = ucast (m p) OR push_bit 8 (ucast (m (p + 1))) OR push_bit 16 (ucast (m (p + 2))) OR push_bit 24 (ucast (m (p + 3)))"

lemma load32_bytes:
  assumes "bytes_at m p 4 = [ucast v, ucast (drop_bit 8 v), ucast (drop_bit 16 v), ucast (drop_bit 24 v)]"
  shows "load32 m p = v"
proof -
  have b: "m p = ucast v" "m (p + 1) = ucast (drop_bit 8 v)" "m (p + 2) = ucast (drop_bit 16 v)" "m (p + 3) = ucast (drop_bit 24 v)"
    using assms by (simp_all add: bytes_at_def numeral_eq_Suc upt_rec)
  show ?thesis unfolding load32_def b
  proof (rule bit_word_eqI)
    fix i assume "i < LENGTH(32)"
    then consider "i < 8" | "8 \<le> i" "i < 16" | "16 \<le> i" "i < 24" | "24 \<le> i" "i < 32" by force
    then show "bit (ucast (ucast v :: u8) OR push_bit 8 (ucast (ucast (drop_bit 8 v) :: u8)) OR
        push_bit 16 (ucast (ucast (drop_bit 16 v) :: u8)) OR push_bit 24 (ucast (ucast (drop_bit 24 v) :: u8)) :: u32) i = bit v i"
      by cases (auto simp: bit_simps)
  qed
qed

lemma bytes_at_store32:
  "bytes_at (store32 m p v) p 4 = [ucast v, ucast (drop_bit 8 v), ucast (drop_bit 16 v), ucast (drop_bit 24 v)]"
proof -
  define bs :: "u8 list" where "bs = [ucast v, ucast (drop_bit 8 v), ucast (drop_bit 16 v), ucast (drop_bit 24 v)]"
  have "length bs = 4" by (simp add: bs_def)
  with bytes_at_store_bytes [of bs m p] have "bytes_at (store_bytes m p bs) p 4 = bs" by simp
  then show ?thesis unfolding store32_def bs_def [symmetric] .
qed

definition copy32 :: "memory \<Rightarrow> u32 \<Rightarrow> u32 \<Rightarrow> memory" where
  "copy32 m d s = store_bytes m d (bytes_at m s 4)"

text \<open>\<open>rt_memset\<close>: two loops over words, one over bytes.\<close>

lemma unat_sub_less: "k \<le> (n :: u32) \<Longrightarrow> 0 < unat k \<Longrightarrow> unat (n - k) < unat n"
  by (simp add: unat_sub word_le_nat_alt)

lemma unat_dec_less: "(n :: u32) \<noteq> 0 \<Longrightarrow> unat (n - 1) < unat n"
  using unat_Suc_pred [of n] by (simp add: word_neq_0_conv)

lemma unat_dec2_less: "(n :: u32) \<noteq> 1 \<Longrightarrow> unat (n - 2) < unat (n - 1)"
  using unat_dec_less [of "n - 1"] by simp

function memset_big :: "memory \<Rightarrow> u32 \<Rightarrow> u32 \<Rightarrow> u32 \<Rightarrow> memory \<times> u32 \<times> u32" where
  "memset_big m p v count =
    (if count \<ge> 16
     then memset_big (store32 (store32 (store32 (store32 m p v) (p + 4) v) (p + 8) v) (p + 12) v) (p + 16) v (count - 16)
     else (m, p, count))"
  by pat_completeness auto
termination by (relation "measure (\<lambda>(_, _, _, n). unat n)") (auto intro: unat_sub_less)

function memset_little :: "memory \<Rightarrow> u32 \<Rightarrow> u32 \<Rightarrow> u32 \<Rightarrow> memory \<times> u32 \<times> u32" where
  "memset_little m p v count =
    (if count \<ge> 4 then memset_little (store32 m p v) (p + 4) v (count - 4) else (m, p, count))"
  by pat_completeness auto
termination by (relation "measure (\<lambda>(_, _, _, n). unat n)") (auto intro: unat_sub_less)

function memset_bytes :: "memory \<Rightarrow> u32 \<Rightarrow> u8 \<Rightarrow> u32 \<Rightarrow> memory" where
  "memset_bytes m p d count = (if count \<noteq> 0 then memset_bytes (m(p := d)) (p + 1) d (count - 1) else m)"
  by pat_completeness auto
termination by (relation "measure (\<lambda>(_, _, _, n). unat n)") (auto intro: unat_dec_less)

declare memset_big.simps [simp del] memset_little.simps [simp del] memset_bytes.simps [simp del]

definition rt_memset :: "memory \<Rightarrow> u32 \<Rightarrow> u32 \<Rightarrow> u32 \<Rightarrow> memory" where
  "rt_memset m s c count =
    (let d = c AND 0xff in
     if \<not> count < 4 \<and> s AND 3 = 0 then
       (let b = push_bit 8 d OR d;
            buffer = b OR push_bit 16 b;
            (m1, p1, n1) = memset_big m s buffer count;
            (m2, p2, n2) = memset_little m1 p1 buffer n1
        in memset_bytes m2 p2 (ucast d) n2)
     else memset_bytes m s (ucast d) count)"

text \<open>\<open>rt_memcpy\<close>.\<close>

function memcpy_big :: "memory \<Rightarrow> u32 \<Rightarrow> u32 \<Rightarrow> u32 \<Rightarrow> memory \<times> u32 \<times> u32 \<times> u32" where
  "memcpy_big m d s len =
    (if len \<ge> 16
     then memcpy_big (copy32 (copy32 (copy32 (copy32 m d s) (d + 4) (s + 4)) (d + 8) (s + 8)) (d + 12) (s + 12))
            (d + 16) (s + 16) (len - 16)
     else (m, d, s, len))"
  by pat_completeness auto
termination by (relation "measure (\<lambda>(_, _, _, n). unat n)") (auto intro: unat_sub_less)

function memcpy_little :: "memory \<Rightarrow> u32 \<Rightarrow> u32 \<Rightarrow> u32 \<Rightarrow> memory \<times> u32 \<times> u32 \<times> u32" where
  "memcpy_little m d s len =
    (if len \<ge> 4 then memcpy_little (copy32 m d s) (d + 4) (s + 4) (len - 4) else (m, d, s, len))"
  by pat_completeness auto
termination by (relation "measure (\<lambda>(_, _, _, n). unat n)") (auto intro: unat_sub_less)

function copy_forward :: "memory \<Rightarrow> u32 \<Rightarrow> u32 \<Rightarrow> u32 \<Rightarrow> memory" where
  "copy_forward m d s n = (if n \<noteq> 0 then copy_forward (m(d := m s)) (d + 1) (s + 1) (n - 1) else m)"
  by pat_completeness auto
termination by (relation "measure (\<lambda>(_, _, _, n). unat n)") (auto intro: unat_dec_less)

function copy_backward :: "memory \<Rightarrow> u32 \<Rightarrow> u32 \<Rightarrow> u32 \<Rightarrow> memory" where
  "copy_backward m d s n =
    (if n \<noteq> 0 then copy_backward (m(d - 1 := m (s - 1))) (d - 1) (s - 1) (n - 1) else m)"
  by pat_completeness auto
termination by (relation "measure (\<lambda>(_, _, _, n). unat n)") (auto intro: unat_dec_less)

declare memcpy_big.simps [simp del] memcpy_little.simps [simp del] copy_forward.simps [simp del]
  copy_backward.simps [simp del]

definition rt_memcpy :: "memory \<Rightarrow> u32 \<Rightarrow> u32 \<Rightarrow> u32 \<Rightarrow> memory" where
  "rt_memcpy m dst src count =
    (if \<not> count < 16 \<and> (src AND 3) OR (dst AND 3) = 0 then
       (let (m1, d1, s1, n1) = memcpy_big m dst src count;
            (m2, d2, s2, n2) = memcpy_little m1 d1 s1 n1
        in copy_forward m2 d2 s2 n2)
     else copy_forward m dst src count)"

definition rt_memmove :: "memory \<Rightarrow> u32 \<Rightarrow> u32 \<Rightarrow> u32 \<Rightarrow> memory" where
  "rt_memmove m dest src n =
    (if src < dest \<and> dest < src + n then copy_backward m (dest + n) (src + n) n
     else copy_forward m dest src n)"

text \<open>Comparison. The difference of two bytes is an \<open>int\<close>; \<open>rt_strncmp\<close> keeps it in a signed byte.\<close>

abbreviation (input) byte_diff :: "u8 \<Rightarrow> u8 \<Rightarrow> int" where
  "byte_diff a b \<equiv> uint a - uint b"

function rt_memcmp :: "memory \<Rightarrow> u32 \<Rightarrow> u32 \<Rightarrow> u32 \<Rightarrow> int" where
  "rt_memcmp m cs ct count =
    (if 0 < count then
       if byte_diff (m cs) (m ct) \<noteq> 0 then byte_diff (m cs) (m ct)
       else rt_memcmp m (cs + 1) (ct + 1) (count - 1)
     else 0)"
  by pat_completeness auto
termination by (relation "measure (\<lambda>(_, _, _, n). unat n)") (auto simp: word_neq_0_conv intro: unat_dec_less)

definition signed_char :: "int \<Rightarrow> int" where
  "signed_char x = sint (word_of_int x :: u8)"

function rt_strncmp :: "memory \<Rightarrow> u32 \<Rightarrow> u32 \<Rightarrow> u32 \<Rightarrow> int" where
  "rt_strncmp m cs ct count =
    (if count \<noteq> 0 then
       (let res = signed_char (byte_diff (m cs) (m ct)) in
        if res \<noteq> 0 \<or> m cs = 0 then res else rt_strncmp m (cs + 1) (ct + 1) (count - 1))
     else 0)"
  by pat_completeness auto
termination by (relation "measure (\<lambda>(_, _, _, n). unat n)") (auto intro: unat_dec_less)

declare rt_memcmp.simps [simp del] rt_strncmp.simps [simp del]

partial_function (option) rt_strcmp :: "memory \<Rightarrow> u32 \<Rightarrow> u32 \<Rightarrow> int option" where
  "rt_strcmp m cs ct =
    (if m cs \<noteq> 0 \<and> m cs = m ct then rt_strcmp m (cs + 1) (ct + 1) else Some (byte_diff (m cs) (m ct)))"

text \<open>The scans for the end of a string; the loop variable is the pointer \<open>sc\<close>.\<close>

partial_function (option) strlen_scan :: "memory \<Rightarrow> u32 \<Rightarrow> u32 option" where
  "strlen_scan m sc = (if m sc \<noteq> 0 then strlen_scan m (sc + 1) else Some sc)"

partial_function (option) strnlen_scan :: "memory \<Rightarrow> u32 \<Rightarrow> u32 \<Rightarrow> u32 \<Rightarrow> u32 option" where
  "strnlen_scan m s maxlen sc =
    (if m sc \<noteq> 0 \<and> sc - s < maxlen then strnlen_scan m s maxlen (sc + 1) else Some sc)"

declare rt_strcmp.simps [code] strlen_scan.simps [code] strnlen_scan.simps [code]

definition rt_strlen :: "memory \<Rightarrow> u32 \<Rightarrow> u32 option" where
  "rt_strlen m s = map_option (\<lambda>sc. sc - s) (strlen_scan m s)"

definition rt_strnlen :: "memory \<Rightarrow> u32 \<Rightarrow> u32 \<Rightarrow> u32 option" where
  "rt_strnlen m s maxlen = map_option (\<lambda>sc. sc - s) (strnlen_scan m s maxlen s)"

text \<open>\<open>rt_strncpy\<close>: a copying loop, left for a padding loop at the terminating zero.\<close>

function strncpy_pad :: "memory \<Rightarrow> u32 \<Rightarrow> u32 \<Rightarrow> memory" where
  "strncpy_pad m d n = (if n - 1 \<noteq> 0 then strncpy_pad (m(d := 0)) (d + 1) (n - 1) else m)"
  by pat_completeness auto
termination
  by (relation "measure (\<lambda>(_, _, n). unat (n - 1))") (auto intro: unat_dec2_less)

function strncpy_loop :: "memory \<Rightarrow> u32 \<Rightarrow> u32 \<Rightarrow> u32 \<Rightarrow> memory" where
  "strncpy_loop m d s n =
    (let m1 = m(d := m s) in
     if m s = 0 then strncpy_pad m1 (d + 1) n
     else if n - 1 \<noteq> 0 then strncpy_loop m1 (d + 1) (s + 1) (n - 1) else m1)"
  by pat_completeness auto
termination
  by (relation "measure (\<lambda>(_, _, _, n). unat (n - 1))") (auto intro: unat_dec2_less)

declare strncpy_pad.simps [simp del] strncpy_loop.simps [simp del]

definition rt_strncpy :: "memory \<Rightarrow> u32 \<Rightarrow> u32 \<Rightarrow> u32 \<Rightarrow> memory" where
  "rt_strncpy m dst src n = (if n \<noteq> 0 then strncpy_loop m dst src n else m)"

section \<open>Blocks of memory\<close>

lemma store_bytes_outside:
  assumes "\<And>i. i < length bs \<Longrightarrow> x \<noteq> p + of_nat i"
  shows "store_bytes m p bs x = m x"
  using assms
proof (induction bs arbitrary: m p)
  case (Cons b bs)
  have "store_bytes (m(p := b)) (p + 1) bs x = (m(p := b)) x"
    using Cons.prems [of "Suc _"] by (intro Cons.IH) (auto simp: algebra_simps)
  with Cons.prems [of 0] show ?case by simp
qed simp

lemma bytes_at_cong: "(\<And>i. i < n \<Longrightarrow> m' (p + of_nat i) = m (p + of_nat i)) \<Longrightarrow> bytes_at m' p n = bytes_at m p n"
  by (simp add: bytes_at_def)

lemma store_bytes_comm:
  assumes "\<And>i. i < length bs \<Longrightarrow> x \<noteq> p + of_nat i"
  shows "store_bytes (m(x := v)) p bs = (store_bytes m p bs)(x := v)"
  using assms
proof (induction bs arbitrary: m p)
  case (Cons b bs)
  have "x \<noteq> p" using Cons.prems [of 0] by simp
  moreover have "store_bytes ((m(p := b))(x := v)) (p + 1) bs = (store_bytes (m(p := b)) (p + 1) bs)(x := v)"
    using Cons.prems [of "Suc _"] by (intro Cons.IH) (auto simp: algebra_simps)
  ultimately show ?case by (simp add: fun_upd_twist del: fun_upd_apply)
qed simp

section \<open>Filling\<close>

lemma store32_fill:
  "store32 m p (let d = c AND 0xff; b = push_bit 8 d OR d in b OR push_bit 16 b) =
   store_bytes m p (replicate 4 (ucast (c AND 0xff)))"
proof -
  let ?d = "c AND 0xff :: u32"
  let ?v = "let d = c AND 0xff; b = push_bit 8 d OR d in b OR push_bit 16 b :: u32"
  have "ucast ?v = (ucast ?d :: u8)" "ucast (drop_bit 8 ?v) = (ucast ?d :: u8)"
    "ucast (drop_bit 16 ?v) = (ucast ?d :: u8)" "ucast (drop_bit 24 ?v) = (ucast ?d :: u8)"
    by (rule bit_word_eqI, auto simp: Let_def bit_simps)+
  then show ?thesis by (simp add: store32_def numeral_eq_Suc)
qed

definition fill :: "memory \<Rightarrow> u32 \<Rightarrow> nat \<Rightarrow> u8 \<Rightarrow> memory" where
  "fill m p n b = store_bytes m p (replicate n b)"

lemma fill_add: "fill (fill m p k b) (p + of_nat k) n b = fill m p (k + n) b"
  by (simp add: fill_def replicate_add store_bytes_append)

lemma fill_0 [simp]: "fill m p 0 b = m"
  by (simp add: fill_def)

lemma unat_ge_u32: "k \<le> (n :: u32) \<Longrightarrow> unat n = unat k + unat (n - k)"
  by (simp add: unat_sub word_le_nat_alt)

lemma memset_bytes_fill: "memset_bytes m p b n = fill m p (unat n) b"
proof (induction m p b n rule: memset_bytes.induct)
  case (1 m p b n)
  show ?case
  proof (cases "n = 0")
    case True
    then show ?thesis by (subst memset_bytes.simps) simp
  next
    case False
    then have "unat n = Suc (unat (n - 1))" by (intro unat_Suc_pred) (simp add: word_neq_0_conv)
    with False 1 show ?thesis by (subst memset_bytes.simps) (simp add: fill_def del: fun_upd_apply)
  qed
qed

lemma memset_little_fill:
  assumes "\<And>m p. store32 m p v = fill m p 4 b"
  shows "case memset_little m p v n of (m', p', n') \<Rightarrow> fill m' p' (unat n') b = fill m p (unat n) b"
  using assms
proof (induction m p v n rule: memset_little.induct)
  case (1 m p v n)
  show ?case
  proof (cases "n \<ge> 4")
    case True
    have "fill m p (unat n) b = fill (store32 m p v) (p + 4) (unat (n - 4)) b"
      using fill_add [of m p 4 b "unat (n - 4)"] unat_ge_u32 [OF True] by (simp add: 1(2))
    moreover have "memset_little m p v n = memset_little (store32 m p v) (p + 4) v (n - 4)"
      using True by (subst memset_little.simps) simp
    ultimately show ?thesis using 1(1) [OF True 1(2)] by simp
  next
    case False
    then show ?thesis by (subst memset_little.simps) simp
  qed
qed

lemma memset_big_fill:
  assumes "\<And>m p. store32 m p v = fill m p 4 b"
  shows "case memset_big m p v n of (m', p', n') \<Rightarrow> fill m' p' (unat n') b = fill m p (unat n) b"
  using assms
proof (induction m p v n rule: memset_big.induct)
  case (1 m p v n)
  show ?case
  proof (cases "n \<ge> 16")
    case True
    let ?m = "store32 (store32 (store32 (store32 m p v) (p + 4) v) (p + 8) v) (p + 12) v"
    have four: "?m = fill m p 16 b"
      using fill_add [of m p 4 b 4] fill_add [of m p 8 b 4] fill_add [of m p 12 b 4] by (simp add: 1(2))
    have "fill m p (unat n) b = fill ?m (p + 16) (unat (n - 16)) b"
      using fill_add [of m p 16 b "unat (n - 16)"] unat_ge_u32 [OF True] by (simp add: four)
    moreover have "memset_big m p v n = memset_big ?m (p + 16) v (n - 16)"
      using True by (subst memset_big.simps) simp
    ultimately show ?thesis using 1(1) [OF True 1(2)] by simp
  next
    case False
    then show ?thesis by (subst memset_big.simps) simp
  qed
qed

lemma rt_memset_fill: "rt_memset m s c n = fill m s (unat n) (ucast (c AND 0xff))"
proof -
  let ?v = "let d = c AND 0xff; b = push_bit 8 d OR d in b OR push_bit 16 b :: u32"
  have v: "store32 m p ?v = fill m p 4 (ucast (c AND 0xff))" for m p
    unfolding fill_def by (rule store32_fill)
  obtain m1 p1 n1 where a: "memset_big m s ?v n = (m1, p1, n1)" by (cases "memset_big m s ?v n") blast
  obtain m2 p2 n2 where b: "memset_little m1 p1 ?v n1 = (m2, p2, n2)" by (cases "memset_little m1 p1 ?v n1") blast
  from memset_big_fill [OF v, of m s n] memset_little_fill [OF v, of m1 p1 n1] a b
  have "fill m2 p2 (unat n2) (ucast (c AND 0xff)) = fill m s (unat n) (ucast (c AND 0xff))" by simp
  with a b show ?thesis by (simp add: rt_memset_def memset_bytes_fill Let_def)
qed

section \<open>Copying\<close>

text \<open>
  A forward copy reads byte \<open>j\<close> after it has written the bytes before it; it is right if
  none of these is the byte to be read. This holds when the areas do not overlap and when
  the destination is below the source.
\<close>

definition copied :: "memory \<Rightarrow> u32 \<Rightarrow> u32 \<Rightarrow> nat \<Rightarrow> memory" where
  "copied m d s n = store_bytes m d (bytes_at m s n)"

definition no_clobber :: "u32 \<Rightarrow> u32 \<Rightarrow> nat \<Rightarrow> bool" where
  "no_clobber d s n \<longleftrightarrow> (\<forall>j<n. \<forall>i<j. d + of_nat i \<noteq> s + of_nat j)"

lemma copied_0 [simp]: "copied m d s 0 = m"
  by (simp add: copied_def)

lemma copied_add:
  assumes "no_clobber d s (k + n)"
  shows "copied (copied m d s k) (d + of_nat k) (s + of_nat k) n = copied m d s (k + n)"
proof -
  have "bytes_at (copied m d s k) (s + of_nat k) n = bytes_at m (s + of_nat k) n"
  proof (rule bytes_at_cong)
    fix i assume "i < n"
    then have "s + of_nat (k + i) \<noteq> d + of_nat j" if "j < k" for j
      using assms that unfolding no_clobber_def by (metis add_less_cancel_left not_add_less1 less_trans linorder_neqE_nat)
    then show "copied m d s k (s + of_nat k + of_nat i) = m (s + of_nat k + of_nat i)"
      unfolding copied_def by (intro store_bytes_outside) (auto simp: add.assoc)
  qed
  then have "copied (copied m d s k) (d + of_nat k) (s + of_nat k) n =
      store_bytes (copied m d s k) (d + of_nat k) (bytes_at m (s + of_nat k) n)" by (simp add: copied_def)
  also have "\<dots> = copied m d s (k + n)" by (simp add: copied_def bytes_at_add store_bytes_append)
  finally show ?thesis .
qed

lemma no_clobber_shift: "no_clobber d s (k + n) \<Longrightarrow> no_clobber (d + of_nat k) (s + of_nat k) n"
  unfolding no_clobber_def
proof (intro allI impI)
  fix j i assume a: "\<forall>j<k + n. \<forall>i<j. d + of_nat i \<noteq> s + of_nat j" and "j < n" "i < j"
  then have "d + of_nat (k + i) \<noteq> s + of_nat (k + j)" by (metis add_less_cancel_left)
  then show "d + of_nat k + of_nat i \<noteq> s + of_nat k + of_nat j" by (simp add: add.assoc)
qed

lemma no_clobber_le: "no_clobber d s n \<Longrightarrow> k \<le> n \<Longrightarrow> no_clobber d s k"
  unfolding no_clobber_def by auto

lemma copied_1: "copied m d s (Suc 0) = m(d := m s)"
  by (simp add: copied_def bytes_at_def)

lemma copy_forward_copied:
  "no_clobber d s (unat n) \<Longrightarrow> copy_forward m d s n = copied m d s (unat n)"
proof (induction m d s n rule: copy_forward.induct)
  case (1 m d s n)
  show ?case
  proof (cases "n = 0")
    case True
    then show ?thesis by (subst copy_forward.simps) simp
  next
    case False
    then have n: "unat n = 1 + unat (n - 1)" using unat_Suc_pred [of n] by (simp add: word_neq_0_conv)
    from no_clobber_shift [of d s 1 "unat (n - 1)"] 1(2) n have "no_clobber (d + 1) (s + 1) (unat (n - 1))" by simp
    from 1(1) [OF False this] have "copy_forward m d s n = copied (m(d := m s)) (d + 1) (s + 1) (unat (n - 1))"
      using False by (subst copy_forward.simps) (simp del: fun_upd_apply)
    then show ?thesis using copied_add [of d s 1 "unat (n - 1)" m] 1(2) n by (simp add: copied_1)
  qed
qed

lemma copy32_copied: "copy32 m d s = copied m d s 4"
  by (simp add: copy32_def copied_def)

lemma memcpy_little_copied:
  "no_clobber d s (unat n) \<Longrightarrow> case memcpy_little m d s n of (m', d', s', n') \<Rightarrow>
     no_clobber d' s' (unat n') \<and> copied m' d' s' (unat n') = copied m d s (unat n)"
proof (induction m d s n rule: memcpy_little.induct)
  case (1 m d s n)
  show ?case
  proof (cases "n \<ge> 4")
    case True
    then have n: "unat n = 4 + unat (n - 4)" using unat_ge_u32 [of 4 n] by simp
    from no_clobber_shift [of d s 4 "unat (n - 4)"] 1(2) n
    have "no_clobber (d + 4) (s + 4) (unat (n - 4))" by simp
    note 1(1) [OF True this]
    moreover have "copied m d s (unat n) = copied (copy32 m d s) (d + 4) (s + 4) (unat (n - 4))"
      using copied_add [of d s 4 "unat (n - 4)" m] 1(2) n by (simp add: copy32_copied)
    moreover have "memcpy_little m d s n = memcpy_little (copy32 m d s) (d + 4) (s + 4) (n - 4)"
      using True by (subst memcpy_little.simps) simp
    ultimately show ?thesis by simp
  next
    case False
    with 1(2) show ?thesis by (subst memcpy_little.simps) simp
  qed
qed

lemma copy32_4:
  assumes "no_clobber d s 16"
  shows "copy32 (copy32 (copy32 (copy32 m d s) (d + 4) (s + 4)) (d + 8) (s + 8)) (d + 12) (s + 12) = copied m d s 16"
proof -
  have "no_clobber d s 8" "no_clobber d s 12" using assms by (auto elim: no_clobber_le)
  with assms copied_add [of d s 4 4 m] copied_add [of d s 8 4 m] copied_add [of d s 12 4 m]
  show ?thesis by (simp add: copy32_copied)
qed

lemma memcpy_big_copied:
  "no_clobber d s (unat n) \<Longrightarrow> case memcpy_big m d s n of (m', d', s', n') \<Rightarrow>
     no_clobber d' s' (unat n') \<and> copied m' d' s' (unat n') = copied m d s (unat n)"
proof (induction m d s n rule: memcpy_big.induct)
  case (1 m d s n)
  show ?case
  proof (cases "n \<ge> 16")
    case True
    let ?m = "copy32 (copy32 (copy32 (copy32 m d s) (d + 4) (s + 4)) (d + 8) (s + 8)) (d + 12) (s + 12)"
    have n: "unat n = 16 + unat (n - 16)" using unat_ge_u32 [OF True] by simp
    from no_clobber_shift [of d s 16 "unat (n - 16)"] 1(2) n
    have "no_clobber (d + 16) (s + 16) (unat (n - 16))" by simp
    note 1(1) [OF True this]
    moreover have "?m = copied m d s 16" using 1(2) n by (intro copy32_4) (auto elim: no_clobber_le)
    then have "copied m d s (unat n) = copied ?m (d + 16) (s + 16) (unat (n - 16))"
      using copied_add [of d s 16 "unat (n - 16)" m] 1(2) n by simp
    moreover have "memcpy_big m d s n = memcpy_big ?m (d + 16) (s + 16) (n - 16)"
      using True by (subst memcpy_big.simps) simp
    ultimately show ?thesis by simp
  next
    case False
    with 1(2) show ?thesis by (subst memcpy_big.simps) simp
  qed
qed

lemma rt_memcpy_copied:
  assumes "no_clobber d s (unat n)"
  shows "rt_memcpy m d s n = copied m d s (unat n)"
proof -
  obtain m1 d1 s1 n1 where a: "memcpy_big m d s n = (m1, d1, s1, n1)" by (cases "memcpy_big m d s n") blast
  obtain m2 d2 s2 n2 where b: "memcpy_little m1 d1 s1 n1 = (m2, d2, s2, n2)"
    by (cases "memcpy_little m1 d1 s1 n1") blast
  from memcpy_big_copied [OF assms, of m] a memcpy_little_copied [of d1 s1 n1 m1] b
  have "copied m2 d2 s2 (unat n2) = copied m d s (unat n)" "no_clobber d2 s2 (unat n2)" by simp_all
  with a b assms show ?thesis by (simp add: rt_memcpy_def copy_forward_copied Let_def)
qed

text \<open>A backward copy is right if the bytes it writes first are not read later.\<close>

lemma copied_Suc:
  assumes "k < 2 ^ 32"
  shows "copied m d s (Suc k) = (copied m d s k)(d + of_nat k := m (s + of_nat k))"
  unfolding copied_def by (simp add: bytes_at_def store_bytes_append)

lemma of_nat_neq_u32: "i < k \<Longrightarrow> k < 2 ^ 32 \<Longrightarrow> of_nat i \<noteq> (of_nat k :: u32)"
proof
  assume a: "i < k" "k < 2 ^ 32" and "of_nat i = (of_nat k :: u32)"
  then have "unat (of_nat i :: u32) = unat (of_nat k :: u32)" by simp
  with a show False by (simp add: unsigned_of_nat take_bit_nat_eq_self)
qed

lemma copy_backward_copied:
  assumes "\<And>i j. i < unat n \<Longrightarrow> j < i \<Longrightarrow> d + of_nat i \<noteq> s + of_nat j"
  shows "copy_backward m (d + n) (s + n) n = copied m d s (unat n)"
proof -
  have "copy_backward m (d + n') (s + n') n' = copied m d s (unat n')" if "unat n' \<le> unat n" for n'
    using that
  proof (induction "unat n'" arbitrary: m n')
    case 0
    then have "n' = 0" by (simp add: unat_eq_zero)
    then show ?case by (subst copy_backward.simps) simp
  next
    case (Suc k)
    then have "n' \<noteq> 0" by auto
    then have k: "unat (n' - 1) = k" using Suc(2) unat_Suc_pred [of n'] by (simp add: word_neq_0_conv)
    have lt: "k < 2 ^ 32" using unat_u32_less [of n'] Suc(2) by simp
    have nk: "n' - 1 = of_nat k" by (simp flip: k)
    let ?m = "m(d + of_nat k := m (s + of_nat k))"
    have "copy_backward m (d + n') (s + n') n' = copy_backward ?m (d + (n' - 1)) (s + (n' - 1)) (n' - 1)"
      using \<open>n' \<noteq> 0\<close> nk by (subst copy_backward.simps) (simp add: add_diff_eq [symmetric] del: fun_upd_apply)
    also have "\<dots> = copied ?m d s k" using Suc(1) [of "n' - 1" ?m] k Suc(2,3) by (simp del: fun_upd_apply)
    also have "bytes_at ?m s k = bytes_at m s k"
    proof (rule bytes_at_cong)
      fix i assume "i < k"
      then have "s + of_nat i \<noteq> d + of_nat k" using assms [of k i] Suc(2,3) by auto
      then show "?m (s + of_nat i) = m (s + of_nat i)" by simp
    qed
    then have "copied ?m d s k = store_bytes ?m d (bytes_at m s k)" by (simp add: copied_def)
    also have "\<dots> = (copied m d s k)(d + of_nat k := m (s + of_nat k))"
      unfolding copied_def using lt of_nat_neq_u32 [of _ k]
      by (intro store_bytes_comm) (metis add_left_cancel length_bytes_at)
    also have "\<dots> = copied m d s (unat n')" using copied_Suc [OF lt] Suc(2) by simp
    finally show ?case .
  qed
  then show ?thesis by simp
qed

lemma unat_offset: "unat p + i < 2 ^ 32 \<Longrightarrow> unat (p + of_nat i :: u32) = unat p + i"
  by (simp add: unat_word_ariths unsigned_of_nat take_bit_eq_mod)

lemma offset_neq:
  fixes p q :: u32
  assumes "unat p + i < 2 ^ 32" "unat q + j < 2 ^ 32" "unat p + i \<noteq> unat q + j"
  shows "p + of_nat i \<noteq> q + of_nat j"
  using unat_offset [OF assms(1)] unat_offset [OF assms(2)] assms(3) by metis

lemma no_clobber_intro:
  assumes "unat s + n \<le> 2 ^ 32" "unat d + n \<le> 2 ^ 32" "d \<le> s \<or> unat s + n \<le> unat d"
  shows "no_clobber d s n"
  unfolding no_clobber_def
proof (intro allI impI)
  fix j i assume "j < n" "i < j"
  with assms show "d + of_nat i \<noteq> s + of_nat j" by (intro offset_neq) (auto simp: word_le_nat_alt)
qed

lemma rt_memmove_copied:
  assumes "unat s + unat n < 2 ^ 32" "unat d + unat n \<le> 2 ^ 32"
  shows "rt_memmove m d s n = copied m d s (unat n)"
proof (cases "s < d \<and> d < s + n")
  case True
  have "copy_backward m (d + n) (s + n) n = copied m d s (unat n)"
  proof (rule copy_backward_copied)
    fix i j assume "i < unat n" "j < i"
    with True assms show "d + of_nat i \<noteq> s + of_nat j" by (intro offset_neq) (auto simp: word_less_nat_alt)
  qed
  with True show ?thesis by (simp add: rt_memmove_def)
next
  case False
  have "unat (s + n) = unat s + unat n" using assms(1) by (intro unat_add_u32)
  with False assms have "no_clobber d s (unat n)"
    by (intro no_clobber_intro) (auto simp: word_less_nat_alt word_le_nat_alt)
  with False show ?thesis by (auto simp: rt_memmove_def copy_forward_copied)
qed

section \<open>Comparing and strings\<close>

lemma rt_memcmp_find:
  "rt_memcmp m cs ct n = (case find (\<lambda>(x, y). x \<noteq> y) (zip (bytes_at m cs (unat n)) (bytes_at m ct (unat n))) of
     None \<Rightarrow> 0 | Some (x, y) \<Rightarrow> byte_diff x y)"
proof (induction m cs ct n rule: rt_memcmp.induct)
  case (1 m cs ct n)
  show ?case
  proof (cases "n = 0")
    case True
    then show ?thesis by (subst rt_memcmp.simps) simp
  next
    case False
    then have pos: "0 < n" by (simp add: word_neq_0_conv)
    note n = unat_Suc_pred [OF pos]
    show ?thesis
    proof (cases "m cs = m ct")
      case True
      with pos have "rt_memcmp m cs ct n = rt_memcmp m (cs + 1) (ct + 1) (n - 1)"
        by (subst rt_memcmp.simps) simp
      with 1 [OF pos] True n show ?thesis by (simp add: bytes_at_Suc)
    next
      case False
      then have "byte_diff (m cs) (m ct) \<noteq> 0" by (simp add: word_uint_eq_iff)
      with pos False n show ?thesis by (subst rt_memcmp.simps) (simp add: bytes_at_Suc)
    qed
  qed
qed

text \<open>\<open>cstr m p s\<close>: the zero-terminated string \<open>s\<close> is stored at \<open>p\<close>.\<close>

definition cstr :: "memory \<Rightarrow> u32 \<Rightarrow> u8 list \<Rightarrow> bool" where
  "cstr m p s \<longleftrightarrow> bytes_at m p (Suc (length s)) = s @ [0] \<and> 0 \<notin> set s"

lemma cstr_Nil [simp]: "cstr m p [] \<longleftrightarrow> m p = 0"
  by (simp add: cstr_def bytes_at_def)

lemma cstr_Cons [simp]: "cstr m p (b # s) \<longleftrightarrow> m p = b \<and> b \<noteq> 0 \<and> cstr m (p + 1) s"
  by (auto simp: cstr_def bytes_at_Suc [of m p "Suc (length s)"])

lemma strlen_scan_cstr: "cstr m p s \<Longrightarrow> strlen_scan m p = Some (p + of_nat (length s))"
proof (induction s arbitrary: p)
  case Nil
  then show ?case by (subst strlen_scan.simps) simp
next
  case (Cons b s)
  from Cons.prems have "strlen_scan m p = strlen_scan m (p + 1)" by (subst strlen_scan.simps) simp
  with Cons show ?case by (simp add: algebra_simps)
qed

lemma signed_char_0: "signed_char (byte_diff a b) = 0 \<longleftrightarrow> a = b"
proof -
  have "signed_char (byte_diff a b) = sint (a - b)" by (simp add: signed_char_def)
  moreover have "sint (a - b) = 0 \<longleftrightarrow> a - b = 0" by (rule signed_eq_0_iff)
  ultimately show ?thesis by simp
qed

lemma signed_char_big:
  assumes "128 \<le> x" "x < 256"
  shows "signed_char x = x - 256"
proof -
  have "x div 128 = 1" using assms by presburger
  then have "bit x 7" by (simp add: bit_iff_odd)
  moreover have "take_bit 8 x = x" using assms by (simp add: take_bit_eq_mod)
  ultimately have "signed_take_bit 7 x = x - 256" by (simp add: signed_take_bit_eq_take_bit_minus)
  then show ?thesis by (simp add: signed_char_def signed_of_int)
qed

lemma strncpy_pad_fill: "n \<noteq> 0 \<Longrightarrow> strncpy_pad m d n = fill m d (unat (n - 1)) 0"
proof (induction m d n rule: strncpy_pad.induct)
  case (1 m d n)
  show ?case
  proof (cases "n = 1")
    case True
    then show ?thesis by (subst strncpy_pad.simps) simp
  next
    case False
    then have 2: "n - 1 \<noteq> 0" by simp
    have "unat (n - 1) = Suc (unat (n - 1 - 1))" by (rule unat_Suc_pred) (use 2 in \<open>simp only: word_neq_0_conv\<close>)
    with 1(1) [OF 2 2] show ?thesis using 2
      by (subst strncpy_pad.simps) (simp add: fill_def del: fun_upd_apply)
  qed
qed

text \<open>The bytes \<open>rt_strncpy\<close> writes: the string, cut or padded with zeros to the given length.\<close>

definition padded :: "nat \<Rightarrow> u8 list \<Rightarrow> u8 list" where
  "padded n s = take n s @ replicate (n - length s) 0"

lemma padded_Cons: "padded (Suc n) (b # s) = b # padded n s"
  by (simp add: padded_def)

lemma cstr_upd:
  "cstr m p s \<Longrightarrow> (\<And>i. i \<le> length s \<Longrightarrow> x \<noteq> p + of_nat i) \<Longrightarrow> cstr (m(x := v)) p s"
proof (induction s arbitrary: p)
  case Nil
  then show ?case by auto
next
  case (Cons b s)
  from Cons.prems(2) [of "Suc _"] have "x \<noteq> p + 1 + of_nat i" if "i \<le> length s" for i
    using that by (auto simp: algebra_simps)
  with Cons.IH [of "p + 1"] Cons.prems(1) Cons.prems(2) [of 0] show ?case by auto
qed

lemma strncpy_loop_padded:
  assumes "n \<noteq> 0" "cstr m s str" "\<And>i j. i < unat n \<Longrightarrow> j \<le> length str \<Longrightarrow> d + of_nat i \<noteq> s + of_nat j"
  shows "strncpy_loop m d s n = store_bytes m d (padded (unat n) str)"
  using assms
proof (induction str arbitrary: m d s n)
  case Nil
  have n: "unat n = Suc (unat (n - 1))" by (rule unat_Suc_pred) (use Nil(1) in \<open>simp only: word_neq_0_conv\<close>)
  then show ?case using Nil(1,2)
    by (subst strncpy_loop.simps) (simp add: strncpy_pad_fill fill_def padded_def Let_def del: fun_upd_apply)
next
  case (Cons b str)
  let ?m = "m(d := b)"
  have n: "unat n = Suc (unat (n - 1))" by (rule unat_Suc_pred) (use Cons.prems(1) in \<open>simp only: word_neq_0_conv\<close>)
  have b: "m s = b" "b \<noteq> 0" "cstr m (s + 1) str" using Cons.prems(2) by simp_all
  show ?case
  proof (cases "n = 1")
    case True
    then show ?thesis using b by (subst strncpy_loop.simps) (simp add: padded_def del: fun_upd_apply)
  next
    case False
    have "cstr ?m (s + 1) str"
      using b(3) Cons.prems(3) [of 0 "Suc _"] n by (intro cstr_upd) (auto simp: algebra_simps)
    moreover have "d + 1 + of_nat i \<noteq> s + 1 + of_nat j" if "i < unat (n - 1)" "j \<le> length str" for i j
      using Cons.prems(3) [of "Suc i" "Suc j"] that n by (simp add: algebra_simps)
    ultimately have "strncpy_loop ?m (d + 1) (s + 1) (n - 1) = store_bytes ?m (d + 1) (padded (unat (n - 1)) str)"
      using False by (intro Cons.IH) (auto simp del: fun_upd_apply)
    then show ?thesis using b False n
      by (subst strncpy_loop.simps) (simp add: padded_Cons Let_def del: fun_upd_apply)
  qed
qed

section \<open>Properties\<close>

text \<open>
  \<open>rt_memset\<close>, which fills aligned areas word by word and four words at a time, sets
  exactly \<open>count\<close> bytes to the low byte of its argument, for every alignment and length.
\<close>

theorem memset_correct:
  "rt_memset m s c count = store_bytes m s (replicate (unat count) (ucast c))"
proof -
  have "c AND 0xff = take_bit 8 c" by (simp add: take_bit_eq_mask mask_eq_exp_minus_1)
  moreover have "ucast (take_bit 8 c) = (ucast c :: u8)" by (rule bit_word_eqI) (auto simp: bit_simps)
  ultimately have "ucast (c AND 0xff) = (ucast c :: u8)" by simp
  then show ?thesis by (simp add: rt_memset_fill fill_def)
qed

text \<open>
  \<open>rt_memcpy\<close>, which copies aligned areas word by word and four words at a time,
  leaves the bytes of the source in the destination and changes no other byte, provided the
  areas lie inside the address space and the destination is not above the source within its area.
\<close>

theorem memcpy_correct:
  assumes "unat src + unat count \<le> 2 ^ 32" "unat dst + unat count \<le> 2 ^ 32"
    and "dst \<le> src \<or> unat src + unat count \<le> unat dst"
  shows "rt_memcpy m dst src count = store_bytes m dst (bytes_at m src (unat count))"
  using rt_memcpy_copied [OF no_clobber_intro [OF assms]] by (simp add: copied_def)

lemma memcpy_correct_witness:
  "rt_memcpy (\<lambda>a. ucast a) 0x100 0x20 37 = store_bytes (\<lambda>a. ucast a) 0x100 (bytes_at (\<lambda>a. ucast a) 0x20 37)"
  using memcpy_correct [where m = "\<lambda>a. ucast a" and src = "0x20" and count = 37 and dst = "0x100"] by simp

text \<open>
  C32. \<open>rt_memmove\<close> leaves the bytes the source had in the destination and changes no other
  byte, however the two areas overlap, provided they do not run past the end of the address space.
\<close>

theorem memmove_correct:
  assumes "unat src + unat n < 2 ^ 32" "unat dest + unat n \<le> 2 ^ 32"
  shows "rt_memmove m dest src n = store_bytes m dest (bytes_at m src (unat n))"
  using rt_memmove_copied [OF assms] by (simp add: copied_def)

lemma memmove_correct_witness:
  "bytes_at (rt_memmove (\<lambda>a. ucast a) 0x22 0x20 4) 0x20 6 = [0x20, 0x21, 0x20, 0x21, 0x22, 0x23]"
proof -
  have "rt_memmove (\<lambda>a. ucast a) 0x22 0x20 4 = store_bytes (\<lambda>a. ucast a) 0x22 (bytes_at (\<lambda>a. ucast a) 0x20 4)"
    using memmove_correct [where m = "\<lambda>a. ucast a" and src = "0x20" and n = 4 and dest = "0x22"] by simp
  moreover have "bytes_at (store_bytes (\<lambda>a. ucast a) 0x22 (bytes_at (\<lambda>a. ucast a) 0x20 4)) 0x20 6 =
      [0x20, 0x21, 0x20, 0x21, 0x22, 0x23]" by code_simp
  ultimately show ?thesis by simp
qed

text \<open>
  \<open>rt_strncmp\<close> keeps the difference of two characters in a signed byte, so the sign
  of its result is wrong when the first characters are more than 127 apart: the greater string
  compares as the smaller one, while \<open>rt_memcmp\<close> orders the same bytes correctly.
\<close>

theorem strncmp_sign:
  assumes "count \<noteq> 0" "uint (m cs) - uint (m ct) > 127"
  shows "rt_strncmp m cs ct count < 0 \<and> rt_memcmp m cs ct count > 0"
proof -
  let ?x = "byte_diff (m cs) (m ct)"
  have "0 \<le> uint (m ct)" "uint (m cs) < 256" using uint_lt2p [of "m cs"] by simp_all
  then have b: "?x < 256" by linarith
  have "signed_char ?x = ?x - 256"
    using assms(2) b by (intro signed_char_big) simp_all
  with assms b show ?thesis
    by (subst rt_strncmp.simps, subst rt_memcmp.simps) (auto simp: Let_def word_neq_0_conv)
qed

lemma strncmp_sign_witness:
  "rt_strncmp (\<lambda>a. if a = 0x20 then 0xE4 else 0x41) 0x20 0x30 4 < 0 \<and>
   rt_memcmp (\<lambda>a. if a = 0x20 then 0xE4 else 0x41) 0x20 0x30 4 > 0"
  by (rule strncmp_sign) simp_all

text \<open>
  \<open>rt_strncpy\<close> writes exactly \<open>n\<close> bytes: the string without its terminating
  zero, cut after \<open>n\<close> characters or padded with zeros, when the destination does not
  overlap the string.
\<close>

theorem strncpy_correct:
  assumes "cstr m src str" "\<And>i j. i < unat n \<Longrightarrow> j \<le> length str \<Longrightarrow> dst + of_nat i \<noteq> src + of_nat j"
  shows "rt_strncpy m dst src n = store_bytes m dst (take (unat n) str @ replicate (unat n - length str) 0)"
  using strncpy_loop_padded [OF _ assms] by (simp add: rt_strncpy_def padded_def)

lemma strncpy_correct_witness:
  "bytes_at (rt_strncpy (store_bytes (\<lambda>a. 7) 0x20 [0x68, 0x69, 0]) 0x40 0x20 4) 0x40 6 = [0x68, 0x69, 0, 0, 7, 7]"
proof -
  let ?m = "store_bytes (\<lambda>a. 7) 0x20 [0x68, 0x69, 0]"
  have c: "cstr ?m 0x20 [0x68, 0x69]" by simp
  have o: "(0x40 :: u32) + of_nat i \<noteq> 0x20 + of_nat j" if "i < unat (4 :: u32)" "j \<le> length [0x68, 0x69 :: u8]" for i j
    using that by (intro offset_neq) auto
  have p: "take (unat (4 :: u32)) [0x68, 0x69] @ replicate (unat (4 :: u32) - length [0x68, 0x69 :: u8]) 0 =
      ([0x68, 0x69] @ [0, 0] :: u8 list)" by code_simp
  have "rt_strncpy ?m 0x40 0x20 4 = store_bytes ?m 0x40 ([0x68, 0x69] @ [0, 0])"
    unfolding p [symmetric] by (rule strncpy_correct [OF c]) (rule o)
  moreover have "bytes_at (store_bytes ?m 0x40 ([0x68, 0x69] @ [0, 0])) 0x40 6 = [0x68, 0x69, 0, 0, 7, 7]" by code_simp
  ultimately show ?thesis by simp
qed

text \<open>\<open>rt_strlen\<close> returns the length of the string.\<close>

lemma rt_strlen_cstr: "cstr m p s \<Longrightarrow> rt_strlen m p = Some (of_nat (length s))"
  by (simp add: rt_strlen_def strlen_scan_cstr)

end
