(* ===== verification/Dl_Ring.thy ===== *)
theory Dl_Ring
  imports Main
begin

text \<open>
  Circular doubly linked lists in a store. The links are two functions on addresses, the
  projections of the \<open>next\<close> and \<open>prev\<close> fields of the nodes; \<open>dl_ring nx pv xs\<close> says that
  they join the nodes \<open>xs\<close> in this order and back to the first one.
\<close>

definition dl_ring :: "('p \<Rightarrow> 'p) \<Rightarrow> ('p \<Rightarrow> 'p) \<Rightarrow> 'p list \<Rightarrow> bool" where
  "dl_ring nx pv xs \<longleftrightarrow> xs \<noteq> [] \<and> distinct xs \<and> map nx xs = rotate1 xs \<and> map pv (rotate1 xs) = xs"

lemma dl_ring_cong:
  assumes "\<And>x. x \<in> set xs \<Longrightarrow> nx' x = nx x \<and> pv' x = pv x"
  shows "dl_ring nx' pv' xs = dl_ring nx pv xs"
proof -
  have "map nx' xs = map nx xs" "map pv' (rotate1 xs) = map pv (rotate1 xs)" using assms by simp_all
  then show ?thesis by (simp only: dl_ring_def)
qed

lemma dl_ring_outside [simp]:
  assumes "n \<notin> set xs"
  shows "dl_ring (nx(n := v)) pv xs = dl_ring nx pv xs" "dl_ring nx (pv(n := v)) xs = dl_ring nx pv xs"
  using assms by (auto intro!: dl_ring_cong)

text \<open>
  The ring cut behind the node \<open>a\<close>: \<open>p\<close> are the nodes before it, \<open>ys\<close> the nodes after it, and \<open>b\<close> is
  the node that follows, which is the first one if \<open>a\<close> is the last.
\<close>

lemma map_fun_upd_other: "x \<notin> set zs \<Longrightarrow> map (f(x := v)) zs = map f zs"
  by (induction zs) auto

lemma dl_ring_cut:
  assumes "x # l = p @ [a]" "b # r = ys @ [x]"
  shows "dl_ring nx pv (p @ a # ys) \<longleftrightarrow> distinct (p @ a # ys) \<and>
    map nx p = l \<and> nx a = b \<and> map nx ys = r \<and> map pv l = p \<and> pv b = a \<and> map pv r = ys"
proof -
  have ring: "p @ a # ys = x # l @ ys" using assms(1) by (metis append_Cons append_assoc append_Nil)
  have len: "length l = length p" using arg_cong [OF assms(1), of length] by simp
  have "rotate1 (p @ a # ys) = l @ b # r" unfolding ring using assms(2) by simp
  then show ?thesis using len by (auto simp: dl_ring_def)
qed

lemma ring_cut_exists:
  obtains x l b r where "x # l = p @ [a]" "b # r = ys @ [x]"
  by (metis append_is_Nil_conv neq_Nil_conv not_Cons_self2)

lemma ring_cut_sets:
  assumes "x # l = p @ [a]" "b # r = ys @ [x]" "distinct (p @ a # ys)"
  shows "b \<in> set (p @ a # ys)" "b \<notin> set l" "b \<notin> set r" "set l \<subseteq> set (p @ a # ys)" "set r \<subseteq> set (p @ a # ys)"
proof -
  have s: "set (x # l) = set (p @ [a])" "set (b # r) = set (ys @ [x])" using assms(1,2) by metis+
  have "distinct (x # l)" using assms(1,3) by (metis append_Cons append_Nil append_assoc distinct_append)
  moreover have "x \<notin> set ys" using s(1) assms(3) by auto
  then have "distinct (b # r)" using assms(2,3) by simp
  moreover have "b \<in> insert x (set ys)" "set l \<subseteq> insert a (set p)" using s by auto
  ultimately show "b \<in> set (p @ a # ys)" "b \<notin> set l" "b \<notin> set r" "set l \<subseteq> set (p @ a # ys)" "set r \<subseteq> set (p @ a # ys)"
    using assms(3) s by (auto dest: arg_cong [of _ _ set])
qed

lemma dl_ring_insert:
  assumes "dl_ring nx pv (p @ a # ys)" "n \<notin> set (p @ a # ys)" "b = nx a"
  shows "dl_ring (nx(n := b, a := n)) (pv(n := a, b := n)) (p @ a # n # ys)"
proof -
  obtain x l b' r where c: "x # l = p @ [a]" "b' # r = ys @ [x]" by (rule ring_cut_exists)
  from assms(1) [unfolded dl_ring_cut [OF c]] assms(3) have d: "distinct (p @ a # ys)" and b: "b' = b"
    and m: "map nx p = l" "map nx ys = r" "map pv l = p" "map pv r = ys" by auto
  have bl: "b \<notin> set l" "b \<notin> set r" "n \<notin> set l" "n \<notin> set r" "b \<noteq> n"
    using ring_cut_sets [OF c d] assms(2) b by auto
  have c': "x # (l @ [n]) = (p @ [a]) @ [n]" using c(1) by simp
  have "map (nx(n := b, a := n)) (p @ [a]) = l @ [n]" "map (nx(n := b, a := n)) ys = r"
    "map (pv(n := a, b := n)) (l @ [n]) = p @ [a]" "map (pv(n := a, b := n)) r = ys"
    using m d bl assms(2) by (simp_all add: map_fun_upd_other)
  with d assms(2) bl(5) have "dl_ring (nx(n := b, a := n)) (pv(n := a, b := n)) ((p @ [a]) @ n # ys)"
    unfolding dl_ring_cut [OF c' c(2)] b by auto
  then show ?thesis by simp
qed

lemma dl_ring_remove:
  assumes "dl_ring nx pv (p @ a # n # ys)" "b = nx n"
  shows "dl_ring (nx(a := b)) (pv(b := a)) (p @ a # ys)"
proof -
  obtain x l b' r where c: "x # l = p @ [a]" "b' # r = ys @ [x]" by (rule ring_cut_exists)
  have c': "x # (l @ [n]) = (p @ [a]) @ [n]" using c(1) by simp
  from assms(1) have "dl_ring nx pv ((p @ [a]) @ n # ys)" by simp
  from this [unfolded dl_ring_cut [OF c' c(2)]] assms(2) have d: "distinct (p @ a # n # ys)" and b: "b' = b"
    and m: "map nx p = l" "map nx ys = r" "map pv l = p" "map pv r = ys" by auto
  have d': "distinct (p @ a # ys)" using d by auto
  then have bl: "b \<notin> set l" "b \<notin> set r" using ring_cut_sets [OF c d'] b by auto
  have "map (nx(a := b)) p = l" "map (nx(a := b)) ys = r" "map (pv(b := a)) l = p" "map (pv(b := a)) r = ys"
    using m d bl by (simp_all add: map_fun_upd_other)
  with d' show ?thesis unfolding dl_ring_cut [OF c] b by auto
qed

text \<open>The neighbours of a node.\<close>

lemma dl_ring_next:
  assumes "dl_ring nx pv (p @ a # b # ys)"
  shows "nx a = b" "pv b = a"
proof -
  obtain x l b' r where c: "x # l = p @ [a]" "b' # r = (b # ys) @ [x]" by (rule ring_cut_exists)
  from assms [unfolded dl_ring_cut [OF c]] c(2) show "nx a = b" "pv b = a" by auto
qed

lemma dl_ring_last:
  assumes "dl_ring nx pv (x # l)"
  shows "nx (last (x # l)) = x" "pv x = last (x # l)"
proof -
  have "last (map nx (x # l)) = last (l @ [x])" "last (map pv (l @ [x])) = last (x # l)"
    using assms by (simp_all add: dl_ring_def del: list.map map_append last.simps)
  then show "nx (last (x # l)) = x" "pv x = last (x # l)" by (simp_all add: last_map split: if_splits)
qed

lemma dl_ring_singleton: "dl_ring nx pv [x] \<longleftrightarrow> nx x = x \<and> pv x = x"
  by (auto simp: dl_ring_def)

lemma dl_ring_distinct: "dl_ring nx pv xs \<Longrightarrow> distinct xs"
  by (simp add: dl_ring_def)

lemma dl_ring_closed:
  assumes "dl_ring nx pv xs" "a \<in> set xs"
  shows "nx a \<in> set xs" "pv a \<in> set xs"
proof -
  have "nx a \<in> set (map nx xs)" "pv a \<in> set (map pv (rotate1 xs))" using assms(2) by auto
  with assms(1) show "nx a \<in> set xs" "pv a \<in> set xs" by (simp_all add: dl_ring_def)
qed

lemma dl_ring_inverse:
  assumes "dl_ring nx pv xs" "a \<in> set xs"
  shows "pv (nx a) = a" "nx (pv a) = a"
proof -
  have "map (pv \<circ> nx) xs = xs" "map (nx \<circ> pv) (rotate1 xs) = rotate1 xs"
    using assms(1) by (simp_all add: dl_ring_def flip: map_map)
  then have "\<forall>x\<in>set xs. (pv \<circ> nx) x = x" "\<forall>x\<in>set (rotate1 xs). (nx \<circ> pv) x = x" by (simp_all only: map_idI map_eq_conv [of _ _ id, simplified])
  with assms(2) show "pv (nx a) = a" "nx (pv a) = a" by auto
qed

end
