(* ===== verification/Memheap_Defs.thy ===== *)
theory Memheap_Defs
  imports Kservice Dl_Ring
begin

text \<open>
  The system heap of the kernel (\<open>rt-thread/src/memheap.c\<close>, which the configuration selects as the
  implementation of \<open>rt_malloc\<close>). Block headers and heap objects live in a store indexed by their
  address; the user's bytes are a memory of their own, since a header is only ever accessed
  through its fields. \<open>None\<close> stands for a call that stops at one of the assertions of the source, or
  waits for a lock that is held by someone else. The configuration leaves \<open>RT_DEBUG\<close> undefined, so \<open>RT_ASSERT\<close> expands
  to nothing in this build; the definitions check the assertions nevertheless, so that a theorem which says that a call returns
  says that its assertions hold, and on such a call the compiled code does the same. A failed one
  is not followed further. The object registry is the list of the heaps in
  the order of \<open>object_list\<close>; names, hooks and log messages are left out.
\<close>

section \<open>Data\<close>

record rt_memheap_item =
  magic :: u32
  pool_ptr :: u32
  nxt :: u32
  prv :: u32
  next_free :: u32
  prev_free :: u32

record rt_memheap =
  obj_type :: u8
  start_addr :: u32
  pool_size :: u32
  available_size :: u32
  max_used_size :: u32
  block_list :: u32
  free_list :: u32
  lock_value :: u16

record kheap =
  items :: "u32 \<Rightarrow> rt_memheap_item"
  heaps :: "u32 \<Rightarrow> rt_memheap"
  objs :: "u32 list"
  kmem :: memory

type_synonym 'a kresult = "('a \<times> kheap) option"

abbreviation (input) RT_MEMHEAP_MAGIC :: u32 where "RT_MEMHEAP_MAGIC \<equiv> 0x1ea01ea0"
abbreviation (input) RT_MEMHEAP_MASK :: u32 where "RT_MEMHEAP_MASK \<equiv> 0xfffffffe"
abbreviation (input) RT_MEMHEAP_USED :: u32 where "RT_MEMHEAP_USED \<equiv> 1"
abbreviation (input) RT_MEMHEAP_MINIALLOC :: u32 where "RT_MEMHEAP_MINIALLOC \<equiv> 12"
abbreviation (input) RT_MEMHEAP_SIZE :: u32 where "RT_MEMHEAP_SIZE \<equiv> 24"
abbreviation (input) RT_ALIGN_SIZE :: u32 where "RT_ALIGN_SIZE \<equiv> 4"
abbreviation (input) RT_Object_Class_MemHeap :: u8 where "RT_Object_Class_MemHeap \<equiv> 7"
abbreviation (input) RT_Object_Class_Static :: u8 where "RT_Object_Class_Static \<equiv> 0x80"

definition RT_ALIGN :: "u32 \<Rightarrow> u32 \<Rightarrow> u32" where
  "RT_ALIGN sz align = (sz + align - 1) AND NOT (align - 1)"

text \<open>The address of the member \<open>free_header\<close>, 44 bytes into the heap object.\<close>

definition free_header :: "u32 \<Rightarrow> u32" where
  "free_header heap = heap + 44"

section \<open>Access to headers and heaps\<close>

definition upd_item :: "u32 \<Rightarrow> (rt_memheap_item \<Rightarrow> rt_memheap_item) \<Rightarrow> kheap \<Rightarrow> kheap" where
  "upd_item a f s = s\<lparr>items := (items s)(a := f (items s a))\<rparr>"

definition upd_heap :: "u32 \<Rightarrow> (rt_memheap \<Rightarrow> rt_memheap) \<Rightarrow> kheap \<Rightarrow> kheap" where
  "upd_heap h f s = s\<lparr>heaps := (heaps s)(h := f (heaps s h))\<rparr>"

abbreviation set_magic :: "u32 \<Rightarrow> u32 \<Rightarrow> kheap \<Rightarrow> kheap" where "set_magic a v \<equiv> upd_item a (magic_update (\<lambda>_. v))"
abbreviation set_pool :: "u32 \<Rightarrow> u32 \<Rightarrow> kheap \<Rightarrow> kheap" where "set_pool a v \<equiv> upd_item a (pool_ptr_update (\<lambda>_. v))"
abbreviation set_nxt :: "u32 \<Rightarrow> u32 \<Rightarrow> kheap \<Rightarrow> kheap" where "set_nxt a v \<equiv> upd_item a (nxt_update (\<lambda>_. v))"
abbreviation set_prv :: "u32 \<Rightarrow> u32 \<Rightarrow> kheap \<Rightarrow> kheap" where "set_prv a v \<equiv> upd_item a (prv_update (\<lambda>_. v))"
abbreviation set_next_free :: "u32 \<Rightarrow> u32 \<Rightarrow> kheap \<Rightarrow> kheap" where "set_next_free a v \<equiv> upd_item a (next_free_update (\<lambda>_. v))"
abbreviation set_prev_free :: "u32 \<Rightarrow> u32 \<Rightarrow> kheap \<Rightarrow> kheap" where "set_prev_free a v \<equiv> upd_item a (prev_free_update (\<lambda>_. v))"

abbreviation set_available :: "u32 \<Rightarrow> u32 \<Rightarrow> kheap \<Rightarrow> kheap" where
  "set_available h v \<equiv> upd_heap h (available_size_update (\<lambda>_. v))"

definition is_used :: "kheap \<Rightarrow> u32 \<Rightarrow> bool" where
  "is_used s a \<longleftrightarrow> magic (items s a) AND RT_MEMHEAP_USED \<noteq> 0"

definition MEMITEM_SIZE :: "kheap \<Rightarrow> u32 \<Rightarrow> u32" where
  "MEMITEM_SIZE s a = nxt (items s a) - a - RT_MEMHEAP_SIZE"

definition is_memheap :: "kheap \<Rightarrow> u32 \<Rightarrow> bool" where
  "is_memheap s h \<longleftrightarrow> obj_type (heaps s h) AND NOT RT_Object_Class_Static = RT_Object_Class_MemHeap"

text \<open>The lock of a heap: a semaphore with initial value 1.\<close>

definition sem_take :: "u32 \<Rightarrow> kheap \<Rightarrow> kheap option" where
  "sem_take h s = (if lock_value (heaps s h) > 0
     then Some (upd_heap h (lock_value_update (\<lambda>v. v - 1)) s) else None)"

definition sem_release :: "u32 \<Rightarrow> kheap \<Rightarrow> kheap" where
  "sem_release h s = upd_heap h (lock_value_update (\<lambda>v. v + 1)) s"

section \<open>List surgery shared by the operations\<close>

definition free_list_insert :: "u32 \<Rightarrow> u32 \<Rightarrow> kheap \<Rightarrow> kheap" where
  "free_list_insert h n s =
    (let fl = free_list (heaps s h);
         s1 = set_next_free n (next_free (items s fl)) s;
         s2 = set_prev_free n fl s1;
         s3 = set_prev_free (next_free (items s2 fl)) n s2
     in set_next_free fl n s3)"

definition free_list_remove :: "u32 \<Rightarrow> kheap \<Rightarrow> kheap" where
  "free_list_remove n s =
    (let s1 = set_prev_free (next_free (items s n)) (prev_free (items s n)) s
     in set_next_free (prev_free (items s1 n)) (next_free (items s1 n)) s1)"

definition block_insert :: "u32 \<Rightarrow> u32 \<Rightarrow> kheap \<Rightarrow> kheap" where
  "block_insert a n s =
    (let s1 = set_prv n a s;
         s2 = set_nxt n (nxt (items s1 a)) s1;
         s3 = set_prv (nxt (items s2 a)) n s2
     in set_nxt a n s3)"

definition account_use :: "u32 \<Rightarrow> u32 \<Rightarrow> kheap \<Rightarrow> kheap" where
  "account_use h v s =
    (let s1 = set_available h v s;
         hp = heaps s1 h
     in if pool_size hp - available_size hp > max_used_size hp
        then upd_heap h (max_used_size_update (\<lambda>_. pool_size hp - available_size hp)) s1 else s1)"

section \<open>Initialisation\<close>

definition rt_memheap_init :: "u32 \<Rightarrow> u32 \<Rightarrow> u32 \<Rightarrow> kheap \<Rightarrow> kheap option" where
  "rt_memheap_init h start sz s0 =
    (if h = 0 \<or> h \<in> set (objs s0) then None
     else
       (let s1 = upd_heap h (\<lambda>hp. hp\<lparr>obj_type := RT_Object_Class_MemHeap OR RT_Object_Class_Static\<rparr>)
                   (s0\<lparr>objs := h # objs s0\<rparr>);
            pool = sz AND NOT (RT_ALIGN_SIZE - 1);
            avail = pool - 2 * RT_MEMHEAP_SIZE;
            s2 = upd_heap h (\<lambda>hp. hp\<lparr>start_addr := start, pool_size := pool, available_size := avail,
                   max_used_size := pool - avail\<rparr>) s1;
            fh = free_header h;
            s3 = upd_item fh (\<lambda>i. \<lparr>magic = RT_MEMHEAP_MAGIC, pool_ptr = h, nxt = 0, prv = 0,
                   next_free = fh, prev_free = fh\<rparr>) s2;
            s4 = upd_heap h (free_list_update (\<lambda>_. fh)) s3;
            s5 = upd_item start (\<lambda>i. \<lparr>magic = RT_MEMHEAP_MAGIC, pool_ptr = h, nxt = 0, prv = 0,
                   next_free = start, prev_free = start\<rparr>) s4;
            tail = start + avail + RT_MEMHEAP_SIZE;
            s6 = set_nxt start tail s5;
            s7 = set_prv start (nxt (items s6 start)) s6;
            s8 = upd_heap h (block_list_update (\<lambda>_. start)) s7;
            s9 = free_list_insert h start s8;
            item = nxt (items s9 start);
            s10 = upd_item item (\<lambda>i. \<lparr>magic = RT_MEMHEAP_MAGIC OR RT_MEMHEAP_USED, pool_ptr = h,
                    nxt = start, prv = start, next_free = 0, prev_free = 0\<rparr>) s9
        in Some (upd_heap h (lock_value_update (\<lambda>_. 1)) s10)))"

definition rt_memheap_detach :: "u32 \<Rightarrow> kheap \<Rightarrow> kheap option" where
  "rt_memheap_detach h s =
    (if h = 0 \<or> \<not> is_memheap s h \<or> obj_type (heaps s h) AND RT_Object_Class_Static = 0 then None
     else Some (upd_heap h (obj_type_update (\<lambda>_. 0)) (s\<lparr>objs := removeAll h (objs s)\<rparr>)))"

section \<open>Allocation\<close>

text \<open>The search through the free list; the loop variables are \<open>header_ptr\<close> and \<open>free_size\<close>.\<close>

partial_function (option) find_block :: "kheap \<Rightarrow> u32 \<Rightarrow> u32 \<Rightarrow> u32 \<Rightarrow> u32 \<Rightarrow> (u32 \<times> u32) option" where
  "find_block s fl sz header_ptr free_size =
    (if header_ptr \<noteq> fl \<and> free_size < sz then
       (let free_size' = MEMITEM_SIZE s header_ptr
        in find_block s fl sz (if free_size' < sz then next_free (items s header_ptr) else header_ptr) free_size')
     else Some (header_ptr, free_size))"

declare find_block.simps [code]

text \<open>A block is taken whole, or cut if the rest can hold a header and a minimal block.\<close>

definition take_block :: "u32 \<Rightarrow> u32 \<Rightarrow> u32 \<Rightarrow> u32 \<Rightarrow> kheap \<Rightarrow> kheap" where
  "take_block h sz header_ptr free_size s =
    (if free_size \<ge> sz + RT_MEMHEAP_SIZE + RT_MEMHEAP_MINIALLOC then
       (let new_ptr = header_ptr + sz + RT_MEMHEAP_SIZE;
            s1 = set_pool new_ptr h (set_magic new_ptr RT_MEMHEAP_MAGIC s);
            s2 = block_insert header_ptr new_ptr s1;
            s3 = free_list_remove header_ptr s2;
            s4 = set_prev_free header_ptr 0 (set_next_free header_ptr 0 s3);
            s5 = free_list_insert h new_ptr s4
        in account_use h (available_size (heaps s5 h) - sz - RT_MEMHEAP_SIZE) s5)
     else
       (let s1 = account_use h (available_size (heaps s h) - free_size) s;
            s2 = free_list_remove header_ptr s1
        in set_prev_free header_ptr 0 (set_next_free header_ptr 0 s2)))"

definition rt_memheap_alloc :: "u32 \<Rightarrow> u32 \<Rightarrow> kheap \<Rightarrow> u32 kresult" where
  "rt_memheap_alloc h size0 s =
    (if h = 0 \<or> \<not> is_memheap s h then None
     else
       (let size1 = RT_ALIGN size0 RT_ALIGN_SIZE;
            sz = (if size1 < RT_MEMHEAP_MINIALLOC then RT_MEMHEAP_MINIALLOC else size1)
        in if sz < available_size (heaps s h) then do {
             s1 \<leftarrow> sem_take h s;
             let fl = free_list (heaps s1 h);
             (header_ptr, free_size) \<leftarrow> find_block s1 fl sz (next_free (items s1 fl)) 0;
             if free_size \<ge> sz then
               (let s2 = take_block h sz header_ptr free_size s1;
                    s3 = set_magic header_ptr (magic (items s2 header_ptr) OR RT_MEMHEAP_USED) s2
                in Some (header_ptr + RT_MEMHEAP_SIZE, sem_release h s3))
             else Some (0, sem_release h s1)
           }
           else Some (0, s)))"

section \<open>Release\<close>

text \<open>
  The two merges of \<open>rt_memheap_free\<close>. The left one moves \<open>header_ptr\<close> to the previous block and reports
  that the block is already in the free list.
\<close>

definition merge_left :: "u32 \<Rightarrow> u32 \<Rightarrow> kheap \<Rightarrow> u32 \<times> bool \<times> kheap" where
  "merge_left h header_ptr s =
    (if \<not> is_used s (prv (items s header_ptr)) then
       (let s1 = set_available h (available_size (heaps s h) + RT_MEMHEAP_SIZE) s;
            s2 = set_nxt (prv (items s1 header_ptr)) (nxt (items s1 header_ptr)) s1;
            s3 = set_prv (nxt (items s2 header_ptr)) (prv (items s2 header_ptr)) s2
        in (prv (items s3 header_ptr), False, s3))
     else (header_ptr, True, s))"

definition merge_right :: "u32 \<Rightarrow> u32 \<Rightarrow> kheap \<Rightarrow> kheap" where
  "merge_right h header_ptr s =
    (if \<not> is_used s (nxt (items s header_ptr)) then
       (let s1 = set_available h (available_size (heaps s h) + RT_MEMHEAP_SIZE) s;
            new_ptr = nxt (items s1 header_ptr);
            s2 = set_prv (nxt (items s1 new_ptr)) header_ptr s1;
            s3 = set_nxt header_ptr (nxt (items s2 new_ptr)) s2
        in free_list_remove new_ptr s3)
     else s)"

definition rt_memheap_free :: "u32 \<Rightarrow> kheap \<Rightarrow> kheap option" where
  "rt_memheap_free ptr s =
    (if ptr = 0 then Some s
     else
       (let header_ptr = ptr - RT_MEMHEAP_SIZE;
            h = pool_ptr (items s header_ptr)
        in if magic (items s header_ptr) AND RT_MEMHEAP_MASK \<noteq> RT_MEMHEAP_MAGIC \<or>
              \<not> is_used s header_ptr \<or>
              magic (items s (nxt (items s header_ptr))) AND RT_MEMHEAP_MASK \<noteq> RT_MEMHEAP_MAGIC \<or>
              h = 0 \<or> \<not> is_memheap s h
           then None
           else do {
             s1 \<leftarrow> sem_take h s;
             let s2 = set_magic header_ptr (magic (items s1 header_ptr) AND NOT RT_MEMHEAP_USED) s1;
             let s3 = set_available h (available_size (heaps s2 h) + MEMITEM_SIZE s2 header_ptr) s2;
             let (header_ptr, insert_header, s4) = merge_left h header_ptr s3;
             let s5 = merge_right h header_ptr s4;
             let s6 = (if insert_header then free_list_insert h header_ptr s5 else s5);
             Some (sem_release h s6)
           }))"

section \<open>Reallocation\<close>

text \<open>
  Growing: the following free block is used if it is large enough, otherwise the bytes move to
  a new block.
\<close>

definition grow_into :: "u32 \<Rightarrow> u32 \<Rightarrow> u32 \<Rightarrow> u32 \<Rightarrow> u32 \<Rightarrow> kheap \<Rightarrow> kheap" where
  "grow_into h ptr header_ptr oldsize newsize s =
    (let next_ptr = nxt (items s header_ptr);
         s1 = account_use h (available_size (heaps s h) - (newsize - oldsize)) s;
         s2 = free_list_remove next_ptr s1;
         s3 = set_prv (nxt (items s2 next_ptr)) (prv (items s2 next_ptr)) s2;
         s4 = set_nxt (prv (items s3 next_ptr)) (nxt (items s3 next_ptr)) s3;
         new_next = ptr + newsize;
         s5 = set_pool new_next h (set_magic new_next RT_MEMHEAP_MAGIC s4);
         s6 = block_insert header_ptr new_next s5
     in free_list_insert h new_next s6)"

definition rt_memheap_grow :: "u32 \<Rightarrow> u32 \<Rightarrow> u32 \<Rightarrow> kheap \<Rightarrow> u32 kresult" where
  "rt_memheap_grow h ptr newsize s =
    (let header_ptr = ptr - RT_MEMHEAP_SIZE;
         oldsize = MEMITEM_SIZE s header_ptr
     in do {
       s1 \<leftarrow> sem_take h s;
       let next_ptr = nxt (items s1 header_ptr);
       if \<not> next_ptr > header_ptr then None
       else if \<not> is_used s1 next_ptr \<and> MEMITEM_SIZE s1 next_ptr + oldsize > newsize + RT_MEMHEAP_MINIALLOC
       then Some (ptr, sem_release h (grow_into h ptr header_ptr oldsize newsize s1))
       else do {
         (new_ptr, s2) \<leftarrow> rt_memheap_alloc h newsize (sem_release h s1);
         if new_ptr \<noteq> 0 then do {
           s3 \<leftarrow> rt_memheap_free ptr
                   (s2\<lparr>kmem := rt_memcpy (kmem s2) new_ptr ptr (if oldsize < newsize then oldsize else newsize)\<rparr>);
           Some (new_ptr, s3)
         }
         else Some (new_ptr, s2)
       }
     })"

text \<open>Shrinking: the end of the block becomes a free block of its own.\<close>

definition shrink_block :: "u32 \<Rightarrow> u32 \<Rightarrow> u32 \<Rightarrow> kheap \<Rightarrow> kheap" where
  "shrink_block h header_ptr newsize s =
    (let new_ptr = header_ptr + newsize + RT_MEMHEAP_SIZE;
         s1 = set_pool new_ptr h (set_magic new_ptr RT_MEMHEAP_MAGIC s);
         s2 = block_insert header_ptr new_ptr s1;
         s3 = (if \<not> is_used s2 (nxt (items s2 new_ptr)) then
                 (let free_ptr = nxt (items s2 new_ptr);
                      a = set_available h (available_size (heaps s2 h) - MEMITEM_SIZE s2 free_ptr) s2;
                      b = set_prv (nxt (items a free_ptr)) new_ptr a;
                      c = set_nxt new_ptr (nxt (items b free_ptr)) b
                  in free_list_remove free_ptr c)
               else s2);
         s4 = free_list_insert h new_ptr s3
     in set_available h (available_size (heaps s4 h) + MEMITEM_SIZE s4 new_ptr) s4)"

definition rt_memheap_realloc :: "u32 \<Rightarrow> u32 \<Rightarrow> u32 \<Rightarrow> kheap \<Rightarrow> u32 kresult" where
  "rt_memheap_realloc h ptr newsize0 s =
    (if h = 0 \<or> \<not> is_memheap s h then None
     else if newsize0 = 0 then map_option (\<lambda>s'. (0, s')) (rt_memheap_free ptr s)
     else
       (let newsize1 = RT_ALIGN newsize0 RT_ALIGN_SIZE;
            newsize = (if newsize1 < RT_MEMHEAP_MINIALLOC then RT_MEMHEAP_MINIALLOC else newsize1);
            header_ptr = ptr - RT_MEMHEAP_SIZE
        in if ptr = 0 then rt_memheap_alloc h newsize s
           else if newsize > MEMITEM_SIZE s header_ptr then rt_memheap_grow h ptr newsize s
           else if newsize + RT_MEMHEAP_SIZE + RT_MEMHEAP_MINIALLOC \<ge> MEMITEM_SIZE s header_ptr then Some (ptr, s)
           else do {
             s1 \<leftarrow> sem_take h s;
             Some (ptr, sem_release h (shrink_block h header_ptr newsize s1))
           }))"

section \<open>The system heap\<close>

definition rt_system_heap_init :: "u32 \<Rightarrow> u32 \<Rightarrow> u32 \<Rightarrow> kheap \<Rightarrow> kheap option" where
  "rt_system_heap_init heap begin_addr end_addr s = rt_memheap_init heap begin_addr (end_addr - begin_addr) s"

fun malloc_others :: "u32 \<Rightarrow> u32 list \<Rightarrow> u32 \<Rightarrow> kheap \<Rightarrow> u32 kresult" where
  "malloc_others heap [] sz s = Some (0, s)"
| "malloc_others heap (h # hs) sz s =
    (if h = 0 \<or> \<not> is_memheap s h then None
     else if h = heap then malloc_others heap hs sz s
     else do {
       (ptr, s1) \<leftarrow> rt_memheap_alloc h sz s;
       if ptr \<noteq> 0 then Some (ptr, s1) else malloc_others heap hs sz s1
     })"

definition rt_malloc :: "u32 \<Rightarrow> u32 \<Rightarrow> kheap \<Rightarrow> u32 kresult" where
  "rt_malloc heap sz s = do {
     (ptr, s1) \<leftarrow> rt_memheap_alloc heap sz s;
     if ptr = 0 then malloc_others heap (objs s1) sz s1 else Some (ptr, s1)
   }"

definition rt_free :: "u32 \<Rightarrow> kheap \<Rightarrow> kheap option" where
  "rt_free rmem s = rt_memheap_free rmem s"

definition rt_realloc :: "u32 \<Rightarrow> u32 \<Rightarrow> u32 \<Rightarrow> kheap \<Rightarrow> u32 kresult" where
  "rt_realloc heap rmem newsize s =
    (if rmem = 0 then rt_malloc heap newsize s
     else if newsize = 0 then map_option (\<lambda>s'. (0, s')) (rt_free rmem s)
     else do {
       let header_ptr = rmem - RT_MEMHEAP_SIZE;
       (new_ptr, s1) \<leftarrow> rt_memheap_realloc (pool_ptr (items s header_ptr)) rmem newsize s;
       if new_ptr = 0 then do {
         (new_ptr, s2) \<leftarrow> rt_malloc heap newsize s1;
         if new_ptr \<noteq> 0 then do {
           let oldsize = MEMITEM_SIZE s2 header_ptr;
           s3 \<leftarrow> rt_free rmem
                   (s2\<lparr>kmem := rt_memcpy (kmem s2) new_ptr rmem (if newsize > oldsize then oldsize else newsize)\<rparr>);
           Some (new_ptr, s3)
         }
         else Some (new_ptr, s2)
       }
       else Some (new_ptr, s1)
     })"

definition rt_calloc :: "u32 \<Rightarrow> u32 \<Rightarrow> u32 \<Rightarrow> kheap \<Rightarrow> u32 kresult" where
  "rt_calloc heap count sz s =
    (let total_size = count * sz in do {
       (ptr, s1) \<leftarrow> rt_malloc heap total_size s;
       if ptr \<noteq> 0 then Some (ptr, s1\<lparr>kmem := rt_memset (kmem s1) ptr 0 total_size\<rparr>) else Some (ptr, s1)
     })"

end
