(* ===== verification/Memheap_Inv.thy ===== *)
theory Memheap_Inv
  imports Memheap_Defs
begin

text \<open>
  The invariant of the heap: the blocks tile the pool in address order, the headers of the blocks form
  a ring, the free blocks form a second ring with the list header, no two free blocks are
  neighbours, and the available size is the sum of the free blocks. The list operations of the C code
  are ring operations.
\<close>

section \<open>Projections of the store\<close>

definition nx :: "kheap \<Rightarrow> u32 \<Rightarrow> u32" where "nx s a = nxt (items s a)"
definition pv :: "kheap \<Rightarrow> u32 \<Rightarrow> u32" where "pv s a = prv (items s a)"
definition nf :: "kheap \<Rightarrow> u32 \<Rightarrow> u32" where "nf s a = next_free (items s a)"
definition pf :: "kheap \<Rightarrow> u32 \<Rightarrow> u32" where "pf s a = prev_free (items s a)"
definition mg :: "kheap \<Rightarrow> u32 \<Rightarrow> u32" where "mg s a = magic (items s a)"
definition pp :: "kheap \<Rightarrow> u32 \<Rightarrow> u32" where "pp s a = pool_ptr (items s a)"

lemmas proj_folds = nx_def [symmetric] pv_def [symmetric] nf_def [symmetric] pf_def [symmetric]
  mg_def [symmetric] pp_def [symmetric]

lemma proj_upd_item [simp]:
  "nx (upd_item a f s) = (nx s)(a := nxt (f (items s a)))"
  "pv (upd_item a f s) = (pv s)(a := prv (f (items s a)))"
  "nf (upd_item a f s) = (nf s)(a := next_free (f (items s a)))"
  "pf (upd_item a f s) = (pf s)(a := prev_free (f (items s a)))"
  "mg (upd_item a f s) = (mg s)(a := magic (f (items s a)))"
  "pp (upd_item a f s) = (pp s)(a := pool_ptr (f (items s a)))"
  "heaps (upd_item a f s) = heaps s" "objs (upd_item a f s) = objs s" "kmem (upd_item a f s) = kmem s"
  by (auto simp: upd_item_def nx_def pv_def nf_def pf_def mg_def pp_def)

lemma proj_upd_heap [simp]:
  "nx (upd_heap h g s) = nx s" "pv (upd_heap h g s) = pv s" "nf (upd_heap h g s) = nf s"
  "pf (upd_heap h g s) = pf s" "mg (upd_heap h g s) = mg s" "pp (upd_heap h g s) = pp s"
  "items (upd_heap h g s) = items s" "heaps (upd_heap h g s) = (heaps s)(h := g (heaps s h))"
  "objs (upd_heap h g s) = objs s" "kmem (upd_heap h g s) = kmem s"
  by (auto simp: upd_heap_def nx_def pv_def nf_def pf_def mg_def pp_def)

lemma proj_other [simp]:
  "nx (s\<lparr>objs := v\<rparr>) = nx s" "pv (s\<lparr>objs := v\<rparr>) = pv s" "nf (s\<lparr>objs := v\<rparr>) = nf s"
  "pf (s\<lparr>objs := v\<rparr>) = pf s" "mg (s\<lparr>objs := v\<rparr>) = mg s" "pp (s\<lparr>objs := v\<rparr>) = pp s"
  "nx (s\<lparr>kmem := m\<rparr>) = nx s" "pv (s\<lparr>kmem := m\<rparr>) = pv s" "nf (s\<lparr>kmem := m\<rparr>) = nf s"
  "pf (s\<lparr>kmem := m\<rparr>) = pf s" "mg (s\<lparr>kmem := m\<rparr>) = mg s" "pp (s\<lparr>kmem := m\<rparr>) = pp s"
  by (auto simp: nx_def pv_def nf_def pf_def mg_def pp_def)

lemma items_proj: "nxt (items s a) = nx s a" "prv (items s a) = pv s a" "next_free (items s a) = nf s a"
  "prev_free (items s a) = pf s a" "magic (items s a) = mg s a" "pool_ptr (items s a) = pp s a"
  by (simp_all add: nx_def pv_def nf_def pf_def mg_def pp_def)

lemma upd_item_idle:
  "(nx s)(a := nx s a) = nx s" "(pv s)(a := pv s a) = pv s" "(nf s)(a := nf s a) = nf s"
  "(pf s)(a := pf s a) = pf s" "(mg s)(a := mg s a) = mg s" "(pp s)(a := pp s a) = pp s"
  by simp_all

lemma is_used_mg: "is_used s a \<longleftrightarrow> mg s a AND 1 \<noteq> 0"
  by (simp add: is_used_def mg_def)

lemma MEMITEM_SIZE_nx: "MEMITEM_SIZE s a = nx s a - a - 24"
  by (simp add: MEMITEM_SIZE_def nx_def)

section \<open>The list operations\<close>

text \<open>What an operation leaves alone, beyond the two rings.\<close>

definition same_rest :: "kheap \<Rightarrow> kheap \<Rightarrow> bool" where
  "same_rest s s' \<longleftrightarrow> mg s' = mg s \<and> pp s' = pp s \<and> heaps s' = heaps s \<and> objs s' = objs s \<and> kmem s' = kmem s"

lemma block_insert_proj:
  assumes "n \<noteq> a" "nx s a \<noteq> n"
  shows "nx (block_insert a n s) = (nx s)(n := nx s a, a := n)"
    "pv (block_insert a n s) = (pv s)(n := a, nx s a := n)"
    "nf (block_insert a n s) = nf s" "pf (block_insert a n s) = pf s" "same_rest s (block_insert a n s)"
  using assms by (simp_all add: block_insert_def Let_def items_proj same_rest_def) (auto simp: fun_eq_iff)

lemma free_list_remove_proj:
  assumes "nf s n \<noteq> n"
  shows "nf (free_list_remove n s) = (nf s)(pf s n := nf s n)" "pf (free_list_remove n s) = (pf s)(nf s n := pf s n)"
    "nx (free_list_remove n s) = nx s" "pv (free_list_remove n s) = pv s" "same_rest s (free_list_remove n s)"
  using assms by (simp_all add: free_list_remove_def Let_def items_proj same_rest_def) (auto simp: fun_eq_iff)

lemma free_list_insert_proj:
  assumes "fl = free_list (heaps s h)" "n \<noteq> fl" "nf s fl \<noteq> n"
  shows "nf (free_list_insert h n s) = (nf s)(n := nf s fl, fl := n)"
    "pf (free_list_insert h n s) = (pf s)(n := fl, nf s fl := n)"
    "nx (free_list_insert h n s) = nx s" "pv (free_list_insert h n s) = pv s" "same_rest s (free_list_insert h n s)"
  using assms by (simp_all add: free_list_insert_def Let_def items_proj same_rest_def) (auto simp: fun_eq_iff)

section \<open>The invariant\<close>

text \<open>Blocks lie in address order, each with a header and room for a minimal allocation.\<close>

definition spaced :: "u32 list \<Rightarrow> bool" where
  "spaced bs \<longleftrightarrow> successively (\<lambda>a b. unat a + 36 \<le> unat b) bs"

definition bsz :: "kheap \<Rightarrow> u32 \<Rightarrow> nat" where
  "bsz s a = unat (nx s a) - unat a - 24"

definition layout :: "u32 \<Rightarrow> u32 list \<Rightarrow> bool" where
  "layout h bs \<longleftrightarrow> 2 \<le> length bs \<and> spaced bs \<and> (\<forall>a\<in>set bs. unat a mod 4 = 0) \<and> 0 < unat (hd bs) \<and>
     unat (last bs) + 24 \<le> 2 ^ 32 \<and>
     (unat (free_header h) < unat (hd bs) \<or> unat (last bs) < unat (free_header h))"

definition marked :: "kheap \<Rightarrow> u32 \<Rightarrow> u32 list \<Rightarrow> bool" where
  "marked s h bs \<longleftrightarrow> (\<forall>a\<in>set bs. mg s a \<in> {0x1ea01ea0, 0x1ea01ea1} \<and> pp s a = h) \<and>
     is_used s (last bs) \<and> successively (\<lambda>a b. is_used s a \<or> is_used s b) bs"

definition heap_obj :: "kheap \<Rightarrow> u32 \<Rightarrow> u32 list \<Rightarrow> bool" where
  "heap_obj s h bs \<longleftrightarrow> h \<noteq> 0 \<and> is_memheap s h \<and>
     free_list (heaps s h) = free_header h \<and> start_addr (heaps s h) = hd bs \<and> block_list (heaps s h) = hd bs \<and>
     unat (pool_size (heaps s h)) = unat (last bs) + 24 - unat (hd bs)"

definition heap_core :: "kheap \<Rightarrow> u32 \<Rightarrow> u32 list \<Rightarrow> u32 list \<Rightarrow> bool" where
  "heap_core s h bs fs \<longleftrightarrow> layout h bs \<and> marked s h bs \<and> heap_obj s h bs \<and>
     dl_ring (nx s) (pv s) bs \<and> dl_ring (nf s) (pf s) (free_header h # fs) \<and>
     set fs = {a \<in> set bs. \<not> is_used s a} \<and>
     unat (available_size (heaps s h)) = sum_list (map (bsz s) fs)"

text \<open>Between the operations the lock is free.\<close>

definition heap_inv :: "kheap \<Rightarrow> u32 \<Rightarrow> u32 list \<Rightarrow> u32 list \<Rightarrow> bool" where
  "heap_inv s h bs fs \<longleftrightarrow> heap_core s h bs fs \<and> lock_value (heaps s h) = 1"

subsection \<open>Addresses\<close>

lemma spaced_append: "spaced (xs @ ys) \<longleftrightarrow> spaced xs \<and> spaced ys \<and> (xs = [] \<or> ys = [] \<or> unat (last xs) + 36 \<le> unat (hd ys))"
  by (auto simp: spaced_def successively_append_iff)

lemma spaced_Cons: "spaced (a # xs) \<longleftrightarrow> spaced xs \<and> (xs = [] \<or> unat a + 36 \<le> unat (hd xs))"
  by (auto simp: spaced_def successively_Cons)

lemma spaced_sorted: "spaced bs \<longleftrightarrow> sorted_wrt (\<lambda>a b. unat a + 36 \<le> unat b) bs"
  unfolding spaced_def by (rule successively_conv_sorted_wrt) (auto simp: transp_def)

lemma spaced_bounds:
  assumes "spaced bs" "a \<in> set bs"
  shows "unat (hd bs) \<le> unat a" "unat a \<le> unat (last bs)"
proof -
  from assms(2) obtain p q where bs: "bs = p @ a # q" by (auto simp: in_set_conv_decomp)
  have s: "sorted_wrt (\<lambda>a b. unat a + 36 \<le> unat b) bs" using assms(1) by (simp add: spaced_sorted)
  show "unat (hd bs) \<le> unat a"
  proof (cases p)
    case (Cons x p')
    with s bs show ?thesis by (auto simp: sorted_wrt_append)
  qed (simp add: bs)
  show "unat a \<le> unat (last bs)"
  proof (cases "q = []")
    case False
    then have "last q \<in> set q" by simp
    with s bs have "unat a + 36 \<le> unat (last q)" by (simp add: sorted_wrt_append)
    with False bs show ?thesis by simp
  qed (simp add: bs)
qed

lemma spaced_distinct: "spaced bs \<Longrightarrow> distinct bs"
proof (induction bs)
  case (Cons a bs)
  then have "\<forall>b\<in>set bs. unat a + 36 \<le> unat b" by (simp add: spaced_sorted)
  with Cons show ?case by (auto simp: spaced_Cons)
qed simp

text \<open>An address inside the pool is not the header of the free list.\<close>

lemma layout_outside:
  assumes "layout h bs" "unat (hd bs) \<le> unat n" "unat n \<le> unat (last bs)"
  shows "n \<noteq> free_header h"
  using assms by (auto simp: layout_def)

lemma layout_block:
  assumes "layout h (p @ a # b # ys)"
  shows "unat a + 36 \<le> unat b" "unat b + 24 \<le> 2 ^ 32" "unat a mod 4 = 0" "unat b mod 4 = 0" "0 < unat a"
proof -
  let ?bs = "p @ a # b # ys"
  have sp: "spaced ?bs" using assms by (simp add: layout_def)
  then show "unat a + 36 \<le> unat b" by (simp add: spaced_append spaced_Cons)
  have "unat b \<le> unat (last ?bs)" "unat (hd ?bs) \<le> unat a" using spaced_bounds [OF sp] by auto
  with assms show "unat b + 24 \<le> 2 ^ 32" "unat a mod 4 = 0" "unat b mod 4 = 0" "0 < unat a"
    by (auto simp: layout_def)
qed

text \<open>A new header that leaves room on both sides, and a header that disappears.\<close>

lemma layout_split:
  assumes "layout h (p @ a # b # ys)" "unat a + 36 \<le> unat n" "unat n + 36 \<le> unat b" "unat n mod 4 = 0"
  shows "layout h (p @ a # n # b # ys)"
  using assms unfolding layout_def by (auto simp: spaced_append spaced_Cons hd_append)

lemma layout_join:
  assumes "layout h (p @ a # n # b # ys)"
  shows "layout h (p @ a # b # ys)"
  using assms unfolding layout_def by (auto simp: spaced_append spaced_Cons hd_append)

lemma layout_fresh:
  assumes "layout h (p @ a # b # ys)" "unat a < unat n" "unat n < unat b"
  shows "n \<notin> set (p @ a # b # ys)" "n \<noteq> free_header h"
proof -
  let ?bs = "p @ a # b # ys"
  have sp: "spaced ?bs" using assms(1) by (simp add: layout_def)
  have "\<forall>x\<in>set p. unat x + 36 \<le> unat a" "\<forall>x\<in>set ys. unat b + 36 \<le> unat x"
    using sp by (auto simp: spaced_sorted sorted_wrt_append)
  with assms(2,3) show "n \<notin> set ?bs" by auto
  have "unat (hd ?bs) \<le> unat a" "unat b \<le> unat (last ?bs)" using spaced_bounds [OF sp] by auto
  with assms(2,3) show "n \<noteq> free_header h" by (intro layout_outside [OF assms(1)]) auto
qed

subsection \<open>Sizes\<close>

lemma unat_gap:
  fixes a b :: u32
  assumes "unat a + 24 \<le> unat b"
  shows "unat (b - a - 24) = unat b - unat a - 24"
proof -
  have "a \<le> b" using assms by (simp add: word_le_nat_alt)
  then have "unat (b - a) = unat b - unat a" by (simp add: unat_sub)
  moreover then have "24 \<le> b - a" using assms by (simp add: word_le_nat_alt)
  ultimately show ?thesis by (simp add: unat_sub)
qed

lemma block_size:
  assumes "layout h (p @ a # b # ys)" "dl_ring (nx s) (pv s) (p @ a # b # ys)"
  shows "nx s a = b" "pv s b = a" "bsz s a = unat b - unat a - 24" "unat (MEMITEM_SIZE s a) = bsz s a"
proof -
  show n: "nx s a = b" "pv s b = a" using dl_ring_next [OF assms(2)] by auto
  then show "bsz s a = unat b - unat a - 24" by (simp add: bsz_def)
  with n layout_block(1) [OF assms(1)] show "unat (MEMITEM_SIZE s a) = bsz s a"
    by (simp add: MEMITEM_SIZE_nx unat_gap)
qed

lemma free_not_last:
  assumes "marked s h bs" "a \<in> set bs" "\<not> is_used s a"
  obtains p b ys where "bs = p @ a # b # ys"
proof -
  from assms(2) obtain p q where bs: "bs = p @ a # q" by (auto simp: in_set_conv_decomp)
  with assms(1,3) have "q \<noteq> []" by (auto simp: marked_def)
  with bs show thesis by (cases q) (auto intro: that)
qed

section \<open>The search through the free list\<close>

lemma find_block_stop: "sz \<le> x \<or> hp = fl \<Longrightarrow> find_block s fl sz hp x = Some (hp, x)"
  by (subst find_block.simps) auto

lemma find_block_rest:
  assumes "dl_ring (nf s) (pf s) (fl # us @ vs)" "x < sz"
  shows "\<exists>a y. find_block s fl sz (hd (vs @ [fl])) x = Some (a, y) \<and>
    (a \<in> set vs \<and> y = MEMITEM_SIZE s a \<and> sz \<le> y \<or> y < sz \<and> (\<forall>a\<in>set vs. MEMITEM_SIZE s a < sz))"
  using assms
proof (induction vs arbitrary: us x)
  case Nil
  then show ?case by (auto simp: find_block_stop)
next
  case (Cons v vs)
  let ?y = "MEMITEM_SIZE s v"
  have "v \<noteq> fl" using dl_ring_distinct [OF Cons.prems(1)] by auto
  then have step: "find_block s fl sz v x = find_block s fl sz (if ?y < sz then nf s v else v) ?y"
    using Cons.prems(2) by (subst find_block.simps) (simp add: Let_def nf_def)
  have nf: "nf s v = hd (vs @ [fl])"
  proof (cases vs)
    case Nil
    then show ?thesis using dl_ring_last(1) [of "nf s" "pf s" fl "us @ [v]"] Cons.prems(1) by simp
  next
    case (Cons w ws)
    then show ?thesis using dl_ring_next(1) [of "nf s" "pf s" "fl # us" v w ws] Cons.prems(1) by simp
  qed
  show ?case
  proof (cases "?y < sz")
    case True
    from Cons.IH [of "us @ [v]" ?y] Cons.prems(1) True obtain a y where
      "find_block s fl sz (hd (vs @ [fl])) ?y = Some (a, y)"
      "a \<in> set vs \<and> y = MEMITEM_SIZE s a \<and> sz \<le> y \<or> y < sz \<and> (\<forall>a\<in>set vs. MEMITEM_SIZE s a < sz)" by auto
    then show ?thesis using step nf True by auto
  next
    case False
    then have y: "sz \<le> ?y" by (simp add: not_less)
    moreover have "find_block s fl sz v x = find_block s fl sz v ?y" using step False by simp
    ultimately show ?thesis using find_block_stop [of sz ?y v fl s] by auto
  qed
qed

lemma find_block_result:
  assumes "dl_ring (nf s) (pf s) (fl # fs)" "0 < sz"
  obtains (found) a where "find_block s fl sz (nf s fl) 0 = Some (a, MEMITEM_SIZE s a)" "a \<in> set fs"
      "sz \<le> MEMITEM_SIZE s a"
  | (none) a y where "find_block s fl sz (nf s fl) 0 = Some (a, y)" "y < sz" "\<forall>a\<in>set fs. MEMITEM_SIZE s a < sz"
proof -
  have "nf s fl = hd (fs @ [fl])"
  proof (cases fs)
    case Nil
    then show ?thesis using dl_ring_last(1) [OF assms(1)] by simp
  next
    case (Cons w ws)
    then show ?thesis using dl_ring_next(1) [of "nf s" "pf s" "[]" fl w ws] assms(1) by simp
  qed
  with find_block_rest [of s fl "[]" fs 0 sz] assms that show thesis by auto
qed

section \<open>The list operations on the rings\<close>

lemma free_list_remove_ring:
  assumes "dl_ring (nf s) (pf s) (fh # us @ n # vs)" "s' = free_list_remove n s"
  shows "dl_ring (nf s') (pf s') (fh # us @ vs)" "nx s' = nx s" "pv s' = pv s" "same_rest s s'"
proof -
  obtain p a where pa: "fh # us = p @ [a]" by (metis append_butlast_last_id list.distinct(1))
  then have ring: "dl_ring (nf s) (pf s) (p @ a # n # vs)" using assms(1)
    by (metis append_Cons append_assoc append_Nil)
  have n: "n \<in> set (p @ a # n # vs)" "distinct (p @ a # n # vs)" using dl_ring_distinct [OF ring] by auto
  have a: "pf s n = a" "nf s a = n" using dl_ring_next [OF ring] by auto
  have "nf s n \<noteq> n"
  proof
    assume "nf s n = n"
    then have "pf s n = n" using dl_ring_inverse(1) [OF ring n(1)] by simp
    with a n(2) show False by auto
  qed
  note proj = free_list_remove_proj [OF this, folded assms(2)]
  have "dl_ring (nf s') (pf s') (p @ a # vs)"
    using dl_ring_remove [OF ring refl] by (simp add: proj a)
  then show "dl_ring (nf s') (pf s') (fh # us @ vs)" using pa by (metis append_Cons append_assoc append_Nil)
  show "nx s' = nx s" "pv s' = pv s" "same_rest s s'" by (fact proj)+
qed

lemma free_list_insert_ring:
  assumes "dl_ring (nf s) (pf s) (fh # fs)" "free_list (heaps s h) = fh" "n \<notin> set (fh # fs)"
    and "s' = free_list_insert h n s"
  shows "dl_ring (nf s') (pf s') (fh # n # fs)" "nx s' = nx s" "pv s' = pv s" "same_rest s s'"
proof -
  have "nf s fh \<in> set (fh # fs)" using dl_ring_closed(1) [OF assms(1)] by simp
  then have "nf s fh \<noteq> n" "n \<noteq> fh" using assms(3) by auto
  note proj = free_list_insert_proj [OF assms(2) [symmetric] this(2,1), folded assms(4)]
  show "dl_ring (nf s') (pf s') (fh # n # fs)"
    using dl_ring_insert [of "nf s" "pf s" "[]" fh fs n, OF _ _ refl] assms(1,3) by (simp add: proj)
  show "nx s' = nx s" "pv s' = pv s" "same_rest s s'" by (fact proj)+
qed

lemma block_insert_ring:
  assumes "dl_ring (nx s) (pv s) (p @ a # b # ys)" "n \<notin> set (p @ a # b # ys)" "s' = block_insert a n s"
  shows "dl_ring (nx s') (pv s') (p @ a # n # b # ys)" "nx s' = (nx s)(n := b, a := n)"
    "nf s' = nf s" "pf s' = pf s" "same_rest s s'"
proof -
  have b: "nx s a = b" using dl_ring_next [OF assms(1)] by simp
  have "n \<noteq> a" "nx s a \<noteq> n" using assms(2) b by auto
  note proj = block_insert_proj [OF this, folded assms(3)]
  show "dl_ring (nx s') (pv s') (p @ a # n # b # ys)"
    using dl_ring_insert [OF assms(1,2) refl] by (simp add: proj b)
  show "nx s' = (nx s)(n := b, a := n)" "nf s' = nf s" "pf s' = pf s" "same_rest s s'" by (simp_all add: proj b)
qed

section \<open>Marks\<close>

lemma successively_cong_set:
  "(\<And>a b. a \<in> set bs \<Longrightarrow> b \<in> set bs \<Longrightarrow> P a b = Q a b) \<Longrightarrow> successively P bs = successively Q bs"
  by (metis successively_mono)

lemma is_used_magic: "mg s a = 0x1ea01ea0 \<Longrightarrow> \<not> is_used s a" "mg s a = 0x1ea01ea1 \<Longrightarrow> is_used s a"
  by (simp_all add: is_used_mg)

text \<open>\<open>marks s t X\<close>: the states agree on the marks of the blocks outside \<open>X\<close>.\<close>

definition marks :: "kheap \<Rightarrow> kheap \<Rightarrow> u32 set \<Rightarrow> bool" where
  "marks s t X \<longleftrightarrow> (\<forall>a. a \<notin> X \<longrightarrow> mg t a = mg s a \<and> pp t a = pp s a)"

lemma marks_used: "marks s t X \<Longrightarrow> a \<notin> X \<Longrightarrow> is_used t a = is_used s a"
  by (simp add: marks_def is_used_mg)

definition coalesced :: "kheap \<Rightarrow> u32 list \<Rightarrow> bool" where
  "coalesced s bs \<longleftrightarrow> successively (\<lambda>a b. is_used s a \<or> is_used s b) bs"

lemma coalesced_append: "coalesced s (xs @ ys) \<longleftrightarrow> coalesced s xs \<and> coalesced s ys \<and>
    (xs = [] \<or> ys = [] \<or> is_used s (last xs) \<or> is_used s (hd ys))"
  by (auto simp: coalesced_def successively_append_iff)

lemma coalesced_Cons: "coalesced s (a # xs) \<longleftrightarrow> coalesced s xs \<and> (xs = [] \<or> is_used s a \<or> is_used s (hd xs))"
  by (auto simp: coalesced_def successively_Cons)

lemma coalesced_Nil [simp]: "coalesced s []" "coalesced s [a]"
  by (simp_all add: coalesced_def)

lemma coalesced_marks: "marks s t X \<Longrightarrow> set bs \<inter> X = {} \<Longrightarrow> coalesced t bs = coalesced s bs"
  unfolding coalesced_def by (rule successively_cong_set) (use marks_used in blast)

lemma marked_alt: "marked s h bs \<longleftrightarrow> (\<forall>a\<in>set bs. mg s a \<in> {0x1ea01ea0, 0x1ea01ea1} \<and> pp s a = h) \<and>
     is_used s (last bs) \<and> coalesced s bs"
  by (simp add: marked_def coalesced_def)

end
