(* ===== verification/Memheap_Alloc.thy ===== *)
theory Memheap_Alloc
  imports Memheap_Inv
begin

text \<open>Allocation keeps the invariant and adds exactly one block to the live ones.\<close>

section \<open>Live blocks\<close>

fun lives :: "kheap \<Rightarrow> u32 list \<Rightarrow> (u32 \<times> u32) list" where
  "lives s [] = []"
| "lives s (a # bs) = (if is_used s a then (a + 24, MEMITEM_SIZE s a) # lives s bs else lives s bs)"

definition live :: "kheap \<Rightarrow> u32 list \<Rightarrow> (u32 \<times> u32) set" where
  "live s bs = set (lives s (butlast bs))"

lemma lives_append [simp]: "lives s (xs @ ys) = lives s xs @ lives s ys"
  by (induction xs) auto

lemma set_lives: "set (lives s xs) = (\<lambda>a. (a + 24, MEMITEM_SIZE s a)) ` {a \<in> set xs. is_used s a}"
  by (induction xs) auto

lemma lives_cong:
  assumes "marks s t X" "\<And>a. a \<notin> X \<Longrightarrow> nx t a = nx s a" "set bs \<inter> X = {}"
  shows "lives t bs = lives s bs"
  using assms(3)
proof (induction bs)
  case (Cons a bs)
  then have "a \<notin> X" by simp
  then have "is_used t a = is_used s a" "MEMITEM_SIZE t a = MEMITEM_SIZE s a"
    using marks_used [OF assms(1)] assms(2) by (simp_all add: MEMITEM_SIZE_nx)
  with Cons show ?case by simp
qed simp

lemma lives_butlast_cong:
  assumes "marks s t X" "\<And>a. a \<notin> X \<Longrightarrow> nx t a = nx s a" "set bs \<inter> X = {}"
  shows "lives t (butlast bs) = lives s (butlast bs)"
  using assms(3) by (intro lives_cong [OF assms(1,2)]) (auto dest: in_set_butlastD)

lemma butlast_cut [simp]: "butlast (p @ a # b # ys) = p @ a # butlast (b # ys)"
  by (simp add: butlast_append)

section \<open>The state after a block was taken\<close>

lemma account_use_proj:
  "nx (account_use h v s) = nx s" "pv (account_use h v s) = pv s" "nf (account_use h v s) = nf s"
  "pf (account_use h v s) = pf s" "mg (account_use h v s) = mg s" "pp (account_use h v s) = pp s"
  "items (account_use h v s) = items s" "objs (account_use h v s) = objs s" "kmem (account_use h v s) = kmem s"
  "\<exists>m. heaps (account_use h v s) = (heaps s)(h := (heaps s h)\<lparr>available_size := v, max_used_size := m\<rparr>)"
  by (auto simp: account_use_def Let_def intro: exI [of _ "max_used_size (heaps s h)"])

lemma heap_obj_cong:
  assumes "heap_obj s h bs" "hd bs' = hd bs" "last bs' = last bs"
    and "obj_type (heaps t h) = obj_type (heaps s h)" "start_addr (heaps t h) = start_addr (heaps s h)"
      "block_list (heaps t h) = block_list (heaps s h)" "free_list (heaps t h) = free_list (heaps s h)"
      "pool_size (heaps t h) = pool_size (heaps s h)"
  shows "heap_obj t h bs'"
  using assms by (auto simp: heap_obj_def is_memheap_def)

text \<open>The facts about a free block that the operations need.\<close>

lemma free_block:
  assumes "heap_core s h bs fs" "a \<in> set fs"
  obtains p b ys us vs where "bs = p @ a # b # ys" "fs = us @ a # vs" "is_used s b" "\<not> is_used s a"
    "nx s a = b" "unat (MEMITEM_SIZE s a) = bsz s a" "unat a + 24 + bsz s a = unat b"
    "bsz s a \<le> unat (available_size (heaps s h))" "unat b + 24 \<le> 2 ^ 32" "0 < unat a"
proof -
  have a: "a \<in> set bs" "\<not> is_used s a" using assms by (auto simp: heap_core_def)
  have m: "marked s h bs" and l: "layout h bs" and r: "dl_ring (nx s) (pv s) bs"
    using assms(1) by (simp_all add: heap_core_def)
  obtain p b ys where bs: "bs = p @ a # b # ys" using free_not_last [OF m a] .
  obtain us vs where fs: "fs = us @ a # vs" using assms(2) by (auto simp: in_set_conv_decomp)
  have "is_used s b" using m a(2) by (simp add: bs marked_alt coalesced_append coalesced_Cons)
  moreover have "unat a + 36 \<le> unat b" "unat b + 24 \<le> 2 ^ 32" "0 < unat a"
    using layout_block [OF l [unfolded bs]] by auto
  moreover have "unat (MEMITEM_SIZE s a) = bsz s a" "nx s a = b" "bsz s a = unat b - unat a - 24"
    using block_size [OF l [unfolded bs] r [unfolded bs]] by auto
  moreover have "bsz s a \<le> unat (available_size (heaps s h))" using assms(1) by (simp add: heap_core_def fs)
  ultimately show thesis using that [OF bs fs] a(2) by simp
qed

text \<open>Which part of the state outside the heap an operation may change: nothing but the headers and the heap object.\<close>

definition framed :: "u32 \<Rightarrow> kheap \<Rightarrow> kheap \<Rightarrow> bool" where
  "framed h s t \<longleftrightarrow> objs t = objs s \<and> kmem t = kmem s \<and> (\<forall>h'. h' \<noteq> h \<longrightarrow> heaps t h' = heaps s h') \<and>
     start_addr (heaps t h) = start_addr (heaps s h) \<and> pool_size (heaps t h) = pool_size (heaps s h) \<and>
     lock_value (heaps t h) = lock_value (heaps s h)"

lemma unat_plus_small:
  fixes a b :: u32
  assumes "unat a + unat b + 24 < 2 ^ 32"
  shows "unat (a + b + 24) = unat a + unat b + 24"
proof -
  have "unat (a + b) = unat a + unat b" using assms by (intro unat_add_u32) simp
  then show ?thesis using assms unat_add_u32 [of "a + b" 24] by simp
qed

lemma take_split_state:
  assumes r: "dl_ring (nx s) (pv s) (p @ hp # b # ys)" "n \<notin> set (p @ hp # b # ys)"
    and f: "dl_ring (nf s) (pf s) (fh # us @ hp # vs)" "n \<notin> set (fh # us @ hp # vs)" "free_list (heaps s h) = fh"
    and n: "n = hp + sz + 24" "free_size \<ge> sz + 24 + 12"
    and u: "u = take_block h sz hp free_size s"
  shows "dl_ring (nx u) (pv u) (p @ hp # n # b # ys)" "nx u = (nx s)(n := b, hp := n)"
    "dl_ring (nf u) (pf u) (fh # n # us @ vs)" "mg u = (mg s)(n := 0x1ea01ea0)" "pp u = (pp s)(n := h)"
    "objs u = objs s" "kmem u = kmem s"
    "\<exists>m. heaps u = (heaps s)(h := (heaps s h)\<lparr>available_size := available_size (heaps s h) - sz - 24, max_used_size := m\<rparr>)"
proof -
  define s1 where "s1 = set_pool n h (set_magic n 0x1ea01ea0 s)"
  define s2 where "s2 = block_insert hp n s1"
  define s3 where "s3 = free_list_remove hp s2"
  define s4 where "s4 = set_prev_free hp 0 (set_next_free hp 0 s3)"
  define s5 where "s5 = free_list_insert h n s4"
  have u': "u = account_use h (available_size (heaps s5 h) - sz - 24) s5"
    using n by (simp add: u take_block_def Let_def s5_def s4_def s3_def s2_def s1_def)
  have p1: "nx s1 = nx s" "pv s1 = pv s" "nf s1 = nf s" "pf s1 = pf s" "mg s1 = (mg s)(n := 0x1ea01ea0)"
    "pp s1 = (pp s)(n := h)" "heaps s1 = heaps s" "objs s1 = objs s" "kmem s1 = kmem s"
    by (simp_all add: s1_def items_proj)
  have "dl_ring (nx s1) (pv s1) (p @ hp # b # ys)" using r(1) by (simp add: p1)
  note p2 = block_insert_ring [OF this r(2) s2_def]
  have f2: "dl_ring (nf s2) (pf s2) (fh # us @ hp # vs)" using f(1) by (simp add: p1 p2)
  note p3 = free_list_remove_ring [OF f2 s3_def]
  have hp: "hp \<notin> set (fh # us @ vs)" using dl_ring_distinct [OF f2] by auto
  have p4: "nx s4 = nx s3" "pv s4 = pv s3" "mg s4 = mg s3" "pp s4 = pp s3" "heaps s4 = heaps s3"
    "objs s4 = objs s3" "kmem s4 = kmem s3" "dl_ring (nf s4) (pf s4) (fh # us @ vs)"
    using hp p3(1) by (simp_all add: s4_def items_proj)
  have "heaps s4 = heaps s" using p1 p2(5) p3(4) p4 by (simp add: same_rest_def)
  then have "free_list (heaps s4 h) = fh" using f(3) by simp
  from free_list_insert_ring [OF p4(8) this _ s5_def] f(2)
  have p5: "dl_ring (nf s5) (pf s5) (fh # n # us @ vs)" "nx s5 = nx s4" "pv s5 = pv s4" "same_rest s4 s5" by auto
  note all = p1 p2 p3 p4 p5
  show "dl_ring (nx u) (pv u) (p @ hp # n # b # ys)" "nx u = (nx s)(n := b, hp := n)"
    using all by (simp_all add: u' account_use_proj)
  show "dl_ring (nf u) (pf u) (fh # n # us @ vs)" using all by (simp add: u' account_use_proj)
  have rest: "mg s5 = mg s1" "pp s5 = pp s1" "heaps s5 = heaps s1" "objs s5 = objs s1" "kmem s5 = kmem s1"
    using p2(5) p3(4) p4 p5(4) by (simp_all add: same_rest_def)
  then show "mg u = (mg s)(n := 0x1ea01ea0)" "pp u = (pp s)(n := h)" "objs u = objs s" "kmem u = kmem s"
    using p1 by (simp_all add: u' account_use_proj)
  show "\<exists>m. heaps u = (heaps s)(h := (heaps s h)\<lparr>available_size := available_size (heaps s h) - sz - 24, max_used_size := m\<rparr>)"
    using account_use_proj(10) [of h "available_size (heaps s5 h) - sz - 24" s5] rest(3) p1 by (simp add: u')
qed

lemma take_whole_state:
  assumes f: "dl_ring (nf s) (pf s) (fh # us @ hp # vs)"
    and n: "\<not> free_size \<ge> sz + 24 + 12" and u: "u = take_block h sz hp free_size s"
  shows "nx u = nx s" "pv u = pv s" "dl_ring (nf u) (pf u) (fh # us @ vs)" "mg u = mg s" "pp u = pp s"
    "objs u = objs s" "kmem u = kmem s"
    "\<exists>m. heaps u = (heaps s)(h := (heaps s h)\<lparr>available_size := available_size (heaps s h) - free_size, max_used_size := m\<rparr>)"
proof -
  define s1 where "s1 = account_use h (available_size (heaps s h) - free_size) s"
  define s2 where "s2 = free_list_remove hp s1"
  have u': "u = set_prev_free hp 0 (set_next_free hp 0 s2)"
    using n by (simp add: u take_block_def Let_def s2_def s1_def)
  have "dl_ring (nf s1) (pf s1) (fh # us @ hp # vs)" using f by (simp add: s1_def account_use_proj)
  note p2 = free_list_remove_ring [OF this s2_def]
  have hp: "hp \<notin> set (fh # us @ vs)" using dl_ring_distinct [OF f] by auto
  show "nx u = nx s" "pv u = pv s" "mg u = mg s" "pp u = pp s" "objs u = objs s" "kmem u = kmem s"
    using p2 by (simp_all add: u' items_proj same_rest_def s1_def account_use_proj)
  show "dl_ring (nf u) (pf u) (fh # us @ vs)" using hp p2(1) by (simp add: u' items_proj)
  show "\<exists>m. heaps u = (heaps s)(h := (heaps s h)\<lparr>available_size := available_size (heaps s h) - free_size, max_used_size := m\<rparr>)"
    using account_use_proj(10) [of h "available_size (heaps s h) - free_size" s] p2(4)
    by (simp add: u' same_rest_def s1_def)
qed

lemma magic_or_used: "x \<in> {0x1ea01ea0, 0x1ea01ea1} \<Longrightarrow> x OR 1 = (0x1ea01ea1 :: u32)"
  by auto

lemma bsz_cong: "nx t a = nx s a \<Longrightarrow> bsz t a = bsz s a"
  by (simp add: bsz_def)

lemma unat_minus_le: "unat b \<le> unat (a :: u32) \<Longrightarrow> unat (a - b) = unat a - unat b"
  by (simp add: unat_sub word_le_nat_alt)

text \<open>The marks after a free block was cut: its front part is used, its rest \<open>n\<close> is free.\<close>

lemma split_marked:
  assumes m: "marked s h (p @ hp # b # ys)" and d: "distinct (p @ hp # b # ys)" "n \<notin> set (p @ hp # b # ys)"
    and b: "is_used s b" "\<not> is_used s hp"
    and t: "mg t = (mg s)(n := 0x1ea01ea0, hp := 0x1ea01ea1)" "pp t = (pp s)(n := h)"
  shows "marked t h (p @ hp # n # b # ys)"
    "{a \<in> set (p @ hp # n # b # ys). \<not> is_used t a} = insert n ({a \<in> set (p @ hp # b # ys). \<not> is_used s a} - {hp})"
    "\<not> is_used t n" "is_used t hp"
proof -
  have mk: "marks s t {n, hp}" by (simp add: marks_def t)
  have nhp: "n \<noteq> hp" using d(2) by auto
  show un: "\<not> is_used t n" "is_used t hp" using nhp by (auto simp: is_used_mg t)
  have used: "is_used t a = is_used s a" if "a \<in> set p \<union> set (b # ys)" for a
    using that d by (intro marks_used [OF mk]) auto
  then show "{a \<in> set (p @ hp # n # b # ys). \<not> is_used t a} =
      insert n ({a \<in> set (p @ hp # b # ys). \<not> is_used s a} - {hp})"
    using un d by auto
  have "coalesced s p" "coalesced s (b # ys)" using m by (auto simp: marked_alt coalesced_append coalesced_Cons)
  then have "coalesced t p" "coalesced t (b # ys)" using coalesced_marks [OF mk] d by auto
  moreover have "is_used t b" "is_used t (last (b # ys))"
    using used [of b] used [of "last (b # ys)"] b(1) m by (auto simp: marked_alt)
  ultimately show "marked t h (p @ hp # n # b # ys)" using m un
    by (auto simp: marked_alt coalesced_append coalesced_Cons t)
qed

text \<open>Where the header of the rest goes.\<close>

lemma split_place:
  assumes l: "layout h (p @ hp # b # ys)" and b: "unat hp + 24 + k = unat b"
    and sz: "unat sz mod 4 = 0" "12 \<le> unat sz" "unat sz + 36 \<le> k" and n: "n = hp + sz + 24"
  shows "unat n = unat hp + unat sz + 24" "layout h (p @ hp # n # b # ys)" "n \<notin> set (p @ hp # b # ys)" "n \<noteq> free_header h"
    "unat (sz + 24 + 12) = unat sz + 36"
proof -
  note lb = layout_block [OF l]
  show un: "unat n = unat hp + unat sz + 24" unfolding n using sz b lb(2) by (intro unat_plus_small) simp
  show "layout h (p @ hp # n # b # ys)"
    using l sz un lb(3) b by (intro layout_split) (auto simp: mod_add_eq [symmetric])
  show "n \<notin> set (p @ hp # b # ys)" "n \<noteq> free_header h" using layout_fresh [OF l, of n] un sz b by auto
  show "unat (sz + 24 + 12) = unat sz + 36" using sz b lb(2) unat_add_u32 [of sz 36] by (simp add: add.assoc)
qed

lemma unat_minus2:
  fixes v a :: u32
  assumes "unat a + 24 \<le> unat v"
  shows "unat (v - a - 24) = unat v - unat a - 24"
  using assms unat_minus_le [of a v] unat_minus_le [of 24 "v - a"] by simp

text \<open>Taking the front part of a free block.\<close>

lemma take_split_core:
  assumes core: "heap_core s h bs fs" and hp: "hp \<in> set fs"
    and sz: "unat sz mod 4 = 0" "12 \<le> unat sz" "unat sz + 36 \<le> bsz s hp"
    and u: "u = take_block h sz hp (MEMITEM_SIZE s hp) s"
    and t: "t = set_magic hp (magic (items u hp) OR 1) u"
  shows "\<exists>bs' fs'. heap_core t h bs' fs' \<and> live t bs' = insert (hp + 24, sz) (live s bs)" "framed h s t"
proof -
  let ?n = "hp + sz + 24" and ?fh = "free_header h"
  from core have c: "layout h bs" "marked s h bs" "heap_obj s h bs" "dl_ring (nx s) (pv s) bs"
    "dl_ring (nf s) (pf s) (?fh # fs)" "set fs = {a \<in> set bs. \<not> is_used s a}"
    "unat (available_size (heaps s h)) = sum_list (map (bsz s) fs)" by (simp_all add: heap_core_def)
  obtain p b ys us vs where bs: "bs = p @ hp # b # ys" and fs: "fs = us @ hp # vs"
    and b: "is_used s b" "\<not> is_used s hp" "nx s hp = b" "unat (MEMITEM_SIZE s hp) = bsz s hp"
      "unat hp + 24 + bsz s hp = unat b" "unat b + 24 \<le> 2 ^ 32" "0 < unat hp"
    using free_block [OF core hp] by metis
  note pl = split_place [OF c(1) [unfolded bs] b(5) sz refl]
  have n: "unat ?n = unat hp + unat sz + 24" and l: "layout h (p @ hp # ?n # b # ys)"
    and fresh: "?n \<notin> set bs" "?n \<noteq> ?fh" using pl bs by simp_all
  then have fresh': "?n \<notin> set (?fh # us @ hp # vs)" using c(6) fs by auto
  have big: "MEMITEM_SIZE s hp \<ge> sz + 24 + 12" using pl(5) sz b(4) by (simp add: word_le_nat_alt)
  have fl: "free_list (heaps s h) = ?fh" using c(3) by (simp add: heap_obj_def)
  note st = take_split_state [OF c(4) [unfolded bs] fresh(1) [unfolded bs] c(5) [unfolded fs] fresh' fl refl big u]
  have mg_hp: "mg s hp = 0x1ea01ea0"
    using c(2) b(2) is_used_magic(2) [of s hp] by (auto simp: marked_alt bs)
  have nhp: "?n \<noteq> hp" using fresh(1) bs by auto
  have pt: "nx t = (nx s)(?n := b, hp := ?n)" "dl_ring (nx t) (pv t) (p @ hp # ?n # b # ys)"
    "dl_ring (nf t) (pf t) (?fh # ?n # us @ vs)" "mg t = (mg s)(?n := 0x1ea01ea0, hp := 0x1ea01ea1)"
    "pp t = (pp s)(?n := h)" "heaps t = heaps u" "objs t = objs s" "kmem t = kmem s"
    using st nhp by (simp_all add: t items_proj mg_hp fun_upd_idem)
  obtain m where hu: "heaps u = (heaps s)(h := (heaps s h)\<lparr>available_size := available_size (heaps s h) - sz - 24, max_used_size := m\<rparr>)"
    using st(8) by blast
  have mk: "marks s t {?n, hp}" by (simp add: marks_def pt)
  have d: "distinct bs" using spaced_distinct c(1) by (auto simp: layout_def)
  note sm = split_marked [OF c(2) [unfolded bs] d [unfolded bs] fresh(1) [unfolded bs] b(1,2) pt(4,5)]
  have out: "set p \<inter> {?n, hp} = {}" "set (b # ys) \<inter> {?n, hp} = {}" "set us \<inter> {?n, hp} = {}" "set vs \<inter> {?n, hp} = {}"
    using d fresh fresh' dl_ring_distinct [OF c(5)] by (auto simp: bs fs)
  have fset: "set (?n # us @ vs) = {a \<in> set (p @ hp # ?n # b # ys). \<not> is_used t a}"
    using sm(2) c(6) dl_ring_distinct [OF c(5)] by (auto simp: bs fs)
  have sizes: "map (bsz t) us = map (bsz s) us" "map (bsz t) vs = map (bsz s) vs"
    using out(3,4) by (auto intro!: bsz_cong simp: pt)
  have "bsz t ?n = unat b - unat ?n - 24" using nhp by (simp add: bsz_def pt)
  then have bn: "bsz t ?n = bsz s hp - unat sz - 24" using n b(5) by simp
  have av: "unat (available_size (heaps s h) - sz - 24) = unat (available_size (heaps s h)) - unat sz - 24"
    using c(7) sz(3) by (intro unat_minus2) (simp add: fs)
  have "unat (available_size (heaps t h)) = sum_list (map (bsz t) (?n # us @ vs))"
    using c(7) sz(3) by (simp add: pt hu av bn sizes fs)
  moreover have "heap_obj t h (p @ hp # ?n # b # ys)"
    by (rule heap_obj_cong [OF c(3)]) (auto simp: bs pt hu hd_append)
  ultimately have "heap_core t h (p @ hp # ?n # b # ys) (?n # us @ vs)"
    unfolding heap_core_def using l sm(1) pt(2,3) fset by blast
  moreover have "live t (p @ hp # ?n # b # ys) = insert (hp + 24, sz) (live s bs)"
  proof -
    have nxo: "nx t a = nx s a" if "a \<notin> {?n, hp}" for a using that by (simp add: pt)
    have "lives t p = lives s p" "lives t (butlast (b # ys)) = lives s (butlast (b # ys))"
      by (rule lives_cong [OF mk nxo out(1)] lives_butlast_cong [OF mk nxo out(2)], assumption)+
    moreover have "MEMITEM_SIZE t hp = sz" by (simp add: MEMITEM_SIZE_nx pt algebra_simps)
    ultimately show ?thesis using sm(3,4) b(2) by (simp add: live_def bs)
  qed
  ultimately show "\<exists>bs' fs'. heap_core t h bs' fs' \<and> live t bs' = insert (hp + 24, sz) (live s bs)" by blast
  show "framed h s t" by (simp add: framed_def pt hu)
qed

text \<open>Taking a free block as it is.\<close>

lemma take_whole_core:
  assumes core: "heap_core s h bs fs" and hp: "hp \<in> set fs"
    and small: "\<not> MEMITEM_SIZE s hp \<ge> sz + 24 + 12"
    and u: "u = take_block h sz hp (MEMITEM_SIZE s hp) s"
    and t: "t = set_magic hp (magic (items u hp) OR 1) u"
  shows "\<exists>fs'. heap_core t h bs fs' \<and> live t bs = insert (hp + 24, MEMITEM_SIZE s hp) (live s bs)" "framed h s t"
proof -
  let ?fh = "free_header h"
  from core have c: "layout h bs" "marked s h bs" "heap_obj s h bs" "dl_ring (nx s) (pv s) bs"
    "dl_ring (nf s) (pf s) (?fh # fs)" "set fs = {a \<in> set bs. \<not> is_used s a}"
    "unat (available_size (heaps s h)) = sum_list (map (bsz s) fs)" by (simp_all add: heap_core_def)
  obtain p b ys us vs where bs: "bs = p @ hp # b # ys" and fs: "fs = us @ hp # vs"
    and b: "is_used s b" "\<not> is_used s hp" "unat (MEMITEM_SIZE s hp) = bsz s hp"
    using free_block [OF core hp] by metis
  note st = take_whole_state [OF c(5) [unfolded fs] small u]
  have mg_hp: "mg s hp = 0x1ea01ea0"
    using c(2) b(2) is_used_magic(2) [of s hp] by (auto simp: marked_alt bs)
  have pt: "nx t = nx s" "pv t = pv s" "dl_ring (nf t) (pf t) (?fh # us @ vs)" "mg t = (mg s)(hp := 0x1ea01ea1)"
    "pp t = pp s" "heaps t = heaps u" "objs t = objs s" "kmem t = kmem s"
    using st by (simp_all add: t items_proj mg_hp)
  obtain m where hu: "heaps u = (heaps s)(h := (heaps s h)\<lparr>available_size := available_size (heaps s h) - MEMITEM_SIZE s hp, max_used_size := m\<rparr>)"
    using st(8) by blast
  have mk: "marks s t {hp}" by (simp add: marks_def pt)
  have un: "is_used t hp" by (simp add: is_used_mg pt)
  have d: "distinct bs" using spaced_distinct c(1) by (auto simp: layout_def)
  have used: "is_used t a = is_used s a" if "a \<noteq> hp" for a using that by (intro marks_used [OF mk]) simp
  have mt: "marked t h bs"
  proof -
    have "coalesced s bs" using c(2) by (simp add: marked_alt)
    then have "coalesced t bs" unfolding coalesced_def by (rule successively_mono) (metis used un)
    then show ?thesis using c(2) un used [of "last bs"] by (auto simp: marked_alt pt)
  qed
  have fset: "set (us @ vs) = {a \<in> set bs. \<not> is_used t a}"
  proof -
    have "\<not> is_used t a \<longleftrightarrow> \<not> is_used s a \<and> a \<noteq> hp" for a using used [of a] un by auto
    then have "{a \<in> set bs. \<not> is_used t a} = {a \<in> set bs. \<not> is_used s a} - {hp}" by auto
    moreover have "set (us @ vs) = set fs - {hp}" using dl_ring_distinct [OF c(5)] by (auto simp: fs)
    ultimately show ?thesis using c(6) by simp
  qed
  have "bsz s hp \<le> unat (available_size (heaps s h))" using c(7) by (simp add: fs)
  then have "unat (available_size (heaps t h)) = sum_list (map (bsz t) (us @ vs))"
    using c(7) b(3) by (simp add: pt hu unat_minus_le fs bsz_def [abs_def])
  moreover have "heap_obj t h bs" by (rule heap_obj_cong [OF c(3)]) (auto simp: pt hu)
  ultimately have "heap_core t h bs (us @ vs)"
    unfolding heap_core_def using c mt pt fset by simp
  moreover have "live t bs = insert (hp + 24, MEMITEM_SIZE s hp) (live s bs)"
  proof -
    have nxo: "nx t a = nx s a" if "a \<notin> {hp}" for a by (simp add: pt)
    have out: "set p \<inter> {hp} = {}" "set (b # ys) \<inter> {hp} = {}" using d by (auto simp: bs)
    have "lives t p = lives s p" "lives t (butlast (b # ys)) = lives s (butlast (b # ys))"
      by (rule lives_cong [OF mk nxo out(1)] lives_butlast_cong [OF mk nxo out(2)], assumption)+
    then show ?thesis using un b(2) by (simp add: live_def bs MEMITEM_SIZE_nx pt)
  qed
  ultimately show "\<exists>fs'. heap_core t h bs fs' \<and> live t bs = insert (hp + 24, MEMITEM_SIZE s hp) (live s bs)" by blast
  show "framed h s t" by (simp add: framed_def pt hu)
qed

section \<open>Request sizes\<close>

definition request_size :: "u32 \<Rightarrow> u32" where
  "request_size sz = (let a = RT_ALIGN sz 4 in if a < 12 then 12 else a)"

lemma unat_align_down: "unat (y AND NOT (mask 2) :: u32) = unat y div 4 * 4"
proof -
  have "unat (drop_bit 2 y) = unat y div 4" by (simp add: drop_bit_eq_div unat_div_distrib)
  moreover have "unat y div 4 * 4 < 2 ^ 32" using unat_u32_less [of y] by simp
  ultimately show ?thesis unfolding and_not_mask
    by (simp add: push_bit_eq_mult unat_word_ariths)
qed

lemma unat_RT_ALIGN: "unat (RT_ALIGN sz 4) = unat (sz + 3) div 4 * 4"
proof -
  have "RT_ALIGN sz 4 = (sz + 3) AND NOT (mask 2)"
    by (simp add: RT_ALIGN_def mask_eq_exp_minus_1 add.commute)
  then show ?thesis by (simp only: unat_align_down)
qed

lemma request_size_aligned: "unat (request_size sz) mod 4 = 0" "12 \<le> unat (request_size sz)"
  by (auto simp: request_size_def Let_def unat_RT_ALIGN word_less_nat_alt not_less)

lemma request_size_ge:
  assumes "unat sz \<le> 2 ^ 32 - 4"
  shows "unat sz \<le> unat (request_size sz)"
proof -
  have "unat (sz + 3) = unat sz + 3" using assms unat_add_u32 [of sz 3] by simp
  then have "unat sz \<le> unat (RT_ALIGN sz 4)" by (simp add: unat_RT_ALIGN)
  then show ?thesis by (auto simp: request_size_def Let_def word_less_nat_alt)
qed

section \<open>The allocation function\<close>

lemma sem_take_inv:
  assumes "heap_inv s h bs fs"
  obtains s1 where "sem_take h s = Some s1" "heap_core s1 h bs fs" "s1 = upd_heap h (lock_value_update (\<lambda>v. v - 1)) s"
    "lock_value (heaps s1 h) = 0" "sem_release h s1 = s"
proof
  let ?s1 = "upd_heap h (lock_value_update (\<lambda>v. v - 1)) s"
  have l: "lock_value (heaps s h) = 1" using assms by (simp add: heap_inv_def)
  then show "sem_take h s = Some ?s1" by (simp add: sem_take_def)
  have "heap_core s h bs fs" using assms by (simp add: heap_inv_def)
  then show "heap_core ?s1 h bs fs"
    by (simp add: heap_core_def marked_def is_used_mg heap_obj_def is_memheap_def bsz_def [abs_def])
  show "lock_value (heaps ?s1 h) = 0" using l by simp
  have undo: "lock_value_update ((\<lambda>v. v + 1) \<circ> (\<lambda>v. v - 1)) hp = hp" for hp :: rt_memheap
    by (cases hp) simp
  show "sem_release h ?s1 = s" by (simp add: sem_release_def upd_heap_def undo)
qed (rule refl)

lemma sem_release_inv:
  assumes "heap_core t h bs fs" "lock_value (heaps t h) = 0"
  shows "heap_inv (sem_release h t) h bs fs" "live (sem_release h t) bs = live t bs"
proof -
  have p: "nx (sem_release h t) = nx t" "mg (sem_release h t) = mg t" by (simp_all add: sem_release_def)
  then show "heap_inv (sem_release h t) h bs fs" using assms
    by (simp add: sem_release_def heap_inv_def heap_core_def marked_def is_used_mg heap_obj_def is_memheap_def bsz_def [abs_def])
  have "lives (sem_release h t) xs = lives t xs" for xs
    by (induction xs) (simp_all add: is_used_mg MEMITEM_SIZE_nx p)
  then show "live (sem_release h t) bs = live t bs" by (simp add: live_def)
qed

lemma upd_heap_same [simp]:
  "is_used (upd_heap h g s) = is_used s" "MEMITEM_SIZE (upd_heap h g s) = MEMITEM_SIZE s" "bsz (upd_heap h g s) = bsz s"
  "live (upd_heap h g s) = live s"
  by (simp_all add: fun_eq_iff is_used_mg MEMITEM_SIZE_nx bsz_def live_def set_lives)

text \<open>What an operation on one heap leaves alone, seen from outside.\<close>

definition heap_frame :: "u32 \<Rightarrow> kheap \<Rightarrow> kheap \<Rightarrow> bool" where
  "heap_frame h s t \<longleftrightarrow> objs t = objs s \<and> kmem t = kmem s \<and> (\<forall>h'. h' \<noteq> h \<longrightarrow> heaps t h' = heaps s h') \<and>
     start_addr (heaps t h) = start_addr (heaps s h) \<and> pool_size (heaps t h) = pool_size (heaps s h)"

text \<open>A found block is cut or taken whole; either way the request is served.\<close>

lemma take_block_core:
  assumes core: "heap_core s h bs fs" and a: "a \<in> set fs" "sz \<le> MEMITEM_SIZE s a"
    and sz: "unat sz mod 4 = 0" "12 \<le> unat sz"
    and u: "u = take_block h sz a (MEMITEM_SIZE s a) s"
    and t: "t = set_magic a (magic (items u a) OR 1) u"
  obtains n bs' fs' where "heap_core t h bs' fs'" "live t bs' = insert (a + 24, n) (live s bs)" "sz \<le> n" "framed h s t"
proof (cases "MEMITEM_SIZE s a \<ge> sz + 24 + 12")
  case True
  obtain b :: u32 where b: "unat (MEMITEM_SIZE s a) = bsz s a" "unat a + 24 + bsz s a = unat b" "unat b + 24 \<le> 2 ^ 32"
    using free_block [OF core a(1)] by metis
  have "unat sz \<le> bsz s a" using a(2) b(1) by (simp add: word_le_nat_alt)
  then have "unat (sz + 36) = unat sz + 36" using b unat_add_u32 [of sz 36] by simp
  then have "unat sz + 36 \<le> bsz s a" using True b(1) by (simp add: word_le_nat_alt add.assoc)
  from take_split_core [OF core a(1) sz this u t] show thesis by (metis that order_refl)
next
  case False
  from take_whole_core [OF core a(1) False u t] show thesis by (metis that a(2))
qed

lemma alloc_code:
  assumes "h \<noteq> 0" "is_memheap s h"
  shows "rt_memheap_alloc h req s =
    (if request_size req < available_size (heaps s h) then do {
       s1 \<leftarrow> sem_take h s;
       let fl = free_list (heaps s1 h);
       (header_ptr, free_size) \<leftarrow> find_block s1 fl (request_size req) (next_free (items s1 fl)) 0;
       if free_size \<ge> request_size req then
         (let s2 = take_block h (request_size req) header_ptr free_size s1;
              s3 = set_magic header_ptr (magic (items s2 header_ptr) OR RT_MEMHEAP_USED) s2
          in Some (header_ptr + RT_MEMHEAP_SIZE, sem_release h s3))
       else Some (0, sem_release h s1)
     }
     else Some (0, s))"
  using assms unfolding rt_memheap_alloc_def request_size_def Let_def by (simp only: if_False simp_thms)

lemma alloc_found:
  assumes inv: "heap_inv s h bs fs" and s1: "heap_core s1 h bs fs" "s1 = upd_heap h (lock_value_update (\<lambda>v. v - 1)) s"
      "lock_value (heaps s1 h) = 0"
    and a: "a \<in> set fs" "sz \<le> MEMITEM_SIZE s1 a" and sz: "unat sz mod 4 = 0" "12 \<le> unat sz"
    and u: "u = take_block h sz a (MEMITEM_SIZE s1 a) s1" and t: "t = set_magic a (magic (items u a) OR 1) u"
  obtains n bs' fs' where "a + 24 \<noteq> 0" "unat (a + 24) mod 4 = 0" "sz \<le> n" "heap_inv (sem_release h t) h bs' fs'"
    "live (sem_release h t) bs' = insert (a + 24, n) (live s bs)" "heap_frame h s (sem_release h t)"
proof -
  obtain n bs' fs' where c: "heap_core t h bs' fs'" "live t bs' = insert (a + 24, n) (live s1 bs)" "sz \<le> n" "framed h s1 t"
    using take_block_core [OF s1(1) a sz u t] .
  have lock: "lock_value (heaps t h) = 0" using c(4) s1(3) by (simp add: framed_def)
  obtain b :: u32 where b: "unat a + 24 + bsz s1 a = unat b" "unat b + 24 \<le> 2 ^ 32" "0 < unat a"
    using free_block [OF s1(1) a(1)] by metis
  then have pa: "unat (a + 24) = unat a + 24" using unat_add_u32 [of a 24] by simp
  have "unat a mod 4 = 0" using s1(1) a(1) by (auto simp: heap_core_def layout_def)
  then have al: "unat (a + 24) mod 4 = 0" by (simp add: pa mod_add_left_eq [symmetric])
  have nz: "a + 24 \<noteq> 0" using pa by auto
  have "heap_frame h s (sem_release h t)"
    using c(4) by (simp add: heap_frame_def framed_def sem_release_def s1(2))
  moreover have "live s1 = live s" by (simp add: s1(2))
  ultimately show thesis using that [OF nz al c(3)] sem_release_inv [OF c(1) lock] c(2) by simp
qed

lemma alloc_outcome:
  assumes inv: "heap_inv s h bs fs"
  obtains (none) "rt_memheap_alloc h req s = Some (0, s)"
      "available_size (heaps s h) \<le> request_size req \<or> (\<forall>a\<in>set fs. MEMITEM_SIZE s a < request_size req)"
  | (some) ptr n t bs' fs' where "rt_memheap_alloc h req s = Some (ptr, t)" "ptr \<noteq> 0" "unat ptr mod 4 = 0"
      "request_size req \<le> n" "heap_inv t h bs' fs'" "live t bs' = insert (ptr, n) (live s bs)" "ptr - 24 \<in> set fs"
      "heap_frame h s t"
proof -
  let ?sz = "request_size req"
  have obj: "h \<noteq> 0" "is_memheap s h" using inv by (simp_all add: heap_inv_def heap_core_def heap_obj_def)
  show thesis
  proof (cases "?sz < available_size (heaps s h)")
    case False
    then have "rt_memheap_alloc h req s = Some (0, s)"
      using obj by (simp add: alloc_code)
    with False show thesis by (intro none) auto
  next
    case True
    obtain s1 where s1: "sem_take h s = Some s1" "heap_core s1 h bs fs"
      "s1 = upd_heap h (lock_value_update (\<lambda>v. v - 1)) s" "lock_value (heaps s1 h) = 0" "sem_release h s1 = s"
      using sem_take_inv [OF inv] by metis
    let ?fh = "free_header h"
    have fl: "free_list (heaps s1 h) = ?fh" "dl_ring (nf s1) (pf s1) (?fh # fs)"
      using s1(2) by (simp_all add: heap_core_def heap_obj_def)
    have eq: "MEMITEM_SIZE s1 a = MEMITEM_SIZE s a" for a by (simp add: s1(3) MEMITEM_SIZE_nx)
    have pos: "0 < ?sz" using request_size_aligned(2) [of req] by (simp add: word_less_nat_alt)
    from fl(2) pos show thesis
    proof (cases rule: find_block_result)
      case (none a y)
      have "\<not> ?sz \<le> y" using none(2) by simp
      with none(1) have "rt_memheap_alloc h req s = Some (0, s)"
        using obj True s1(1,5) fl(1) by (simp add: alloc_code Let_def items_proj)
      with none(3) show thesis by (intro that(1)) (auto simp: eq)
    next
      case (found a)
      define u where "u = take_block h ?sz a (MEMITEM_SIZE s1 a) s1"
      define t where "t = set_magic a (magic (items u a) OR 1) u"
      have res: "rt_memheap_alloc h req s = Some (a + 24, sem_release h t)"
        using obj True s1(1) fl(1) found(1,3) by (simp add: alloc_code Let_def items_proj u_def t_def)
      show thesis
        by (rule alloc_found [OF inv s1(2-4) found(2,3) request_size_aligned u_def t_def])
          (rule that(2) [OF res]; simp add: found(2))
    qed
  qed
qed

end
