(* ===== verification/Memheap_Free.thy ===== *)
theory Memheap_Free
  imports Memheap_Alloc
begin

text \<open>
  Releasing a block. The two merges join the block with a free neighbour; between the steps of
  \<open>rt_memheap_free\<close> the invariant holds except around the released block.
\<close>

section \<open>Sums of block sizes\<close>

abbreviation unused :: "kheap \<Rightarrow> u32 list \<Rightarrow> u32 set" where
  "unused s bs \<equiv> {a \<in> set bs. \<not> is_used s a}"

lemma sum_bsz_butlast:
  assumes "spaced bs" "\<And>p a b ys. bs = p @ a # b # ys \<Longrightarrow> nx s a = b" "bs \<noteq> []"
  shows "sum_list (map (bsz s) (butlast bs)) \<le> unat (last bs) - unat (hd bs)"
  using assms
proof (induction bs)
  case (Cons a bs)
  show ?case
  proof (cases bs)
    case (Cons b ys)
    have "nx s a = b" using Cons.prems(2) [of "[]" a b ys] Cons by simp
    then have "bsz s a = unat b - unat a - 24" by (simp add: bsz_def)
    moreover have "sum_list (map (bsz s) (butlast bs)) \<le> unat (last bs) - unat (hd bs)"
    proof (rule Cons.IH)
      show "nx s x = y" if "bs = p @ x # y # zs" for p x y zs using Cons.prems(2) [of "a # p" x y zs] that by simp
    qed (use Cons.prems(1) Cons in \<open>auto simp: spaced_Cons\<close>)
    moreover have "unat a + 36 \<le> unat b" "spaced bs" using Cons.prems(1) Cons by (simp_all add: spaced_Cons)
    moreover have "unat b \<le> unat (last bs)" using spaced_bounds(2) [of bs b] calculation(4) Cons by simp
    ultimately show ?thesis using Cons by simp
  qed simp
qed simp

text \<open>The sizes of some blocks of a heap always add up to a machine word.\<close>

lemma sum_bsz_less:
  assumes "layout h bs" "dl_ring (nx s) (pv s) bs" "X \<subseteq> set (butlast bs)"
  shows "sum (bsz s) X < 2 ^ 32"
proof -
  have sp: "spaced bs" "bs \<noteq> []" using assms(1) by (auto simp: layout_def)
  then have "distinct (butlast bs)" by (simp add: spaced_distinct distinct_butlast)
  then have "sum (bsz s) (set (butlast bs)) = sum_list (map (bsz s) (butlast bs))"
    by (simp add: sum_list_distinct_conv_sum_set)
  also have "\<dots> \<le> unat (last bs) - unat (hd bs)"
    by (rule sum_bsz_butlast [OF sp(1) _ sp(2)]) (metis assms(2) dl_ring_next(1))
  also have "\<dots> < 2 ^ 32" using unat_u32_less [of "last bs"] by simp
  finally show ?thesis using sum_mono2 [OF _ assms(3), of "bsz s"] by simp
qed

lemma unused_butlast:
  assumes "is_used s (last bs)" "bs \<noteq> []"
  shows "unused s bs \<subseteq> set (butlast bs)"
  using assms by (cases bs rule: rev_cases) auto

lemma core_sum:
  assumes "heap_core s h bs fs"
  shows "unat (available_size (heaps s h)) = sum (bsz s) (unused s bs)"
proof -
  have "distinct fs" using assms dl_ring_distinct [of "nf s" "pf s" "free_header h # fs"] by (simp add: heap_core_def)
  then have "sum (bsz s) (set fs) = sum_list (map (bsz s) fs)" by (simp add: sum_list_distinct_conv_sum_set)
  then show ?thesis using assms by (simp add: heap_core_def)
qed

section \<open>Joining two free blocks\<close>

lemma join_blocks:
  assumes l: "layout h (p @ a # n # b # ys)" and r: "dl_ring (nx s) (pv s) (p @ a # n # b # ys)"
    and free: "\<not> is_used s a" "\<not> is_used s n"
    and t: "nx t = (nx s)(a := b)" "pv t = (pv s)(b := a)" "mg t = mg s" "pp t = pp s"
  shows "dl_ring (nx t) (pv t) (p @ a # b # ys)"
    "unused t (p @ a # b # ys) = unused s (p @ a # n # b # ys) - {n}"
    "sum (bsz t) (unused t (p @ a # b # ys)) = sum (bsz s) (unused s (p @ a # n # b # ys)) + 24"
    "live t (p @ a # b # ys) = live s (p @ a # n # b # ys)"
proof -
  have b: "nx s n = b" "nx s a = n" using dl_ring_next [of "nx s" "pv s" "p @ [a]" n b ys] dl_ring_next [OF r] r by auto
  show "dl_ring (nx t) (pv t) (p @ a # b # ys)" using dl_ring_remove [OF r refl] by (simp add: t b)
  have d: "distinct (p @ a # n # b # ys)" using dl_ring_distinct [OF r] .
  have used: "is_used t x = is_used s x" for x by (simp add: is_used_mg t)
  then show "unused t (p @ a # b # ys) = unused s (p @ a # n # b # ys) - {n}" using d by auto
  let ?R = "unused s (p @ b # ys)"
  have sets: "unused t (p @ a # b # ys) = insert a ?R" "unused s (p @ a # n # b # ys) = insert a (insert n ?R)"
    using free used by auto
  have notin: "a \<notin> ?R" "n \<notin> ?R" "a \<noteq> n" using d by auto
  have "unat a + 36 \<le> unat n" "unat n + 36 \<le> unat b"
    using layout_block(1) [OF l] layout_block(1) [of h "p @ [a]" n b ys] l by auto
  then have "bsz t a = bsz s a + bsz s n + 24" by (simp add: bsz_def t b)
  moreover have "sum (bsz t) ?R = sum (bsz s) ?R" using notin(1) by (intro sum.cong refl bsz_cong) (auto simp: t)
  ultimately show "sum (bsz t) (unused t (p @ a # b # ys)) = sum (bsz s) (unused s (p @ a # n # b # ys)) + 24"
    unfolding sets using notin by simp
  have mk: "marks s t {a}" and nxo: "\<And>x. x \<notin> {a} \<Longrightarrow> nx t x = nx s x" by (simp_all add: marks_def t)
  have out: "set p \<inter> {a} = {}" "set (b # ys) \<inter> {a} = {}" using d by auto
  have "lives t p = lives s p" "lives t (butlast (b # ys)) = lives s (butlast (b # ys))"
    by (rule lives_cong [OF mk nxo out(1)] lives_butlast_cong [OF mk nxo out(2)], assumption)+
  then show "live t (p @ a # b # ys) = live s (p @ a # n # b # ys)"
    using free by (simp add: live_def used)
qed

section \<open>The heap around the released block\<close>

text \<open>
  \<open>heap_open s h p a b ys fs inl\<close>: the free block \<open>a\<close> stands between the blocks \<open>p\<close> and \<open>b # ys\<close>; it may have
  free neighbours, and \<open>inl\<close> says whether it is in the free list already.
\<close>

definition heap_open :: "kheap \<Rightarrow> u32 \<Rightarrow> u32 list \<Rightarrow> u32 \<Rightarrow> u32 \<Rightarrow> u32 list \<Rightarrow> u32 list \<Rightarrow> bool \<Rightarrow> bool" where
  "heap_open s h p a b ys fs inl \<longleftrightarrow> layout h (p @ a # b # ys) \<and>
     (\<forall>x\<in>set (p @ a # b # ys). mg s x \<in> {0x1ea01ea0, 0x1ea01ea1} \<and> pp s x = h) \<and>
     is_used s (last (b # ys)) \<and> coalesced s p \<and> coalesced s (b # ys) \<and> \<not> is_used s a \<and>
     heap_obj s h (p @ a # b # ys) \<and> dl_ring (nx s) (pv s) (p @ a # b # ys) \<and>
     dl_ring (nf s) (pf s) (free_header h # fs) \<and>
     set fs = unused s (p @ a # b # ys) - (if inl then {} else {a}) \<and>
     unat (available_size (heaps s h)) = sum (bsz s) (unused s (p @ a # b # ys))"

abbreviation left_used :: "kheap \<Rightarrow> u32 list \<Rightarrow> bool" where
  "left_used s p \<equiv> p = [] \<or> is_used s (last p)"

lemma unat_add_fits: "unat a + unat b < 2 ^ 32 \<Longrightarrow> unat (a + b) = unat a + unat (b :: u32)"
  by (rule unat_add_u32) simp

lemma set_available_proj:
  "heaps (set_available h v s) = (heaps s)(h := (heaps s h)\<lparr>available_size := v\<rparr>)"
  by simp

lemma framed_trans: "framed h s t \<Longrightarrow> framed h t u \<Longrightarrow> framed h s u"
  by (simp add: framed_def)

lemma framed_refl [simp]: "framed h s s"
  by (simp add: framed_def)

text \<open>The common part of both merges: the block \<open>n\<close> behind \<open>a\<close> disappears and its header becomes usable.\<close>

lemma join_open:
  assumes l: "layout h (p @ a # n # b # ys)" and r: "dl_ring (nx s) (pv s) (p @ a # n # b # ys)"
    and m: "\<forall>x\<in>set (p @ a # n # b # ys). mg s x \<in> {0x1ea01ea0, 0x1ea01ea1} \<and> pp s x = h" "is_used s (last (b # ys))"
    and c: "coalesced s p" "coalesced s (b # ys)" and free: "\<not> is_used s a" "\<not> is_used s n"
    and o: "heap_obj s h (p @ a # n # b # ys)"
    and av: "unat (available_size (heaps s h)) = sum (bsz s) (unused s (p @ a # n # b # ys))"
    and t: "nx t = (nx s)(a := b)" "pv t = (pv s)(b := a)" "mg t = mg s" "pp t = pp s"
      "heaps t = (heaps s)(h := (heaps s h)\<lparr>available_size := available_size (heaps s h) + 24\<rparr>)"
    and f: "dl_ring (nf t) (pf t) (free_header h # fs)"
      "set fs = unused s (p @ a # n # b # ys) - {n} - (if inl then {} else {a})"
  shows "heap_open t h p a b ys fs inl" "live t (p @ a # b # ys) = live s (p @ a # n # b # ys)"
proof -
  note j = join_blocks [OF l r free t(1,2,3,4)]
  have used: "is_used t x = is_used s x" for x by (simp add: is_used_mg t)
  then have co: "coalesced t xs = coalesced s xs" for xs by (simp add: coalesced_def)
  have l': "layout h (p @ a # b # ys)" using layout_join [OF l] .
  have "sum (bsz t) (unused t (p @ a # b # ys)) < 2 ^ 32"
    using m(2) used by (intro sum_bsz_less [OF l' j(1)] unused_butlast) auto
  then have "unat (available_size (heaps s h) + 24) = sum (bsz t) (unused t (p @ a # b # ys))"
    using unat_add_fits [of "available_size (heaps s h)" 24] j(3) av by simp
  moreover have "heap_obj t h (p @ a # b # ys)" by (rule heap_obj_cong [OF o]) (auto simp: t hd_append)
  ultimately show "heap_open t h p a b ys fs inl"
    unfolding heap_open_def using l' m c free j(1,2) f by (simp add: used co t)
  show "live t (p @ a # b # ys) = live s (p @ a # n # b # ys)" by (fact j(4))
qed

lemma merge_left_open:
  assumes o: "heap_open s h p a b ys fs False"
  obtains a' ins t p' where "merge_left h a s = (a', ins, t)" "heap_open t h p' a' b ys fs (\<not> ins)" "left_used t p'"
    "live t (p' @ a' # b # ys) = live s (p @ a # b # ys)" "framed h s t"
proof -
  let ?bs = "p @ a # b # ys"
  from o have r: "dl_ring (nx s) (pv s) ?bs" and lastu: "is_used s (last (b # ys))" and free: "\<not> is_used s a"
    by (simp_all add: heap_open_def)
  show thesis
  proof (cases "p = [] \<or> is_used s (last p)")
    case True
    have "is_used s (pv s a)"
    proof (cases p rule: rev_cases)
      case Nil
      then show ?thesis using dl_ring_last(2) [of "nx s" "pv s" a "b # ys"] r lastu by simp
    next
      case (snoc q l)
      then show ?thesis using dl_ring_next(2) [of "nx s" "pv s" q l a "b # ys"] r True by simp
    qed
    then have "merge_left h a s = (a, True, s)" by (simp add: merge_left_def items_proj)
    then show thesis using that o True by force
  next
    case False
    then obtain q l where p: "p = q @ [l]" and l: "\<not> is_used s l" by (cases p rule: rev_cases) auto
    let ?s1 = "set_available h (available_size (heaps s h) + 24) s"
    define t where "t = set_prv b l (set_nxt l b ?s1)"
    have r': "dl_ring (nx s) (pv s) (q @ l # a # b # ys)" using r p by simp
    have n: "pv s a = l" "nx s a = b" using dl_ring_next [OF r'] dl_ring_next [OF r] by auto
    have ne: "l \<noteq> a" using dl_ring_distinct [OF r'] by auto
    have res: "merge_left h a s = (l, False, t)"
      using l ne n by (simp add: merge_left_def Let_def t_def items_proj)
    have t: "nx t = (nx s)(l := b)" "pv t = (pv s)(b := l)" "mg t = mg s" "pp t = pp s" "nf t = nf s" "pf t = pf s"
      "heaps t = (heaps s)(h := (heaps s h)\<lparr>available_size := available_size (heaps s h) + 24\<rparr>)"
      using dl_ring_distinct [OF r'] by (auto simp: t_def items_proj fun_eq_iff)
    have c: "layout h (q @ l # a # b # ys)" "heap_obj s h (q @ l # a # b # ys)" "coalesced s q" "coalesced s (b # ys)"
      "\<forall>x\<in>set (q @ l # a # b # ys). mg s x \<in> {0x1ea01ea0, 0x1ea01ea1} \<and> pp s x = h"
      "unat (available_size (heaps s h)) = sum (bsz s) (unused s (q @ l # a # b # ys))"
      "dl_ring (nf t) (pf t) (free_header h # fs)"
      "set fs = unused s (q @ l # a # b # ys) - {a} - (if True then {} else {l})"
      using o by (simp_all add: heap_open_def p coalesced_append t)
    note j = join_open [OF c(1) r' c(5) lastu c(3,4) l free c(2,6) t(1-4,7) c(7,8)]
    have "left_used t q" using o l by (auto simp: heap_open_def p coalesced_append is_used_mg t)
    moreover have "framed h s t" by (simp add: framed_def t_def)
    ultimately show thesis using that [OF res, of q] j p by simp
  qed
qed

lemma merge_right_open:
  assumes o: "heap_open s h p a b ys fs inl" and lu: "left_used s p"
  obtains b' ys' fs' where "heap_open (merge_right h a s) h p a b' ys' fs' inl" "left_used (merge_right h a s) p"
    "is_used (merge_right h a s) b'" "live (merge_right h a s) (p @ a # b' # ys') = live s (p @ a # b # ys)"
    "framed h s (merge_right h a s)"
proof -
  let ?bs = "p @ a # b # ys"
  from o have r: "dl_ring (nx s) (pv s) ?bs" and free: "\<not> is_used s a" and f: "dl_ring (nf s) (pf s) (free_header h # fs)"
    by (simp_all add: heap_open_def)
  have n: "nx s a = b" using dl_ring_next [OF r] by simp
  show thesis
  proof (cases "is_used s b")
    case True
    then have "merge_right h a s = s" by (simp add: merge_right_def items_proj n)
    then show thesis using that [of b ys fs] o lu True by simp
  next
    case False
    then obtain c zs where ys: "ys = c # zs" using o by (cases ys) (auto simp: heap_open_def)
    have r': "dl_ring (nx s) (pv s) (p @ a # b # c # zs)" using r ys by simp
    have nb: "nx s b = c" using dl_ring_next [of "nx s" "pv s" "p @ [a]" b c zs] r' by simp
    have d: "distinct (p @ a # b # c # zs)" using dl_ring_distinct [OF r'] .
    have "b \<in> set fs" using o False d by (auto simp: heap_open_def)
    then obtain us vs where fs: "fs = us @ b # vs" by (auto simp: in_set_conv_decomp)
    let ?s3 = "set_nxt a c (set_prv c a (set_available h (available_size (heaps s h) + 24) s))"
    define t where "t = free_list_remove b ?s3"
    have res: "merge_right h a s = t"
      using False d nb by (auto simp: merge_right_def Let_def t_def items_proj n)
    have "dl_ring (nf ?s3) (pf ?s3) (free_header h # us @ b # vs)" using f by (simp add: fs items_proj)
    note rm = free_list_remove_ring [OF this t_def]
    have t: "nx t = (nx s)(a := c)" "pv t = (pv s)(c := a)" "mg t = mg s" "pp t = pp s"
      "heaps t = (heaps s)(h := (heaps s h)\<lparr>available_size := available_size (heaps s h) + 24\<rparr>)"
      "objs t = objs s" "kmem t = kmem s"
      using rm d by (auto simp: same_rest_def items_proj fun_eq_iff)
    have cz: "coalesced s (c # zs)" "is_used s c" "is_used s (last (c # zs))" "coalesced s p"
      using o False by (simp_all add: heap_open_def ys coalesced_Cons)
    have fset: "set (us @ vs) = unused s (p @ a # b # c # zs) - {b} - (if inl then {} else {a})"
    proof -
      have "set (us @ vs) = set fs - {b}" using dl_ring_distinct [OF f] by (auto simp: fs)
      then show ?thesis using o by (auto simp: heap_open_def ys)
    qed
    have c: "layout h (p @ a # b # c # zs)" "heap_obj s h (p @ a # b # c # zs)"
      "\<forall>x\<in>set (p @ a # b # c # zs). mg s x \<in> {0x1ea01ea0, 0x1ea01ea1} \<and> pp s x = h"
      "unat (available_size (heaps s h)) = sum (bsz s) (unused s (p @ a # b # c # zs))"
      using o by (simp_all add: heap_open_def ys)
    note j = join_open [OF c(1) r' c(3) cz(3,4,1) free False c(2,4) t(1-5) rm(1) fset]
    have "left_used t p" "is_used t c" using lu cz(2) by (simp_all add: is_used_mg t)
    moreover have "framed h s t" by (simp add: framed_def t)
    ultimately show thesis using that [of c zs "us @ vs"] j res ys by simp
  qed
qed

text \<open>The first step of the release: the block is marked free and counted.\<close>

lemma magic_not_used: "x \<in> {0x1ea01ea0, 0x1ea01ea1} \<Longrightarrow> x AND NOT 1 = (0x1ea01ea0 :: u32)"
  by auto

lemma live_unique:
  assumes "layout h bs" "(a, n) \<in> live s bs" "(a, m) \<in> live s bs"
  shows "n = m"
  using assms by (auto simp: live_def set_lives)

lemma mark_free_open:
  assumes core: "heap_core s h (p @ a # b # ys) fs" and used: "is_used s a"
    and t: "t = set_available h (available_size (heaps s h) + MEMITEM_SIZE s a) (set_magic a (magic (items s a) AND NOT 1) s)"
  shows "heap_open t h p a b ys fs False" "live t (p @ a # b # ys) = live s (p @ a # b # ys) - {(a + 24, MEMITEM_SIZE s a)}"
    "framed h s t"
proof -
  let ?bs = "p @ a # b # ys" and ?X = "unused s (p @ a # b # ys)"
  from core have c: "layout h ?bs" "marked s h ?bs" "heap_obj s h ?bs" "dl_ring (nx s) (pv s) ?bs"
    "dl_ring (nf s) (pf s) (free_header h # fs)" "set fs = ?X" by (simp_all add: heap_core_def)
  have d: "distinct ?bs" using dl_ring_distinct [OF c(4)] .
  have "mg s a \<in> {0x1ea01ea0, 0x1ea01ea1}" using c(2) by (simp add: marked_alt)
  from magic_not_used [OF this] have mga: "mg s a AND - 2 = 0x1ea01ea0" by simp
  have pt: "nx t = nx s" "pv t = pv s" "nf t = nf s" "pf t = pf s" "pp t = pp s" "mg t = (mg s)(a := 0x1ea01ea0)"
    "heaps t = (heaps s)(h := (heaps s h)\<lparr>available_size := available_size (heaps s h) + MEMITEM_SIZE s a\<rparr>)"
    by (simp_all add: t items_proj mga)
  have mk: "marks s t {a}" and nxo: "\<And>x. x \<notin> {a} \<Longrightarrow> nx t x = nx s x" by (simp_all add: marks_def pt)
  have free: "\<not> is_used t a" by (simp add: is_used_mg pt)
  have uo: "is_used t x = is_used s x" if "x \<noteq> a" for x using marks_used [OF mk] that by simp
  have "is_used t x \<longleftrightarrow> is_used s x \<and> x \<noteq> a" for x using free uo [of x] by auto
  then have un: "unused t ?bs = insert a ?X" "a \<notin> ?X" using used by auto
  have out: "set p \<inter> {a} = {}" "set (b # ys) \<inter> {a} = {}" using d by auto
  have co: "coalesced t p" "coalesced t (b # ys)" using c(2) coalesced_marks [OF mk out(1)] coalesced_marks [OF mk out(2)]
    by (simp_all add: marked_alt coalesced_append coalesced_Cons)
  have "last (b # ys) \<in> set (b # ys)" by (rule last_in_set) simp
  then have "last (b # ys) \<noteq> a" using out(2) by blast
  with uo c(2) have lastu: "is_used t (last (b # ys))" by (simp add: marked_alt)
  have sum: "sum (bsz t) (unused t ?bs) = sum (bsz s) ?X + bsz s a"
    unfolding un(1) using un(2) by (simp add: bsz_def pt)
  have "sum (bsz t) (unused t ?bs) < 2 ^ 32"
    using lastu by (intro sum_bsz_less [OF c(1)] unused_butlast) (use c(4) in \<open>auto simp: pt\<close>)
  then have "unat (available_size (heaps s h) + MEMITEM_SIZE s a) = sum (bsz t) (unused t ?bs)"
    using unat_add_fits [of "available_size (heaps s h)" "MEMITEM_SIZE s a"] sum core_sum [OF core] block_size(4) [OF c(1,4)]
    by simp
  moreover have "heap_obj t h ?bs" by (rule heap_obj_cong [OF c(3)]) (auto simp: pt)
  moreover have "\<forall>x\<in>set ?bs. mg t x \<in> {0x1ea01ea0, 0x1ea01ea1} \<and> pp t x = h" using c(2) by (simp add: marked_alt pt)
  ultimately show "heap_open t h p a b ys fs False"
    unfolding heap_open_def using c co lastu free un by (simp add: pt)
  have "lives t p = lives s p" "lives t (butlast (b # ys)) = lives s (butlast (b # ys))"
    by (rule lives_cong [OF mk nxo out(1)] lives_butlast_cong [OF mk nxo out(2)], assumption)+
  moreover have "(a + 24, MEMITEM_SIZE s a) \<notin> set (lives s p)" "(a + 24, MEMITEM_SIZE s a) \<notin> set (lives s (butlast (b # ys)))"
    using d by (auto simp: set_lives dest: in_set_butlastD)
  ultimately show "live t ?bs = live s ?bs - {(a + 24, MEMITEM_SIZE s a)}"
    using free used by (auto simp: live_def simp del: butlast.simps)
  show "framed h s t" by (simp add: framed_def t)
qed

lemma layout_header:
  assumes "layout h bs"
  shows "free_header h \<notin> set bs"
proof
  assume "free_header h \<in> set bs"
  moreover have "spaced bs" using assms by (simp add: layout_def)
  ultimately show False using spaced_bounds layout_outside [OF assms] by blast
qed

lemma in_butlast_split:
  assumes "a \<in> set (butlast bs)"
  shows "\<exists>p b ys. bs = p @ a # b # ys"
proof -
  obtain q l where bs: "bs = q @ [l]" using assms by (cases bs rule: rev_cases) auto
  with assms obtain p r where "q = p @ a # r" by (auto simp: in_set_conv_decomp)
  then show ?thesis using bs by (cases r) auto
qed

text \<open>The last step: a block that is not in the free list yet is put there.\<close>

lemma close_open:
  assumes o: "heap_open s h p a b ys fs inl" "left_used s p" "is_used s b"
    and t: "t = (if inl then s else free_list_insert h a s)"
  obtains fs' where "heap_core t h (p @ a # b # ys) fs'" "live t (p @ a # b # ys) = live s (p @ a # b # ys)" "framed h s t"
proof -
  let ?bs = "p @ a # b # ys"
  have ring: "dl_ring (nf s) (pf s) (free_header h # fs)" and fl: "free_list (heaps s h) = free_header h"
    using o(1) by (simp_all add: heap_open_def heap_obj_def)
  have out: "free_header h \<notin> set ?bs" using o(1) layout_header unfolding heap_open_def by blast
  obtain fs' where f: "dl_ring (nf t) (pf t) (free_header h # fs')" "set fs' = unused s ?bs"
    and rest: "nx t = nx s" "pv t = pv s" "same_rest s t"
  proof (cases inl)
    case True
    with o(1) t ring show thesis by (intro that [of fs]) (simp_all add: heap_open_def same_rest_def)
  next
    case False
    have fset: "set fs = unused s ?bs - {a}" "\<not> is_used s a" using o(1) False by (auto simp: heap_open_def)
    then have "a \<notin> set (free_header h # fs)" using out by auto
    with ring fl have "dl_ring (nf t) (pf t) (free_header h # a # fs)" "nx t = nx s" "pv t = pv s" "same_rest s t"
      using free_list_insert_ring [of s "free_header h" fs h a t] t False by auto
    with fset show thesis by (intro that [of "a # fs"]) auto
  qed
  have pt: "mg t = mg s" "pp t = pp s" "heaps t = heaps s" "objs t = objs s" "kmem t = kmem s"
    using rest(3) by (simp_all add: same_rest_def)
  have used: "is_used t x = is_used s x" for x by (simp add: is_used_mg pt)
  have "coalesced t xs = coalesced s xs" for xs by (simp add: coalesced_def used)
  then have m: "marked t h ?bs" using o by (auto simp: heap_open_def marked_alt coalesced_append coalesced_Cons used pt)
  have "distinct fs'" using dl_ring_distinct [OF f(1)] by simp
  then have "sum_list (map (bsz t) fs') = sum (bsz s) (unused s ?bs)"
    using f(2) by (simp add: sum_list_distinct_conv_sum_set bsz_def rest)
  then have "unat (available_size (heaps t h)) = sum_list (map (bsz t) fs')" using o(1) by (simp add: heap_open_def pt)
  moreover have "heap_obj t h ?bs" by (rule heap_obj_cong [of s]) (use o(1) in \<open>auto simp: heap_open_def pt\<close>)
  ultimately have "heap_core t h ?bs fs'"
    unfolding heap_core_def using o(1) m f by (simp add: heap_open_def rest used)
  moreover have "lives t xs = lives s xs" for xs
    by (induction xs) (simp_all add: used MEMITEM_SIZE_nx rest)
  then have "live t ?bs = live s ?bs" unfolding live_def by (simp only:)
  ultimately show thesis using that by (simp add: framed_def pt)
qed

section \<open>The release function\<close>

text \<open>The calls of the function on a live block: every assertion holds.\<close>

lemma free_code:
  assumes inv: "heap_inv s h bs fs" and bs: "bs = q @ a # b # ys" "is_used s a" and s1: "sem_take h s = Some s1" "nx s1 = nx s"
  shows "rt_memheap_free (a + 24) s =
    (case merge_left h a (set_available h (available_size (heaps s1 h) + MEMITEM_SIZE s1 a) (set_magic a (magic (items s1 a) AND NOT 1) s1)) of
       (a', ins, s4) \<Rightarrow> let s5 = merge_right h a' s4 in Some (sem_release h (if \<not> ins then s5 else free_list_insert h a' s5)))"
proof -
  have "heap_core s h bs fs" using inv by (simp add: heap_inv_def)
  then have mk: "mg s a \<in> {0x1ea01ea0, 0x1ea01ea1}" "mg s b \<in> {0x1ea01ea0, 0x1ea01ea1}" "pp s a = h" "nx s a = b"
    "h \<noteq> 0" "is_memheap s h" and l: "layout h (q @ a # b # ys)"
    using dl_ring_next(1) [of "nx s" "pv s" q a b ys] by (simp_all add: heap_core_def marked_alt heap_obj_def bs(1))
  have "unat (a + 24) = unat a + 24" using layout_block(1,2) [OF l] unat_add_u32 [of a 24] by simp
  then have nz: "a + 24 \<noteq> 0" by auto
  have sz: "MEMITEM_SIZE (set_magic a v s1) a = MEMITEM_SIZE s1 a" for v by (simp add: MEMITEM_SIZE_nx items_proj)
  have "mg s a AND 0xfffffffe = 0x1ea01ea0" "mg s b AND 0xfffffffe = 0x1ea01ea0" using mk(1,2) by auto
  then show ?thesis using mk(3-6) nz bs(2) s1(1)
    unfolding rt_memheap_free_def items_proj
    by (simp add: Let_def mk(3,4) sz if_distrib split: prod.split)
qed

lemma free_outcome:
  assumes inv: "heap_inv s h bs fs" and p: "(ptr, n) \<in> live s bs"
  obtains t bs' fs' where "rt_memheap_free ptr s = Some t" "heap_inv t h bs' fs'"
    "live t bs' = live s bs - {(ptr, n)}" "heap_frame h s t"
proof -
  obtain a where a: "a \<in> set (butlast bs)" "is_used s a" "ptr = a + 24" "n = MEMITEM_SIZE s a"
    using p by (auto simp: live_def set_lives)
  obtain q b ys where bs: "bs = q @ a # b # ys" using in_butlast_split [OF a(1)] by blast
  obtain s1 where s1: "sem_take h s = Some s1" "heap_core s1 h bs fs"
    "s1 = upd_heap h (lock_value_update (\<lambda>v. v - 1)) s" "lock_value (heaps s1 h) = 0" "sem_release h s1 = s"
    using sem_take_inv [OF inv] .
  have same: "is_used s1 = is_used s" "MEMITEM_SIZE s1 = MEMITEM_SIZE s" "live s1 = live s" "nx s1 = nx s" by (simp_all add: s1(3))
  define s3 where "s3 = set_available h (available_size (heaps s1 h) + MEMITEM_SIZE s1 a) (set_magic a (magic (items s1 a) AND NOT 1) s1)"
  have "is_used s1 a" using a(2) by (simp add: same)
  note m = mark_free_open [OF s1(2) [unfolded bs] this s3_def]
  obtain a' ins s4 q' where l: "merge_left h a s3 = (a', ins, s4)" "heap_open s4 h q' a' b ys fs (\<not> ins)" "left_used s4 q'"
    "live s4 (q' @ a' # b # ys) = live s3 (q @ a # b # ys)" "framed h s3 s4"
    using merge_left_open [OF m(1)] .
  define s5 where "s5 = merge_right h a' s4"
  obtain b' ys' fs5 where r: "heap_open s5 h q' a' b' ys' fs5 (\<not> ins)" "left_used s5 q'" "is_used s5 b'"
    "live s5 (q' @ a' # b' # ys') = live s4 (q' @ a' # b # ys)" "framed h s4 s5"
    unfolding s5_def using merge_right_open [OF l(2,3)] .
  define t where "t = (if \<not> ins then s5 else free_list_insert h a' s5)"
  obtain fs' where c: "heap_core t h (q' @ a' # b' # ys') fs'"
    "live t (q' @ a' # b' # ys') = live s5 (q' @ a' # b' # ys')" "framed h s5 t"
    using close_open [OF r(1-3) t_def] .
  have fr: "framed h s1 t" using m(3) l(5) r(5) c(3) framed_trans by blast
  then have lock: "lock_value (heaps t h) = 0" using s1(4) by (simp add: framed_def)
  have "rt_memheap_free ptr s = Some (sem_release h t)"
    using free_code [OF inv bs a(2) s1(1) same(4), folded s3_def] l(1) by (simp add: a(3) s5_def t_def)
  moreover have "heap_frame h s (sem_release h t)"
    using fr by (simp add: heap_frame_def framed_def sem_release_def s1(3))
  moreover have "live t (q' @ a' # b' # ys') = live s bs - {(ptr, n)}"
    using c(2) r(4) l(4) m(2) a(3,4) by (simp add: bs same)
  ultimately show thesis using that sem_release_inv [OF c(1) lock] by simp
qed

end
