(* ===== verification/Memheap_Init.thy ===== *)
theory Memheap_Init
  imports Memheap_Free
begin

text \<open>Initialisation establishes the invariant: one free block that spans the pool, and the end mark.\<close>

lemma dl_ring_pair: "a \<noteq> b \<Longrightarrow> dl_ring f g [a, b] \<longleftrightarrow> f a = b \<and> f b = a \<and> g a = b \<and> g b = a"
  by (auto simp: dl_ring_def)

lemma pool_bounds:
  fixes sz :: u32
  assumes "pool = sz AND NOT (4 - 1)" "60 \<le> unat sz"
  shows "unat pool = unat sz div 4 * 4" "60 \<le> unat pool" "unat pool \<le> unat sz" "unat pool mod 4 = 0"
proof -
  have "pool = sz AND NOT (mask 2)" using assms(1) by (simp add: mask_eq_exp_minus_1)
  then show p: "unat pool = unat sz div 4 * 4" by (simp only: unat_align_down)
  show "60 \<le> unat pool" "unat pool \<le> unat sz" "unat pool mod 4 = 0" using assms(2) by (auto simp: p)
qed

text \<open>The pool as a heap description: a usable pool holds two headers and a minimal block, and does not overlap
  the list header inside the heap object.\<close>

definition pool_ok :: "u32 \<Rightarrow> u32 \<Rightarrow> u32 \<Rightarrow> bool" where
  "pool_ok h start sz \<longleftrightarrow> h \<noteq> 0 \<and> unat start mod 4 = 0 \<and> 0 < unat start \<and> 60 \<le> unat sz \<and> unat start + unat sz \<le> 2 ^ 32 \<and>
     (unat (free_header h) < unat start \<or> unat start + unat sz \<le> unat (free_header h))"

lemma init_layout:
  assumes ok: "pool_ok h start sz" and pool: "pool = sz AND NOT (4 - 1)" and tail: "tail = start + (pool - 48) + 24"
  shows "unat tail = unat start + unat pool - 24" "layout h [start, tail]" "start \<noteq> tail"
    "start \<noteq> free_header h" "tail \<noteq> free_header h" "unat (pool - 48) = unat pool - 48"
proof -
  have c: "unat start mod 4 = 0" "0 < unat start" "60 \<le> unat sz" "unat start + unat sz \<le> 2 ^ 32"
    "unat (free_header h) < unat start \<or> unat start + unat sz \<le> unat (free_header h)"
    using ok by (simp_all add: pool_ok_def)
  note p = pool_bounds [OF pool c(3)]
  show av: "unat (pool - 48) = unat pool - 48" using p(2) unat_minus_le [of 48 pool] by simp
  then show t: "unat tail = unat start + unat pool - 24"
    using unat_plus_small [of start "pool - 48"] p c(4) by (simp add: tail)
  have "unat tail mod 4 = 0" using c(1) p(4,2) unfolding t by presburger
  with t c p show "layout h [start, tail]" by (auto simp: layout_def spaced_Cons spaced_def)
  show "start \<noteq> tail" using t p by auto
  show "start \<noteq> free_header h" using c p by auto
  show "tail \<noteq> free_header h" using t c p by auto
qed

lemma init_state:
  assumes ok: "pool_ok h start sz" and fresh: "h \<notin> set (objs s)"
    and pool: "pool = sz AND NOT (4 - 1)" and tail: "tail = start + (pool - 48) + 24"
  obtains t where "rt_memheap_init h start sz s = Some t"
    "objs t = h # objs s" "kmem t = kmem s" "\<forall>h'. h' \<noteq> h \<longrightarrow> heaps t h' = heaps s h'"
    "heaps t h = (heaps s h)\<lparr>obj_type := 0x87, start_addr := start, pool_size := pool,
      available_size := pool - 48, max_used_size := pool - (pool - 48), free_list := free_header h, block_list := start, lock_value := 1\<rparr>"
    "mg t start = 0x1ea01ea0" "mg t tail = 0x1ea01ea1" "pp t start = h" "pp t tail = h" "nx t start = tail"
    "dl_ring (nx t) (pv t) [start, tail]" "dl_ring (nf t) (pf t) [free_header h, start]"
proof -
  let ?fh = "free_header h"
  note l = init_layout [OF ok pool tail]
  define s2 where "s2 = upd_heap h (\<lambda>hp. hp\<lparr>start_addr := start, pool_size := pool, available_size := pool - 2 * 24,
      max_used_size := pool - (pool - 2 * 24)\<rparr>)
    (upd_heap h (\<lambda>hp. hp\<lparr>obj_type := 7 OR 0x80\<rparr>) (s\<lparr>objs := h # objs s\<rparr>))"
  define s3 where "s3 = upd_item ?fh (\<lambda>i. \<lparr>magic = 0x1ea01ea0, pool_ptr = h, nxt = 0, prv = 0, next_free = ?fh, prev_free = ?fh\<rparr>) s2"
  define s4 where "s4 = upd_heap h (free_list_update (\<lambda>_. ?fh)) s3"
  define s5 where "s5 = upd_item start (\<lambda>i. \<lparr>magic = 0x1ea01ea0, pool_ptr = h, nxt = 0, prv = 0, next_free = start, prev_free = start\<rparr>) s4"
  define s6 where "s6 = set_nxt start (start + (pool - 2 * 24) + 24) s5"
  define s7 where "s7 = set_prv start (nxt (items s6 start)) s6"
  define s8 where "s8 = upd_heap h (block_list_update (\<lambda>_. start)) s7"
  define s9 where "s9 = free_list_insert h start s8"
  define s10 where "s10 = upd_item (nxt (items s9 start)) (\<lambda>i. \<lparr>magic = 0x1ea01ea0 OR 1, pool_ptr = h, nxt = start, prv = start, next_free = 0, prev_free = 0\<rparr>) s9"
  define t where "t = upd_heap h (lock_value_update (\<lambda>_. 1)) s10"
  have g: "(h = 0 \<or> h \<in> set (objs s)) = False" using ok fresh by (simp add: pool_ok_def)
  have res: "rt_memheap_init h start sz s = Some t"
    unfolding rt_memheap_init_def g if_False Let_def t_def s10_def s9_def s8_def s7_def s6_def s5_def s4_def s3_def s2_def pool
    by (rule refl)
  have p8: "nx s8 = (nx s)(?fh := 0, start := tail)" "pv s8 = (pv s)(?fh := 0, start := tail)"
    "nf s8 = (nf s)(?fh := ?fh, start := start)" "pf s8 = (pf s)(?fh := ?fh, start := start)"
    "mg s8 = (mg s)(?fh := 0x1ea01ea0, start := 0x1ea01ea0)" "pp s8 = (pp s)(?fh := h, start := h)"
    "objs s8 = h # objs s" "kmem s8 = kmem s"
    using l(4) by (simp_all add: s8_def s7_def s6_def s5_def s4_def s3_def s2_def items_proj tail)
  have h8: "heaps s8 = (heaps s)(h := (heaps s h)\<lparr>obj_type := 0x87, start_addr := start, pool_size := pool,
      available_size := pool - 48, max_used_size := pool - (pool - 48), free_list := ?fh, block_list := start\<rparr>)"
    by (simp add: s8_def s7_def s6_def s5_def s4_def s3_def s2_def)
  have ring8: "dl_ring (nf s8) (pf s8) [?fh]" using l(4) by (simp add: p8 dl_ring_singleton)
  have "free_list (heaps s8 h) = ?fh" "start \<notin> set [?fh]" using l(4) by (simp_all add: h8)
  note p9 = free_list_insert_ring [OF ring8 this s9_def]
  have "nx s9 start = tail" by (simp add: p9 p8)
  then have t: "t = upd_heap h (lock_value_update (\<lambda>_. 1)) (upd_item tail (\<lambda>i. \<lparr>magic = 0x1ea01ea1, pool_ptr = h,
      nxt = start, prv = start, next_free = 0, prev_free = 0\<rparr>) s9)" by (simp add: t_def s10_def items_proj)
  have rest: "objs t = h # objs s" "kmem t = kmem s" "\<forall>h'. h' \<noteq> h \<longrightarrow> heaps t h' = heaps s h'"
    using p9(4) by (simp_all add: t same_rest_def p8 h8)
  have ht: "heaps t h = (heaps s h)\<lparr>obj_type := 0x87, start_addr := start, pool_size := pool,
      available_size := pool - 48, max_used_size := pool - (pool - 48), free_list := ?fh, block_list := start, lock_value := 1\<rparr>"
    using p9(4) by (simp add: t same_rest_def h8)
  have mt: "mg t start = 0x1ea01ea0" "mg t tail = 0x1ea01ea1" "pp t start = h" "pp t tail = h"
    using p9(4) l(3) by (simp_all add: t same_rest_def p8)
  have nt: "nx t start = tail" "dl_ring (nx t) (pv t) [start, tail]"
    using l(3) by (simp_all add: dl_ring_pair t p9 p8)
  have ft: "dl_ring (nf t) (pf t) [?fh, start]" using p9(1) l(3,5) by (simp add: t)
  show thesis by (rule that [OF res rest ht mt nt ft])
qed

lemma memheap_init_inv:
  assumes ok: "pool_ok h start sz" and fresh: "h \<notin> set (objs s)"
  obtains t where "rt_memheap_init h start sz s = Some t"
    "heap_inv t h [start, start + ((sz AND NOT 3) - 48) + 24] [start]"
    "live t [start, start + ((sz AND NOT 3) - 48) + 24] = {}" "objs t = h # objs s" "kmem t = kmem s"
    "\<forall>h'. h' \<noteq> h \<longrightarrow> heaps t h' = heaps s h'"
    "unat (available_size (heaps t h)) = unat sz div 4 * 4 - 48"
proof -
  define pool where "pool = sz AND NOT (4 - 1)"
  define tail where "tail = start + (pool - 48) + 24"
  note l = init_layout [OF ok pool_def tail_def]
  have p: "unat pool = unat sz div 4 * 4" "60 \<le> unat pool"
    using pool_bounds [OF pool_def] ok by (simp_all add: pool_ok_def)
  obtain t where t: "rt_memheap_init h start sz s = Some t"
    "objs t = h # objs s" "kmem t = kmem s" "\<forall>h'. h' \<noteq> h \<longrightarrow> heaps t h' = heaps s h'"
    and ht: "heaps t h = (heaps s h)\<lparr>obj_type := 0x87, start_addr := start, pool_size := pool,
      available_size := pool - 48, max_used_size := pool - (pool - 48), free_list := free_header h, block_list := start, lock_value := 1\<rparr>"
    and mt: "mg t start = 0x1ea01ea0" "mg t tail = 0x1ea01ea1" "pp t start = h" "pp t tail = h"
    and nt: "nx t start = tail" "dl_ring (nx t) (pv t) [start, tail]" and ft: "dl_ring (nf t) (pf t) [free_header h, start]"
    using init_state [OF ok fresh pool_def tail_def] .
  have u: "\<not> is_used t start" "is_used t tail" by (simp_all add: is_used_mg mt)
  have "bsz t start = unat pool - 48" using l(1) p(2) by (simp add: bsz_def nt)
  moreover have "is_memheap t h" by (simp add: is_memheap_def ht)
  ultimately have "heap_inv t h [start, tail] [start]"
    unfolding heap_inv_def heap_core_def heap_obj_def marked_def
    using l p ok nt ft u mt by (auto simp: ht pool_ok_def)
  moreover have "live t [start, tail] = {}" using u by (simp add: live_def)
  moreover have "unat (available_size (heaps t h)) = unat sz div 4 * 4 - 48" using l(6) p by (simp add: ht)
  ultimately show thesis using that [OF t(1)] t(2-4) by (simp add: tail_def pool_def)
qed

end
