(* ===== verification/Alloc_Interface.thy ===== *)
theory Alloc_Interface
  imports Prelude
begin

text \<open>
  The interface of a memory allocator, as its clients in the kernel use it: what a state must
  satisfy, which blocks are live in it, and the two operations. An address and a length stand for the
  bytes between them; a live block never wraps around the address space.
\<close>

definition region :: "u32 \<times> u32 \<Rightarrow> nat set" where
  "region b = {unat (fst b)..<unat (fst b) + unat (snd b)}"

definition disjoint_regions :: "(u32 \<times> u32) set \<Rightarrow> bool" where
  "disjoint_regions B \<longleftrightarrow> (\<forall>b\<in>B. \<forall>c\<in>B. b \<noteq> c \<longrightarrow> region b \<inter> region c = {})"

lemma region_nonempty: "0 < unat n \<Longrightarrow> unat p \<in> region (p, n)"
  by (simp add: region_def)

locale allocator =
  fixes ok :: "'s \<Rightarrow> bool"
    and live :: "'s \<Rightarrow> (u32 \<times> u32) set"
    and alloc :: "u32 \<Rightarrow> 's \<Rightarrow> (u32 \<times> 's) option"
    and release :: "u32 \<Rightarrow> 's \<Rightarrow> 's option"
  assumes alloc_total: "ok s \<Longrightarrow> \<exists>p t. alloc n s = Some (p, t) \<and> ok t"
    and alloc_null: "ok s \<Longrightarrow> alloc n s = Some (0, t) \<Longrightarrow> live t = live s"
    and alloc_block: "ok s \<Longrightarrow> alloc n s = Some (p, t) \<Longrightarrow> p \<noteq> 0 \<Longrightarrow> unat n \<le> 2 ^ 32 - 4 \<Longrightarrow>
      \<exists>m. n \<le> m \<and> (p, m) \<notin> live s \<and> live t = insert (p, m) (live s)"
    and alloc_aligned: "ok s \<Longrightarrow> alloc n s = Some (p, t) \<Longrightarrow> unat p mod 4 = 0"
    and release_block: "ok s \<Longrightarrow> (p, m) \<in> live s \<Longrightarrow> \<exists>t. release p s = Some t \<and> ok t \<and> live t = live s - {(p, m)}"
    and live_disjoint: "ok s \<Longrightarrow> disjoint_regions (live s)"
    and live_bounds: "ok s \<Longrightarrow> (p, m) \<in> live s \<Longrightarrow> p \<noteq> 0 \<and> 4 \<le> unat p \<and> 0 < unat m \<and> unat p + unat m < 2 ^ 32"
begin

lemma alloc_ok: "ok s \<Longrightarrow> alloc n s = Some (p, t) \<Longrightarrow> ok t"
  using alloc_total [of s n] by auto

lemma live_base_unique:
  assumes "ok s" "(p, m) \<in> live s" "(p, k) \<in> live s"
  shows "m = k"
proof (rule ccontr)
  assume "m \<noteq> k"
  then have "region (p, m) \<inter> region (p, k) = {}"
    using live_disjoint [OF assms(1)] assms(2,3) by (auto simp: disjoint_regions_def)
  then show False using region_nonempty live_bounds [OF assms(1,2)] live_bounds [OF assms(1,3)] by blast
qed

text \<open>A fresh block shares no byte with a block that was live before.\<close>

lemma alloc_fresh:
  assumes "ok s" "alloc n s = Some (p, t)" "p \<noteq> 0" "unat n \<le> 2 ^ 32 - 4" "b \<in> live s"
  shows "region (p, n) \<inter> region b = {}"
proof -
  obtain m where m: "n \<le> m" "(p, m) \<notin> live s" "live t = insert (p, m) (live s)"
    using alloc_block [OF assms(1-4)] by blast
  have "ok t" using alloc_ok [OF assms(1,2)] .
  then have "region (p, m) \<inter> region b = {}"
    using live_disjoint m(2,3) assms(5) unfolding disjoint_regions_def by (metis insertCI)
  moreover have "region (p, n) \<subseteq> region (p, m)" using m(1) by (auto simp: region_def word_le_nat_alt)
  ultimately show ?thesis by blast
qed

lemma alloc_release:
  assumes "ok s" "alloc n s = Some (p, t)" "p \<noteq> 0" "unat n \<le> 2 ^ 32 - 4"
  obtains u where "release p t = Some u" "ok u" "live u = live s"
proof -
  obtain m where m: "(p, m) \<notin> live s" "live t = insert (p, m) (live s)"
    using alloc_block [OF assms] by blast
  then obtain u where "release p t = Some u" "ok u" "live u = live t - {(p, m)}"
    using release_block [OF alloc_ok [OF assms(1,2)], of p m] by auto
  then show thesis using m by (intro that [of u]) auto
qed

text \<open>A client that needs two blocks, and gives the first one back when it does not get the second.\<close>

lemma second_null:
  assumes "ok s" "alloc n s = Some (p, s1)" "p \<noteq> 0" "unat n \<le> 2 ^ 32 - 4" "alloc k s1 = Some (0, s2)"
  obtains t where "release p s2 = Some t" "ok t" "live t = live s"
proof -
  have ok1: "ok s1" "ok s2" using alloc_ok assms(1,2,5) by blast+
  obtain m where m: "(p, m) \<notin> live s" "live s1 = insert (p, m) (live s)" using alloc_block [OF assms(1-4)] by blast
  have "live s2 = live s1" using alloc_null [OF ok1(1) assms(5)] .
  then obtain t where "release p s2 = Some t" "ok t" "live t = live s1 - {(p, m)}"
    using release_block [OF ok1(2), of p m] m(2) by auto
  then show thesis using m by (intro that [of t]) auto
qed

lemma two_blocks:
  assumes "ok s" "alloc n s = Some (p, s1)" "p \<noteq> 0" "unat n \<le> 2 ^ 32 - 4"
    and "alloc k s1 = Some (q, s2)" "q \<noteq> 0" "unat k \<le> 2 ^ 32 - 4"
  obtains a b where "n \<le> a" "k \<le> b" "live s2 = insert (q, b) (insert (p, a) (live s))"
    "(p, a) \<notin> live s" "(q, b) \<notin> insert (p, a) (live s)"
proof -
  have ok1: "ok s1" using alloc_ok assms(1,2) by blast
  obtain a where a: "n \<le> a" "(p, a) \<notin> live s" "live s1 = insert (p, a) (live s)" using alloc_block [OF assms(1-4)] by blast
  obtain b where b: "k \<le> b" "(q, b) \<notin> live s1" "live s2 = insert (q, b) (live s1)"
    using alloc_block [OF ok1 assms(5-7)] by blast
  show thesis using a b by (intro that [of a b]) auto
qed

lemma release_two:
  assumes "ok s" "live s = insert (q, b) (insert (p, a) L)" "(p, a) \<notin> L" "(q, b) \<notin> insert (p, a) L"
  obtains t u where "release q s = Some t" "release p t = Some u" "ok u" "live u = L"
proof -
  obtain t where t: "release q s = Some t" "ok t" "live t = insert (p, a) L"
    using release_block [OF assms(1), of q b] assms(2,4) by auto
  obtain u where "release p t = Some u" "ok u" "live u = L" using release_block [OF t(2), of p a] t(3) assms(3) by auto
  with t(1) show thesis by (rule that)
qed

end

end
