(* ===== verification/Memheap_Live.thy ===== *)
theory Memheap_Live
  imports Memheap_Init Alloc_Interface
begin

text \<open>
  The heap as its callers see it: a state predicate and the set of live blocks, both functions of the
  state alone, and the proof that \<open>rt_memheap_alloc\<close> and \<open>rt_memheap_free\<close> form an allocator.
\<close>

section \<open>Live blocks as a function of the state\<close>

partial_function (option) walk :: "kheap \<Rightarrow> u32 \<Rightarrow> u32 \<Rightarrow> u32 list option" where
  "walk s first a = (if nxt (items s a) = first then Some [a]
     else do { bs \<leftarrow> walk s first (nxt (items s a)); Some (a # bs) })"

declare walk.simps [code]

definition live_blocks :: "kheap \<Rightarrow> u32 \<Rightarrow> (u32 \<times> u32) list" where
  "live_blocks s h = (case walk s (block_list (heaps s h)) (block_list (heaps s h)) of
     None \<Rightarrow> [] | Some bs \<Rightarrow> lives s (butlast bs))"

definition heap_ok :: "u32 \<Rightarrow> kheap \<Rightarrow> bool" where
  "heap_ok h s \<longleftrightarrow> (\<exists>bs fs. heap_inv s h bs fs)"

definition heap_live :: "u32 \<Rightarrow> kheap \<Rightarrow> (u32 \<times> u32) set" where
  "heap_live h s = set (live_blocks s h)"

lemma walk_ring:
  assumes "dl_ring (nx s) (pv s) (p @ a # ys)" "first = hd (p @ a # ys)"
  shows "walk s first a = Some (a # ys)"
  using assms
proof (induction ys arbitrary: p a)
  case Nil
  have "nx s a = first"
    using dl_ring_last(1) [of "nx s" "pv s" "hd (p @ [a])" "tl (p @ [a])"] Nil by (cases p) (auto split: if_splits)
  then show ?case by (subst walk.simps) (simp add: items_proj)
next
  case (Cons b ys)
  have b: "nx s a = b" using dl_ring_next [OF Cons.prems(1)] by simp
  have "b \<noteq> first" using dl_ring_distinct [OF Cons.prems(1)] Cons.prems(2) by (cases p) auto
  moreover have "walk s first b = Some (b # ys)"
    using Cons.IH [of "p @ [a]" b] Cons.prems by (simp add: hd_append)
  ultimately show ?case by (subst walk.simps) (simp add: items_proj b)
qed

lemma heap_live_inv:
  assumes "heap_inv s h bs fs"
  shows "heap_live h s = live s bs"
proof -
  have r: "dl_ring (nx s) (pv s) bs" "block_list (heaps s h) = hd bs" "bs \<noteq> []"
    using assms by (auto simp: heap_inv_def heap_core_def heap_obj_def layout_def)
  then have "walk s (hd bs) (hd bs) = Some bs" using walk_ring [of s "[]" "hd bs" "tl bs"] by simp
  then show ?thesis by (simp add: heap_live_def live_blocks_def live_def r)
qed

section \<open>The blocks do not overlap\<close>

lemma next_block_le:
  assumes "layout h (p @ a # b # ys)" "c \<in> set (p @ a # b # ys)" "unat a < unat c"
  shows "unat b \<le> unat c"
proof -
  have "sorted_wrt (\<lambda>a b. unat a + 36 \<le> unat b) (p @ a # b # ys)"
    using assms(1) by (simp add: layout_def spaced_sorted)
  with assms(2,3) show ?thesis by (auto simp: sorted_wrt_append)
qed

lemma live_block_bounds:
  assumes "heap_core s h bs fs" "(ptr, n) \<in> live s bs"
  obtains p a b ys where "bs = p @ a # b # ys" "is_used s a" "n = MEMITEM_SIZE s a" "ptr = a + 24"
    "unat ptr = unat a + 24" "unat ptr + unat n = unat b" "12 \<le> unat n" "unat b + 24 \<le> 2 ^ 32"
proof -
  obtain a where a: "a \<in> set (butlast bs)" "is_used s a" "ptr = a + 24" "n = MEMITEM_SIZE s a"
    using assms(2) by (auto simp: live_def set_lives)
  obtain p b ys where bs: "bs = p @ a # b # ys" using in_butlast_split [OF a(1)] by blast
  have l: "layout h (p @ a # b # ys)" "dl_ring (nx s) (pv s) (p @ a # b # ys)"
    using assms(1) by (simp_all add: heap_core_def bs)
  note b = layout_block [OF l(1)] and sz = block_size [OF l]
  have "unat ptr = unat a + 24" using b unat_add_u32 [of a 24] by (simp add: a(3))
  moreover have "unat n = unat b - unat a - 24" using sz(3,4) by (simp add: a(4))
  ultimately show thesis using that [OF bs a(2,4,3)] b by simp
qed

lemma live_regions_disjoint:
  assumes "heap_core s h bs fs"
  shows "disjoint_regions (live s bs)"
proof -
  have less: "region (pa, na) \<inter> region (pc, nc) = {}"
    if A: "(pa, na) \<in> live s bs" "(pc, nc) \<in> live s bs" and l: "unat pa < unat pc" for pa na pc nc
  proof -
    obtain p a b ys where a: "bs = p @ a # b # ys" "unat pa = unat a + 24" "unat pa + unat na = unat b"
      using live_block_bounds [OF assms A(1)] by metis
    obtain c where c: "c \<in> set bs" "unat pc = unat c + 24"
      using live_block_bounds [OF assms A(2)] by (metis in_set_conv_decomp)
    have "unat b \<le> unat c"
      using assms a c l next_block_le [of h p a b ys c] by (simp add: heap_core_def)
    then show ?thesis using a c by (auto simp: region_def)
  qed
  show ?thesis
    unfolding disjoint_regions_def
  proof (intro ballI impI)
    fix x y assume xy: "x \<in> live s bs" "y \<in> live s bs" "x \<noteq> y"
    obtain pa na pc nc where eq: "x = (pa, na)" "y = (pc, nc)" by (cases x, cases y) auto
    note B = xy [unfolded eq]
    have "unat pa \<noteq> unat pc"
    proof
      assume "unat pa = unat pc"
      then have "pa = pc" by (simp add: word_unat_eq_iff)
      with live_unique [of h bs pa na s nc] B assms show False by (auto simp: heap_core_def)
    qed
    then consider "unat pa < unat pc" | "unat pc < unat pa" by linarith
    then show "region x \<inter> region y = {}" unfolding eq by cases (use less B in blast)+
  qed
qed

section \<open>The heap is an allocator\<close>

interpretation memheap: allocator "heap_ok h" "heap_live h" "rt_memheap_alloc h" rt_memheap_free
proof
  fix s t :: kheap and n p m :: u32
  assume ok: "heap_ok h s"
  then obtain bs fs where inv: "heap_inv s h bs fs" by (auto simp: heap_ok_def)
  then have core: "heap_core s h bs fs" by (simp add: heap_inv_def)
  have live: "heap_live h s = live s bs" by (rule heap_live_inv [OF inv])
  show "\<exists>p t. rt_memheap_alloc h n s = Some (p, t) \<and> heap_ok h t"
    using inv by (cases rule: alloc_outcome [of s h bs fs n]) (use ok in \<open>auto simp: heap_ok_def\<close>)
  show "heap_live h t = heap_live h s" if "rt_memheap_alloc h n s = Some (0, t)"
    using inv by (cases rule: alloc_outcome [of s h bs fs n]) (use that in auto)
  show "unat p mod 4 = 0" if "rt_memheap_alloc h n s = Some (p, t)"
    using inv by (cases rule: alloc_outcome [of s h bs fs n]) (use that in auto)
  show "\<exists>t. rt_memheap_free p s = Some t \<and> heap_ok h t \<and> heap_live h t = heap_live h s - {(p, m)}"
    if "(p, m) \<in> heap_live h s"
    using free_outcome [OF inv that [unfolded live]] heap_live_inv live unfolding heap_ok_def by metis
  show "disjoint_regions (heap_live h s)" unfolding live by (rule live_regions_disjoint [OF core])
  show "p \<noteq> 0 \<and> 4 \<le> unat p \<and> 0 < unat m \<and> unat p + unat m < 2 ^ 32" if pm: "(p, m) \<in> heap_live h s"
  proof -
    obtain a b :: u32 where "unat p = unat a + 24" "unat p + unat m = unat b" "12 \<le> unat m" "unat b + 24 \<le> 2 ^ 32"
      using live_block_bounds [OF core pm [unfolded live]] by metis
    then show ?thesis by auto
  qed
  show "\<exists>m. n \<le> m \<and> (p, m) \<notin> heap_live h s \<and> heap_live h t = insert (p, m) (heap_live h s)"
    if res: "rt_memheap_alloc h n s = Some (p, t)" "p \<noteq> 0" "unat n \<le> 2 ^ 32 - 4"
    using inv
  proof (cases rule: alloc_outcome [of s h bs fs n])
    case none
    with res show ?thesis by simp
  next
    case (some ptr k u bs' fs')
    with res have eq: "ptr = p" "u = t" by simp_all
    have "n \<le> k" using some(4) request_size_ge [OF res(3)] by (simp add: word_le_nat_alt)
    moreover have "(p, k) \<notin> live s bs"
    proof
      assume "(p, k) \<in> live s bs"
      then obtain a where "is_used s a" "p = a + 24" by (auto simp: live_def set_lives)
      moreover have "\<not> is_used s (p - 24)" using some(7) core by (auto simp: eq heap_core_def)
      ultimately show False by simp
    qed
    ultimately show ?thesis using some(6) heap_live_inv [OF some(5)] live eq by auto
  qed
qed

section \<open>What the operations leave alone\<close>

lemma heap_frame_refl [simp]: "heap_frame h s s"
  by (simp add: heap_frame_def)

lemma alloc_frame:
  assumes "heap_ok h s" "rt_memheap_alloc h n s = Some (p, t)"
  shows "heap_frame h s t"
proof -
  obtain bs fs where "heap_inv s h bs fs" using assms(1) by (auto simp: heap_ok_def)
  then show ?thesis by (cases rule: alloc_outcome [of s h bs fs n]) (use assms(2) in auto)
qed

lemma free_frame:
  assumes "heap_ok h s" "(p, m) \<in> heap_live h s" "rt_memheap_free p s = Some t"
  shows "heap_frame h s t"
proof -
  obtain bs fs where inv: "heap_inv s h bs fs" using assms(1) by (auto simp: heap_ok_def)
  then show ?thesis using free_outcome [OF inv] assms(2,3) heap_live_inv [OF inv] by (metis option.inject)
qed

lemma heap_inv_kmem [simp]: "heap_inv (s\<lparr>kmem := m\<rparr>) h bs fs = heap_inv s h bs fs" "live (s\<lparr>kmem := m\<rparr>) bs = live s bs"
  by (simp_all add: heap_inv_def heap_core_def heap_obj_def marked_def is_used_mg is_memheap_def bsz_def [abs_def]
      live_def set_lives MEMITEM_SIZE_nx)

lemma heap_ok_kmem [simp]: "heap_ok h (s\<lparr>kmem := m\<rparr>) = heap_ok h s"
  by (simp add: heap_ok_def)

lemma heap_live_kmem [simp]: "heap_ok h s \<Longrightarrow> heap_live h (s\<lparr>kmem := m\<rparr>) = heap_live h s"
  by (auto simp: heap_ok_def heap_live_inv)

text \<open>Copying between two live blocks.\<close>

lemma copy_disjoint:
  assumes "region (q, k) \<inter> region (p, k) = {}" "unat p + unat k \<le> 2 ^ 32" "unat q + unat k \<le> 2 ^ 32"
  shows "rt_memcpy m q p k = store_bytes m q (bytes_at m p (unat k))"
proof (cases "k = 0")
  case True
  then show ?thesis using rt_memcpy_copied [of q p k m] by (simp add: no_clobber_def copied_def)
next
  case False
  then have "0 < unat k" by (simp add: unat_gt_0)
  then have "unat p \<in> region (p, k)" "unat q \<in> region (q, k)" by (simp_all add: region_def)
  then have "q \<le> p \<or> unat p + unat k \<le> unat q" using assms(1) by (auto simp: region_def word_le_nat_alt)
  then show ?thesis using rt_memcpy_copied [OF no_clobber_intro [OF assms(2,3)]] by (simp add: copied_def)
qed

end
