(* ===== verification/Memheap_Realloc.thy ===== *)
theory Memheap_Realloc
  imports Memheap_Live
begin

text \<open>Changing the size of a block: cutting off its end, taking room from the free block behind it, or moving it.\<close>

lemma free_list_insert_available:
  "free_list_insert h n (set_available h v s) = set_available h v (free_list_insert h n s)"
  by (simp add: free_list_insert_def upd_item_def upd_heap_def Let_def)

lemma free_list_insert_keeps [simp]: "heaps (free_list_insert h n s) = heaps s" "nx (free_list_insert h n s) = nx s"
  by (simp_all add: free_list_insert_def Let_def items_proj)

lemma core_distinct: "heap_core s h bs fs \<Longrightarrow> distinct bs"
  unfolding heap_core_def by (blast dest: dl_ring_distinct)

section \<open>Shrinking\<close>

text \<open>The state after a new free header \<open>n\<close> was put into the used block \<open>a\<close>.\<close>

lemma cut_used:
  assumes core: "heap_core s h (p @ a # b # ys) fs" and used: "is_used s a"
    and n: "unat a + 36 \<le> unat n" "unat n + 36 \<le> unat b" "unat n mod 4 = 0"
    and t: "t = block_insert a n (set_pool n h (set_magic n 0x1ea01ea0 s))"
  shows "layout h (p @ a # n # b # ys)" "dl_ring (nx t) (pv t) (p @ a # n # b # ys)"
    "nx t = (nx s)(n := b, a := n)" "nf t = nf s" "pf t = pf s" "mg t = (mg s)(n := 0x1ea01ea0)" "pp t = (pp s)(n := h)"
    "heaps t = heaps s" "objs t = objs s" "kmem t = kmem s"
    "n \<notin> set (p @ a # b # ys)" "n \<noteq> free_header h"
proof -
  let ?bs = "p @ a # b # ys" and ?s1 = "set_pool n h (set_magic n 0x1ea01ea0 s)"
  have l: "layout h ?bs" and r: "dl_ring (nx s) (pv s) ?bs" using core by (simp_all add: heap_core_def)
  show "layout h (p @ a # n # b # ys)" using layout_split [OF l n] .
  show fresh: "n \<notin> set ?bs" "n \<noteq> free_header h" using layout_fresh [OF l, of n] n by auto
  have p1: "nx ?s1 = nx s" "pv ?s1 = pv s" "nf ?s1 = nf s" "pf ?s1 = pf s" "mg ?s1 = (mg s)(n := 0x1ea01ea0)"
    "pp ?s1 = (pp s)(n := h)" "heaps ?s1 = heaps s" "objs ?s1 = objs s" "kmem ?s1 = kmem s"
    by (simp_all add: items_proj)
  have "dl_ring (nx ?s1) (pv ?s1) ?bs" using r unfolding p1 .
  note b = block_insert_ring [OF this fresh(1) t]
  show "dl_ring (nx t) (pv t) (p @ a # n # b # ys)" by (fact b(1))
  show "nx t = (nx s)(n := b, a := n)" "nf t = nf s" "pf t = pf s" by (simp_all only: b(2-4) p1)
  show "mg t = (mg s)(n := 0x1ea01ea0)" "pp t = (pp s)(n := h)" "heaps t = heaps s" "objs t = objs s" "kmem t = kmem s"
    using b(5) unfolding same_rest_def p1 by simp_all
qed

lemma cut_used_sums:
  assumes core: "heap_core s h (p @ a # b # ys) fs" and used: "is_used s a"
    and n: "n \<notin> set (p @ a # b # ys)"
    and t: "nx t = (nx s)(n := b, a := n)" "mg t = (mg s)(n := 0x1ea01ea0)" "pp t = (pp s)(n := h)"
  shows "unused t (p @ a # n # b # ys) = insert n (unused s (p @ a # b # ys))"
    "sum (bsz t) (unused t (p @ a # n # b # ys)) = bsz t n + sum (bsz s) (unused s (p @ a # b # ys))"
    "live t (p @ a # n # b # ys) = insert (a + 24, MEMITEM_SIZE t a) (live s (p @ a # b # ys) - {(a + 24, MEMITEM_SIZE s a)})"
    "\<And>x. x \<noteq> n \<Longrightarrow> is_used t x = is_used s x" "\<not> is_used t n"
proof -
  let ?bs = "p @ a # b # ys"
  have d: "distinct ?bs" by (rule core_distinct [OF core])
  have mk: "marks s t {n, a}" and nxo: "\<And>x. x \<notin> {n, a} \<Longrightarrow> nx t x = nx s x" by (simp_all add: marks_def t)
  show uo: "is_used t x = is_used s x" if "x \<noteq> n" for x using that by (simp add: is_used_mg t)
  show un: "\<not> is_used t n" by (simp add: is_used_mg t)
  have "\<not> is_used t x \<longleftrightarrow> x = n \<or> \<not> is_used s x" if "x \<in> insert n (set ?bs)" for x using un uo [of x] by auto
  then show u: "unused t (p @ a # n # b # ys) = insert n (unused s ?bs)" by auto
  have "sum (bsz t) (unused s ?bs) = sum (bsz s) (unused s ?bs)"
    using n used by (intro sum.cong refl bsz_cong) (auto simp: t)
  moreover have "n \<notin> unused s ?bs" using n by blast
  ultimately show "sum (bsz t) (unused t (p @ a # n # b # ys)) = bsz t n + sum (bsz s) (unused s ?bs)"
    unfolding u by simp
  have out: "set p \<inter> {n, a} = {}" "set (b # ys) \<inter> {n, a} = {}" using d n by auto
  have "lives t p = lives s p" "lives t (butlast (b # ys)) = lives s (butlast (b # ys))"
    by (rule lives_cong [OF mk nxo out(1)] lives_butlast_cong [OF mk nxo out(2)], assumption)+
  moreover have "(a + 24, MEMITEM_SIZE s a) \<notin> set (lives s p)" "(a + 24, MEMITEM_SIZE s a) \<notin> set (lives s (butlast (b # ys)))"
    using d by (auto simp: set_lives dest: in_set_butlastD)
  moreover have "is_used t a" "is_used s a" using uo [of a] used n by auto
  ultimately show "live t (p @ a # n # b # ys) = insert (a + 24, MEMITEM_SIZE t a) (live s ?bs - {(a + 24, MEMITEM_SIZE s a)})"
    using un butlast_cut [of "[]" n b ys] by (auto simp: live_def simp del: butlast.simps)
qed

text \<open>A cut heap in which the new free block is counted is open around that block.\<close>

lemma cut_open:
  assumes core: "heap_core s h (p @ a # b # ys) fs" and used: "is_used s a" and n: "n \<notin> set (p @ a # b # ys)"
    and l: "layout h (p @ a # n # c # zs)" and tail: "set (c # zs) \<subseteq> set (b # ys)" "last (c # zs) = last (b # ys)"
      "coalesced s (c # zs)"
    and u: "mg u = (mg s)(n := 0x1ea01ea0)" "pp u = (pp s)(n := h)"
      "heap_obj u h (p @ a # b # ys)" "available_size (heaps u h) = v"
      "dl_ring (nx u) (pv u) (p @ a # n # c # zs)" "dl_ring (nf u) (pf u) (free_header h # gs)"
    and gs: "set gs = unused u (p @ a # n # c # zs) - {n}"
    and v: "unat v = sum (bsz u) (unused u (p @ a # n # c # zs))"
  shows "heap_open u h (p @ [a]) n c zs gs False" "left_used u (p @ [a])"
proof -
  have m: "marked s h (p @ a # b # ys)" using core by (simp add: heap_core_def)
  have mk: "marks s u {n}" by (simp add: marks_def u)
  have uo: "is_used u x = is_used s x" if "x \<noteq> n" for x using marks_used [OF mk] that by simp
  have an: "a \<noteq> n" using n by auto
  then show "left_used u (p @ [a])" using uo used by simp
  have cz: "n \<notin> set (c # zs)" using n tail(1) by auto
  then have lz: "last (c # zs) \<noteq> n" by (metis last_in_set list.distinct(1))
  have "coalesced u (p @ [a])" "coalesced u (c # zs)"
    using m n cz tail(3) coalesced_marks [OF mk, of "p @ [a]"] coalesced_marks [OF mk, of "c # zs"]
    by (auto simp: marked_alt coalesced_append coalesced_Cons)
  moreover have "is_used u (last (c # zs))" using m tail(2) uo [OF lz] by (simp add: marked_alt)
  moreover have "\<not> is_used u n" by (simp add: is_used_mg u)
  moreover have "heap_obj u h (p @ a # n # c # zs)"
    by (rule heap_obj_cong [OF u(3)]) (use tail(2) in \<open>auto simp: hd_append\<close>)
  moreover have "\<forall>x\<in>set (p @ a # n # c # zs). mg u x \<in> {0x1ea01ea0, 0x1ea01ea1} \<and> pp u x = h"
    using m tail(1) by (auto simp: marked_alt u)
  ultimately show "heap_open u h (p @ [a]) n c zs gs False"
    unfolding heap_open_def using l u gs v by simp
qed

text \<open>The two ways to continue after the cut: the block behind is used, or it is free and joins the new one.\<close>

lemma cut_counts:
  assumes core: "heap_core s h (p @ a # b # ys) fs" and used: "is_used s a"
    and n: "unat a + 36 \<le> unat n" "unat n + 36 \<le> unat b" "unat n mod 4 = 0"
    and t: "t = block_insert a n (set_pool n h (set_magic n 0x1ea01ea0 s))"
  shows "is_used t (last (p @ a # n # b # ys))" "sum (bsz t) (unused t (p @ a # n # b # ys)) < 2 ^ 32"
    "unat (MEMITEM_SIZE t n) = bsz t n" "nx t n = b" "MEMITEM_SIZE t a = n - a - 24"
proof -
  note c2 = cut_used [OF core used n t]
  note c3 = cut_used_sums [OF core used c2(11,3,6,7)]
  have "last (b # ys) \<in> set (b # ys)" by (rule last_in_set) simp
  then have "last (b # ys) \<noteq> n" using c2(11) by auto
  then show lastu: "is_used t (last (p @ a # n # b # ys))" using core c3(4) by (simp add: heap_core_def marked_alt)
  show "sum (bsz t) (unused t (p @ a # n # b # ys)) < 2 ^ 32"
    by (rule sum_bsz_less [OF c2(1,2)]) (rule unused_butlast [OF lastu], simp)
  show "unat (MEMITEM_SIZE t n) = bsz t n" using block_size(4) [of h "p @ [a]" n b ys t] c2(1,2) by simp
  show "nx t n = b" "MEMITEM_SIZE t a = n - a - 24" using c2(11) by (auto simp: c2(3) MEMITEM_SIZE_nx)
qed

lemma cut_next_used:
  assumes core: "heap_core s h (p @ a # b # ys) fs" and used: "is_used s a"
    and n: "unat a + 36 \<le> unat n" "unat n + 36 \<le> unat b" "unat n mod 4 = 0"
    and s2: "s2 = block_insert a n (set_pool n h (set_magic n 0x1ea01ea0 s))"
    and b: "is_used s b"
    and v: "v = available_size (heaps s2 h) + MEMITEM_SIZE s2 n" and u: "u = set_available h v s2"
  shows "heap_open u h (p @ [a]) n b ys fs False" "left_used u (p @ [a])" "is_used u b"
    "live u (p @ a # n # b # ys) = live s2 (p @ a # n # b # ys)" "framed h s u"
proof -
  note c2 = cut_used [OF core used n s2] and c4 = cut_counts [OF core used n s2]
  note c3 = cut_used_sums [OF core used c2(11,3,6,7)]
  have m: "marked s h (p @ a # b # ys)" and f: "dl_ring (nf s) (pf s) (free_header h # fs)"
    and fset: "set fs = unused s (p @ a # b # ys)" using core by (simp_all add: heap_core_def)
  have pu: "mg u = mg s2" "pp u = pp s2" "nx u = nx s2" "pv u = pv s2" "nf u = nf s2" "pf u = pf s2"
    "heaps u = (heaps s2)(h := (heaps s2 h)\<lparr>available_size := v\<rparr>)" by (simp_all add: u)
  have uu: "is_used u = is_used s2" "bsz u = bsz s2" by (simp_all add: fun_eq_iff is_used_mg bsz_def pu)
  have "unat v = sum (bsz s2) (unused s2 (p @ a # n # b # ys))"
    using unat_add_fits [of "available_size (heaps s2 h)" "MEMITEM_SIZE s2 n"] c4(2,3) core_sum [OF core] c3(2)
    by (simp add: v c2(8))
  then have sum: "unat v = sum (bsz u) (unused u (p @ a # n # b # ys))" by (simp add: uu)
  have gs: "set fs = unused u (p @ a # n # b # ys) - {n}" using fset c3(1) c2(11) by (simp add: uu)
  have co: "coalesced s (b # ys)" using m by (simp add: marked_alt coalesced_append coalesced_Cons)
  have ru: "dl_ring (nx u) (pv u) (p @ a # n # b # ys)" "dl_ring (nf u) (pf u) (free_header h # fs)"
    using c2 f by (simp_all add: pu)
  have mu: "mg u = (mg s)(n := 0x1ea01ea0)" "pp u = (pp s)(n := h)"
    "available_size (heaps u h) = v" by (simp_all add: pu c2)
  have ob: "heap_obj u h (p @ a # b # ys)" by (rule heap_obj_cong [of s]) (use core in \<open>auto simp: heap_core_def u c2\<close>)
  show "heap_open u h (p @ [a]) n b ys fs False" "left_used u (p @ [a])"
    by (rule cut_open [OF core used c2(11,1) _ _ co mu(1,2) ob mu(3) ru gs sum]; simp)+
  show "is_used u b" using b c3(4) [of b] c2(11) by (auto simp: uu)
  show "live u (p @ a # n # b # ys) = live s2 (p @ a # n # b # ys)"
    by (simp add: live_def set_lives uu MEMITEM_SIZE_nx pu)
  show "framed h s u" by (simp add: framed_def u c2)
qed

text \<open>The free block behind is taken out of the free list and of the count, then joined.\<close>

lemma cut_join_state:
  assumes core: "heap_core s h (p @ a # b # c # zs) (us @ b # vs)" and used: "is_used s a"
    and n: "unat a + 36 \<le> unat n" "unat n + 36 \<le> unat b" "unat n mod 4 = 0"
    and s2: "s2 = block_insert a n (set_pool n h (set_magic n 0x1ea01ea0 s))"
    and s3: "s3 = free_list_remove b (set_nxt n c (set_prv c n
      (set_available h (available_size (heaps s2 h) - MEMITEM_SIZE s2 b) s2)))"
  shows "nx s3 = (nx s2)(n := c)" "pv s3 = (pv s2)(c := n)" "mg s3 = mg s2" "pp s3 = pp s2"
    "objs s3 = objs s2" "kmem s3 = kmem s2"
    "heaps s3 = (heaps s2)(h := (heaps s2 h)\<lparr>available_size := available_size (heaps s2 h) - MEMITEM_SIZE s2 b\<rparr>)"
    "dl_ring (nf s3) (pf s3) (free_header h # us @ vs)"
proof -
  note c2 = cut_used [OF core used n s2]
  have f: "dl_ring (nf s) (pf s) (free_header h # us @ b # vs)" using core by (simp add: heap_core_def)
  have d: "distinct (p @ a # n # b # c # zs)" using dl_ring_distinct [OF c2(2)] .
  let ?w = "set_nxt n c (set_prv c n (set_available h (available_size (heaps s2 h) - MEMITEM_SIZE s2 b) s2))"
  have pw: "nx ?w = (nx s2)(n := c)" "pv ?w = (pv s2)(c := n)" "nf ?w = nf s2" "pf ?w = pf s2" "mg ?w = mg s2"
    "pp ?w = pp s2" "objs ?w = objs s2" "kmem ?w = kmem s2"
    "heaps ?w = (heaps s2)(h := (heaps s2 h)\<lparr>available_size := available_size (heaps s2 h) - MEMITEM_SIZE s2 b\<rparr>)"
    using d by (auto simp: items_proj fun_eq_iff)
  have "dl_ring (nf ?w) (pf ?w) (free_header h # us @ b # vs)" using f unfolding pw c2(4,5) .
  note rm = free_list_remove_ring [OF this s3]
  show "nx s3 = (nx s2)(n := c)" "pv s3 = (pv s2)(c := n)" "mg s3 = mg s2" "pp s3 = pp s2"
    "objs s3 = objs s2" "kmem s3 = kmem s2"
    "heaps s3 = (heaps s2)(h := (heaps s2 h)\<lparr>available_size := available_size (heaps s2 h) - MEMITEM_SIZE s2 b\<rparr>)"
    using rm(2-4) unfolding same_rest_def pw by simp_all
  show "dl_ring (nf s3) (pf s3) (free_header h # us @ vs)" by (fact rm(1))
qed

lemma cut_join_count:
  assumes core: "heap_core s h (p @ a # b # c # zs) (us @ b # vs)" and used: "is_used s a"
    and n: "unat a + 36 \<le> unat n" "unat n + 36 \<le> unat b" "unat n mod 4 = 0"
    and s2: "s2 = block_insert a n (set_pool n h (set_magic n 0x1ea01ea0 s))"
    and s3: "s3 = free_list_remove b (set_nxt n c (set_prv c n
      (set_available h (available_size (heaps s2 h) - MEMITEM_SIZE s2 b) s2)))"
    and b: "\<not> is_used s b"
  shows "unat (available_size (heaps s3 h) + MEMITEM_SIZE s3 n) = sum (bsz s3) (unused s3 (p @ a # n # c # zs))"
    "dl_ring (nx s3) (pv s3) (p @ a # n # c # zs)" "layout h (p @ a # n # c # zs)"
    "unused s3 (p @ a # n # c # zs) = insert n (unused s (p @ a # b # c # zs)) - {b}"
    "live s3 (p @ a # n # c # zs) = live s2 (p @ a # n # b # c # zs)"
proof -
  note c2 = cut_used [OF core used n s2] and c4 = cut_counts [OF core used n s2]
  note c3 = cut_used_sums [OF core used c2(11,3,6,7)] and p3 = cut_join_state [OF core used n s2 s3]
  have l2: "layout h ((p @ [a]) @ n # b # c # zs)" and r2: "dl_ring (nx s2) (pv s2) ((p @ [a]) @ n # b # c # zs)"
    using c2(1,2) by simp_all
  have b2: "\<not> is_used s2 b" using b c3(4) [of b] c2(11) by auto
  note j = join_blocks [OF l2 r2 c3(5) b2 p3(1-4)]
  show rs: "dl_ring (nx s3) (pv s3) (p @ a # n # c # zs)" using j(1) by simp
  show l3: "layout h (p @ a # n # c # zs)" using layout_join [OF l2] by simp
  show "unused s3 (p @ a # n # c # zs) = insert n (unused s (p @ a # b # c # zs)) - {b}" using j(2) c3(1) by simp
  show "live s3 (p @ a # n # c # zs) = live s2 (p @ a # n # b # c # zs)" using j(4) by simp
  have "is_used s3 (last (p @ a # n # c # zs))" using c4(1) by (simp add: is_used_mg p3)
  then have less: "sum (bsz s3) (unused s3 (p @ a # n # c # zs)) < 2 ^ 32"
    by (intro sum_bsz_less [OF l3 rs] unused_butlast) auto
  have sp: "unat n + 36 \<le> unat b" "unat b + 36 \<le> unat c"
    using layout_block(1) [OF l2] layout_block(1) [of h "p @ [a, n]" b c zs] l2 by auto
  have mb: "unat (MEMITEM_SIZE s2 b) = bsz s2 b" "nx s2 b = c"
    using block_size [of h "p @ [a, n]" b c zs s2] l2 r2 by simp_all
  have mn: "unat (MEMITEM_SIZE s3 n) = bsz s3 n" using block_size(4) [of h "p @ [a]" n c zs s3] l3 rs by simp
  have "bsz s3 n = bsz s2 n + bsz s2 b + 24" using sp by (simp add: bsz_def p3 c4(4) mb(2))
  moreover have "bsz s2 b \<le> unat (available_size (heaps s2 h))"
  proof -
    have "b \<noteq> a" "b \<noteq> n" using dl_ring_distinct [OF r2] by auto
    then have "bsz s2 b = bsz s b" by (intro bsz_cong) (simp add: c2(3))
    also have "\<dots> \<le> sum (bsz s) (unused s (p @ a # b # c # zs))" using b by (intro member_le_sum) auto
    finally show ?thesis by (simp add: c2 core_sum [OF core])
  qed
  moreover have "sum (bsz s3) (unused s3 (p @ a # n # c # zs)) = bsz s2 n + unat (available_size (heaps s2 h)) + 24"
    using j(3) c3(2) core_sum [OF core] by (simp add: c2)
  ultimately show "unat (available_size (heaps s3 h) + MEMITEM_SIZE s3 n) = sum (bsz s3) (unused s3 (p @ a # n # c # zs))"
    using unat_add_fits [of "available_size (heaps s3 h)" "MEMITEM_SIZE s3 n"] less mb mn
      unat_minus_le [of "MEMITEM_SIZE s2 b" "available_size (heaps s2 h)"]
    by (simp add: p3)
qed

lemma cut_next_free:
  assumes core: "heap_core s h (p @ a # b # c # zs) (us @ b # vs)" and used: "is_used s a"
    and n: "unat a + 36 \<le> unat n" "unat n + 36 \<le> unat b" "unat n mod 4 = 0"
    and s2: "s2 = block_insert a n (set_pool n h (set_magic n 0x1ea01ea0 s))"
    and s3: "s3 = free_list_remove b (set_nxt n c (set_prv c n
      (set_available h (available_size (heaps s2 h) - MEMITEM_SIZE s2 b) s2)))"
    and b: "\<not> is_used s b"
    and v: "v = available_size (heaps s3 h) + MEMITEM_SIZE s3 n" and u: "u = set_available h v s3"
  shows "heap_open u h (p @ [a]) n c zs (us @ vs) False" "left_used u (p @ [a])" "is_used u c"
    "live u (p @ a # n # c # zs) = live s2 (p @ a # n # b # c # zs)" "framed h s u"
proof -
  note c2 = cut_used [OF core used n s2] and p3 = cut_join_state [OF core used n s2 s3]
  note k = cut_join_count [OF core used n s2 s3 b]
  have m: "marked s h (p @ a # b # c # zs)" and f: "dl_ring (nf s) (pf s) (free_header h # us @ b # vs)"
    and fset: "set (us @ b # vs) = unused s (p @ a # b # c # zs)" using core by (simp_all add: heap_core_def)
  have pu: "mg u = mg s3" "pp u = pp s3" "nx u = nx s3" "pv u = pv s3" "nf u = nf s3" "pf u = pf s3" by (simp_all add: u)
  have mu: "mg u = (mg s)(n := 0x1ea01ea0)" "pp u = (pp s)(n := h)"
    "available_size (heaps u h) = v" by (simp_all add: u p3 c2)
  have ob: "heap_obj u h (p @ a # b # c # zs)" by (rule heap_obj_cong [of s]) (use core in \<open>auto simp: heap_core_def u p3 c2\<close>)
  have uu: "is_used u = is_used s3" "bsz u = bsz s3" by (simp_all add: fun_eq_iff is_used_mg bsz_def pu)
  have sum: "unat v = sum (bsz u) (unused u (p @ a # n # c # zs))" using k(1) by (simp add: uu v)
  have ru: "dl_ring (nx u) (pv u) (p @ a # n # c # zs)" "dl_ring (nf u) (pf u) (free_header h # us @ vs)"
    using k(2) p3(8) by (simp_all add: pu)
  have gs: "set (us @ vs) = unused u (p @ a # n # c # zs) - {n}"
  proof -
    have "set (us @ vs) = unused s (p @ a # b # c # zs) - {b}" using fset dl_ring_distinct [OF f] by auto
    moreover have "unused u (p @ a # n # c # zs) = insert n (unused s (p @ a # b # c # zs)) - {b}"
      unfolding uu by (rule k(4))
    ultimately show ?thesis using c2(11) by auto
  qed
  have co: "coalesced s (c # zs)" "is_used s c" using m b by (simp_all add: marked_alt coalesced_append coalesced_Cons)
  show "heap_open u h (p @ [a]) n c zs (us @ vs) False" "left_used u (p @ [a])"
    by (rule cut_open [OF core used c2(11) k(3) _ _ co(1) mu(1,2) ob mu(3) ru gs sum]; auto)+
  have "c \<noteq> n" using c2(11) by auto
  then show "is_used u c" using co(2) by (simp add: is_used_mg mu)
  have "live u (p @ a # n # c # zs) = live s3 (p @ a # n # c # zs)"
    by (simp add: live_def set_lives uu MEMITEM_SIZE_nx pu)
  then show "live u (p @ a # n # c # zs) = live s2 (p @ a # n # b # c # zs)" using k(5) by simp
  show "framed h s u" by (simp add: framed_def u p3 c2)
qed

lemma shrink_block_core:
  assumes core: "heap_core s h (p @ a # b # ys) fs" and used: "is_used s a"
    and sz: "unat newsize mod 4 = 0" "12 \<le> unat newsize" "unat newsize + 36 \<le> bsz s a"
    and t: "t = shrink_block h a newsize s"
  obtains bs' fs' where "heap_core t h bs' fs'"
    "live t bs' = insert (a + 24, newsize) (live s (p @ a # b # ys) - {(a + 24, MEMITEM_SIZE s a)})" "framed h s t"
proof -
  let ?bs = "p @ a # b # ys"
  define n where "n = a + newsize + 24"
  have l: "layout h ?bs" and r: "dl_ring (nx s) (pv s) ?bs" and m: "marked s h ?bs"
    and fset: "set fs = unused s ?bs" using core by (simp_all add: heap_core_def)
  note lb = layout_block [OF l] and bz = block_size [OF l r]
  have un: "unat n = unat a + unat newsize + 24"
    using lb bz(3) sz(3) unfolding n_def by (intro unat_plus_small) simp
  have n: "unat a + 36 \<le> unat n" "unat n + 36 \<le> unat b" "unat n mod 4 = 0"
    using un sz lb bz(3) by (auto simp: mod_add_eq [symmetric])
  define s2 where "s2 = block_insert a n (set_pool n h (set_magic n 0x1ea01ea0 s))"
  note c2 = cut_used [OF core used n s2_def] and c4 = cut_counts [OF core used n s2_def]
  note c3 = cut_used_sums [OF core used c2(11,3,6,7)]
  have ub: "is_used s2 b = is_used s b" using c3(4) [of b] c2(11) by auto
  obtain u c zs gs where o: "heap_open u h (p @ [a]) n c zs gs False" "left_used u (p @ [a])" "is_used u c"
    and lv: "live u (p @ a # n # c # zs) = live s2 (p @ a # n # b # ys)" and fr: "framed h s u"
    and res: "t = free_list_insert h n u"
  proof (cases "is_used s b")
    case True
    note q = cut_next_used [OF core used n s2_def True refl refl]
    have "t = free_list_insert h n (set_available h (available_size (heaps s2 h) + MEMITEM_SIZE s2 n) s2)"
      using True by (simp add: t shrink_block_def Let_def n_def [symmetric] s2_def [symmetric] items_proj c4(4) ub
          free_list_insert_available MEMITEM_SIZE_nx)
    with q show thesis by (rule that)
  next
    case False
    then obtain c zs where ys: "ys = c # zs" using m by (cases ys) (auto simp: marked_alt)
    have "b \<in> set fs" using fset False by simp
    then obtain us vs where fs: "fs = us @ b # vs" by (auto simp: in_set_conv_decomp)
    note core' = core [unfolded ys fs]
    define s3 where "s3 = free_list_remove b (set_nxt n c (set_prv c n
      (set_available h (available_size (heaps s2 h) - MEMITEM_SIZE s2 b) s2)))"
    note q = cut_next_free [OF core' used n s2_def s3_def False refl refl]
    have nc: "nx s2 b = c" using dl_ring_next(1) [of "nx s2" "pv s2" "p @ [a, n]" b c zs] c2(2) by (simp add: ys)
    have d: "c \<noteq> b" "n \<noteq> b" using dl_ring_distinct [OF c2(2)] by (auto simp: ys)
    have "t = free_list_insert h n (set_available h (available_size (heaps s3 h) + MEMITEM_SIZE s3 n) s3)"
      using False d by (simp add: t shrink_block_def Let_def n_def [symmetric] s2_def [symmetric] items_proj c4(4) ub nc
          s3_def free_list_insert_available MEMITEM_SIZE_nx)
    with q show thesis by (rule that [unfolded ys])
  qed
  have "t = (if False then u else free_list_insert h n u)" using res by simp
  from close_open [OF o this] obtain fs' where "heap_core t h ((p @ [a]) @ n # c # zs) fs'"
    "live t ((p @ [a]) @ n # c # zs) = live u ((p @ [a]) @ n # c # zs)" "framed h u t" .
  then show thesis using that [of "p @ a # n # c # zs" fs'] lv c3(3) c4(5) framed_trans [OF fr] by (simp add: n_def)
qed

section \<open>Growing in place\<close>

lemma grow_state:
  assumes core: "heap_core s h (p @ a # b # c # zs) (us @ b # vs)"
    and n: "n \<notin> set (p @ a # b # c # zs)"
    and s1: "s1 = account_use h v s" and s2: "s2 = free_list_remove b s1"
    and s6: "s6 = block_insert a n (set_pool n h (set_magic n 0x1ea01ea0 (set_nxt a c (set_prv c a s2))))"
  shows "nx s6 = (nx s)(n := c, a := n)" "dl_ring (nx s6) (pv s6) (p @ a # n # c # zs)"
    "dl_ring (nf s6) (pf s6) (free_header h # us @ vs)" "mg s6 = (mg s)(n := 0x1ea01ea0)" "pp s6 = (pp s)(n := h)"
    "heaps s6 = heaps s1" "objs s6 = objs s" "kmem s6 = kmem s"
proof -
  have r: "dl_ring (nx s) (pv s) (p @ a # b # c # zs)" and f: "dl_ring (nf s) (pf s) (free_header h # us @ b # vs)"
    using core by (simp_all add: heap_core_def)
  have d: "distinct (p @ a # b # c # zs)" using dl_ring_distinct [OF r] .
  have nb: "nx s b = c" using dl_ring_next(1) [of "nx s" "pv s" "p @ [a]" b c zs] r by simp
  have "dl_ring (nf s1) (pf s1) (free_header h # us @ b # vs)" using f by (simp add: s1 account_use_proj)
  note rm = free_list_remove_ring [OF this s2]
  define s5 where "s5 = set_pool n h (set_magic n 0x1ea01ea0 (set_nxt a c (set_prv c a s2)))"
  have p5: "nx s5 = (nx s)(a := c)" "pv s5 = (pv s)(c := a)" "nf s5 = nf s2" "pf s5 = pf s2"
    "mg s5 = (mg s)(n := 0x1ea01ea0)" "pp s5 = (pp s)(n := h)" "heaps s5 = heaps s1" "objs s5 = objs s" "kmem s5 = kmem s"
    using rm(2-4) d n by (auto simp: s5_def items_proj same_rest_def s1 account_use_proj fun_eq_iff)
  have r5: "dl_ring (nx s5) (pv s5) (p @ a # c # zs)" using dl_ring_remove [OF r refl] by (simp add: p5 nb)
  have "n \<notin> set (p @ a # c # zs)" using n by simp
  note b = block_insert_ring [OF r5 this s6 [folded s5_def]]
  show "nx s6 = (nx s)(n := c, a := n)" using b(2) n by (auto simp: p5 fun_eq_iff)
  show "dl_ring (nx s6) (pv s6) (p @ a # n # c # zs)" by (fact b(1))
  show "dl_ring (nf s6) (pf s6) (free_header h # us @ vs)" using rm(1) by (simp add: b p5)
  show "mg s6 = (mg s)(n := 0x1ea01ea0)" "pp s6 = (pp s)(n := h)" "heaps s6 = heaps s1" "objs s6 = objs s" "kmem s6 = kmem s"
    using b(5) unfolding same_rest_def p5 by simp_all
qed

lemma grow_sums:
  assumes core: "heap_core s h (p @ a # b # c # zs) (us @ b # vs)" and used: "is_used s a" "\<not> is_used s b"
    and n: "n \<notin> set (p @ a # b # c # zs)"
    and t: "nx t = (nx s)(n := c, a := n)" "mg t = (mg s)(n := 0x1ea01ea0)" "pp t = (pp s)(n := h)"
  shows "unused t (p @ a # n # c # zs) = insert n (unused s (p @ a # b # c # zs) - {b})"
    "sum (bsz t) (unused t (p @ a # n # c # zs)) + bsz s b = bsz t n + sum (bsz s) (unused s (p @ a # b # c # zs))"
    "live t (p @ a # n # c # zs) = insert (a + 24, MEMITEM_SIZE t a) (live s (p @ a # b # c # zs) - {(a + 24, MEMITEM_SIZE s a)})"
proof -
  let ?bs = "p @ a # b # c # zs"
  have d: "distinct ?bs" by (rule core_distinct [OF core])
  have mk: "marks s t {n, a}" and nxo: "\<And>x. x \<notin> {n, a} \<Longrightarrow> nx t x = nx s x" by (simp_all add: marks_def t)
  have uo: "is_used t x = is_used s x" if "x \<noteq> n" for x using that by (simp add: is_used_mg t)
  have un: "\<not> is_used t n" by (simp add: is_used_mg t)
  have "\<not> is_used t x \<longleftrightarrow> x = n \<or> \<not> is_used s x" for x using un uo [of x] by auto
  then show u: "unused t (p @ a # n # c # zs) = insert n (unused s ?bs - {b})" using d by auto
  have "sum (bsz t) (unused s ?bs - {b}) = sum (bsz s) (unused s ?bs - {b})"
    using n used by (intro sum.cong refl bsz_cong) (auto simp: t)
  moreover have "n \<notin> unused s ?bs - {b}" using n by blast
  moreover have "sum (bsz s) (unused s ?bs) = bsz s b + sum (bsz s) (unused s ?bs - {b})"
    using used(2) by (intro sum.remove) auto
  ultimately show "sum (bsz t) (unused t (p @ a # n # c # zs)) + bsz s b = bsz t n + sum (bsz s) (unused s ?bs)"
    unfolding u by simp
  have out: "set p \<inter> {n, a} = {}" "set (c # zs) \<inter> {n, a} = {}" using d n by auto
  have "lives t p = lives s p" "lives t (butlast (c # zs)) = lives s (butlast (c # zs))"
    by (rule lives_cong [OF mk nxo out(1)] lives_butlast_cong [OF mk nxo out(2)], assumption)+
  moreover have "(a + 24, MEMITEM_SIZE s a) \<notin> set (lives s p)" "(a + 24, MEMITEM_SIZE s a) \<notin> set (lives s (butlast (c # zs)))"
    using d by (auto simp: set_lives dest: in_set_butlastD)
  moreover have "is_used t a" "is_used s a" using uo [of a] used n by auto
  ultimately show "live t (p @ a # n # c # zs) = insert (a + 24, MEMITEM_SIZE t a) (live s ?bs - {(a + 24, MEMITEM_SIZE s a)})"
    using un used butlast_cut [of "[]" n c zs] butlast_cut [of "[]" b c zs] by (auto simp: live_def simp del: butlast.simps)
qed

text \<open>Where the new header goes, and what it makes of the sizes.\<close>

lemma grow_place:
  assumes core: "heap_core s h (p @ a # b # c # zs) (us @ b # vs)"
    and sz: "unat newsize mod 4 = 0" "bsz s a < unat newsize" "unat newsize + 12 \<le> bsz s a + bsz s b"
    and n: "n = a + 24 + newsize"
  shows "n \<notin> set (p @ a # b # c # zs)" "layout h (p @ a # n # c # zs)"
    "nx t n = c \<Longrightarrow> bsz t n + unat newsize = bsz s a + bsz s b"
proof -
  let ?bs = "p @ a # b # c # zs"
  have l: "layout h ?bs" "layout h ((p @ [a]) @ b # c # zs)" and r: "dl_ring (nx s) (pv s) ?bs" "dl_ring (nx s) (pv s) ((p @ [a]) @ b # c # zs)"
    using core by (simp_all add: heap_core_def)
  note lb = layout_block [OF l(1)] and bz = block_size [OF l(1) r(1)]
    and lc = layout_block [OF l(2)] and cz = block_size [OF l(2) r(2)]
  have "unat (a + newsize + 24) = unat a + unat newsize + 24"
    using lb lc bz(3) cz(3) sz(3) by (intro unat_plus_small) simp
  then have un: "unat n = unat a + unat newsize + 24" by (simp add: n algebra_simps)
  have nn: "unat b < unat n" "unat n + 36 \<le> unat c" "unat n mod 4 = 0"
    using un sz lb lc bz(3) cz(3) by (auto simp: mod_add_eq [symmetric])
  then show "n \<notin> set ?bs" using layout_fresh(1) [OF l(2), of n] by simp
  show "layout h (p @ a # n # c # zs)" using layout_split [OF layout_join [OF l(1)], of n] nn lb by simp
  show "bsz t n + unat newsize = bsz s a + bsz s b" if "nx t n = c"
    using nn un lb lc bz(3) cz(3) sz that by (simp add: bsz_def [of t])
qed

lemma grow_into_core:
  assumes core: "heap_core s h (p @ a # b # c # zs) (us @ b # vs)" and used: "is_used s a" "\<not> is_used s b"
    and sz: "unat newsize mod 4 = 0" "bsz s a < unat newsize" "unat newsize + 12 \<le> bsz s a + bsz s b"
    and t: "t = grow_into h (a + 24) a (MEMITEM_SIZE s a) newsize s"
  obtains bs' fs' where "heap_core t h bs' fs'"
    "live t bs' = insert (a + 24, newsize) (live s (p @ a # b # c # zs) - {(a + 24, MEMITEM_SIZE s a)})" "framed h s t"
proof -
  let ?bs = "p @ a # b # c # zs"
  define n where "n = a + 24 + newsize"
  note pl = grow_place [OF core sz n_def]
  have l: "layout h ?bs" "layout h ((p @ [a]) @ b # c # zs)" and r: "dl_ring (nx s) (pv s) ?bs" "dl_ring (nx s) (pv s) ((p @ [a]) @ b # c # zs)"
    and m: "marked s h ?bs" and fset: "set (us @ b # vs) = unused s ?bs"
    and f: "dl_ring (nf s) (pf s) (free_header h # us @ b # vs)"
    using core by (simp_all add: heap_core_def)
  note bz = block_size [OF l(1) r(1)] and cz = block_size [OF l(2) r(2)]
  define v where "v = available_size (heaps s h) - (newsize - MEMITEM_SIZE s a)"
  define s1 where "s1 = account_use h v s"
  define s2 where "s2 = free_list_remove b s1"
  define s6 where "s6 = block_insert a n (set_pool n h (set_magic n 0x1ea01ea0 (set_nxt a c (set_prv c a s2))))"
  note g = grow_state [OF core pl(1) s1_def s2_def s6_def]
  note q = grow_sums [OF core used pl(1) g(1,4,5)]
  have p2: "nx s2 = nx s" "pv s2 = pv s"
    using free_list_remove_ring(2,3) [of s1 "free_header h" us b vs, OF _ s2_def] f by (simp_all add: s1_def account_use_proj)
  have res: "t = free_list_insert h n s6"
    using core_distinct [OF core] by (simp add: t grow_into_def Let_def items_proj bz(1,2) p2 cz(1,2) s6_def s2_def [symmetric]
        s1_def [symmetric] v_def [symmetric] n_def)
  obtain k where h1: "heaps s1 = (heaps s)(h := (heaps s h)\<lparr>available_size := v, max_used_size := k\<rparr>)"
    using account_use_proj(10) [of h v s] by (auto simp: s1_def)
  have "bsz s6 n + unat newsize = bsz s a + bsz s b" using pl(1) by (intro pl(3)) (auto simp: g(1))
  moreover have "bsz s b \<le> unat (available_size (heaps s h))"
    unfolding core_sum [OF core] using used(2) by (intro member_le_sum) auto
  ultimately have "unat v = sum (bsz s6) (unused s6 (p @ a # n # c # zs))"
    using q(2) core_sum [OF core] sz unat_minus_le [of "newsize - MEMITEM_SIZE s a" "available_size (heaps s h)"]
      bz(4) unat_minus_le [of "MEMITEM_SIZE s a" newsize] by (simp add: v_def)
  moreover have "set (us @ vs) = unused s6 (p @ a # n # c # zs) - {n}"
    using q(1) fset dl_ring_distinct [OF f] pl(1) by auto
  moreover have "heap_obj s6 h ?bs" by (rule heap_obj_cong [of s]) (use core in \<open>auto simp: heap_core_def g h1\<close>)
  moreover have co: "coalesced s (c # zs)" "is_used s c" using m used(2) by (simp_all add: marked_alt coalesced_append coalesced_Cons)
  ultimately have o: "heap_open s6 h (p @ [a]) n c zs (us @ vs) False" "left_used s6 (p @ [a])"
    using cut_open [OF core used(1) pl(1,2) _ _ _ g(4,5) _ _ g(2,3)] by (auto simp: g h1)
  have uc: "is_used s6 c" using co(2) pl(1) by (auto simp: is_used_mg g)
  have "t = (if False then s6 else free_list_insert h n s6)" using res by simp
  from close_open [OF o uc this] obtain fs' where "heap_core t h ((p @ [a]) @ n # c # zs) fs'"
    "live t ((p @ [a]) @ n # c # zs) = live s6 ((p @ [a]) @ n # c # zs)" "framed h s6 t" .
  moreover have "framed h s s6" by (simp add: framed_def g h1)
  moreover have "MEMITEM_SIZE s6 a = newsize" by (simp add: MEMITEM_SIZE_nx g(1) n_def)
  ultimately show thesis using that [of "p @ a # n # c # zs" fs'] q(3) framed_trans by auto
qed

section \<open>The realloc function\<close>

text \<open>What it promises: the old block is replaced by one of the new size, which may lie elsewhere.\<close>

lemma request_size_id:
  assumes "unat sz mod 4 = 0" "12 \<le> unat sz"
  shows "request_size sz = sz"
proof -
  have "unat sz \<le> 2 ^ 32 - 4" using assms(1) unat_u32_less [of sz] by simp presburger
  then have "unat (sz + 3) = unat sz + 3" using unat_add_u32 [of sz 3] by simp
  then have "unat (RT_ALIGN sz 4) = unat sz" using assms(1) by (simp add: unat_RT_ALIGN) presburger
  then have "RT_ALIGN sz 4 = sz" by (simp add: word_unat_eq_iff)
  then show ?thesis using assms(2) by (simp add: request_size_def word_less_nat_alt)
qed

definition resized :: "u32 \<Rightarrow> kheap \<Rightarrow> u32 \<Rightarrow> u32 \<Rightarrow> u32 \<Rightarrow> u32 \<times> kheap \<Rightarrow> bool" where
  "resized h s ptr n newsize r \<longleftrightarrow> (case r of (q, t) \<Rightarrow> heap_ok h t \<and> heap_frame h (s\<lparr>kmem := kmem t\<rparr>) t \<and>
     (if q = 0 then t = s
      else (\<exists>m. newsize \<le> m \<and> (q, m) \<notin> heap_live h s - {(ptr, n)} \<and>
             heap_live h t = insert (q, m) (heap_live h s - {(ptr, n)})) \<and>
           bytes_at (kmem t) q (min (unat n) (unat newsize)) = bytes_at (kmem s) ptr (min (unat n) (unat newsize))))"

text \<open>Moving to a new block.\<close>

lemma move_block:
  assumes ok: "heap_ok h s" and b: "(ptr, n) \<in> heap_live h s" and sz: "unat newsize \<le> 2 ^ 32 - 4" "n < newsize"
    and al: "rt_memheap_alloc h newsize s = Some (q, t)" "q \<noteq> 0"
  obtains u where "rt_memheap_free ptr (t\<lparr>kmem := rt_memcpy (kmem t) q ptr n\<rparr>) = Some u" "resized h s ptr n newsize (q, u)"
proof -
  note okt = memheap.alloc_ok [OF ok al(1)]
  obtain m where m: "newsize \<le> m" "(q, m) \<notin> heap_live h s" "heap_live h t = insert (q, m) (heap_live h s)"
    using memheap.alloc_block [OF ok al sz(1)] by blast
  let ?t = "t\<lparr>kmem := rt_memcpy (kmem t) q ptr n\<rparr>"
  have live: "heap_live h ?t = insert (q, m) (heap_live h s)" "heap_ok h ?t" using m(3) okt by simp_all
  then obtain u where u: "rt_memheap_free ptr ?t = Some u" "heap_ok h u" "heap_live h u = heap_live h ?t - {(ptr, n)}"
    using memheap.release_block [of h ?t ptr n] b by auto
  have fr: "heap_frame h s t" "heap_frame h ?t u"
    using alloc_frame [OF ok al(1)] free_frame [OF live(2) _ u(1), of n] b live(1) by auto
  have kt: "kmem t = kmem s" "kmem u = rt_memcpy (kmem s) q ptr n" using fr by (simp_all add: heap_frame_def)
  have dis: "region (q, newsize) \<inter> region (ptr, n) = {}" by (rule memheap.alloc_fresh [OF ok al sz(1) b])
  have "region (q, n) \<subseteq> region (q, newsize)" using sz(2) by (auto simp: region_def word_less_nat_alt)
  then have dn: "region (q, n) \<inter> region (ptr, n) = {}" using dis by blast
  have bd: "unat q + unat m < 2 ^ 32" "unat ptr + unat n < 2 ^ 32"
    using memheap.live_bounds [OF okt, of q m] memheap.live_bounds [OF ok b] m(3) by auto
  have qn: "unat q + unat n \<le> 2 ^ 32" "unat n \<le> 2 ^ 32" using bd m(1) sz(2) by (simp_all add: word_le_nat_alt word_less_nat_alt)
  have "rt_memcpy (kmem s) q ptr n = store_bytes (kmem s) q (bytes_at (kmem s) ptr (unat n))"
    using bd qn by (intro copy_disjoint [OF dn]) auto
  then have "bytes_at (kmem u) q (unat n) = bytes_at (kmem s) ptr (unat n)"
    using bytes_at_store_bytes [of "bytes_at (kmem s) ptr (unat n)" "kmem s" q] qn kt by simp
  moreover have "min (unat n) (unat newsize) = unat n" using sz(2) by (simp add: word_less_nat_alt)
  moreover have "(q, m) \<noteq> (ptr, n)" using m(2) b by auto
  moreover have "heap_frame h (s\<lparr>kmem := kmem u\<rparr>) u" using fr by (simp add: heap_frame_def)
  ultimately have "resized h s ptr n newsize (q, u)"
    using u m live al(2) by (auto simp: resized_def)
  with u(1) show thesis by (rule that)
qed

text \<open>A block that keeps its address.\<close>

lemma in_place_resized:
  assumes inv: "heap_inv s h bs fs" and b: "(ptr, n) \<in> live s bs"
    and s1: "s1 = upd_heap h (lock_value_update (\<lambda>v. v - 1)) s" "lock_value (heaps s1 h) = 0" "live s1 bs = live s bs"
    and t: "heap_core t h bs' fs'" "live t bs' = insert (ptr, newsize) (live s1 bs - {(ptr, n)})" "framed h s1 t"
  shows "resized h s ptr n newsize (ptr, sem_release h t)"
proof -
  have ok: "heap_ok h s" "heap_live h s = live s bs" using inv heap_live_inv by (auto simp: heap_ok_def)
  have "lock_value (heaps t h) = 0" using t(3) s1(2) by (simp add: framed_def)
  note r = sem_release_inv [OF t(1) this]
  have okt: "heap_ok h (sem_release h t)" "heap_live h (sem_release h t) = insert (ptr, newsize) (live s bs - {(ptr, n)})"
    using r t(2) s1(3) heap_live_inv [OF r(1)] by (auto simp: heap_ok_def)
  have km: "kmem (sem_release h t) = kmem s" using t(3) by (simp add: framed_def s1(1) sem_release_def)
  have "heap_frame h (s\<lparr>kmem := kmem (sem_release h t)\<rparr>) (sem_release h t)"
    using t(3) by (simp add: heap_frame_def framed_def sem_release_def s1(1))
  moreover have "ptr \<noteq> 0" using memheap.live_bounds [OF ok(1)] b ok(2) by auto
  moreover have "(ptr, newsize) \<notin> heap_live h s - {(ptr, n)}"
    using memheap.live_base_unique [OF ok(1), of ptr n newsize] b ok(2) by auto
  ultimately show ?thesis using okt km ok(2) by (auto simp: resized_def)
qed

text \<open>The room behind the block is large enough.\<close>

lemma grow_fits:
  assumes inv: "heap_inv s h bs fs" and lv: "(ptr, n) \<in> live s bs" and bs: "bs = p @ a # b # ys" "is_used s a"
    and n: "n = MEMITEM_SIZE s a" "ptr = a + 24" and free: "\<not> is_used s b" "MEMITEM_SIZE s b + n > newsize + 12"
    and sz: "unat newsize mod 4 = 0" "unat newsize \<le> 2 ^ 32 - 16" "n < newsize"
    and s1: "heap_core s1 h bs fs" "s1 = upd_heap h (lock_value_update (\<lambda>v. v - 1)) s" "lock_value (heaps s1 h) = 0"
  shows "resized h s ptr n newsize (ptr, sem_release h (grow_into h ptr a n newsize s1))"
proof -
  have p1: "is_used s1 = is_used s" "MEMITEM_SIZE s1 = MEMITEM_SIZE s" "bsz s1 = bsz s" "live s1 = live s"
    by (simp_all add: s1(2))
  note l = s1(1) [unfolded heap_core_def bs(1)]
  obtain c zs where ys: "ys = c # zs" using l free(1) by (cases ys) (auto simp: marked_alt p1)
  have "b \<in> set fs" using l free(1) by (simp add: p1)
  then obtain us vs where fs: "fs = us @ b # vs" by (auto simp: in_set_conv_decomp)
  have l2: "layout h ((p @ [a]) @ b # c # zs)" "dl_ring (nx s1) (pv s1) ((p @ [a]) @ b # c # zs)" using l ys by simp_all
  have ab: "unat n = bsz s a" "bsz s a = unat b - unat a - 24" using block_size(3,4) [of h p a b ys s1] l n(1) by (simp_all add: p1)
  have cb: "unat (MEMITEM_SIZE s b) = bsz s b" "bsz s b = unat c - unat b - 24" "unat c + 24 \<le> 2 ^ 32" "unat b + 36 \<le> unat c"
    using block_size(3,4) [OF l2] layout_block(1,2) [OF l2(1)] by (simp_all add: p1)
  then have "bsz s b + bsz s a < 2 ^ 32" using ab by simp
  then have "unat (MEMITEM_SIZE s b + n) = bsz s b + bsz s a"
    using unat_add_u32 [of "MEMITEM_SIZE s b" n] ab(1) cb(1) by simp
  moreover have "unat (newsize + 12) = unat newsize + 12" using sz(2) unat_add_u32 [of newsize 12] by simp
  ultimately have big: "unat newsize + 12 \<le> bsz s1 a + bsz s1 b" using free(2) by (simp add: word_less_nat_alt p1)
  have u: "is_used s1 a" "\<not> is_used s1 b" "bsz s1 a < unat newsize"
    using bs(2) free(1) sz(3) ab(1) by (simp_all add: p1 word_less_nat_alt)
  obtain bs' fs' where g: "heap_core (grow_into h ptr a n newsize s1) h bs' fs'"
    "live (grow_into h ptr a n newsize s1) bs' = insert (ptr, newsize) (live s1 bs - {(ptr, n)})"
    "framed h s1 (grow_into h ptr a n newsize s1)"
    using grow_into_core [OF s1(1) [unfolded bs(1) ys fs] u(1,2) sz(1) u(3) big refl] n bs(1) ys by (metis p1(2))
  have "live s1 bs = live s bs" by (simp add: p1)
  from in_place_resized [OF inv lv s1(2,3) this g] show ?thesis .
qed

text \<open>Otherwise the block moves.\<close>

lemma grow_moves:
  assumes ok: "heap_ok h s" and lv: "(ptr, n) \<in> heap_live h s" and sz: "unat newsize \<le> 2 ^ 32 - 16" "n < newsize"
    and step: "\<And>q t. rt_memheap_alloc h newsize s = Some (q, t) \<Longrightarrow> rt_memheap_grow h ptr newsize s =
      (if q \<noteq> 0 then do { u \<leftarrow> rt_memheap_free ptr (t\<lparr>kmem := rt_memcpy (kmem t) q ptr n\<rparr>); Some (q, u) } else Some (q, t))"
  obtains r where "rt_memheap_grow h ptr newsize s = Some r" "resized h s ptr n newsize r"
    "fst r = 0 \<Longrightarrow> rt_memheap_alloc h newsize s = Some (0, s)"
proof -
  obtain bs fs where inv: "heap_inv s h bs fs" using ok by (auto simp: heap_ok_def)
  obtain q t where al: "rt_memheap_alloc h newsize s = Some (q, t)" using memheap.alloc_total [OF ok] by blast
  show thesis
  proof (cases "q = 0")
    case True
    have "t = s" using inv al by (cases rule: alloc_outcome [of s h bs fs newsize]) (auto simp: True)
    moreover have "resized h s ptr n newsize (0, s)" using ok by (simp add: resized_def)
    ultimately show thesis using al True step [OF al] by (intro that [of "(0, s)"]) auto
  next
    case False
    have "unat newsize \<le> 2 ^ 32 - 4" using sz(1) by simp
    then obtain u where "rt_memheap_free ptr (t\<lparr>kmem := rt_memcpy (kmem t) q ptr n\<rparr>) = Some u" "resized h s ptr n newsize (q, u)"
      using move_block [OF ok lv _ sz(2) al False] by blast
    with step [OF al] False show thesis by (intro that [of "(q, u)"]) simp_all
  qed
qed

lemma grow_outcome:
  assumes ok: "heap_ok h s" and lv: "(ptr, n) \<in> heap_live h s"
    and sz: "unat newsize mod 4 = 0" "unat newsize \<le> 2 ^ 32 - 16" "n < newsize"
  obtains r where "rt_memheap_grow h ptr newsize s = Some r" "resized h s ptr n newsize r"
    "fst r = 0 \<Longrightarrow> rt_memheap_alloc h newsize s = Some (0, s)"
proof -
  obtain bs fs where inv: "heap_inv s h bs fs" using ok by (auto simp: heap_ok_def)
  have core: "heap_core s h bs fs" using inv by (simp add: heap_inv_def)
  have lv': "(ptr, n) \<in> live s bs" using lv heap_live_inv [OF inv] by simp
  obtain p a b ys where a: "bs = p @ a # b # ys" "is_used s a" "n = MEMITEM_SIZE s a" "ptr = a + 24"
    "unat ptr = unat a + 24" "unat ptr + unat n = unat b" using live_block_bounds [OF core lv'] by metis
  obtain s1 where s1: "sem_take h s = Some s1" "heap_core s1 h bs fs"
    "s1 = upd_heap h (lock_value_update (\<lambda>v. v - 1)) s" "lock_value (heaps s1 h) = 0" "sem_release h s1 = s"
    using sem_take_inv [OF inv] .
  have p1: "is_used s1 = is_used s" "MEMITEM_SIZE s1 = MEMITEM_SIZE s" "nx s1 = nx s" by (simp_all add: s1(3))
  have nb: "nx s a = b" using core dl_ring_next(1) [of "nx s" "pv s" p a b ys] by (simp add: heap_core_def a(1))
  have ab: "a < b" using a(5,6) by (simp add: word_less_nat_alt)
  have hd: "ptr - 24 = a" by (simp add: a(4))
  show thesis
  proof (cases "\<not> is_used s b \<and> MEMITEM_SIZE s b + n > newsize + 12")
    case True
    then have "rt_memheap_grow h ptr newsize s = Some (ptr, sem_release h (grow_into h ptr a n newsize s1))"
      using ab by (simp add: rt_memheap_grow_def Let_def hd s1(1) items_proj p1 nb a(3))
    moreover have "ptr \<noteq> 0" using a(5) by auto
    ultimately show thesis using True grow_fits [OF inv lv' a(1-4) _ _ sz s1(2-4)] by (intro that) auto
  next
    case False
    show thesis
      by (rule grow_moves [OF ok lv sz(2,3) _ that])
        (use False ab sz(3) in \<open>auto simp: rt_memheap_grow_def Let_def hd s1(1,5) items_proj p1 nb a(3) [symmetric]\<close>)
  qed
qed

lemma request_size_le:
  assumes "unat sz \<le> 2 ^ 32 - 16"
  shows "unat (request_size sz) \<le> 2 ^ 32 - 16"
proof -
  have "unat (sz + 3) = unat sz + 3" using assms unat_add_u32 [of sz 3] by simp
  then have "unat (RT_ALIGN sz 4) \<le> 2 ^ 32 - 16" using assms by (simp add: unat_RT_ALIGN)
  then show ?thesis by (simp add: request_size_def Let_def)
qed

lemma resized_mono:
  assumes "resized h s ptr n newsize r" "sz \<le> newsize"
  shows "resized h s ptr n sz r"
proof -
  obtain q t where r: "r = (q, t)" by (cases r)
  have "bytes_at (kmem t) q (min (unat n) (unat sz)) = bytes_at (kmem s) ptr (min (unat n) (unat sz))"
    if "bytes_at (kmem t) q (min (unat n) (unat newsize)) = bytes_at (kmem s) ptr (min (unat n) (unat newsize))"
  proof -
    have "min (unat n) (unat sz) \<le> min (unat n) (unat newsize)" using assms(2) by (simp add: word_le_nat_alt min_def)
    then obtain d where "min (unat n) (unat newsize) = min (unat n) (unat sz) + d" using le_Suc_ex by blast
    with that show ?thesis by (simp add: bytes_at_add)
  qed
  note prefix = this
  show ?thesis
  proof (cases "q = 0")
    case True
    then show ?thesis using assms(1) by (auto simp: resized_def r)
  next
    case False
    then obtain m where m: "newsize \<le> m" "(q, m) \<notin> heap_live h s - {(ptr, n)}"
      "heap_live h t = insert (q, m) (heap_live h s - {(ptr, n)})" and rest: "heap_ok h t" "heap_frame h (s\<lparr>kmem := kmem t\<rparr>) t"
      "bytes_at (kmem t) q (min (unat n) (unat newsize)) = bytes_at (kmem s) ptr (min (unat n) (unat newsize))"
      using assms(1) unfolding resized_def r by auto
    have "sz \<le> m" using assms(2) m(1) by simp
    then show ?thesis using m(2,3) rest(1,2) prefix [OF rest(3)] False unfolding resized_def r prod.case by metis
  qed
qed

lemma shrink_outcome:
  assumes ok: "heap_ok h s" and lv: "(ptr, n) \<in> heap_live h s"
    and sz: "unat newsize mod 4 = 0" "12 \<le> unat newsize" "unat newsize + 36 < unat n"
  obtains s1 where "sem_take h s = Some s1"
    "resized h s ptr n newsize (ptr, sem_release h (shrink_block h (ptr - 24) newsize s1))"
proof -
  obtain bs fs where inv: "heap_inv s h bs fs" using ok by (auto simp: heap_ok_def)
  have core: "heap_core s h bs fs" using inv by (simp add: heap_inv_def)
  have lv': "(ptr, n) \<in> live s bs" using lv heap_live_inv [OF inv] by simp
  obtain p a b ys where a: "bs = p @ a # b # ys" "is_used s a" "n = MEMITEM_SIZE s a" "ptr = a + 24"
    using live_block_bounds [OF core lv'] by metis
  obtain s1 where s1: "sem_take h s = Some s1" "heap_core s1 h bs fs"
    "s1 = upd_heap h (lock_value_update (\<lambda>v. v - 1)) s" "lock_value (heaps s1 h) = 0" "sem_release h s1 = s"
    using sem_take_inv [OF inv] .
  have p1: "is_used s1 = is_used s" "MEMITEM_SIZE s1 = MEMITEM_SIZE s" "bsz s1 = bsz s" and live1: "live s1 bs = live s bs"
    by (simp_all add: s1(3))
  have "unat n = bsz s a" using block_size(4) [of h p a b ys s] core a by (simp add: heap_core_def)
  then have n: "unat newsize + 36 \<le> bsz s1 a" "is_used s1 a" using sz(3) a(2) by (simp_all add: p1)
  obtain bs' fs' where g: "heap_core (shrink_block h a newsize s1) h bs' fs'"
    "live (shrink_block h a newsize s1) bs' = insert (ptr, newsize) (live s1 bs - {(ptr, n)})"
    "framed h s1 (shrink_block h a newsize s1)"
    using shrink_block_core [OF s1(2) [unfolded a(1)] n(2) sz(1,2) n(1) refl] a by (metis p1(2))
  from in_place_resized [OF inv lv' s1(3,4) live1 g] s1(1) show thesis by (intro that) (simp_all add: a(4))
qed

lemma realloc_outcome:
  assumes ok: "heap_ok h s" and lv: "(ptr, n) \<in> heap_live h s" and req: "req \<noteq> 0" "unat req \<le> 2 ^ 32 - 16"
  obtains r where "rt_memheap_realloc h ptr req s = Some r" "resized h s ptr n req r"
    "fst r = 0 \<Longrightarrow> rt_memheap_alloc h (request_size req) s = Some (0, s)"
proof -
  let ?sz = "request_size req"
  have sz: "unat ?sz mod 4 = 0" "12 \<le> unat ?sz" "unat ?sz \<le> 2 ^ 32 - 16" "req \<le> ?sz"
    using request_size_aligned request_size_le [OF req(2)] request_size_ge [of req] req(2) by (auto simp: word_le_nat_alt)
  obtain bs fs where inv: "heap_inv s h bs fs" using ok by (auto simp: heap_ok_def)
  have core: "heap_core s h bs fs" using inv by (simp add: heap_inv_def)
  have lv': "(ptr, n) \<in> live s bs" using lv heap_live_inv [OF inv] by simp
  obtain a b :: u32 where a: "n = MEMITEM_SIZE s a" "ptr = a + 24" "unat ptr = unat a + 24" "unat ptr + unat n = unat b" "unat b + 24 \<le> 2 ^ 32"
    using live_block_bounds [OF core lv'] by metis
  have obj: "h \<noteq> 0" "is_memheap s h" using core by (simp_all add: heap_core_def heap_obj_def)
  have nz: "ptr \<noteq> 0" using a(3) by auto
  have code: "rt_memheap_realloc h ptr req s =
    (if ?sz > n then rt_memheap_grow h ptr ?sz s
     else if ?sz + 24 + 12 \<ge> n then Some (ptr, s)
     else do { s1 \<leftarrow> sem_take h s; Some (ptr, sem_release h (shrink_block h (ptr - 24) ?sz s1)) })"
    using obj nz req(1) unfolding rt_memheap_realloc_def request_size_def Let_def by (simp only: a(1,2) if_False simp_thms) simp
  have "\<exists>r. rt_memheap_realloc h ptr req s = Some r \<and> resized h s ptr n ?sz r \<and>
      (fst r = 0 \<longrightarrow> rt_memheap_alloc h ?sz s = Some (0, s))"
  proof (cases "?sz > n")
    case True
    obtain r where "rt_memheap_grow h ptr ?sz s = Some r" "resized h s ptr n ?sz r"
      "fst r = 0 \<Longrightarrow> rt_memheap_alloc h ?sz s = Some (0, s)"
      using grow_outcome [OF ok lv sz(1,3) True] by blast
    with True show ?thesis by (simp add: code)
  next
    case big: False
    then have "unat ?sz \<le> unat n" by (simp add: word_less_nat_alt)
    then have "unat (?sz + 36) = unat ?sz + 36" using a(3-5) unat_add_u32 [of ?sz 36] by simp
    then have cmp: "?sz + 24 + 12 \<ge> n \<longleftrightarrow> unat n \<le> unat ?sz + 36" by (simp add: word_le_nat_alt add.assoc)
    show ?thesis
    proof (cases "?sz + 24 + 12 \<ge> n")
      case True
      have "resized h s ptr n ?sz (ptr, s)"
        using ok lv nz big by (auto simp: resized_def not_less insert_absorb)
      then show ?thesis using big True nz by (simp add: code)
    next
      case False
      then have "unat ?sz + 36 < unat n" using cmp by simp
      then obtain s1 where "sem_take h s = Some s1"
        "resized h s ptr n ?sz (ptr, sem_release h (shrink_block h (ptr - 24) ?sz s1))"
        using shrink_outcome [OF ok lv sz(1,2)] by blast
      then show ?thesis using big False nz by (simp add: code)
    qed
  qed
  then show thesis using resized_mono [OF _ sz(4)] that by blast
qed

end
