(* ===== verification/Memheap_Sys.thy ===== *)
theory Memheap_Sys
  imports Memheap_Realloc
begin

text \<open>
  The system heap: \<open>rt_malloc\<close>, \<open>rt_free\<close>, \<open>rt_realloc\<close> and \<open>rt_calloc\<close> in a system whose only heap is
  the one \<open>rt_system_heap_init\<close> creates, as in the boot loader, and the functions of
  \<open>kservice.c\<close> that are built on them.
\<close>

section \<open>Clients in kservice.c\<close>

definition rt_malloc_align :: "u32 \<Rightarrow> u32 \<Rightarrow> u32 \<Rightarrow> kheap \<Rightarrow> u32 kresult" where
  "rt_malloc_align heap sz align0 s =
    (let uintptr_size = 3;
         align = (align0 + uintptr_size) AND NOT uintptr_size;
         align_size = ((sz + uintptr_size) AND NOT uintptr_size) + align
     in do {
       (ptr, s1) \<leftarrow> rt_malloc heap align_size s;
       if ptr \<noteq> 0 then
         (let align_ptr = (if ptr AND (align - 1) = 0 then ptr + align else (ptr + (align - 1)) AND NOT (align - 1))
          in Some (align_ptr, s1\<lparr>kmem := store32 (kmem s1) (align_ptr - 4) ptr\<rparr>))
       else Some (ptr, s1)
     })"

definition rt_free_align :: "u32 \<Rightarrow> kheap \<Rightarrow> kheap option" where
  "rt_free_align ptr s = rt_free (load32 (kmem s) (ptr - 4)) s"

definition rt_strdup :: "u32 \<Rightarrow> u32 \<Rightarrow> kheap \<Rightarrow> u32 kresult" where
  "rt_strdup heap str s = do {
     n \<leftarrow> rt_strlen (kmem s) str;
     let len = n + 1;
     (tmp, s1) \<leftarrow> rt_malloc heap len s;
     if tmp = 0 then Some (0, s1) else Some (tmp, s1\<lparr>kmem := rt_memcpy (kmem s1) tmp str len\<rparr>)
   }"

section \<open>One heap\<close>

definition system_ok :: "u32 \<Rightarrow> kheap \<Rightarrow> bool" where
  "system_ok h s \<longleftrightarrow> heap_ok h s \<and> objs s = [h]"

lemma system_ok_kmem [simp]: "system_ok h (s\<lparr>kmem := m\<rparr>) = system_ok h s"
  by (simp add: system_ok_def)

lemma heap_ok_obj: "heap_ok h s \<Longrightarrow> h \<noteq> 0 \<and> is_memheap s h"
  by (auto simp: heap_ok_def heap_inv_def heap_core_def heap_obj_def)

lemma rt_malloc_system:
  assumes "system_ok h s"
  shows "rt_malloc h n s = rt_memheap_alloc h n s"
proof -
  obtain p t where a: "rt_memheap_alloc h n s = Some (p, t)" "heap_ok h t"
    using memheap.alloc_total [of h s n] assms by (auto simp: system_ok_def)
  have "objs t = [h]" using alloc_frame [OF _ a(1)] assms by (simp add: system_ok_def heap_frame_def)
  then show ?thesis using a heap_ok_obj [OF a(2)] by (simp add: rt_malloc_def)
qed

interpretation system: allocator "system_ok h" "heap_live h" "rt_malloc h" rt_free
proof
  fix s t :: kheap and n p m :: u32
  assume ok: "system_ok h s"
  then have h: "heap_ok h s" "objs s = [h]" by (simp_all add: system_ok_def)
  note eq = rt_malloc_system [OF ok]
  obtain q u where al: "rt_memheap_alloc h n s = Some (q, u)" "heap_ok h u" using memheap.alloc_total [OF h(1)] by blast
  have "objs u = [h]" using alloc_frame [OF h(1) al(1)] h(2) by (simp add: heap_frame_def)
  then show "\<exists>p t. rt_malloc h n s = Some (p, t) \<and> system_ok h t" using al by (simp add: eq system_ok_def)
  show "heap_live h t = heap_live h s" if "rt_malloc h n s = Some (0, t)"
    using memheap.alloc_null [OF h(1)] that by (simp add: eq)
  show "\<exists>m. n \<le> m \<and> (p, m) \<notin> heap_live h s \<and> heap_live h t = insert (p, m) (heap_live h s)"
    if "rt_malloc h n s = Some (p, t)" "p \<noteq> 0" "unat n \<le> 2 ^ 32 - 4"
    using memheap.alloc_block [OF h(1)] that by (simp add: eq)
  show "unat p mod 4 = 0" if "rt_malloc h n s = Some (p, t)"
    using memheap.alloc_aligned [OF h(1)] that by (simp add: eq)
  show "\<exists>t. rt_free p s = Some t \<and> system_ok h t \<and> heap_live h t = heap_live h s - {(p, m)}" if "(p, m) \<in> heap_live h s"
    using memheap.release_block [OF h(1) that] free_frame [OF h(1) that] h(2)
    by (auto simp: rt_free_def system_ok_def heap_frame_def)
  show "disjoint_regions (heap_live h s)" by (rule memheap.live_disjoint [OF h(1)])
  show "p \<noteq> 0 \<and> 4 \<le> unat p \<and> 0 < unat m \<and> unat p + unat m < 2 ^ 32" if "(p, m) \<in> heap_live h s"
    by (rule memheap.live_bounds [OF h(1) that])
qed

lemma malloc_frame:
  assumes "system_ok h s" "rt_malloc h n s = Some (p, t)"
  shows "heap_frame h s t"
  using alloc_frame [of h s n p t] assms by (simp add: rt_malloc_system system_ok_def)

lemma alloc_request:
  assumes "heap_ok h s"
  shows "rt_memheap_alloc h req s = rt_memheap_alloc h (request_size req) s"
proof -
  have idem: "request_size (request_size req) = request_size req" by (intro request_size_id request_size_aligned)
  have obj: "h \<noteq> 0" "is_memheap s h" using heap_ok_obj [OF assms] by auto
  show ?thesis unfolding alloc_code [OF obj] idem by (rule refl)
qed

lemma rt_realloc_system:
  assumes ok: "system_ok h s" and b: "(ptr, n) \<in> heap_live h s" and req: "req \<noteq> 0" "unat req \<le> 2 ^ 32 - 16"
  obtains q t where "rt_realloc h ptr req s = Some (q, t)" "resized h s ptr n req (q, t)" "system_ok h t"
proof -
  have h: "heap_ok h s" "objs s = [h]" using ok by (simp_all add: system_ok_def)
  obtain q t where r: "rt_memheap_realloc h ptr req s = Some (q, t)" "resized h s ptr n req (q, t)"
    "q = 0 \<Longrightarrow> rt_memheap_alloc h (request_size req) s = Some (0, s)"
    using realloc_outcome [OF h(1) b req] by (metis fst_conv prod.exhaust)
  have "pool_ptr (items s (ptr - 24)) = h"
  proof -
    obtain bs fs where inv: "heap_inv s h bs fs" using h(1) by (auto simp: heap_ok_def)
    then obtain a where "a \<in> set bs" "ptr = a + 24"
      using b by (auto simp: heap_live_inv live_def set_lives dest: in_set_butlastD)
    then show ?thesis using inv by (simp add: heap_inv_def heap_core_def marked_alt items_proj)
  qed
  moreover have "ptr \<noteq> 0" using memheap.live_bounds [OF h(1) b] by simp
  moreover have "rt_malloc h req s = Some (0, s)" "t = s" if "q = 0"
    using r(2,3) that rt_malloc_system [OF ok] alloc_request [OF h(1), of req] by (simp_all add: resized_def)
  ultimately have "rt_realloc h ptr req s = Some (q, t)"
    using r(1) req(1) by (cases "q = 0") (simp_all add: rt_realloc_def)
  moreover have "system_ok h t" using r(2) h(2) by (simp add: resized_def system_ok_def heap_frame_def)
  ultimately show thesis using r(2) by (intro that)
qed

section \<open>Aligned blocks\<close>

text \<open>The next multiple of the alignment above the address of the block.\<close>

lemma align_ptr_above:
  fixes ptr :: u32
  assumes k: "2 \<le> k" "k < 32" and al: "unat ptr mod 4 = 0" and fits: "unat ptr + 2 ^ k < 2 ^ 32"
    and q: "q = (if ptr AND (2 ^ k - 1) = 0 then ptr + 2 ^ k else (ptr + (2 ^ k - 1)) AND NOT (2 ^ k - 1))"
  shows "unat q mod 2 ^ k = 0" "unat ptr + 4 \<le> unat q" "unat q \<le> unat ptr + 2 ^ k"
proof -
  have p2: "unat (2 ^ k :: u32) = 2 ^ k" using k by (simp add: unat_pow_u32)
  have mask: "2 ^ k - 1 = (mask k :: u32)" by (simp add: mask_eq_exp_minus_1)
  have dvd: "(4 :: nat) dvd 2 ^ k" using k(1) le_imp_power_dvd [of 2 k "2 :: nat"] by simp
  have rem: "unat (ptr AND mask k) = unat ptr mod 2 ^ k"
    using unsigned_take_bit_eq [of k ptr, where ?'a = nat] unfolding take_bit_eq_mask [of k ptr] take_bit_eq_mod [of k "unat ptr"] .
  have "unat q = (unat ptr div 2 ^ k + 1) * 2 ^ k"
  proof (cases "unat ptr mod 2 ^ k = 0")
    case True
    then have "ptr AND mask k = 0" using rem by (simp add: unat_eq_zero)
    then have "unat q = unat ptr + 2 ^ k" using q mask fits unat_add_u32 [of ptr "2 ^ k"] p2 by simp
    moreover have "unat ptr = unat ptr div 2 ^ k * 2 ^ k" using True div_mult_mod_eq [of "unat ptr" "2 ^ k"] by simp
    ultimately show ?thesis by simp
  next
    case False
    then have "ptr AND mask k \<noteq> 0" using rem by (metis unat_0)
    then have "q = (ptr + mask k) AND NOT (mask k)" using q mask by simp
    moreover have um: "unat (mask k :: u32) = 2 ^ k - 1" using unat_minus_le [of 1 "2 ^ k"] p2 by (simp add: mask_eq_exp_minus_1)
    then have "unat (ptr + mask k) = unat ptr + (2 ^ k - 1)" using fits unat_add_u32 [of ptr "mask k"] by simp
    ultimately have "unat q = (unat ptr + (2 ^ k - 1)) div 2 ^ k * 2 ^ k" by (simp only: unat_align_down_pow [OF k(2)])
    moreover have "(unat ptr + (2 ^ k - 1)) div 2 ^ k = unat ptr div 2 ^ k + 1"
    proof -
      define d r where "d = unat ptr div 2 ^ k" and "r = unat ptr mod 2 ^ k"
      have "unat ptr = d * 2 ^ k + r" "0 < r" "r < 2 ^ k" using False div_mult_mod_eq [of "unat ptr" "2 ^ k"] by (simp_all add: d_def r_def)
      then have "(unat ptr + (2 ^ k - 1)) = (d + 1) * 2 ^ k + (r - 1)" by (simp add: algebra_simps)
      moreover have "((d + 1) * 2 ^ k + (r - 1)) div 2 ^ k = d + 1"
        using \<open>r < 2 ^ k\<close> div_mult_self3 [of "2 ^ k" "d + 1" "r - 1"] by simp
      ultimately show ?thesis by (simp only: d_def)
    qed
    ultimately show ?thesis by simp
  qed
  then have q': "unat q = unat ptr div 2 ^ k * 2 ^ k + 2 ^ k" by simp
  show "unat q mod 2 ^ k = 0" by (simp add: q')
  have "unat ptr = unat ptr div 2 ^ k * 2 ^ k + unat ptr mod 2 ^ k" "unat ptr mod 2 ^ k < 2 ^ k"
    using div_mult_mod_eq [of "unat ptr" "2 ^ k"] by simp_all
  then have lt: "unat ptr < unat q" "unat q \<le> unat ptr + 2 ^ k" using q' by linarith+
  show "unat q \<le> unat ptr + 2 ^ k" by (fact lt(2))
  have "4 dvd unat q" using dvd q' by simp
  with al lt(1) show "unat ptr + 4 \<le> unat q" by presburger
qed

section \<open>The clients\<close>

lemma malloc_align_outcome:
  assumes ok: "system_ok h s" and k: "2 \<le> k" "k < 32" and fits: "unat sz + 2 ^ k + 8 \<le> 2 ^ 32"
  obtains (none) t where "rt_malloc_align h sz (2 ^ k) s = Some (0, t)" "system_ok h t" "heap_live h t = heap_live h s"
  | (some) q t ptr m where "rt_malloc_align h sz (2 ^ k) s = Some (q, t)" "q \<noteq> 0" "system_ok h t"
      "heap_live h t = insert (ptr, m) (heap_live h s)" "(ptr, m) \<notin> heap_live h s" "unat q mod 2 ^ k = 0"
      "region (q, sz) \<subseteq> region (ptr, m)" "region (q - 4, 4) \<subseteq> region (ptr, m)"
      "bytes_at (kmem t) (q - 4) 4 = [ucast ptr, ucast (drop_bit 8 ptr), ucast (drop_bit 16 ptr), ucast (drop_bit 24 ptr)]"
proof -
  have not3: "NOT 3 = (NOT (mask 2) :: u32)" by (simp add: mask_eq_exp_minus_1)
  have up: "unat ((x + 3) AND NOT 3) = (unat x + 3) div 4 * 4" if "unat x + 3 < 2 ^ 32" for x :: u32
    unfolding not3 unat_align_down using unat_add_u32 [of x 3] that by simp
  have p2: "unat (2 ^ k :: u32) = 2 ^ k" using unat_pow_u32 [OF k(2)] .
  have "(4 :: nat) dvd 2 ^ k" using k(1) le_imp_power_dvd [of 2 k "2 :: nat"] by simp
  then obtain c where c: "(2 :: nat) ^ k = 4 * c" by blast
  have "unat (((2 ^ k :: u32) + 3) AND NOT 3) = 2 ^ k" using up [of "2 ^ k"] fits p2 c by simp
  then have al: "((2 ^ k :: u32) + 3) AND NOT 3 = 2 ^ k" using p2 by (simp add: word_unat_eq_iff)
  define total where "total = ((sz + 3) AND NOT 3) + 2 ^ k"
  have us: "unat ((sz + 3) AND NOT 3) = (unat sz + 3) div 4 * 4" using up [of sz] fits by simp
  moreover have "(unat sz + 3) div 4 * 4 \<le> unat sz + 3" by simp
  ultimately have ut: "unat total = (unat sz + 3) div 4 * 4 + 2 ^ k" "unat total \<le> 2 ^ 32 - 4"
    using unat_add_u32 [of "(sz + 3) AND NOT 3" "2 ^ k"] fits p2 by (simp_all add: total_def)
  obtain ptr t1 where m1: "rt_malloc h total s = Some (ptr, t1)" "system_ok h t1" using system.alloc_total [OF ok] by blast
  define q where "q = (if ptr AND (2 ^ k - 1) = 0 then ptr + 2 ^ k else (ptr + (2 ^ k - 1)) AND NOT (2 ^ k - 1))"
  have res: "rt_malloc_align h sz (2 ^ k) s =
      (if ptr \<noteq> 0 then Some (q, t1\<lparr>kmem := store32 (kmem t1) (q - 4) ptr\<rparr>) else Some (ptr, t1))"
    unfolding rt_malloc_align_def Let_def al total_def [symmetric] m1(1) q_def by simp
  show thesis
  proof (cases "ptr = 0")
    case True
    then show thesis using none [of t1] res m1 system.alloc_null [OF ok] by simp
  next
    case False
    obtain m where m: "total \<le> m" "(ptr, m) \<notin> heap_live h s" "heap_live h t1 = insert (ptr, m) (heap_live h s)"
      using system.alloc_block [OF ok m1(1) False ut(2)] by blast
    have bd: "unat ptr + unat m < 2 ^ 32" using system.live_bounds [OF m1(2), of ptr m] m(3) by simp
    have tm: "unat total \<le> unat m" using m(1) by (simp add: word_le_nat_alt)
    have "unat ptr + 2 ^ k < 2 ^ 32" using bd tm ut(1) by simp
    note a = align_ptr_above [OF k system.alloc_aligned [OF ok m1(1)] this q_def]
    have qn: "q \<noteq> 0" "unat (q - 4) = unat q - 4" using a(2) unat_minus_le [of 4 q] by auto
    have "unat sz \<le> (unat sz + 3) div 4 * 4" by presburger
    then have "region (q, sz) \<subseteq> region (ptr, m)" "region (q - 4, 4) \<subseteq> region (ptr, m)"
      using a ut tm qn by (auto simp: region_def)
    then show thesis using some [of q "t1\<lparr>kmem := store32 (kmem t1) (q - 4) ptr\<rparr>" ptr m] False res qn m m1(2) a(1)
        bytes_at_store32 [of "kmem t1" "q - 4" ptr] by (simp add: system_ok_def)
  qed
qed

lemma free_align_outcome:
  assumes ok: "system_ok h s" and b: "(ptr, m) \<in> heap_live h s"
    and q: "bytes_at (kmem s) (q - 4) 4 = [ucast ptr, ucast (drop_bit 8 ptr), ucast (drop_bit 16 ptr), ucast (drop_bit 24 ptr)]"
  obtains t where "rt_free_align q s = Some t" "system_ok h t" "heap_live h t = heap_live h s - {(ptr, m)}"
  using system.release_block [OF ok b] load32_bytes [OF q] that by (auto simp: rt_free_align_def)

lemma calloc_outcome:
  assumes ok: "system_ok h s" and fits: "unat count * unat sz \<le> 2 ^ 32 - 4"
  obtains (none) t where "rt_calloc h count sz s = Some (0, t)" "system_ok h t" "heap_live h t = heap_live h s"
  | (some) p t m where "rt_calloc h count sz s = Some (p, t)" "p \<noteq> 0" "system_ok h t"
      "heap_live h t = insert (p, m) (heap_live h s)" "(p, m) \<notin> heap_live h s" "unat count * unat sz \<le> unat m"
      "kmem t = store_bytes (kmem s) p (replicate (unat count * unat sz) 0)"
proof -
  have ut: "unat (count * sz) = unat count * unat sz" using fits by (simp add: unat_word_ariths)
  obtain p t1 where m1: "rt_malloc h (count * sz) s = Some (p, t1)" "system_ok h t1" using system.alloc_total [OF ok] by blast
  show thesis
  proof (cases "p = 0")
    case True
    then show thesis using none [of t1] m1 system.alloc_null [OF ok] by (simp add: rt_calloc_def Let_def)
  next
    case False
    have "unat (count * sz) \<le> 2 ^ 32 - 4" using fits ut by simp
    then obtain m where m: "count * sz \<le> m" "(p, m) \<notin> heap_live h s" "heap_live h t1 = insert (p, m) (heap_live h s)"
      using system.alloc_block [OF ok m1(1) False] by blast
    have "kmem t1 = kmem s" using malloc_frame [OF ok m1(1)] by (simp add: heap_frame_def)
    then show thesis using some [of p "t1\<lparr>kmem := rt_memset (kmem t1) p 0 (count * sz)\<rparr>" m] False m m1 ut
      by (simp add: rt_calloc_def Let_def rt_memset_fill fill_def word_le_nat_alt system_ok_def)
  qed
qed

lemma strdup_outcome:
  assumes ok: "system_ok h s" and str: "cstr (kmem s) str w" and b: "b \<in> heap_live h s"
    "{unat str..<unat str + length w + 1} \<subseteq> region b"
  obtains (none) t where "rt_strdup h str s = Some (0, t)" "system_ok h t" "heap_live h t = heap_live h s"
  | (some) p t m where "rt_strdup h str s = Some (p, t)" "p \<noteq> 0" "system_ok h t"
      "heap_live h t = insert (p, m) (heap_live h s)" "(p, m) \<notin> heap_live h s" "cstr (kmem t) p w"
proof -
  obtain bp bn where bb: "b = (bp, bn)" by (cases b)
  have "unat str + length w \<in> region b" "unat str \<in> region b" using b(2) by auto
  then have lim: "unat str + length w + 1 \<le> unat bp + unat bn" "unat bp \<le> unat str" by (auto simp: region_def bb)
  moreover have "unat bp + unat bn < 2 ^ 32" using system.live_bounds [OF ok, of bp bn] b(1) bb by simp
  ultimately have sl: "unat str + length w + 1 < 2 ^ 32" by simp
  let ?len = "of_nat (length w) + 1 :: u32"
  have ul: "unat ?len = length w + 1"
    using sl unat_add_u32 [of "of_nat (length w)" 1] by (simp add: unsigned_of_nat take_bit_eq_mod)
  obtain p t1 where m1: "rt_malloc h ?len s = Some (p, t1)" "system_ok h t1" using system.alloc_total [OF ok] by blast
  have res: "rt_strdup h str s = (if p = 0 then Some (0, t1) else Some (p, t1\<lparr>kmem := rt_memcpy (kmem t1) p str ?len\<rparr>))"
    unfolding rt_strdup_def rt_strlen_cstr [OF str] using m1(1) by simp
  show thesis
  proof (cases "p = 0")
    case True
    then show thesis using none [of t1] res m1 system.alloc_null [OF ok] by simp
  next
    case False
    have "4 \<le> unat bp" using system.live_bounds [OF ok, of bp bn] b(1) bb by simp
    then have len: "unat ?len \<le> 2 ^ 32 - 4" using ul sl lim(2) by simp
    obtain m where m: "?len \<le> m" "(p, m) \<notin> heap_live h s" "heap_live h t1 = insert (p, m) (heap_live h s)"
      using system.alloc_block [OF ok m1(1) False len] by blast
    have kt: "kmem t1 = kmem s" using malloc_frame [OF ok m1(1)] by (simp add: heap_frame_def)
    have "region (str, ?len) \<subseteq> region b" using b(2) ul by (auto simp: region_def)
    then have dis: "region (p, ?len) \<inter> region (str, ?len) = {}"
      using system.alloc_fresh [OF ok m1(1) False len b(1)] by blast
    have "unat p + unat ?len \<le> 2 ^ 32"
      using system.live_bounds [OF m1(2), of p m] m(1,3) by (simp add: word_le_nat_alt)
    then have "rt_memcpy (kmem s) p str ?len = store_bytes (kmem s) p (bytes_at (kmem s) str (Suc (length w)))"
      using copy_disjoint [OF dis] ul sl by simp
    then have "cstr (rt_memcpy (kmem s) p str ?len) p w"
      using str sl bytes_at_store_bytes [of "w @ [0]" "kmem s" p] by (simp add: cstr_def)
    then show thesis using some [of p "t1\<lparr>kmem := rt_memcpy (kmem t1) p str ?len\<rparr>" m] False res m m1(2) kt
      by (simp add: system_ok_def)
  qed
qed

end
