(* ===== verification/Memheap_Props.thy ===== *)
theory Memheap_Props
  imports Memheap_Sys
begin

text \<open>
  The system heap as a state machine, and its properties. A step is a call of the heap interface that
  respects its contract or a write of a byte inside a live block. The contract: only live blocks are released or resized, a request
  for a new block is for at most \<open>2 ^ 32 - 4\<close> bytes (for \<open>rt_calloc\<close>, the product), and a block is resized to at most
  \<open>2 ^ 32 - 16\<close> bytes. Beyond these sizes the code's own arithmetic wraps around, and resizing can destroy the heap (\<open>realloc_size_wraps\<close>).
\<close>

section \<open>Steps\<close>

inductive heap_step :: "u32 \<Rightarrow> kheap \<Rightarrow> kheap \<Rightarrow> bool" for h where
  malloc: "rt_malloc h n s = Some (p, t) \<Longrightarrow> unat n \<le> 2 ^ 32 - 4 \<Longrightarrow> heap_step h s t"
| calloc: "rt_calloc h count n s = Some (p, t) \<Longrightarrow> unat count * unat n \<le> 2 ^ 32 - 4 \<Longrightarrow> heap_step h s t"
| free: "(p, m) \<in> heap_live h s \<Longrightarrow> rt_free p s = Some t \<Longrightarrow> heap_step h s t"
| free_null: "rt_free 0 s = Some t \<Longrightarrow> heap_step h s t"
| realloc: "(p, m) \<in> heap_live h s \<Longrightarrow> n \<noteq> 0 \<Longrightarrow> unat n \<le> 2 ^ 32 - 16 \<Longrightarrow>
    rt_realloc h p n s = Some (q, t) \<Longrightarrow> heap_step h s t"
| realloc_null: "rt_realloc h 0 n s = Some (q, t) \<Longrightarrow> unat n \<le> 2 ^ 32 - 4 \<Longrightarrow> heap_step h s t"
| realloc_zero: "(p, m) \<in> heap_live h s \<Longrightarrow> rt_realloc h p 0 s = Some (q, t) \<Longrightarrow> heap_step h s t"
| store_byte: "b \<in> heap_live h s \<Longrightarrow> unat a \<in> region b \<Longrightarrow> heap_step h s (s\<lparr>kmem := (kmem s)(a := v)\<rparr>)"

inductive heap_reach :: "u32 \<Rightarrow> u32 \<Rightarrow> u32 \<Rightarrow> kheap \<Rightarrow> bool" for h begin_addr end_addr where
  start: "objs s0 = [] \<Longrightarrow> rt_system_heap_init h begin_addr end_addr s0 = Some s \<Longrightarrow> heap_reach h begin_addr end_addr s"
| step: "heap_reach h begin_addr end_addr s \<Longrightarrow> heap_step h s t \<Longrightarrow> heap_reach h begin_addr end_addr t"

text \<open>The bounds of the pool never change.\<close>

definition same_pool :: "u32 \<Rightarrow> kheap \<Rightarrow> kheap \<Rightarrow> bool" where
  "same_pool h s t \<longleftrightarrow> start_addr (heaps t h) = start_addr (heaps s h) \<and> pool_size (heaps t h) = pool_size (heaps s h)"

lemma malloc_step:
  assumes "system_ok h s" "rt_malloc h n s = Some (p, t)"
  shows "system_ok h t \<and> same_pool h s t"
  using system.alloc_ok [OF assms] malloc_frame [OF assms] by (simp add: same_pool_def heap_frame_def)

lemma free_step:
  assumes "system_ok h s" "(p, m) \<in> heap_live h s" "rt_free p s = Some t"
  shows "system_ok h t \<and> same_pool h s t"
proof -
  have "heap_frame h s t" using free_frame [of h s p m t] assms by (simp add: system_ok_def rt_free_def)
  then show ?thesis using system.release_block [OF assms(1,2)] assms(3) by (auto simp: same_pool_def heap_frame_def)
qed

lemma heap_step_ok:
  assumes "heap_step h s t" "system_ok h s"
  shows "system_ok h t \<and> same_pool h s t"
  using assms
proof (cases rule: heap_step.cases)
  case (malloc n p)
  then show ?thesis using malloc_step assms(2) by blast
next
  case (calloc count n p)
  then obtain t1 where t1: "rt_malloc h (count * n) s = Some (p, t1)" "heaps t = heaps t1"
    by (auto simp: rt_calloc_def Let_def split: if_splits bind_splits)
  then have "same_pool h s t" using malloc_step [OF assms(2)] by (auto simp: same_pool_def)
  then show ?thesis using calloc calloc_outcome [OF assms(2) calloc(2)] by (metis Pair_inject option.inject)
next
  case (free p m)
  then show ?thesis using free_step assms(2) by blast
next
  case free_null
  then show ?thesis using assms(2) by (simp add: rt_free_def rt_memheap_free_def same_pool_def)
next
  case (realloc p m n q)
  then obtain q' t' where "rt_realloc h p n s = Some (q', t')" "resized h s p m n (q', t')" "system_ok h t'"
    using rt_realloc_system [OF assms(2)] by blast
  then show ?thesis using realloc by (simp add: resized_def same_pool_def heap_frame_def)
next
  case (realloc_null n q)
  then show ?thesis using malloc_step assms(2) by (simp add: rt_realloc_def)
next
  case (realloc_zero p m q)
  then have "rt_free p s = Some t" using system.live_bounds [OF assms(2) realloc_zero(1)] by (simp add: rt_realloc_def)
  then show ?thesis using free_step assms(2) realloc_zero(1) by blast
next
  case (store_byte b a v)
  then show ?thesis using assms(2) by (simp add: system_ok_def same_pool_def)
qed

section \<open>Where the blocks lie\<close>

definition pool_region :: "u32 \<Rightarrow> kheap \<Rightarrow> nat set" where
  "pool_region h s = {unat (start_addr (heaps s h))..<unat (start_addr (heaps s h)) + unat (pool_size (heaps s h))}"

lemma live_in_pool:
  assumes "heap_ok h s" "b \<in> heap_live h s"
  shows "region b \<subseteq> pool_region h s"
proof -
  obtain ptr n where b: "b = (ptr, n)" by (cases b)
  obtain bs fs where inv: "heap_inv s h bs fs" using assms(1) by (auto simp: heap_ok_def)
  then have core: "heap_core s h bs fs" by (simp add: heap_inv_def)
  obtain p a c ys where a: "bs = p @ a # c # ys" "unat ptr = unat a + 24" "unat ptr + unat n = unat c"
    using live_block_bounds [OF core, of ptr n] assms(2) heap_live_inv [OF inv] b by metis
  have sp: "spaced bs" using core by (simp add: heap_core_def layout_def)
  have "a \<in> set bs" "c \<in> set bs" using a(1) by auto
  then have "unat (hd bs) \<le> unat a" "unat c \<le> unat (last bs)" using spaced_bounds [OF sp] by blast+
  moreover have "unat (pool_size (heaps s h)) = unat (last bs) + 24 - unat (hd bs)" "start_addr (heaps s h) = hd bs"
    using core by (simp_all add: heap_core_def heap_obj_def)
  ultimately show ?thesis using a by (auto simp: region_def pool_region_def b)
qed

lemma init_system:
  assumes "pool_ok h begin_addr (end_addr - begin_addr)" "objs s0 = []"
  obtains s where "rt_system_heap_init h begin_addr end_addr s0 = Some s" "system_ok h s" "heap_live h s = {}" "kmem s = kmem s0"
    "start_addr (heaps s h) = begin_addr" "unat (pool_size (heaps s h)) = unat (end_addr - begin_addr) div 4 * 4"
    "unat (available_size (heaps s h)) = unat (end_addr - begin_addr) div 4 * 4 - 48"
proof -
  let ?sz = "end_addr - begin_addr"
  have fresh: "h \<notin> set (objs s0)" using assms(2) by simp
  obtain s where s: "rt_memheap_init h begin_addr ?sz s0 = Some s"
    "heap_inv s h [begin_addr, begin_addr + ((?sz AND NOT 3) - 48) + 24] [begin_addr]"
    "live s [begin_addr, begin_addr + ((?sz AND NOT 3) - 48) + 24] = {}" "objs s = h # objs s0" "kmem s = kmem s0"
    "unat (available_size (heaps s h)) = unat ?sz div 4 * 4 - 48"
    using memheap_init_inv [OF assms(1) fresh] by metis
  have three: "NOT (4 - 1) = (NOT 3 :: u32)" by simp
  note l = init_layout [OF assms(1) refl refl, unfolded three] and
    p = pool_bounds [of _ ?sz, OF refl, unfolded three]
  have "60 \<le> unat ?sz" using assms(1) by (simp add: pool_ok_def)
  then have "unat (pool_size (heaps s h)) = unat ?sz div 4 * 4" "start_addr (heaps s h) = begin_addr"
    using s(2) l(1) p by (simp_all add: heap_inv_def heap_core_def heap_obj_def)
  moreover have "system_ok h s" "heap_live h s = {}"
    using s assms(2) heap_live_inv [OF s(2)] by (auto simp: system_ok_def heap_ok_def)
  ultimately show thesis using s by (intro that [of s]) (simp_all add: rt_system_heap_init_def)
qed

lemma reach_system:
  assumes "heap_reach h begin_addr end_addr s" "pool_ok h begin_addr (end_addr - begin_addr)"
  shows "system_ok h s \<and> start_addr (heaps s h) = begin_addr \<and>
    unat (pool_size (heaps s h)) = unat (end_addr - begin_addr) div 4 * 4"
  using assms
proof induction
  case (start s0 s)
  then show ?case using init_system [OF start(3,1)] by (metis option.inject)
next
  case (step s t)
  then show ?case using heap_step_ok [of h s t] by (simp add: same_pool_def)
qed

section \<open>The free list\<close>

partial_function (option) walk_free :: "kheap \<Rightarrow> u32 \<Rightarrow> u32 \<Rightarrow> u32 list option" where
  "walk_free s fl a = (if a = fl then Some []
     else do { fs \<leftarrow> walk_free s fl (next_free (items s a)); Some (a # fs) })"

declare walk_free.simps [code]

text \<open>The sizes of the free blocks, in the order of the free list.\<close>

definition free_sizes :: "kheap \<Rightarrow> u32 \<Rightarrow> u32 list" where
  "free_sizes s h = (let fl = free_list (heaps s h) in
     case walk_free s fl (next_free (items s fl)) of None \<Rightarrow> [] | Some fs \<Rightarrow> map (MEMITEM_SIZE s) fs)"

lemma walk_free_ring:
  assumes "dl_ring (nf s) (pf s) (fl # us @ vs)"
  shows "walk_free s fl (hd (vs @ [fl])) = Some vs"
  using assms
proof (induction vs arbitrary: us)
  case Nil
  then show ?case by (subst walk_free.simps) simp
next
  case (Cons v vs)
  have "v \<noteq> fl" using dl_ring_distinct [OF Cons.prems] by auto
  moreover have "nf s v = hd (vs @ [fl])"
  proof (cases vs)
    case Nil
    then show ?thesis using dl_ring_last(1) [of "nf s" "pf s" fl "us @ [v]"] Cons.prems by simp
  next
    case (Cons w ws)
    then show ?thesis using dl_ring_next(1) [of "nf s" "pf s" "fl # us" v w ws] Cons.prems by simp
  qed
  moreover have "walk_free s fl (hd (vs @ [fl])) = Some vs" using Cons.IH [of "us @ [v]"] Cons.prems by simp
  ultimately show ?case by (subst walk_free.simps) (simp add: items_proj)
qed

lemma free_sizes_inv:
  assumes "heap_inv s h bs fs"
  shows "free_sizes s h = map (MEMITEM_SIZE s) fs"
proof -
  have fl: "free_list (heaps s h) = free_header h" "dl_ring (nf s) (pf s) (free_header h # [] @ fs)"
    using assms by (simp_all add: heap_inv_def heap_core_def heap_obj_def)
  have "nf s (free_header h) = hd (fs @ [free_header h])"
  proof (cases fs)
    case Nil
    then show ?thesis using fl(2) by (simp add: dl_ring_singleton)
  next
    case (Cons w ws)
    then show ?thesis using dl_ring_next(1) [of "nf s" "pf s" "[]" "free_header h" w ws] fl(2) by simp
  qed
  then show ?thesis using walk_free_ring [OF fl(2)] by (simp add: free_sizes_def items_proj fl(1))
qed

lemma alloc_null_iff:
  assumes "heap_ok h s"
  shows "rt_memheap_alloc h n s = Some (0, s) \<longleftrightarrow>
    available_size (heaps s h) \<le> request_size n \<or> (\<forall>k\<in>set (free_sizes s h). k < request_size n)"
proof -
  obtain bs fs where inv: "heap_inv s h bs fs" using assms by (auto simp: heap_ok_def)
  note fz = free_sizes_inv [OF inv] and obj = heap_ok_obj [OF assms]
  show ?thesis
    using inv
  proof (cases rule: alloc_outcome [of s h bs fs n])
    case none
    then show ?thesis by (auto simp: fz)
  next
    case (some ptr k t bs' fs')
    have av: "\<not> available_size (heaps s h) \<le> request_size n"
    proof
      assume "available_size (heaps s h) \<le> request_size n"
      then have "\<not> request_size n < available_size (heaps s h)" by simp
      then have "rt_memheap_alloc h n s = Some (0, s)" using obj by (simp add: alloc_code)
      with some show False by simp
    qed
    have "\<exists>a\<in>set fs. request_size n \<le> MEMITEM_SIZE s a"
    proof (rule ccontr)
      assume "\<not> ?thesis"
      moreover obtain s1 where s1: "sem_take h s = Some s1" "heap_core s1 h bs fs"
        "s1 = upd_heap h (lock_value_update (\<lambda>v. v - 1)) s" using sem_take_inv [OF inv] by metis
      ultimately have small: "\<forall>a\<in>set fs. MEMITEM_SIZE s1 a < request_size n" by (auto simp: MEMITEM_SIZE_nx)
      have fl: "free_list (heaps s1 h) = free_header h" "dl_ring (nf s1) (pf s1) (free_header h # fs)"
        using s1(2) by (simp_all add: heap_core_def heap_obj_def)
      have pos: "0 < request_size n" using request_size_aligned(2) [of n] by (simp add: word_less_nat_alt)
      from fl(2) pos obtain a y where "find_block s1 (free_header h) (request_size n) (nf s1 (free_header h)) 0 = Some (a, y)"
        "\<not> request_size n \<le> y" by (cases rule: find_block_result) (use small in auto)
      then have "rt_memheap_alloc h n s = Some (0, sem_release h s1)"
        using obj av s1(1) fl(1) by (simp add: alloc_code items_proj)
      with some show False by simp
    qed
    then show ?thesis using some av by (auto simp: fz not_less)
  qed
qed

section \<open>No leaks\<close>

lemma empty_heap:
  assumes "heap_ok h s" "heap_live h s = {}"
  shows "unat (available_size (heaps s h)) + 48 = unat (pool_size (heaps s h)) \<and> length (free_sizes s h) = 1"
proof -
  obtain bs fs where inv: "heap_inv s h bs fs" using assms(1) by (auto simp: heap_ok_def)
  then have c: "layout h bs" "coalesced s bs" "is_used s (last bs)" "heap_obj s h bs" "dl_ring (nx s) (pv s) bs"
    "dl_ring (nf s) (pf s) (free_header h # fs)"
    "set fs = unused s bs" "unat (available_size (heaps s h)) = sum_list (map (bsz s) fs)"
    by (simp_all add: heap_inv_def heap_core_def marked_alt)
  have "live s bs = {}" using assms(2) heap_live_inv [OF inv] by simp
  then have free: "\<forall>a\<in>set (butlast bs). \<not> is_used s a" by (auto simp: live_def set_lives)
  obtain a b ys where bs: "bs = a # b # ys" using c(1) by (cases bs; cases "tl bs") (auto simp: layout_def)
  have "\<not> is_used s a" using free by (simp add: bs)
  then have ub: "is_used s b" using c(2) by (simp add: bs coalesced_Cons)
  have ys: "ys = []"
  proof (rule ccontr)
    assume "ys \<noteq> []"
    then have "b \<in> set (butlast bs)" by (simp add: bs)
    with free ub show False by simp
  qed
  have "set fs = {a}" using c(7) \<open>\<not> is_used s a\<close> ub by (auto simp: bs ys)
  moreover have "distinct fs" using dl_ring_distinct [OF c(6)] by simp
  ultimately have "length fs = 1" using distinct_card [of fs] by simp
  then have fs: "fs = [a]" using \<open>set fs = {a}\<close> by (cases fs) auto
  have "bsz s a = unat b - unat a - 24" "unat a + 36 \<le> unat b"
    using block_size(3) [of h "[]" a b ys s] layout_block(1) [of h "[]" a b ys] c by (simp_all add: bs)
  moreover have "unat (pool_size (heaps s h)) = unat b + 24 - unat a" using c(4) by (simp add: heap_obj_def bs ys)
  ultimately show ?thesis using c(8) free_sizes_inv [OF inv] by (simp add: fs)
qed

section \<open>An example heap\<close>

text \<open>A pool of one kilobyte, and the heap after the allocation of 100 bytes.\<close>

definition blank_kheap :: kheap where
  "blank_kheap = \<lparr>items = (\<lambda>_. \<lparr>magic = 0, pool_ptr = 0, nxt = 0, prv = 0, next_free = 0, prev_free = 0\<rparr>),
     heaps = (\<lambda>_. \<lparr>obj_type = 0, start_addr = 0, pool_size = 0, available_size = 0, max_used_size = 0,
        block_list = 0, free_list = 0, lock_value = 0\<rparr>), objs = [], kmem = (\<lambda>_. 0)\<rparr>"

definition example_heap :: kheap where
  "example_heap = the (rt_system_heap_init 0x20000000 0x24000000 0x24000400 blank_kheap)"

definition example_block :: kheap where
  "example_block = snd (the (rt_malloc 0x20000000 100 example_heap))"

lemma example_pool: "pool_ok 0x20000000 0x24000000 (0x24000400 - 0x24000000)"
  by (simp add: pool_ok_def free_header_def)

lemma example_init: "rt_system_heap_init 0x20000000 0x24000000 0x24000400 blank_kheap = Some example_heap"
  "system_ok 0x20000000 example_heap"
proof -
  have "objs blank_kheap = []" by (simp add: blank_kheap_def)
  from init_system [OF example_pool this]
  show "rt_system_heap_init 0x20000000 0x24000000 0x24000400 blank_kheap = Some example_heap"
    "system_ok 0x20000000 example_heap" by (metis example_heap_def option.sel)+
qed

lemma example_malloc: "rt_malloc 0x20000000 100 example_heap = Some (0x24000018, example_block)"
proof -
  obtain p t where a: "rt_malloc 0x20000000 100 example_heap = Some (p, t)"
    using system.alloc_total [OF example_init(2)] by blast
  have "map_option fst (rt_malloc 0x20000000 100 example_heap) = Some 0x24000018" by code_simp
  with a show ?thesis by (simp add: example_block_def)
qed

lemma example_block_ok: "system_ok 0x20000000 example_block"
  using malloc_step [OF example_init(2) example_malloc] by simp

lemma example_live: "heap_live 0x20000000 example_heap = {}" "heap_live 0x20000000 example_block = {(0x24000018, 100)}"
proof -
  have "live_blocks example_heap 0x20000000 = []" by code_simp
  then show "heap_live 0x20000000 example_heap = {}" by (simp add: heap_live_def)
  have "live_blocks example_block 0x20000000 = [(0x24000018, 100)]" by code_simp
  then show "heap_live 0x20000000 example_block = {(0x24000018, 100)}" by (simp add: heap_live_def)
qed

section \<open>Sizes that wrap around\<close>

lemma free_list_remove_keeps [simp]: "nx (free_list_remove n s) = nx s" "pv (free_list_remove n s) = pv s"
  by (simp_all add: free_list_remove_def Let_def items_proj)

lemma request_size_wraps:
  assumes "0xFFFFFFFC < n"
  shows "request_size n = 12"
proof -
  have "n \<in> {0xFFFFFFFD, 0xFFFFFFFE, 0xFFFFFFFF}"
  proof -
    have "unat n \<in> {0xFFFFFFFD, 0xFFFFFFFE, 0xFFFFFFFF}" using assms unat_u32_less [of n] by (auto simp: word_less_nat_alt)
    then show ?thesis by (auto simp: word_unat_eq_iff)
  qed
  then show ?thesis by (auto simp: request_size_def RT_ALIGN_def)
qed

lemma grow_wraps:
  assumes ok: "heap_ok h s" and lv: "(ptr, n) \<in> heap_live h s" and free: "\<not> is_used s (nxt (items s (ptr - 24)))"
    and sz: "newsize \<in> {0xFFFFFFF4, 0xFFFFFFF8, 0xFFFFFFFC}"
  obtains t where "rt_memheap_grow h ptr newsize s = Some (ptr, t)" "nxt (items t (ptr - 24)) = ptr + newsize"
proof -
  obtain bs fs where inv: "heap_inv s h bs fs" using ok by (auto simp: heap_ok_def)
  have core: "heap_core s h bs fs" using inv by (simp add: heap_inv_def)
  have lv': "(ptr, n) \<in> live s bs" using lv heap_live_inv [OF inv] by simp
  obtain p a b ys where a: "bs = p @ a # b # ys" "is_used s a" "n = MEMITEM_SIZE s a" "ptr = a + 24"
    "unat ptr = unat a + 24" "unat ptr + unat n = unat b" "12 \<le> unat n" "unat b + 24 \<le> 2 ^ 32"
    using live_block_bounds [OF core lv'] .
  obtain s1 where s1: "sem_take h s = Some s1" "heap_core s1 h bs fs" "s1 = upd_heap h (lock_value_update (\<lambda>v. v - 1)) s"
    using sem_take_inv [OF inv] by metis
  have p1: "is_used s1 = is_used s" "MEMITEM_SIZE s1 = MEMITEM_SIZE s" "nx s1 = nx s" "pv s1 = pv s"
    by (simp_all add: s1(3) fun_eq_iff is_used_mg MEMITEM_SIZE_nx)
  have r: "dl_ring (nx s) (pv s) bs" "layout h bs" "marked s h bs" using core by (simp_all add: heap_core_def)
  have nb: "nx s a = b" "pv s b = a" using dl_ring_next [OF r(1) [unfolded a(1)]] by auto
  have hd: "ptr - 24 = a" by (simp add: a(4))
  have ub: "\<not> is_used s b" using free by (simp add: hd items_proj nb)
  then obtain c zs where ys: "ys = c # zs" using r(3) a(1) by (cases ys) (auto simp: marked_alt)
  have nc: "nx s b = c" using dl_ring_next(1) [of "nx s" "pv s" "p @ [a]" b c zs] r(1) by (simp add: a(1) ys)
  have lc: "unat b + 36 \<le> unat c" "unat c + 24 \<le> 2 ^ 32" "unat (MEMITEM_SIZE s b) = unat c - unat b - 24"
    using layout_block(1,2) [of h "p @ [a]" b c zs] block_size(3,4) [of h "p @ [a]" b c zs s] r by (simp_all add: a(1) ys)
  have "unat (MEMITEM_SIZE s b + n) = unat (MEMITEM_SIZE s b) + unat n"
    using lc a(5,6) by (intro unat_add_u32) simp
  then have cond: "MEMITEM_SIZE s b + n > newsize + 12"
    using sz a(7) lc by (auto simp: word_less_nat_alt)
  have ab: "a < b" using a(5,6) by (simp add: word_less_nat_alt)
  define t where "t = sem_release h (grow_into h ptr a n newsize s1)"
  have "rt_memheap_grow h ptr newsize s = Some (ptr, t)"
    using ub cond ab by (simp add: rt_memheap_grow_def Let_def hd s1(1) items_proj p1 nb a(3) t_def)
  moreover have "nx t a = ptr + newsize"
  proof -
    let ?n = "ptr + newsize"
    have "?n \<in> {a + 12, a + 16, a + 20}" using sz by (auto simp: a(4))
    then have un: "unat ?n \<in> {unat a + 12, unat a + 16, unat a + 20}"
      using unat_add_u32 [of a 12] unat_add_u32 [of a 16] unat_add_u32 [of a 20] a(5,6,8) by auto
    then have ne: "?n \<noteq> a" "c \<noteq> ?n" using lc(1) a(5,6) by auto
    define s5 where "s5 = set_pool ?n h (set_magic ?n 0x1ea01ea0 (set_nxt a c (set_prv c a
      (free_list_remove b (account_use h (available_size (heaps s1 h) - (newsize - n)) s1)))))"
    have "nx s5 a = c" using ne by (simp add: s5_def items_proj)
    then have "nx (block_insert a ?n s5) a = ?n" using block_insert_proj(1) [of ?n a s5] ne by simp
    moreover have "c \<noteq> b" using lc(1) by auto
    then have "grow_into h ptr a n newsize s1 = free_list_insert h ?n (block_insert a ?n s5)"
      by (simp add: grow_into_def Let_def items_proj p1 nb nc account_use_proj s5_def)
    ultimately show ?thesis by (simp add: t_def sem_release_def)
  qed
  ultimately show thesis by (intro that) (simp_all add: hd items_proj)
qed

section \<open>Properties\<close>

text \<open>
  Initialising the system heap on a usable pool (word-aligned, at least 60 bytes, inside the address
  space and away from the heap object) returns with a well-formed heap without live blocks, whose free bytes
  are the pool size rounded down to words less the two headers.
\<close>

theorem heap_init_establishes:
  assumes "pool_ok h begin_addr (end_addr - begin_addr)" "objs s0 = []"
  shows "\<exists>s. rt_system_heap_init h begin_addr end_addr s0 = Some s \<and> system_ok h s \<and> heap_live h s = {} \<and>
    kmem s = kmem s0 \<and> unat (available_size (heaps s h)) = unat (end_addr - begin_addr) div 4 * 4 - 48"
  using init_system [OF assms] by metis

lemma heap_init_establishes_witness:
  "\<exists>s. rt_system_heap_init 0x20000000 0x24000000 0x24000400 blank_kheap = Some s \<and> system_ok 0x20000000 s \<and>
    heap_live 0x20000000 s = {} \<and> kmem s = kmem blank_kheap \<and>
    unat (available_size (heaps s 0x20000000)) = unat ((0x24000400 :: u32) - 0x24000000) div 4 * 4 - 48"
  using heap_init_establishes [OF example_pool, of blank_kheap] by (simp add: blank_kheap_def)

text \<open>
  C12. \<open>rt_malloc\<close> on a well-formed system heap always returns, keeps the heap well-formed and changes no byte
  of the callers' memory. It returns null and changes nothing, or the word-aligned address of a new live block of at
  least the requested size that shares no byte with any block that was live before.
\<close>

theorem malloc_returns_fresh:
  assumes "system_ok h s" "unat n \<le> 2 ^ 32 - 4"
  shows "\<exists>p t. rt_malloc h n s = Some (p, t) \<and> system_ok h t \<and> kmem t = kmem s \<and>
    (if p = 0 then heap_live h t = heap_live h s
     else unat p mod 4 = 0 \<and> (\<exists>m. n \<le> m \<and> heap_live h t = insert (p, m) (heap_live h s) \<and>
       (\<forall>b\<in>heap_live h s. region (p, m) \<inter> region b = {})))"
proof -
  obtain p t where a: "rt_malloc h n s = Some (p, t)" "system_ok h t" using system.alloc_total [OF assms(1)] by blast
  have k: "kmem t = kmem s" using malloc_frame [OF assms(1) a(1)] by (simp add: heap_frame_def)
  show ?thesis
  proof (cases "p = 0")
    case True
    then show ?thesis using a k system.alloc_null [OF assms(1)] by auto
  next
    case False
    obtain m where m: "n \<le> m" "(p, m) \<notin> heap_live h s" "heap_live h t = insert (p, m) (heap_live h s)"
      using system.alloc_block [OF assms(1) a(1) False assms(2)] by blast
    then have "\<forall>b\<in>heap_live h s. region (p, m) \<inter> region b = {}"
      using system.live_disjoint [OF a(2)] unfolding disjoint_regions_def by (metis insertCI)
    with m False a k system.alloc_aligned [OF assms(1) a(1)] show ?thesis by auto
  qed
qed

lemma malloc_returns_fresh_witness:
  "\<exists>p t. rt_malloc 0x20000000 20 example_block = Some (p, t) \<and> system_ok 0x20000000 t \<and> kmem t = kmem example_block \<and>
    (if p = 0 then heap_live 0x20000000 t = {(0x24000018, 100)}
     else unat p mod 4 = 0 \<and> (\<exists>m. 20 \<le> m \<and> heap_live 0x20000000 t = insert (p, m) {(0x24000018, 100)} \<and>
       region (p, m) \<inter> region (0x24000018, 100) = {}))"
proof -
  have "unat (20 :: u32) \<le> 2 ^ 32 - 4" by simp
  from malloc_returns_fresh [OF example_block_ok this] show ?thesis
    unfolding example_live by (simp only: ball_simps simp_thms)
qed

text \<open>
  C35. \<open>rt_malloc\<close> fails exactly if the request, rounded up to words and to at least 12 bytes, is not smaller than the
  number of free bytes, or larger than every free block; then the heap is unchanged.
\<close>

theorem malloc_fails_iff:
  assumes "system_ok h s"
  shows "(\<exists>t. rt_malloc h n s = Some (0, t)) \<longleftrightarrow>
    available_size (heaps s h) \<le> request_size n \<or> (\<forall>k\<in>set (free_sizes s h). k < request_size n)"
proof -
  have ok: "heap_ok h s" using assms by (simp add: system_ok_def)
  obtain bs fs where inv: "heap_inv s h bs fs" using ok by (auto simp: heap_ok_def)
  have "t = s" if "rt_memheap_alloc h n s = Some (0, t)" for t
    using inv by (cases rule: alloc_outcome [of s h bs fs n]) (use that in auto)
  then have "(\<exists>t. rt_malloc h n s = Some (0, t)) \<longleftrightarrow> rt_memheap_alloc h n s = Some (0, s)"
    unfolding rt_malloc_system [OF assms] by auto
  then show ?thesis using alloc_null_iff [OF ok] by simp
qed

lemma malloc_fails_iff_witness:
  "(\<exists>t. rt_malloc 0x20000000 852 example_block = Some (0, t)) \<and> \<not> (\<exists>t. rt_malloc 0x20000000 848 example_block = Some (0, t))"
proof -
  have "available_size (heaps example_block 0x20000000) \<le> request_size 852"
    "\<not> (available_size (heaps example_block 0x20000000) \<le> request_size 848 \<or>
      (\<forall>k\<in>set (free_sizes example_block 0x20000000). k < request_size 848))" by code_simp+
  then show ?thesis using malloc_fails_iff [OF example_block_ok, of 852] malloc_fails_iff [OF example_block_ok, of 848] by blast
qed

text \<open>
  C13. \<open>rt_free\<close> of a live block returns without a failed assertion, removes exactly this block from the live ones,
  keeps the heap well-formed (free neighbours are joined) and changes no byte of the callers' memory.
\<close>

theorem free_releases:
  assumes "system_ok h s" "(p, m) \<in> heap_live h s"
  shows "\<exists>t. rt_free p s = Some t \<and> system_ok h t \<and> heap_live h t = heap_live h s - {(p, m)} \<and> kmem t = kmem s"
proof -
  obtain t where t: "rt_free p s = Some t" "system_ok h t" "heap_live h t = heap_live h s - {(p, m)}"
    using system.release_block [OF assms] by blast
  moreover have "kmem t = kmem s"
    using free_frame [of h s p m t] assms t(1) by (simp add: system_ok_def rt_free_def heap_frame_def)
  ultimately show ?thesis by blast
qed

lemma free_releases_witness:
  "\<exists>t. rt_free 0x24000018 example_block = Some t \<and> system_ok 0x20000000 t \<and> heap_live 0x20000000 t = {} \<and> kmem t = kmem example_block"
  using free_releases [OF example_block_ok, of "0x24000018" 100] unfolding example_live by simp

text \<open>
  C34. \<open>rt_realloc\<close> of a live block to a size up to \<open>2 ^ 32 - 16\<close> returns, keeps the heap well-formed and either
  fails without any change, or replaces the block by one of at least the new size that holds the old bytes up to the smaller
  of the two sizes; the other live blocks stay.
\<close>

theorem realloc_replaces:
  assumes "system_ok h s" "(ptr, n) \<in> heap_live h s" "req \<noteq> 0" "unat req \<le> 2 ^ 32 - 16"
  shows "\<exists>q t. rt_realloc h ptr req s = Some (q, t) \<and> system_ok h t \<and>
    (if q = 0 then t = s
     else (\<exists>m. req \<le> m \<and> heap_live h t = insert (q, m) (heap_live h s - {(ptr, n)})) \<and>
       bytes_at (kmem t) q (min (unat n) (unat req)) = bytes_at (kmem s) ptr (min (unat n) (unat req)))"
proof -
  obtain q t where r: "rt_realloc h ptr req s = Some (q, t)" "resized h s ptr n req (q, t)" "system_ok h t"
    using rt_realloc_system [OF assms] .
  have "if q = 0 then t = s
     else (\<exists>m. req \<le> m \<and> heap_live h t = insert (q, m) (heap_live h s - {(ptr, n)})) \<and>
       bytes_at (kmem t) q (min (unat n) (unat req)) = bytes_at (kmem s) ptr (min (unat n) (unat req))"
    using r(2) unfolding resized_def prod.case by (cases "q = 0") auto
  with r show ?thesis by blast
qed

lemma realloc_replaces_witness:
  "\<exists>q t. rt_realloc 0x20000000 0x24000018 300 example_block = Some (q, t) \<and> system_ok 0x20000000 t \<and>
    (if q = 0 then t = example_block
     else (\<exists>m. 300 \<le> m \<and> heap_live 0x20000000 t = insert (q, m) ({(0x24000018, 100)} - {(0x24000018, 100)})) \<and>
       bytes_at (kmem t) q (min (unat (100 :: u32)) (unat (300 :: u32))) =
       bytes_at (kmem example_block) 0x24000018 (min (unat (100 :: u32)) (unat (300 :: u32))))"
proof -
  have lv: "(0x24000018, 100) \<in> heap_live 0x20000000 example_block" by (simp add: example_live)
  have n: "(300 :: u32) \<noteq> 0" "unat (300 :: u32) \<le> 2 ^ 32 - 16" by simp_all
  from realloc_replaces [OF example_block_ok lv n] show ?thesis unfolding example_live .
qed

text \<open>
  \<open>rt_calloc\<close> returns null, or a new live block that holds \<open>count * size\<close> zero bytes and changes no other byte,
  provided the product is at most \<open>2 ^ 32 - 4\<close>.
\<close>

theorem calloc_clears:
  assumes "system_ok h s" "unat count * unat sz \<le> 2 ^ 32 - 4"
  shows "\<exists>p t. rt_calloc h count sz s = Some (p, t) \<and> system_ok h t \<and>
    (if p = 0 then heap_live h t = heap_live h s
     else (\<exists>m. unat count * unat sz \<le> unat m \<and> (p, m) \<notin> heap_live h s \<and> heap_live h t = insert (p, m) (heap_live h s)) \<and>
       kmem t = store_bytes (kmem s) p (replicate (unat count * unat sz) 0))"
  using assms(1) assms(2)
proof (cases rule: calloc_outcome)
  case (none t)
  then show ?thesis by auto
next
  case (some p t m)
  then have "if p = 0 then heap_live h t = heap_live h s
     else (\<exists>m. unat count * unat sz \<le> unat m \<and> (p, m) \<notin> heap_live h s \<and> heap_live h t = insert (p, m) (heap_live h s)) \<and>
       kmem t = store_bytes (kmem s) p (replicate (unat count * unat sz) 0)" by auto
  with some(1,3) show ?thesis by blast
qed

lemma calloc_clears_witness:
  "\<exists>p t. rt_calloc 0x20000000 5 8 example_heap = Some (p, t) \<and> system_ok 0x20000000 t \<and>
    (if p = 0 then heap_live 0x20000000 t = {}
     else (\<exists>m. unat (5 :: u32) * unat (8 :: u32) \<le> unat m \<and> (p, m) \<notin> {} \<and> heap_live 0x20000000 t = insert (p, m) {}) \<and>
       kmem t = store_bytes (kmem example_heap) p (replicate (unat (5 :: u32) * unat (8 :: u32)) 0))"
  using calloc_clears [OF example_init(2), of 5 8] unfolding example_live by simp

text \<open>
  C36. For an alignment \<open>2 ^ k\<close> of at least 4, \<open>rt_malloc_align\<close> returns null or an address with this alignment
  that has the requested bytes inside one new live block; and whatever the caller writes outside the
  four bytes in front of this address, \<open>rt_free_align\<close> of it releases exactly this block.
\<close>

theorem malloc_align_roundtrip:
  assumes "system_ok h s" "2 \<le> k" "k < 32" "unat sz + 2 ^ k + 8 \<le> 2 ^ 32"
  shows "\<exists>q t. rt_malloc_align h sz (2 ^ k) s = Some (q, t) \<and> system_ok h t \<and>
    (if q = 0 then heap_live h t = heap_live h s
     else unat q mod 2 ^ k = 0 \<and> (\<exists>b. b \<notin> heap_live h s \<and> heap_live h t = insert b (heap_live h s) \<and> region (q, sz) \<subseteq> region b) \<and>
       (\<forall>mem. bytes_at mem (q - 4) 4 = bytes_at (kmem t) (q - 4) 4 \<longrightarrow>
          (\<exists>u. rt_free_align q (t\<lparr>kmem := mem\<rparr>) = Some u \<and> system_ok h u \<and> heap_live h u = heap_live h s)))"
  using assms
proof (cases rule: malloc_align_outcome)
  case (none t)
  then show ?thesis by auto
next
  case (some q t ptr m)
  have "\<exists>u. rt_free_align q (t\<lparr>kmem := mem\<rparr>) = Some u \<and> system_ok h u \<and> heap_live h u = heap_live h s"
    if "bytes_at mem (q - 4) 4 = bytes_at (kmem t) (q - 4) 4" for mem
  proof -
    have l: "heap_live h (t\<lparr>kmem := mem\<rparr>) = insert (ptr, m) (heap_live h s)" "system_ok h (t\<lparr>kmem := mem\<rparr>)"
      using some(3,4) by (simp_all add: system_ok_def)
    have b: "(ptr, m) \<in> heap_live h (t\<lparr>kmem := mem\<rparr>)" using l(1) by simp
    have q: "bytes_at (kmem (t\<lparr>kmem := mem\<rparr>)) (q - 4) 4 =
        [ucast ptr, ucast (drop_bit 8 ptr), ucast (drop_bit 16 ptr), ucast (drop_bit 24 ptr)]" using that some(9) by simp
    obtain u where "rt_free_align q (t\<lparr>kmem := mem\<rparr>) = Some u" "system_ok h u"
      "heap_live h u = heap_live h (t\<lparr>kmem := mem\<rparr>) - {(ptr, m)}" using free_align_outcome [OF l(2) b q] .
    then show ?thesis using l(1) some(5) by auto
  qed
  moreover have "\<exists>b. b \<notin> heap_live h s \<and> heap_live h t = insert b (heap_live h s) \<and> region (q, sz) \<subseteq> region b"
    using some(4,5,7) by blast
  ultimately have "if q = 0 then heap_live h t = heap_live h s
     else unat q mod 2 ^ k = 0 \<and> (\<exists>b. b \<notin> heap_live h s \<and> heap_live h t = insert b (heap_live h s) \<and> region (q, sz) \<subseteq> region b) \<and>
       (\<forall>mem. bytes_at mem (q - 4) 4 = bytes_at (kmem t) (q - 4) 4 \<longrightarrow>
          (\<exists>u. rt_free_align q (t\<lparr>kmem := mem\<rparr>) = Some u \<and> system_ok h u \<and> heap_live h u = heap_live h s))"
    using some(2,6) by simp
  with some(1,3) show ?thesis by blast
qed

lemma malloc_align_roundtrip_witness:
  "\<exists>q t. rt_malloc_align 0x20000000 50 (2 ^ 5) example_heap = Some (q, t) \<and> system_ok 0x20000000 t \<and>
    (if q = 0 then heap_live 0x20000000 t = {}
     else unat q mod 2 ^ 5 = 0 \<and> (\<exists>b. b \<notin> {} \<and> heap_live 0x20000000 t = insert b {} \<and> region (q, 50) \<subseteq> region b) \<and>
       (\<forall>mem. bytes_at mem (q - 4) 4 = bytes_at (kmem t) (q - 4) 4 \<longrightarrow>
          (\<exists>u. rt_free_align q (t\<lparr>kmem := mem\<rparr>) = Some u \<and> system_ok 0x20000000 u \<and> heap_live 0x20000000 u = {})))"
  using malloc_align_roundtrip [OF example_init(2), of 5 50] unfolding example_live by simp

text \<open>
  C14. In every state that calls of the heap interface within its contract and writes inside live blocks can reach (only live
  blocks released or resized; sizes up to \<open>2 ^ 32 - 4\<close>, in \<open>rt_realloc\<close> up to \<open>2 ^ 32 - 16\<close>), the
  live blocks are pairwise disjoint and lie inside the pool the heap was created on, the heap is well-formed, and its lock is free.
\<close>

theorem heap_reachable_safe:
  assumes "heap_reach h begin_addr end_addr s" "pool_ok h begin_addr (end_addr - begin_addr)"
  shows "system_ok h s \<and> disjoint_regions (heap_live h s) \<and> lock_value (heaps s h) = 1 \<and>
    (\<forall>b\<in>heap_live h s. region b \<subseteq> {unat begin_addr..<unat begin_addr + unat (end_addr - begin_addr)})"
proof -
  have r: "system_ok h s" "start_addr (heaps s h) = begin_addr" "unat (pool_size (heaps s h)) = unat (end_addr - begin_addr) div 4 * 4"
    using reach_system [OF assms] by simp_all
  have "pool_region h s \<subseteq> {unat begin_addr..<unat begin_addr + unat (end_addr - begin_addr)}"
    by (auto simp: pool_region_def r(2,3))
  then have "\<forall>b\<in>heap_live h s. region b \<subseteq> {unat begin_addr..<unat begin_addr + unat (end_addr - begin_addr)}"
    using live_in_pool r(1) unfolding system_ok_def by blast
  moreover have "lock_value (heaps s h) = 1" using r(1) by (auto simp: system_ok_def heap_ok_def heap_inv_def)
  ultimately show ?thesis using r(1) system.live_disjoint by blast
qed

lemma example_reach: "heap_reach 0x20000000 0x24000000 0x24000400 example_block"
proof -
  have "heap_reach 0x20000000 0x24000000 0x24000400 example_heap"
    by (rule heap_reach.start [OF _ example_init(1)]) (simp add: blank_kheap_def)
  then show ?thesis by (rule heap_reach.step [OF _ heap_step.malloc [OF example_malloc]]) simp
qed

lemma heap_reachable_safe_witness:
  "system_ok 0x20000000 example_block \<and> disjoint_regions {(0x24000018, 100)} \<and> lock_value (heaps example_block 0x20000000) = 1 \<and>
    region (0x24000018, 100) \<subseteq> {unat (0x24000000 :: u32)..<unat (0x24000000 :: u32) + unat ((0x24000400 :: u32) - 0x24000000)}"
  using heap_reachable_safe [OF example_reach example_pool] unfolding example_live by blast

text \<open>
  C33. Nothing leaks and nothing stays fragmented: in a state that such calls reach (with the same limits of the sizes),
  whenever all blocks have been released, in whatever order, the free list holds a single block and the number of free bytes is what it was after the initialisation.
\<close>

theorem heap_no_leak:
  assumes "heap_reach h begin_addr end_addr s" "pool_ok h begin_addr (end_addr - begin_addr)" "heap_live h s = {}"
  shows "unat (available_size (heaps s h)) = unat (end_addr - begin_addr) div 4 * 4 - 48 \<and> length (free_sizes s h) = 1"
proof -
  have "heap_ok h s" "unat (pool_size (heaps s h)) = unat (end_addr - begin_addr) div 4 * 4"
    using reach_system [OF assms(1,2)] by (simp_all add: system_ok_def)
  moreover from this(1) have "unat (available_size (heaps s h)) + 48 = unat (pool_size (heaps s h))" "length (free_sizes s h) = 1"
    using empty_heap [OF _ assms(3)] by simp_all
  ultimately show ?thesis by simp
qed

lemma heap_no_leak_witness:
  "\<exists>t. rt_free 0x24000018 example_block = Some t \<and> unat (available_size (heaps t 0x20000000)) = 976 \<and>
    length (free_sizes t 0x20000000) = 1"
proof -
  have lv: "(0x24000018, 100) \<in> heap_live 0x20000000 example_block" by (simp add: example_live)
  then obtain t where t: "rt_free 0x24000018 example_block = Some t" "heap_live 0x20000000 t = {}"
    using system.release_block [OF example_block_ok lv] by (auto simp: example_live)
  have "heap_reach 0x20000000 0x24000000 0x24000400 t"
    by (rule heap_reach.step [OF example_reach heap_step.free [OF lv t(1)]])
  from heap_no_leak [OF this example_pool t(2)] t(1) show ?thesis by simp
qed

text \<open>
  A request of more than \<open>0xFFFFFFFC\<close> bytes wraps around when it is rounded up: \<open>rt_malloc\<close> treats it as a
  request of 12 bytes and can return a block of that size.
\<close>

theorem malloc_size_wraps:
  assumes "system_ok h s" "0xFFFFFFFC < n"
  shows "rt_malloc h n s = rt_malloc h 12 s"
proof -
  have ok: "heap_ok h s" using assms(1) by (simp add: system_ok_def)
  show ?thesis unfolding rt_malloc_system [OF assms(1)]
    using alloc_request [OF ok, of n] unfolding request_size_wraps [OF assms(2)] .
qed

lemma malloc_size_wraps_witness:
  "rt_malloc 0x20000000 0xFFFFFFFF example_heap = rt_malloc 0x20000000 12 example_heap \<and>
   map_option fst (rt_malloc 0x20000000 12 example_heap) = Some 0x24000018"
proof
  show "rt_malloc 0x20000000 0xFFFFFFFF example_heap = rt_malloc 0x20000000 12 example_heap"
    by (rule malloc_size_wraps [OF example_init(2)]) simp
  show "map_option fst (rt_malloc 0x20000000 12 example_heap) = Some 0x24000018" by code_simp
qed

text \<open>
  C37. When the block behind is free, \<open>rt_memheap_realloc\<close> to \<open>0xFFFFFFF1\<close> .. \<open>0xFFFFFFFC\<close> bytes reports success: the comparison
  with the room that is there wraps around, and the next header is written into the header of the block itself.
\<close>

theorem realloc_size_wraps:
  assumes "heap_ok h s" "(ptr, n) \<in> heap_live h s" "\<not> is_used s (nxt (items s (ptr - 24)))"
    and "0xFFFFFFF1 \<le> req" "req \<le> 0xFFFFFFFC"
  shows "\<exists>t. rt_memheap_realloc h ptr req s = Some (ptr, t) \<and>
    nxt (items t (ptr - 24)) \<in> {ptr - 12, ptr - 8, ptr - 4}"
proof -
  have r: "0xFFFFFFF1 \<le> unat req" "unat req \<le> 0xFFFFFFFC" using assms(4,5) by (simp_all add: word_le_nat_alt)
  define y where "y = (unat req + 3) div 4"
  have ua: "unat (RT_ALIGN req 4) = y * 4" using unat_RT_ALIGN [of req] unat_add_u32 [of req 3] r(2) by (simp add: y_def)
  have "0x3FFFFFFD \<le> y" using div_le_mono [of "0xFFFFFFF4" "unat req + 3" 4] r(1) by (simp add: y_def)
  moreover have "y \<le> 0x3FFFFFFF" using div_le_mono [of "unat req + 3" "0xFFFFFFFF" 4] r(2) by (simp add: y_def)
  ultimately have "y = 0x3FFFFFFD \<or> y = 0x3FFFFFFE \<or> y = 0x3FFFFFFF" by linarith
  then have "unat (RT_ALIGN req 4) \<in> {0xFFFFFFF4, 0xFFFFFFF8, 0xFFFFFFFC}" by (elim disjE) (simp_all add: ua)
  then have al: "RT_ALIGN req 4 \<in> {0xFFFFFFF4, 0xFFFFFFF8, 0xFFFFFFFC}" by (auto simp: word_unat_eq_iff)
  obtain t where t: "rt_memheap_grow h ptr (RT_ALIGN req 4) s = Some (ptr, t)" "nxt (items t (ptr - 24)) = ptr + RT_ALIGN req 4"
    using grow_wraps [OF assms(1-3) al] .
  have bd: "ptr \<noteq> 0" "unat ptr + unat n < 2 ^ 32" "4 \<le> unat ptr" using memheap.live_bounds [OF assms(1,2)] by auto
  obtain bs fs where inv: "heap_inv s h bs fs" using assms(1) by (auto simp: heap_ok_def)
  obtain a :: u32 where "n = MEMITEM_SIZE s a" "ptr = a + 24" "unat ptr = unat a + 24"
    using live_block_bounds [of s h bs fs ptr n] assms(2) heap_live_inv [OF inv] inv unfolding heap_inv_def by metis
  then have n: "n = MEMITEM_SIZE s (ptr - 24)" "24 \<le> unat ptr" by simp_all
  have "RT_ALIGN req 4 > n" "\<not> RT_ALIGN req 4 < 12" using al bd n(2) by (auto simp: word_less_nat_alt)
  moreover have "req \<noteq> 0" using assms(4) by auto
  ultimately have "rt_memheap_realloc h ptr req s = Some (ptr, t)"
    using heap_ok_obj [OF assms(1)] bd(1) t(1) by (simp add: rt_memheap_realloc_def Let_def n(1))
  then show ?thesis using t(2) al by auto
qed

lemma realloc_size_wraps_witness:
  "\<exists>t. rt_memheap_realloc 0x20000000 0x24000018 0xFFFFFFF8 example_block = Some (0x24000018, t) \<and>
    nxt (items t (0x24000018 - 24)) \<in> {0x24000018 - 12, 0x24000018 - 8, 0x24000018 - 4}"
proof -
  have ok: "heap_ok 0x20000000 example_block" using example_block_ok by (simp add: system_ok_def)
  have lv: "(0x24000018, 100) \<in> heap_live 0x20000000 example_block" by (simp add: example_live)
  have "\<not> is_used example_block (nxt (items example_block (0x24000018 - 24)))" by code_simp
  then show ?thesis by (rule realloc_size_wraps [OF ok lv]) simp_all
qed

end
