(* ===== verification/Ringbuffer_Heap.thy ===== *)
theory Ringbuffer_Heap
  imports Ringbuffer_Props Memheap_Props
begin

text \<open>
  Ring buffers on the system heap: \<open>rt_ringbuffer_create\<close> and \<open>rt_ringbuffer_destroy\<close> of
  \<open>rt-thread/components/drivers/src/ringbuffer.c\<close>. A created ring buffer is the address of its structure (12 bytes), the
  address of its array and the contents of the structure, in which the array is a list of bytes.
\<close>

definition rt_ringbuffer_create :: "u32 \<Rightarrow> int \<Rightarrow> kheap \<Rightarrow> (u32 \<times> u32 \<times> rt_ringbuffer) option kresult" where
  "rt_ringbuffer_create heap len s =
    (if len > 0 then
       (let sz = uint16 (RT_ALIGN_DOWN len 4) in do {
         (rb, s1) \<leftarrow> rt_malloc heap 12 s;
         if rb = 0 then Some (None, s1)
         else do {
           (pool, s2) \<leftarrow> rt_malloc heap (word_of_int sz) s1;
           if pool = 0 then do { s3 \<leftarrow> rt_free rb s2; Some (None, s3) }
           else do {
             r \<leftarrow> rt_ringbuffer_init (bytes_at (kmem s2) pool (nat sz)) (uint16 (sz + 2 ^ 15) - 2 ^ 15);
             Some (Some (rb, pool, r), s2)
           }
         }
       })
     else None)"

definition rt_ringbuffer_destroy :: "u32 \<times> u32 \<times> rt_ringbuffer \<Rightarrow> kheap \<Rightarrow> kheap option" where
  "rt_ringbuffer_destroy x s =
    (case x of (rb, pool, _) \<Rightarrow>
       if rb = 0 then None
       else do {
         s1 \<leftarrow> rt_free pool s;
         rt_free rb s1
       })"

lemma init_empty:
  assumes "4 \<le> len" "len < 2 ^ 15" "length pool = nat (len div 4 * 4)"
  obtains r where "rt_ringbuffer_init pool (uint16 (len div 4 * 4 + 2 ^ 15) - 2 ^ 15) = Some r"
    "rb_inv r" "rb_content r = []" "buffer_size r = len div 4 * 4"
proof -
  let ?sz = "len div 4 * 4"
  have b: "0 < ?sz" "?sz \<le> len" using assms(1) by simp_all
  then have "uint16 (?sz + 2 ^ 15) - 2 ^ 15 = ?sz" using assms(2) by (simp add: reduce_id)
  moreover have "?sz div 4 * 4 = ?sz" by simp
  moreover define r where "r = \<lparr>buffer_ptr = pool, read_mirror = False, read_index = 0, write_mirror = False,
    write_index = 0, buffer_size = ?sz\<rparr>"
  ultimately have "rt_ringbuffer_init pool (uint16 (?sz + 2 ^ 15) - 2 ^ 15) = Some r"
    using b by (simp add: rt_ringbuffer_init_def align_down_4)
  moreover have "rb_inv r" "rb_content r = []" "buffer_size r = ?sz"
    using b assms(2,3) by (simp_all add: r_def rb_inv_def rb_content_def rb_len_def ring_def)
  ultimately show thesis by (rule that)
qed

text \<open>
  For a length from 4 to 32767, creating a ring buffer on a well-formed system heap returns. Either there is not enough
  memory and no block stays allocated, or there are exactly two new blocks, disjoint from each
  other, and an empty ring buffer with the length rounded down to words, whose array lies in the second block; and
  destroying it gives both blocks back.
\<close>

theorem ringbuffer_create_destroy:
  assumes ok: "system_ok h s" and len: "4 \<le> len" "len < 2 ^ 15"
  shows "\<exists>x t. rt_ringbuffer_create h len s = Some (x, t) \<and> system_ok h t \<and>
    (case x of None \<Rightarrow> heap_live h t = heap_live h s
     | Some (rb, pool, r) \<Rightarrow> rb_inv r \<and> rb_content r = [] \<and> buffer_size r = len div 4 * 4 \<and>
         (\<exists>a b. 12 \<le> unat a \<and> len div 4 * 4 \<le> int (unat b) \<and> heap_live h t = insert (pool, b) (insert (rb, a) (heap_live h s)) \<and>
            region (rb, a) \<inter> region (pool, b) = {}) \<and>
         (\<exists>u. rt_ringbuffer_destroy (rb, pool, r) t = Some u \<and> system_ok h u \<and> heap_live h u = heap_live h s))"
proof -
  define sz where "sz = len div 4 * 4"
  let ?w = "word_of_int sz :: u32"
  have bsz: "0 < sz" "sz \<le> len" using len(1) by (simp_all add: sz_def)
  have al: "uint16 (RT_ALIGN_DOWN len 4) = sz" using bsz len(2) by (simp add: align_down_4 reduce_id sz_def)
  have uw: "int (unat ?w) = sz" using bsz len(2) by (simp add: unsigned_of_int take_bit_eq_mod)
  then have "unat ?w = nat sz" by linarith
  then have uw4: "unat ?w \<le> 2 ^ 32 - 4" "unat (12 :: u32) \<le> 2 ^ 32 - 4" using bsz len(2) by simp_all
  obtain rb s1 where m1: "rt_malloc h 12 s = Some (rb, s1)" "system_ok h s1" using system.alloc_total [OF ok] by blast
  obtain pool s2 where m2: "rt_malloc h ?w s1 = Some (pool, s2)" "system_ok h s2" using system.alloc_total [OF m1(2)] by blast
  have pos: "len > 0" using len(1) by simp
  note code = rt_ringbuffer_create_def Let_def al
  show ?thesis
  proof (cases "rb = 0")
    case True
    then have "rt_ringbuffer_create h len s = Some (None, s1)" "heap_live h s1 = heap_live h s"
      using m1 pos system.alloc_null [OF ok] by (simp_all add: code)
    then show ?thesis using m1(2) by auto
  next
    case rb: False
    show ?thesis
    proof (cases "pool = 0")
      case True
      obtain t where "rt_free rb s2 = Some t" "system_ok h t" "heap_live h t = heap_live h s"
        using system.second_null [OF ok m1(1) rb uw4(2)] m2(1) True by blast
      moreover then have "rt_ringbuffer_create h len s = Some (None, t)" using m1(1) m2(1) rb True pos by (simp add: code)
      ultimately show ?thesis by auto
    next
      case pool: False
      obtain r where r: "rt_ringbuffer_init (bytes_at (kmem s2) pool (nat sz)) (uint16 (sz + 2 ^ 15) - 2 ^ 15) = Some r"
        "rb_inv r" "rb_content r = []" "buffer_size r = sz" using init_empty [OF len, folded sz_def, of "bytes_at (kmem s2) pool (nat sz)"] by auto
      obtain a b where ab: "12 \<le> a" "?w \<le> b" "heap_live h s2 = insert (pool, b) (insert (rb, a) (heap_live h s))"
        "(rb, a) \<notin> heap_live h s" "(pool, b) \<notin> insert (rb, a) (heap_live h s)"
        using system.two_blocks [OF ok m1(1) rb uw4(2) m2(1) pool uw4(1)] .
      obtain t u where tu: "rt_free pool s2 = Some t" "rt_free rb t = Some u" "system_ok h u" "heap_live h u = heap_live h s"
        using system.release_two [OF m2(2) ab(3-5)] .
      have res: "rt_ringbuffer_create h len s = Some (Some (rb, pool, r), s2)"
        using m1(1) m2(1) rb pool pos r(1) by (simp add: code)
      have "region (rb, a) \<inter> region (pool, b) = {}"
        using system.live_disjoint [OF m2(2)] ab(3,5) unfolding disjoint_regions_def by (metis insertCI)
      moreover have "12 \<le> unat a" "unat ?w \<le> unat b" using ab(1,2) by (simp_all add: word_le_nat_alt)
      moreover from this(2) have "sz \<le> int (unat b)" using uw by linarith
      ultimately have "\<exists>a b. 12 \<le> unat a \<and> sz \<le> int (unat b) \<and> heap_live h s2 = insert (pool, b) (insert (rb, a) (heap_live h s)) \<and>
          region (rb, a) \<inter> region (pool, b) = {}" using ab(3) by blast
      moreover have "\<exists>u. rt_ringbuffer_destroy (rb, pool, r) s2 = Some u \<and> system_ok h u \<and> heap_live h u = heap_live h s"
        using tu rb by (simp add: rt_ringbuffer_destroy_def)
      ultimately show ?thesis using res m2(2) r(2-4) unfolding sz_def [symmetric]
        by (intro exI [of _ "Some (rb, pool, r)"] exI [of _ s2]) (simp only: option.case prod.case simp_thms)
    qed
  qed
qed

lemma ringbuffer_create_destroy_witness:
  "\<exists>x t. rt_ringbuffer_create 0x20000000 103 example_block = Some (x, t) \<and> system_ok 0x20000000 t \<and>
    (case x of None \<Rightarrow> heap_live 0x20000000 t = {(0x24000018, 100)}
     | Some (rb, pool, r) \<Rightarrow> rb_inv r \<and> rb_content r = [] \<and> buffer_size r = 103 div 4 * 4 \<and>
         (\<exists>a b. 12 \<le> unat a \<and> 103 div 4 * 4 \<le> int (unat b) \<and>
            heap_live 0x20000000 t = insert (pool, b) (insert (rb, a) {(0x24000018, 100)}) \<and>
            region (rb, a) \<inter> region (pool, b) = {}) \<and>
         (\<exists>u. rt_ringbuffer_destroy (rb, pool, r) t = Some u \<and> system_ok 0x20000000 u \<and> heap_live 0x20000000 u = {(0x24000018, 100)}))"
proof -
  have "(4 :: int) \<le> 103" "(103 :: int) < 2 ^ 15" by simp_all
  from ringbuffer_create_destroy [OF example_block_ok this] show ?thesis unfolding example_live .
qed

end
