(* ===== verification/Kernel_Defs.thy ===== *)
theory Kernel_Defs
  imports Kservice
begin

text \<open>
  The RT-Thread kernel the bootloader runs on: its state and the operations of
  \<open>timer.c\<close>, \<open>scheduler.c\<close>, \<open>thread.c\<close>, \<open>clock.c\<close>, \<open>object.c\<close>, \<open>irq.c\<close> and of the stack
  initialisation in \<open>cpuport.c\<close>, for the configuration of \<open>rtconfig.h\<close>: one processor, 32
  priorities, no software timers, one level of the timer skip list, \<open>RT_DEBUG\<close> undefined (so
  that \<open>RT_ASSERT\<close> is empty).

  Threads and timers are named by numbers that stand for their addresses; the timer inside a thread is
  \<open>Thread_timer\<close> of that thread. The intrusive lists of the kernel are the sequences of their
  nodes: \<open>tlist\<close> maps the head of a list of threads to the threads linked there by their field
  \<open>tlist\<close>. The theory \<open>Rt_List\<close> shows that the pointer operations of \<open>rtservice.h\<close> act on these
  sequences as written here.

  A result \<open>None\<close> is a call that does not return or whose behaviour the C language leaves
  open: an index outside the table of the 32 ready lists, the first thread of an empty list, a null current
  thread, and the endless loop of the stack check. A function that calls \<open>rt_schedule\<close> and goes on
  afterwards is split there: the part behind the call runs when its thread is the current one again.
\<close>

type_synonym tid = nat

datatype timer_ref = Thread_timer tid | Timer nat
datatype ipc_ref = Sem nat | Mutex nat
datatype list_head = Ready nat | Suspend ipc_ref | Defunct
datatype obj_ref = Thread_obj tid | Timer_obj timer_ref | Ipc_obj ipc_ref

text \<open>The function a timer calls: \<open>rt_thread_timeout\<close>, or one of the application at an address.\<close>

datatype timeout_fn = Rt_thread_timeout | User_timeout u32

record rt_object =
  obj_type :: u8
  obj_name :: string

record rt_timer =
  tm_flag :: u8
  timeout_func :: timeout_fn
  tm_parameter :: nat
  tm_init_tick :: u32
  timeout_tick :: u32

record rt_thread =
  entry :: u32
  parameter :: u32
  sp :: u32
  stack_addr :: u32
  stack_size :: u32
  error :: int
  stat :: u8
  current_priority :: u8
  init_priority :: u8
  number_mask :: u32
  init_tick :: u32
  remaining_tick :: u32
  cleanup :: u32
  user_data :: u32

record rt_semaphore =
  sem_flag :: u8
  sem_value :: u16

record rt_mutex =
  mx_flag :: u8
  mx_value :: u16
  original_priority :: u8
  hold :: u8
  owner :: "tid option"

record kernel =
  rt_tick :: u32
  threads :: "tid \<Rightarrow> rt_thread"
  tlist :: "list_head \<Rightarrow> tid list"
  rt_thread_ready_priority_group :: u32
  rt_scheduler_lock_nest :: u16
  rt_current_thread :: "tid option"
  rt_current_priority :: u8
  rt_interrupt_nest :: u8
  timers :: "timer_ref \<Rightarrow> rt_timer"
  rt_timer_list :: "timer_ref list"
  sems :: "nat \<Rightarrow> rt_semaphore"
  mutexes :: "nat \<Rightarrow> rt_mutex"
  objects :: "obj_ref \<Rightarrow> rt_object"
  object_list :: "u8 \<Rightarrow> obj_ref list"
  mem :: memory

definition upd_thread :: "tid \<Rightarrow> (rt_thread \<Rightarrow> rt_thread) \<Rightarrow> kernel \<Rightarrow> kernel" where
  "upd_thread t f k = k\<lparr>threads := (threads k)(t := f (threads k t))\<rparr>"

definition upd_timer :: "timer_ref \<Rightarrow> (rt_timer \<Rightarrow> rt_timer) \<Rightarrow> kernel \<Rightarrow> kernel" where
  "upd_timer tm f k = k\<lparr>timers := (timers k)(tm := f (timers k tm))\<rparr>"

section \<open>Constants of \<open>rtdef.h\<close> and \<open>rtconfig.h\<close>\<close>

abbreviation (input) RT_EOK :: int where "RT_EOK \<equiv> 0"
abbreviation (input) RT_ERROR :: int where "RT_ERROR \<equiv> 1"
abbreviation (input) RT_ETIMEOUT :: int where "RT_ETIMEOUT \<equiv> 2"
abbreviation (input) RT_EINTR :: int where "RT_EINTR \<equiv> 9"

abbreviation (input) RT_TICK_MAX :: u32 where "RT_TICK_MAX \<equiv> 0xffffffff"
abbreviation (input) RT_TIMER_FLAG_ACTIVATED :: u8 where "RT_TIMER_FLAG_ACTIVATED \<equiv> 1"
abbreviation (input) RT_TIMER_FLAG_ONE_SHOT :: u8 where "RT_TIMER_FLAG_ONE_SHOT \<equiv> 0"
abbreviation (input) RT_TIMER_FLAG_PERIODIC :: u8 where "RT_TIMER_FLAG_PERIODIC \<equiv> 2"
abbreviation (input) RT_TIMER_CTRL_SET_TIME :: int where "RT_TIMER_CTRL_SET_TIME \<equiv> 0"
abbreviation (input) RT_TIMER_CTRL_GET_TIME :: int where "RT_TIMER_CTRL_GET_TIME \<equiv> 1"
abbreviation (input) RT_TIMER_CTRL_SET_ONESHOT :: int where "RT_TIMER_CTRL_SET_ONESHOT \<equiv> 2"
abbreviation (input) RT_TIMER_CTRL_SET_PERIODIC :: int where "RT_TIMER_CTRL_SET_PERIODIC \<equiv> 3"

abbreviation (input) RT_THREAD_INIT :: u8 where "RT_THREAD_INIT \<equiv> 0"
abbreviation (input) RT_THREAD_READY :: u8 where "RT_THREAD_READY \<equiv> 1"
abbreviation (input) RT_THREAD_SUSPEND :: u8 where "RT_THREAD_SUSPEND \<equiv> 2"
abbreviation (input) RT_THREAD_RUNNING :: u8 where "RT_THREAD_RUNNING \<equiv> 3"
abbreviation (input) RT_THREAD_CLOSE :: u8 where "RT_THREAD_CLOSE \<equiv> 4"
abbreviation (input) RT_THREAD_STAT_MASK :: u8 where "RT_THREAD_STAT_MASK \<equiv> 7"
abbreviation (input) RT_THREAD_STAT_YIELD :: u8 where "RT_THREAD_STAT_YIELD \<equiv> 8"

abbreviation (input) RT_THREAD_CTRL_STARTUP :: int where "RT_THREAD_CTRL_STARTUP \<equiv> 0"
abbreviation (input) RT_THREAD_CTRL_CLOSE :: int where "RT_THREAD_CTRL_CLOSE \<equiv> 1"
abbreviation (input) RT_THREAD_CTRL_CHANGE_PRIORITY :: int where "RT_THREAD_CTRL_CHANGE_PRIORITY \<equiv> 2"

abbreviation (input) RT_Object_Class_Thread :: u8 where "RT_Object_Class_Thread \<equiv> 1"
abbreviation (input) RT_Object_Class_Semaphore :: u8 where "RT_Object_Class_Semaphore \<equiv> 2"
abbreviation (input) RT_Object_Class_Mutex :: u8 where "RT_Object_Class_Mutex \<equiv> 3"
abbreviation (input) RT_Object_Class_Timer :: u8 where "RT_Object_Class_Timer \<equiv> 10"
abbreviation (input) RT_Object_Class_Static :: u8 where "RT_Object_Class_Static \<equiv> 0x80"

abbreviation (input) RT_THREAD_PRIORITY_MAX :: nat where "RT_THREAD_PRIORITY_MAX \<equiv> 32"
abbreviation (input) RT_NAME_MAX :: nat where "RT_NAME_MAX \<equiv> 8"

text \<open>\<open>__rt_ffs\<close> of \<open>cpuport.c\<close> is \<open>__builtin_ffs\<close>: one plus the index of the lowest bit set, or 0.\<close>

definition rt_ffs :: "u32 \<Rightarrow> nat" where
  "rt_ffs v = (case find (bit v) [0..<32] of None \<Rightarrow> 0 | Some i \<Rightarrow> i + 1)"

section \<open>Scheduler\<close>

text \<open>\<open>rt_list_remove\<close> on the link \<open>tlist\<close> of a thread: it leaves the list it is in, if any.\<close>

definition tlist_remove :: "tid \<Rightarrow> kernel \<Rightarrow> kernel" where
  "tlist_remove t k = k\<lparr>tlist := (\<lambda>h. removeAll t (tlist k h))\<rparr>"

definition rt_scheduler_stack_check :: "tid \<Rightarrow> kernel \<Rightarrow> bool" where
  "rt_scheduler_stack_check t k =
    (let th = threads k t in
     \<not> (mem k (stack_addr th) \<noteq> 0x23 \<or> sp th \<le> stack_addr th \<or> sp th > stack_addr th + stack_size th))"

definition get_highest_priority_thread :: "kernel \<Rightarrow> (tid \<times> nat) option" where
  "get_highest_priority_thread k =
    (let n = rt_ffs (rt_thread_ready_priority_group k) in
     if n = 0 then None
     else case tlist k (Ready (n - 1)) of [] \<Rightarrow> None | t # _ \<Rightarrow> Some (t, n - 1))"

definition rt_system_scheduler_init :: "kernel \<Rightarrow> kernel" where
  "rt_system_scheduler_init k = k\<lparr>rt_scheduler_lock_nest := 0,
     tlist := (\<lambda>h. case h of Ready i \<Rightarrow> if i < RT_THREAD_PRIORITY_MAX then [] else tlist k h
                           | Defunct \<Rightarrow> [] | Suspend p \<Rightarrow> tlist k h),
     rt_thread_ready_priority_group := 0\<rparr>"

definition rt_schedule_insert_thread :: "tid \<Rightarrow> kernel \<Rightarrow> kernel option" where
  "rt_schedule_insert_thread t k =
    (if rt_current_thread k = Some t
     then Some (upd_thread t (\<lambda>th. th\<lparr>stat := RT_THREAD_RUNNING OR (stat th AND NOT RT_THREAD_STAT_MASK)\<rparr>) k)
     else
       let k = upd_thread t (\<lambda>th. th\<lparr>stat := RT_THREAD_READY OR (stat th AND NOT RT_THREAD_STAT_MASK)\<rparr>) k;
           p = unat (current_priority (threads k t)) in
       if p < RT_THREAD_PRIORITY_MAX
       then Some (k\<lparr>tlist := (tlist k)(Ready p := tlist k (Ready p) @ [t]),
                    rt_thread_ready_priority_group :=
                      rt_thread_ready_priority_group k OR number_mask (threads k t)\<rparr>)
       else None)"

definition rt_schedule_remove_thread :: "tid \<Rightarrow> kernel \<Rightarrow> kernel option" where
  "rt_schedule_remove_thread t k =
    (let k = tlist_remove t k; p = unat (current_priority (threads k t)) in
     if p < RT_THREAD_PRIORITY_MAX
     then Some (if tlist k (Ready p) = []
                then k\<lparr>rt_thread_ready_priority_group :=
                         rt_thread_ready_priority_group k AND NOT (number_mask (threads k t))\<rparr>
                else k)
     else None)"

text \<open>
  \<open>rt_system_scheduler_start\<close>, up to the switch to the first thread.
\<close>

definition rt_system_scheduler_start :: "kernel \<Rightarrow> kernel option" where
  "rt_system_scheduler_start k = do {
     (to, p) \<leftarrow> get_highest_priority_thread k;
     k \<leftarrow> rt_schedule_remove_thread to (k\<lparr>rt_current_thread := Some to\<rparr>);
     Some (upd_thread to (\<lambda>th. th\<lparr>stat := RT_THREAD_RUNNING\<rparr>) k)
   }"

text \<open>
  \<open>rt_schedule\<close>: the thread that goes on, and whether the current one returns to its ready list; then the
  switch. The processor state is saved and loaded by assembly code that the model leaves out.
\<close>

definition schedule_choice :: "tid \<Rightarrow> tid \<Rightarrow> nat \<Rightarrow> kernel \<Rightarrow> tid \<times> bool \<times> kernel" where
  "schedule_choice cur to hp k =
    (let th = threads k cur in
     if stat th AND RT_THREAD_STAT_MASK = RT_THREAD_RUNNING
     then if unat (current_priority th) < hp then (cur, False, k)
          else if unat (current_priority th) = hp \<and> stat th AND RT_THREAD_STAT_YIELD = 0 then (cur, False, k)
          else (to, True, upd_thread cur (\<lambda>th. th\<lparr>stat := stat th AND NOT RT_THREAD_STAT_YIELD\<rparr>) k)
     else (to, False, k))"

definition rt_schedule :: "kernel \<Rightarrow> kernel option" where
  "rt_schedule k =
    (if rt_scheduler_lock_nest k = 0 \<and> rt_thread_ready_priority_group k \<noteq> 0
     then do {
       (hd_thread, hp) \<leftarrow> get_highest_priority_thread k;
       cur \<leftarrow> rt_current_thread k;
       let (to, need_insert, k) = schedule_choice cur hd_thread hp k;
       if to \<noteq> cur
       then do {
         let k = k\<lparr>rt_current_priority := of_nat hp, rt_current_thread := Some to\<rparr>;
         k \<leftarrow> (if need_insert then rt_schedule_insert_thread cur k else Some k);
         k \<leftarrow> rt_schedule_remove_thread to k;
         let k = upd_thread to (\<lambda>th. th\<lparr>stat := RT_THREAD_RUNNING OR (stat th AND NOT RT_THREAD_STAT_MASK)\<rparr>) k;
         if rt_scheduler_stack_check to k then Some k else None
       }
       else do {
         k \<leftarrow> rt_schedule_remove_thread cur k;
         Some (upd_thread cur (\<lambda>th. th\<lparr>stat := RT_THREAD_RUNNING OR (stat th AND NOT RT_THREAD_STAT_MASK)\<rparr>) k)
       }
     }
     else Some k)"

definition rt_enter_critical :: "kernel \<Rightarrow> kernel" where
  "rt_enter_critical k = k\<lparr>rt_scheduler_lock_nest := rt_scheduler_lock_nest k + 1\<rparr>"

definition rt_exit_critical :: "kernel \<Rightarrow> kernel option" where
  "rt_exit_critical k =
    (let k = k\<lparr>rt_scheduler_lock_nest := rt_scheduler_lock_nest k - 1\<rparr> in
     if sint (rt_scheduler_lock_nest k) \<le> 0
     then let k = k\<lparr>rt_scheduler_lock_nest := 0\<rparr> in
          if rt_current_thread k \<noteq> None then rt_schedule k else Some k
     else Some k)"

definition rt_critical_level :: "kernel \<Rightarrow> u16" where
  "rt_critical_level k = rt_scheduler_lock_nest k"

section \<open>Kernel objects\<close>

definition rt_object_init :: "obj_ref \<Rightarrow> u8 \<Rightarrow> string \<Rightarrow> kernel \<Rightarrow> kernel option" where
  "rt_object_init obj ty nm k = do {
     k \<leftarrow> rt_exit_critical (rt_enter_critical k);
     Some (k\<lparr>objects := (objects k)(obj := \<lparr>obj_type = ty OR RT_Object_Class_Static, obj_name = take RT_NAME_MAX nm\<rparr>),
             object_list := (object_list k)(ty := obj # object_list k ty)\<rparr>)
   }"

definition rt_object_detach :: "obj_ref \<Rightarrow> kernel \<Rightarrow> kernel" where
  "rt_object_detach obj k =
    k\<lparr>objects := (objects k)(obj := (objects k obj)\<lparr>obj_type := 0\<rparr>),
      object_list := (\<lambda>c. removeAll obj (object_list k c))\<rparr>"

definition rt_object_is_systemobject :: "obj_ref \<Rightarrow> kernel \<Rightarrow> bool" where
  "rt_object_is_systemobject obj k \<longleftrightarrow> obj_type (objects k obj) AND RT_Object_Class_Static \<noteq> 0"

definition rt_object_get_type :: "obj_ref \<Rightarrow> kernel \<Rightarrow> u8" where
  "rt_object_get_type obj k = obj_type (objects k obj) AND NOT RT_Object_Class_Static"

section \<open>Timers\<close>

text \<open>\<open>rt_timer_list\<close> holds the running timers in the order they are due.\<close>

definition timer_remove :: "timer_ref \<Rightarrow> kernel \<Rightarrow> kernel" where
  "timer_remove tm k = k\<lparr>rt_timer_list := removeAll tm (rt_timer_list k)\<rparr>"

definition rt_timer_list_next_timeout :: "kernel \<Rightarrow> u32" where
  "rt_timer_list_next_timeout k =
    (case rt_timer_list k of [] \<Rightarrow> RT_TICK_MAX | tm # _ \<Rightarrow> timeout_tick (timers k tm))"

definition timer_init :: "timer_ref \<Rightarrow> timeout_fn \<Rightarrow> nat \<Rightarrow> u32 \<Rightarrow> u8 \<Rightarrow> kernel \<Rightarrow> kernel" where
  "timer_init tm f p time flg k = upd_timer tm (\<lambda>_.
     \<lparr>tm_flag = flg AND NOT RT_TIMER_FLAG_ACTIVATED, timeout_func = f, tm_parameter = p,
      tm_init_tick = time, timeout_tick = 0\<rparr>) k"

definition rt_timer_init :: "timer_ref \<Rightarrow> string \<Rightarrow> timeout_fn \<Rightarrow> nat \<Rightarrow> u32 \<Rightarrow> u8 \<Rightarrow> kernel \<Rightarrow> kernel option" where
  "rt_timer_init tm nm f p time flg k = do {
     k \<leftarrow> rt_object_init (Timer_obj tm) RT_Object_Class_Timer nm k;
     Some (timer_init tm f p time flg k)
   }"

definition rt_timer_detach :: "timer_ref \<Rightarrow> kernel \<Rightarrow> kernel" where
  "rt_timer_detach tm k = rt_object_detach (Timer_obj tm) (timer_remove tm k)"

text \<open>
  The loop of \<open>rt_timer_start\<close> over the list: the new timer, due at \<open>d\<close>, goes before the first one that is due later,
  behind those due at the same time.
\<close>

fun timer_insert :: "(timer_ref \<Rightarrow> rt_timer) \<Rightarrow> u32 \<Rightarrow> timer_ref \<Rightarrow> timer_ref list \<Rightarrow> timer_ref list" where
  "timer_insert ti d tm [] = [tm]"
| "timer_insert ti d tm (t # ts) =
    (if timeout_tick (ti t) - d = 0 then t # timer_insert ti d tm ts
     else if timeout_tick (ti t) - d < RT_TICK_MAX div 2 then tm # t # ts
     else t # timer_insert ti d tm ts)"

definition rt_timer_start :: "timer_ref \<Rightarrow> kernel \<Rightarrow> kernel" where
  "rt_timer_start tm k =
    (let k = timer_remove tm k;
         k = upd_timer tm (\<lambda>ti. ti\<lparr>tm_flag := tm_flag ti AND NOT RT_TIMER_FLAG_ACTIVATED\<rparr>) k;
         k = upd_timer tm (\<lambda>ti. ti\<lparr>timeout_tick := rt_tick k + tm_init_tick ti\<rparr>) k;
         k = k\<lparr>rt_timer_list := timer_insert (timers k) (timeout_tick (timers k tm)) tm (rt_timer_list k)\<rparr>
     in upd_timer tm (\<lambda>ti. ti\<lparr>tm_flag := tm_flag ti OR RT_TIMER_FLAG_ACTIVATED\<rparr>) k)"

definition rt_timer_stop :: "timer_ref \<Rightarrow> kernel \<Rightarrow> int \<times> kernel" where
  "rt_timer_stop tm k =
    (if tm_flag (timers k tm) AND RT_TIMER_FLAG_ACTIVATED = 0 then (- RT_ERROR, k)
     else (RT_EOK, upd_timer tm (\<lambda>ti. ti\<lparr>tm_flag := tm_flag ti AND NOT RT_TIMER_FLAG_ACTIVATED\<rparr>) (timer_remove tm k)))"

text \<open>\<open>rt_timer_control\<close>; the number behind the pointer \<open>arg\<close> is passed in and out.\<close>

definition rt_timer_control :: "timer_ref \<Rightarrow> int \<Rightarrow> u32 \<Rightarrow> kernel \<Rightarrow> u32 \<times> kernel" where
  "rt_timer_control tm cmd arg k =
    (if cmd = RT_TIMER_CTRL_GET_TIME then (tm_init_tick (timers k tm), k)
     else if cmd = RT_TIMER_CTRL_SET_TIME then (arg, upd_timer tm (\<lambda>ti. ti\<lparr>tm_init_tick := arg\<rparr>) k)
     else if cmd = RT_TIMER_CTRL_SET_ONESHOT
     then (arg, upd_timer tm (\<lambda>ti. ti\<lparr>tm_flag := tm_flag ti AND NOT RT_TIMER_FLAG_PERIODIC\<rparr>) k)
     else if cmd = RT_TIMER_CTRL_SET_PERIODIC
     then (arg, upd_timer tm (\<lambda>ti. ti\<lparr>tm_flag := tm_flag ti OR RT_TIMER_FLAG_PERIODIC\<rparr>) k)
     else (arg, k))"

definition rt_system_timer_init :: "kernel \<Rightarrow> kernel" where
  "rt_system_timer_init k = k\<lparr>rt_timer_list := []\<rparr>"

section \<open>Threads\<close>

text \<open>
  \<open>rt_hw_stack_init\<close>: the frame of 17 words that the first switch to the thread loads, as the processor's
  floating-point unit is in use.
\<close>

fun fill_words :: "memory \<Rightarrow> u32 \<Rightarrow> nat \<Rightarrow> memory" where
  "fill_words m p 0 = m"
| "fill_words m p (Suc n) = fill_words (store32 m p 0xdeadbeef) (p + 4) n"

definition rt_hw_stack_init :: "u32 \<Rightarrow> u32 \<Rightarrow> u32 \<Rightarrow> u32 \<Rightarrow> memory \<Rightarrow> u32 \<times> memory" where
  "rt_hw_stack_init tentry param addr texit m =
    (let stk = ((addr + 4) AND NOT (8 - 1)) - 68;
         m = fill_words m stk 17;
         m = store32 m (stk + 36) param;
         m = store32 m (stk + 40) 0;
         m = store32 m (stk + 44) 0;
         m = store32 m (stk + 48) 0;
         m = store32 m (stk + 52) 0;
         m = store32 m (stk + 56) texit;
         m = store32 m (stk + 60) tentry;
         m = store32 m (stk + 64) 0x01000000;
         m = store32 m stk 0
     in (stk, m))"

text \<open>\<open>rt_thread_init\<close>; \<open>texit\<close> is the address of \<open>rt_thread_exit\<close>. \<open>rt_list_init\<close> on the link of a thread
  that is in no list leaves all lists as they are.\<close>

definition thread_init :: "u32 \<Rightarrow> tid \<Rightarrow> u32 \<Rightarrow> u32 \<Rightarrow> u32 \<Rightarrow> u32 \<Rightarrow> u8 \<Rightarrow> u32 \<Rightarrow> kernel \<Rightarrow> kernel option" where
  "thread_init texit t ent param start sz prio tick k =
    (let m = rt_memset (mem k) start 0x23 sz;
         (stk, m) = rt_hw_stack_init ent param (start + sz - 4) texit m;
         k = k\<lparr>mem := m\<rparr>;
         k = upd_thread t (\<lambda>th. th\<lparr>entry := ent, parameter := param, stack_addr := start, stack_size := sz,
               sp := stk, init_priority := prio, current_priority := prio, number_mask := 0, init_tick := tick,
               remaining_tick := tick, error := RT_EOK, stat := RT_THREAD_INIT, cleanup := 0, user_data := 0\<rparr>) k
     in rt_timer_init (Thread_timer t) (obj_name (objects k (Thread_obj t))) Rt_thread_timeout t 0 RT_TIMER_FLAG_ONE_SHOT k)"

definition rt_thread_init :: "u32 \<Rightarrow> tid \<Rightarrow> string \<Rightarrow> u32 \<Rightarrow> u32 \<Rightarrow> u32 \<Rightarrow> u32 \<Rightarrow> u8 \<Rightarrow> u32 \<Rightarrow> kernel \<Rightarrow> kernel option" where
  "rt_thread_init texit t nm ent param start sz prio tick k = do {
     k \<leftarrow> rt_object_init (Thread_obj t) RT_Object_Class_Thread nm k;
     thread_init texit t ent param start sz prio tick k
   }"

definition rt_thread_suspend :: "tid \<Rightarrow> kernel \<Rightarrow> (int \<times> kernel) option" where
  "rt_thread_suspend t k =
    (let st = stat (threads k t) AND RT_THREAD_STAT_MASK in
     if st \<noteq> RT_THREAD_READY \<and> st \<noteq> RT_THREAD_RUNNING then Some (- RT_ERROR, k)
     else do {
       k \<leftarrow> rt_schedule_remove_thread t k;
       let k = upd_thread t (\<lambda>th. th\<lparr>stat := RT_THREAD_SUSPEND OR (stat th AND NOT RT_THREAD_STAT_MASK)\<rparr>) k;
       Some (RT_EOK, snd (rt_timer_stop (Thread_timer t) k))
     })"

definition rt_thread_resume :: "tid \<Rightarrow> kernel \<Rightarrow> (int \<times> kernel) option" where
  "rt_thread_resume t k =
    (if stat (threads k t) AND RT_THREAD_STAT_MASK \<noteq> RT_THREAD_SUSPEND then Some (- RT_ERROR, k)
     else do {
       let k = snd (rt_timer_stop (Thread_timer t) (tlist_remove t k));
       k \<leftarrow> rt_schedule_insert_thread t k;
       Some (RT_EOK, k)
     })"

text \<open>The shift \<open>1 << current_priority\<close> is defined for priorities below 32 only.\<close>

definition set_priority :: "tid \<Rightarrow> u8 \<Rightarrow> kernel \<Rightarrow> kernel option" where
  "set_priority t prio k =
    (if unat prio < 32
     then Some (upd_thread t (\<lambda>th. th\<lparr>current_priority := prio, number_mask := push_bit (unat prio) 1\<rparr>) k)
     else None)"

definition rt_thread_startup :: "tid \<Rightarrow> kernel \<Rightarrow> (int \<times> kernel) option" where
  "rt_thread_startup t k = do {
     k \<leftarrow> set_priority t (init_priority (threads k t)) k;
     let k = upd_thread t (\<lambda>th. th\<lparr>stat := RT_THREAD_SUSPEND\<rparr>) k;
     (_, k) \<leftarrow> rt_thread_resume t k;
     k \<leftarrow> (if rt_current_thread k \<noteq> None then rt_schedule k else Some k);
     Some (RT_EOK, k)
   }"

definition thread_release :: "tid \<Rightarrow> kernel \<Rightarrow> kernel" where
  "thread_release t k =
    (if rt_object_is_systemobject (Thread_obj t) k \<and> cleanup (threads k t) = 0
     then rt_object_detach (Thread_obj t) k
     else k\<lparr>tlist := (tlist k)(Defunct := t # tlist k Defunct)\<rparr>)"

definition rt_thread_exit :: "kernel \<Rightarrow> kernel option" where
  "rt_thread_exit k = do {
     t \<leftarrow> rt_current_thread k;
     k \<leftarrow> rt_schedule_remove_thread t k;
     let k = upd_thread t (\<lambda>th. th\<lparr>stat := RT_THREAD_CLOSE\<rparr>) k;
     let k = rt_timer_detach (Thread_timer t) k;
     rt_schedule (thread_release t k)
   }"

definition rt_thread_detach :: "tid \<Rightarrow> kernel \<Rightarrow> (int \<times> kernel) option" where
  "rt_thread_detach t k = do {
     k \<leftarrow> (if stat (threads k t) AND RT_THREAD_STAT_MASK \<noteq> RT_THREAD_INIT
          then rt_schedule_remove_thread t k else Some k);
     let k = rt_timer_detach (Thread_timer t) k;
     let k = upd_thread t (\<lambda>th. th\<lparr>stat := RT_THREAD_CLOSE\<rparr>) k;
     Some (RT_EOK, thread_release t k)
   }"

definition rt_thread_delete :: "tid \<Rightarrow> kernel \<Rightarrow> (int \<times> kernel) option" where
  "rt_thread_delete t k = do {
     k \<leftarrow> (if stat (threads k t) AND RT_THREAD_STAT_MASK \<noteq> RT_THREAD_INIT
          then rt_schedule_remove_thread t k else Some k);
     let k = rt_timer_detach (Thread_timer t) k;
     let k = upd_thread t (\<lambda>th. th\<lparr>stat := RT_THREAD_CLOSE\<rparr>) k;
     Some (RT_EOK, k\<lparr>tlist := (tlist k)(Defunct := t # tlist k Defunct)\<rparr>)
   }"

definition rt_thread_yield :: "kernel \<Rightarrow> (int \<times> kernel) option" where
  "rt_thread_yield k = do { k \<leftarrow> rt_schedule k; Some (RT_EOK, k) }"

text \<open>
  \<open>rt_thread_sleep\<close> and \<open>rt_thread_delay_until\<close> up to \<open>rt_schedule\<close>, and what they do behind it.
\<close>

definition thread_block :: "tid \<Rightarrow> u32 \<Rightarrow> kernel \<Rightarrow> kernel option" where
  "thread_block t tick k = do {
     (_, k) \<leftarrow> rt_thread_suspend t k;
     let k = snd (rt_timer_control (Thread_timer t) RT_TIMER_CTRL_SET_TIME tick k);
     rt_schedule (rt_timer_start (Thread_timer t) k)
   }"

definition rt_thread_sleep :: "u32 \<Rightarrow> kernel \<Rightarrow> kernel option" where
  "rt_thread_sleep tick k = do {
     t \<leftarrow> rt_current_thread k;
     thread_block t tick k
   }"

definition clear_timeout :: "tid \<Rightarrow> kernel \<Rightarrow> kernel" where
  "clear_timeout t k =
    (if error (threads k t) = - RT_ETIMEOUT then upd_thread t (\<lambda>th. th\<lparr>error := RT_EOK\<rparr>) k else k)"

definition rt_thread_sleep_after :: "tid \<Rightarrow> kernel \<Rightarrow> int \<times> kernel" where
  "rt_thread_sleep_after t k = (RT_EOK, clear_timeout t k)"

text \<open>The result says whether the call waits; the number is the new content of \<open>*tick\<close>.\<close>

definition rt_thread_delay_until :: "u32 \<Rightarrow> u32 \<Rightarrow> kernel \<Rightarrow> (bool \<times> u32 \<times> kernel) option" where
  "rt_thread_delay_until tick inc_tick k = do {
     t \<leftarrow> rt_current_thread k;
     if rt_tick k - tick < inc_tick
     then do {
       let tick = rt_tick k - tick + inc_tick;
       k \<leftarrow> thread_block t tick k;
       Some (True, tick, k)
     }
     else Some (False, rt_tick k, k)
   }"

definition rt_thread_delay_until_after :: "tid \<Rightarrow> kernel \<Rightarrow> int \<times> u32 \<times> kernel" where
  "rt_thread_delay_until_after t k = (RT_EOK, rt_tick k, clear_timeout t k)"

definition rt_tick_from_millisecond :: "int \<Rightarrow> u32" where
  "rt_tick_from_millisecond ms =
    (if ms < 0 then of_int (- 1)
     else of_int (1000 * (ms div 1000)) + of_int ((1000 * (ms mod 1000) + 999) div 1000))"

definition rt_thread_mdelay :: "int \<Rightarrow> kernel \<Rightarrow> kernel option" where
  "rt_thread_mdelay ms k = rt_thread_sleep (rt_tick_from_millisecond ms) k"

definition rt_thread_control :: "tid \<Rightarrow> int \<Rightarrow> u8 \<Rightarrow> kernel \<Rightarrow> (int \<times> kernel) option" where
  "rt_thread_control t cmd arg k =
    (if cmd = RT_THREAD_CTRL_CHANGE_PRIORITY
     then if stat (threads k t) AND RT_THREAD_STAT_MASK = RT_THREAD_READY
          then do {
            k \<leftarrow> rt_schedule_remove_thread t k;
            k \<leftarrow> set_priority t arg k;
            k \<leftarrow> rt_schedule_insert_thread t k;
            Some (RT_EOK, k)
          }
          else do { k \<leftarrow> set_priority t arg k; Some (RT_EOK, k) }
     else if cmd = RT_THREAD_CTRL_STARTUP then rt_thread_startup t k
     else if cmd = RT_THREAD_CTRL_CLOSE then rt_thread_delete t k
     else Some (RT_EOK, k))"

definition rt_thread_timeout :: "tid \<Rightarrow> kernel \<Rightarrow> kernel option" where
  "rt_thread_timeout t k = do {
     let k = upd_thread t (\<lambda>th. th\<lparr>error := - RT_ETIMEOUT\<rparr>) k;
     k \<leftarrow> rt_schedule_insert_thread t (tlist_remove t k);
     rt_schedule k
   }"

section \<open>The tick\<close>

text \<open>
  \<open>rt_timer_check\<close>. The functions of application timers are the argument \<open>usr\<close>: what the function at an
  address does with a parameter.
\<close>

definition call_timeout :: "(u32 \<Rightarrow> nat \<Rightarrow> kernel \<Rightarrow> kernel option) \<Rightarrow> timer_ref \<Rightarrow> kernel \<Rightarrow> kernel option" where
  "call_timeout usr tm k =
    (case timeout_func (timers k tm) of
       Rt_thread_timeout \<Rightarrow> rt_thread_timeout (tm_parameter (timers k tm)) k
     | User_timeout f \<Rightarrow> usr f (tm_parameter (timers k tm)) k)"

definition timer_rearm :: "timer_ref \<Rightarrow> kernel \<Rightarrow> kernel" where
  "timer_rearm tm k =
    (let flg = tm_flag (timers k tm);
         k = upd_timer tm (\<lambda>ti. ti\<lparr>tm_flag := tm_flag ti AND NOT RT_TIMER_FLAG_ACTIVATED\<rparr>) k
     in if flg AND RT_TIMER_FLAG_PERIODIC \<noteq> 0 \<and> flg AND RT_TIMER_FLAG_ACTIVATED \<noteq> 0
        then rt_timer_start tm k else k)"

partial_function (option) timer_check_loop ::
    "(u32 \<Rightarrow> nat \<Rightarrow> kernel \<Rightarrow> kernel option) \<Rightarrow> u32 \<Rightarrow> kernel \<Rightarrow> kernel option" where
  "timer_check_loop usr current_tick k =
    (case rt_timer_list k of
       [] \<Rightarrow> Some k
     | tm # _ \<Rightarrow>
       if current_tick - timeout_tick (timers k tm) < RT_TICK_MAX div 2
       then do {
         k \<leftarrow> call_timeout usr tm (timer_remove tm k);
         timer_check_loop usr (rt_tick k) (timer_rearm tm k)
       }
       else Some k)"

definition rt_timer_check :: "(u32 \<Rightarrow> nat \<Rightarrow> kernel \<Rightarrow> kernel option) \<Rightarrow> kernel \<Rightarrow> kernel option" where
  "rt_timer_check usr k = timer_check_loop usr (rt_tick k) k"

definition rt_tick_set :: "u32 \<Rightarrow> kernel \<Rightarrow> kernel" where
  "rt_tick_set tick k = k\<lparr>rt_tick := tick\<rparr>"

text \<open>The part of \<open>rt_tick_increase\<close> before the timers: the tick and the time slice.\<close>

definition time_slice :: "kernel \<Rightarrow> kernel option" where
  "time_slice k = do {
     t \<leftarrow> rt_current_thread k;
     let k = upd_thread t (\<lambda>th. th\<lparr>remaining_tick := remaining_tick th - 1\<rparr>) k;
     if remaining_tick (threads k t) = 0
     then do {
       let k = upd_thread t (\<lambda>th. th\<lparr>remaining_tick := init_tick th, stat := stat th OR RT_THREAD_STAT_YIELD\<rparr>) k;
       (_, k) \<leftarrow> rt_thread_yield k;
       Some k
     }
     else Some k
   }"

definition rt_tick_increase :: "(u32 \<Rightarrow> nat \<Rightarrow> kernel \<Rightarrow> kernel option) \<Rightarrow> kernel \<Rightarrow> kernel option" where
  "rt_tick_increase usr k = do {
     k \<leftarrow> time_slice (k\<lparr>rt_tick := rt_tick k + 1\<rparr>);
     rt_timer_check usr k
   }"

definition rt_interrupt_enter :: "kernel \<Rightarrow> kernel" where
  "rt_interrupt_enter k = k\<lparr>rt_interrupt_nest := rt_interrupt_nest k + 1\<rparr>"

definition rt_interrupt_leave :: "kernel \<Rightarrow> kernel" where
  "rt_interrupt_leave k = k\<lparr>rt_interrupt_nest := rt_interrupt_nest k - 1\<rparr>"

text \<open>\<open>SysTick_Handler\<close> of \<open>drv_common.c\<close>; the counter that \<open>HAL_IncTick\<close> increments is read nowhere, as
  \<open>HAL_GetTick\<close> is redefined there.\<close>

definition SysTick_Handler :: "(u32 \<Rightarrow> nat \<Rightarrow> kernel \<Rightarrow> kernel option) \<Rightarrow> kernel \<Rightarrow> kernel option" where
  "SysTick_Handler usr k = do {
     k \<leftarrow> rt_tick_increase usr (rt_interrupt_enter k);
     Some (rt_interrupt_leave k)
   }"

end
