(* ===== verification/Sched_Inv.thy ===== *)
theory Sched_Inv
  imports Kernel_Defs
begin

text \<open>
  The invariant of the scheduler, and what its operations keep of it. \<open>sched_but T k\<close> is the invariant with the
  threads of \<open>T\<close> set aside: these are in no list and nothing is said about their state. A thread is
  set aside when it is taken out of its list, and comes back when it is in the list its new state demands.
\<close>

abbreviation tstate :: "kernel \<Rightarrow> tid \<Rightarrow> u8" where
  "tstate k t \<equiv> stat (threads k t) AND RT_THREAD_STAT_MASK"

abbreviation tprio :: "kernel \<Rightarrow> tid \<Rightarrow> nat" where
  "tprio k t \<equiv> unat (current_priority (threads k t))"

definition prio_ok :: "rt_thread \<Rightarrow> bool" where
  "prio_ok th \<longleftrightarrow> unat (current_priority th) < 32 \<and> number_mask th = push_bit (unat (current_priority th)) 1"

definition live :: "kernel \<Rightarrow> tid \<Rightarrow> bool" where
  "live k t \<longleftrightarrow> tstate k t = RT_THREAD_READY \<or> tstate k t = RT_THREAD_SUSPEND \<or> tstate k t = RT_THREAD_RUNNING"

definition queues_ok :: "kernel \<Rightarrow> bool" where
  "queues_ok k \<longleftrightarrow> (\<forall>h. distinct (tlist k h)) \<and> (\<forall>h h' t. t \<in> set (tlist k h) \<longrightarrow> t \<in> set (tlist k h') \<longrightarrow> h = h')"

definition group_ok :: "kernel \<Rightarrow> bool" where
  "group_ok k \<longleftrightarrow> (\<forall>i. bit (rt_thread_ready_priority_group k) i \<longleftrightarrow> tlist k (Ready i) \<noteq> [])"

definition place_ok :: "list_head \<Rightarrow> rt_thread \<Rightarrow> bool" where
  "place_ok h th = (case h of
      Ready i \<Rightarrow> stat th AND RT_THREAD_STAT_MASK = RT_THREAD_READY \<and> unat (current_priority th) = i
    | Suspend p \<Rightarrow> stat th AND RT_THREAD_STAT_MASK = RT_THREAD_SUSPEND
    | Defunct \<Rightarrow> stat th AND RT_THREAD_STAT_MASK = RT_THREAD_CLOSE)"

definition thread_ok :: "kernel \<Rightarrow> tid \<Rightarrow> bool" where
  "thread_ok k t \<longleftrightarrow>
    (tstate k t = RT_THREAD_READY \<longrightarrow> t \<in> set (tlist k (Ready (tprio k t)))) \<and>
    (tstate k t = RT_THREAD_RUNNING \<longrightarrow> rt_current_thread k = Some t) \<and>
    (live k t \<longrightarrow> prio_ok (threads k t) \<and> rt_scheduler_stack_check t k)"

definition sched_but :: "tid set \<Rightarrow> kernel \<Rightarrow> bool" where
  "sched_but T k \<longleftrightarrow> queues_ok k \<and> group_ok k \<and>
    (\<forall>h t. t \<in> set (tlist k h) \<longrightarrow> t \<notin> T \<and> place_ok h (threads k t)) \<and> (\<forall>t. t \<notin> T \<longrightarrow> thread_ok k t)"

abbreviation sched_ok :: "kernel \<Rightarrow> bool" where
  "sched_ok k \<equiv> sched_but {} k"

lemma stack_check_cong:
  "threads k' t = threads k t \<Longrightarrow> mem k' = mem k \<Longrightarrow> rt_scheduler_stack_check t k' = rt_scheduler_stack_check t k"
  by (simp add: rt_scheduler_stack_check_def)

text \<open>What the condition on one thread depends on.\<close>

lemma thread_ok_cong:
  assumes "threads k' t = threads k t" "mem k' = mem k"
    "tstate k t = RT_THREAD_RUNNING \<Longrightarrow> rt_current_thread k' = rt_current_thread k"
    "t \<in> set (tlist k' (Ready (tprio k t))) \<longleftrightarrow> t \<in> set (tlist k (Ready (tprio k t)))"
  shows "thread_ok k' t = thread_ok k t"
  using assms(3,4) stack_check_cong [OF assms(1,2)] by (auto simp: thread_ok_def live_def assms(1))

section \<open>Status words\<close>

lemma stat_set [simp]: "(x OR (s AND - 8)) AND 7 = x AND (7 :: u8)"
  by (simp add: word_ao_dist and.assoc)

lemma stat_yield [simp]: "(s OR 8) AND 7 = s AND (7 :: u8)" "(s AND - 9) AND 7 = s AND (7 :: u8)"
  by (simp_all add: word_ao_dist and.assoc)

lemma upd_thread_simps [simp]:
  "threads (upd_thread t f k) = (threads k)(t := f (threads k t))"
  "tlist (upd_thread t f k) = tlist k" "rt_current_thread (upd_thread t f k) = rt_current_thread k"
  "rt_thread_ready_priority_group (upd_thread t f k) = rt_thread_ready_priority_group k"
  "rt_scheduler_lock_nest (upd_thread t f k) = rt_scheduler_lock_nest k" "mem (upd_thread t f k) = mem k"
  "rt_tick (upd_thread t f k) = rt_tick k" "timers (upd_thread t f k) = timers k"
  "rt_timer_list (upd_thread t f k) = rt_timer_list k" "sems (upd_thread t f k) = sems k"
  "mutexes (upd_thread t f k) = mutexes k" "objects (upd_thread t f k) = objects k"
  "object_list (upd_thread t f k) = object_list k"
  by (simp_all add: upd_thread_def)

lemma tlist_remove_simps [simp]:
  "threads (tlist_remove t k) = threads k" "tlist (tlist_remove t k) h = removeAll t (tlist k h)"
  "rt_current_thread (tlist_remove t k) = rt_current_thread k"
  "rt_thread_ready_priority_group (tlist_remove t k) = rt_thread_ready_priority_group k"
  "rt_scheduler_lock_nest (tlist_remove t k) = rt_scheduler_lock_nest k" "mem (tlist_remove t k) = mem k"
  "rt_tick (tlist_remove t k) = rt_tick k" "timers (tlist_remove t k) = timers k"
  "rt_timer_list (tlist_remove t k) = rt_timer_list k" "sems (tlist_remove t k) = sems k"
  "mutexes (tlist_remove t k) = mutexes k" "objects (tlist_remove t k) = objects k"
  "object_list (tlist_remove t k) = object_list k"
  by (simp_all add: tlist_remove_def)

section \<open>The lowest bit set\<close>

lemma rt_ffs_0: "rt_ffs v = 0 \<longleftrightarrow> v = 0"
proof -
  have "find (bit v) [0..<32] = None \<longleftrightarrow> v = 0"
    by (auto simp: find_None_iff intro!: bit_word_eqI)
  then show ?thesis by (auto simp: rt_ffs_def split: option.splits)
qed

lemma rt_ffs_least:
  assumes "v \<noteq> 0"
  shows "bit v (rt_ffs v - 1)" "rt_ffs v - 1 < 32" "i < rt_ffs v - 1 \<Longrightarrow> \<not> bit v i"
proof -
  from assms obtain n where n: "find (bit v) [0..<32] = Some n"
    using rt_ffs_0 [of v] by (auto simp: rt_ffs_def split: option.splits)
  then have "rt_ffs v - 1 = n" by (simp add: rt_ffs_def)
  moreover have "bit v n" "n < 32" "\<forall>i<n. \<not> bit v i"
    using n by (auto simp: find_Some_iff)
  ultimately show "bit v (rt_ffs v - 1)" "rt_ffs v - 1 < 32" "i < rt_ffs v - 1 \<Longrightarrow> \<not> bit v i" by auto
qed

section \<open>Threads set aside\<close>

lemma aside_update:
  assumes "sched_but T k" "t \<in> T"
  shows "sched_but T (upd_thread t f k)"
proof -
  have "thread_ok (upd_thread t f k) t' = thread_ok k t'" if "t' \<notin> T" for t'
    using that assms(2) by (intro thread_ok_cong) auto
  with assms show ?thesis by (auto simp: sched_but_def queues_ok_def group_ok_def)
qed

lemma aside_return:
  assumes "sched_but (insert t T) k" "thread_ok k t"
  shows "sched_but (T - {t}) k"
proof -
  have "t' \<notin> T - {t} \<Longrightarrow> thread_ok k t'" for t'
    using assms by (cases "t' = t") (auto simp: sched_but_def)
  with assms(1) show ?thesis by (auto simp: sched_but_def)
qed

lemma aside_weaken:
  assumes "sched_but T k" "\<And>h. t \<notin> set (tlist k h)"
  shows "sched_but (insert t T) k"
  using assms by (auto simp: sched_but_def)

lemma aside_notin: "sched_but T k \<Longrightarrow> t \<in> T \<Longrightarrow> t \<notin> set (tlist k h)"
  by (auto simp: sched_but_def)

lemma aside_drop:
  assumes "sched_but T k" "t \<in> T" "thread_ok k t"
  shows "sched_but (T - {t}) k"
  using assms by (metis aside_return insert_absorb)

lemma in_ready:
  assumes "sched_but T k" "t \<in> set (tlist k (Ready i))"
  shows "t \<notin> T" "tstate k t = RT_THREAD_READY" "tprio k t = i"
  using assms by (force simp: sched_but_def place_ok_def)+

text \<open>A thread that is neither ready nor running needs no more than its priority and its stack.\<close>

lemma thread_ok_passive:
  assumes "tstate k t \<noteq> RT_THREAD_READY" "tstate k t \<noteq> RT_THREAD_RUNNING"
    "tstate k t = RT_THREAD_SUSPEND \<Longrightarrow> prio_ok (threads k t) \<and> rt_scheduler_stack_check t k"
  shows "thread_ok k t"
  using assms by (auto simp: thread_ok_def live_def)

section \<open>Removal from the ready lists\<close>

lemma remove_group:
  assumes "group_ok k" "\<And>i. t \<in> set (tlist k (Ready i)) \<Longrightarrow> i = p" "p < 32"
  shows "bit (if removeAll t (tlist k (Ready p)) = [] then rt_thread_ready_priority_group k AND NOT (push_bit p 1)
              else rt_thread_ready_priority_group k) i \<longleftrightarrow> removeAll t (tlist k (Ready i)) \<noteq> []"
proof (cases "i = p")
  case True
  then show ?thesis using assms by (auto simp: group_ok_def bit_simps)
next
  case False
  then have "removeAll t (tlist k (Ready i)) = tlist k (Ready i)" using assms(2) by (metis removeAll_id)
  moreover have "bit (rt_thread_ready_priority_group k) i \<Longrightarrow> i < 32" using bit_imp_le_length [of "rt_thread_ready_priority_group k" i] by simp
  ultimately show ?thesis using False assms by (auto simp: group_ok_def bit_simps)
qed

lemma tlist_remove_aside:
  assumes "sched_but T k" "tstate k t \<noteq> RT_THREAD_READY \<or> t \<in> T"
  shows "sched_but (insert t T) (tlist_remove t k)"
proof -
  have "removeAll t (tlist k (Ready i)) = tlist k (Ready i)" for i
    using assms in_ready [OF assms(1)] by (intro removeAll_id) auto
  then have "group_ok (tlist_remove t k)" using assms(1) by (simp add: group_ok_def sched_but_def)
  moreover have "thread_ok (tlist_remove t k) t'" if "t' \<notin> insert t T" for t'
    using assms(1) that thread_ok_cong [of "tlist_remove t k" t' k] by (auto simp: sched_but_def)
  moreover have "queues_ok (tlist_remove t k)"
    using assms(1) by (auto simp: sched_but_def queues_ok_def distinct_removeAll)
  ultimately show ?thesis using assms(1) by (auto simp: sched_but_def)
qed

lemma remove_thread_spec:
  assumes "sched_but T k" "prio_ok (threads k t)"
  obtains k' where "rt_schedule_remove_thread t k = Some k'" "sched_but (insert t T) k'"
    "threads k' = threads k" "tlist k' = (\<lambda>h. removeAll t (tlist k h))"
    "rt_current_thread k' = rt_current_thread k" "rt_scheduler_lock_nest k' = rt_scheduler_lock_nest k"
proof -
  let ?p = "tprio k t"
  let ?g = "if removeAll t (tlist k (Ready ?p)) = [] then rt_thread_ready_priority_group k AND NOT (push_bit ?p 1)
            else rt_thread_ready_priority_group k"
  let ?k = "(tlist_remove t k)\<lparr>rt_thread_ready_priority_group := ?g\<rparr>"
  have p: "?p < 32" "number_mask (threads k t) = push_bit ?p 1" using assms(2) by (auto simp: prio_ok_def)
  have "rt_schedule_remove_thread t k = Some ?k"
    using p by (simp add: rt_schedule_remove_thread_def Let_def tlist_remove_def)
  moreover have "group_ok ?k"
    unfolding group_ok_def using remove_group [OF _ _ p(1), of k t] in_ready(3) [OF assms(1)] assms(1)
    by (simp add: sched_but_def)
  moreover have "thread_ok ?k t'" if "t' \<notin> insert t T" for t'
    using assms(1) that thread_ok_cong [of ?k t' k] by (auto simp: sched_but_def)
  moreover have "queues_ok ?k" using assms(1) by (auto simp: sched_but_def queues_ok_def distinct_removeAll)
  ultimately have "rt_schedule_remove_thread t k = Some ?k" "sched_but (insert t T) ?k"
    using assms(1) by (auto simp: sched_but_def)
  then show ?thesis by (intro that [of ?k]) auto
qed

section \<open>Insertion into the ready lists\<close>

lemma insert_thread_spec:
  assumes "sched_but T k" "t \<in> T" "prio_ok (threads k t)" "rt_scheduler_stack_check t k"
  obtains k' where "rt_schedule_insert_thread t k = Some k'" "sched_but (T - {t}) k'"
    "threads k' = (threads k)(t := (threads k t)\<lparr>stat :=
       (if rt_current_thread k = Some t then RT_THREAD_RUNNING else RT_THREAD_READY) OR (stat (threads k t) AND NOT 7)\<rparr>)"
    "tlist k' = (if rt_current_thread k = Some t then tlist k
       else (tlist k)(Ready (tprio k t) := tlist k (Ready (tprio k t)) @ [t]))"
    "rt_current_thread k' = rt_current_thread k" "rt_scheduler_lock_nest k' = rt_scheduler_lock_nest k"
proof (cases "rt_current_thread k = Some t")
  case True
  let ?k = "upd_thread t (\<lambda>th. th\<lparr>stat := RT_THREAD_RUNNING OR (stat th AND NOT RT_THREAD_STAT_MASK)\<rparr>) k"
  have "thread_ok ?k t" using True assms(3,4) by (simp add: thread_ok_def prio_ok_def rt_scheduler_stack_check_def Let_def)
  then have "sched_but (T - {t}) ?k" using aside_update [OF assms(1,2)] assms(2) by (intro aside_drop)
  with True show ?thesis by (intro that [of ?k]) (simp_all add: rt_schedule_insert_thread_def)
next
  case False
  let ?u = "upd_thread t (\<lambda>th. th\<lparr>stat := RT_THREAD_READY OR (stat th AND NOT RT_THREAD_STAT_MASK)\<rparr>) k"
  let ?p = "tprio k t"
  let ?k = "?u\<lparr>tlist := (tlist k)(Ready ?p := tlist k (Ready ?p) @ [t]),
               rt_thread_ready_priority_group := rt_thread_ready_priority_group k OR push_bit ?p 1\<rparr>"
  have p: "?p < 32" "number_mask (threads k t) = push_bit ?p 1" using assms(3) by (auto simp: prio_ok_def)
  have n: "t \<notin> set (tlist k h)" for h using assms(1,2) by (rule aside_notin)
  have "rt_schedule_insert_thread t k = Some ?k" using False p by (simp add: rt_schedule_insert_thread_def Let_def)
  moreover have "group_ok ?k" using assms(1) p(1) by (auto simp: sched_but_def group_ok_def bit_simps)
  moreover have "queues_ok ?k" using assms(1) n by (auto simp: sched_but_def queues_ok_def split: if_splits)
  moreover have "thread_ok ?k t'" if "t' \<notin> T - {t}" for t'
  proof (cases "t' = t")
    case True
    then show ?thesis using assms(3,4) by (auto simp: thread_ok_def prio_ok_def rt_scheduler_stack_check_def Let_def)
  next
    case False
    then show ?thesis using that assms(1) thread_ok_cong [of ?k t' k] by (auto simp: sched_but_def)
  qed
  moreover have "place_ok h (threads ?k t') \<and> t' \<notin> T - {t}" if "t' \<in> set (tlist ?k h)" for h t'
  proof (cases "t' = t")
    case True
    with that n have "h = Ready ?p" by (auto split: if_splits)
    then show ?thesis using True by (simp add: place_ok_def)
  next
    case False
    with that have "t' \<in> set (tlist k h)" by (auto split: if_splits)
    then show ?thesis using False assms(1) by (auto simp: sched_but_def)
  qed
  ultimately show ?thesis using False by (intro that [of ?k]) (auto simp: sched_but_def)
qed

section \<open>What scheduling leaves alone\<close>

text \<open>A component of the state that does not depend on the threads, their lists and the choice of the current one.\<close>

locale sched_frame =
  fixes f :: "kernel \<Rightarrow> 'a"
  assumes f_threads: "f (k\<lparr>threads := x\<rparr>) = f k"
    and f_tlist: "f (k\<lparr>tlist := l\<rparr>) = f k"
    and f_group: "f (k\<lparr>rt_thread_ready_priority_group := g\<rparr>) = f k"
    and f_current: "f (k\<lparr>rt_current_thread := c\<rparr>) = f k"
    and f_priority: "f (k\<lparr>rt_current_priority := p\<rparr>) = f k"
begin

lemma frame_upd_thread: "f (upd_thread t h k) = f k"
  by (simp add: upd_thread_def f_threads)

lemma frame_tlist_remove: "f (tlist_remove t k) = f k"
  by (simp add: tlist_remove_def f_tlist)

lemma frame_insert: "rt_schedule_insert_thread t k = Some k' \<Longrightarrow> f k' = f k"
  by (auto simp: rt_schedule_insert_thread_def Let_def frame_upd_thread f_tlist f_group split: if_splits)

lemma frame_remove: "rt_schedule_remove_thread t k = Some k' \<Longrightarrow> f k' = f k"
  by (auto simp: rt_schedule_remove_thread_def Let_def frame_tlist_remove f_group split: if_splits)

lemma frame_choice: "schedule_choice cur to hp k = (t, b, k') \<Longrightarrow> f k' = f k"
  by (auto simp: schedule_choice_def Let_def frame_upd_thread split: if_splits)

lemma frame_schedule: "rt_schedule k = Some k' \<Longrightarrow> f k' = f k"
  by (auto simp: rt_schedule_def Let_def frame_upd_thread f_current f_priority
      split: if_splits bind_splits prod.splits dest!: frame_choice frame_insert frame_remove)

lemma frame_set_priority: "set_priority t p k = Some k' \<Longrightarrow> f k' = f k"
  by (auto simp: set_priority_def frame_upd_thread split: if_splits)

lemma frame_thread_timeout: "rt_thread_timeout t k = Some k' \<Longrightarrow> f k' = f k"
  by (auto simp: rt_thread_timeout_def Let_def frame_upd_thread frame_tlist_remove
      split: bind_splits dest!: frame_insert frame_schedule)

end

interpretation tick_frame: sched_frame rt_tick by unfold_locales simp_all
interpretation timers_frame: sched_frame timers by unfold_locales simp_all
interpretation timer_list_frame: sched_frame rt_timer_list by unfold_locales simp_all
interpretation sems_frame: sched_frame sems by unfold_locales simp_all
interpretation mutexes_frame: sched_frame mutexes by unfold_locales simp_all
interpretation objects_frame: sched_frame objects by unfold_locales simp_all
interpretation object_list_frame: sched_frame object_list by unfold_locales simp_all
interpretation mem_frame: sched_frame mem by unfold_locales simp_all
interpretation lock_frame: sched_frame rt_scheduler_lock_nest by unfold_locales simp_all
interpretation nest_frame: sched_frame rt_interrupt_nest by unfold_locales simp_all

end
