(* ===== verification/Scheduler.thy ===== *)
theory Scheduler
  imports Sched_Inv
begin

text \<open>
  The choice of the next thread: \<open>rt_schedule\<close> keeps the invariant of the scheduler, and leaves the processor
  to a thread of the highest priority among the current one and the ready ones.
\<close>

definition cur_ok :: "kernel \<Rightarrow> bool" where
  "cur_ok k \<longleftrightarrow> (\<forall>t. rt_current_thread k = Some t \<longrightarrow> tstate k t \<noteq> RT_THREAD_READY)"

text \<open>No ready thread has a higher priority (a smaller number) than the running one.\<close>

definition highest_runs :: "kernel \<Rightarrow> bool" where
  "highest_runs k \<longleftrightarrow> (\<forall>c t. rt_current_thread k = Some c \<longrightarrow> tstate k t = RT_THREAD_READY \<longrightarrow>
     tstate k c = RT_THREAD_RUNNING \<and> tprio k c \<le> tprio k t)"

lemma ready_in_list:
  "sched_but T k \<Longrightarrow> t \<notin> T \<Longrightarrow> tstate k t = RT_THREAD_READY \<Longrightarrow> t \<in> set (tlist k (Ready (tprio k t)))"
  by (simp add: sched_but_def thread_ok_def)

lemma running_is_current:
  "sched_but T k \<Longrightarrow> t \<notin> T \<Longrightarrow> tstate k t = RT_THREAD_RUNNING \<Longrightarrow> rt_current_thread k = Some t"
  by (simp add: sched_but_def thread_ok_def)

lemma in_list_place: "sched_but T k \<Longrightarrow> t \<in> set (tlist k h) \<Longrightarrow> place_ok h (threads k t)"
  by (simp add: sched_but_def)

lemma in_list_state:
  assumes "sched_but T k" "t \<in> set (tlist k h)"
  shows "tstate k t \<noteq> RT_THREAD_RUNNING" "tstate k t \<noteq> RT_THREAD_INIT"
  using in_list_place [OF assms] by (auto simp: place_ok_def split: list_head.splits)

lemma live_ok:
  assumes "sched_but T k" "t \<notin> T" "live k t"
  shows "prio_ok (threads k t)" "rt_scheduler_stack_check t k"
  using assms by (auto simp: sched_but_def thread_ok_def)

lemma highest_thread:
  assumes "sched_ok k" "rt_thread_ready_priority_group k \<noteq> 0"
  obtains to p r where "get_highest_priority_thread k = Some (to, p)" "tlist k (Ready p) = to # r" "p < 32"
    "\<And>i. i < p \<Longrightarrow> tlist k (Ready i) = []"
proof -
  let ?g = "rt_thread_ready_priority_group k" and ?p = "rt_ffs (rt_thread_ready_priority_group k) - 1"
  have g: "bit ?g i \<longleftrightarrow> tlist k (Ready i) \<noteq> []" for i using assms(1) by (simp add: sched_but_def group_ok_def)
  obtain to r where l: "tlist k (Ready ?p) = to # r"
    using rt_ffs_least(1) [OF assms(2)] g by (meson neq_Nil_conv)
  have "get_highest_priority_thread k = Some (to, ?p)"
    using assms(2) l by (simp add: get_highest_priority_thread_def rt_ffs_0)
  then show ?thesis using l rt_ffs_least [OF assms(2)] g by (intro that) auto
qed

lemma no_ready_below:
  assumes "sched_ok k" "\<And>i. i < p \<Longrightarrow> tlist k (Ready i) = []" "tstate k t = RT_THREAD_READY"
  shows "p \<le> tprio k t"
  using ready_in_list [OF assms(1) _ assms(3)] assms(2) by (metis empty_iff list.set(1) not_less)

lemma change_current:
  assumes "sched_but T k" "\<And>t. t \<notin> T \<Longrightarrow> tstate k t \<noteq> RT_THREAD_RUNNING"
  shows "sched_but T (k\<lparr>rt_current_priority := p, rt_current_thread := c\<rparr>)"
proof -
  let ?k = "k\<lparr>rt_current_priority := p, rt_current_thread := c\<rparr>"
  have "thread_ok ?k t = thread_ok k t" if "t \<notin> T" for t
    using that assms(2) by (intro thread_ok_cong) auto
  with assms(1) show ?thesis by (simp add: sched_but_def queues_ok_def group_ok_def)
qed

text \<open>The switch to the first thread of a ready list, when no other thread is marked as running.\<close>

lemma switch_to:
  assumes "sched_ok k" "rt_current_thread k = Some to" "to \<in> set (tlist k (Ready p))"
  obtains k' where "rt_schedule_remove_thread to k = Some k'"
    "let k'' = upd_thread to (\<lambda>th. th\<lparr>stat := RT_THREAD_RUNNING OR (stat th AND NOT RT_THREAD_STAT_MASK)\<rparr>) k'
     in sched_ok k'' \<and> rt_scheduler_stack_check to k'' \<and> rt_current_thread k'' = Some to \<and>
        threads k'' = (threads k)(to := (threads k to)\<lparr>stat := RT_THREAD_RUNNING OR (stat (threads k to) AND NOT RT_THREAD_STAT_MASK)\<rparr>) \<and>
        tlist k'' = (\<lambda>h. removeAll to (tlist k h))"
proof -
  have "live k to" using in_ready(2) [OF assms(1,3)] by (simp add: live_def)
  note l = live_ok [OF assms(1) _ this, simplified]
  obtain k' where k': "rt_schedule_remove_thread to k = Some k'" "sched_but (insert to {}) k'" "threads k' = threads k"
      "tlist k' = (\<lambda>h. removeAll to (tlist k h))" "rt_current_thread k' = rt_current_thread k"
    using remove_thread_spec [OF assms(1) l(1)] by metis
  let ?k = "upd_thread to (\<lambda>th. th\<lparr>stat := RT_THREAD_RUNNING OR (stat th AND NOT RT_THREAD_STAT_MASK)\<rparr>) k'"
  have m: "mem k' = mem k" by (rule mem_frame.frame_remove [OF k'(1)])
  have "rt_scheduler_stack_check to ?k" using l(2) k'(3) m by (simp add: rt_scheduler_stack_check_def Let_def)
  moreover from this have "thread_ok ?k to" using l(1) k'(3,5) assms(2) by (simp add: thread_ok_def prio_ok_def)
  then have "sched_ok ?k" using aside_update [OF k'(2), of to] aside_drop [of "{to}" ?k to] by simp
  ultimately show ?thesis using k' assms(2) by (intro that [of k']) (auto simp: Let_def)
qed

text \<open>The two outcomes of \<open>rt_schedule\<close>.\<close>

definition schedule_stays :: "kernel \<Rightarrow> tid \<Rightarrow> bool" where
  "schedule_stays k cur \<longleftrightarrow> rt_scheduler_lock_nest k \<noteq> 0 \<or> rt_thread_ready_priority_group k = 0 \<or>
     tstate k cur = RT_THREAD_RUNNING \<and> (\<exists>p t r. tlist k (Ready p) = t # r \<and> (\<forall>i<p. tlist k (Ready i) = []) \<and>
       (tprio k cur < p \<or> tprio k cur = p \<and> stat (threads k cur) AND RT_THREAD_STAT_YIELD = 0))"

definition demoted :: "rt_thread \<Rightarrow> rt_thread" where
  "demoted th = (if stat th AND RT_THREAD_STAT_MASK = RT_THREAD_RUNNING
     then th\<lparr>stat := RT_THREAD_READY OR ((stat th AND NOT RT_THREAD_STAT_YIELD) AND NOT RT_THREAD_STAT_MASK)\<rparr> else th)"

definition promoted :: "rt_thread \<Rightarrow> rt_thread" where
  "promoted th = th\<lparr>stat := RT_THREAD_RUNNING OR (stat th AND NOT RT_THREAD_STAT_MASK)\<rparr>"

lemma demote_current:
  fixes k cur to p
  defines "run \<equiv> tstate k cur = RT_THREAD_RUNNING"
  defines "k1 \<equiv> if run then upd_thread cur (\<lambda>th. th\<lparr>stat := stat th AND NOT RT_THREAD_STAT_YIELD\<rparr>) k else k"
  defines "k2 \<equiv> k1\<lparr>rt_current_priority := of_nat p, rt_current_thread := Some to\<rparr>"
  assumes "sched_ok k" "rt_current_thread k = Some cur" "to \<noteq> cur"
  obtains k3 where "(if run then rt_schedule_insert_thread cur k2 else Some k2) = Some k3" "sched_ok k3"
    "rt_current_thread k3 = Some to" "threads k3 = (threads k)(cur := demoted (threads k cur))"
    "tlist k3 = (if run then (tlist k)(Ready (tprio k cur) := tlist k (Ready (tprio k cur)) @ [cur]) else tlist k)"
proof (cases run)
  case run: True
  note sched = assms(4)
  have st: "tstate k cur = RT_THREAD_RUNNING" using run by (simp add: run_def)
  have lv: "prio_ok (threads k cur)" "rt_scheduler_stack_check cur k"
    using live_ok [OF sched, of cur] st by (simp_all add: live_def)
  have "sched_but {cur} k" using sched st in_list_state(1) [OF sched] by (intro aside_weaken) auto
  then have "sched_but {cur} k1" using run by (simp add: aside_update k1_def)
  then have s2: "sched_but {cur} k2" unfolding k2_def
    using assms(5) running_is_current [OF sched] run by (intro change_current) (auto simp: k1_def)
  have t2: "threads k2 = (threads k)(cur := (threads k cur)\<lparr>stat := stat (threads k cur) AND NOT RT_THREAD_STAT_YIELD\<rparr>)"
    "tlist k2 = tlist k" "mem k2 = mem k" "rt_current_thread k2 = Some to"
    using run by (simp_all add: k2_def k1_def)
  have "prio_ok (threads k2 cur)" "rt_scheduler_stack_check cur k2"
    using lv by (simp_all add: prio_ok_def rt_scheduler_stack_check_def Let_def t2)
  from insert_thread_spec [OF s2 _ this] obtain k' where k': "rt_schedule_insert_thread cur k2 = Some k'" "sched_but ({cur} - {cur}) k'"
    "threads k' = (threads k2)(cur := (threads k2 cur)\<lparr>stat :=
       (if rt_current_thread k2 = Some cur then RT_THREAD_RUNNING else RT_THREAD_READY) OR (stat (threads k2 cur) AND NOT 7)\<rparr>)"
    "tlist k' = (if rt_current_thread k2 = Some cur then tlist k2
       else (tlist k2)(Ready (tprio k2 cur) := tlist k2 (Ready (tprio k2 cur)) @ [cur]))"
    "rt_current_thread k' = rt_current_thread k2" by blast
  show ?thesis by (rule that [of k']) (use k' run st assms(6) in \<open>simp_all add: demoted_def t2\<close>)
next
  case nrun: False
  have "sched_ok k2" unfolding k2_def
    using assms(4,5) nrun running_is_current [OF assms(4)] by (intro change_current) (auto simp: k1_def run_def)
  then show ?thesis using nrun by (intro that [of k2]) (auto simp: demoted_def k2_def k1_def run_def)
qed

text \<open>The running thread is in no list: taking it out of its ready list once more changes nothing.\<close>

lemma word_and_not_id:
  fixes g :: u32
  shows "\<not> bit g n \<Longrightarrow> g AND NOT (push_bit n 1) = g"
  by (rule bit_word_eqI) (auto simp: bit_simps)

lemma running_stays:
  assumes "sched_ok k" "tstate k t = RT_THREAD_RUNNING"
  shows "rt_schedule_remove_thread t k = Some k"
    "upd_thread t (\<lambda>th. th\<lparr>stat := RT_THREAD_RUNNING OR (stat th AND NOT RT_THREAD_STAT_MASK)\<rparr>) k = k"
proof -
  have n: "t \<notin> set (tlist k h)" for h
    using assms by (cases h) (force simp: sched_but_def place_ok_def)+
  then have "tlist_remove t k = k" by (simp add: tlist_remove_def removeAll_id)
  moreover have p: "tprio k t < 32" "number_mask (threads k t) = push_bit (tprio k t) 1"
    using assms by (auto simp: sched_but_def thread_ok_def live_def prio_ok_def)
  moreover have "rt_thread_ready_priority_group k AND NOT (push_bit (tprio k t) 1) = rt_thread_ready_priority_group k"
    if "tlist k (Ready (tprio k t)) = []"
    using that assms(1) by (intro word_and_not_id) (simp add: sched_but_def group_ok_def)
  ultimately show "rt_schedule_remove_thread t k = Some k" by (simp add: rt_schedule_remove_thread_def Let_def)
  have "RT_THREAD_RUNNING OR (stat (threads k t) AND NOT RT_THREAD_STAT_MASK) = stat (threads k t)"
    unfolding assms(2) [symmetric] by (rule bit_word_eqI) (auto simp only: bit_and_iff bit_or_iff bit_not_iff possible_bit_word)
  then show "upd_thread t (\<lambda>th. th\<lparr>stat := RT_THREAD_RUNNING OR (stat th AND NOT RT_THREAD_STAT_MASK)\<rparr>) k = k"
    by (simp add: upd_thread_def)
qed

lemma schedule_outcome:
  assumes "sched_ok k" "cur_ok k" "rt_current_thread k = Some cur"
  shows "schedule_stays k cur \<and> rt_schedule k = Some k \<or>
    (\<exists>k' p to r. \<not> schedule_stays k cur \<and> rt_scheduler_lock_nest k = 0 \<and> rt_schedule k = Some k' \<and>
       tlist k (Ready p) = to # r \<and> (\<forall>i<p. tlist k (Ready i) = []) \<and> to \<noteq> cur \<and>
       (tstate k cur = RT_THREAD_RUNNING \<longrightarrow> p \<le> tprio k cur) \<and>
       sched_ok k' \<and> rt_current_thread k' = Some to \<and>
       threads k' = (threads k)(cur := demoted (threads k cur), to := promoted (threads k to)) \<and>
       tlist k' = (\<lambda>h. removeAll to ((if tstate k cur = RT_THREAD_RUNNING
          then (tlist k)(Ready (tprio k cur) := tlist k (Ready (tprio k cur)) @ [cur]) else tlist k) h)))"
    (is "?stay \<or> ?switch")
proof (cases "rt_scheduler_lock_nest k = 0 \<and> rt_thread_ready_priority_group k \<noteq> 0")
  case False
  then show ?thesis by (auto simp: rt_schedule_def schedule_stays_def)
next
  case True
  then obtain to p r where h: "get_highest_priority_thread k = Some (to, p)" "tlist k (Ready p) = to # r" "p < 32"
      "\<And>i. i < p \<Longrightarrow> tlist k (Ready i) = []"
    using highest_thread [OF assms(1)] by metis
  have "tstate k to = RT_THREAD_READY" using in_ready(2) [OF assms(1), of to p] h(2) by simp
  then have ne: "to \<noteq> cur" using assms(2,3) by (auto simp: cur_ok_def)
  have sp: "p' = p" if "tlist k (Ready p') = t # r'" "\<forall>i<p'. tlist k (Ready i) = []" for p' t r'
    using that h(2,4) by (metis linorder_neqE_nat list.distinct(1))
  show ?thesis
  proof (cases "tstate k cur = RT_THREAD_RUNNING \<and> (tprio k cur < p \<or> tprio k cur = p \<and> stat (threads k cur) AND RT_THREAD_STAT_YIELD = 0)")
    case stay: True
    then have "rt_schedule k = Some k"
      using True h(1) assms(3) running_stays [OF assms(1), of cur] by (auto simp: rt_schedule_def schedule_choice_def Let_def)
    moreover have "schedule_stays k cur" using stay h(2,4) by (auto simp: schedule_stays_def)
    ultimately show ?thesis by blast
  next
    case sw: False
    let ?run = "tstate k cur = RT_THREAD_RUNNING"
    let ?k1 = "if ?run then upd_thread cur (\<lambda>th. th\<lparr>stat := stat th AND NOT RT_THREAD_STAT_YIELD\<rparr>) k else k"
    let ?k2 = "?k1\<lparr>rt_current_priority := of_nat p, rt_current_thread := Some to\<rparr>"
    have ns: "\<not> schedule_stays k cur"
    proof
      assume "schedule_stays k cur"
      then obtain p' t r' where "?run" "tlist k (Ready p') = t # r'" "\<forall>i<p'. tlist k (Ready i) = []"
          "tprio k cur < p' \<or> tprio k cur = p' \<and> stat (threads k cur) AND RT_THREAD_STAT_YIELD = 0"
        using True unfolding schedule_stays_def by blast
      with sp sw show False by blast
    qed
    obtain k3 where k3: "(if ?run then rt_schedule_insert_thread cur ?k2 else Some ?k2) = Some k3" "sched_ok k3"
      "rt_current_thread k3 = Some to" "threads k3 = (threads k)(cur := demoted (threads k cur))"
      "tlist k3 = (if ?run then (tlist k)(Ready (tprio k cur) := tlist k (Ready (tprio k cur)) @ [cur]) else tlist k)"
      by (rule demote_current [OF assms(1,3) ne])
    have "to \<in> set (tlist k3 (Ready p))" using k3(5) h(2) by auto
    then obtain k4 where k4: "rt_schedule_remove_thread to k3 = Some k4"
      "let k'' = upd_thread to (\<lambda>th. th\<lparr>stat := RT_THREAD_RUNNING OR (stat th AND NOT RT_THREAD_STAT_MASK)\<rparr>) k4
       in sched_ok k'' \<and> rt_scheduler_stack_check to k'' \<and> rt_current_thread k'' = Some to \<and>
        threads k'' = (threads k3)(to := (threads k3 to)\<lparr>stat := RT_THREAD_RUNNING OR (stat (threads k3 to) AND NOT RT_THREAD_STAT_MASK)\<rparr>) \<and>
        tlist k'' = (\<lambda>h. removeAll to (tlist k3 h))"
      by (rule switch_to [OF k3(2,3)])
    let ?k = "upd_thread to (\<lambda>th. th\<lparr>stat := RT_THREAD_RUNNING OR (stat th AND NOT RT_THREAD_STAT_MASK)\<rparr>) k4"
    have c: "schedule_choice cur to p k = (to, ?run, ?k1)" using sw by (auto simp: schedule_choice_def Let_def)
    have "rt_schedule k = do { k \<leftarrow> (if ?run then rt_schedule_insert_thread cur ?k2 else Some ?k2);
        k \<leftarrow> rt_schedule_remove_thread to k;
        let k = upd_thread to (\<lambda>th. th\<lparr>stat := RT_THREAD_RUNNING OR (stat th AND NOT RT_THREAD_STAT_MASK)\<rparr>) k;
        if rt_scheduler_stack_check to k then Some k else None }"
      using True h(1) assms(3) ne by (simp add: rt_schedule_def c Let_def)
    then have s: "rt_schedule k = Some ?k" using k3(1) k4 by (simp add: Let_def)
    have fin: "sched_ok ?k" "rt_current_thread ?k = Some to" using k4(2) by (simp_all only: Let_def)
    have th: "threads ?k = (threads k)(cur := demoted (threads k cur), to := promoted (threads k to))"
      using k4(2) k3(4) ne unfolding Let_def promoted_def by simp
    have tl: "tlist ?k = (\<lambda>h. removeAll to ((if ?run
          then (tlist k)(Ready (tprio k cur) := tlist k (Ready (tprio k cur)) @ [cur]) else tlist k) h))"
      using k4(2) k3(5) unfolding Let_def by simp
    have "?run \<longrightarrow> p \<le> tprio k cur" using sw by linarith
    with ns s h(2,4) ne fin th tl True have "?switch" by blast
    then show ?thesis ..
  qed
qed

section \<open>What follows for its callers\<close>

definition runnable :: "kernel \<Rightarrow> tid \<Rightarrow> bool" where
  "runnable k t \<longleftrightarrow> tstate k t = RT_THREAD_READY \<or> tstate k t = RT_THREAD_RUNNING"

text \<open>Two states between which scheduling has taken place: only the status of runnable threads and their lists differ.\<close>

definition rescheduled :: "kernel \<Rightarrow> kernel \<Rightarrow> bool" where
  "rescheduled k k' \<longleftrightarrow> (\<forall>t. threads k' t = (threads k t)\<lparr>stat := stat (threads k' t)\<rparr> \<and>
       (\<not> runnable k t \<longrightarrow> threads k' t = threads k t) \<and> (runnable k t \<longrightarrow> runnable k' t)) \<and>
     (\<forall>p. tlist k' (Suspend p) = tlist k (Suspend p)) \<and> tlist k' Defunct = tlist k Defunct"

lemma rescheduled_refl [simp]: "rescheduled k k"
  by (simp add: rescheduled_def)

lemma rescheduled_thread:
  assumes "rescheduled k k'"
  shows "current_priority (threads k' t) = current_priority (threads k t)" "error (threads k' t) = error (threads k t)"
    "number_mask (threads k' t) = number_mask (threads k t)" "init_priority (threads k' t) = init_priority (threads k t)"
    "remaining_tick (threads k' t) = remaining_tick (threads k t)" "init_tick (threads k' t) = init_tick (threads k t)"
    "cleanup (threads k' t) = cleanup (threads k t)" "runnable k' t = runnable k t"
    "tstate k' t = RT_THREAD_SUSPEND \<longleftrightarrow> tstate k t = RT_THREAD_SUSPEND"
    "tstate k' t = RT_THREAD_INIT \<longleftrightarrow> tstate k t = RT_THREAD_INIT"
    "tstate k' t = RT_THREAD_CLOSE \<longleftrightarrow> tstate k t = RT_THREAD_CLOSE"
    "live k' t \<longleftrightarrow> live k t"
proof -
  have e: "threads k' t = (threads k t)\<lparr>stat := stat (threads k' t)\<rparr>" using assms by (simp add: rescheduled_def)
  show "current_priority (threads k' t) = current_priority (threads k t)" "error (threads k' t) = error (threads k t)"
    "number_mask (threads k' t) = number_mask (threads k t)" "init_priority (threads k' t) = init_priority (threads k t)"
    "remaining_tick (threads k' t) = remaining_tick (threads k t)" "init_tick (threads k' t) = init_tick (threads k t)"
    "cleanup (threads k' t) = cleanup (threads k t)"
    by (subst e; simp)+
  consider "runnable k t" "runnable k' t" | "\<not> runnable k t" "threads k' t = threads k t"
    using assms by (auto simp: rescheduled_def)
  then show "runnable k' t = runnable k t"
    "tstate k' t = RT_THREAD_SUSPEND \<longleftrightarrow> tstate k t = RT_THREAD_SUSPEND"
    "tstate k' t = RT_THREAD_INIT \<longleftrightarrow> tstate k t = RT_THREAD_INIT"
    "tstate k' t = RT_THREAD_CLOSE \<longleftrightarrow> tstate k t = RT_THREAD_CLOSE" "live k' t \<longleftrightarrow> live k t"
    by (cases; auto simp: runnable_def live_def)+
qed

lemma rescheduled_lists:
  assumes "rescheduled k k'"
  shows "tlist k' (Suspend p) = tlist k (Suspend p)" "tlist k' Defunct = tlist k Defunct"
  using assms by (simp_all add: rescheduled_def)

lemma promoted_simps [simp]: "stat (promoted th) AND 7 = 3" "current_priority (promoted th) = current_priority th"
  "(promoted th)\<lparr>stat := s\<rparr> = th\<lparr>stat := s\<rparr>"
  by (simp_all add: promoted_def)

lemma demoted_simps [simp]: "stat (demoted th) AND 7 = (if stat th AND 7 = 3 then 1 else stat th AND 7)"
  "current_priority (demoted th) = current_priority th" "(demoted th)\<lparr>stat := s\<rparr> = th\<lparr>stat := s\<rparr>"
  "stat th AND 7 \<noteq> 3 \<Longrightarrow> demoted th = th"
  by (simp_all add: demoted_def)

lemma thread_stat_self: "th' = th\<lparr>stat := s\<rparr> \<Longrightarrow> th' = th\<lparr>stat := stat th'\<rparr>"
  by simp

lemma demoted_stat: "demoted th = th\<lparr>stat := stat (demoted th)\<rparr>"
  by (simp add: demoted_def)

lemma promoted_stat: "promoted th = th\<lparr>stat := stat (promoted th)\<rparr>"
  by (simp add: promoted_def)

lemma schedule_spec:
  assumes "sched_ok k" "cur_ok k" "rt_current_thread k = Some cur"
  obtains k' c where "rt_schedule k = Some k'" "sched_ok k'" "cur_ok k'" "rescheduled k k'"
    "rt_current_thread k' = Some c" "rt_scheduler_lock_nest k = 0 \<longrightarrow> highest_runs k'"
proof (cases "schedule_stays k cur")
  case True
  then have "rt_schedule k = Some k" using schedule_outcome [OF assms] by blast
  moreover have "highest_runs k" if "rt_scheduler_lock_nest k = 0"
  proof (cases "rt_thread_ready_priority_group k = 0")
    case z: True
    then have "tlist k (Ready i) = []" for i using assms(1) by (simp add: sched_but_def group_ok_def)
    then have "tstate k t \<noteq> RT_THREAD_READY" for t using ready_in_list [OF assms(1), of t] by auto
    then show ?thesis by (simp add: highest_runs_def)
  next
    case False
    with True that obtain p where p: "tstate k cur = RT_THREAD_RUNNING" "\<And>i. i < p \<Longrightarrow> tlist k (Ready i) = []" "tprio k cur \<le> p"
      unfolding schedule_stays_def by (metis less_imp_le order_refl)
    then show ?thesis using no_ready_below [OF assms(1) p(2)] assms(3) by (force simp: highest_runs_def)
  qed
  ultimately show ?thesis using assms by (intro that) auto
next
  case False
  then obtain k' p to r where k': "rt_schedule k = Some k'" "tlist k (Ready p) = to # r" "\<And>i. i < p \<Longrightarrow> tlist k (Ready i) = []"
      "to \<noteq> cur" "tstate k cur = RT_THREAD_RUNNING \<Longrightarrow> p \<le> tprio k cur" "sched_ok k'" "rt_current_thread k' = Some to"
      "threads k' = (threads k)(cur := demoted (threads k cur), to := promoted (threads k to))"
      "tlist k' = (\<lambda>h. removeAll to ((if tstate k cur = RT_THREAD_RUNNING
          then (tlist k)(Ready (tprio k cur) := tlist k (Ready (tprio k cur)) @ [cur]) else tlist k) h))"
    using schedule_outcome [OF assms] by blast
  have to: "tstate k to = RT_THREAD_READY" "tprio k to = p" using in_ready [OF assms(1), of to p] k'(2) by simp_all
  have "removeAll to (tlist k h) = tlist k h" if "\<forall>i. h \<noteq> Ready i" for h
    using that in_list_place [OF assms(1), of to h] to(1) by (intro removeAll_id) (auto simp: place_ok_def split: list_head.splits)
  then have "tlist k' (Suspend q) = tlist k (Suspend q)" "tlist k' Defunct = tlist k Defunct" for q
    using k'(9) by simp_all
  moreover have "threads k' t = (threads k t)\<lparr>stat := stat (threads k' t)\<rparr>" for t
    using k'(8) demoted_stat promoted_stat by simp
  moreover have "\<not> runnable k t \<Longrightarrow> threads k' t = threads k t" "runnable k t \<Longrightarrow> runnable k' t" for t
    using k'(4,8) to(1) by (auto simp: runnable_def)
  ultimately have "rescheduled k k'" by (simp add: rescheduled_def)
  moreover have "highest_runs k'"
  proof -
    have "tstate k t = RT_THREAD_READY \<Longrightarrow> p \<le> tprio k t" for t using no_ready_below [OF assms(1) k'(3)] by blast
    then have "p \<le> tprio k' t" if "tstate k' t = RT_THREAD_READY" for t
      using that k'(4,5,8) by (cases "t = cur") (auto split: if_splits)
    then show ?thesis using k'(4,7,8) to(2) by (auto simp: highest_runs_def)
  qed
  moreover have "cur_ok k'" using k'(7,8) by (simp add: cur_ok_def)
  ultimately show ?thesis using k' by (intro that) auto
qed

lemma schedule_locked: "rt_scheduler_lock_nest k \<noteq> 0 \<Longrightarrow> rt_schedule k = Some k"
  by (simp add: rt_schedule_def)

end
