(* ===== verification/Timer_List.thy ===== *)
theory Timer_List
  imports Scheduler
begin

text \<open>
  The list of running timers. The tick counter wraps around, so a timer is placed by its distance from the
  present tick, read as a signed number: \<open>due_in\<close>. The list is sorted by this distance as long as all
  distances lie in a window of half the range of the counter.
\<close>

definition due_in :: "kernel \<Rightarrow> timer_ref \<Rightarrow> int" where
  "due_in k tm = sint (timeout_tick (timers k tm) - rt_tick k)"

definition timer_window :: "int \<Rightarrow> kernel \<Rightarrow> bool" where
  "timer_window lo k \<longleftrightarrow> distinct (rt_timer_list k) \<and> sorted (map (due_in k) (rt_timer_list k)) \<and>
     (\<forall>tm \<in> set (rt_timer_list k). lo \<le> due_in k tm \<and> due_in k tm < 0x7fffffff)"

section \<open>Distances\<close>

lemma sint_bounds: "- (2 ^ 31) \<le> sint (w :: u32)" "sint (w :: u32) < 2 ^ 31"
  using sint_ge [of w] sint_lt [of w] by simp_all

lemma uint_of_sint: "uint (w :: u32) = sint w mod 2 ^ 32"
  by (simp add: uint_sint take_bit_eq_mod)

lemma neg_mod: "- (2 ^ 31) \<le> x \<Longrightarrow> x < 0 \<Longrightarrow> x mod 2 ^ 32 = x + (2 ^ 32 :: int)"
  using mod_pos_pos_trivial [of "x + 2 ^ 32" "2 ^ 32 :: int"] by simp

lemma sint_small: "uint (w :: u32) < 2 ^ 31 \<Longrightarrow> sint w = uint w"
  using uint_of_sint [of w] sint_bounds [of w] by (cases "sint w < 0") (auto simp: neg_mod [simplified])

lemma below_half: "(w :: u32) < 0x7fffffff \<longleftrightarrow> 0 \<le> sint w \<and> sint w < 0x7fffffff"
proof -
  have "w < 0x7fffffff \<longleftrightarrow> uint w < 0x7fffffff" by (simp add: word_less_alt)
  also have "\<dots> \<longleftrightarrow> 0 \<le> sint w \<and> sint w < 0x7fffffff"
    using uint_of_sint [of w] sint_bounds [of w] by (cases "sint w < 0") (auto simp: neg_mod [simplified])
  finally show ?thesis .
qed

lemma sint_minus:
  fixes a b :: u32
  assumes "- (2 ^ 31) \<le> sint a - sint b" "sint a - sint b < 2 ^ 31"
  shows "sint (a - b) = sint a - sint b"
  using assms by (simp add: sint_word_diff signed_take_bit_int_eq_self)

lemma half: "RT_TICK_MAX div 2 = (0x7fffffff :: u32)"
  by simp

text \<open>The two comparisons of the code, for times in the window.\<close>

lemma later_iff:
  fixes t d now :: u32
  assumes "-1 \<le> sint (t - now)" "sint (t - now) < 0x7fffffff" "0 \<le> sint (d - now)" "sint (d - now) < 0x7fffffff"
  shows "t - d = 0 \<or> \<not> t - d < 0x7fffffff \<longleftrightarrow> sint (t - now) \<le> sint (d - now)"
proof -
  have "sint (t - d) = sint ((t - now) - (d - now))" by simp
  also have "\<dots> = sint (t - now) - sint (d - now)" using assms by (intro sint_minus) auto
  finally have e: "sint (t - d) = sint (t - now) - sint (d - now)" .
  have "t - d = 0 \<longleftrightarrow> sint (t - d) = 0" by (metis signed_eq_0_iff)
  then show ?thesis unfolding below_half e using assms by linarith
qed

lemma due_iff:
  "now - t < (0x7fffffff :: u32) \<longleftrightarrow> sint (t - now) \<le> 0"
  if "- 0x7fffffff < sint (t - now)" for t now :: u32
proof -
  have "sint (now - t) = sint (0 - (t - now))" by simp
  also have "\<dots> = - sint (t - now)" using that sint_bounds [of "t - now"] by (subst sint_minus) auto
  finally show ?thesis unfolding below_half using that by linarith
qed

section \<open>Insertion\<close>

lemma timer_insert_split:
  assumes "\<And>t. t \<in> set ts \<Longrightarrow> P t \<longleftrightarrow> timeout_tick (ti t) - d = 0 \<or> \<not> timeout_tick (ti t) - d < 0x7fffffff"
  shows "timer_insert ti d tm ts = takeWhile P ts @ tm # dropWhile P ts"
  using assms by (induction ts) auto

lemma timer_insert_window:
  assumes "\<And>t. t \<in> set ts \<Longrightarrow> -1 \<le> sint (timeout_tick (ti t) - now) \<and> sint (timeout_tick (ti t) - now) < 0x7fffffff"
    "0 \<le> sint (d - now)" "sint (d - now) < 0x7fffffff"
  shows "timer_insert ti d tm ts =
    takeWhile (\<lambda>t. sint (timeout_tick (ti t) - now) \<le> sint (d - now)) ts @ tm #
    dropWhile (\<lambda>t. sint (timeout_tick (ti t) - now) \<le> sint (d - now)) ts"
proof (rule timer_insert_split)
  fix t assume "t \<in> set ts"
  from later_iff [OF conjunct1 [OF assms(1) [OF this]] conjunct2 [OF assms(1) [OF this]] assms(2,3)]
  show "sint (timeout_tick (ti t) - now) \<le> sint (d - now) \<longleftrightarrow>
    timeout_tick (ti t) - d = 0 \<or> \<not> timeout_tick (ti t) - d < 0x7fffffff" by blast
qed

lemma set_timer_insert [simp]: "set (timer_insert ti d tm ts) = insert tm (set ts)"
  by (induction ts) auto

lemma distinct_timer_insert: "tm \<notin> set ts \<Longrightarrow> distinct ts \<Longrightarrow> distinct (timer_insert ti d tm ts)"
  by (induction ts) auto

lemma sorted_insert_while:
  fixes f :: "'a \<Rightarrow> int"
  assumes "sorted (map f ts)" "f x = v"
  shows "sorted (map f (takeWhile (\<lambda>t. f t \<le> v) ts @ x # dropWhile (\<lambda>t. f t \<le> v) ts))"
  using assms(1)
proof (induction ts)
  case (Cons a ts)
  then show ?case
    using assms(2) set_takeWhileD [of _ "\<lambda>t. f t \<le> v" ts] set_dropWhileD [of _ "\<lambda>t. f t \<le> v" ts] by auto
qed simp

section \<open>The operations on the list\<close>

lemma timer_lists [simp]:
  "rt_timer_list (timer_remove tm k) = removeAll tm (rt_timer_list k)" "timers (timer_remove tm k) = timers k"
  "timers (upd_timer tm f k) = (timers k)(tm := f (timers k tm))" "rt_timer_list (upd_timer tm f k) = rt_timer_list k"
  by (simp_all add: timer_remove_def upd_timer_def)

text \<open>What the timers leave alone, in the shape of the frame of scheduling.\<close>

locale timer_frame =
  fixes g :: "kernel \<Rightarrow> 'a"
  assumes g_timers: "g (k\<lparr>timers := x\<rparr>) = g k"
    and g_list: "g (k\<lparr>rt_timer_list := l\<rparr>) = g k"
begin

lemma frame_upd_timer: "g (upd_timer tm f k) = g k"
  by (simp add: upd_timer_def g_timers)

lemma frame_timer_remove: "g (timer_remove tm k) = g k"
  by (simp add: timer_remove_def g_list)

lemma frame_timer_start: "g (rt_timer_start tm k) = g k"
  by (simp add: rt_timer_start_def Let_def frame_upd_timer frame_timer_remove g_list)

lemma frame_timer_stop: "g (snd (rt_timer_stop tm k)) = g k"
  by (simp add: rt_timer_stop_def Let_def frame_upd_timer frame_timer_remove)

lemma frame_timer_control: "g (snd (rt_timer_control tm c a k)) = g k"
  by (simp add: rt_timer_control_def frame_upd_timer)

lemma frame_timer_rearm: "g (timer_rearm tm k) = g k"
  by (simp add: timer_rearm_def Let_def frame_upd_timer frame_timer_start)

lemmas timer_frame_simps = frame_upd_timer frame_timer_remove frame_timer_start frame_timer_stop
  frame_timer_control frame_timer_rearm

end

interpretation threads_timer: timer_frame threads by unfold_locales simp_all
interpretation tlist_timer: timer_frame tlist by unfold_locales simp_all
interpretation current_timer: timer_frame rt_current_thread by unfold_locales simp_all
interpretation group_timer: timer_frame rt_thread_ready_priority_group by unfold_locales simp_all
interpretation lock_timer: timer_frame rt_scheduler_lock_nest by unfold_locales simp_all
interpretation mem_timer: timer_frame mem by unfold_locales simp_all
interpretation tick_timer: timer_frame rt_tick by unfold_locales simp_all
interpretation sems_timer: timer_frame sems by unfold_locales simp_all
interpretation mutexes_timer: timer_frame mutexes by unfold_locales simp_all
interpretation objects_timer: timer_frame objects by unfold_locales simp_all
interpretation object_list_timer: timer_frame object_list by unfold_locales simp_all
interpretation nest_timer: timer_frame rt_interrupt_nest by unfold_locales simp_all
interpretation sched_timer: timer_frame "sched_but T"
  by unfold_locales (simp_all add: sched_but_def queues_ok_def group_ok_def thread_ok_def live_def rt_scheduler_stack_check_def)
interpretation cur_timer: timer_frame cur_ok by unfold_locales (simp_all add: cur_ok_def)

lemmas timer_frames [simp] = threads_timer.timer_frame_simps tlist_timer.timer_frame_simps
  current_timer.timer_frame_simps group_timer.timer_frame_simps lock_timer.timer_frame_simps mem_timer.timer_frame_simps
  tick_timer.timer_frame_simps sems_timer.timer_frame_simps mutexes_timer.timer_frame_simps
  objects_timer.timer_frame_simps object_list_timer.timer_frame_simps nest_timer.timer_frame_simps
  sched_timer.timer_frame_simps cur_timer.timer_frame_simps

lemma due_in_cong: "timeout_tick (timers k' tm) = timeout_tick (timers k tm) \<Longrightarrow> rt_tick k' = rt_tick k \<Longrightarrow> due_in k' tm = due_in k tm"
  by (simp add: due_in_def)

lemma timer_window_cong:
  assumes "rt_timer_list k' = rt_timer_list k" "rt_tick k' = rt_tick k"
    "\<And>tm. tm \<in> set (rt_timer_list k) \<Longrightarrow> timeout_tick (timers k' tm) = timeout_tick (timers k tm)"
  shows "timer_window lo k' = timer_window lo k"
proof -
  have "map (due_in k') (rt_timer_list k) = map (due_in k) (rt_timer_list k)"
    "\<forall>tm \<in> set (rt_timer_list k). due_in k' tm = due_in k tm"
    using assms by (auto simp: due_in_def)
  then show ?thesis unfolding timer_window_def assms(1) by (metis (no_types, lifting))
qed

lemma due_in_remove [simp]: "due_in (timer_remove tm k) = due_in k"
  by (rule ext) (simp add: due_in_def)

lemma timer_window_remove:
  assumes "timer_window lo k"
  shows "timer_window lo (timer_remove tm k)"
  using assms sorted_filter [of "due_in k" "rt_timer_list k" "\<lambda>t. tm \<noteq> t"]
  by (simp add: timer_window_def removeAll_filter_not_eq)

lemma timer_start_list:
  assumes "timer_window lo k" "-1 \<le> lo" "tm_init_tick (timers k tm) < 0x7fffffff"
  shows "rt_timer_list (rt_timer_start tm k) =
      (let v = uint (tm_init_tick (timers k tm)); ts = removeAll tm (rt_timer_list k)
       in takeWhile (\<lambda>t. due_in k t \<le> v) ts @ tm # dropWhile (\<lambda>t. due_in k t \<le> v) ts)"
    and "due_in (rt_timer_start tm k) tm = uint (tm_init_tick (timers k tm))"
    and "timer_window (min lo 0) (rt_timer_start tm k)"
proof -
  let ?i = "tm_init_tick (timers k tm)" and ?ts = "removeAll tm (rt_timer_list k)" and ?k = "rt_timer_start tm k"
  let ?ti = "(timers k)(tm := (timers k tm)\<lparr>tm_flag := tm_flag (timers k tm) AND NOT RT_TIMER_FLAG_ACTIVATED, timeout_tick := rt_tick k + ?i\<rparr>)"
  have i: "uint ?i < 0x7fffffff" using assms(3) by (simp add: word_less_alt)
  then have v: "sint ?i = uint ?i" by (intro sint_small) simp
  have l: "rt_timer_list ?k = timer_insert ?ti (rt_tick k + ?i) tm ?ts"
    by (simp add: rt_timer_start_def Let_def)
  have tt: "timeout_tick (timers ?k t) = (if t = tm then rt_tick k + ?i else timeout_tick (timers k t))" for t
    by (simp add: rt_timer_start_def Let_def)
  then show d: "due_in ?k tm = uint ?i" by (simp add: due_in_def v)
  have o: "due_in ?k t = due_in k t" if "t \<noteq> tm" for t using that tt by (simp add: due_in_def)
  have w: "t \<in> set ?ts \<Longrightarrow> lo \<le> due_in k t \<and> due_in k t < 0x7fffffff" for t using assms(1) by (auto simp: timer_window_def)
  have "timer_insert ?ti (rt_tick k + ?i) tm ?ts =
     takeWhile (\<lambda>t. sint (timeout_tick (?ti t) - rt_tick k) \<le> sint (rt_tick k + ?i - rt_tick k)) ?ts @ tm #
     dropWhile (\<lambda>t. sint (timeout_tick (?ti t) - rt_tick k) \<le> sint (rt_tick k + ?i - rt_tick k)) ?ts"
    using w assms(2) i v by (intro timer_insert_window) (fastforce simp: due_in_def)+
  also have "\<dots> = takeWhile (\<lambda>t. due_in k t \<le> uint ?i) ?ts @ tm # dropWhile (\<lambda>t. due_in k t \<le> uint ?i) ?ts"
    using v by (intro arg_cong2 [where f = "(@)"] arg_cong [where f = "(#) tm"] takeWhile_cong dropWhile_cong) (auto simp: due_in_def)
  finally have e: "timer_insert ?ti (rt_tick k + ?i) tm ?ts =
    takeWhile (\<lambda>t. due_in k t \<le> uint ?i) ?ts @ tm # dropWhile (\<lambda>t. due_in k t \<le> uint ?i) ?ts" .
  then show "rt_timer_list ?k = (let v = uint ?i; ts = ?ts in takeWhile (\<lambda>t. due_in k t \<le> v) ts @ tm # dropWhile (\<lambda>t. due_in k t \<le> v) ts)"
    using l by (simp add: Let_def)
  have "timer_window lo (timer_remove tm k)" by (rule timer_window_remove [OF assms(1)])
  then have "sorted (map (due_in k) ?ts)" "distinct ?ts" by (simp_all add: timer_window_def)
  moreover have "map (due_in ?k) ?ts = map (due_in k) ?ts" using o by simp
  ultimately have "sorted (map (due_in ?k) ?ts)" by (simp only:)
  note sorted = sorted_insert_while [OF this d]
  have "takeWhile (\<lambda>t. due_in ?k t \<le> uint ?i) ?ts = takeWhile (\<lambda>t. due_in k t \<le> uint ?i) ?ts"
    "dropWhile (\<lambda>t. due_in ?k t \<le> uint ?i) ?ts = dropWhile (\<lambda>t. due_in k t \<le> uint ?i) ?ts"
    using o by (intro takeWhile_cong dropWhile_cong; auto)+
  with sorted have "sorted (map (due_in ?k) (rt_timer_list ?k))" unfolding l e by (simp only:)
  moreover have "distinct (rt_timer_list ?k)" using \<open>distinct ?ts\<close> by (simp add: l distinct_timer_insert)
  moreover have "min lo 0 \<le> due_in ?k t \<and> due_in ?k t < 0x7fffffff" if "t \<in> set (rt_timer_list ?k)" for t
    using that w [of t] o [of t] d i by (cases "t = tm") (auto simp: l min_le_iff_disj)
  ultimately show "timer_window (min lo 0) ?k" by (simp add: timer_window_def)
qed

end
