(* ===== verification/Thread_Ops.thy ===== *)
theory Thread_Ops
  imports Timer_List
begin

text \<open>
  The invariant of the kernel and what the operations of \<open>thread.c\<close> keep of it: the lists of threads and the
  bitmap agree with the states of the threads, the timer list is sorted in its window, and a thread timer runs only for a
  suspended thread, calls \<open>rt_thread_timeout\<close> for it and is marked as running.
\<close>

definition ttimer_ok :: "rt_timer \<Rightarrow> tid \<Rightarrow> bool" where
  "ttimer_ok ti t \<longleftrightarrow> timeout_func ti = Rt_thread_timeout \<and> tm_parameter ti = t \<and> tm_flag ti AND RT_TIMER_FLAG_PERIODIC = 0"

definition user_timer_ok :: "rt_timer \<Rightarrow> bool" where
  "user_timer_ok ti \<longleftrightarrow> timeout_func ti \<noteq> Rt_thread_timeout \<and>
     (tm_flag ti AND RT_TIMER_FLAG_PERIODIC \<noteq> 0 \<longrightarrow> 0 < tm_init_tick ti \<and> tm_init_tick ti < 0x7fffffff)"

definition timer_links :: "kernel \<Rightarrow> bool" where
  "timer_links k \<longleftrightarrow>
    (\<forall>t. Thread_timer t \<in> set (rt_timer_list k) \<longrightarrow>
       tstate k t = RT_THREAD_SUSPEND \<and> tm_flag (timers k (Thread_timer t)) AND RT_TIMER_FLAG_ACTIVATED \<noteq> 0) \<and>
    (\<forall>t. live k t \<longrightarrow> ttimer_ok (timers k (Thread_timer t)) t) \<and>
    (\<forall>n. Timer n \<in> set (rt_timer_list k) \<longrightarrow> user_timer_ok (timers k (Timer n)))"

definition kernel_ok :: "int \<Rightarrow> kernel \<Rightarrow> bool" where
  "kernel_ok lo k \<longleftrightarrow> sched_ok k \<and> cur_ok k \<and> timer_window lo k \<and> timer_links k"

text \<open>A thread that waits for its timer only: suspended until the tick \<open>d\<close>, in no list of threads.\<close>

definition asleep :: "u32 \<Rightarrow> tid \<Rightarrow> kernel \<Rightarrow> bool" where
  "asleep d t k \<longleftrightarrow> tstate k t = RT_THREAD_SUSPEND \<and> Thread_timer t \<in> set (rt_timer_list k) \<and>
     timeout_tick (timers k (Thread_timer t)) = d \<and> (\<forall>h. t \<notin> set (tlist k h))"

section \<open>What the operations on threads leave alone\<close>

locale thread_frame = sched_frame f + timer_frame f for f :: "kernel \<Rightarrow> 'a"
begin

lemma frame_suspend: "rt_thread_suspend t k = Some (e, k') \<Longrightarrow> f k' = f k"
  by (auto simp: rt_thread_suspend_def Let_def frame_timer_stop frame_upd_thread split: if_splits bind_splits dest!: frame_remove)

lemma frame_resume: "rt_thread_resume t k = Some (e, k') \<Longrightarrow> f k' = f k"
  by (auto simp: rt_thread_resume_def Let_def frame_timer_stop frame_tlist_remove split: if_splits bind_splits dest!: frame_insert)

lemma frame_block: "thread_block t n k = Some k' \<Longrightarrow> f k' = f k"
  by (auto simp: thread_block_def Let_def frame_timer_start frame_timer_control split: bind_splits dest!: frame_suspend frame_schedule)

lemma frame_startup: "rt_thread_startup t k = Some (e, k') \<Longrightarrow> f k' = f k"
  by (auto simp: rt_thread_startup_def Let_def frame_upd_thread split: bind_splits if_splits
      dest!: frame_set_priority frame_resume frame_schedule)

lemma frame_change_priority: "rt_thread_control t RT_THREAD_CTRL_CHANGE_PRIORITY p k = Some (e, k') \<Longrightarrow> f k' = f k"
  by (auto simp: rt_thread_control_def split: bind_splits if_splits dest!: frame_set_priority frame_insert frame_remove)

lemma frame_time_slice: "time_slice k = Some k' \<Longrightarrow> f k' = f k"
  by (auto simp: time_slice_def rt_thread_yield_def Let_def frame_upd_thread split: bind_splits if_splits dest!: frame_schedule)

end

interpretation tick_thread: thread_frame rt_tick by unfold_locales
interpretation sems_thread: thread_frame sems by unfold_locales
interpretation mutexes_thread: thread_frame mutexes by unfold_locales
interpretation objects_thread: thread_frame objects by unfold_locales
interpretation object_list_thread: thread_frame object_list by unfold_locales
interpretation mem_thread: thread_frame mem by unfold_locales
interpretation lock_thread: thread_frame rt_scheduler_lock_nest by unfold_locales
interpretation nest_thread: thread_frame rt_interrupt_nest by unfold_locales

section \<open>Parts of the invariant\<close>

lemma kernel_okD:
  assumes "kernel_ok lo k"
  shows "sched_ok k" "cur_ok k" "timer_window lo k" "timer_links k"
  using assms by (simp_all add: kernel_ok_def)

lemma timer_links_cong:
  assumes "timer_links k" "timers k' = timers k" "rt_timer_list k' = rt_timer_list k"
    "\<And>t. Thread_timer t \<in> set (rt_timer_list k) \<Longrightarrow> tstate k' t = RT_THREAD_SUSPEND"
    "\<And>t. live k' t \<Longrightarrow> live k t"
  shows "timer_links k'"
  using assms by (auto simp: timer_links_def)

lemma window_sched:
  assumes "timer_window lo k" "timers k' = timers k" "rt_timer_list k' = rt_timer_list k" "rt_tick k' = rt_tick k"
  shows "timer_window lo k'"
  using assms timer_window_cong [of k' k lo] by simp

lemma asleep_suspended: "asleep d t k \<Longrightarrow> tstate k t = RT_THREAD_SUSPEND"
  by (simp add: asleep_def)

section \<open>\<open>rt_schedule\<close>\<close>

lemma asleep_rescheduled:
  assumes "asleep d t k" "rescheduled k k'" "timers k' = timers k" "rt_timer_list k' = rt_timer_list k" "sched_ok k'"
  shows "asleep d t k'"
proof -
  have s: "tstate k' t = RT_THREAD_SUSPEND" using assms(1,2) by (simp add: asleep_def rescheduled_thread)
  have "t \<notin> set (tlist k' h)" for h
    using in_list_place [OF assms(5), of t h] s assms(1,2)
    by (cases h) (auto simp: place_ok_def asleep_def rescheduled_lists)
  with s assms show ?thesis by (simp add: asleep_def)
qed

lemma schedule_ok:
  assumes "kernel_ok lo k" "rt_current_thread k = Some cur"
  obtains k' c where "rt_schedule k = Some k'" "kernel_ok lo k'" "rescheduled k k'" "rt_current_thread k' = Some c"
    "rt_scheduler_lock_nest k = 0 \<longrightarrow> highest_runs k'" "\<forall>d u. asleep d u k \<longrightarrow> asleep d u k'"
proof -
  note ok = kernel_okD [OF assms(1)]
  obtain k' c where k': "rt_schedule k = Some k'" "sched_ok k'" "cur_ok k'" "rescheduled k k'"
    "rt_current_thread k' = Some c" "rt_scheduler_lock_nest k = 0 \<longrightarrow> highest_runs k'"
    by (rule schedule_spec [OF ok(1,2) assms(2)])
  note fr = timers_frame.frame_schedule [OF k'(1)] timer_list_frame.frame_schedule [OF k'(1)] tick_frame.frame_schedule [OF k'(1)]
  have "timer_links k'"
    using ok(4) by (rule timer_links_cong) (use fr rescheduled_thread [OF k'(4)] ok(4) in \<open>auto simp: timer_links_def\<close>)
  then have "kernel_ok lo k'" using k'(2,3) window_sched [OF ok(3) fr] by (simp add: kernel_ok_def)
  with k' show ?thesis using asleep_rescheduled [OF _ k'(4) fr(1,2) k'(2)] by (intro that [of k' c]) auto
qed

section \<open>Suspending and resuming\<close>

lemma timer_stop_list:
  "rt_timer_list (snd (rt_timer_stop tm k)) =
    (if tm_flag (timers k tm) AND RT_TIMER_FLAG_ACTIVATED = 0 then rt_timer_list k else removeAll tm (rt_timer_list k))"
  "timers (snd (rt_timer_stop tm k)) =
    (if tm_flag (timers k tm) AND RT_TIMER_FLAG_ACTIVATED = 0 then timers k
     else (timers k)(tm := (timers k tm)\<lparr>tm_flag := tm_flag (timers k tm) AND NOT RT_TIMER_FLAG_ACTIVATED\<rparr>))"
  by (simp_all add: rt_timer_stop_def)

lemma flag_and_periodic: "(f AND - 2) AND 2 = f AND (2 :: u8)" "(f OR 1) AND 2 = f AND (2 :: u8)" "(f OR 1) AND 1 \<noteq> (0 :: u8)"
  by (simp_all add: word_ao_dist and.assoc)

lemma timer_stop_ok:
  assumes "timer_window lo k" "timer_links k"
  shows "timer_window lo (snd (rt_timer_stop (Thread_timer t) k))" "timer_links (snd (rt_timer_stop (Thread_timer t) k))"
    "Thread_timer t \<notin> set (rt_timer_list (snd (rt_timer_stop (Thread_timer t) k)))"
proof -
  let ?tm = "Thread_timer t" and ?k = "snd (rt_timer_stop (Thread_timer t) k)"
  have l: "rt_timer_list ?k = removeAll ?tm (rt_timer_list k)"
    using assms(2) by (auto simp: timer_stop_list timer_links_def intro!: removeAll_id [symmetric])
  then show "?tm \<notin> set (rt_timer_list ?k)" by simp
  have tt: "timeout_tick (timers ?k x) = timeout_tick (timers k x)" for x by (simp add: timer_stop_list)
  show "timer_window lo ?k"
    using timer_window_remove [OF assms(1), of ?tm] by (subst timer_window_cong [of _ "timer_remove ?tm k"]) (simp_all add: l tt)
  show "timer_links ?k" using assms(2)
    by (auto simp: timer_links_def l timer_stop_list ttimer_ok_def flag_and_periodic live_def)
qed

lemma asleep_timer_stop: "asleep d u k \<Longrightarrow> u \<noteq> t \<Longrightarrow> asleep d u (snd (rt_timer_stop (Thread_timer t) k))"
  by (auto simp: asleep_def timer_stop_list)

lemma suspend_ok:
  assumes "kernel_ok lo k" "runnable k t"
  obtains k' where "rt_thread_suspend t k = Some (RT_EOK, k')" "kernel_ok lo k'" "tstate k' t = RT_THREAD_SUSPEND"
    "threads k' = (threads k)(t := (threads k t)\<lparr>stat := stat (threads k' t)\<rparr>)"
    "tlist k' = (\<lambda>h. removeAll t (tlist k h))" "rt_current_thread k' = rt_current_thread k"
    "Thread_timer t \<notin> set (rt_timer_list k')" "\<forall>d u. asleep d u k \<longrightarrow> asleep d u k'"
proof -
  note ok = kernel_okD [OF assms(1)]
  have lv: "live k t" using assms(2) by (auto simp: live_def runnable_def)
  note p = live_ok [OF ok(1) _ lv, simplified]
  obtain k1 where k1: "rt_schedule_remove_thread t k = Some k1" "sched_but (insert t {}) k1" "threads k1 = threads k"
      "tlist k1 = (\<lambda>h. removeAll t (tlist k h))" "rt_current_thread k1 = rt_current_thread k"
      "rt_scheduler_lock_nest k1 = rt_scheduler_lock_nest k"
    by (rule remove_thread_spec [OF ok(1) p(1)])
  let ?k2 = "upd_thread t (\<lambda>th. th\<lparr>stat := RT_THREAD_SUSPEND OR (stat th AND NOT RT_THREAD_STAT_MASK)\<rparr>) k1"
  let ?k = "snd (rt_timer_stop (Thread_timer t) ?k2)"
  note fr = timers_frame.frame_remove [OF k1(1)] timer_list_frame.frame_remove [OF k1(1)]
    tick_frame.frame_remove [OF k1(1)] mem_frame.frame_remove [OF k1(1)]
  have "thread_ok ?k2 t" using p k1(3) fr(4) by (intro thread_ok_passive) (simp_all add: prio_ok_def rt_scheduler_stack_check_def Let_def)
  then have s2: "sched_ok ?k2" using aside_update [OF k1(2), of t] aside_drop [of "{t}" ?k2 t] by simp
  have nr: "Thread_timer t \<notin> set (rt_timer_list k)" using ok(4) assms(2) by (auto simp: timer_links_def runnable_def)
  have w2: "timer_window lo ?k2" by (rule window_sched [OF ok(3)]) (simp_all add: fr)
  have l2: "timer_links ?k2"
    using ok(4) by (rule timer_links_cong) (use fr k1(3) ok(4) nr lv in \<open>auto simp: timer_links_def live_def split: if_splits\<close>)
  have "cur_ok ?k2" using ok(2) k1(3,5) by (auto simp: cur_ok_def)
  then have "kernel_ok lo ?k" using s2 timer_stop_ok [OF w2 l2] by (simp add: kernel_ok_def)
  moreover have "rt_thread_suspend t k = Some (RT_EOK, ?k)"
    using assms(2) k1(1) by (auto simp: rt_thread_suspend_def runnable_def)
  moreover have "asleep d u ?k" if "asleep d u k" for d u
  proof -
    have "u \<noteq> t" using that assms(2) by (auto simp: asleep_def runnable_def)
    moreover have "asleep d u ?k2" using that k1(3,4) fr \<open>u \<noteq> t\<close> by (simp add: asleep_def)
    ultimately show ?thesis by (rule asleep_timer_stop [rotated])
  qed
  moreover note timer_stop_ok(3) [OF w2 l2]
  ultimately show ?thesis using k1 by (intro that [of ?k]) (simp_all add: fun_eq_iff)
qed

text \<open>A thread that is set aside comes back to the ready list, or stays the current one.\<close>

lemma insert_ok:
  assumes "sched_but {t} k" "\<And>c. rt_current_thread k = Some c \<Longrightarrow> c \<noteq> t \<Longrightarrow> tstate k c \<noteq> RT_THREAD_READY"
    "timer_window lo k" "timer_links k" "Thread_timer t \<notin> set (rt_timer_list k)" "live k t"
    "prio_ok (threads k t)" "rt_scheduler_stack_check t k"
  obtains k' where "rt_schedule_insert_thread t k = Some k'" "kernel_ok lo k'" "runnable k' t"
    "threads k' = (threads k)(t := (threads k t)\<lparr>stat := stat (threads k' t)\<rparr>)"
    "\<forall>p. tlist k' (Suspend p) = tlist k (Suspend p)" "rt_current_thread k' = rt_current_thread k"
    "\<forall>d u. asleep d u k \<longrightarrow> u \<noteq> t \<longrightarrow> asleep d u k'"
proof -
  obtain k' where k': "rt_schedule_insert_thread t k = Some k'" "sched_but ({t} - {t}) k'"
    "threads k' = (threads k)(t := (threads k t)\<lparr>stat :=
       (if rt_current_thread k = Some t then RT_THREAD_RUNNING else RT_THREAD_READY) OR (stat (threads k t) AND NOT 7)\<rparr>)"
    "tlist k' = (if rt_current_thread k = Some t then tlist k
       else (tlist k)(Ready (tprio k t) := tlist k (Ready (tprio k t)) @ [t]))"
    "rt_current_thread k' = rt_current_thread k" "rt_scheduler_lock_nest k' = rt_scheduler_lock_nest k"
    using insert_thread_spec [OF assms(1) _ assms(7,8)] by blast
  note fr = timers_frame.frame_insert [OF k'(1)] timer_list_frame.frame_insert [OF k'(1)] tick_frame.frame_insert [OF k'(1)]
  have r: "runnable k' t" using k'(3) by (simp add: runnable_def)
  have "cur_ok k'" using assms(2) k'(3,5) by (simp add: cur_ok_def)
  moreover have "timer_links k'"
    using assms(4) by (rule timer_links_cong) (use k'(3) assms(4,5,6) fr in \<open>auto simp: timer_links_def live_def split: if_splits\<close>)
  moreover have "timer_window lo k'" by (rule window_sched [OF assms(3) fr])
  ultimately have "kernel_ok lo k'" using k'(2) by (simp add: kernel_ok_def)
  moreover have "asleep d u k'" if "asleep d u k" "u \<noteq> t" for d u
    using that k'(3,4) fr by (auto simp: asleep_def)
  ultimately show ?thesis using k' r by (intro that [of k']) auto
qed

lemma resume_ok:
  assumes "kernel_ok lo k" "tstate k t = RT_THREAD_SUSPEND"
  obtains k' where "rt_thread_resume t k = Some (RT_EOK, k')" "kernel_ok lo k'" "runnable k' t"
    "threads k' = (threads k)(t := (threads k t)\<lparr>stat := stat (threads k' t)\<rparr>)"
    "\<forall>p. tlist k' (Suspend p) = removeAll t (tlist k (Suspend p))" "rt_current_thread k' = rt_current_thread k"
    "\<forall>d u. asleep d u k \<longrightarrow> u \<noteq> t \<longrightarrow> asleep d u k'"
proof -
  note ok = kernel_okD [OF assms(1)]
  let ?k1 = "tlist_remove t k" let ?k2 = "snd (rt_timer_stop (Thread_timer t) ?k1)"
  have lv: "live k t" using assms(2) by (simp add: live_def)
  note p = live_ok [OF ok(1) _ lv, simplified]
  have "sched_but {t} ?k2" using tlist_remove_aside [OF ok(1), of t] assms(2) by simp
  moreover have "tstate ?k2 c \<noteq> RT_THREAD_READY" if "rt_current_thread ?k2 = Some c" for c
    using that ok(2) by (simp add: cur_ok_def)
  moreover have "timer_window lo ?k1" by (rule window_sched [OF ok(3)]) simp_all
  moreover have "timer_links ?k1" using ok(4) by (rule timer_links_cong) (use ok(4) in \<open>auto simp: timer_links_def live_def\<close>)
  moreover have "live ?k2 t" "prio_ok (threads ?k2 t)" using lv p by (simp_all add: live_def)
  moreover have "rt_scheduler_stack_check t ?k2" using p by (simp add: rt_scheduler_stack_check_def)
  ultimately obtain k' where k': "rt_schedule_insert_thread t ?k2 = Some k'" "kernel_ok lo k'" "runnable k' t"
    "threads k' = (threads ?k2)(t := (threads ?k2 t)\<lparr>stat := stat (threads k' t)\<rparr>)"
    "\<forall>p. tlist k' (Suspend p) = tlist ?k2 (Suspend p)" "rt_current_thread k' = rt_current_thread ?k2"
    "\<forall>d u. asleep d u ?k2 \<longrightarrow> u \<noteq> t \<longrightarrow> asleep d u k'"
    using insert_ok [of t ?k2 lo] timer_stop_ok [of lo ?k1 t] by blast
  have "asleep d u ?k2" if "asleep d u k" "u \<noteq> t" for d u
    using that by (intro asleep_timer_stop) (auto simp: asleep_def)
  moreover have "rt_thread_resume t k = Some (RT_EOK, k')" using assms(2) k'(1) by (simp add: rt_thread_resume_def Let_def)
  ultimately show ?thesis using k' by (intro that [of k']) auto
qed

section \<open>Starting a timer\<close>

lemma timer_start_timers:
  "timers (rt_timer_start tm k) = (timers k)(tm := (timers k tm)\<lparr>tm_flag := (tm_flag (timers k tm) AND NOT 1) OR 1,
     timeout_tick := rt_tick k + tm_init_tick (timers k tm)\<rparr>)"
  "set (rt_timer_list (rt_timer_start tm k)) = insert tm (set (rt_timer_list k))"
  by (auto simp: rt_timer_start_def Let_def)

lemma timer_start_ok:
  assumes "kernel_ok lo k" "-1 \<le> lo" "lo \<le> 0" "tm_init_tick (timers k tm) < 0x7fffffff"
    "case tm of Thread_timer t \<Rightarrow> tstate k t = RT_THREAD_SUSPEND | Timer n \<Rightarrow> user_timer_ok (timers k tm)"
  shows "kernel_ok lo (rt_timer_start tm k)"
proof -
  note ok = kernel_okD [OF assms(1)]
  have "timer_window lo (rt_timer_start tm k)"
    using timer_start_list(3) [OF ok(3) assms(2,4)] assms(3) by (simp add: min_def)
  moreover have "timer_links (rt_timer_start tm k)"
    using ok(4) assms(5) unfolding timer_links_def timer_start_timers
    by (auto simp: ttimer_ok_def user_timer_ok_def flag_and_periodic live_def split: timer_ref.splits)
  ultimately show ?thesis using ok(1,2) by (simp add: kernel_ok_def)
qed

lemma asleep_timer_start: "asleep d u k \<Longrightarrow> tm \<noteq> Thread_timer u \<Longrightarrow> asleep d u (rt_timer_start tm k)"
  by (auto simp: asleep_def timer_start_timers)

lemma set_time_simps [simp]:
  "timers (snd (rt_timer_control tm RT_TIMER_CTRL_SET_TIME a k)) = (timers k)(tm := (timers k tm)\<lparr>tm_init_tick := a\<rparr>)"
  "rt_timer_list (snd (rt_timer_control tm RT_TIMER_CTRL_SET_TIME a k)) = rt_timer_list k"
  by (simp_all add: rt_timer_control_def)

lemma set_time_ok:
  assumes "kernel_ok lo k"
  shows "kernel_ok lo (snd (rt_timer_control (Thread_timer t) RT_TIMER_CTRL_SET_TIME a k))" (is "kernel_ok lo ?k")
proof -
  note ok = kernel_okD [OF assms]
  have "timer_links ?k" using ok(4) by (auto simp: timer_links_def ttimer_ok_def live_def)
  moreover have "timer_window lo ?k = timer_window lo k" by (rule timer_window_cong) simp_all
  ultimately show ?thesis using ok by (simp add: kernel_ok_def)
qed

text \<open>
  Waiting with a time limit: the timer of a suspended thread starts, and the processor goes to another thread.
\<close>

lemma timed_wait:
  assumes "kernel_ok lo k" "-1 \<le> lo" "lo \<le> 0" "tstate k t = RT_THREAD_SUSPEND" "a < 0x7fffffff"
  defines "k1 \<equiv> rt_timer_start (Thread_timer t) (snd (rt_timer_control (Thread_timer t) RT_TIMER_CTRL_SET_TIME a k))"
  shows "kernel_ok lo k1" "threads k1 = threads k" "tlist k1 = tlist k" "rt_current_thread k1 = rt_current_thread k"
    "Thread_timer t \<in> set (rt_timer_list k1)" "timeout_tick (timers k1 (Thread_timer t)) = rt_tick k + a"
    "asleep d u k \<Longrightarrow> u \<noteq> t \<Longrightarrow> asleep d u k1"
proof -
  let ?k = "snd (rt_timer_control (Thread_timer t) RT_TIMER_CTRL_SET_TIME a k)"
  show "kernel_ok lo k1" unfolding k1_def
    by (rule timer_start_ok [OF set_time_ok [OF assms(1)] assms(2,3)]) (use assms(4,5) in simp_all)
  show "threads k1 = threads k" "tlist k1 = tlist k" "rt_current_thread k1 = rt_current_thread k" by (simp_all add: k1_def)
  show "Thread_timer t \<in> set (rt_timer_list k1)" "timeout_tick (timers k1 (Thread_timer t)) = rt_tick k + a"
    by (simp_all add: k1_def timer_start_timers)
  show "asleep d u k1" if "asleep d u k" "u \<noteq> t"
    unfolding k1_def by (rule asleep_timer_start) (use that in \<open>auto simp: asleep_def\<close>)
qed

lemma block_ok:
  assumes "kernel_ok lo k" "-1 \<le> lo" "lo \<le> 0" "runnable k t" "rt_current_thread k = Some c" "a < 0x7fffffff"
  obtains k' where "thread_block t a k = Some k'" "kernel_ok lo k'" "asleep (rt_tick k + a) t k'"
    "\<forall>d u. asleep d u k \<longrightarrow> asleep d u k'" "rt_current_thread k' \<noteq> None"
    "rt_scheduler_lock_nest k = 0 \<longrightarrow> highest_runs k'"
proof -
  obtain k1 where k1: "rt_thread_suspend t k = Some (RT_EOK, k1)" "kernel_ok lo k1" "tstate k1 t = RT_THREAD_SUSPEND"
    "threads k1 = (threads k)(t := (threads k t)\<lparr>stat := stat (threads k1 t)\<rparr>)"
    "tlist k1 = (\<lambda>h. removeAll t (tlist k h))" "rt_current_thread k1 = rt_current_thread k"
    "Thread_timer t \<notin> set (rt_timer_list k1)" "\<forall>d u. asleep d u k \<longrightarrow> asleep d u k1"
    by (rule suspend_ok [OF assms(1,4)])
  let ?k2 = "rt_timer_start (Thread_timer t) (snd (rt_timer_control (Thread_timer t) RT_TIMER_CTRL_SET_TIME a k1))"
  note w = timed_wait [OF k1(2) assms(2,3) k1(3) assms(6)]
  have "rt_current_thread ?k2 = Some c" using w(4) k1(6) assms(5) by simp
  then obtain k' c' where k': "rt_schedule ?k2 = Some k'" "kernel_ok lo k'" "rescheduled ?k2 k'" "rt_current_thread k' = Some c'"
    "rt_scheduler_lock_nest ?k2 = 0 \<longrightarrow> highest_runs k'" "\<forall>d u. asleep d u ?k2 \<longrightarrow> asleep d u k'"
    by (rule schedule_ok [OF w(1)])
  have "rt_tick k1 = rt_tick k" by (rule tick_thread.frame_suspend [OF k1(1)])
  moreover have "rt_scheduler_lock_nest ?k2 = rt_scheduler_lock_nest k"
    using lock_thread.frame_suspend [OF k1(1)] by simp
  moreover have "asleep (rt_tick k1 + a) t ?k2" using w k1(3,5) by (simp add: asleep_def)
  moreover have "asleep d u k'" if "asleep d u k" for d u
  proof -
    have "u \<noteq> t" using that assms(4) by (auto simp: asleep_def runnable_def)
    then show ?thesis using k'(6) w(7) k1(8) that by blast
  qed
  moreover have "thread_block t a k = Some k'" using k1(1) k'(1) by (simp add: thread_block_def Let_def)
  ultimately show ?thesis using k' by (intro that [of k']) auto
qed

end
