(* ===== verification/Thread_Life.thy ===== *)
theory Thread_Life
  imports Thread_Ops
begin

text \<open>
  The life of a thread: start, change of priority, time-out, exit and removal.
\<close>

section \<open>Priorities\<close>

lemma passive_update:
  assumes "sched_ok k" "tstate k t \<noteq> RT_THREAD_READY" "stat (f (threads k t)) AND 7 = stat (threads k t) AND 7"
    "live k t \<Longrightarrow> prio_ok (f (threads k t)) \<and> rt_scheduler_stack_check t (upd_thread t f k)"
  shows "sched_ok (upd_thread t f k)"
proof -
  let ?k = "upd_thread t f k"
  have "thread_ok ?k t" using assms by (auto simp: sched_but_def thread_ok_def live_def)
  moreover have "thread_ok ?k u = thread_ok k u" if "u \<noteq> t" for u using that by (intro thread_ok_cong) auto
  ultimately have "\<forall>u. thread_ok ?k u" using assms(1) by (metis empty_iff sched_but_def)
  moreover have "place_ok h (threads ?k u)" if "u \<in> set (tlist k h)" for h u
    using in_list_place [OF assms(1) that] assms(2,3) by (cases h) (auto simp: place_ok_def)
  ultimately show ?thesis using assms(1) by (simp add: sched_but_def queues_ok_def group_ok_def)
qed

lemma links_same_state:
  assumes "timer_links k" "timers k' = timers k" "rt_timer_list k' = rt_timer_list k" "\<And>t. tstate k' t = tstate k t"
  shows "timer_links k'"
  using assms(1-3) by (rule timer_links_cong) (use assms(1,4) in \<open>auto simp: timer_links_def live_def\<close>)

lemma cur_ok_same_state:
  "cur_ok k \<Longrightarrow> rt_current_thread k' = rt_current_thread k \<Longrightarrow> (\<And>t. tstate k' t = tstate k t) \<Longrightarrow> cur_ok k'"
  by (simp add: cur_ok_def)

definition with_priority :: "u8 \<Rightarrow> rt_thread \<Rightarrow> rt_thread" where
  "with_priority p th = th\<lparr>current_priority := p, number_mask := push_bit (unat p) 1\<rparr>"

lemma with_priority_simps [simp]: "stat (with_priority p th) = stat th" "current_priority (with_priority p th) = p"
  "error (with_priority p th) = error th"
  "sp (with_priority p th) = sp th" "stack_addr (with_priority p th) = stack_addr th" "stack_size (with_priority p th) = stack_size th"
  "unat p < 32 \<Longrightarrow> prio_ok (with_priority p th)"
  by (simp_all add: with_priority_def prio_ok_def)

lemma set_priority_eq: "unat p < 32 \<Longrightarrow> set_priority t p k = Some (upd_thread t (with_priority p) k)"
  by (simp add: set_priority_def with_priority_def [abs_def])

lemma stack_check_same:
  assumes "sp (threads k' t) = sp (threads k t)" "stack_addr (threads k' t) = stack_addr (threads k t)"
    "stack_size (threads k' t) = stack_size (threads k t)" "mem k' = mem k"
  shows "rt_scheduler_stack_check t k' = rt_scheduler_stack_check t k"
  using assms by (simp add: rt_scheduler_stack_check_def Let_def)

lemma change_priority_ready:
  assumes "kernel_ok lo k" "unat p < 32" "tstate k t = RT_THREAD_READY"
  obtains k' where "rt_thread_control t RT_THREAD_CTRL_CHANGE_PRIORITY p k = Some (RT_EOK, k')" "kernel_ok lo k'"
    "threads k' = (threads k)(t := (with_priority p (threads k t))\<lparr>stat := stat (threads k' t)\<rparr>)" "runnable k' t"
    "\<forall>q. tlist k' (Suspend q) = tlist k (Suspend q)" "rt_current_thread k' = rt_current_thread k"
    "\<forall>d u. asleep d u k \<longrightarrow> asleep d u k'"
proof -
  note ok = kernel_okD [OF assms(1)]
  have lv: "live k t" using assms(3) by (simp add: live_def)
  note l = live_ok [OF ok(1) _ lv, simplified]
  obtain k1 where k1: "rt_schedule_remove_thread t k = Some k1" "sched_but (insert t {}) k1" "threads k1 = threads k"
    "tlist k1 = (\<lambda>h. removeAll t (tlist k h))" "rt_current_thread k1 = rt_current_thread k"
    "rt_scheduler_lock_nest k1 = rt_scheduler_lock_nest k"
    by (rule remove_thread_spec [OF ok(1) l(1)])
  note fr = timers_frame.frame_remove [OF k1(1)] timer_list_frame.frame_remove [OF k1(1)]
    tick_frame.frame_remove [OF k1(1)] mem_frame.frame_remove [OF k1(1)]
  let ?k2 = "upd_thread t (with_priority p) k1"
  have st: "tstate ?k2 u = tstate k u" for u using k1(3) by simp
  have "sched_but {t} ?k2" using k1(2) by (simp add: aside_update)
  moreover have "tstate ?k2 c \<noteq> RT_THREAD_READY" if "rt_current_thread ?k2 = Some c" for c
    using ok(2) that k1(5) unfolding st by (simp add: cur_ok_def)
  moreover have "timer_window lo ?k2" by (rule window_sched [OF ok(3)]) (simp_all add: fr)
  moreover have "timer_links ?k2" by (rule links_same_state [OF ok(4) _ _ st]) (simp_all add: fr)
  moreover have "Thread_timer t \<notin> set (rt_timer_list ?k2)" using ok(4) assms(3) by (auto simp: timer_links_def fr)
  moreover have "live ?k2 t" using lv unfolding live_def st .
  moreover have "prio_ok (threads ?k2 t)" using assms(2) by simp
  moreover have "rt_scheduler_stack_check t ?k2"
    using l(2) stack_check_same [of ?k2 t k] k1(3) fr(4) by simp
  ultimately obtain k' where k': "rt_schedule_insert_thread t ?k2 = Some k'" "kernel_ok lo k'" "runnable k' t"
    "threads k' = (threads ?k2)(t := (threads ?k2 t)\<lparr>stat := stat (threads k' t)\<rparr>)"
    "\<forall>q. tlist k' (Suspend q) = tlist ?k2 (Suspend q)" "rt_current_thread k' = rt_current_thread ?k2"
    "\<forall>d u. asleep d u ?k2 \<longrightarrow> u \<noteq> t \<longrightarrow> asleep d u k'"
    using insert_ok [of t ?k2 lo] by blast
  have "removeAll t (tlist k (Suspend q)) = tlist k (Suspend q)" for q
    using in_list_place [OF ok(1), of t "Suspend q"] assms(3) by (intro removeAll_id) (auto simp: place_ok_def)
  moreover have "asleep d u k'" if "asleep d u k" for d u
  proof -
    have "u \<noteq> t" using that assms(3) by (auto simp: asleep_def)
    moreover from this have "asleep d u ?k2" using that k1(3,4) fr by (simp add: asleep_def)
    ultimately show ?thesis using k'(7) by blast
  qed
  moreover have "rt_thread_control t RT_THREAD_CTRL_CHANGE_PRIORITY p k = Some (RT_EOK, k')"
    using assms(2,3) k1(1) k'(1) by (simp add: rt_thread_control_def set_priority_eq)
  ultimately show ?thesis using k' k1 by (intro that [of k']) auto
qed

lemma change_priority_ok:
  assumes "kernel_ok lo k" "unat p < 32"
  obtains k' where "rt_thread_control t RT_THREAD_CTRL_CHANGE_PRIORITY p k = Some (RT_EOK, k')" "kernel_ok lo k'"
    "threads k' = (threads k)(t := (with_priority p (threads k t))\<lparr>stat := stat (threads k' t)\<rparr>)"
    "\<forall>u. runnable k' u = runnable k u \<and> (\<not> runnable k u \<longrightarrow> stat (threads k' u) = stat (threads k u))"
    "\<forall>q. tlist k' (Suspend q) = tlist k (Suspend q)" "rt_current_thread k' = rt_current_thread k"
    "\<forall>d u. asleep d u k \<longrightarrow> asleep d u k'" "\<forall>c. rt_current_thread k = Some c \<longrightarrow> stat (threads k' c) = stat (threads k c)"
proof (cases "tstate k t = RT_THREAD_READY")
  case True
  obtain k' where k': "rt_thread_control t RT_THREAD_CTRL_CHANGE_PRIORITY p k = Some (RT_EOK, k')" "kernel_ok lo k'"
    "threads k' = (threads k)(t := (with_priority p (threads k t))\<lparr>stat := stat (threads k' t)\<rparr>)" "runnable k' t"
    "\<forall>q. tlist k' (Suspend q) = tlist k (Suspend q)" "rt_current_thread k' = rt_current_thread k"
    "\<forall>d u. asleep d u k \<longrightarrow> asleep d u k'"
    by (rule change_priority_ready [OF assms True])
  have o: "u \<noteq> t \<Longrightarrow> threads k' u = threads k u" for u using k'(3) by (metis fun_upd_other)
  have c: "c \<noteq> t" if "rt_current_thread k = Some c" for c
    using that True kernel_okD(2) [OF assms(1)] by (auto simp: cur_ok_def)
  have "runnable k' u = runnable k u \<and> (\<not> runnable k u \<longrightarrow> stat (threads k' u) = stat (threads k u))" for u
    using k'(4) o [of u] True by (cases "u = t") (auto simp: runnable_def)
  with k' c o show ?thesis by (intro that [of k']) auto
next
  case False
  note ok = kernel_okD [OF assms(1)]
  let ?k = "upd_thread t (with_priority p) k"
  have st: "tstate ?k u = tstate k u" for u by simp
  have "sched_ok ?k"
    by (rule passive_update [OF ok(1) False])
      (use assms(2) live_ok [OF ok(1), of t] stack_check_same [of ?k t k] in simp_all)
  moreover have "cur_ok ?k" by (rule cur_ok_same_state [OF ok(2) _ st]) simp
  moreover have "timer_window lo ?k" by (rule window_sched [OF ok(3)]) simp_all
  moreover have "timer_links ?k" by (rule links_same_state [OF ok(4) _ _ st]) simp_all
  ultimately have "kernel_ok lo ?k" by (simp add: kernel_ok_def)
  moreover have "rt_thread_control t RT_THREAD_CTRL_CHANGE_PRIORITY p k = Some (RT_EOK, ?k)"
    using False assms(2) by (simp add: rt_thread_control_def set_priority_eq)
  ultimately show ?thesis by (intro that [of ?k]) (auto simp: runnable_def asleep_def with_priority_def)
qed

section \<open>Start\<close>

text \<open>A thread that \<open>rt_thread_init\<close> has prepared and nobody has started.\<close>

definition startable :: "kernel \<Rightarrow> tid \<Rightarrow> bool" where
  "startable k t \<longleftrightarrow> tstate k t = RT_THREAD_INIT \<and> unat (init_priority (threads k t)) < 32 \<and>
     rt_scheduler_stack_check t k \<and> ttimer_ok (timers k (Thread_timer t)) t"

lemma make_suspended:
  assumes "kernel_ok lo k" "tstate k t = RT_THREAD_INIT" "rt_current_thread k \<noteq> Some t" "prio_ok th" "stat th = RT_THREAD_SUSPEND"
    "ttimer_ok (timers k (Thread_timer t)) t" "rt_scheduler_stack_check t (upd_thread t (\<lambda>_. th) k)"
  shows "kernel_ok lo (upd_thread t (\<lambda>_. th) k)" (is "kernel_ok lo ?k")
proof -
  note ok = kernel_okD [OF assms(1)]
  have "sched_but {t} k" using in_list_state(2) [OF ok(1)] assms(2) by (intro aside_weaken [OF ok(1)]) auto
  then have "sched_but {t} ?k" by (rule aside_update) simp
  moreover have "thread_ok ?k t" using assms(4,5,7) by (intro thread_ok_passive) simp_all
  ultimately have "sched_ok ?k" using aside_drop [of "{t}" ?k t] by simp
  moreover have "cur_ok ?k" using ok(2) assms(3) by (auto simp: cur_ok_def)
  moreover have "timer_window lo ?k" by (rule window_sched [OF ok(3)]) simp_all
  moreover have "timer_links ?k" using ok(4) assms(5,6) by (auto simp: timer_links_def live_def)
  ultimately show ?thesis by (simp add: kernel_ok_def)
qed

lemma startup_ok:
  assumes "kernel_ok lo k" "startable k t" "rt_current_thread k \<noteq> Some t"
  obtains k' where "rt_thread_startup t k = Some (RT_EOK, k')" "kernel_ok lo k'" "runnable k' t"
    "\<forall>d u. asleep d u k \<longrightarrow> asleep d u k'" "rt_current_thread k = None \<longleftrightarrow> rt_current_thread k' = None"
    "rt_current_thread k \<noteq> None \<and> rt_scheduler_lock_nest k = 0 \<longrightarrow> highest_runs k'"
proof -
  let ?p = "init_priority (threads k t)"
  let ?th = "(with_priority ?p (threads k t))\<lparr>stat := RT_THREAD_SUSPEND\<rparr>"
  let ?k1 = "upd_thread t (\<lambda>_. ?th) k"
  have s: "tstate k t = RT_THREAD_INIT" "unat ?p < 32" "rt_scheduler_stack_check t k" "ttimer_ok (timers k (Thread_timer t)) t"
    using assms(2) by (simp_all add: startable_def)
  have "prio_ok ?th" using s(2) by (simp add: prio_ok_def with_priority_def)
  moreover have "rt_scheduler_stack_check t ?k1" using s(3) by (subst stack_check_same [of _ _ k]) simp_all
  ultimately have k1: "kernel_ok lo ?k1" using s(4) by (intro make_suspended [OF assms(1) s(1) assms(3)]) simp_all
  have "tstate ?k1 t = RT_THREAD_SUSPEND" by simp
  then obtain k2 where k2: "rt_thread_resume t ?k1 = Some (RT_EOK, k2)" "kernel_ok lo k2" "runnable k2 t"
    "threads k2 = (threads ?k1)(t := (threads ?k1 t)\<lparr>stat := stat (threads k2 t)\<rparr>)"
    "\<forall>p. tlist k2 (Suspend p) = removeAll t (tlist ?k1 (Suspend p))" "rt_current_thread k2 = rt_current_thread ?k1"
    "\<forall>d u. asleep d u ?k1 \<longrightarrow> u \<noteq> t \<longrightarrow> asleep d u k2"
    by (rule resume_ok [OF k1])
  have a: "asleep d u k2" if "asleep d u k" for d u
    using that k2(7) s(1) by (cases "u = t") (auto simp: asleep_def)
  have e: "rt_thread_startup t k = do {
      k \<leftarrow> (if rt_current_thread k2 \<noteq> None then rt_schedule k2 else Some k2); Some (RT_EOK, k) }"
    using s(2) k2(1) by (simp add: rt_thread_startup_def set_priority_eq upd_thread_def Let_def)
  show ?thesis
  proof (cases "rt_current_thread k2")
    case None
    then show ?thesis using e k2 a by (intro that [of k2]) auto
  next
    case (Some c)
    then obtain k' c' where k': "rt_schedule k2 = Some k'" "kernel_ok lo k'" "rescheduled k2 k'" "rt_current_thread k' = Some c'"
      "rt_scheduler_lock_nest k2 = 0 \<longrightarrow> highest_runs k'" "\<forall>d u. asleep d u k2 \<longrightarrow> asleep d u k'"
      by (rule schedule_ok [OF k2(2)])
    have "rt_scheduler_lock_nest k2 = rt_scheduler_lock_nest k" using lock_thread.frame_resume [OF k2(1)] by simp
    with Some show ?thesis using e k2 k' a rescheduled_thread(8) [OF k'(3)] by (intro that [of k']) auto
  qed
qed

section \<open>Time-out\<close>

lemma error_stat_record: "th' = th\<lparr>error := e, stat := stat th'\<rparr> \<Longrightarrow> th' = th\<lparr>stat := stat th', error := error th'\<rparr>"
  by (cases th; cases th') simp

lemma error_stat_chain:
  "th'' = th'\<lparr>stat := stat th''\<rparr> \<Longrightarrow> th' = th\<lparr>stat := stat th', error := error th'\<rparr> \<Longrightarrow>
   th'' = th\<lparr>stat := stat th'', error := error th''\<rparr>"
  by (cases th; cases th'; cases th'') simp

lemma timeout_ok:
  assumes "kernel_ok lo k" "tstate k t = RT_THREAD_SUSPEND" "Thread_timer t \<notin> set (rt_timer_list k)"
    "rt_current_thread k = Some c"
  obtains k' where "rt_thread_timeout t k = Some k'" "kernel_ok lo k'" "runnable k' t" "rt_current_thread k' \<noteq> None"
    "error (threads k' t) = - RT_ETIMEOUT" "\<forall>d u. asleep d u k \<longrightarrow> asleep d u k'"
    "\<forall>u. u \<noteq> t \<longrightarrow> runnable k' u = runnable k u"
    "\<forall>u. threads k' u = (threads k u)\<lparr>stat := stat (threads k' u), error := error (threads k' u)\<rparr>"
    "rt_scheduler_lock_nest k = 0 \<longrightarrow> highest_runs k'"
proof -
  note ok = kernel_okD [OF assms(1)]
  let ?k1 = "tlist_remove t (upd_thread t (\<lambda>th. th\<lparr>error := - RT_ETIMEOUT\<rparr>) k)"
  have lv: "live k t" using assms(2) by (simp add: live_def)
  note l = live_ok [OF ok(1) _ lv, simplified]
  have st: "tstate ?k1 u = tstate k u" for u by simp
  have "sched_ok (upd_thread t (\<lambda>th. th\<lparr>error := - RT_ETIMEOUT\<rparr>) k)"
    by (rule passive_update [OF ok(1)]) (use assms(2) l in \<open>simp_all add: prio_ok_def rt_scheduler_stack_check_def Let_def\<close>)
  then have "sched_but {t} ?k1" using assms(2) by (intro tlist_remove_aside) simp_all
  moreover have "tstate ?k1 c' \<noteq> RT_THREAD_READY" if "rt_current_thread ?k1 = Some c'" for c'
    using ok(2) that unfolding st by (simp add: cur_ok_def)
  moreover have "timer_window lo ?k1" by (rule window_sched [OF ok(3)]) simp_all
  moreover have "timer_links ?k1" by (rule links_same_state [OF ok(4) _ _ st]) simp_all
  moreover have "live ?k1 t" using lv unfolding live_def st .
  moreover have "prio_ok (threads ?k1 t)" "rt_scheduler_stack_check t ?k1"
    using l by (simp_all add: prio_ok_def rt_scheduler_stack_check_def Let_def)
  moreover have "Thread_timer t \<notin> set (rt_timer_list ?k1)" using assms(3) by simp
  ultimately obtain k2 where k2: "rt_schedule_insert_thread t ?k1 = Some k2" "kernel_ok lo k2" "runnable k2 t"
    "threads k2 = (threads ?k1)(t := (threads ?k1 t)\<lparr>stat := stat (threads k2 t)\<rparr>)"
    "\<forall>p. tlist k2 (Suspend p) = tlist ?k1 (Suspend p)" "rt_current_thread k2 = rt_current_thread ?k1"
    "\<forall>d u. asleep d u ?k1 \<longrightarrow> u \<noteq> t \<longrightarrow> asleep d u k2"
    using insert_ok [of t ?k1 lo] by blast
  have "rt_current_thread k2 = Some c" using k2(6) assms(4) by simp
  then obtain k' c' where k': "rt_schedule k2 = Some k'" "kernel_ok lo k'" "rescheduled k2 k'" "rt_current_thread k' = Some c'"
    "rt_scheduler_lock_nest k2 = 0 \<longrightarrow> highest_runs k'" "\<forall>d u. asleep d u k2 \<longrightarrow> asleep d u k'"
    by (rule schedule_ok [OF k2(2)])
  have t: "error (threads k2 t) = - RT_ETIMEOUT" by (subst k2(4)) simp
  have o: "u \<noteq> t \<Longrightarrow> threads k2 u = threads k u" for u by (subst k2(4)) simp
  have "threads k' u = (threads k2 u)\<lparr>stat := stat (threads k' u)\<rparr>" for u using k'(3) by (simp add: rescheduled_def)
  moreover have "threads k2 u = (threads k u)\<lparr>stat := stat (threads k2 u), error := error (threads k2 u)\<rparr>" for u
  proof (cases "u = t")
    case True
    have "threads k2 t = (threads k t)\<lparr>error := - RT_ETIMEOUT, stat := stat (threads k2 t)\<rparr>" by (subst k2(4)) simp
    then show ?thesis unfolding True by (rule error_stat_record)
  qed (simp add: o)
  ultimately have th: "threads k' u = (threads k u)\<lparr>stat := stat (threads k' u), error := error (threads k' u)\<rparr>" for u
    by (rule error_stat_chain)
  have "asleep d u k'" if "asleep d u k" for d u
  proof -
    have "u \<noteq> t" using that assms(3) by (auto simp: asleep_def)
    moreover have "asleep d u ?k1" using that \<open>u \<noteq> t\<close> by (simp add: asleep_def)
    ultimately show ?thesis using k2(7) k'(6) by blast
  qed
  moreover have "runnable k' u = runnable k u" if "u \<noteq> t" for u
    using rescheduled_thread(8) [OF k'(3)] o [OF that] by (simp add: runnable_def)
  moreover have "rt_thread_timeout t k = Some k'" using k2(1) k'(1) by (simp add: rt_thread_timeout_def Let_def)
  moreover have "rt_scheduler_lock_nest k2 = rt_scheduler_lock_nest k" using lock_frame.frame_insert [OF k2(1)] by simp
  ultimately show ?thesis
    using k' k2(3) t th rescheduled_thread(2,8) [OF k'(3)] by (intro that [of k']) auto
qed

end
