(* ===== verification/Thread_Close.thy ===== *)
theory Thread_Close
  imports Thread_Life
begin

text \<open>
  The end of a thread, and the components of the state that the invariant of the kernel does not depend on.
\<close>

lemma kernel_ok_cong:
  assumes "threads k' = threads k" "tlist k' = tlist k" "rt_current_thread k' = rt_current_thread k" "mem k' = mem k"
    "rt_thread_ready_priority_group k' = rt_thread_ready_priority_group k" "timers k' = timers k"
    "rt_timer_list k' = rt_timer_list k" "rt_tick k' = rt_tick k"
  shows "kernel_ok lo k' = kernel_ok lo k" "asleep d u k' = asleep d u k" "highest_runs k' = highest_runs k"
  using assms
  by (simp_all add: kernel_ok_def sched_but_def queues_ok_def group_ok_def thread_ok_def live_def rt_scheduler_stack_check_def
      cur_ok_def timer_window_def due_in_def [abs_def] timer_links_def asleep_def highest_runs_def)

text \<open>The remaining fields.\<close>

lemma kernel_ok_fields [simp]:
  "kernel_ok lo (k\<lparr>sems := a\<rparr>) = kernel_ok lo k" "kernel_ok lo (k\<lparr>mutexes := b\<rparr>) = kernel_ok lo k"
  "kernel_ok lo (k\<lparr>objects := c\<rparr>) = kernel_ok lo k" "kernel_ok lo (k\<lparr>object_list := e\<rparr>) = kernel_ok lo k"
  "kernel_ok lo (k\<lparr>rt_scheduler_lock_nest := n\<rparr>) = kernel_ok lo k" "kernel_ok lo (k\<lparr>rt_interrupt_nest := i\<rparr>) = kernel_ok lo k"
  by (rule kernel_ok_cong; simp)+

lemma asleep_fields [simp]:
  "asleep d u (k\<lparr>sems := a\<rparr>) = asleep d u k" "asleep d u (k\<lparr>mutexes := b\<rparr>) = asleep d u k"
  "asleep d u (k\<lparr>objects := c\<rparr>) = asleep d u k" "asleep d u (k\<lparr>object_list := e\<rparr>) = asleep d u k"
  "asleep d u (k\<lparr>rt_scheduler_lock_nest := n\<rparr>) = asleep d u k" "asleep d u (k\<lparr>rt_interrupt_nest := i\<rparr>) = asleep d u k"
  by (rule kernel_ok_cong; simp)+

lemma sched_object_detach [simp]: "sched_but T (rt_object_detach ob k) = sched_but T k"
  by (simp add: rt_object_detach_def sched_but_def queues_ok_def group_ok_def thread_ok_def live_def rt_scheduler_stack_check_def)

lemma object_detach_simps [simp]:
  "kernel_ok lo (rt_object_detach ob k) = kernel_ok lo k" "asleep d u (rt_object_detach ob k) = asleep d u k"
  "threads (rt_object_detach ob k) = threads k" "tlist (rt_object_detach ob k) = tlist k"
  "rt_current_thread (rt_object_detach ob k) = rt_current_thread k" "timers (rt_object_detach ob k) = timers k"
  "rt_timer_list (rt_object_detach ob k) = rt_timer_list k" "rt_tick (rt_object_detach ob k) = rt_tick k"
  "sems (rt_object_detach ob k) = sems k" "mutexes (rt_object_detach ob k) = mutexes k" "mem (rt_object_detach ob k) = mem k"
  "rt_scheduler_lock_nest (rt_object_detach ob k) = rt_scheduler_lock_nest k"
  by (simp_all add: rt_object_detach_def)

section \<open>Closing a thread\<close>

text \<open>The thread has left the ready lists; \<open>rel\<close> is the choice of \<open>thread_release\<close>.\<close>

definition closing :: "tid \<Rightarrow> kernel \<Rightarrow> kernel" where
  "closing t k = upd_thread t (\<lambda>th. th\<lparr>stat := RT_THREAD_CLOSE\<rparr>) (rt_timer_detach (Thread_timer t) k)"

lemma closing_simps [simp]:
  "threads (closing t k) = (threads k)(t := (threads k t)\<lparr>stat := RT_THREAD_CLOSE\<rparr>)" "tlist (closing t k) = tlist k"
  "rt_current_thread (closing t k) = rt_current_thread k" "timers (closing t k) = timers k"
  "rt_timer_list (closing t k) = removeAll (Thread_timer t) (rt_timer_list k)" "rt_tick (closing t k) = rt_tick k"
  "rt_scheduler_lock_nest (closing t k) = rt_scheduler_lock_nest k" "sems (closing t k) = sems k" "mutexes (closing t k) = mutexes k"
  by (simp_all add: closing_def rt_timer_detach_def)

lemma closing_ok:
  assumes "sched_but {t} k" "cur_ok k" "timer_window lo k" "timer_links k"
  shows "kernel_ok lo (closing t k)" "kernel_ok lo ((closing t k)\<lparr>tlist := (tlist k)(Defunct := t # tlist k Defunct)\<rparr>)"
    "asleep d u k \<Longrightarrow> u \<noteq> t \<Longrightarrow> asleep d u (closing t k) \<and>
       asleep d u ((closing t k)\<lparr>tlist := (tlist k)(Defunct := t # tlist k Defunct)\<rparr>)"
proof -
  let ?k1 = "timer_remove (Thread_timer t) k" and ?k = "closing t k"
  let ?kd = "?k\<lparr>tlist := (tlist k)(Defunct := t # tlist k Defunct)\<rparr>"
  have n: "t \<notin> set (tlist k h)" for h using assms(1) by (rule aside_notin) simp
  have s: "sched_but {t} ?k" unfolding closing_def using assms(1)
    by (intro aside_update) (simp_all add: rt_timer_detach_def)
  moreover have "thread_ok ?k t" by (rule thread_ok_passive) simp_all
  ultimately have so: "sched_ok ?k" using aside_drop [of "{t}" ?k t] by simp
  have "thread_ok ?kd u = thread_ok ?k u" for u by (rule thread_ok_cong) simp_all
  then have "\<forall>u. thread_ok ?kd u" using so by (auto simp: sched_but_def)
  moreover have "queues_ok ?kd" "group_ok ?kd" using so n by (auto simp: sched_but_def queues_ok_def group_ok_def)
  moreover have "place_ok h (threads ?kd u)" if "u \<in> set (tlist ?kd h)" for h u
    using that in_list_place [OF so, of u h] n by (cases "h = Defunct \<and> u = t") (auto simp: place_ok_def split: if_splits)
  ultimately have "sched_ok ?kd" by (simp add: sched_but_def)
  moreover have c: "cur_ok ?k" "cur_ok ?kd" using assms(2) by (auto simp: cur_ok_def)
  moreover have "timer_window lo ?k1" by (rule timer_window_remove [OF assms(3)])
  then have w: "timer_window lo ?k" "timer_window lo ?kd" using timer_window_cong [of ?k ?k1] timer_window_cong [of ?kd ?k1] by simp_all
  moreover have "timer_links ?k" "timer_links ?kd" using assms(4) by (auto simp: timer_links_def live_def split: if_splits)
  ultimately show "kernel_ok lo ?k" "kernel_ok lo ?kd" using so by (simp_all add: kernel_ok_def)
  show "asleep d u k \<Longrightarrow> u \<noteq> t \<Longrightarrow> asleep d u ?k \<and> asleep d u ?kd" by (auto simp: asleep_def)
qed

lemma thread_release_eq:
  "thread_release t k = rt_object_detach (Thread_obj t) k \<or>
   thread_release t k = k\<lparr>tlist := (tlist k)(Defunct := t # tlist k Defunct)\<rparr>"
  by (simp add: thread_release_def)

lemma release_ok:
  assumes "sched_but {t} k" "cur_ok k" "timer_window lo k" "timer_links k"
  shows "kernel_ok lo (thread_release t (closing t k))" "tstate (thread_release t (closing t k)) t = RT_THREAD_CLOSE"
    "rt_current_thread (thread_release t (closing t k)) = rt_current_thread k"
    "rt_scheduler_lock_nest (thread_release t (closing t k)) = rt_scheduler_lock_nest k"
    "asleep d u k \<Longrightarrow> u \<noteq> t \<Longrightarrow> asleep d u (thread_release t (closing t k))"
  using thread_release_eq [of t "closing t k"] closing_ok [OF assms] by (elim disjE; auto)+

text \<open>A thread that may be closed: prepared or started, and not closed yet.\<close>

definition closable :: "kernel \<Rightarrow> tid \<Rightarrow> bool" where
  "closable k t \<longleftrightarrow> tstate k t = RT_THREAD_INIT \<or> live k t"

lemma leave_ready:
  assumes "kernel_ok lo k" "closable k t"
  obtains k' where "(if tstate k t \<noteq> RT_THREAD_INIT then rt_schedule_remove_thread t k else Some k) = Some k'"
    "sched_but {t} k'" "cur_ok k'" "timer_window lo k'" "timer_links k'" "threads k' = threads k"
    "rt_current_thread k' = rt_current_thread k" "rt_scheduler_lock_nest k' = rt_scheduler_lock_nest k"
    "\<forall>d u. asleep d u k \<longrightarrow> asleep d u k'"
proof (cases "tstate k t = RT_THREAD_INIT")
  case True
  note ok = kernel_okD [OF assms(1)]
  have "sched_but {t} k" using in_list_state(2) [OF ok(1)] True by (intro aside_weaken [OF ok(1)]) auto
  then show ?thesis using True ok by (intro that [of k]) simp_all
next
  case False
  note ok = kernel_okD [OF assms(1)]
  have lv: "live k t" using False assms(2) by (simp add: closable_def)
  note l = live_ok [OF ok(1) _ lv, simplified]
  obtain k1 where k1: "rt_schedule_remove_thread t k = Some k1" "sched_but (insert t {}) k1" "threads k1 = threads k"
    "tlist k1 = (\<lambda>h. removeAll t (tlist k h))" "rt_current_thread k1 = rt_current_thread k"
    "rt_scheduler_lock_nest k1 = rt_scheduler_lock_nest k"
    by (rule remove_thread_spec [OF ok(1) l(1)])
  note fr = timers_frame.frame_remove [OF k1(1)] timer_list_frame.frame_remove [OF k1(1)] tick_frame.frame_remove [OF k1(1)]
  have "timer_window lo k1" by (rule window_sched [OF ok(3) fr])
  moreover have "timer_links k1" by (rule links_same_state [OF ok(4) fr(1,2)]) (simp add: k1(3))
  moreover have "cur_ok k1" by (rule cur_ok_same_state [OF ok(2) k1(5)]) (simp add: k1(3))
  ultimately show ?thesis using False k1 fr by (intro that [of k1]) (auto simp: asleep_def)
qed

lemma detach_ok:
  assumes "kernel_ok lo k" "closable k t"
  obtains k' where "rt_thread_detach t k = Some (RT_EOK, k')" "kernel_ok lo k'" "tstate k' t = RT_THREAD_CLOSE"
    "rt_current_thread k' = rt_current_thread k" "\<forall>d u. asleep d u k \<longrightarrow> u \<noteq> t \<longrightarrow> asleep d u k'"
proof -
  obtain k1 where k1: "(if tstate k t \<noteq> RT_THREAD_INIT then rt_schedule_remove_thread t k else Some k) = Some k1"
    "sched_but {t} k1" "cur_ok k1" "timer_window lo k1" "timer_links k1" "threads k1 = threads k"
    "rt_current_thread k1 = rt_current_thread k" "rt_scheduler_lock_nest k1 = rt_scheduler_lock_nest k"
    "\<forall>d u. asleep d u k \<longrightarrow> asleep d u k1"
    by (rule leave_ready [OF assms])
  have "rt_thread_detach t k = Some (RT_EOK, thread_release t (closing t k1))"
    using k1(1) by (simp add: rt_thread_detach_def closing_def Let_def)
  then show ?thesis using release_ok [OF k1(2-5)] k1(7,9) by (intro that [of "thread_release t (closing t k1)"]) auto
qed

lemma delete_ok:
  assumes "kernel_ok lo k" "closable k t"
  obtains k' where "rt_thread_delete t k = Some (RT_EOK, k')" "kernel_ok lo k'" "tstate k' t = RT_THREAD_CLOSE"
    "rt_current_thread k' = rt_current_thread k" "\<forall>d u. asleep d u k \<longrightarrow> u \<noteq> t \<longrightarrow> asleep d u k'"
proof -
  obtain k1 where k1: "(if tstate k t \<noteq> RT_THREAD_INIT then rt_schedule_remove_thread t k else Some k) = Some k1"
    "sched_but {t} k1" "cur_ok k1" "timer_window lo k1" "timer_links k1" "threads k1 = threads k"
    "rt_current_thread k1 = rt_current_thread k" "rt_scheduler_lock_nest k1 = rt_scheduler_lock_nest k"
    "\<forall>d u. asleep d u k \<longrightarrow> asleep d u k1"
    by (rule leave_ready [OF assms])
  have "rt_thread_delete t k = Some (RT_EOK, (closing t k1)\<lparr>tlist := (tlist k1)(Defunct := t # tlist k1 Defunct)\<rparr>)"
    using k1(1) by (simp add: rt_thread_delete_def closing_def rt_timer_detach_def Let_def)
  then show ?thesis using closing_ok [OF k1(2-5)] k1(7,9)
    by (intro that [of "(closing t k1)\<lparr>tlist := (tlist k1)(Defunct := t # tlist k1 Defunct)\<rparr>"]) auto
qed

lemma exit_ok:
  assumes "kernel_ok lo k" "rt_current_thread k = Some t" "live k t"
  obtains k' where "rt_thread_exit k = Some k'" "kernel_ok lo k'" "tstate k' t = RT_THREAD_CLOSE"
    "rt_current_thread k' \<noteq> None" "\<forall>d u. asleep d u k \<longrightarrow> u \<noteq> t \<longrightarrow> asleep d u k'"
    "rt_scheduler_lock_nest k = 0 \<longrightarrow> highest_runs k'"
proof -
  have "closable k t" using assms(3) by (simp add: closable_def)
  with assms(1) obtain k1 where k1: "(if tstate k t \<noteq> RT_THREAD_INIT then rt_schedule_remove_thread t k else Some k) = Some k1"
    "sched_but {t} k1" "cur_ok k1" "timer_window lo k1" "timer_links k1" "threads k1 = threads k"
    "rt_current_thread k1 = rt_current_thread k" "rt_scheduler_lock_nest k1 = rt_scheduler_lock_nest k"
    "\<forall>d u. asleep d u k \<longrightarrow> asleep d u k1"
    by (rule leave_ready)
  let ?k2 = "thread_release t (closing t k1)"
  have c: "rt_timer_detach (Thread_timer t) (upd_thread t (\<lambda>th. th\<lparr>stat := RT_THREAD_CLOSE\<rparr>) k1) = closing t k1"
    by (simp add: closing_def rt_timer_detach_def timer_remove_def rt_object_detach_def upd_thread_def)
  have ok2: "kernel_ok lo ?k2" "\<forall>d u. asleep d u k \<longrightarrow> u \<noteq> t \<longrightarrow> asleep d u ?k2" "rt_current_thread ?k2 = Some t"
    "tstate ?k2 t = RT_THREAD_CLOSE" "rt_scheduler_lock_nest ?k2 = rt_scheduler_lock_nest k"
    using release_ok [OF k1(2-5)] k1(7-9) assms(2) by auto
  obtain k' c' where k': "rt_schedule ?k2 = Some k'" "kernel_ok lo k'" "rescheduled ?k2 k'" "rt_current_thread k' = Some c'"
    "rt_scheduler_lock_nest ?k2 = 0 \<longrightarrow> highest_runs k'" "\<forall>d u. asleep d u ?k2 \<longrightarrow> asleep d u k'"
    by (rule schedule_ok [OF ok2(1,3)])
  have "rt_thread_exit k = Some k'"
    using k1(1) k'(1) assms(2,3) by (auto simp: rt_thread_exit_def c Let_def live_def split: if_splits)
  then show ?thesis using k' ok2 rescheduled_thread(11) [OF k'(3), of t] by (intro that [of k']) auto
qed

end
