(* ===== verification/Timer_Check.thy ===== *)
theory Timer_Check
  imports Thread_Close
begin

text \<open>
  The tick interrupt: the time slice of the running thread and the timers that are due. The functions of
  application timers are parameters; \<open>callbacks_ok\<close> says what the kernel relies on, \<open>callbacks_quiet\<close> that they
  leave the threads alone.
\<close>

definition due :: "kernel \<Rightarrow> timer_ref set" where
  "due k = {tm \<in> set (rt_timer_list k). due_in k tm \<le> 0}"

definition callbacks_ok :: "(u32 \<Rightarrow> nat \<Rightarrow> kernel \<Rightarrow> kernel option) \<Rightarrow> bool" where
  "callbacks_ok usr \<longleftrightarrow> (\<forall>f p k. kernel_ok (- 1) k \<longrightarrow> rt_current_thread k \<noteq> None \<longrightarrow>
     (\<exists>k'. usr f p k = Some k' \<and> kernel_ok (- 1) k' \<and> rt_current_thread k' \<noteq> None \<and> rt_tick k' = rt_tick k \<and>
        due k' \<subseteq> due k \<and> (\<forall>n. user_timer_ok (timers k (Timer n)) \<longrightarrow> user_timer_ok (timers k' (Timer n)))))"

definition callbacks_quiet :: "(u32 \<Rightarrow> nat \<Rightarrow> kernel \<Rightarrow> kernel option) \<Rightarrow> bool" where
  "callbacks_quiet usr \<longleftrightarrow> (\<forall>f p k k' t. usr f p k = Some k' \<longrightarrow> kernel_ok (- 1) k \<longrightarrow>
     (runnable k t \<longrightarrow> runnable k' t) \<and>
     (Thread_timer t \<in> set (rt_timer_list k') \<longleftrightarrow> Thread_timer t \<in> set (rt_timer_list k)) \<and>
     timeout_tick (timers k' (Thread_timer t)) = timeout_tick (timers k (Thread_timer t)) \<and>
     (\<forall>d. asleep d t k \<longrightarrow> asleep d t k'))"

lemma due_removed: "due (timer_remove tm k) = due k - {tm}"
  by (auto simp: due_def)

lemma finite_due [simp]: "finite (due k)"
  by (simp add: due_def)

lemma kernel_ok_mono: "kernel_ok lo k \<Longrightarrow> lo' \<le> lo \<Longrightarrow> kernel_ok lo' k"
  by (fastforce simp: kernel_ok_def timer_window_def)

lemma timer_remove_ok: "kernel_ok lo k \<Longrightarrow> kernel_ok lo (timer_remove tm k)"
  using timer_window_remove [of lo k tm] by (auto simp: kernel_ok_def timer_links_def live_def)

text \<open>Only the head of the sorted list decides whether a timer is due.\<close>

lemma none_due:
  assumes "timer_window lo k" "rt_timer_list k = tm # ts" "0 < due_in k tm"
  shows "due k = {}" "timer_window 1 k"
  using assms by (fastforce simp: timer_window_def due_def)+

lemma head_due:
  assumes "timer_window (- 1) k" "rt_timer_list k = tm # ts"
  shows "rt_tick k - timeout_tick (timers k tm) < 0x7fffffff \<longleftrightarrow> due_in k tm \<le> 0"
  using assms due_iff [of "timeout_tick (timers k tm)" "rt_tick k"] by (auto simp: timer_window_def due_in_def)

section \<open>After the timeout function\<close>

lemma rearm_timers: "timers (timer_rearm tm k) u = (if u = tm then timers (timer_rearm tm k) tm else timers k u)"
  by (simp add: timer_rearm_def Let_def rt_timer_start_def)

lemma rearm_list: "set (rt_timer_list (timer_rearm tm k)) \<subseteq> insert tm (set (rt_timer_list k))"
  "set (rt_timer_list k) \<subseteq> set (rt_timer_list (timer_rearm tm k))"
  by (auto simp: timer_rearm_def Let_def timer_start_timers)

lemma clear_flag_ok:
  assumes "kernel_ok lo k" "case tm of Thread_timer t \<Rightarrow> Thread_timer t \<notin> set (rt_timer_list k) | Timer n \<Rightarrow> True"
  shows "kernel_ok lo (upd_timer tm (\<lambda>ti. ti\<lparr>tm_flag := tm_flag ti AND NOT RT_TIMER_FLAG_ACTIVATED\<rparr>) k)" (is "kernel_ok lo ?k")
proof -
  note ok = kernel_okD [OF assms(1)]
  have "timer_links ?k"
    using ok(4) assms(2) by (auto simp: timer_links_def ttimer_ok_def user_timer_ok_def flag_and_periodic live_def split: timer_ref.splits)
  moreover have "timer_window lo ?k = timer_window lo k" by (rule timer_window_cong) simp_all
  ultimately show ?thesis using ok by (simp add: kernel_ok_def)
qed

lemma rearm_user:
  assumes "kernel_ok (- 1) k" "user_timer_ok (timers k (Timer n))"
  shows "kernel_ok (- 1) (timer_rearm (Timer n) k)" "due (timer_rearm (Timer n) k) - {Timer n} \<subseteq> due k"
    "Timer n \<in> due (timer_rearm (Timer n) k) \<Longrightarrow> Timer n \<in> due k"
proof -
  let ?tm = "Timer n"
  let ?k = "upd_timer ?tm (\<lambda>ti. ti\<lparr>tm_flag := tm_flag ti AND NOT RT_TIMER_FLAG_ACTIVATED\<rparr>) k"
  have ok: "kernel_ok (- 1) ?k" by (rule clear_flag_ok [OF assms(1)]) simp
  have d: "due_in ?k u = due_in k u" for u by (simp add: due_in_def)
  have "kernel_ok (- 1) (timer_rearm ?tm k) \<and> (due (timer_rearm ?tm k) - {?tm} \<subseteq> due k) \<and> (?tm \<in> due (timer_rearm ?tm k) \<longrightarrow> ?tm \<in> due k)"
  proof (cases "tm_flag (timers k ?tm) AND RT_TIMER_FLAG_PERIODIC \<noteq> 0 \<and> tm_flag (timers k ?tm) AND RT_TIMER_FLAG_ACTIVATED \<noteq> 0")
    case True
    have i: "0 < tm_init_tick (timers k ?tm)" "tm_init_tick (timers k ?tm) < 0x7fffffff"
      using True assms(2) by (simp_all add: user_timer_ok_def)
    have r: "timer_rearm ?tm k = rt_timer_start ?tm ?k" using True by (simp add: timer_rearm_def Let_def)
    have "kernel_ok (- 1) (rt_timer_start ?tm ?k)"
      by (rule timer_start_ok [OF ok]) (use i assms(2) in \<open>simp_all add: user_timer_ok_def flag_and_periodic\<close>)
    moreover have "due_in (rt_timer_start ?tm ?k) ?tm > 0"
      using timer_start_list(2) [OF kernel_okD(3) [OF ok], of ?tm] i by (simp add: word_less_alt)
    moreover have "due_in (rt_timer_start ?tm ?k) u = due_in k u" if "u \<noteq> ?tm" for u
      using that by (simp add: due_in_def timer_start_timers)
    ultimately have "u \<in> due (rt_timer_start ?tm ?k) \<Longrightarrow> u \<in> due k" for u
      by (cases "u = ?tm") (auto simp: due_def timer_start_timers)
    with \<open>kernel_ok (- 1) (rt_timer_start ?tm ?k)\<close> show ?thesis unfolding r by blast
  next
    case False
    then have "timer_rearm ?tm k = ?k" by (auto simp: timer_rearm_def Let_def)
    moreover have "due ?k = due k" unfolding due_def d by simp
    ultimately show ?thesis using ok by simp
  qed
  then show "kernel_ok (- 1) (timer_rearm ?tm k)" "due (timer_rearm ?tm k) - {?tm} \<subseteq> due k"
    "?tm \<in> due (timer_rearm ?tm k) \<Longrightarrow> ?tm \<in> due k" by auto
qed

lemma rearm_thread:
  assumes "kernel_ok lo k" "ttimer_ok (timers k (Thread_timer t)) t" "Thread_timer t \<notin> set (rt_timer_list k)"
  shows "kernel_ok lo (timer_rearm (Thread_timer t) k)" "due (timer_rearm (Thread_timer t) k) = due k"
    "rt_timer_list (timer_rearm (Thread_timer t) k) = rt_timer_list k"
proof -
  have r: "timer_rearm (Thread_timer t) k = upd_timer (Thread_timer t) (\<lambda>ti. ti\<lparr>tm_flag := tm_flag ti AND NOT RT_TIMER_FLAG_ACTIVATED\<rparr>) k"
    using assms(2) by (simp add: timer_rearm_def Let_def ttimer_ok_def)
  then show "kernel_ok lo (timer_rearm (Thread_timer t) k)" using clear_flag_ok [OF assms(1), of "Thread_timer t"] assms(3) by simp
  show "due (timer_rearm (Thread_timer t) k) = due k" by (auto simp: r due_def due_in_def)
  show "rt_timer_list (timer_rearm (Thread_timer t) k) = rt_timer_list k" by (simp add: r)
qed

lemma asleep_rearm:
  assumes "asleep d u k" "tm \<noteq> Thread_timer u"
  shows "asleep d u (timer_rearm tm k)"
  using assms rearm_list(2) [of k tm] rearm_timers [of tm k "Thread_timer u"] by (auto simp: asleep_def)

section \<open>One expired timer\<close>

lemma expire_step:
  assumes "kernel_ok (- 1) k" "rt_current_thread k \<noteq> None" "callbacks_ok usr" "tm \<in> due k"
  obtains k' where "call_timeout usr tm (timer_remove tm k) = Some k'"
    "kernel_ok (- 1) (timer_rearm tm k')" "rt_current_thread (timer_rearm tm k') \<noteq> None" "rt_tick k' = rt_tick k"
    "rt_tick (timer_rearm tm k') = rt_tick k" "due (timer_rearm tm k') \<subseteq> due k - {tm}"
    "callbacks_quiet usr \<longrightarrow> due (timer_rearm tm k') \<inter> range Thread_timer = (due k - {tm}) \<inter> range Thread_timer \<and>
       (\<forall>t. tm = Thread_timer t \<longrightarrow> runnable (timer_rearm tm k') t) \<and> (\<forall>t. runnable k t \<longrightarrow> runnable (timer_rearm tm k') t) \<and>
       (\<forall>d t. asleep d t k \<longrightarrow> tm \<noteq> Thread_timer t \<longrightarrow> asleep d t (timer_rearm tm k'))"
proof (cases tm)
  case (Thread_timer t)
  let ?k1 = "timer_remove tm k"
  have l: "Thread_timer t \<in> set (rt_timer_list k)" using assms(4) Thread_timer by (simp add: due_def)
  then have s: "tstate k t = RT_THREAD_SUSPEND" using kernel_okD(4) [OF assms(1)] by (simp add: timer_links_def)
  have tt: "ttimer_ok (timers k (Thread_timer t)) t"
    using kernel_okD(4) [OF assms(1)] s by (simp add: timer_links_def live_def)
  obtain c where c: "rt_current_thread ?k1 = Some c" using assms(2) by auto
  have pre: "tstate ?k1 t = RT_THREAD_SUSPEND" "Thread_timer t \<notin> set (rt_timer_list ?k1)"
    using s Thread_timer by simp_all
  obtain k' where k': "rt_thread_timeout t ?k1 = Some k'" "kernel_ok (- 1) k'" "runnable k' t" "rt_current_thread k' \<noteq> None"
    "error (threads k' t) = - RT_ETIMEOUT" "\<forall>d u. asleep d u ?k1 \<longrightarrow> asleep d u k'"
    "\<forall>u. u \<noteq> t \<longrightarrow> runnable k' u = runnable ?k1 u"
    "\<forall>u. threads k' u = (threads ?k1 u)\<lparr>stat := stat (threads k' u), error := error (threads k' u)\<rparr>"
    "rt_scheduler_lock_nest ?k1 = 0 \<longrightarrow> highest_runs k'"
    by (rule timeout_ok [OF timer_remove_ok [OF assms(1)] pre c])
  note fr = timers_frame.frame_thread_timeout [OF k'(1)] timer_list_frame.frame_thread_timeout [OF k'(1)]
    tick_frame.frame_thread_timeout [OF k'(1)]
  have n: "Thread_timer t \<notin> set (rt_timer_list k')" using fr(2) Thread_timer by simp
  have tt': "ttimer_ok (timers k' (Thread_timer t)) t" using tt fr(1) by simp
  note re = rearm_thread [OF k'(2) tt' n]
  have "due k' = due k - {tm}" using fr due_removed [where tm = tm and k = k] by (auto simp: due_def due_in_def)
  moreover have "asleep d u (timer_rearm tm k')" if "asleep d u k" "tm \<noteq> Thread_timer u" for d u
  proof -
    have "asleep d u ?k1" using that by (auto simp: asleep_def)
    then show ?thesis using k'(6) that(2) by (intro asleep_rearm) auto
  qed
  moreover have "call_timeout usr tm ?k1 = Some k'" using tt k'(1) Thread_timer by (simp add: call_timeout_def ttimer_ok_def)
  moreover have "runnable (timer_rearm tm k') u" if "runnable k u" for u
    using that k'(3,7) by (cases "u = t") (simp_all add: runnable_def)
  moreover have "runnable (timer_rearm tm k') t" using k'(3) by (simp add: runnable_def)
  ultimately show ?thesis using re k'(4) fr Thread_timer by (intro that [of k']) simp_all
next
  case (Timer n)
  let ?k1 = "timer_remove tm k"
  have l: "Timer n \<in> set (rt_timer_list k)" using assms(4) Timer by (simp add: due_def)
  then have u: "user_timer_ok (timers k (Timer n))" using kernel_okD(4) [OF assms(1)] by (simp add: timer_links_def)
  then obtain f where f: "timeout_func (timers k (Timer n)) = User_timeout f"
    by (cases "timeout_func (timers k (Timer n))") (simp_all add: user_timer_ok_def)
  have c: "rt_current_thread ?k1 \<noteq> None" using assms(2) by simp
  obtain k' where k': "usr f (tm_parameter (timers k tm)) ?k1 = Some k'" "kernel_ok (- 1) k'" "rt_current_thread k' \<noteq> None"
    "rt_tick k' = rt_tick ?k1" "due k' \<subseteq> due ?k1" "user_timer_ok (timers ?k1 (Timer n)) \<longrightarrow> user_timer_ok (timers k' (Timer n))"
    using assms(3) timer_remove_ok [OF assms(1), of tm] c unfolding callbacks_ok_def by blast
  have u': "user_timer_ok (timers k' (Timer n))" using k'(6) u by simp
  note re = rearm_user [OF k'(2) u']
  have nd: "tm \<notin> due k'" using k'(5) by (auto simp: due_removed)
  then have sub: "due (timer_rearm tm k') \<subseteq> due k - {tm}" using re k'(5) Timer by (auto simp: due_removed)
  have tq: "Thread_timer t \<in> due (timer_rearm tm k') \<longleftrightarrow> Thread_timer t \<in> due k' " for t
  proof -
    have "Thread_timer t \<in> set (rt_timer_list (timer_rearm tm k')) \<longleftrightarrow> Thread_timer t \<in> set (rt_timer_list k')"
      using rearm_list [where tm = tm and k = k'] Timer by auto
    moreover have "timers (timer_rearm tm k') (Thread_timer t) = timers k' (Thread_timer t)"
      using rearm_timers [of tm k' "Thread_timer t"] Timer by simp
    ultimately show ?thesis by (simp add: due_def due_in_def)
  qed
  have quiet: "due (timer_rearm tm k') \<inter> range Thread_timer = (due k - {tm}) \<inter> range Thread_timer"
    "\<And>t. runnable k t \<Longrightarrow> runnable (timer_rearm tm k') t"
    "\<And>d t. asleep d t k \<Longrightarrow> asleep d t (timer_rearm tm k')" if q: "callbacks_quiet usr"
  proof -
    note q' = q [unfolded callbacks_quiet_def, rule_format, OF k'(1) timer_remove_ok [OF assms(1)]]
    have "Thread_timer t \<in> due k' \<longleftrightarrow> Thread_timer t \<in> due k" for t
      using q' [of t] k'(4) Timer by (auto simp: due_def due_in_def)
    then show "due (timer_rearm tm k') \<inter> range Thread_timer = (due k - {tm}) \<inter> range Thread_timer"
      using tq Timer by auto
    show "runnable (timer_rearm tm k') t" if "runnable k t" for t using q' [of t] that by (auto simp: runnable_def)
    show "asleep d t (timer_rearm tm k')" if "asleep d t k" for d t
    proof -
      have "asleep d t ?k1" using that Timer by (auto simp: asleep_def)
      then show ?thesis using q' [of t] Timer by (intro asleep_rearm) auto
    qed
  qed
  have "call_timeout usr tm ?k1 = Some k'" using f k'(1) Timer by (simp add: call_timeout_def)
  then show ?thesis using re k' sub quiet Timer by (intro that [of k']) simp_all
qed

section \<open>The loop\<close>

lemma check_loop:
  assumes "kernel_ok (- 1) k" "rt_current_thread k \<noteq> None" "callbacks_ok usr"
  shows "\<exists>k'. timer_check_loop usr (rt_tick k) k = Some k' \<and> kernel_ok 1 k' \<and> rt_current_thread k' \<noteq> None \<and>
     rt_tick k' = rt_tick k \<and>
     (callbacks_quiet usr \<longrightarrow> (\<forall>t. Thread_timer t \<in> due k \<longrightarrow> runnable k' t) \<and> (\<forall>t. runnable k t \<longrightarrow> runnable k' t) \<and>
        (\<forall>d t. asleep d t k \<longrightarrow> Thread_timer t \<notin> due k \<longrightarrow> asleep d t k'))"
  using assms(1,2)
proof (induction "card (due k)" arbitrary: k rule: less_induct)
  case less
  note w = kernel_okD(3) [OF less.prems(1)]
  show ?case
  proof (cases "rt_timer_list k")
    case Nil
    then have "timer_check_loop usr (rt_tick k) k = Some k" "kernel_ok 1 k" "due k = {}"
      using less.prems(1) by (subst timer_check_loop.simps, simp_all add: kernel_ok_def timer_window_def due_def)
    then show ?thesis using less.prems(2) by auto
  next
    case (Cons tm ts)
    show ?thesis
    proof (cases "due_in k tm \<le> 0")
      case False
      then have "timer_check_loop usr (rt_tick k) k = Some k"
        using Cons head_due [OF w Cons] by (subst timer_check_loop.simps) simp
      moreover have "kernel_ok 1 k" "due k = {}"
        using none_due [OF w Cons] False less.prems(1) by (simp_all add: kernel_ok_def)
      ultimately show ?thesis using less.prems(2) by auto
    next
      case True
      then have td: "tm \<in> due k" using Cons by (simp add: due_def)
      obtain k1 where k1: "call_timeout usr tm (timer_remove tm k) = Some k1"
        and s: "kernel_ok (- 1) (timer_rearm tm k1)" "rt_current_thread (timer_rearm tm k1) \<noteq> None" "rt_tick k1 = rt_tick k"
        "rt_tick (timer_rearm tm k1) = rt_tick k" "due (timer_rearm tm k1) \<subseteq> due k - {tm}"
        "callbacks_quiet usr \<longrightarrow> due (timer_rearm tm k1) \<inter> range Thread_timer = (due k - {tm}) \<inter> range Thread_timer \<and>
           (\<forall>t. tm = Thread_timer t \<longrightarrow> runnable (timer_rearm tm k1) t) \<and> (\<forall>t. runnable k t \<longrightarrow> runnable (timer_rearm tm k1) t) \<and>
           (\<forall>d t. asleep d t k \<longrightarrow> tm \<noteq> Thread_timer t \<longrightarrow> asleep d t (timer_rearm tm k1))"
        by (rule expire_step [OF less.prems assms(3) td])
      let ?k2 = "timer_rearm tm k1"
      have "card (due ?k2) < card (due k)" using s(5) td by (intro psubset_card_mono) auto
      from less.hyps [OF this s(1,2)] obtain k' where k': "timer_check_loop usr (rt_tick ?k2) ?k2 = Some k'" "kernel_ok 1 k'"
        "rt_current_thread k' \<noteq> None" "rt_tick k' = rt_tick ?k2" and
        q: "callbacks_quiet usr \<longrightarrow> (\<forall>t. Thread_timer t \<in> due ?k2 \<longrightarrow> runnable k' t) \<and> (\<forall>t. runnable ?k2 t \<longrightarrow> runnable k' t) \<and>
        (\<forall>d t. asleep d t ?k2 \<longrightarrow> Thread_timer t \<notin> due ?k2 \<longrightarrow> asleep d t k')" by blast
      have "timer_check_loop usr (rt_tick k) k = Some k'"
        using Cons head_due [OF w Cons] True k1 k'(1) s(3,4) by (subst timer_check_loop.simps) simp
      moreover have "(\<forall>t. Thread_timer t \<in> due k \<longrightarrow> runnable k' t) \<and> (\<forall>t. runnable k t \<longrightarrow> runnable k' t) \<and>
        (\<forall>d t. asleep d t k \<longrightarrow> Thread_timer t \<notin> due k \<longrightarrow> asleep d t k')" if cq: "callbacks_quiet usr"
      proof -
        note i = mp [OF s(6) cq]
        have "Thread_timer t \<in> due ?k2 \<longleftrightarrow> Thread_timer t \<in> due k \<and> Thread_timer t \<noteq> tm" for t
          using arg_cong [OF conjunct1 [OF i], of "(\<in>) (Thread_timer t)"] by auto
        then show ?thesis using mp [OF q cq] conjunct2 [OF i] td by blast
      qed
      moreover have "rt_tick k' = rt_tick k" using k'(4) s(4) by simp
      ultimately show ?thesis using k'(2,3) by blast
    qed
  qed
qed

end
