(* ===== verification/Tick.thy ===== *)
theory Tick
  imports Timer_Check
begin

text \<open>
  The tick handler keeps the invariant, leaves no timer overdue and wakes the threads whose time has come; \<open>time_slice\<close>
  hands the processor round among the threads of one priority.
\<close>

section \<open>The counter\<close>

lemma due_in_tick:
  assumes "- (2 ^ 31) < due_in k tm"
  shows "due_in (k\<lparr>rt_tick := rt_tick k + 1\<rparr>) tm = due_in k tm - 1"
proof -
  have "due_in (k\<lparr>rt_tick := rt_tick k + 1\<rparr>) tm = sint ((timeout_tick (timers k tm) - rt_tick k) - 1)"
    by (simp add: due_in_def algebra_simps)
  also have "\<dots> = due_in k tm - 1"
    using assms sint_bounds [of "timeout_tick (timers k tm) - rt_tick k"] by (subst sint_minus) (simp_all add: due_in_def)
  finally show ?thesis .
qed

lemma tick_advance:
  assumes "kernel_ok 0 k"
  shows "kernel_ok (- 1) (k\<lparr>rt_tick := rt_tick k + 1\<rparr>)"
proof -
  let ?k = "k\<lparr>rt_tick := rt_tick k + 1\<rparr>"
  note ok = kernel_okD [OF assms]
  have d: "due_in ?k tm = due_in k tm - 1" if "tm \<in> set (rt_timer_list k)" for tm
    using that ok(3) by (intro due_in_tick) (auto simp: timer_window_def)
  have "sorted_wrt (\<lambda>x y. due_in k x \<le> due_in k y) (rt_timer_list k)"
    using ok(3) by (simp add: timer_window_def sorted_map)
  then have "sorted_wrt (\<lambda>x y. due_in k x - 1 \<le> due_in k y - 1) (rt_timer_list k)"
    by (rule sorted_wrt_mono_rel [rotated]) simp
  then have "sorted (map (\<lambda>tm. due_in k tm - 1) (rt_timer_list k))" unfolding sorted_map .
  moreover have "map (due_in ?k) (rt_timer_list k) = map (\<lambda>tm. due_in k tm - 1) (rt_timer_list k)" using d by simp
  ultimately have "sorted (map (due_in ?k) (rt_timer_list k))" by (simp only:)
  then have "timer_window (- 1) ?k" using ok(3) d by (auto simp: timer_window_def)
  moreover have "sched_ok ?k" using ok(1)
    by (simp add: sched_but_def queues_ok_def group_ok_def thread_ok_def live_def rt_scheduler_stack_check_def)
  moreover have "timer_links ?k" using ok(4) by (simp add: timer_links_def live_def)
  moreover have "cur_ok ?k" using ok(2) by (simp add: cur_ok_def)
  ultimately show ?thesis by (simp add: kernel_ok_def)
qed

section \<open>The time slice\<close>

lemma runnable_cong: "tstate k' t = tstate k t \<Longrightarrow> runnable k' t = runnable k t"
  by (simp add: runnable_def)

lemma runnable_fields [simp]: "runnable (k\<lparr>rt_interrupt_nest := n\<rparr>) t = runnable k t"
  "runnable (k\<lparr>rt_tick := v\<rparr>) t = runnable k t"
  by (simp_all add: runnable_def)

lemma plain_update:
  assumes "kernel_ok lo k" "tstate k t \<noteq> RT_THREAD_READY" "\<And>th. stat (f th) AND 7 = stat th AND 7"
    "\<And>th. current_priority (f th) = current_priority th" "\<And>th. number_mask (f th) = number_mask th"
    "\<And>th. sp (f th) = sp th" "\<And>th. stack_addr (f th) = stack_addr th" "\<And>th. stack_size (f th) = stack_size th"
  shows "kernel_ok lo (upd_thread t f k)" "tstate (upd_thread t f k) u = tstate k u" "asleep d u (upd_thread t f k) = asleep d u k"
proof -
  note ok = kernel_okD [OF assms(1)]
  let ?k = "upd_thread t f k"
  show st: "tstate ?k u = tstate k u" for u using assms(3) by simp
  show "asleep d u ?k = asleep d u k" using st [of u] by (simp add: asleep_def)
  have "sched_ok ?k"
    by (rule passive_update [OF ok(1) assms(2)]) (use assms(2-) live_ok [OF ok(1), of t] stack_check_same [of ?k t k] in \<open>simp_all add: prio_ok_def\<close>)
  moreover have "cur_ok ?k" by (rule cur_ok_same_state [OF ok(2) _ st]) simp
  moreover have "timer_window lo ?k" by (rule window_sched [OF ok(3)]) simp_all
  moreover have "timer_links ?k" by (rule links_same_state [OF ok(4) _ _ st]) simp_all
  ultimately show "kernel_ok lo ?k" by (simp add: kernel_ok_def)
qed

lemma current_not_ready: "kernel_ok lo k \<Longrightarrow> rt_current_thread k = Some c \<Longrightarrow> tstate k c \<noteq> RT_THREAD_READY"
  by (simp add: kernel_ok_def cur_ok_def)

lemma time_slice_ok:
  assumes "kernel_ok lo k" "rt_current_thread k = Some c"
  obtains k' where "time_slice k = Some k'" "kernel_ok lo k'" "rt_current_thread k' \<noteq> None"
    "\<forall>t. runnable k' t = runnable k t" "\<forall>d u. asleep d u k \<longrightarrow> asleep d u k'"
    "timers k' = timers k" "rt_timer_list k' = rt_timer_list k" "rt_tick k' = rt_tick k"
proof -
  let ?k1 = "upd_thread c (\<lambda>th. th\<lparr>remaining_tick := remaining_tick th - 1\<rparr>) k"
  note nr = current_not_ready [OF assms]
  note p1 = plain_update [OF assms(1) nr, of "\<lambda>th. th\<lparr>remaining_tick := remaining_tick th - 1\<rparr>", simplified]
  show ?thesis
  proof (cases "remaining_tick (threads ?k1 c) = 0")
    case False
    then have e: "time_slice k = Some ?k1" using assms(2) by (simp add: time_slice_def Let_def)
    show ?thesis using p1 assms(2) e by (intro that [of ?k1]) (auto simp: runnable_def)
  next
    case True
    let ?f = "\<lambda>th. th\<lparr>remaining_tick := init_tick th, stat := stat th OR RT_THREAD_STAT_YIELD\<rparr>"
    let ?k2 = "upd_thread c ?f ?k1"
    have nr1: "tstate ?k1 c \<noteq> RT_THREAD_READY" using nr by simp
    have p2: "kernel_ok lo ?k2" "tstate ?k2 u = tstate ?k1 u" "asleep d u ?k2 = asleep d u ?k1" for u d
      by (rule plain_update [OF p1(1) nr1]; simp)+
    have c2: "rt_current_thread ?k2 = Some c" using assms(2) by simp
    obtain k' c' where k': "rt_schedule ?k2 = Some k'" "kernel_ok lo k'" "rescheduled ?k2 k'" "rt_current_thread k' = Some c'"
      "rt_scheduler_lock_nest ?k2 = 0 \<longrightarrow> highest_runs k'" "\<forall>d u. asleep d u ?k2 \<longrightarrow> asleep d u k'"
      by (rule schedule_ok [OF p2(1) c2])
    have e: "time_slice k = Some k'" using assms(2) True k'(1) by (simp add: time_slice_def rt_thread_yield_def Let_def)
    have "runnable k' t = runnable k t" for t
      using rescheduled_thread(8) [OF k'(3), of t] runnable_cong [OF p2(2), of t] runnable_cong [of ?k1 t k] by simp
    moreover have "timers k' = timers k" "rt_timer_list k' = rt_timer_list k" "rt_tick k' = rt_tick k"
      using timers_frame.frame_schedule [OF k'(1)] timer_list_frame.frame_schedule [OF k'(1)] tick_frame.frame_schedule [OF k'(1)]
      by simp_all
    ultimately show ?thesis using e k' p1(3) p2(3) by (intro that [of k']) auto
  qed
qed

section \<open>The handler\<close>

lemma asleep_tick: "asleep d u (k\<lparr>rt_tick := n\<rparr>) = asleep d u k"
  by (simp add: asleep_def)

lemma tick_ok:
  assumes "kernel_ok 0 k" "rt_current_thread k \<noteq> None" "callbacks_ok usr"
  obtains k' where "rt_tick_increase usr k = Some k'" "kernel_ok 1 k'" "rt_current_thread k' \<noteq> None" "rt_tick k' = rt_tick k + 1"
    "callbacks_quiet usr \<longrightarrow> (\<forall>t. runnable k t \<longrightarrow> runnable k' t) \<and>
       (\<forall>d t. asleep d t k \<longrightarrow> (if sint (d - rt_tick k) \<le> 1 then runnable k' t else asleep d t k'))"
proof -
  let ?k = "k\<lparr>rt_tick := rt_tick k + 1\<rparr>"
  obtain c where "rt_current_thread ?k = Some c" using assms(2) by auto
  then obtain k1 where k1: "time_slice ?k = Some k1" "kernel_ok (- 1) k1" "rt_current_thread k1 \<noteq> None"
    "\<forall>t. runnable k1 t = runnable ?k t" "\<forall>d u. asleep d u ?k \<longrightarrow> asleep d u k1"
    "timers k1 = timers ?k" "rt_timer_list k1 = rt_timer_list ?k" "rt_tick k1 = rt_tick ?k"
    by (rule time_slice_ok [OF tick_advance [OF assms(1)]])
  obtain k' where k': "timer_check_loop usr (rt_tick k1) k1 = Some k'" "kernel_ok 1 k'" "rt_current_thread k' \<noteq> None"
    "rt_tick k' = rt_tick k1" and q: "callbacks_quiet usr \<longrightarrow> (\<forall>t. Thread_timer t \<in> due k1 \<longrightarrow> runnable k' t) \<and>
      (\<forall>t. runnable k1 t \<longrightarrow> runnable k' t) \<and> (\<forall>d t. asleep d t k1 \<longrightarrow> Thread_timer t \<notin> due k1 \<longrightarrow> asleep d t k')"
    using check_loop [OF k1(2,3) assms(3)] by blast
  have dt: "Thread_timer t \<in> due k1 \<longleftrightarrow> sint (d - rt_tick k) \<le> 1" if "asleep d t k" for d t
  proof -
    have l: "Thread_timer t \<in> set (rt_timer_list k)" "timeout_tick (timers k (Thread_timer t)) = d"
      using that by (simp_all add: asleep_def)
    have "due_in k1 (Thread_timer t) = due_in ?k (Thread_timer t)" using k1(6,8) by (simp add: due_in_def)
    also have "\<dots> = sint (d - rt_tick k) - 1"
      using due_in_tick [of k "Thread_timer t"] kernel_okD(3) [OF assms(1)] l by (auto simp: timer_window_def due_in_def)
    finally show ?thesis using l(1) k1(7) by (simp add: due_def)
  qed
  have "(\<forall>t. runnable k t \<longrightarrow> runnable k' t) \<and>
       (\<forall>d t. asleep d t k \<longrightarrow> (if sint (d - rt_tick k) \<le> 1 then runnable k' t else asleep d t k'))" if "callbacks_quiet usr"
    using mp [OF q that] k1(4,5) dt by (auto simp: asleep_tick runnable_def)
  moreover have "rt_tick_increase usr k = Some k'" using k1(1) k'(1) by (simp add: rt_tick_increase_def rt_timer_check_def)
  ultimately show ?thesis using k' k1(8) by (intro that [of k']) auto
qed

lemma systick_ok:
  assumes "kernel_ok 0 k" "rt_current_thread k \<noteq> None" "callbacks_ok usr"
  obtains k' where "SysTick_Handler usr k = Some k'" "kernel_ok 1 k'" "rt_current_thread k' \<noteq> None" "rt_tick k' = rt_tick k + 1"
    "callbacks_quiet usr \<longrightarrow> (\<forall>t. runnable k t \<longrightarrow> runnable k' t) \<and>
       (\<forall>d t. asleep d t k \<longrightarrow> (if sint (d - rt_tick k) \<le> 1 then runnable k' t else asleep d t k'))"
proof -
  have "kernel_ok 0 (rt_interrupt_enter k)" "rt_current_thread (rt_interrupt_enter k) \<noteq> None"
    using assms(1,2) by (simp_all add: rt_interrupt_enter_def)
  then obtain k1 where k1: "rt_tick_increase usr (rt_interrupt_enter k) = Some k1" "kernel_ok 1 k1" "rt_current_thread k1 \<noteq> None"
    "rt_tick k1 = rt_tick (rt_interrupt_enter k) + 1"
    "callbacks_quiet usr \<longrightarrow> (\<forall>t. runnable (rt_interrupt_enter k) t \<longrightarrow> runnable k1 t) \<and>
       (\<forall>d t. asleep d t (rt_interrupt_enter k) \<longrightarrow>
         (if sint (d - rt_tick (rt_interrupt_enter k)) \<le> 1 then runnable k1 t else asleep d t k1))"
    by (rule tick_ok [OF _ _ assms(3)])
  have "SysTick_Handler usr k = Some (rt_interrupt_leave k1)" using k1(1) by (simp add: SysTick_Handler_def)
  then show ?thesis
    using k1(2-) by (intro that [of "rt_interrupt_leave k1"]) (simp_all add: rt_interrupt_leave_def rt_interrupt_enter_def)
qed

end
