(* ===== verification/Ipc_Defs.thy ===== *)
theory Ipc_Defs
  imports Kernel_Defs
begin

text \<open>
  Semaphores and mutexes of \<open>ipc.c\<close>. The threads waiting for an object are linked in its list
  \<open>suspend_thread\<close>, which is \<open>Suspend\<close> of the object here.

  \<open>rt_sem_take\<close> and \<open>rt_mutex_take\<close> are split at \<open>rt_schedule\<close>: the result \<open>Some e\<close> of the first part is a call
  that returns \<open>e\<close>, the result \<open>None\<close> one that has given up the processor; what it does when its
  thread runs again is the second part.
\<close>

abbreviation (input) RT_IPC_FLAG_FIFO :: u8 where "RT_IPC_FLAG_FIFO \<equiv> 0"
abbreviation (input) RT_IPC_FLAG_PRIO :: u8 where "RT_IPC_FLAG_PRIO \<equiv> 1"
abbreviation (input) RT_IPC_CMD_RESET :: int where "RT_IPC_CMD_RESET \<equiv> 1"

definition upd_sem :: "nat \<Rightarrow> (rt_semaphore \<Rightarrow> rt_semaphore) \<Rightarrow> kernel \<Rightarrow> kernel" where
  "upd_sem s f k = k\<lparr>sems := (sems k)(s := f (sems k s))\<rparr>"

definition upd_mutex :: "nat \<Rightarrow> (rt_mutex \<Rightarrow> rt_mutex) \<Rightarrow> kernel \<Rightarrow> kernel" where
  "upd_mutex m f k = k\<lparr>mutexes := (mutexes k)(m := f (mutexes k m))\<rparr>"

section \<open>Lists of waiting threads\<close>

definition rt_ipc_object_init :: "ipc_ref \<Rightarrow> kernel \<Rightarrow> kernel" where
  "rt_ipc_object_init p k = k\<lparr>tlist := (tlist k)(Suspend p := [])\<rparr>"

fun prio_insert :: "(tid \<Rightarrow> rt_thread) \<Rightarrow> tid \<Rightarrow> tid list \<Rightarrow> tid list" where
  "prio_insert th t [] = [t]"
| "prio_insert th t (s # ss) =
    (if current_priority (th t) < current_priority (th s) then t # s # ss else s # prio_insert th t ss)"

definition rt_ipc_list_suspend :: "list_head \<Rightarrow> tid \<Rightarrow> u8 \<Rightarrow> kernel \<Rightarrow> kernel option" where
  "rt_ipc_list_suspend h t flg k = do {
     (_, k) \<leftarrow> rt_thread_suspend t k;
     Some (if flg = RT_IPC_FLAG_FIFO then k\<lparr>tlist := (tlist k)(h := tlist k h @ [t])\<rparr>
           else if flg = RT_IPC_FLAG_PRIO then k\<lparr>tlist := (tlist k)(h := prio_insert (threads k) t (tlist k h))\<rparr>
           else k)
   }"

definition rt_ipc_list_resume :: "list_head \<Rightarrow> kernel \<Rightarrow> kernel option" where
  "rt_ipc_list_resume h k =
    (case tlist k h of [] \<Rightarrow> None | t # _ \<Rightarrow> map_option snd (rt_thread_resume t k))"

partial_function (option) rt_ipc_list_resume_all :: "list_head \<Rightarrow> kernel \<Rightarrow> kernel option" where
  "rt_ipc_list_resume_all h k =
    (case tlist k h of
       [] \<Rightarrow> Some k
     | t # _ \<Rightarrow> do {
         (_, k) \<leftarrow> rt_thread_resume t (upd_thread t (\<lambda>th. th\<lparr>error := - RT_ERROR\<rparr>) k);
         rt_ipc_list_resume_all h k
       })"

text \<open>A waiting call: with a time limit it starts the timer of the thread before it gives up the processor.\<close>

definition ipc_wait :: "tid \<Rightarrow> int \<Rightarrow> kernel \<Rightarrow> kernel option" where
  "ipc_wait t time k =
    (let k = if time > 0
             then rt_timer_start (Thread_timer t)
                    (snd (rt_timer_control (Thread_timer t) RT_TIMER_CTRL_SET_TIME (of_int time) k))
             else k
     in rt_schedule k)"

section \<open>Semaphores\<close>

definition rt_sem_init :: "nat \<Rightarrow> string \<Rightarrow> u32 \<Rightarrow> u8 \<Rightarrow> kernel \<Rightarrow> (int \<times> kernel) option" where
  "rt_sem_init s nm value flg k = do {
     k \<leftarrow> rt_object_init (Ipc_obj (Sem s)) RT_Object_Class_Semaphore nm k;
     let k = rt_ipc_object_init (Sem s) k;
     Some (RT_EOK, upd_sem s (\<lambda>_. \<lparr>sem_flag = flg, sem_value = ucast value\<rparr>) k)
   }"

definition rt_sem_detach :: "nat \<Rightarrow> kernel \<Rightarrow> (int \<times> kernel) option" where
  "rt_sem_detach s k = do {
     k \<leftarrow> rt_ipc_list_resume_all (Suspend (Sem s)) k;
     Some (RT_EOK, rt_object_detach (Ipc_obj (Sem s)) k)
   }"

definition rt_sem_take :: "nat \<Rightarrow> int \<Rightarrow> kernel \<Rightarrow> (int option \<times> kernel) option" where
  "rt_sem_take s time k =
    (if sem_value (sems k s) > 0
     then Some (Some RT_EOK, upd_sem s (\<lambda>sm. sm\<lparr>sem_value := sem_value sm - 1\<rparr>) k)
     else if time = 0 then Some (Some (- RT_ETIMEOUT), k)
     else do {
       t \<leftarrow> rt_current_thread k;
       let k = upd_thread t (\<lambda>th. th\<lparr>error := RT_EOK\<rparr>) k;
       k \<leftarrow> rt_ipc_list_suspend (Suspend (Sem s)) t (sem_flag (sems k s)) k;
       k \<leftarrow> ipc_wait t time k;
       Some (None, k)
     })"

definition rt_sem_take_after :: "tid \<Rightarrow> kernel \<Rightarrow> int" where
  "rt_sem_take_after t k = (if error (threads k t) \<noteq> RT_EOK then error (threads k t) else RT_EOK)"

definition rt_sem_trytake :: "nat \<Rightarrow> kernel \<Rightarrow> (int option \<times> kernel) option" where
  "rt_sem_trytake s k = rt_sem_take s 0 k"

definition rt_sem_release :: "nat \<Rightarrow> kernel \<Rightarrow> (int \<times> kernel) option" where
  "rt_sem_release s k =
    (if tlist k (Suspend (Sem s)) \<noteq> []
     then do {
       k \<leftarrow> rt_ipc_list_resume (Suspend (Sem s)) k;
       k \<leftarrow> rt_schedule k;
       Some (RT_EOK, k)
     }
     else Some (RT_EOK, upd_sem s (\<lambda>sm. sm\<lparr>sem_value := sem_value sm + 1\<rparr>) k))"

definition rt_sem_control :: "nat \<Rightarrow> int \<Rightarrow> u32 \<Rightarrow> kernel \<Rightarrow> (int \<times> kernel) option" where
  "rt_sem_control s cmd arg k =
    (if cmd = RT_IPC_CMD_RESET
     then do {
       k \<leftarrow> rt_ipc_list_resume_all (Suspend (Sem s)) k;
       k \<leftarrow> rt_schedule (upd_sem s (\<lambda>sm. sm\<lparr>sem_value := ucast arg\<rparr>) k);
       Some (RT_EOK, k)
     }
     else Some (- RT_ERROR, k))"

section \<open>Mutexes\<close>

definition rt_mutex_init :: "nat \<Rightarrow> string \<Rightarrow> u8 \<Rightarrow> kernel \<Rightarrow> (int \<times> kernel) option" where
  "rt_mutex_init m nm flg k = do {
     k \<leftarrow> rt_object_init (Ipc_obj (Mutex m)) RT_Object_Class_Mutex nm k;
     let k = rt_ipc_object_init (Mutex m) k;
     Some (RT_EOK, upd_mutex m (\<lambda>_. \<lparr>mx_flag = flg, mx_value = 1, original_priority = 0xff, hold = 0, owner = None\<rparr>) k)
   }"

definition rt_mutex_detach :: "nat \<Rightarrow> kernel \<Rightarrow> (int \<times> kernel) option" where
  "rt_mutex_detach m k = do {
     k \<leftarrow> rt_ipc_list_resume_all (Suspend (Mutex m)) k;
     Some (RT_EOK, rt_object_detach (Ipc_obj (Mutex m)) k)
   }"

text \<open>The code of \<open>rt_mutex_take\<close> from the label \<open>__again\<close>, for the calling thread \<open>t\<close>.\<close>

definition mutex_take_again :: "nat \<Rightarrow> int \<Rightarrow> tid \<Rightarrow> kernel \<Rightarrow> (int option \<times> kernel) option" where
  "mutex_take_again m time t k =
    (let mx = mutexes k m; prio = current_priority (threads k t) in
     if mx_value mx > 0
     then Some (Some RT_EOK, upd_mutex m (\<lambda>mx. mx\<lparr>mx_value := mx_value mx - 1, owner := Some t,
                  original_priority := prio, hold := hold mx + 1\<rparr>) k)
     else if time = 0
     then Some (Some (- RT_ETIMEOUT), upd_thread t (\<lambda>th. th\<lparr>error := - RT_ETIMEOUT\<rparr>) k)
     else do {
       ow \<leftarrow> owner mx;
       k \<leftarrow> (if prio < current_priority (threads k ow)
            then map_option snd (rt_thread_control ow RT_THREAD_CTRL_CHANGE_PRIORITY prio k) else Some k);
       k \<leftarrow> rt_ipc_list_suspend (Suspend (Mutex m)) t (mx_flag mx) k;
       k \<leftarrow> ipc_wait t time k;
       Some (None, k)
     })"

definition rt_mutex_take :: "nat \<Rightarrow> int \<Rightarrow> kernel \<Rightarrow> (int option \<times> kernel) option" where
  "rt_mutex_take m time k = do {
     t \<leftarrow> rt_current_thread k;
     let k = upd_thread t (\<lambda>th. th\<lparr>error := RT_EOK\<rparr>) k;
     if owner (mutexes k m) = Some t
     then Some (Some RT_EOK, upd_mutex m (\<lambda>mx. mx\<lparr>hold := hold mx + 1\<rparr>) k)
     else mutex_take_again m time t k
   }"

definition rt_mutex_take_after :: "nat \<Rightarrow> int \<Rightarrow> tid \<Rightarrow> kernel \<Rightarrow> (int option \<times> kernel) option" where
  "rt_mutex_take_after m time t k =
    (let e = error (threads k t) in
     if e \<noteq> RT_EOK
     then if e = - RT_EINTR then mutex_take_again m time t k else Some (Some e, k)
     else Some (Some RT_EOK, k))"

definition mutex_handover :: "nat \<Rightarrow> kernel \<Rightarrow> (bool \<times> kernel) option" where
  "mutex_handover m k =
    (case tlist k (Suspend (Mutex m)) of
       t # _ \<Rightarrow> do {
         let k = upd_mutex m (\<lambda>mx. mx\<lparr>owner := Some t,
                   original_priority := current_priority (threads k t), hold := hold mx + 1\<rparr>) k;
         k \<leftarrow> rt_ipc_list_resume (Suspend (Mutex m)) k;
         Some (True, k)
       }
     | [] \<Rightarrow> Some (False, upd_mutex m (\<lambda>mx. mx\<lparr>mx_value := mx_value mx + 1, owner := None, original_priority := 0xff\<rparr>) k))"

definition rt_mutex_release :: "nat \<Rightarrow> kernel \<Rightarrow> (int \<times> kernel) option" where
  "rt_mutex_release m k = do {
     t \<leftarrow> rt_current_thread k;
     if owner (mutexes k m) \<noteq> Some t
     then Some (- RT_ERROR, upd_thread t (\<lambda>th. th\<lparr>error := - RT_ERROR\<rparr>) k)
     else do {
       let k = upd_mutex m (\<lambda>mx. mx\<lparr>hold := hold mx - 1\<rparr>) k;
       if hold (mutexes k m) = 0
       then do {
         k \<leftarrow> (if original_priority (mutexes k m) \<noteq> current_priority (threads k t)
              then map_option snd (rt_thread_control t RT_THREAD_CTRL_CHANGE_PRIORITY (original_priority (mutexes k m)) k)
              else Some k);
         (need_schedule, k) \<leftarrow> mutex_handover m k;
         k \<leftarrow> (if need_schedule then rt_schedule k else Some k);
         Some (RT_EOK, k)
       }
       else Some (RT_EOK, k)
     }
   }"

definition rt_mutex_control :: "nat \<Rightarrow> int \<Rightarrow> u32 \<Rightarrow> kernel \<Rightarrow> int \<times> kernel" where
  "rt_mutex_control m cmd arg k = (- RT_ERROR, k)"

end
