(* ===== verification/Ipc_Ops.thy ===== *)
theory Ipc_Ops
  imports Tick Ipc_Defs
begin

text \<open>
  Semaphores and mutexes. Their invariants speak of the lists of waiting threads, which the rest of the kernel can only
  shorten; the locale \<open>waiting\<close> states this once for every operation.
\<close>

section \<open>Properties the rest of the kernel keeps\<close>

locale waiting =
  fixes P :: "kernel \<Rightarrow> bool"
  assumes p_threads: "P (k\<lparr>threads := a\<rparr>) = P k" and p_group: "P (k\<lparr>rt_thread_ready_priority_group := g\<rparr>) = P k"
    and p_current: "P (k\<lparr>rt_current_thread := c\<rparr>) = P k" and p_priority: "P (k\<lparr>rt_current_priority := p\<rparr>) = P k"
    and p_timers: "P (k\<lparr>timers := ti\<rparr>) = P k" and p_list: "P (k\<lparr>rt_timer_list := l\<rparr>) = P k"
    and p_objects: "P (k\<lparr>objects := ob\<rparr>) = P k" and p_object_list: "P (k\<lparr>object_list := ol\<rparr>) = P k"
    and p_tick: "P (k\<lparr>rt_tick := n\<rparr>) = P k" and p_nest: "P (k\<lparr>rt_interrupt_nest := i\<rparr>) = P k"
    and p_lock: "P (k\<lparr>rt_scheduler_lock_nest := s\<rparr>) = P k" and p_mem: "P (k\<lparr>mem := me\<rparr>) = P k"
    and p_ready: "P k \<Longrightarrow> P (k\<lparr>tlist := (tlist k)(Ready j := q)\<rparr>)"
    and p_defunct: "P k \<Longrightarrow> P (k\<lparr>tlist := (tlist k)(Defunct := q)\<rparr>)"
    and p_remove: "P k \<Longrightarrow> P (tlist_remove t k)"
begin

sublocale timer_frame P
  by unfold_locales (rule p_timers p_list)+

lemma keep_upd_thread: "P (upd_thread t f k) = P k"
  by (simp add: upd_thread_def p_threads)

lemma keep_insert: "rt_schedule_insert_thread t k = Some k' \<Longrightarrow> P k \<Longrightarrow> P k'"
  using p_ready [of "upd_thread t (\<lambda>th. th\<lparr>stat := RT_THREAD_READY OR (stat th AND NOT RT_THREAD_STAT_MASK)\<rparr>) k"]
  by (auto simp: rt_schedule_insert_thread_def Let_def keep_upd_thread p_group split: if_splits)

lemma keep_remove: "rt_schedule_remove_thread t k = Some k' \<Longrightarrow> P k \<Longrightarrow> P k'"
  by (auto simp: rt_schedule_remove_thread_def Let_def p_group p_remove split: if_splits)

lemma keep_choice: "schedule_choice cur to hp k = (t, b, k') \<Longrightarrow> P k' = P k"
  by (auto simp: schedule_choice_def Let_def keep_upd_thread split: if_splits)

lemma keep_schedule: "rt_schedule k = Some k' \<Longrightarrow> P k \<Longrightarrow> P k'"
  by (auto simp: rt_schedule_def Let_def keep_upd_thread p_current p_priority
      split: if_splits bind_splits prod.splits dest!: keep_choice keep_insert keep_remove)

lemma keep_set_priority: "set_priority t p k = Some k' \<Longrightarrow> P k' = P k"
  by (auto simp: set_priority_def keep_upd_thread split: if_splits)

lemma keep_suspend: "rt_thread_suspend t k = Some (e, k') \<Longrightarrow> P k \<Longrightarrow> P k'"
  by (auto simp: rt_thread_suspend_def Let_def frame_timer_stop keep_upd_thread split: if_splits bind_splits dest!: keep_remove)

lemma keep_resume: "rt_thread_resume t k = Some (e, k') \<Longrightarrow> P k \<Longrightarrow> P k'"
  by (auto simp: rt_thread_resume_def Let_def frame_timer_stop p_remove split: if_splits bind_splits dest!: keep_insert)

lemma keep_block: "thread_block t n k = Some k' \<Longrightarrow> P k \<Longrightarrow> P k'"
  by (auto simp: thread_block_def Let_def frame_timer_start frame_timer_control split: bind_splits dest!: keep_suspend keep_schedule)

lemma keep_startup: "rt_thread_startup t k = Some (e, k') \<Longrightarrow> P k \<Longrightarrow> P k'"
  by (auto simp: rt_thread_startup_def Let_def keep_upd_thread split: bind_splits if_splits
      dest!: keep_set_priority keep_resume keep_schedule)

lemma keep_change_priority: "rt_thread_control t RT_THREAD_CTRL_CHANGE_PRIORITY p k = Some (e, k') \<Longrightarrow> P k \<Longrightarrow> P k'"
  by (auto simp: rt_thread_control_def split: bind_splits if_splits dest!: keep_set_priority keep_insert keep_remove)

lemma keep_object_detach: "P (rt_object_detach ob k) = P k"
  by (simp add: rt_object_detach_def p_object_list p_objects)

lemma keep_release: "P k \<Longrightarrow> P (thread_release t k)"
  by (simp add: thread_release_def keep_object_detach p_defunct)

lemma keep_timer_detach: "P (rt_timer_detach tm k) = P k"
  by (simp add: rt_timer_detach_def keep_object_detach frame_timer_remove)

lemma keep_detach: "rt_thread_detach t k = Some (e, k') \<Longrightarrow> P k \<Longrightarrow> P k'"
  by (auto simp: rt_thread_detach_def Let_def keep_upd_thread keep_timer_detach split: bind_splits if_splits
      intro!: keep_release dest!: keep_remove)

lemma keep_delete: "rt_thread_delete t k = Some (e, k') \<Longrightarrow> P k \<Longrightarrow> P k'"
  by (auto simp: rt_thread_delete_def Let_def split: bind_splits if_splits dest!: keep_remove)
    (rule p_defunct [where k = "upd_thread t f k1" for f k1, simplified]; simp add: keep_upd_thread keep_timer_detach)+

lemma keep_exit: "rt_thread_exit k = Some k' \<Longrightarrow> P k \<Longrightarrow> P k'"
  by (auto simp: rt_thread_exit_def Let_def split: bind_splits
      elim!: keep_schedule intro!: keep_release simp: keep_timer_detach keep_upd_thread dest!: keep_remove)

lemma keep_timeout: "rt_thread_timeout t k = Some k' \<Longrightarrow> P k \<Longrightarrow> P k'"
  by (auto simp: rt_thread_timeout_def Let_def keep_upd_thread p_remove split: bind_splits dest!: keep_insert keep_schedule)

lemma keep_time_slice: "time_slice k = Some k' \<Longrightarrow> P k \<Longrightarrow> P k'"
  by (auto simp: time_slice_def rt_thread_yield_def Let_def keep_upd_thread split: bind_splits if_splits dest!: keep_schedule)

lemma keep_exit_critical: "rt_exit_critical k = Some k' \<Longrightarrow> P k \<Longrightarrow> P k'"
  by (auto simp: rt_exit_critical_def Let_def p_lock split: if_splits dest!: keep_schedule)

lemma keep_object_init: "rt_object_init ob ty nm k = Some k' \<Longrightarrow> P k \<Longrightarrow> P k'"
  using p_objects p_object_list
  by (auto simp: rt_object_init_def rt_enter_critical_def p_lock split: bind_splits dest!: keep_exit_critical)

lemma keep_check:
  assumes "\<And>f p k k'. usr f p k = Some k' \<Longrightarrow> P k \<Longrightarrow> P k'"
  shows "timer_check_loop usr n k = Some k' \<Longrightarrow> P k \<Longrightarrow> P k'"
proof -
  have call: "call_timeout usr tm k = Some k' \<Longrightarrow> P k \<Longrightarrow> P k'" for tm k k'
    using assms by (auto simp: call_timeout_def split: timeout_fn.splits dest: keep_timeout)
  have "usr' = usr \<longrightarrow> P k \<longrightarrow> P k'" if "timer_check_loop usr' n k = Some k'" for usr' n k k'
  proof (rule timer_check_loop.raw_induct [OF _ that, where P = "\<lambda>u n k k'. u = usr \<longrightarrow> P k \<longrightarrow> P k'"])
    fix loop and u :: "u32 \<Rightarrow> nat \<Rightarrow> kernel \<Rightarrow> kernel option" and n :: u32 and k k' :: kernel
    assume ih: "\<And>u n k k'. loop u n k = Some k' \<Longrightarrow> u = usr \<longrightarrow> P k \<longrightarrow> P k'"
      and body: "(case rt_timer_list k of [] \<Rightarrow> Some k
        | tm # _ \<Rightarrow> if n - timeout_tick (timers k tm) < RT_TICK_MAX div 2
            then do { k \<leftarrow> call_timeout u tm (timer_remove tm k); loop u (rt_tick k) (timer_rearm tm k) } else Some k) = Some k'"
    show "u = usr \<longrightarrow> P k \<longrightarrow> P k'"
      using body by (auto simp: frame_timer_remove frame_timer_rearm split: list.splits if_splits bind_splits
          dest!: ih dest: call)
  qed
  then show "timer_check_loop usr n k = Some k' \<Longrightarrow> P k \<Longrightarrow> P k'" by blast
qed

lemma keep_systick:
  assumes "\<And>f p k k'. usr f p k = Some k' \<Longrightarrow> P k \<Longrightarrow> P k'" "SysTick_Handler usr k = Some k'" "P k"
  shows "P k'"
proof -
  obtain k1 k2 where k: "time_slice ((rt_interrupt_enter k)\<lparr>rt_tick := rt_tick (rt_interrupt_enter k) + 1\<rparr>) = Some k1"
    "timer_check_loop usr (rt_tick k1) k1 = Some k2" "k' = rt_interrupt_leave k2"
    using assms(2) by (auto simp: SysTick_Handler_def rt_tick_increase_def rt_timer_check_def split: bind_splits)
  have "P k1" using keep_time_slice [OF k(1)] assms(3) by (simp add: rt_interrupt_enter_def p_nest p_tick)
  with assms(1) k(2) have "P k2" by (rule keep_check)
  then show ?thesis by (simp add: k(3) rt_interrupt_leave_def p_nest)
qed

end

section \<open>The invariants\<close>

definition sem_ok :: "kernel \<Rightarrow> bool" where
  "sem_ok k \<longleftrightarrow> (\<forall>s. 0 < sem_value (sems k s) \<longrightarrow> tlist k (Suspend (Sem s)) = [])"

definition mutex_free :: "rt_mutex \<Rightarrow> bool" where
  "mutex_free mx \<longleftrightarrow> mx_value mx = 1 \<and> owner mx = None \<and> hold mx = 0"

definition mutex_held :: "rt_mutex \<Rightarrow> bool" where
  "mutex_held mx \<longleftrightarrow> mx_value mx = 0 \<and> owner mx \<noteq> None \<and> hold mx \<noteq> 0 \<and> unat (original_priority mx) < 32"

definition mutex_ok :: "kernel \<Rightarrow> bool" where
  "mutex_ok k \<longleftrightarrow> (\<forall>m. mutex_free (mutexes k m) \<and> tlist k (Suspend (Mutex m)) = [] \<or> mutex_held (mutexes k m))"

interpretation sem_keep: waiting sem_ok
  by unfold_locales (auto simp: sem_ok_def)

interpretation mutex_keep: waiting mutex_ok
  by unfold_locales (simp_all add: mutex_ok_def, metis removeAll.simps(1))

interpretation no_waiter: waiting "\<lambda>k. tlist k (Suspend p) = []"
  by unfold_locales simp_all

end
