(* ===== verification/Ipc_Wait.thy ===== *)
theory Ipc_Wait
  imports Ipc_Ops
begin

text \<open>
  Waiting and waking: the operations on the list of waiting threads that semaphores and mutexes share.
\<close>

definition running :: "kernel \<Rightarrow> tid \<Rightarrow> bool" where
  "running k t \<longleftrightarrow> rt_current_thread k = Some t \<and> tstate k t = RT_THREAD_RUNNING"

text \<open>The values of the argument \<open>time\<close> that the timers support: no limit, or less than half the range of the tick.\<close>

definition wait_time_ok :: "int \<Rightarrow> bool" where
  "wait_time_ok time \<longleftrightarrow> time < 0x7fffffff"

lemma running_runnable: "running k t \<Longrightarrow> runnable k t"
  by (simp add: running_def runnable_def)

lemma word_of_time: "0 < time \<Longrightarrow> time < 0x7fffffff \<Longrightarrow> (word_of_int time :: u32) < 0x7fffffff"
  by (simp add: word_less_alt uint_word_of_int)

section \<open>Insertion by priority\<close>

lemma set_prio_insert [simp]: "set (prio_insert th t ts) = insert t (set ts)"
  by (induction ts) auto

lemma distinct_prio_insert: "t \<notin> set ts \<Longrightarrow> distinct ts \<Longrightarrow> distinct (prio_insert th t ts)"
  by (induction ts) auto

text \<open>Threads of the same or a higher priority stay in front.\<close>

lemma prio_insert_split:
  "prio_insert th t ts = takeWhile (\<lambda>s. current_priority (th s) \<le> current_priority (th t)) ts @ t #
     dropWhile (\<lambda>s. current_priority (th s) \<le> current_priority (th t)) ts"
  by (induction ts) (auto simp: not_less)

lemma prio_insert_sorted:
  assumes "sorted (map (\<lambda>s. current_priority (th s)) ts)"
  shows "sorted (map (\<lambda>s. current_priority (th s)) (prio_insert th t ts))"
  using assms
proof (induction ts)
  case (Cons a ts)
  then show ?case by (auto simp: not_less)
qed simp

section \<open>Waiting\<close>

text \<open>The list after \<open>rt_ipc_list_suspend\<close>.\<close>

definition queue_insert :: "u8 \<Rightarrow> (tid \<Rightarrow> rt_thread) \<Rightarrow> tid \<Rightarrow> tid list \<Rightarrow> tid list" where
  "queue_insert flg th t ts = (if flg = RT_IPC_FLAG_FIFO then ts @ [t] else if flg = RT_IPC_FLAG_PRIO then prio_insert th t ts else ts)"

definition ipc_flag_ok :: "u8 \<Rightarrow> bool" where
  "ipc_flag_ok flg \<longleftrightarrow> flg = RT_IPC_FLAG_FIFO \<or> flg = RT_IPC_FLAG_PRIO"

lemma set_queue_insert: "ipc_flag_ok flg \<Longrightarrow> set (queue_insert flg th t ts) = insert t (set ts)"
  by (auto simp: queue_insert_def ipc_flag_ok_def)

lemma distinct_queue_insert: "t \<notin> set ts \<Longrightarrow> distinct ts \<Longrightarrow> distinct (queue_insert flg th t ts)"
  by (auto simp: queue_insert_def distinct_prio_insert)

lemma enqueue_ok:
  assumes "kernel_ok lo k" "tstate k t = RT_THREAD_SUSPEND" "\<And>h. t \<notin> set (tlist k h)"
    "set l = insert t (set (tlist k (Suspend p)))" "distinct l"
  shows "kernel_ok lo (k\<lparr>tlist := (tlist k)(Suspend p := l)\<rparr>)" (is "kernel_ok lo ?k")
    and "asleep d u k \<Longrightarrow> u \<noteq> t \<Longrightarrow> asleep d u (k\<lparr>tlist := (tlist k)(Suspend p := l)\<rparr>)"
proof -
  note ok = kernel_okD [OF assms(1)]
  have "thread_ok ?k u = thread_ok k u" for u by (rule thread_ok_cong) simp_all
  moreover have "queues_ok ?k" using ok(1) assms(3-5) by (auto simp: sched_but_def queues_ok_def)
  moreover have "group_ok ?k" using ok(1) by (simp add: sched_but_def group_ok_def)
  moreover have "place_ok h (threads ?k u)" if "u \<in> set (tlist ?k h)" for h u
    using that in_list_place [OF ok(1), of u h] assms(2,4) by (cases "h = Suspend p \<and> u = t") (auto simp: place_ok_def split: if_splits)
  ultimately have "sched_ok ?k" using ok(1) by (simp add: sched_but_def)
  moreover have "cur_ok ?k" using ok(2) by (simp add: cur_ok_def)
  moreover have "timer_window lo ?k" by (rule window_sched [OF ok(3)]) simp_all
  moreover have "timer_links ?k" by (rule links_same_state [OF ok(4)]) simp_all
  ultimately show "kernel_ok lo ?k" by (simp add: kernel_ok_def)
  show "asleep d u k \<Longrightarrow> u \<noteq> t \<Longrightarrow> asleep d u ?k" using assms(4) by (auto simp: asleep_def)
qed

lemma ipc_suspend_ok:
  assumes "kernel_ok lo k" "runnable k t" "ipc_flag_ok flg"
  obtains k' where "rt_ipc_list_suspend (Suspend p) t flg k = Some k'" "kernel_ok lo k'" "tstate k' t = RT_THREAD_SUSPEND"
    "tlist k' (Suspend p) = queue_insert flg (threads k) t (tlist k (Suspend p))"
    "\<forall>q. q \<noteq> p \<longrightarrow> tlist k' (Suspend q) = tlist k (Suspend q)"
    "threads k' = (threads k)(t := (threads k t)\<lparr>stat := stat (threads k' t)\<rparr>)"
    "rt_current_thread k' = rt_current_thread k" "\<forall>d u. asleep d u k \<longrightarrow> asleep d u k'"
proof -
  obtain k1 where k1: "rt_thread_suspend t k = Some (RT_EOK, k1)" "kernel_ok lo k1" "tstate k1 t = RT_THREAD_SUSPEND"
    "threads k1 = (threads k)(t := (threads k t)\<lparr>stat := stat (threads k1 t)\<rparr>)"
    "tlist k1 = (\<lambda>h. removeAll t (tlist k h))" "rt_current_thread k1 = rt_current_thread k"
    "Thread_timer t \<notin> set (rt_timer_list k1)" "\<forall>d u. asleep d u k \<longrightarrow> asleep d u k1"
    by (rule suspend_ok [OF assms(1,2)])
  let ?l = "queue_insert flg (threads k1) t (tlist k1 (Suspend p))"
  let ?k = "k1\<lparr>tlist := (tlist k1)(Suspend p := ?l)\<rparr>"
  have n: "t \<notin> set (tlist k1 h)" for h using k1(5) by simp
  have rm: "removeAll t (tlist k (Suspend q)) = tlist k (Suspend q)" for q
    using in_list_place [OF kernel_okD(1) [OF assms(1)], of t "Suspend q"] assms(2)
    by (intro removeAll_id) (auto simp: place_ok_def runnable_def)
  have pr: "current_priority (threads k1 u) = current_priority (threads k u)" for u by (subst k1(4)) simp
  have "prio_insert (threads k1) t ts = prio_insert (threads k) t ts" for ts by (induction ts) (simp_all add: pr)
  then have l: "?l = queue_insert flg (threads k) t (tlist k (Suspend p))" using rm k1(5) by (simp add: queue_insert_def)
  have "distinct (tlist k1 (Suspend p))" using kernel_okD(1) [OF k1(2)] by (simp add: sched_but_def queues_ok_def)
  then have d: "distinct ?l" using n by (intro distinct_queue_insert)
  note en = enqueue_ok [OF k1(2,3) n set_queue_insert [OF assms(3)] d]
  have as: "asleep d u ?k" if "asleep d u k" for d u
  proof -
    have "u \<noteq> t" using that assms(2) by (auto simp: asleep_def runnable_def)
    then show ?thesis using en(2) k1(8) that by blast
  qed
  have "rt_ipc_list_suspend (Suspend p) t flg k = Some ?k"
    using k1(1) assms(3) by (auto simp: rt_ipc_list_suspend_def queue_insert_def ipc_flag_ok_def)
  then show ?thesis
    using en(1) l k1 rm as by (intro that [of ?k]) auto
qed

lemma ipc_wait_ok:
  assumes "kernel_ok lo k" "-1 \<le> lo" "lo \<le> 0" "tstate k t = RT_THREAD_SUSPEND" "rt_current_thread k \<noteq> None" "wait_time_ok time"
  obtains k' where "ipc_wait t time k = Some k'" "kernel_ok lo k'" "rescheduled k k'" "rt_current_thread k' \<noteq> None"
    "rt_scheduler_lock_nest k = 0 \<longrightarrow> highest_runs k'" "\<forall>d u. asleep d u k \<longrightarrow> u \<noteq> t \<longrightarrow> asleep d u k'"
    "0 < time \<longrightarrow> Thread_timer t \<in> set (rt_timer_list k') \<and> timeout_tick (timers k' (Thread_timer t)) = rt_tick k + of_int time"
    "time \<le> 0 \<longrightarrow> timers k' = timers k \<and> rt_timer_list k' = rt_timer_list k"
proof -
  let ?s = "rt_timer_start (Thread_timer t) (snd (rt_timer_control (Thread_timer t) RT_TIMER_CTRL_SET_TIME (of_int time) k))"
  let ?k1 = "if time > 0 then ?s else k"
  note w = timed_wait [OF assms(1-4), of "word_of_int time"]
  have k1: "kernel_ok lo ?k1" "threads ?k1 = threads k" "tlist ?k1 = tlist k" "rt_current_thread ?k1 = rt_current_thread k"
    "rt_scheduler_lock_nest ?k1 = rt_scheduler_lock_nest k"
    using w word_of_time assms(1,6) by (auto simp: wait_time_ok_def)
  have as: "asleep d u ?k1" if "asleep d u k" "u \<noteq> t" for d u
    using w(7) word_of_time assms(6) that by (auto simp: wait_time_ok_def)
  obtain c where "rt_current_thread ?k1 = Some c" using k1(4) assms(5) by auto
  then obtain k' c' where k': "rt_schedule ?k1 = Some k'" "kernel_ok lo k'" "rescheduled ?k1 k'" "rt_current_thread k' = Some c'"
      "rt_scheduler_lock_nest ?k1 = 0 \<longrightarrow> highest_runs k'" "\<forall>d u. asleep d u ?k1 \<longrightarrow> asleep d u k'"
    by (rule schedule_ok [OF k1(1)])
  note fr = timers_frame.frame_schedule [OF k'(1)] timer_list_frame.frame_schedule [OF k'(1)]
  have "rescheduled k k'" using k'(3) k1(2,3) unfolding rescheduled_def runnable_def by simp
  moreover have "0 < time \<longrightarrow> Thread_timer t \<in> set (rt_timer_list k') \<and>
      timeout_tick (timers k' (Thread_timer t)) = rt_tick k + of_int time"
    using w(5,6) word_of_time assms(6) fr by (auto simp: wait_time_ok_def)
  moreover have "ipc_wait t time k = Some k'" using k'(1) by (simp add: ipc_wait_def Let_def)
  ultimately show ?thesis using k' k1(5) as fr by (intro that [of k']) auto
qed

text \<open>A thread that waits: both parts together.\<close>

context thread_frame begin

lemma frame_list_suspend: "rt_ipc_list_suspend (Suspend p) t flg k = Some k' \<Longrightarrow> f k' = f k"
  by (auto simp: rt_ipc_list_suspend_def f_tlist split: bind_splits dest!: frame_suspend)

lemma frame_wait: "ipc_wait t time k = Some k' \<Longrightarrow> f k' = f k"
  by (auto simp: ipc_wait_def Let_def frame_timer_start frame_timer_control dest!: frame_schedule split: if_splits)

lemma frame_list_resume: "rt_ipc_list_resume (Suspend p) k = Some k' \<Longrightarrow> f k' = f k"
  by (auto simp: rt_ipc_list_resume_def split: list.splits dest!: frame_resume)

lemma frame_resume_all: "rt_ipc_list_resume_all h k = Some k' \<Longrightarrow> f k' = f k"
proof (rule rt_ipc_list_resume_all.raw_induct [where P = "\<lambda>h k k'. f k' = f k"])
  fix loop :: "list_head \<Rightarrow> kernel \<Rightarrow> kernel option" and h k k'
  assume ih: "\<And>h k k'. loop h k = Some k' \<Longrightarrow> f k' = f k"
    and body: "(case tlist k h of [] \<Rightarrow> Some k
      | t # _ \<Rightarrow> do { (_, k) \<leftarrow> rt_thread_resume t (upd_thread t (\<lambda>th. th\<lparr>error := - RT_ERROR\<rparr>) k); loop h k }) = Some k'"
  show "f k' = f k"
    using body by (auto simp: frame_upd_thread split: list.splits bind_splits dest!: frame_resume ih)
qed

end

lemma ipc_frames:
  assumes "rt_ipc_list_suspend (Suspend p) t flg k = Some k1" "ipc_wait t time k1 = Some k'"
  shows "sems k' = sems k" "mutexes k' = mutexes k" "rt_tick k' = rt_tick k"
  using sems_thread.frame_list_suspend [OF assms(1)] sems_thread.frame_wait [OF assms(2)]
    mutexes_thread.frame_list_suspend [OF assms(1)] mutexes_thread.frame_wait [OF assms(2)]
    tick_thread.frame_list_suspend [OF assms(1)] tick_thread.frame_wait [OF assms(2)] by simp_all

lemma wait_ok:
  assumes "kernel_ok lo k" "-1 \<le> lo" "lo \<le> 0" "running k t" "ipc_flag_ok flg" "wait_time_ok time"
  obtains k' where "do { k \<leftarrow> rt_ipc_list_suspend (Suspend p) t flg k; ipc_wait t time k } = Some k'" "kernel_ok lo k'"
    "tstate k' t = RT_THREAD_SUSPEND" "tlist k' (Suspend p) = queue_insert flg (threads k) t (tlist k (Suspend p))"
    "\<forall>q. q \<noteq> p \<longrightarrow> tlist k' (Suspend q) = tlist k (Suspend q)"
    "rt_current_thread k' \<noteq> None" "\<forall>d u. asleep d u k \<longrightarrow> asleep d u k'"
    "\<forall>u. threads k' u = (threads k u)\<lparr>stat := stat (threads k' u)\<rparr>"
    "rt_scheduler_lock_nest k = 0 \<longrightarrow> highest_runs k'"
    "0 < time \<longrightarrow> Thread_timer t \<in> set (rt_timer_list k') \<and> timeout_tick (timers k' (Thread_timer t)) = rt_tick k + of_int time"
proof -
  have r: "runnable k t" using assms(4) by (rule running_runnable)
  obtain k1 where k1: "rt_ipc_list_suspend (Suspend p) t flg k = Some k1" "kernel_ok lo k1" "tstate k1 t = RT_THREAD_SUSPEND"
    "tlist k1 (Suspend p) = queue_insert flg (threads k) t (tlist k (Suspend p))"
    "\<forall>q. q \<noteq> p \<longrightarrow> tlist k1 (Suspend q) = tlist k (Suspend q)"
    "threads k1 = (threads k)(t := (threads k t)\<lparr>stat := stat (threads k1 t)\<rparr>)"
    "rt_current_thread k1 = rt_current_thread k" "\<forall>d u. asleep d u k \<longrightarrow> asleep d u k1"
    by (rule ipc_suspend_ok [OF assms(1) r assms(5)])
  have "rt_current_thread k1 \<noteq> None" using k1(7) assms(4) by (simp add: running_def)
  then obtain k' where k': "ipc_wait t time k1 = Some k'" "kernel_ok lo k'" "rescheduled k1 k'" "rt_current_thread k' \<noteq> None"
    "rt_scheduler_lock_nest k1 = 0 \<longrightarrow> highest_runs k'" "\<forall>d u. asleep d u k1 \<longrightarrow> u \<noteq> t \<longrightarrow> asleep d u k'"
    "0 < time \<longrightarrow> Thread_timer t \<in> set (rt_timer_list k') \<and> timeout_tick (timers k' (Thread_timer t)) = rt_tick k1 + of_int time"
    "time \<le> 0 \<longrightarrow> timers k' = timers k1 \<and> rt_timer_list k' = rt_timer_list k1"
    by (rule ipc_wait_ok [OF k1(2) assms(2,3) k1(3) _ assms(6)])
  obtain e k0 where k0: "rt_thread_suspend t k = Some (e, k0)" "rt_tick k1 = rt_tick k0"
    "rt_scheduler_lock_nest k1 = rt_scheduler_lock_nest k0"
    using k1(1) by (auto simp: rt_ipc_list_suspend_def split: bind_splits)
  have fr: "rt_tick k1 = rt_tick k" "rt_scheduler_lock_nest k1 = rt_scheduler_lock_nest k"
    using k0 tick_thread.frame_suspend [OF k0(1)] lock_thread.frame_suspend [OF k0(1)] by simp_all
  have "threads k' u = (threads k u)\<lparr>stat := stat (threads k' u)\<rparr>" for u
  proof -
    have "threads k' u = (threads k1 u)\<lparr>stat := stat (threads k' u)\<rparr>" using k'(3) by (simp add: rescheduled_def)
    moreover have "(threads k1 u)\<lparr>stat := s\<rparr> = (threads k u)\<lparr>stat := s\<rparr>" for s by (subst k1(6)) simp
    ultimately show ?thesis by simp
  qed
  moreover have "asleep d u k'" if "asleep d u k" for d u
  proof -
    have "u \<noteq> t" using that r by (auto simp: asleep_def runnable_def)
    then show ?thesis using k'(6) k1(8) that by blast
  qed
  ultimately show ?thesis
    using k1 k' fr rescheduled_thread(9) [OF k'(3), of t] rescheduled_lists [OF k'(3)] by (intro that [of k']) auto
qed

section \<open>Waking\<close>

lemma waiting_suspended:
  assumes "kernel_ok lo k" "t \<in> set (tlist k (Suspend p))"
  shows "tstate k t = RT_THREAD_SUSPEND"
  using in_list_place [OF kernel_okD(1) [OF assms(1)] assms(2)] by (simp add: place_ok_def)

lemma asleep_not_waiting: "asleep d u k \<Longrightarrow> t \<in> set (tlist k h) \<Longrightarrow> u \<noteq> t"
  by (auto simp: asleep_def)

lemma waiting_once:
  assumes "kernel_ok lo k" "tlist k (Suspend p) = t # ts"
  shows "removeAll t (tlist k (Suspend p)) = ts" "q \<noteq> p \<Longrightarrow> removeAll t (tlist k (Suspend q)) = tlist k (Suspend q)"
proof -
  have q: "queues_ok k" using kernel_okD(1) [OF assms(1)] by (simp add: sched_but_def)
  then have "distinct (t # ts)" using assms(2) unfolding queues_ok_def by metis
  then show "removeAll t (tlist k (Suspend p)) = ts" using assms(2) by simp
  show "removeAll t (tlist k (Suspend q)) = tlist k (Suspend q)" if "q \<noteq> p"
  proof (rule removeAll_id)
    have "t \<in> set (tlist k (Suspend p))" using assms(2) by simp
    with q that show "t \<notin> set (tlist k (Suspend q))" unfolding queues_ok_def by blast
  qed
qed

lemma ipc_resume_ok:
  assumes "kernel_ok lo k" "tlist k (Suspend p) = t # ts"
  obtains k' where "rt_ipc_list_resume (Suspend p) k = Some k'" "kernel_ok lo k'" "runnable k' t"
    "threads k' = (threads k)(t := (threads k t)\<lparr>stat := stat (threads k' t)\<rparr>)"
    "tlist k' (Suspend p) = ts" "\<forall>q. q \<noteq> p \<longrightarrow> tlist k' (Suspend q) = tlist k (Suspend q)"
    "rt_current_thread k' = rt_current_thread k" "\<forall>d u. asleep d u k \<longrightarrow> asleep d u k'"
proof -
  have s: "tstate k t = RT_THREAD_SUSPEND" using waiting_suspended [OF assms(1), of t p] assms(2) by simp
  obtain k' where k': "rt_thread_resume t k = Some (RT_EOK, k')" "kernel_ok lo k'" "runnable k' t"
    "threads k' = (threads k)(t := (threads k t)\<lparr>stat := stat (threads k' t)\<rparr>)"
    "\<forall>p. tlist k' (Suspend p) = removeAll t (tlist k (Suspend p))" "rt_current_thread k' = rt_current_thread k"
    "\<forall>d u. asleep d u k \<longrightarrow> u \<noteq> t \<longrightarrow> asleep d u k'"
    by (rule resume_ok [OF assms(1) s])
  have "asleep d u k \<Longrightarrow> u \<noteq> t" for d u using asleep_not_waiting [of d u k t "Suspend p"] assms(2) by simp
  then show ?thesis
    using k' assms(2) waiting_once [OF assms] by (intro that [of k']) (auto simp: rt_ipc_list_resume_def)
qed

lemma resume_all_ok:
  assumes "kernel_ok lo k"
  shows "\<exists>k'. rt_ipc_list_resume_all (Suspend p) k = Some k' \<and> kernel_ok lo k' \<and> tlist k' (Suspend p) = [] \<and>
    (\<forall>q. q \<noteq> p \<longrightarrow> tlist k' (Suspend q) = tlist k (Suspend q)) \<and> rt_current_thread k' = rt_current_thread k \<and>
    (\<forall>d u. asleep d u k \<longrightarrow> asleep d u k') \<and> (\<forall>t \<in> set (tlist k (Suspend p)). runnable k' t \<and> error (threads k' t) = - RT_ERROR) \<and>
    (\<forall>t. t \<notin> set (tlist k (Suspend p)) \<longrightarrow> threads k' t = threads k t)"
  using assms
proof (induction "tlist k (Suspend p)" arbitrary: k)
  case Nil
  then have "rt_ipc_list_resume_all (Suspend p) k = Some k" by (subst rt_ipc_list_resume_all.simps) simp
  with Nil show ?case by (intro exI [of _ k]) auto
next
  case (Cons t ts)
  let ?k1 = "upd_thread t (\<lambda>th. th\<lparr>error := - RT_ERROR\<rparr>) k"
  have l: "tlist k (Suspend p) = t # ts" using Cons.hyps(2) by simp
  have s: "tstate k t = RT_THREAD_SUSPEND" using waiting_suspended [OF Cons.prems, of t p] l by simp
  have nr: "tstate k t \<noteq> RT_THREAD_READY" using s by simp
  note p1 = plain_update [OF Cons.prems nr, of "\<lambda>th. th\<lparr>error := - RT_ERROR\<rparr>", simplified]
  have l1: "tlist ?k1 (Suspend p) = t # ts" using l by simp
  obtain k2 where k2: "rt_ipc_list_resume (Suspend p) ?k1 = Some k2" "kernel_ok lo k2" "runnable k2 t"
    "threads k2 = (threads ?k1)(t := (threads ?k1 t)\<lparr>stat := stat (threads k2 t)\<rparr>)"
    "tlist k2 (Suspend p) = ts" "\<forall>q. q \<noteq> p \<longrightarrow> tlist k2 (Suspend q) = tlist ?k1 (Suspend q)"
    "rt_current_thread k2 = rt_current_thread ?k1" "\<forall>d u. asleep d u ?k1 \<longrightarrow> asleep d u k2"
    by (rule ipc_resume_ok [OF p1(1) l1])
  obtain k' where k': "rt_ipc_list_resume_all (Suspend p) k2 = Some k'" "kernel_ok lo k'" "tlist k' (Suspend p) = []"
    "\<forall>q. q \<noteq> p \<longrightarrow> tlist k' (Suspend q) = tlist k2 (Suspend q)" "rt_current_thread k' = rt_current_thread k2"
    "\<forall>d u. asleep d u k2 \<longrightarrow> asleep d u k'" "\<forall>u \<in> set ts. runnable k' u \<and> error (threads k' u) = - RT_ERROR"
    "\<forall>u. u \<notin> set ts \<longrightarrow> threads k' u = threads k2 u"
    using Cons.hyps(1) [of k2] k2(2,5) by auto
  have nt: "t \<notin> set ts" using kernel_okD(1) [OF Cons.prems] l unfolding sched_but_def queues_ok_def by (metis distinct.simps(2))
  have e: "error (threads k2 t) = - RT_ERROR" by (subst k2(4)) simp
  have o: "u \<noteq> t \<Longrightarrow> threads k2 u = threads k u" for u by (subst k2(4)) simp
  obtain x where "rt_thread_resume t ?k1 = Some (x, k2)"
    using k2(1) l1 by (auto simp: rt_ipc_list_resume_def)
  then have "rt_ipc_list_resume_all (Suspend p) k = Some k'"
    using l k'(1) by (subst rt_ipc_list_resume_all.simps) simp
  moreover have "\<forall>u \<in> set (t # ts). runnable k' u \<and> error (threads k' u) = - RT_ERROR"
    using k'(7,8) k2(3) nt e by (auto simp: runnable_def)
  moreover have "\<forall>u. u \<notin> set (t # ts) \<longrightarrow> threads k' u = threads k u" using k'(8) o by auto
  moreover have "\<forall>d u. asleep d u k \<longrightarrow> asleep d u k'" using p1(3) k2(8) k'(6) by blast
  moreover have "rt_current_thread k' = rt_current_thread k" using k'(5) k2(7) by simp
  moreover have "\<forall>q. q \<noteq> p \<longrightarrow> tlist k' (Suspend q) = tlist k (Suspend q)" using k'(4) k2(6) by simp
  ultimately show ?case using k'(2,3) unfolding l by blast
qed

end
