(* ===== verification/Thread_Init.thy ===== *)
theory Thread_Init
  imports Ipc_Wait
begin

text \<open>
  A thread made by \<open>rt_thread_init\<close>: its stack frame, and that it can be started afterwards. The frame lies at the end of
  the stack area and the first byte of the area keeps the pattern that the stack check looks for.
\<close>

section \<open>The stack frame\<close>

lemma unat_sub_add:
  assumes "unat b \<le> unat (a - p :: u32)"
  shows "unat (a - (p + b)) = unat (a - p) - unat b"
  using unat_sub [of b "a - p"] assms by (simp add: diff_diff_eq word_le_nat_alt)

lemma store32_other: "4 \<le> unat (a - p) \<Longrightarrow> store32 m p v a = m a"
  unfolding store32_def by (rule store_bytes_other) simp

lemma fill_words_other: "4 * n \<le> unat (a - p) \<Longrightarrow> fill_words m p n a = m a"
proof (induction n arbitrary: m p)
  case (Suc n)
  have "unat (a - (p + 4)) = unat (a - p) - 4" using Suc.prems by (intro unat_sub_add [of 4, simplified]) simp
  then show ?case using Suc.prems Suc.IH [of "p + 4" "store32 m p 0xdeadbeef"] by (simp add: store32_other)
qed simp

text \<open>Reading a word of the frame behind the writes of the others.\<close>

lemma load32_same: "load32 (store32 m p v) p = v"
  by (rule load32_bytes [OF bytes_at_store32])

lemma load32_field:
  assumes "4 \<le> unat (x - y)" "4 \<le> unat (x + 1 - y)" "4 \<le> unat (x + 2 - y)" "4 \<le> unat (x + 3 - y)"
  shows "load32 (store32 m (s + y) v) (s + x) = load32 m (s + x)"
  unfolding load32_def using assms store32_other [of "s + x" "s + y"] store32_other [of "s + x + 1" "s + y"]
    store32_other [of "s + x + 2" "s + y"] store32_other [of "s + x + 3" "s + y"]
  by (simp add: algebra_simps)

lemma load32_field_0:
  assumes "4 \<le> unat x" "4 \<le> unat (x + 1)" "4 \<le> unat (x + 2)" "4 \<le> unat (x + 3)"
  shows "load32 (store32 m s v) (s + x) = load32 m (s + x)"
  using load32_field [of x 0 m s v] assms by simp

lemma unat_minus_1: "unat (- 1 :: u32) = 4294967295"
  by (simp add: unsigned_minus_1_eq_mask mask_eq_exp_minus_1)

lemma stack_init_memory:
  assumes "rt_hw_stack_init tentry param addr texit m = (stk, m')"
  shows "m' = store32 (store32 (store32 (store32 (store32 (store32 (store32 (store32 (store32 (fill_words m stk 17)
    (stk + 36) param) (stk + 40) 0) (stk + 44) 0) (stk + 48) 0) (stk + 52) 0) (stk + 56) texit) (stk + 60) tentry)
    (stk + 64) 0x01000000) stk 0"
  using assms by (auto simp: rt_hw_stack_init_def Let_def)

lemma stack_frame_fields:
  assumes "rt_hw_stack_init tentry param addr texit m = (stk, m')"
  shows "load32 m' stk = 0" "load32 m' (stk + 36) = param" "load32 m' (stk + 56) = texit"
    "load32 m' (stk + 60) = tentry" "load32 m' (stk + 64) = 0x01000000"
  unfolding stack_init_memory [OF assms] by (simp_all add: load32_same load32_field load32_field_0 unat_minus_1)

lemma stack_frame_other:
  assumes "rt_hw_stack_init tentry param addr texit m = (stk, m')" "68 \<le> unat (a - stk)"
  shows "m' a = m a"
proof -
  have "unat (a - (stk + c)) = unat (a - stk) - unat c" if "unat c \<le> 64" for c
    using that assms(2) by (intro unat_sub_add) simp
  then have "4 \<le> unat (a - (stk + c))" if "unat c \<le> 64" for c using that assms(2) by simp
  from this [of 0] this [of 36] this [of 40] this [of 44] this [of 48] this [of 52] this [of 56] this [of 60] this [of 64]
  show ?thesis unfolding stack_init_memory [OF assms(1)] using assms(2) fill_words_other [of 17 a stk] by (simp add: store32_other)
qed

text \<open>An area of 80 bytes has room for the frame and for its first byte below it.\<close>

lemma stack_frame_place:
  assumes "rt_hw_stack_init tentry param (start + sz - 4) texit m = (stk, m')" "80 \<le> unat sz" "unat start + unat sz < 2 ^ 32"
  shows "unat start < unat stk" "unat stk + 68 \<le> unat start + unat sz" "(stk + 68) AND 7 = 0"
    "unat stk + 76 > unat start + unat sz"
proof -
  let ?e = "start + sz" let ?d = "?e AND NOT (mask 3) :: u32"
  have e: "unat ?e = unat start + unat sz" using assms(3) by (rule unat_add_u32)
  have d: "unat ?d = unat ?e div 8 * 8" using unat_align_down_pow [of 3 ?e] by simp
  then have b: "unat ?d \<le> unat ?e" "unat ?e < unat ?d + 8" by linarith+
  have s: "stk = ?d - 68" using assms(1) by (auto simp: rt_hw_stack_init_def Let_def mask_eq_exp_minus_1)
  have "unat stk = unat ?d - 68" unfolding s by (subst unat_sub) (use b e assms(2) in \<open>simp_all add: word_le_nat_alt\<close>)
  then show "unat start < unat stk" "unat stk + 68 \<le> unat start + unat sz" "unat stk + 76 > unat start + unat sz"
    using b e assms(2) by linarith+
  have "?d AND mask 3 = 0" by (simp add: ac_simps)
  then show "(stk + 68) AND 7 = 0" unfolding s by (simp add: mask_eq_exp_minus_1)
qed

section \<open>Kernel objects\<close>

lemma insert_remove_current:
  "rt_schedule_insert_thread t k = Some k' \<Longrightarrow> rt_current_thread k' = rt_current_thread k"
  "rt_schedule_remove_thread t k = Some k' \<Longrightarrow> rt_current_thread k' = rt_current_thread k"
  by (auto simp: rt_schedule_insert_thread_def rt_schedule_remove_thread_def Let_def split: if_splits)

lemma choice_current: "schedule_choice c to hp k = (u, b, k') \<Longrightarrow> rt_current_thread k' = rt_current_thread k"
  by (auto simp: schedule_choice_def Let_def split: if_splits)

text \<open>A switch makes a running thread the current one.\<close>

lemma schedule_current:
  "rt_schedule k = Some k' \<Longrightarrow> rt_current_thread k' = rt_current_thread k \<or> (\<exists>c. running k' c)"
  by (auto simp: rt_schedule_def Let_def running_def split: if_splits bind_splits prod.splits
      dest!: choice_current insert_remove_current)


lemma exit_critical_ok:
  assumes "kernel_ok lo k"
  obtains k' where "rt_exit_critical k = Some k'" "kernel_ok lo k'" "rescheduled k k'"
    "rt_current_thread k' = None \<longleftrightarrow> rt_current_thread k = None" "\<forall>d u. asleep d u k \<longrightarrow> asleep d u k'"
    "rt_current_thread k \<noteq> None \<and> rt_scheduler_lock_nest k = 1 \<longrightarrow> highest_runs k' \<and> rt_scheduler_lock_nest k' = 0"
    "timers k' = timers k" "rt_timer_list k' = rt_timer_list k" "mem k' = mem k" "objects k' = objects k"
    "rt_current_thread k' = rt_current_thread k \<or> (\<exists>c. running k' c)"
proof -
  let ?n = "rt_scheduler_lock_nest k - 1"
  let ?k1 = "k\<lparr>rt_scheduler_lock_nest := ?n\<rparr>" and ?k2 = "k\<lparr>rt_scheduler_lock_nest := 0\<rparr>"
  have ok: "kernel_ok lo ?k1" "kernel_ok lo ?k2" using assms by simp_all
  have r: "rescheduled k (k\<lparr>rt_scheduler_lock_nest := n\<rparr>)" for n using rescheduled_refl [of k] by (simp add: rescheduled_def runnable_def)
  consider (locked) "\<not> sint ?n \<le> 0" | (boot) "sint ?n \<le> 0" "rt_current_thread k = None"
    | (run) c where "sint ?n \<le> 0" "rt_current_thread k = Some c" by auto
  then show thesis
  proof cases
    case locked
    then have "rt_scheduler_lock_nest k \<noteq> 1" by auto
    then show thesis using locked ok(1) r by (intro that [of ?k1]) (simp_all add: rt_exit_critical_def Let_def)
  next
    case boot
    then show thesis using ok(2) r by (intro that [of ?k2]) (simp_all add: rt_exit_critical_def Let_def)
  next
    case run
    have c: "rt_current_thread ?k2 = Some c" using run(2) by simp
    obtain k' c' where k': "rt_schedule ?k2 = Some k'" "kernel_ok lo k'" "rescheduled ?k2 k'" "rt_current_thread k' = Some c'"
      "rt_scheduler_lock_nest ?k2 = 0 \<longrightarrow> highest_runs k'" "\<forall>d u. asleep d u ?k2 \<longrightarrow> asleep d u k'"
      by (rule schedule_ok [OF ok(2) c])
    have "rescheduled k k'" using k'(3) by (simp add: rescheduled_def runnable_def)
    then show thesis
      using run k' timers_frame.frame_schedule [OF k'(1)] timer_list_frame.frame_schedule [OF k'(1)]
        mem_frame.frame_schedule [OF k'(1)] objects_frame.frame_schedule [OF k'(1)] lock_frame.frame_schedule [OF k'(1)] schedule_current [OF k'(1)]
      by (intro that [of k']) (simp_all add: rt_exit_critical_def Let_def)
  qed
qed

lemma object_init_ok:
  assumes "kernel_ok lo k"
  obtains k' where "rt_object_init ob ty nm k = Some k'" "kernel_ok lo k'" "rescheduled k k'"
    "rt_current_thread k' = None \<longleftrightarrow> rt_current_thread k = None" "\<forall>d u. asleep d u k \<longrightarrow> asleep d u k'"
    "timers k' = timers k" "rt_timer_list k' = rt_timer_list k" "mem k' = mem k"
    "objects k' = (objects k)(ob := \<lparr>obj_type = ty OR RT_Object_Class_Static, obj_name = take RT_NAME_MAX nm\<rparr>)"
    "rt_current_thread k' = rt_current_thread k \<or> (\<exists>c. running k' c)"
proof -
  have ok: "kernel_ok lo (rt_enter_critical k)" using assms by (simp add: rt_enter_critical_def)
  obtain k1 where k1: "rt_exit_critical (rt_enter_critical k) = Some k1" "kernel_ok lo k1" "rescheduled (rt_enter_critical k) k1"
    "rt_current_thread k1 = None \<longleftrightarrow> rt_current_thread (rt_enter_critical k) = None"
    "\<forall>d u. asleep d u (rt_enter_critical k) \<longrightarrow> asleep d u k1"
    "rt_current_thread (rt_enter_critical k) \<noteq> None \<and> rt_scheduler_lock_nest (rt_enter_critical k) = 1
       \<longrightarrow> highest_runs k1 \<and> rt_scheduler_lock_nest k1 = 0"
    "timers k1 = timers (rt_enter_critical k)" "rt_timer_list k1 = rt_timer_list (rt_enter_critical k)"
    "mem k1 = mem (rt_enter_critical k)" "objects k1 = objects (rt_enter_critical k)"
    "rt_current_thread k1 = rt_current_thread (rt_enter_critical k) \<or> (\<exists>c. running k1 c)"
    by (rule exit_critical_ok [OF ok])
  let ?k = "k1\<lparr>objects := (objects k1)(ob := \<lparr>obj_type = ty OR RT_Object_Class_Static, obj_name = take RT_NAME_MAX nm\<rparr>),
             object_list := (object_list k1)(ty := ob # object_list k1 ty)\<rparr>"
  have "rescheduled k ?k" using k1(3) by (simp add: rescheduled_def runnable_def rt_enter_critical_def)
  then show thesis using k1 by (intro that [of ?k]) (simp_all add: rt_object_init_def rt_enter_critical_def running_def)
qed

section \<open>A new thread\<close>

lemma mem_update_ok:
  assumes "kernel_ok lo k" "\<And>u. live k u \<Longrightarrow> m (stack_addr (threads k u)) = mem k (stack_addr (threads k u))"
  shows "kernel_ok lo (k\<lparr>mem := m\<rparr>)" "asleep d u (k\<lparr>mem := m\<rparr>) = asleep d u k"
proof -
  let ?k = "k\<lparr>mem := m\<rparr>"
  note ok = kernel_okD [OF assms(1)]
  have l: "live ?k u = live k u" for u by (simp add: live_def)
  have "thread_ok ?k u" for u using ok(1) assms(2) [of u] unfolding sched_but_def thread_ok_def l
    by (simp add: rt_scheduler_stack_check_def Let_def)
  then have "sched_ok ?k" using ok(1) by (simp add: sched_but_def queues_ok_def group_ok_def)
  moreover have "cur_ok ?k" using ok(2) by (simp add: cur_ok_def)
  moreover have "timer_window lo ?k" by (rule window_sched [OF ok(3)]) simp_all
  moreover have "timer_links ?k" by (rule links_same_state [OF ok(4)]) simp_all
  ultimately show "kernel_ok lo ?k" by (simp add: kernel_ok_def)
  show "asleep d u ?k = asleep d u k" by (simp add: asleep_def)
qed

text \<open>A control block that no list of the kernel holds.\<close>

definition unused :: "kernel \<Rightarrow> tid \<Rightarrow> bool" where
  "unused k t \<longleftrightarrow> (tstate k t = RT_THREAD_INIT \<or> tstate k t = RT_THREAD_CLOSE) \<and> t \<notin> set (tlist k Defunct) \<and>
     rt_current_thread k \<noteq> Some t"

lemma unused_nowhere:
  assumes "kernel_ok lo k" "unused k t"
  shows "t \<notin> set (tlist k h)" "Thread_timer t \<notin> set (rt_timer_list k)" "\<not> live k t" "\<not> runnable k t"
  using assms(2) in_list_place [OF kernel_okD(1) [OF assms(1)], of t h] kernel_okD(4) [OF assms(1)]
  by (auto simp: unused_def place_ok_def timer_links_def live_def runnable_def split: list_head.splits)

lemma make_initial:
  assumes "kernel_ok lo k" "unused k t" "stat th AND RT_THREAD_STAT_MASK = RT_THREAD_INIT"
  shows "kernel_ok lo (upd_thread t (\<lambda>_. th) k)" "asleep d u k \<Longrightarrow> asleep d u (upd_thread t (\<lambda>_. th) k)"
proof -
  let ?k = "upd_thread t (\<lambda>_. th) k"
  note ok = kernel_okD [OF assms(1)] and n = unused_nowhere [OF assms(1,2)]
  have "sched_but {t} k" using n(1) by (intro aside_weaken [OF ok(1)])
  then have "sched_but {t} ?k" by (rule aside_update) simp
  moreover have "thread_ok ?k t" using assms(3) by (intro thread_ok_passive) simp_all
  ultimately have "sched_ok ?k" using aside_drop [of "{t}" ?k t] by simp
  moreover have "cur_ok ?k" using ok(2) assms(2) by (auto simp: cur_ok_def unused_def)
  moreover have "timer_window lo ?k" by (rule window_sched [OF ok(3)]) simp_all
  moreover have "timer_links ?k" using ok(4) n(2) assms(3) by (auto simp: timer_links_def live_def)
  ultimately show "kernel_ok lo ?k" by (simp add: kernel_ok_def)
  show "asleep d u k \<Longrightarrow> asleep d u ?k" using n(2) by (auto simp: asleep_def)
qed

lemma unused_rescheduled:
  assumes "unused k t" "rescheduled k k'" "rt_current_thread k' = rt_current_thread k \<or> (\<exists>c. running k' c)"
  shows "unused k' t"
  using assms rescheduled_thread(10,11) [OF assms(2), of t] rescheduled_lists(2) [OF assms(2)]
  by (auto simp: unused_def running_def)

lemma other_timer_ok:
  assumes "kernel_ok lo k" "\<not> live k t" "Thread_timer t \<notin> set (rt_timer_list k)"
  shows "kernel_ok lo (upd_timer (Thread_timer t) f k)" "asleep d u k \<Longrightarrow> asleep d u (upd_timer (Thread_timer t) f k)"
proof -
  let ?k = "upd_timer (Thread_timer t) f k"
  note ok = kernel_okD [OF assms(1)]
  have "sched_ok ?k" "cur_ok ?k" using ok(1,2) by (simp_all add: sched_timer.frame_upd_timer cur_timer.frame_upd_timer)
  moreover have "timer_window lo ?k"
    using ok(3) assms(3) by (subst timer_window_cong [of ?k k]) (auto simp: tick_timer.frame_upd_timer)
  moreover have "live ?k u = live k u" for u by (simp add: live_def threads_timer.frame_upd_timer)
  then have "timer_links ?k" using ok(4) assms(2,3) by (auto simp: timer_links_def threads_timer.frame_upd_timer)
  ultimately show "kernel_ok lo ?k" by (simp add: kernel_ok_def)
  show "asleep d u k \<Longrightarrow> asleep d u ?k"
    using assms(3) by (auto simp: asleep_def threads_timer.frame_upd_timer tlist_timer.frame_upd_timer)
qed

text \<open>The stack area of a new thread: 80 bytes at least, with no stack of another live thread beginning in it.\<close>

definition stack_area :: "kernel \<Rightarrow> u32 \<Rightarrow> u32 \<Rightarrow> bool" where
  "stack_area k start sz \<longleftrightarrow> 80 \<le> unat sz \<and> unat start + unat sz < 2 ^ 32 \<and>
     (\<forall>u. live k u \<longrightarrow> unat sz \<le> unat (stack_addr (threads k u) - start))"

lemma stack_memory:
  assumes "rt_hw_stack_init ent param (start + sz - 4) texit (rt_memset m start 0x23 sz) = (stk, m')"
    "80 \<le> unat sz" "unat start + unat sz < 2 ^ 32"
  shows "m' start = 0x23" "unat sz \<le> unat (a - start) \<Longrightarrow> m' a = m a"
proof -
  note p = stack_frame_place [OF assms]
  have ss: "unat (stk - start) = unat stk - unat start" using p(1) by (subst unat_sub) (simp_all add: word_le_nat_alt)
  have "unat (start - stk) = unat start + 2 ^ 32 - unat stk" using p(1) by (simp add: unat_sub_if')
  then have "68 \<le> unat (start - stk)" using p(2) assms(3) by simp
  then have "m' start = rt_memset m start 0x23 sz start" by (rule stack_frame_other [OF assms(1)])
  also have "\<dots> = 0x23"
    using assms(2) store_bytes_nth [of 0 "replicate (unat sz) (0x23 :: u8)" m start] unat_u32_less [of sz]
    by (simp add: memset_correct)
  finally show "m' start = 0x23" .
  assume a: "unat sz \<le> unat (a - start)"
  have "unat (a - stk) = unat (a - start) - unat (stk - start)"
    using a ss p(1,2) unat_sub_add [of "stk - start" a start] by simp
  then have "68 \<le> unat (a - stk)" using a ss p(1,2) by simp
  then have "m' a = rt_memset m start 0x23 sz a" by (rule stack_frame_other [OF assms(1)])
  also have "\<dots> = m a" using a by (simp add: memset_correct store_bytes_other)
  finally show "m' a = m a" .
qed

text \<open>
  \<open>rt_thread_init\<close> makes an unused control block one that can be started; the first switch to it begins at the entry with
  the parameter in \<open>r0\<close> and \<open>rt_thread_exit\<close> as the return address.
\<close>

lemma thread_init_ok:
  assumes "kernel_ok lo k" "unused k t" "stack_area k start sz" "unat prio < 32"
  obtains k' where "rt_thread_init texit t nm ent param start sz prio tick k = Some k'" "kernel_ok lo k'" "startable k' t"
    "rt_current_thread k' = None \<longleftrightarrow> rt_current_thread k = None" "\<forall>d u. asleep d u k \<longrightarrow> asleep d u k'"
    "rt_current_thread k' \<noteq> Some t" "init_priority (threads k' t) = prio"
    "\<exists>stk. sp (threads k' t) = stk \<and> (stk + 68) AND 7 = 0 \<and> load32 (mem k') (stk + 36) = param \<and> load32 (mem k') (stk + 56) = texit \<and>
       load32 (mem k') (stk + 60) = ent \<and> load32 (mem k') (stk + 64) = 0x01000000"
proof -
  obtain k1 where k1: "rt_object_init (Thread_obj t) RT_Object_Class_Thread nm k = Some k1" "kernel_ok lo k1" "rescheduled k k1"
    "rt_current_thread k1 = None \<longleftrightarrow> rt_current_thread k = None" "\<forall>d u. asleep d u k \<longrightarrow> asleep d u k1"
    "timers k1 = timers k" "rt_timer_list k1 = rt_timer_list k" "mem k1 = mem k"
    "objects k1 = (objects k)(Thread_obj t := \<lparr>obj_type = RT_Object_Class_Thread OR RT_Object_Class_Static, obj_name = take RT_NAME_MAX nm\<rparr>)"
    "rt_current_thread k1 = rt_current_thread k \<or> (\<exists>c. running k1 c)"
    by (rule object_init_ok [OF assms(1)])
  have u1: "unused k1 t" by (rule unused_rescheduled [OF assms(2) k1(3,10)])
  obtain stk m where st: "rt_hw_stack_init ent param (start + sz - 4) texit (rt_memset (mem k) start 0x23 sz) = (stk, m)"
    by (cases "rt_hw_stack_init ent param (start + sz - 4) texit (rt_memset (mem k) start 0x23 sz)")
  have a: "80 \<le> unat sz" "unat start + unat sz < 2 ^ 32" using assms(3) by (simp_all add: stack_area_def)
  note pl = stack_frame_place [OF st a] and me = stack_memory [OF st a] and fl = stack_frame_fields [OF st]
  let ?th = "\<lambda>th :: rt_thread. th\<lparr>entry := ent, parameter := param, stack_addr := start, stack_size := sz,
     sp := stk, init_priority := prio, current_priority := prio, number_mask := 0, init_tick := tick,
     remaining_tick := tick, error := RT_EOK, stat := RT_THREAD_INIT, cleanup := 0, user_data := 0\<rparr>"
  let ?k2 = "k1\<lparr>mem := m\<rparr>"
  have "m (stack_addr (threads k1 u)) = mem k1 (stack_addr (threads k1 u))" if "live k1 u" for u
  proof -
    have "threads k1 u = (threads k u)\<lparr>stat := stat (threads k1 u)\<rparr>" using k1(3) by (simp add: rescheduled_def)
    then have "stack_addr (threads k1 u) = stack_addr (threads k u)" by (metis rt_thread.simps(4) rt_thread.surjective rt_thread.update_convs(7))
    moreover have "live k u" using that rescheduled_thread(12) [OF k1(3)] by simp
    ultimately show ?thesis using me(2) assms(3) k1(8) by (simp add: stack_area_def)
  qed
  then have k2: "kernel_ok lo ?k2" "asleep d u ?k2 = asleep d u k1" for d u using mem_update_ok [OF k1(2), of m] by simp_all
  have u2: "unused ?k2 t" using u1 by (simp add: unused_def)
  let ?k3 = "upd_thread t ?th ?k2"
  have e3: "?k3 = upd_thread t (\<lambda>_. ?th (threads ?k2 t)) ?k2" by (simp add: upd_thread_def)
  have k3: "kernel_ok lo ?k3" "asleep d u ?k2 \<Longrightarrow> asleep d u ?k3" for d u
    unfolding e3 by (rule make_initial [OF k2(1) u2]; simp)+
  have u3: "unused ?k3 t" using u2 by (simp add: unused_def)
  let ?nm = "obj_name (objects ?k3 (Thread_obj t))"
  obtain k4 where k4: "rt_object_init (Timer_obj (Thread_timer t)) RT_Object_Class_Timer ?nm ?k3 = Some k4" "kernel_ok lo k4"
    "rescheduled ?k3 k4" "rt_current_thread k4 = None \<longleftrightarrow> rt_current_thread ?k3 = None" "\<forall>d u. asleep d u ?k3 \<longrightarrow> asleep d u k4"
    "timers k4 = timers ?k3" "rt_timer_list k4 = rt_timer_list ?k3" "mem k4 = mem ?k3"
    "objects k4 = (objects ?k3)(Timer_obj (Thread_timer t) := \<lparr>obj_type = RT_Object_Class_Timer OR RT_Object_Class_Static, obj_name = take RT_NAME_MAX ?nm\<rparr>)"
    "rt_current_thread k4 = rt_current_thread ?k3 \<or> (\<exists>c. running k4 c)"
    by (rule object_init_ok [OF k3(1)])
  have u4: "unused k4 t" by (rule unused_rescheduled [OF u3 k4(3,10)])
  note n4 = unused_nowhere [OF k4(2) u4]
  let ?k' = "timer_init (Thread_timer t) Rt_thread_timeout t 0 RT_TIMER_FLAG_ONE_SHOT k4"
  note k' = other_timer_ok [OF k4(2) n4(3,2)]
  have fr: "threads ?k' = threads k4" "mem ?k' = mem k4" "rt_current_thread ?k' = rt_current_thread k4"
    unfolding timer_init_def
    by (simp_all add: threads_timer.frame_upd_timer mem_timer.frame_upd_timer current_timer.frame_upd_timer)
  have "\<not> runnable ?k3 t" by (simp add: runnable_def)
  then have t4: "threads k4 t = ?th (threads k1 t)" using k4(3) by (simp add: rescheduled_def)
  have m4: "mem k4 = m" using k4(8) by simp
  have ss: "start + sz \<ge> stk" "start < stk"
    using pl(1,2) unat_add_u32 [OF a(2)] by (simp_all add: word_le_nat_alt word_less_nat_alt)
  have "startable ?k' t"
    using assms(4) me(1) ss unfolding startable_def fr rt_scheduler_stack_check_def t4 m4 Let_def
    by (simp add: timer_init_def ttimer_ok_def upd_timer_def not_le not_less)
  moreover have "rt_thread_init texit t nm ent param start sz prio tick k = Some ?k'"
    using k1(1,8) st k4(1) by (simp add: rt_thread_init_def thread_init_def rt_timer_init_def Let_def)
  moreover have "kernel_ok lo ?k'" "\<forall>d u. asleep d u k \<longrightarrow> asleep d u ?k'"
    using k' k1(5) k2(2) k3(2) k4(5) by (simp_all add: timer_init_def)
  moreover have "rt_current_thread ?k' \<noteq> Some t" using u4 fr(3) by (simp add: unused_def)
  ultimately show thesis using k1(4) k4(4) fr t4 m4 fl pl(3) by (intro that [of ?k']) simp_all
qed

end
