(* ===== verification/Ipc_Sync.thy ===== *)
theory Ipc_Sync
  imports Ipc_Wait
begin

text \<open>
  The operations of semaphores and mutexes keep the invariants of the kernel, of all semaphores and of all mutexes.
\<close>

definition kernel_inv :: "kernel \<Rightarrow> bool" where
  "kernel_inv k \<longleftrightarrow> kernel_ok 0 k \<and> sem_ok k \<and> mutex_ok k"

lemma upd_sem_simps [simp]:
  "sems (upd_sem s f k) = (sems k)(s := f (sems k s))" "tlist (upd_sem s f k) = tlist k" "threads (upd_sem s f k) = threads k"
  "mutexes (upd_sem s f k) = mutexes k" "rt_current_thread (upd_sem s f k) = rt_current_thread k"
  "kernel_ok lo (upd_sem s f k) = kernel_ok lo k" "asleep d u (upd_sem s f k) = asleep d u k"
  "rt_scheduler_lock_nest (upd_sem s f k) = rt_scheduler_lock_nest k" "rt_tick (upd_sem s f k) = rt_tick k"
  "mutex_ok (upd_sem s f k) = mutex_ok k"
  by (simp_all add: upd_sem_def mutex_ok_def)

lemma upd_mutex_simps [simp]:
  "mutexes (upd_mutex s g k) = (mutexes k)(s := g (mutexes k s))" "tlist (upd_mutex s g k) = tlist k"
  "threads (upd_mutex s g k) = threads k" "sems (upd_mutex s g k) = sems k"
  "rt_current_thread (upd_mutex s g k) = rt_current_thread k"
  "kernel_ok lo (upd_mutex s g k) = kernel_ok lo k" "asleep d u (upd_mutex s g k) = asleep d u k"
  "rt_scheduler_lock_nest (upd_mutex s g k) = rt_scheduler_lock_nest k" "rt_tick (upd_mutex s g k) = rt_tick k"
  "sem_ok (upd_mutex s g k) = sem_ok k"
  by (simp_all add: upd_mutex_def sem_ok_def)

lemma ipc_inv_cong:
  assumes "sems k' = sems k" "mutexes k' = mutexes k" "\<And>p. tlist k' (Suspend p) = tlist k (Suspend p)"
  shows "sem_ok k' = sem_ok k" "mutex_ok k' = mutex_ok k"
  using assms by (simp_all add: sem_ok_def mutex_ok_def)

lemma running_fields: "running (upd_thread u f k) t \<longleftrightarrow> rt_current_thread k = Some t \<and> tstate (upd_thread u f k) t = RT_THREAD_RUNNING"
  by (simp add: running_def)

lemma running_live: "running k t \<Longrightarrow> live k t"
  by (simp add: running_def live_def)

text \<open>The error number of a thread is no part of the invariant.\<close>

lemma set_error_ok:
  assumes "kernel_ok lo k" "rt_current_thread k = Some t"
  shows "kernel_ok lo (upd_thread t (\<lambda>th. th\<lparr>error := e\<rparr>) k)" "tstate (upd_thread t (\<lambda>th. th\<lparr>error := e\<rparr>) k) u = tstate k u"
    "asleep d u (upd_thread t (\<lambda>th. th\<lparr>error := e\<rparr>) k) = asleep d u k"
  by (rule plain_update [OF assms(1) current_not_ready [OF assms]]; simp)+

section \<open>Semaphores\<close>

lemma queue_insert_cong:
  assumes "\<And>u. current_priority (th' u) = current_priority (th u)"
  shows "queue_insert flg th' t ts = queue_insert flg th t ts"
proof -
  have "prio_insert th' t ts = prio_insert th t ts" by (induction ts) (simp_all add: assms)
  then show ?thesis by (simp add: queue_insert_def)
qed

text \<open>The three outcomes of \<open>rt_sem_take\<close> called by thread \<open>t\<close>: taken, refused, waiting.\<close>

definition take_outcome :: "kernel \<Rightarrow> nat \<Rightarrow> tid \<Rightarrow> int \<Rightarrow> int option \<Rightarrow> kernel \<Rightarrow> bool" where
  "take_outcome k s t time r k' \<longleftrightarrow>
     0 < sem_value (sems k s) \<and> r = Some RT_EOK \<and> k' = upd_sem s (\<lambda>sm. sm\<lparr>sem_value := sem_value sm - 1\<rparr>) k \<or>
     sem_value (sems k s) = 0 \<and> time = 0 \<and> r = Some (- RT_ETIMEOUT) \<and> k' = k \<or>
     sem_value (sems k s) = 0 \<and> time \<noteq> 0 \<and> r = None \<and> sems k' = sems k \<and> tstate k' t = RT_THREAD_SUSPEND \<and>
       tlist k' (Suspend (Sem s)) = queue_insert (sem_flag (sems k s)) (threads k) t (tlist k (Suspend (Sem s))) \<and>
       (rt_scheduler_lock_nest k = 0 \<longrightarrow> highest_runs k') \<and>
       (0 < time \<longrightarrow> Thread_timer t \<in> set (rt_timer_list k') \<and> timeout_tick (timers k' (Thread_timer t)) = rt_tick k + of_int time)"

lemma sem_take_ok:
  assumes "kernel_inv k" "running k t" "ipc_flag_ok (sem_flag (sems k s))" "wait_time_ok time"
  obtains r k' where "rt_sem_take s time k = Some (r, k')" "kernel_inv k'" "rt_current_thread k' \<noteq> None"
    "\<forall>d u. asleep d u k \<longrightarrow> asleep d u k'" "take_outcome k s t time r k'"
proof -
  have inv: "kernel_ok 0 k" "sem_ok k" "mutex_ok k" using assms(1) by (simp_all add: kernel_inv_def)
  have cur: "rt_current_thread k = Some t" using assms(2) by (simp add: running_def)
  consider (available) "0 < sem_value (sems k s)" | (no_wait) "sem_value (sems k s) = 0" "time = 0"
    | (wait) "sem_value (sems k s) = 0" "time \<noteq> 0" by (auto simp: word_gt_0)
  then show ?thesis
  proof cases
    case available
    then have "sem_ok (upd_sem s (\<lambda>sm. sm\<lparr>sem_value := sem_value sm - 1\<rparr>) k)" using inv(2) by (simp add: sem_ok_def)
    then show ?thesis using available inv cur
      by (intro that [of "Some RT_EOK" "upd_sem s (\<lambda>sm. sm\<lparr>sem_value := sem_value sm - 1\<rparr>) k"])
        (simp_all add: rt_sem_take_def kernel_inv_def take_outcome_def)
  next
    case no_wait
    then show ?thesis using assms(1) cur by (intro that [of "Some (- RT_ETIMEOUT)" k]) (simp_all add: rt_sem_take_def take_outcome_def)
  next
    case wait
    let ?k1 = "upd_thread t (\<lambda>th. th\<lparr>error := RT_EOK\<rparr>) k"
    note p1 = set_error_ok [OF inv(1) cur, where e = RT_EOK]
    have r1: "running ?k1 t" using assms(2) p1(2) [of t] by (simp add: running_def)
    obtain k' where k': "do { k \<leftarrow> rt_ipc_list_suspend (Suspend (Sem s)) t (sem_flag (sems k s)) ?k1; ipc_wait t time k } = Some k'"
      "kernel_ok 0 k'" "tstate k' t = RT_THREAD_SUSPEND"
      "tlist k' (Suspend (Sem s)) = queue_insert (sem_flag (sems k s)) (threads ?k1) t (tlist ?k1 (Suspend (Sem s)))"
      "\<forall>q. q \<noteq> Sem s \<longrightarrow> tlist k' (Suspend q) = tlist ?k1 (Suspend q)"
      "rt_current_thread k' \<noteq> None" "\<forall>d u. asleep d u ?k1 \<longrightarrow> asleep d u k'"
      "\<forall>u. threads k' u = (threads ?k1 u)\<lparr>stat := stat (threads k' u)\<rparr>"
      "rt_scheduler_lock_nest ?k1 = 0 \<longrightarrow> highest_runs k'"
      "0 < time \<longrightarrow> Thread_timer t \<in> set (rt_timer_list k') \<and> timeout_tick (timers k' (Thread_timer t)) = rt_tick ?k1 + of_int time"
      by (rule wait_ok [OF p1(1) _ _ r1 assms(3,4)]) simp_all
    then obtain k2 where k2: "rt_ipc_list_suspend (Suspend (Sem s)) t (sem_flag (sems k s)) ?k1 = Some k2" "ipc_wait t time k2 = Some k'"
      by (auto split: bind_splits)
    have fr: "sems k' = sems k" "mutexes k' = mutexes k"
      using ipc_frames [OF k2] by simp_all
    have "rt_sem_take s time k = Some (None, k')" using wait k2 cur by (simp add: rt_sem_take_def Let_def)
    moreover have "sem_ok k'" using inv(2) k'(5) wait(1) fr unfolding sem_ok_def by (metis word_gt_0 ipc_ref.inject(1) upd_thread_simps(2))
    moreover have "mutex_ok k'" using inv(3) k'(5) fr by (simp add: mutex_ok_def)
    moreover have "take_outcome k s t time None k'"
      using wait k'(3,4,9,10) fr(1) queue_insert_cong [of "threads ?k1" "threads k"] by (simp add: take_outcome_def)
    ultimately show ?thesis using k'(2,6,7) p1(3) by (intro that [of None k']) (auto simp: kernel_inv_def)
  qed
qed

lemma sem_release_ok:
  assumes "kernel_inv k" "rt_current_thread k \<noteq> None"
  obtains k' where "rt_sem_release s k = Some (RT_EOK, k')" "kernel_inv k'" "rt_current_thread k' \<noteq> None"
    "\<forall>d u. asleep d u k \<longrightarrow> asleep d u k'"
    "tlist k (Suspend (Sem s)) = [] \<longrightarrow> k' = upd_sem s (\<lambda>sm. sm\<lparr>sem_value := sem_value sm + 1\<rparr>) k"
    "\<forall>t ts. tlist k (Suspend (Sem s)) = t # ts \<longrightarrow> runnable k' t \<and> tlist k' (Suspend (Sem s)) = ts \<and> sems k' = sems k \<and>
       (rt_scheduler_lock_nest k = 0 \<longrightarrow> highest_runs k')"
proof (cases "tlist k (Suspend (Sem s))")
  case Nil
  then have "sem_ok (upd_sem s (\<lambda>sm. sm\<lparr>sem_value := sem_value sm + 1\<rparr>) k)"
    using assms(1) by (simp add: kernel_inv_def sem_ok_def)
  then show ?thesis using Nil assms
    by (intro that [of "upd_sem s (\<lambda>sm. sm\<lparr>sem_value := sem_value sm + 1\<rparr>) k"]) (simp_all add: rt_sem_release_def kernel_inv_def)
next
  case (Cons t ts)
  have inv: "kernel_ok 0 k" "sem_ok k" "mutex_ok k" using assms(1) by (simp_all add: kernel_inv_def)
  obtain k1 where k1: "rt_ipc_list_resume (Suspend (Sem s)) k = Some k1" "kernel_ok 0 k1" "runnable k1 t"
    "threads k1 = (threads k)(t := (threads k t)\<lparr>stat := stat (threads k1 t)\<rparr>)"
    "tlist k1 (Suspend (Sem s)) = ts" "\<forall>q. q \<noteq> Sem s \<longrightarrow> tlist k1 (Suspend q) = tlist k (Suspend q)"
    "rt_current_thread k1 = rt_current_thread k" "\<forall>d u. asleep d u k \<longrightarrow> asleep d u k1"
    by (rule ipc_resume_ok [OF inv(1) Cons])
  obtain c where "rt_current_thread k1 = Some c" using k1(7) assms(2) by auto
  then obtain k' c' where k': "rt_schedule k1 = Some k'" "kernel_ok 0 k'" "rescheduled k1 k'" "rt_current_thread k' = Some c'"
    "rt_scheduler_lock_nest k1 = 0 \<longrightarrow> highest_runs k'" "\<forall>d u. asleep d u k1 \<longrightarrow> asleep d u k'"
    by (rule schedule_ok [OF k1(2)])
  have fr: "sems k1 = sems k" "mutexes k1 = mutexes k"
    using sems_thread.frame_list_resume [OF k1(1)] mutexes_thread.frame_list_resume [OF k1(1)] by simp_all
  have "sem_value (sems k s) = 0" using inv(2) Cons by (auto simp: sem_ok_def word_gt_0)
  then have "sem_ok k1" using inv(2) k1(6) fr unfolding sem_ok_def by (metis ipc_ref.inject(1) word_gt_0)
  moreover have "mutex_ok k1" using inv(3) k1(6) fr by (simp add: mutex_ok_def)
  ultimately have "kernel_inv k'"
    using k'(2) sem_keep.keep_schedule [OF k'(1)] mutex_keep.keep_schedule [OF k'(1)] by (simp add: kernel_inv_def)
  moreover have "sems k' = sems k" using sems_frame.frame_schedule [OF k'(1)] fr(1) by simp
  moreover have "rt_scheduler_lock_nest k1 = rt_scheduler_lock_nest k" by (rule lock_thread.frame_list_resume [OF k1(1)])
  ultimately show ?thesis using k1 k' Cons rescheduled_thread(8) [OF k'(3)] rescheduled_lists(1) [OF k'(3)]
    by (intro that [of k']) (simp_all add: rt_sem_release_def)
qed

lemma sem_control_ok:
  assumes "kernel_inv k" "rt_current_thread k \<noteq> None"
  obtains r k' where "rt_sem_control s cmd arg k = Some (r, k')" "kernel_inv k'" "rt_current_thread k' \<noteq> None"
    "\<forall>d u. asleep d u k \<longrightarrow> asleep d u k'"
proof (cases "cmd = RT_IPC_CMD_RESET")
  case False
  then show ?thesis using assms by (intro that [of "- RT_ERROR" k]) (simp_all add: rt_sem_control_def)
next
  case True
  have inv: "kernel_ok 0 k" "sem_ok k" "mutex_ok k" using assms(1) by (simp_all add: kernel_inv_def)
  obtain k1 where k1: "rt_ipc_list_resume_all (Suspend (Sem s)) k = Some k1" "kernel_ok 0 k1" "tlist k1 (Suspend (Sem s)) = []"
    "\<forall>q. q \<noteq> Sem s \<longrightarrow> tlist k1 (Suspend q) = tlist k (Suspend q)" "rt_current_thread k1 = rt_current_thread k"
    "\<forall>d u. asleep d u k \<longrightarrow> asleep d u k1"
    using resume_all_ok [OF inv(1), of "Sem s"] by blast
  let ?k2 = "upd_sem s (\<lambda>sm. sm\<lparr>sem_value := ucast arg\<rparr>) k1"
  obtain c where c: "rt_current_thread ?k2 = Some c" using k1(5) assms(2) by auto
  have k2: "kernel_ok 0 ?k2" using k1(2) by simp
  obtain k' c' where k': "rt_schedule ?k2 = Some k'" "kernel_ok 0 k'" "rescheduled ?k2 k'" "rt_current_thread k' = Some c'"
    "rt_scheduler_lock_nest ?k2 = 0 \<longrightarrow> highest_runs k'" "\<forall>d u. asleep d u ?k2 \<longrightarrow> asleep d u k'"
    by (rule schedule_ok [OF k2 c])
  have fr: "sems k1 = sems k" "mutexes k1 = mutexes k"
    using sems_thread.frame_resume_all [OF k1(1)] mutexes_thread.frame_resume_all [OF k1(1)] by simp_all
  have "sem_ok ?k2" using inv(2) k1(3,4) fr unfolding sem_ok_def by (metis fun_upd_apply ipc_ref.inject(1) upd_sem_simps(1,2))
  moreover have "mutex_ok ?k2" using inv(3) k1(4) fr by (simp add: mutex_ok_def)
  ultimately have "kernel_inv k'"
    using k'(2) sem_keep.keep_schedule [OF k'(1)] mutex_keep.keep_schedule [OF k'(1)] by (simp add: kernel_inv_def)
  then show ?thesis using True k1 k' by (intro that [of RT_EOK k']) (simp_all add: rt_sem_control_def)
qed

section \<open>Mutexes\<close>

lemma mutex_okD:
  assumes "mutex_ok k"
  shows "mutex_free (mutexes k m) \<and> tlist k (Suspend (Mutex m)) = [] \<or> mutex_held (mutexes k m)"
  using assms by (simp add: mutex_ok_def)

lemma mutex_ok_update:
  assumes "mutex_ok k" "\<And>m'. m' \<noteq> m \<Longrightarrow> mutexes k' m' = mutexes k m' \<and> tlist k' (Suspend (Mutex m')) = tlist k (Suspend (Mutex m'))"
    "mutex_free (mutexes k' m) \<and> tlist k' (Suspend (Mutex m)) = [] \<or> mutex_held (mutexes k' m)"
  shows "mutex_ok k'"
  unfolding mutex_ok_def
proof
  fix m' show "mutex_free (mutexes k' m') \<and> tlist k' (Suspend (Mutex m')) = [] \<or> mutex_held (mutexes k' m')"
    using assms(3) assms(2) [of m'] mutex_okD [OF assms(1), of m'] by (cases "m' = m") auto
qed

text \<open>The owner inherits the priority of a waiting thread.\<close>

lemma inherit_ok:
  assumes "kernel_ok lo k" "running k t" "ow \<noteq> t"
  obtains k' where "(if current_priority (threads k t) < current_priority (threads k ow)
       then map_option snd (rt_thread_control ow RT_THREAD_CTRL_CHANGE_PRIORITY (current_priority (threads k t)) k) else Some k) = Some k'"
    "kernel_ok lo k'" "running k' t" "current_priority (threads k' ow) \<le> current_priority (threads k t)"
    "\<forall>u. u \<noteq> ow \<longrightarrow> current_priority (threads k' u) = current_priority (threads k u)"
    "\<forall>u. error (threads k' u) = error (threads k u)"
    "\<forall>q. tlist k' (Suspend q) = tlist k (Suspend q)" "sems k' = sems k" "mutexes k' = mutexes k"
    "\<forall>d u. asleep d u k \<longrightarrow> asleep d u k'" "rt_scheduler_lock_nest k' = rt_scheduler_lock_nest k" "rt_tick k' = rt_tick k"
proof (cases "current_priority (threads k t) < current_priority (threads k ow)")
  case False
  then show ?thesis using assms by (intro that [of k]) auto
next
  case True
  let ?p = "current_priority (threads k t)"
  have "unat ?p < 32"
    using live_ok(1) [OF kernel_okD(1) [OF assms(1)] _ running_live [OF assms(2)]] by (simp add: prio_ok_def)
  then obtain k' where k': "rt_thread_control ow RT_THREAD_CTRL_CHANGE_PRIORITY ?p k = Some (RT_EOK, k')" "kernel_ok lo k'"
    "threads k' = (threads k)(ow := (with_priority ?p (threads k ow))\<lparr>stat := stat (threads k' ow)\<rparr>)"
    "\<forall>u. runnable k' u = runnable k u \<and> (\<not> runnable k u \<longrightarrow> stat (threads k' u) = stat (threads k u))"
    "\<forall>q. tlist k' (Suspend q) = tlist k (Suspend q)" "rt_current_thread k' = rt_current_thread k"
    "\<forall>d u. asleep d u k \<longrightarrow> asleep d u k'" "\<forall>c. rt_current_thread k = Some c \<longrightarrow> stat (threads k' c) = stat (threads k c)"
    by (rule change_priority_ok [OF assms(1)])
  note fr = sems_thread.frame_change_priority [OF k'(1)] mutexes_thread.frame_change_priority [OF k'(1)]
    lock_thread.frame_change_priority [OF k'(1)] tick_thread.frame_change_priority [OF k'(1)]
  have o: "u \<noteq> ow \<Longrightarrow> threads k' u = threads k u" for u by (subst k'(3)) simp
  have w: "current_priority (threads k' ow) = ?p" "error (threads k' ow) = error (threads k ow)" by (subst k'(3); simp)+
  have "error (threads k' u) = error (threads k u)" for u using o w(2) by (cases "u = ow") simp_all
  moreover have "running k' t" using assms(2) k'(6,8) by (simp add: running_def)
  ultimately show ?thesis using True k' fr o w(1) by (intro that [of k']) simp_all
qed

lemma mutex_again_ok:
  assumes "kernel_inv k" "running k t" "owner (mutexes k m) \<noteq> Some t" "ipc_flag_ok (mx_flag (mutexes k m))" "wait_time_ok time"
  obtains r k' where "mutex_take_again m time t k = Some (r, k')" "kernel_inv k'" "rt_current_thread k' \<noteq> None"
    "\<forall>d u. asleep d u k \<longrightarrow> asleep d u k'"
    "r = Some RT_EOK \<longrightarrow> owner (mutexes k m) = None \<and> owner (mutexes k' m) = Some t"
    "r = None \<longrightarrow> tstate k' t = RT_THREAD_SUSPEND \<and> t \<in> set (tlist k' (Suspend (Mutex m))) \<and> mutexes k' = mutexes k \<and>
       (\<forall>ow. owner (mutexes k m) = Some ow \<longrightarrow> current_priority (threads k' ow) \<le> current_priority (threads k' t)) \<and>
       (rt_scheduler_lock_nest k = 0 \<longrightarrow> highest_runs k')"
proof -
  have inv: "kernel_ok 0 k" "sem_ok k" "mutex_ok k" using assms(1) by (simp_all add: kernel_inv_def)
  have cur: "rt_current_thread k = Some t" using assms(2) by (simp add: running_def)
  let ?p = "current_priority (threads k t)"
  have pr: "unat ?p < 32" using live_ok(1) [OF kernel_okD(1) [OF inv(1)] _ running_live [OF assms(2)]] by (simp add: prio_ok_def)
  consider (free) "mutex_free (mutexes k m)" | (no_wait) "mutex_held (mutexes k m)" "time = 0"
    | (wait) ow where "mutex_held (mutexes k m)" "time \<noteq> 0" "owner (mutexes k m) = Some ow"
    using mutex_okD [OF inv(3), of m] by (auto simp: mutex_held_def)
  then show ?thesis
  proof cases
    case free
    let ?k = "upd_mutex m (\<lambda>mx. mx\<lparr>mx_value := mx_value mx - 1, owner := Some t, original_priority := ?p, hold := hold mx + 1\<rparr>) k"
    have "mutex_ok ?k"
      by (rule mutex_ok_update [OF inv(3), of m]) (use free pr in \<open>simp_all add: mutex_free_def mutex_held_def\<close>)
    then have "kernel_inv ?k" using inv by (simp add: kernel_inv_def)
    then show ?thesis using free cur
      by (intro that [of "Some RT_EOK" ?k]) (simp_all add: mutex_take_again_def mutex_free_def Let_def)
  next
    case no_wait
    let ?k = "upd_thread t (\<lambda>th. th\<lparr>error := - RT_ETIMEOUT\<rparr>) k"
    have "kernel_inv ?k"
      using set_error_ok(1) [OF inv(1) cur] inv(2,3) sem_keep.keep_upd_thread mutex_keep.keep_upd_thread by (simp add: kernel_inv_def)
    then show ?thesis using no_wait cur set_error_ok(3) [OF inv(1) cur]
      by (intro that [of "Some (- RT_ETIMEOUT)" ?k]) (simp_all add: mutex_take_again_def mutex_held_def Let_def)
  next
    case wait
    have ne: "ow \<noteq> t" using wait(3) assms(3) by auto
    let ?c = "if ?p < current_priority (threads k ow)
       then map_option snd (rt_thread_control ow RT_THREAD_CTRL_CHANGE_PRIORITY ?p k) else Some k"
    obtain k1 where k1: "?c = Some k1" "kernel_ok 0 k1" "running k1 t" "current_priority (threads k1 ow) \<le> ?p"
      "\<forall>u. u \<noteq> ow \<longrightarrow> current_priority (threads k1 u) = current_priority (threads k u)"
      "\<forall>u. error (threads k1 u) = error (threads k u)"
      "\<forall>q. tlist k1 (Suspend q) = tlist k (Suspend q)" "sems k1 = sems k" "mutexes k1 = mutexes k"
      "\<forall>d u. asleep d u k \<longrightarrow> asleep d u k1" "rt_scheduler_lock_nest k1 = rt_scheduler_lock_nest k" "rt_tick k1 = rt_tick k"
      by (rule inherit_ok [OF inv(1) assms(2) ne])
    obtain k' where k': "do { k \<leftarrow> rt_ipc_list_suspend (Suspend (Mutex m)) t (mx_flag (mutexes k m)) k1; ipc_wait t time k } = Some k'"
      "kernel_ok 0 k'" "tstate k' t = RT_THREAD_SUSPEND"
      "tlist k' (Suspend (Mutex m)) = queue_insert (mx_flag (mutexes k m)) (threads k1) t (tlist k1 (Suspend (Mutex m)))"
      "\<forall>q. q \<noteq> Mutex m \<longrightarrow> tlist k' (Suspend q) = tlist k1 (Suspend q)"
      "rt_current_thread k' \<noteq> None" "\<forall>d u. asleep d u k1 \<longrightarrow> asleep d u k'"
      "\<forall>u. threads k' u = (threads k1 u)\<lparr>stat := stat (threads k' u)\<rparr>"
      "rt_scheduler_lock_nest k1 = 0 \<longrightarrow> highest_runs k'"
      "0 < time \<longrightarrow> Thread_timer t \<in> set (rt_timer_list k') \<and> timeout_tick (timers k' (Thread_timer t)) = rt_tick k1 + of_int time"
      by (rule wait_ok [OF k1(2) _ _ k1(3) assms(4,5)]) simp_all
    then obtain k2 where k2: "rt_ipc_list_suspend (Suspend (Mutex m)) t (mx_flag (mutexes k m)) k1 = Some k2" "ipc_wait t time k2 = Some k'"
      by (auto split: bind_splits)
    have fr: "sems k' = sems k" "mutexes k' = mutexes k" using ipc_frames [OF k2] k1(8,9) by simp_all
    have "mx_value (mutexes k m) = 0" using wait(1) by (simp add: mutex_held_def)
    then have e: "mutex_take_again m time t k = Some (None, k')"
      using wait(2,3) k1(1) k2 by (simp add: mutex_take_again_def Let_def)
    have "current_priority (threads k' u) = current_priority (threads k1 u)" for u
      using arg_cong [OF k'(8) [rule_format, of u], of current_priority] by simp
    then have pi: "current_priority (threads k' ow) \<le> current_priority (threads k' t)" using k1(4,5) ne by simp
    have "t \<in> set (tlist k' (Suspend (Mutex m)))" using k'(4) set_queue_insert [OF assms(4)] by simp
    moreover have "sem_ok k'" using inv(2) k'(5) k1(7) fr by (simp add: sem_ok_def)
    moreover have "mutex_ok k'"
      by (rule mutex_ok_update [OF inv(3), of m]) (use k'(5) k1(7) fr wait(1) in simp_all)
    ultimately show ?thesis using e k'(2,3,6,7,9) k1(10,11) wait(3) pi fr(2)
      by (intro that [of None k']) (auto simp: kernel_inv_def)
  qed
qed

lemma mutex_take_ok:
  assumes "kernel_inv k" "running k t" "ipc_flag_ok (mx_flag (mutexes k m))" "wait_time_ok time"
    "owner (mutexes k m) = Some t \<longrightarrow> hold (mutexes k m) \<noteq> 255"
  obtains r k' where "rt_mutex_take m time k = Some (r, k')" "kernel_inv k'" "rt_current_thread k' \<noteq> None"
    "\<forall>d u. asleep d u k \<longrightarrow> asleep d u k'"
    "r = Some RT_EOK \<longrightarrow> (owner (mutexes k m) = None \<or> owner (mutexes k m) = Some t) \<and> owner (mutexes k' m) = Some t"
    "r = None \<longrightarrow> tstate k' t = RT_THREAD_SUSPEND \<and> t \<in> set (tlist k' (Suspend (Mutex m))) \<and> mutexes k' = mutexes k \<and>
       (\<forall>ow. owner (mutexes k m) = Some ow \<longrightarrow> current_priority (threads k' ow) \<le> current_priority (threads k' t)) \<and>
       (rt_scheduler_lock_nest k = 0 \<longrightarrow> highest_runs k')"
proof -
  have inv: "kernel_ok 0 k" "sem_ok k" "mutex_ok k" using assms(1) by (simp_all add: kernel_inv_def)
  have cur: "rt_current_thread k = Some t" using assms(2) by (simp add: running_def)
  let ?k1 = "upd_thread t (\<lambda>th. th\<lparr>error := RT_EOK\<rparr>) k"
  note p1 = set_error_ok [OF inv(1) cur, where e = RT_EOK]
  have i1: "kernel_inv ?k1" using p1(1) inv(2,3) sem_keep.keep_upd_thread mutex_keep.keep_upd_thread by (simp add: kernel_inv_def)
  have r1: "running ?k1 t" using assms(2) p1(2) [of t] by (simp add: running_def)
  show ?thesis
  proof (cases "owner (mutexes k m) = Some t")
    case True
    let ?k = "upd_mutex m (\<lambda>mx. mx\<lparr>hold := hold mx + 1\<rparr>) ?k1"
    have "hold (mutexes k m) + 1 \<noteq> 0"
    proof
      assume "hold (mutexes k m) + 1 = 0"
      then have "hold (mutexes k m) = - 1" by (simp add: eq_neg_iff_add_eq_0)
      then show False using True assms(5) by simp
    qed
    moreover have "mutex_held (mutexes k m)" using mutex_okD [OF inv(3), of m] True by (auto simp: mutex_free_def)
    ultimately have "mutex_ok ?k"
      by (intro mutex_ok_update [OF inv(3), of m]) (simp_all add: mutex_held_def)
    then have "kernel_inv ?k" using i1 by (simp add: kernel_inv_def)
    then show ?thesis using True cur p1(3)
      by (intro that [of "Some RT_EOK" ?k]) (simp_all add: rt_mutex_take_def Let_def)
  next
    case False
    have f: "owner (mutexes ?k1 m) \<noteq> Some t" "ipc_flag_ok (mx_flag (mutexes ?k1 m))" using False assms(3) by simp_all
    obtain r k' where k': "mutex_take_again m time t ?k1 = Some (r, k')" "kernel_inv k'" "rt_current_thread k' \<noteq> None"
      "\<forall>d u. asleep d u ?k1 \<longrightarrow> asleep d u k'"
      "r = Some RT_EOK \<longrightarrow> owner (mutexes ?k1 m) = None \<and> owner (mutexes k' m) = Some t"
      "r = None \<longrightarrow> tstate k' t = RT_THREAD_SUSPEND \<and> t \<in> set (tlist k' (Suspend (Mutex m))) \<and> mutexes k' = mutexes ?k1 \<and>
       (\<forall>ow. owner (mutexes ?k1 m) = Some ow \<longrightarrow> current_priority (threads k' ow) \<le> current_priority (threads k' t)) \<and>
       (rt_scheduler_lock_nest ?k1 = 0 \<longrightarrow> highest_runs k')"
      by (rule mutex_again_ok [OF i1 r1 f assms(4)])
    have "rt_mutex_take m time k = Some (r, k')" using False cur k'(1) by (simp add: rt_mutex_take_def Let_def)
    then show ?thesis using k' p1(3) by (intro that [of r k']) simp_all
  qed
qed

lemma handover_ok:
  assumes "kernel_ok 0 k" "sem_ok k" "\<And>m'. m' \<noteq> m \<Longrightarrow> mutex_free (mutexes k m') \<and> tlist k (Suspend (Mutex m')) = [] \<or> mutex_held (mutexes k m')"
    "mx_value (mutexes k m) = 0" "hold (mutexes k m) = 0"
  obtains k' where "mutex_handover m k = Some (tlist k (Suspend (Mutex m)) \<noteq> [], k')" "kernel_inv k'"
    "rt_current_thread k' = rt_current_thread k" "\<forall>d u. asleep d u k \<longrightarrow> asleep d u k'"
    "rt_scheduler_lock_nest k' = rt_scheduler_lock_nest k"
    "owner (mutexes k' m) = (case tlist k (Suspend (Mutex m)) of [] \<Rightarrow> None | w # _ \<Rightarrow> Some w)"
    "\<forall>w ws. tlist k (Suspend (Mutex m)) = w # ws \<longrightarrow> runnable k' w \<and> tlist k' (Suspend (Mutex m)) = ws"
    "\<forall>u. threads k' u = (threads k u)\<lparr>stat := stat (threads k' u)\<rparr>"
proof (cases "tlist k (Suspend (Mutex m))")
  case Nil
  let ?k = "upd_mutex m (\<lambda>mx. mx\<lparr>mx_value := mx_value mx + 1, owner := None, original_priority := 0xff\<rparr>) k"
  have "mutex_ok ?k"
    unfolding mutex_ok_def
  proof
    fix m' show "mutex_free (mutexes ?k m') \<and> tlist ?k (Suspend (Mutex m')) = [] \<or> mutex_held (mutexes ?k m')"
      using assms(3) [of m'] assms(4,5) Nil by (cases "m' = m") (auto simp: mutex_free_def)
  qed
  then have "kernel_inv ?k" using assms(1,2) by (simp add: kernel_inv_def)
  then show ?thesis using Nil by (intro that [of ?k]) (simp_all add: mutex_handover_def)
next
  case (Cons w ws)
  let ?f = "\<lambda>mx. mx\<lparr>owner := Some w, original_priority := current_priority (threads k w), hold := hold mx + 1\<rparr>"
  let ?k = "upd_mutex m ?f k"
  have hq: "tlist ?k (Suspend (Mutex m)) = w # ws" and k: "kernel_ok 0 ?k" using Cons assms(1) by simp_all
  obtain k' where k': "rt_ipc_list_resume (Suspend (Mutex m)) ?k = Some k'" "kernel_ok 0 k'" "runnable k' w"
    "threads k' = (threads ?k)(w := (threads ?k w)\<lparr>stat := stat (threads k' w)\<rparr>)"
    "tlist k' (Suspend (Mutex m)) = ws" "\<forall>q. q \<noteq> Mutex m \<longrightarrow> tlist k' (Suspend q) = tlist ?k (Suspend q)"
    "rt_current_thread k' = rt_current_thread ?k" "\<forall>d u. asleep d u ?k \<longrightarrow> asleep d u k'"
    by (rule ipc_resume_ok [OF k hq])
  have fr: "sems k' = sems k" "mutexes k' = (mutexes k)(m := ?f (mutexes k m))"
    "rt_scheduler_lock_nest k' = rt_scheduler_lock_nest k"
    using sems_thread.frame_list_resume [OF k'(1)] mutexes_thread.frame_list_resume [OF k'(1)]
      lock_thread.frame_list_resume [OF k'(1)] by simp_all
  have "live k w" using waiting_suspended [OF assms(1), of w "Mutex m"] Cons by (simp add: live_def)
  then have "unat (current_priority (threads k w)) < 32"
    using live_ok(1) [OF kernel_okD(1) [OF assms(1)]] by (simp add: prio_ok_def)
  then have held: "mutex_held (mutexes k' m)" using assms(4,5) fr(2) by (simp add: mutex_held_def)
  have "mutex_ok k'"
    unfolding mutex_ok_def
  proof
    fix m' show "mutex_free (mutexes k' m') \<and> tlist k' (Suspend (Mutex m')) = [] \<or> mutex_held (mutexes k' m')"
      using assms(3) [of m'] held fr(2) k'(6) by (cases "m' = m") auto
  qed
  moreover have "sem_ok k'" using assms(2) k'(6) fr(1) by (simp add: sem_ok_def)
  ultimately have inv: "kernel_inv k'" using k'(2) by (simp add: kernel_inv_def)
  have o: "u \<noteq> w \<Longrightarrow> threads k' u = threads k u" for u by (subst k'(4)) simp
  have "threads k' w = (threads k w)\<lparr>stat := stat (threads k' w)\<rparr>" by (subst k'(4)) simp
  then have "threads k' u = (threads k u)\<lparr>stat := stat (threads k' u)\<rparr>" for u using o [of u] by (cases "u = w") simp_all
  moreover have "mutex_handover m k = Some (True, k')" using Cons k'(1) by (simp add: mutex_handover_def)
  ultimately show ?thesis using Cons k' inv fr by (intro that [of k']) simp_all
qed

lemma not_owner_release:
  "rt_current_thread k = Some t \<Longrightarrow> owner (mutexes k m) \<noteq> Some t \<Longrightarrow>
   rt_mutex_release m k = Some (- RT_ERROR, upd_thread t (\<lambda>th. th\<lparr>error := - RT_ERROR\<rparr>) k)"
  by (simp add: rt_mutex_release_def)

lemma restore_ok:
  assumes "kernel_ok lo k" "rt_current_thread k = Some t" "unat p < 32"
  obtains k' where "(if p \<noteq> current_priority (threads k t)
       then map_option snd (rt_thread_control t RT_THREAD_CTRL_CHANGE_PRIORITY p k) else Some k) = Some k'"
    "kernel_ok lo k'" "rt_current_thread k' = Some t" "current_priority (threads k' t) = p" "stat (threads k' t) = stat (threads k t)"
    "\<forall>u. u \<noteq> t \<longrightarrow> threads k' u = threads k u" "\<forall>q. tlist k' (Suspend q) = tlist k (Suspend q)"
    "sems k' = sems k" "mutexes k' = mutexes k" "rt_scheduler_lock_nest k' = rt_scheduler_lock_nest k"
    "\<forall>d u. asleep d u k \<longrightarrow> asleep d u k'"
proof (cases "p = current_priority (threads k t)")
  case True
  then show ?thesis using assms by (intro that [of k]) simp_all
next
  case False
  obtain k' where k': "rt_thread_control t RT_THREAD_CTRL_CHANGE_PRIORITY p k = Some (RT_EOK, k')" "kernel_ok lo k'"
    "threads k' = (threads k)(t := (with_priority p (threads k t))\<lparr>stat := stat (threads k' t)\<rparr>)"
    "\<forall>u. runnable k' u = runnable k u \<and> (\<not> runnable k u \<longrightarrow> stat (threads k' u) = stat (threads k u))"
    "\<forall>q. tlist k' (Suspend q) = tlist k (Suspend q)" "rt_current_thread k' = rt_current_thread k"
    "\<forall>d u. asleep d u k \<longrightarrow> asleep d u k'" "\<forall>c. rt_current_thread k = Some c \<longrightarrow> stat (threads k' c) = stat (threads k c)"
    by (rule change_priority_ok [OF assms(1,3)])
  have "u \<noteq> t \<Longrightarrow> threads k' u = threads k u" for u by (subst k'(3)) simp
  moreover have "current_priority (threads k' t) = p" by (subst k'(3)) simp
  ultimately show ?thesis
    using False k' assms(2) sems_thread.frame_change_priority [OF k'(1)] mutexes_thread.frame_change_priority [OF k'(1)]
      lock_thread.frame_change_priority [OF k'(1)]
    by (intro that [of k']) simp_all
qed

text \<open>The last release of a mutex by its owner: its priority is the one it had before, and the first waiter is the new owner.\<close>

lemma mutex_release_ok:
  assumes "kernel_inv k" "rt_current_thread k = Some t"
  obtains e k' where "rt_mutex_release m k = Some (e, k')" "kernel_inv k'" "rt_current_thread k' \<noteq> None"
    "\<forall>d u. asleep d u k \<longrightarrow> asleep d u k'"
    "e = RT_EOK \<longleftrightarrow> owner (mutexes k m) = Some t"
    "owner (mutexes k m) = Some t \<and> hold (mutexes k m) = 1 \<longrightarrow>
       current_priority (threads k' t) = original_priority (mutexes k m) \<and>
       owner (mutexes k' m) = (case tlist k (Suspend (Mutex m)) of [] \<Rightarrow> None | w # _ \<Rightarrow> Some w) \<and>
       (\<forall>w ws. tlist k (Suspend (Mutex m)) = w # ws \<longrightarrow> runnable k' w \<and> tlist k' (Suspend (Mutex m)) = ws \<and>
          (rt_scheduler_lock_nest k = 0 \<longrightarrow> highest_runs k'))"
    "owner (mutexes k m) = Some t \<and> hold (mutexes k m) \<noteq> 1 \<longrightarrow> owner (mutexes k' m) = Some t"
proof -
  have inv: "kernel_ok 0 k" "sem_ok k" "mutex_ok k" using assms(1) by (simp_all add: kernel_inv_def)
  consider (other) "owner (mutexes k m) \<noteq> Some t" | (nested) "owner (mutexes k m) = Some t" "hold (mutexes k m) \<noteq> 1"
    | (last) "owner (mutexes k m) = Some t" "hold (mutexes k m) = 1" by blast
  then show ?thesis
  proof cases
    case other
    let ?k = "upd_thread t (\<lambda>th. th\<lparr>error := - RT_ERROR\<rparr>) k"
    have "kernel_inv ?k"
      using set_error_ok(1) [OF inv(1) assms(2)] inv(2,3) sem_keep.keep_upd_thread mutex_keep.keep_upd_thread by (simp add: kernel_inv_def)
    then show ?thesis using other assms(2) set_error_ok(3) [OF inv(1) assms(2)]
      by (intro that [OF not_owner_release [OF assms(2) other]]) simp_all
  next
    case nested
    let ?k = "upd_mutex m (\<lambda>mx. mx\<lparr>hold := hold mx - 1\<rparr>) k"
    have h: "mutex_held (mutexes k m)" using mutex_okD [OF inv(3), of m] nested(1) by (auto simp: mutex_free_def)
    then have "mutex_ok ?k" using nested(2) by (intro mutex_ok_update [OF inv(3), of m]) (simp_all add: mutex_held_def)
    then have "kernel_inv ?k" using inv by (simp add: kernel_inv_def)
    moreover have "rt_mutex_release m k = Some (RT_EOK, ?k)" using nested assms(2) by (simp add: rt_mutex_release_def)
    ultimately show ?thesis using nested assms(2) by (intro that [of RT_EOK ?k]) simp_all
  next
    case last
    let ?k = "upd_mutex m (\<lambda>mx. mx\<lparr>hold := hold mx - 1\<rparr>) k" and ?p = "original_priority (mutexes k m)"
    have h: "mutex_held (mutexes k m)" using mutex_okD [OF inv(3), of m] last(1) by (auto simp: mutex_free_def)
    then have p: "unat ?p < 32" by (simp add: mutex_held_def)
    have c: "kernel_ok 0 ?k" "rt_current_thread ?k = Some t" using inv(1) assms(2) by simp_all
    obtain k1 where k1: "(if ?p \<noteq> current_priority (threads ?k t)
         then map_option snd (rt_thread_control t RT_THREAD_CTRL_CHANGE_PRIORITY ?p ?k) else Some ?k) = Some k1"
      "kernel_ok 0 k1" "rt_current_thread k1 = Some t" "current_priority (threads k1 t) = ?p"
      "stat (threads k1 t) = stat (threads ?k t)"
      "\<forall>u. u \<noteq> t \<longrightarrow> threads k1 u = threads ?k u" "\<forall>q. tlist k1 (Suspend q) = tlist ?k (Suspend q)"
      "sems k1 = sems ?k" "mutexes k1 = mutexes ?k" "rt_scheduler_lock_nest k1 = rt_scheduler_lock_nest ?k"
      "\<forall>d u. asleep d u ?k \<longrightarrow> asleep d u k1"
      by (rule restore_ok [OF c p])
    have s1: "sem_ok k1" using inv(2) k1(7,8) by (simp add: sem_ok_def)
    have m1: "mutex_free (mutexes k1 m') \<and> tlist k1 (Suspend (Mutex m')) = [] \<or> mutex_held (mutexes k1 m')" if "m' \<noteq> m" for m'
      using that mutex_okD [OF inv(3), of m'] k1(7,9) by simp
    have h1: "mx_value (mutexes k1 m) = 0" "hold (mutexes k1 m) = 0" using h last(2) k1(9) by (simp_all add: mutex_held_def)
    obtain k2 where k2: "mutex_handover m k1 = Some (tlist k1 (Suspend (Mutex m)) \<noteq> [], k2)" "kernel_inv k2"
      "rt_current_thread k2 = rt_current_thread k1" "\<forall>d u. asleep d u k1 \<longrightarrow> asleep d u k2"
      "rt_scheduler_lock_nest k2 = rt_scheduler_lock_nest k1"
      "owner (mutexes k2 m) = (case tlist k1 (Suspend (Mutex m)) of [] \<Rightarrow> None | w # _ \<Rightarrow> Some w)"
      "\<forall>w ws. tlist k1 (Suspend (Mutex m)) = w # ws \<longrightarrow> runnable k2 w \<and> tlist k2 (Suspend (Mutex m)) = ws"
      "\<forall>u. threads k2 u = (threads k1 u)\<lparr>stat := stat (threads k2 u)\<rparr>"
      by (rule handover_ok [OF k1(2) s1 m1 h1])
    have q: "tlist k1 (Suspend (Mutex m)) = tlist k (Suspend (Mutex m))" using k1(7) by simp
    have pt: "current_priority (threads k2 t) = ?p" using arg_cong [OF k2(8) [rule_format, of t], of current_priority] k1(4) by simp
    have "rt_mutex_release m k = do {
        k \<leftarrow> (if ?p \<noteq> current_priority (threads ?k t)
             then map_option snd (rt_thread_control t RT_THREAD_CTRL_CHANGE_PRIORITY ?p ?k) else Some ?k);
        (need_schedule, k) \<leftarrow> mutex_handover m k;
        k \<leftarrow> (if need_schedule then rt_schedule k else Some k);
        Some (RT_EOK, k) }"
      using last assms(2) by (simp add: rt_mutex_release_def Let_def)
    then have body: "rt_mutex_release m k = do { k \<leftarrow> (if tlist k (Suspend (Mutex m)) \<noteq> [] then rt_schedule k2 else Some k2); Some (RT_EOK, k) }"
      unfolding k1(1) using k2(1) q by simp
    show ?thesis
    proof (cases "tlist k (Suspend (Mutex m))")
      case Nil
      then show ?thesis using body k2 k1 q pt last by (intro that [of RT_EOK k2]) simp_all
    next
      case (Cons w ws)
      have k2i: "kernel_ok 0 k2" "sem_ok k2" "mutex_ok k2" using k2(2) by (simp_all add: kernel_inv_def)
      have "rt_current_thread k2 = Some t" using k2(3) k1(3) by simp
      then obtain k' c' where k': "rt_schedule k2 = Some k'" "kernel_ok 0 k'" "rescheduled k2 k'" "rt_current_thread k' = Some c'"
        "rt_scheduler_lock_nest k2 = 0 \<longrightarrow> highest_runs k'" "\<forall>d u. asleep d u k2 \<longrightarrow> asleep d u k'"
        by (rule schedule_ok [OF k2i(1)])
      have i: "kernel_inv k'"
        using k'(2) sem_keep.keep_schedule [OF k'(1) k2i(2)] mutex_keep.keep_schedule [OF k'(1) k2i(3)] by (simp add: kernel_inv_def)
      have "mutexes k' = mutexes k2" by (rule mutexes_frame.frame_schedule [OF k'(1)])
      then show ?thesis
        using Cons body k'(1,4,5,6) i k2 k1 q pt last rescheduled_thread(1,8) [OF k'(3)] rescheduled_lists(1) [OF k'(3)]
        by (intro that [of RT_EOK k']) simp_all
    qed
  qed
qed

end
