(* ===== verification/Kernel_Calls.thy ===== *)
theory Kernel_Calls
  imports Thread_Init Ipc_Sync
begin

text \<open>
  The calls of the kernel as one machine. A call is a kernel function with its arguments; \<open>kernel_call\<close> executes it and
  \<open>allowed\<close> says when the documentation of the kernel permits it. \<open>Tick\<close> is the tick interrupt.
\<close>

datatype kcall =
  Thread_init tid string u32 u32 u32 u32 u8 u32 | Thread_startup tid | Thread_suspend tid | Thread_resume tid
| Thread_sleep u32 | Thread_mdelay int | Thread_delay_until u32 u32 | Thread_yield | Thread_set_priority tid u8
| Thread_detach tid | Thread_delete tid | Thread_exit
| Timer_init nat string u32 nat u32 u8 | Timer_start nat | Timer_stop nat | Timer_control nat int u32 | Timer_detach nat
| Enter_critical | Exit_critical | Scheduler_start | Tick
| Sem_init nat string u32 u8 | Sem_take nat int | Sem_release nat | Sem_control nat int u32 | Sem_detach nat
| Mutex_init nat string u8 | Mutex_take nat int | Mutex_release nat | Mutex_detach nat

fun kernel_call :: "(u32 \<Rightarrow> nat \<Rightarrow> kernel \<Rightarrow> kernel option) \<Rightarrow> u32 \<Rightarrow> kcall \<Rightarrow> kernel \<Rightarrow> kernel option" where
  "kernel_call usr texit (Thread_init t nm ent param start sz prio tick) k = rt_thread_init texit t nm ent param start sz prio tick k"
| "kernel_call usr texit (Thread_startup t) k = map_option snd (rt_thread_startup t k)"
| "kernel_call usr texit (Thread_suspend t) k = map_option snd (rt_thread_suspend t k)"
| "kernel_call usr texit (Thread_resume t) k = map_option snd (rt_thread_resume t k)"
| "kernel_call usr texit (Thread_sleep n) k = rt_thread_sleep n k"
| "kernel_call usr texit (Thread_mdelay ms) k = rt_thread_mdelay ms k"
| "kernel_call usr texit (Thread_delay_until tick inc) k = map_option (snd \<circ> snd) (rt_thread_delay_until tick inc k)"
| "kernel_call usr texit Thread_yield k = map_option snd (rt_thread_yield k)"
| "kernel_call usr texit (Thread_set_priority t p) k = map_option snd (rt_thread_control t RT_THREAD_CTRL_CHANGE_PRIORITY p k)"
| "kernel_call usr texit (Thread_detach t) k = map_option snd (rt_thread_detach t k)"
| "kernel_call usr texit (Thread_delete t) k = map_option snd (rt_thread_delete t k)"
| "kernel_call usr texit Thread_exit k = rt_thread_exit k"
| "kernel_call usr texit (Timer_init n nm f p time flg) k = rt_timer_init (Timer n) nm (User_timeout f) p time flg k"
| "kernel_call usr texit (Timer_start n) k = Some (rt_timer_start (Timer n) k)"
| "kernel_call usr texit (Timer_stop n) k = Some (snd (rt_timer_stop (Timer n) k))"
| "kernel_call usr texit (Timer_control n cmd arg) k = Some (snd (rt_timer_control (Timer n) cmd arg k))"
| "kernel_call usr texit (Timer_detach n) k = Some (rt_timer_detach (Timer n) k)"
| "kernel_call usr texit Enter_critical k = Some (rt_enter_critical k)"
| "kernel_call usr texit Exit_critical k = rt_exit_critical k"
| "kernel_call usr texit Scheduler_start k = rt_system_scheduler_start k"
| "kernel_call usr texit Tick k = SysTick_Handler usr k"
| "kernel_call usr texit (Sem_init s nm v flg) k = map_option snd (rt_sem_init s nm v flg k)"
| "kernel_call usr texit (Sem_take s time) k = map_option snd (rt_sem_take s time k)"
| "kernel_call usr texit (Sem_release s) k = map_option snd (rt_sem_release s k)"
| "kernel_call usr texit (Sem_control s cmd arg) k = map_option snd (rt_sem_control s cmd arg k)"
| "kernel_call usr texit (Sem_detach s) k = map_option snd (rt_sem_detach s k)"
| "kernel_call usr texit (Mutex_init m nm flg) k = map_option snd (rt_mutex_init m nm flg k)"
| "kernel_call usr texit (Mutex_take m time) k = map_option snd (rt_mutex_take m time k)"
| "kernel_call usr texit (Mutex_release m) k = map_option snd (rt_mutex_release m k)"
| "kernel_call usr texit (Mutex_detach m) k = map_option snd (rt_mutex_detach m k)"

text \<open>
  Calls that can give up the processor come from the running thread. A waiting time is below half the range of the tick, the
  number of nested takes of a mutex below 256, and a periodic timer has a period.
\<close>

fun allowed :: "kernel \<Rightarrow> kcall \<Rightarrow> bool" where
  "allowed k (Thread_init t nm ent param start sz prio tick) \<longleftrightarrow> unused k t \<and> stack_area k start sz \<and> unat prio < 32"
| "allowed k (Thread_startup t) \<longleftrightarrow> startable k t \<and> rt_current_thread k \<noteq> Some t"
| "allowed k (Thread_suspend t) \<longleftrightarrow> True"
| "allowed k (Thread_resume t) \<longleftrightarrow> True"
| "allowed k (Thread_sleep n) \<longleftrightarrow> (\<exists>t. running k t) \<and> n < 0x7fffffff"
| "allowed k (Thread_mdelay ms) \<longleftrightarrow> (\<exists>t. running k t) \<and> rt_tick_from_millisecond ms < 0x7fffffff"
| "allowed k (Thread_delay_until tick inc) \<longleftrightarrow> (\<exists>t. running k t) \<and> rt_tick k - tick + inc < 0x7fffffff"
| "allowed k Thread_yield \<longleftrightarrow> rt_current_thread k \<noteq> None"
| "allowed k (Thread_set_priority t p) \<longleftrightarrow> unat p < 32"
| "allowed k (Thread_detach t) \<longleftrightarrow> closable k t"
| "allowed k (Thread_delete t) \<longleftrightarrow> closable k t"
| "allowed k Thread_exit \<longleftrightarrow> (\<exists>t. running k t)"
| "allowed k (Timer_init n nm f p time flg) \<longleftrightarrow> Timer n \<notin> set (rt_timer_list k)"
| "allowed k (Timer_start n) \<longleftrightarrow> user_timer_ok (timers k (Timer n)) \<and> tm_init_tick (timers k (Timer n)) < 0x7fffffff"
| "allowed k (Timer_stop n) \<longleftrightarrow> True"
| "allowed k (Timer_control n cmd arg) \<longleftrightarrow> Timer n \<in> set (rt_timer_list k) \<longrightarrow>
     user_timer_ok (timers (snd (rt_timer_control (Timer n) cmd arg k)) (Timer n))"
| "allowed k (Timer_detach n) \<longleftrightarrow> True"
| "allowed k Enter_critical \<longleftrightarrow> True"
| "allowed k Exit_critical \<longleftrightarrow> True"
| "allowed k Scheduler_start \<longleftrightarrow> rt_current_thread k = None \<and> rt_thread_ready_priority_group k \<noteq> 0"
| "allowed k Tick \<longleftrightarrow> rt_current_thread k \<noteq> None"
| "allowed k (Sem_init s nm v flg) \<longleftrightarrow> tlist k (Suspend (Sem s)) = []"
| "allowed k (Sem_take s time) \<longleftrightarrow> (\<exists>t. running k t) \<and> ipc_flag_ok (sem_flag (sems k s)) \<and> wait_time_ok time"
| "allowed k (Sem_release s) \<longleftrightarrow> rt_current_thread k \<noteq> None"
| "allowed k (Sem_control s cmd arg) \<longleftrightarrow> rt_current_thread k \<noteq> None"
| "allowed k (Sem_detach s) \<longleftrightarrow> True"
| "allowed k (Mutex_init m nm flg) \<longleftrightarrow> tlist k (Suspend (Mutex m)) = []"
| "allowed k (Mutex_take m time) \<longleftrightarrow> (\<exists>t. running k t \<and> (owner (mutexes k m) = Some t \<longrightarrow> hold (mutexes k m) \<noteq> 255)) \<and>
     ipc_flag_ok (mx_flag (mutexes k m)) \<and> wait_time_ok time"
| "allowed k (Mutex_release m) \<longleftrightarrow> rt_current_thread k \<noteq> None"
| "allowed k (Mutex_detach m) \<longleftrightarrow> True"

section \<open>User timers\<close>

lemma user_timer_update:
  assumes "kernel_ok lo k" "Timer n \<in> set (rt_timer_list k) \<Longrightarrow>
    timeout_tick (f (timers k (Timer n))) = timeout_tick (timers k (Timer n)) \<and> user_timer_ok (f (timers k (Timer n)))"
  shows "kernel_ok lo (upd_timer (Timer n) f k)" "asleep d u (upd_timer (Timer n) f k) = asleep d u k"
proof -
  let ?k = "upd_timer (Timer n) f k"
  note ok = kernel_okD [OF assms(1)]
  have "sched_ok ?k" "cur_ok ?k" using ok(1,2) by (simp_all add: sched_timer.frame_upd_timer cur_timer.frame_upd_timer)
  moreover have "timer_window lo ?k"
    using ok(3) assms(2) by (subst timer_window_cong [of ?k k]) (auto simp: tick_timer.frame_upd_timer)
  moreover have "live ?k u = live k u" for u by (simp add: live_def threads_timer.frame_upd_timer)
  then have "timer_links ?k" using ok(4) assms(2) by (auto simp: timer_links_def threads_timer.frame_upd_timer)
  ultimately show "kernel_ok lo ?k" by (simp add: kernel_ok_def)
  show "asleep d u ?k = asleep d u k"
    by (simp add: asleep_def threads_timer.frame_upd_timer tlist_timer.frame_upd_timer)
qed

lemma asleep_remove_user: "asleep d u (timer_remove (Timer n) k) = asleep d u k"
  by (simp add: asleep_def threads_timer.frame_timer_remove tlist_timer.frame_timer_remove)

lemma user_stop_ok:
  assumes "kernel_ok lo k"
  shows "kernel_ok lo (snd (rt_timer_stop (Timer n) k))" "asleep d u (snd (rt_timer_stop (Timer n) k)) = asleep d u k"
proof -
  have r: "kernel_ok lo (timer_remove (Timer n) k)" by (rule timer_remove_ok [OF assms])
  have n: "Timer n \<notin> set (rt_timer_list (timer_remove (Timer n) k))" by simp
  show "kernel_ok lo (snd (rt_timer_stop (Timer n) k))" "asleep d u (snd (rt_timer_stop (Timer n) k)) = asleep d u k"
    using assms user_timer_update [OF r, of n] n by (simp_all add: rt_timer_stop_def asleep_remove_user)
qed

lemma user_control_ok:
  assumes "kernel_ok lo k" "allowed k (Timer_control n cmd arg)"
  shows "kernel_ok lo (snd (rt_timer_control (Timer n) cmd arg k))"
    "asleep d u (snd (rt_timer_control (Timer n) cmd arg k)) = asleep d u k"
  using assms by (auto simp: rt_timer_control_def user_timer_update split: if_splits)

lemma user_detach_ok:
  assumes "kernel_ok lo k"
  shows "kernel_ok lo (rt_timer_detach (Timer n) k)" "asleep d u (rt_timer_detach (Timer n) k) = asleep d u k"
  using timer_remove_ok [OF assms] by (simp_all add: rt_timer_detach_def asleep_remove_user)

lemma user_start_ok:
  assumes "kernel_ok 0 k" "allowed k (Timer_start n)"
  shows "kernel_ok 0 (rt_timer_start (Timer n) k)" "asleep d u k \<Longrightarrow> asleep d u (rt_timer_start (Timer n) k)"
  using assms timer_start_ok [OF assms(1), of "Timer n"] asleep_timer_start [of d u k "Timer n"] by simp_all

lemma user_init_ok:
  assumes "kernel_ok lo k" "allowed k (Timer_init n nm f p time flg)"
  obtains k' where "rt_timer_init (Timer n) nm (User_timeout f) p time flg k = Some k'" "kernel_ok lo k'"
    "rt_current_thread k' = None \<longleftrightarrow> rt_current_thread k = None" "\<forall>d u. asleep d u k \<longrightarrow> asleep d u k'"
proof -
  obtain k1 where k1: "rt_object_init (Timer_obj (Timer n)) RT_Object_Class_Timer nm k = Some k1" "kernel_ok lo k1" "rescheduled k k1"
    "rt_current_thread k1 = None \<longleftrightarrow> rt_current_thread k = None" "\<forall>d u. asleep d u k \<longrightarrow> asleep d u k1"
    "timers k1 = timers k" "rt_timer_list k1 = rt_timer_list k" "mem k1 = mem k"
    "objects k1 = (objects k)(Timer_obj (Timer n) := \<lparr>obj_type = RT_Object_Class_Timer OR RT_Object_Class_Static, obj_name = take RT_NAME_MAX nm\<rparr>)"
    "rt_current_thread k1 = rt_current_thread k \<or> (\<exists>c. running k1 c)"
    by (rule object_init_ok [OF assms(1)])
  have n: "Timer n \<notin> set (rt_timer_list k1)" using assms(2) k1(7) by simp
  then show thesis
    using k1 user_timer_update [OF k1(2), of n]
    by (intro that [of "timer_init (Timer n) (User_timeout f) p time flg k1"])
      (simp_all add: rt_timer_init_def timer_init_def current_timer.frame_upd_timer)
qed

section \<open>What no call changes\<close>

text \<open>A part of the kernel that neither the lists, the timers, the objects, the lock nor the memory determine.\<close>

locale call_frame = thread_frame f for f :: "kernel \<Rightarrow> 'a" +
  assumes f_objects: "f (k\<lparr>objects := ob\<rparr>) = f k" and f_object_list: "f (k\<lparr>object_list := ol\<rparr>) = f k"
    and f_lock: "f (k\<lparr>rt_scheduler_lock_nest := n\<rparr>) = f k" and f_mem: "f (k\<lparr>mem := m\<rparr>) = f k"
begin

lemma frame_exit_critical: "rt_exit_critical k = Some k' \<Longrightarrow> f k' = f k"
  by (auto simp: rt_exit_critical_def Let_def f_lock split: if_splits dest!: frame_schedule)

lemma frame_object_init: "rt_object_init ob ty nm k = Some k' \<Longrightarrow> f k' = f k"
  using f_objects f_object_list
  by (auto simp: rt_object_init_def rt_enter_critical_def f_lock split: bind_splits dest!: frame_exit_critical)

lemma frame_object_detach: "f (rt_object_detach ob k) = f k"
  by (simp add: rt_object_detach_def f_objects f_object_list)

lemma frame_timer_detach: "f (rt_timer_detach tm k) = f k"
  by (simp add: rt_timer_detach_def frame_object_detach frame_timer_remove)

lemma frame_release: "f (thread_release t k) = f k"
  by (simp add: thread_release_def frame_object_detach f_tlist)

lemma frame_timer_init: "rt_timer_init tm nm g p time flg k = Some k' \<Longrightarrow> f k' = f k"
  by (auto simp: rt_timer_init_def timer_init_def frame_upd_timer split: bind_splits dest: frame_object_init)

lemma frame_thread_init: "rt_thread_init texit t nm ent param start sz prio tick k = Some k' \<Longrightarrow> f k' = f k"
  by (auto simp: rt_thread_init_def thread_init_def Let_def frame_upd_thread f_mem split: bind_splits prod.splits
      dest!: frame_object_init frame_timer_init)

lemma frame_detach: "rt_thread_detach t k = Some (e, k') \<Longrightarrow> f k' = f k"
  by (auto simp: rt_thread_detach_def Let_def frame_release frame_upd_thread frame_timer_detach
      split: bind_splits if_splits dest!: frame_remove)

lemma frame_delete: "rt_thread_delete t k = Some (e, k') \<Longrightarrow> f k' = f k"
  by (auto simp: rt_thread_delete_def Let_def f_tlist frame_upd_thread frame_timer_detach
      split: bind_splits if_splits dest!: frame_remove)

lemma frame_exit: "rt_thread_exit k = Some k' \<Longrightarrow> f k' = f k"
  by (auto simp: rt_thread_exit_def Let_def frame_release frame_upd_thread frame_timer_detach
      split: bind_splits dest!: frame_remove frame_schedule)

lemma frame_start: "rt_system_scheduler_start k = Some k' \<Longrightarrow> f k' = f k"
  by (auto simp: rt_system_scheduler_start_def frame_upd_thread f_current split: bind_splits dest!: frame_remove)

end

locale ipc_frame = call_frame f for f :: "kernel \<Rightarrow> 'a" +
  assumes f_sems: "f (k\<lparr>sems := s\<rparr>) = f k" and f_mutexes: "f (k\<lparr>mutexes := m\<rparr>) = f k"
begin

lemma frame_upd_sem: "f (upd_sem s g k) = f k"
  by (simp add: upd_sem_def f_sems)

lemma frame_upd_mutex: "f (upd_mutex m h k) = f k"
  by (simp add: upd_mutex_def f_mutexes)

lemma frame_sem_init: "rt_sem_init s nm v flg k = Some (e, k') \<Longrightarrow> f k' = f k"
  by (auto simp: rt_sem_init_def rt_ipc_object_init_def Let_def frame_upd_sem f_tlist split: bind_splits dest: frame_object_init)

lemma frame_sem_take: "rt_sem_take s time k = Some (r, k') \<Longrightarrow> f k' = f k"
  by (auto simp: rt_sem_take_def Let_def frame_upd_sem frame_upd_thread split: if_splits bind_splits
      dest!: frame_list_suspend frame_wait)

lemma frame_sem_release: "rt_sem_release s k = Some (e, k') \<Longrightarrow> f k' = f k"
  by (auto simp: rt_sem_release_def frame_upd_sem split: if_splits bind_splits dest!: frame_list_resume frame_schedule)

lemma frame_sem_control: "rt_sem_control s cmd arg k = Some (e, k') \<Longrightarrow> f k' = f k"
  by (auto simp: rt_sem_control_def frame_upd_sem split: if_splits bind_splits dest!: frame_resume_all frame_schedule)

lemma frame_sem_detach: "rt_sem_detach s k = Some (e, k') \<Longrightarrow> f k' = f k"
  by (auto simp: rt_sem_detach_def frame_object_detach split: bind_splits dest!: frame_resume_all)

lemma frame_mutex_init: "rt_mutex_init m nm flg k = Some (e, k') \<Longrightarrow> f k' = f k"
  by (auto simp: rt_mutex_init_def rt_ipc_object_init_def Let_def frame_upd_mutex f_tlist split: bind_splits dest: frame_object_init)

lemma frame_mutex_again: "mutex_take_again m time t k = Some (r, k') \<Longrightarrow> f k' = f k"
  by (auto simp: mutex_take_again_def Let_def frame_upd_mutex frame_upd_thread split: if_splits bind_splits
      dest!: frame_change_priority frame_list_suspend frame_wait)

lemma frame_mutex_take: "rt_mutex_take m time k = Some (r, k') \<Longrightarrow> f k' = f k"
  by (auto simp: rt_mutex_take_def Let_def frame_upd_mutex frame_upd_thread split: if_splits bind_splits dest!: frame_mutex_again)

lemma frame_handover: "mutex_handover m k = Some (b, k') \<Longrightarrow> f k' = f k"
  by (auto simp: mutex_handover_def Let_def frame_upd_mutex split: list.splits bind_splits dest!: frame_list_resume)

lemma frame_mutex_release: "rt_mutex_release m k = Some (e, k') \<Longrightarrow> f k' = f k"
  by (auto simp: rt_mutex_release_def Let_def frame_upd_mutex frame_upd_thread split: if_splits bind_splits
      dest!: frame_change_priority frame_handover frame_schedule)

lemma frame_mutex_detach: "rt_mutex_detach m k = Some (e, k') \<Longrightarrow> f k' = f k"
  by (auto simp: rt_mutex_detach_def frame_object_detach split: bind_splits dest!: frame_resume_all)

end

interpretation tick_call: ipc_frame rt_tick by unfold_locales simp_all

context waiting
begin

lemma keep_timer_init: "rt_timer_init tm nm g p time flg k = Some k' \<Longrightarrow> P k \<Longrightarrow> P k'"
  by (auto simp: rt_timer_init_def timer_init_def frame_upd_timer split: bind_splits dest: keep_object_init)

lemma keep_thread_init: "rt_thread_init texit t nm ent param start sz prio tick k = Some k' \<Longrightarrow> P k \<Longrightarrow> P k'"
  by (auto simp: rt_thread_init_def thread_init_def Let_def keep_upd_thread p_mem split: bind_splits prod.splits
      dest!: keep_object_init keep_timer_init)

lemma keep_start: "rt_system_scheduler_start k = Some k' \<Longrightarrow> P k \<Longrightarrow> P k'"
  by (auto simp: rt_system_scheduler_start_def keep_upd_thread p_current split: bind_splits dest!: keep_remove)

end

text \<open>
  The thread calls that look at no semaphore and no mutex: what they promise to the machine.
\<close>

definition wakes :: "kcall \<Rightarrow> tid \<Rightarrow> bool" where
  "wakes c t \<longleftrightarrow> c = Thread_resume t \<or> c = Thread_detach t \<or> c = Thread_delete t"

definition call_done :: "kcall \<Rightarrow> kernel \<Rightarrow> kernel \<Rightarrow> bool" where
  "call_done c k k' \<longleftrightarrow> kernel_inv k' \<and> rt_tick k' = rt_tick k \<and>
     (rt_current_thread k \<noteq> None \<longrightarrow> rt_current_thread k' \<noteq> None) \<and>
     (\<forall>d t. asleep d t k \<longrightarrow> \<not> wakes c t \<longrightarrow> asleep d t k')"

lemma call_doneI:
  assumes "kernel_ok 0 k'" "sem_ok k'" "mutex_ok k'" "rt_tick k' = rt_tick k"
    "rt_current_thread k \<noteq> None \<Longrightarrow> rt_current_thread k' \<noteq> None"
    "\<And>d t. asleep d t k \<Longrightarrow> \<not> wakes c t \<Longrightarrow> asleep d t k'"
  shows "call_done c k k'"
  using assms by (simp add: call_done_def kernel_inv_def)

lemma running_unique: "running k t \<Longrightarrow> running k u \<Longrightarrow> u = t"
  by (simp add: running_def)

lemma block_call:
  assumes "kernel_inv k" "running k t" "n < 0x7fffffff"
  obtains k' where "thread_block t n k = Some k'" "call_done c k k'"
proof -
  have inv: "kernel_ok 0 k" "sem_ok k" "mutex_ok k" using assms(1) by (simp_all add: kernel_inv_def)
  have c: "rt_current_thread k = Some t" using assms(2) by (simp add: running_def)
  obtain k' where k': "thread_block t n k = Some k'" "kernel_ok 0 k'" "asleep (rt_tick k + n) t k'"
    "\<forall>d u. asleep d u k \<longrightarrow> asleep d u k'" "rt_current_thread k' \<noteq> None"
    "rt_scheduler_lock_nest k = 0 \<longrightarrow> highest_runs k'"
    by (rule block_ok [OF inv(1) _ _ running_runnable [OF assms(2)] c assms(3)]) simp_all
  have "call_done c k k'"
    using k' sem_keep.keep_block [OF k'(1) inv(2)] mutex_keep.keep_block [OF k'(1) inv(3)] tick_thread.frame_block [OF k'(1)]
    by (intro call_doneI) simp_all
  then show thesis using k'(1) by (rule that [rotated])
qed

end
