(* ===== verification/Kernel_Run.thy ===== *)
theory Kernel_Run
  imports Kernel_Calls
begin

text \<open>
  Every allowed call returns and keeps the invariant of the kernel; the kernel from its initialisation on as a
  state machine; a sleeping thread over a sequence of calls and ticks.
\<close>

section \<open>The start of the scheduler\<close>

lemma start_ok:
  assumes "kernel_ok lo k" "rt_current_thread k = None" "rt_thread_ready_priority_group k \<noteq> 0"
  obtains to k' where "rt_system_scheduler_start k = Some k'" "kernel_ok lo k'" "running k' to" "highest_runs k'"
    "tstate k to = RT_THREAD_READY" "\<forall>d u. asleep d u k \<longrightarrow> asleep d u k'"
proof -
  note ok = kernel_okD [OF assms(1)]
  obtain to p r where h: "get_highest_priority_thread k = Some (to, p)" "tlist k (Ready p) = to # r" "p < 32"
    "\<And>i. i < p \<Longrightarrow> tlist k (Ready i) = []"
    by (rule highest_thread [OF ok(1) assms(3)]) blast
  let ?k1 = "k\<lparr>rt_current_thread := Some to\<rparr>"
  have rdy: "tstate k to = RT_THREAD_READY" "tprio k to = p" using in_ready(2,3) [OF ok(1), of to p] h(2) by simp_all
  have nr: "tstate k t \<noteq> RT_THREAD_RUNNING" for t using running_is_current [OF ok(1), of t] assms(2) by auto
  have "?k1 = k\<lparr>rt_current_priority := rt_current_priority k, rt_current_thread := Some to\<rparr>" by simp
  then have s1: "sched_ok ?k1" using change_current [OF ok(1), where p = "rt_current_priority k" and c = "Some to"] nr by simp
  have "live k to" using rdy by (simp add: live_def)
  note l = live_ok [OF ok(1) _ this, simplified]
  have p1: "prio_ok (threads ?k1 to)" using l(1) by simp
  obtain k2 where k2: "rt_schedule_remove_thread to ?k1 = Some k2" "sched_but (insert to {}) k2" "threads k2 = threads ?k1"
    "tlist k2 = (\<lambda>h. removeAll to (tlist ?k1 h))" "rt_current_thread k2 = rt_current_thread ?k1"
    "rt_scheduler_lock_nest k2 = rt_scheduler_lock_nest ?k1"
    by (rule remove_thread_spec [OF s1 p1])
  let ?k = "upd_thread to (\<lambda>th. th\<lparr>stat := RT_THREAD_RUNNING\<rparr>) k2"
  have fr: "mem k2 = mem k" "timers k2 = timers k" "rt_timer_list k2 = rt_timer_list k" "rt_tick k2 = rt_tick k"
    using mem_frame.frame_remove [OF k2(1)] timers_frame.frame_remove [OF k2(1)] timer_list_frame.frame_remove [OF k2(1)]
      tick_frame.frame_remove [OF k2(1)] by simp_all
  have "rt_scheduler_stack_check to ?k" using l(2) k2(3) fr(1) by (simp add: rt_scheduler_stack_check_def Let_def)
  then have "thread_ok ?k to" using l(1) k2(3,5) by (simp add: thread_ok_def prio_ok_def)
  then have so: "sched_ok ?k" using aside_update [OF k2(2), of to] aside_drop [of "{to}" ?k to] by simp
  have st: "tstate ?k u = (if u = to then RT_THREAD_RUNNING else tstate k u)" for u using k2(3) by simp
  have run: "running ?k to" using st [of to] k2(5) by (simp add: running_def)
  have "cur_ok ?k" using run by (simp add: cur_ok_def running_def)
  moreover have "timer_window lo ?k" by (rule window_sched [OF ok(3)]) (simp_all add: fr)
  moreover have "timer_links ?k"
    by (rule timer_links_cong [OF ok(4)]) (use fr rdy ok(4) st in \<open>auto simp: timer_links_def live_def split: if_splits\<close>)
  ultimately have kok: "kernel_ok lo ?k" using so by (simp add: kernel_ok_def)
  have "highest_runs ?k"
    unfolding highest_runs_def
  proof (intro allI impI)
    fix c u assume c: "rt_current_thread ?k = Some c" and u: "tstate ?k u = RT_THREAD_READY"
    then have "c = to" "u \<noteq> to" "tstate k u = RT_THREAD_READY" using k2(5) st [of u] by (auto split: if_splits)
    then have "p \<le> tprio k u" using no_ready_below [OF ok(1) h(4)] by simp
    then show "tstate ?k c = RT_THREAD_RUNNING \<and> tprio ?k c \<le> tprio ?k u"
      using \<open>c = to\<close> \<open>u \<noteq> to\<close> rdy k2(3) by simp
  qed
  moreover have "rt_system_scheduler_start k = Some ?k" using h(1) k2(1) by (simp add: rt_system_scheduler_start_def)
  moreover have "asleep d u ?k" if "asleep d u k" for d u
    using that rdy k2(3,4) fr by (auto simp: asleep_def)
  ultimately show thesis using kok run rdy by (intro that [of ?k to]) simp_all
qed

section \<open>Every allowed call returns\<close>

lemma inv_cases:
  assumes "kernel_inv k"
  shows "kernel_ok 0 k" "sem_ok k" "mutex_ok k"
  using assms by (simp_all add: kernel_inv_def)

lemma unchanged_call: "kernel_inv k \<Longrightarrow> call_done c k k"
  by (simp add: call_done_def)

lemma suspend_call:
  assumes "kernel_inv k"
  shows "\<exists>e k'. rt_thread_suspend t k = Some (e, k') \<and> call_done c k k'"
proof (cases "runnable k t")
  case False
  then have "rt_thread_suspend t k = Some (- RT_ERROR, k)" by (simp add: rt_thread_suspend_def runnable_def Let_def)
  then show ?thesis using unchanged_call [OF assms] by blast
next
  case True
  note inv = inv_cases [OF assms]
  obtain k' where k': "rt_thread_suspend t k = Some (RT_EOK, k')" "kernel_ok 0 k'" "tstate k' t = RT_THREAD_SUSPEND"
    "threads k' = (threads k)(t := (threads k t)\<lparr>stat := stat (threads k' t)\<rparr>)"
    "tlist k' = (\<lambda>h. removeAll t (tlist k h))" "rt_current_thread k' = rt_current_thread k"
    "Thread_timer t \<notin> set (rt_timer_list k')" "\<forall>d u. asleep d u k \<longrightarrow> asleep d u k'"
    by (rule suspend_ok [OF inv(1) True])
  have "call_done c k k'"
    using k' sem_keep.keep_suspend [OF k'(1) inv(2)] mutex_keep.keep_suspend [OF k'(1) inv(3)] tick_thread.frame_suspend [OF k'(1)]
    by (intro call_doneI) simp_all
  then show ?thesis using k'(1) by blast
qed

lemma resume_call:
  assumes "kernel_inv k"
  shows "\<exists>e k'. rt_thread_resume t k = Some (e, k') \<and> call_done (Thread_resume t) k k'"
proof (cases "tstate k t = RT_THREAD_SUSPEND")
  case False
  then have "rt_thread_resume t k = Some (- RT_ERROR, k)" by (simp add: rt_thread_resume_def)
  then show ?thesis using unchanged_call [OF assms] by blast
next
  case True
  note inv = inv_cases [OF assms]
  obtain k' where k': "rt_thread_resume t k = Some (RT_EOK, k')" "kernel_ok 0 k'" "runnable k' t"
    "threads k' = (threads k)(t := (threads k t)\<lparr>stat := stat (threads k' t)\<rparr>)"
    "\<forall>p. tlist k' (Suspend p) = removeAll t (tlist k (Suspend p))" "rt_current_thread k' = rt_current_thread k"
    "\<forall>d u. asleep d u k \<longrightarrow> u \<noteq> t \<longrightarrow> asleep d u k'"
    by (rule resume_ok [OF inv(1) True])
  have "call_done (Thread_resume t) k k'"
    using k' sem_keep.keep_resume [OF k'(1) inv(2)] mutex_keep.keep_resume [OF k'(1) inv(3)] tick_thread.frame_resume [OF k'(1)]
    by (intro call_doneI) (auto simp: wakes_def)
  then show ?thesis using k'(1) by blast
qed

lemma thread_init_call:
  assumes "kernel_inv k" "allowed k (Thread_init t nm ent param start sz prio tick)"
  shows "\<exists>k'. rt_thread_init texit t nm ent param start sz prio tick k = Some k' \<and> call_done c k k'"
proof -
  note inv = inv_cases [OF assms(1)]
  have a: "unused k t" "stack_area k start sz" "unat prio < 32" using assms(2) by simp_all
  obtain k' where k': "rt_thread_init texit t nm ent param start sz prio tick k = Some k'" "kernel_ok 0 k'" "startable k' t"
    "rt_current_thread k' = None \<longleftrightarrow> rt_current_thread k = None" "\<forall>d u. asleep d u k \<longrightarrow> asleep d u k'"
    "rt_current_thread k' \<noteq> Some t" "init_priority (threads k' t) = prio"
    "\<exists>stk. sp (threads k' t) = stk \<and> (stk + 68) AND 7 = 0 \<and> load32 (mem k') (stk + 36) = param \<and> load32 (mem k') (stk + 56) = texit \<and>
       load32 (mem k') (stk + 60) = ent \<and> load32 (mem k') (stk + 64) = 0x01000000"
    by (rule thread_init_ok [OF inv(1) a])
  have "call_done c k k'"
    using k' sem_keep.keep_thread_init [OF k'(1) inv(2)] mutex_keep.keep_thread_init [OF k'(1) inv(3)]
      tick_call.frame_thread_init [OF k'(1)]
    by (intro call_doneI) simp_all
  then show ?thesis using k'(1) by blast
qed

lemma startup_call:
  assumes "kernel_inv k" "startable k t" "rt_current_thread k \<noteq> Some t"
  shows "\<exists>e k'. rt_thread_startup t k = Some (e, k') \<and> call_done c k k'"
proof -
  note inv = inv_cases [OF assms(1)]
  obtain k' where k': "rt_thread_startup t k = Some (RT_EOK, k')" "kernel_ok 0 k'" "runnable k' t"
    "\<forall>d u. asleep d u k \<longrightarrow> asleep d u k'" "rt_current_thread k = None \<longleftrightarrow> rt_current_thread k' = None"
    "rt_current_thread k \<noteq> None \<and> rt_scheduler_lock_nest k = 0 \<longrightarrow> highest_runs k'"
    by (rule startup_ok [OF inv(1) assms(2,3)])
  have "call_done c k k'"
    using k' sem_keep.keep_startup [OF k'(1) inv(2)] mutex_keep.keep_startup [OF k'(1) inv(3)] tick_thread.frame_startup [OF k'(1)]
    by (intro call_doneI) simp_all
  then show ?thesis using k'(1) by blast
qed

lemma yield_call:
  assumes "kernel_inv k" "rt_current_thread k \<noteq> None"
  shows "\<exists>k'. rt_schedule k = Some k' \<and> call_done c k k'"
proof -
  note inv = inv_cases [OF assms(1)]
  obtain t where t: "rt_current_thread k = Some t" using assms(2) by auto
  obtain k' c' where k': "rt_schedule k = Some k'" "kernel_ok 0 k'" "rescheduled k k'" "rt_current_thread k' = Some c'"
    "rt_scheduler_lock_nest k = 0 \<longrightarrow> highest_runs k'" "\<forall>d u. asleep d u k \<longrightarrow> asleep d u k'"
    by (rule schedule_ok [OF inv(1) t])
  have "call_done c k k'"
    using k' sem_keep.keep_schedule [OF k'(1) inv(2)] mutex_keep.keep_schedule [OF k'(1) inv(3)] tick_frame.frame_schedule [OF k'(1)]
    by (intro call_doneI) simp_all
  then show ?thesis using k'(1) by blast
qed

lemma priority_call:
  assumes "kernel_inv k" "unat p < 32"
  shows "\<exists>e k'. rt_thread_control t RT_THREAD_CTRL_CHANGE_PRIORITY p k = Some (e, k') \<and> call_done c k k'"
proof -
  note inv = inv_cases [OF assms(1)]
  obtain k' where k': "rt_thread_control t RT_THREAD_CTRL_CHANGE_PRIORITY p k = Some (RT_EOK, k')" "kernel_ok 0 k'"
    "threads k' = (threads k)(t := (with_priority p (threads k t))\<lparr>stat := stat (threads k' t)\<rparr>)"
    "\<forall>u. runnable k' u = runnable k u \<and> (\<not> runnable k u \<longrightarrow> stat (threads k' u) = stat (threads k u))"
    "\<forall>q. tlist k' (Suspend q) = tlist k (Suspend q)" "rt_current_thread k' = rt_current_thread k"
    "\<forall>d u. asleep d u k \<longrightarrow> asleep d u k'" "\<forall>c. rt_current_thread k = Some c \<longrightarrow> stat (threads k' c) = stat (threads k c)"
    by (rule change_priority_ok [OF inv(1) assms(2)])
  have "call_done c k k'"
    using k' sem_keep.keep_change_priority [OF k'(1) inv(2)] mutex_keep.keep_change_priority [OF k'(1) inv(3)]
      tick_thread.frame_change_priority [OF k'(1)]
    by (intro call_doneI) simp_all
  then show ?thesis using k'(1) by blast
qed

lemma close_call:
  assumes "kernel_inv k" "closable k t"
  shows "\<exists>e k'. rt_thread_detach t k = Some (e, k') \<and> call_done (Thread_detach t) k k'"
    "\<exists>e k'. rt_thread_delete t k = Some (e, k') \<and> call_done (Thread_delete t) k k'"
proof -
  note inv = inv_cases [OF assms(1)]
  obtain k' where k': "rt_thread_detach t k = Some (RT_EOK, k')" "kernel_ok 0 k'" "tstate k' t = RT_THREAD_CLOSE"
    "rt_current_thread k' = rt_current_thread k" "\<forall>d u. asleep d u k \<longrightarrow> u \<noteq> t \<longrightarrow> asleep d u k'"
    by (rule detach_ok [OF inv(1) assms(2)])
  have "call_done (Thread_detach t) k k'"
    using k' sem_keep.keep_detach [OF k'(1) inv(2)] mutex_keep.keep_detach [OF k'(1) inv(3)] tick_call.frame_detach [OF k'(1)]
    by (intro call_doneI) (auto simp: wakes_def)
  then show "\<exists>e k'. rt_thread_detach t k = Some (e, k') \<and> call_done (Thread_detach t) k k'" using k'(1) by blast
  obtain l where l: "rt_thread_delete t k = Some (RT_EOK, l)" "kernel_ok 0 l" "tstate l t = RT_THREAD_CLOSE"
    "rt_current_thread l = rt_current_thread k" "\<forall>d u. asleep d u k \<longrightarrow> u \<noteq> t \<longrightarrow> asleep d u l"
    by (rule delete_ok [OF inv(1) assms(2)])
  have "call_done (Thread_delete t) k l"
    using l sem_keep.keep_delete [OF l(1) inv(2)] mutex_keep.keep_delete [OF l(1) inv(3)] tick_call.frame_delete [OF l(1)]
    by (intro call_doneI) (auto simp: wakes_def)
  then show "\<exists>e k'. rt_thread_delete t k = Some (e, k') \<and> call_done (Thread_delete t) k k'" using l(1) by blast
qed

lemma exit_call:
  assumes "kernel_inv k" "running k t"
  shows "\<exists>k'. rt_thread_exit k = Some k' \<and> call_done c k k'"
proof -
  note inv = inv_cases [OF assms(1)]
  have t: "rt_current_thread k = Some t" using assms(2) by (simp add: running_def)
  obtain k' where k': "rt_thread_exit k = Some k'" "kernel_ok 0 k'" "tstate k' t = RT_THREAD_CLOSE"
    "rt_current_thread k' \<noteq> None" "\<forall>d u. asleep d u k \<longrightarrow> u \<noteq> t \<longrightarrow> asleep d u k'"
    "rt_scheduler_lock_nest k = 0 \<longrightarrow> highest_runs k'"
    by (rule exit_ok [OF inv(1) t running_live [OF assms(2)]])
  have "asleep d u k \<Longrightarrow> u \<noteq> t" for d u using assms(2) by (auto simp: asleep_def running_def)
  then have "call_done c k k'"
    using k' sem_keep.keep_exit [OF k'(1) inv(2)] mutex_keep.keep_exit [OF k'(1) inv(3)] tick_call.frame_exit [OF k'(1)]
    by (intro call_doneI) simp_all
  then show ?thesis using k'(1) by blast
qed

lemma critical_call:
  assumes "kernel_inv k"
  shows "call_done c k (rt_enter_critical k)" "\<exists>k'. rt_exit_critical k = Some k' \<and> call_done c k k'"
proof -
  note inv = inv_cases [OF assms]
  show "call_done c k (rt_enter_critical k)"
    using inv by (intro call_doneI) (simp_all add: rt_enter_critical_def sem_keep.p_lock mutex_keep.p_lock)
  obtain k' where k': "rt_exit_critical k = Some k'" "kernel_ok 0 k'" "rescheduled k k'"
    "rt_current_thread k' = None \<longleftrightarrow> rt_current_thread k = None" "\<forall>d u. asleep d u k \<longrightarrow> asleep d u k'"
    "rt_current_thread k \<noteq> None \<and> rt_scheduler_lock_nest k = 1 \<longrightarrow> highest_runs k' \<and> rt_scheduler_lock_nest k' = 0"
    "timers k' = timers k" "rt_timer_list k' = rt_timer_list k" "mem k' = mem k" "objects k' = objects k"
    "rt_current_thread k' = rt_current_thread k \<or> (\<exists>c. running k' c)"
    by (rule exit_critical_ok [OF inv(1)])
  have "call_done c k k'"
    using k' sem_keep.keep_exit_critical [OF k'(1) inv(2)] mutex_keep.keep_exit_critical [OF k'(1) inv(3)]
      tick_call.frame_exit_critical [OF k'(1)]
    by (intro call_doneI) simp_all
  then show "\<exists>k'. rt_exit_critical k = Some k' \<and> call_done c k k'" using k'(1) by blast
qed

lemma start_call:
  assumes "kernel_inv k" "allowed k Scheduler_start"
  shows "\<exists>k'. rt_system_scheduler_start k = Some k' \<and> call_done c k k'"
proof -
  note inv = inv_cases [OF assms(1)]
  have a: "rt_current_thread k = None" "rt_thread_ready_priority_group k \<noteq> 0" using assms(2) by simp_all
  obtain to k' where k': "rt_system_scheduler_start k = Some k'" "kernel_ok 0 k'" "running k' to" "highest_runs k'"
    "tstate k to = RT_THREAD_READY" "\<forall>d u. asleep d u k \<longrightarrow> asleep d u k'"
    by (rule start_ok [OF inv(1) a])
  have "call_done c k k'"
    using k' sem_keep.keep_start [OF k'(1) inv(2)] mutex_keep.keep_start [OF k'(1) inv(3)] tick_call.frame_start [OF k'(1)] a
    by (intro call_doneI) simp_all
  then show ?thesis using k'(1) by blast
qed

lemma timer_call:
  assumes "kernel_inv k"
  shows "allowed k (Timer_start n) \<Longrightarrow> call_done c k (rt_timer_start (Timer n) k)"
    "call_done c k (snd (rt_timer_stop (Timer n) k))"
    "allowed k (Timer_control n cmd arg) \<Longrightarrow> call_done c k (snd (rt_timer_control (Timer n) cmd arg k))"
    "call_done c k (rt_timer_detach (Timer n) k)"
  subgoal
    using inv_cases [OF assms] user_start_ok [where k = k and n = n] by (intro call_doneI)
      (simp_all add: sem_keep.frame_timer_start mutex_keep.frame_timer_start tick_timer.frame_timer_start current_timer.frame_timer_start)
  subgoal
    using inv_cases [OF assms] user_stop_ok [where lo = 0 and k = k and n = n] by (intro call_doneI)
      (simp_all add: sem_keep.frame_timer_stop mutex_keep.frame_timer_stop tick_timer.frame_timer_stop current_timer.frame_timer_stop)
  subgoal
    using inv_cases [OF assms] user_control_ok [where lo = 0 and k = k and n = n and cmd = cmd and arg = arg] by (intro call_doneI)
      (simp_all add: sem_keep.frame_timer_control mutex_keep.frame_timer_control tick_timer.frame_timer_control
        current_timer.frame_timer_control)
  subgoal
    using inv_cases [OF assms] user_detach_ok [where lo = 0 and k = k and n = n] by (intro call_doneI)
      (simp_all add: sem_keep.keep_timer_detach mutex_keep.keep_timer_detach tick_call.frame_timer_detach,
        simp_all add: rt_timer_detach_def current_timer.frame_timer_remove)
  done

lemma timer_init_call:
  assumes "kernel_inv k" "allowed k (Timer_init n nm f p time flg)"
  shows "\<exists>k'. rt_timer_init (Timer n) nm (User_timeout f) p time flg k = Some k' \<and> call_done c k k'"
proof -
  note inv = inv_cases [OF assms(1)]
  obtain k' where k': "rt_timer_init (Timer n) nm (User_timeout f) p time flg k = Some k'" "kernel_ok 0 k'"
    "rt_current_thread k' = None \<longleftrightarrow> rt_current_thread k = None" "\<forall>d u. asleep d u k \<longrightarrow> asleep d u k'"
    by (rule user_init_ok [OF inv(1) assms(2)])
  have "call_done c k k'"
    using k' sem_keep.keep_timer_init [OF k'(1) inv(2)] mutex_keep.keep_timer_init [OF k'(1) inv(3)] tick_call.frame_timer_init [OF k'(1)]
    by (intro call_doneI) simp_all
  then show ?thesis using k'(1) by blast
qed

lemma empty_list_init:
  assumes "tlist k (Suspend p) = []" "rescheduled k k1"
  shows "rt_ipc_object_init p k1 = k1"
proof -
  have "tlist k1 (Suspend p) = []" using assms rescheduled_lists(1) by simp
  then have "(tlist k1)(Suspend p := []) = tlist k1" by (metis fun_upd_triv)
  then show ?thesis by (simp add: rt_ipc_object_init_def)
qed

lemma sem_init_call:
  assumes "kernel_inv k" "tlist k (Suspend (Sem s)) = []"
  shows "\<exists>e k'. rt_sem_init s nm v flg k = Some (e, k') \<and> call_done c k k'"
proof -
  note inv = inv_cases [OF assms(1)]
  obtain k1 where k1: "rt_object_init (Ipc_obj (Sem s)) RT_Object_Class_Semaphore nm k = Some k1" "kernel_ok 0 k1" "rescheduled k k1"
    "rt_current_thread k1 = None \<longleftrightarrow> rt_current_thread k = None" "\<forall>d u. asleep d u k \<longrightarrow> asleep d u k1"
    "timers k1 = timers k" "rt_timer_list k1 = rt_timer_list k" "mem k1 = mem k"
    "objects k1 = (objects k)(Ipc_obj (Sem s) := \<lparr>obj_type = RT_Object_Class_Semaphore OR RT_Object_Class_Static, obj_name = take RT_NAME_MAX nm\<rparr>)"
    "rt_current_thread k1 = rt_current_thread k \<or> (\<exists>c. running k1 c)"
    by (rule object_init_ok [OF inv(1)])
  let ?k = "upd_sem s (\<lambda>_. \<lparr>sem_flag = flg, sem_value = ucast v\<rparr>) k1"
  have l: "tlist k1 (Suspend (Sem s)) = []" using assms(2) rescheduled_lists(1) [OF k1(3)] by simp
  have "sem_ok k1" "mutex_ok k1" using sem_keep.keep_object_init [OF k1(1) inv(2)] mutex_keep.keep_object_init [OF k1(1) inv(3)] .
  then have "sem_ok ?k" "mutex_ok ?k" using l by (simp_all add: sem_ok_def)
  moreover have e: "rt_sem_init s nm v flg k = Some (RT_EOK, ?k)"
    using k1(1) empty_list_init [OF assms(2) k1(3)] by (simp add: rt_sem_init_def)
  ultimately have "call_done c k ?k" using k1 tick_call.frame_sem_init [OF e] by (intro call_doneI) simp_all
  then show ?thesis using e by blast
qed

lemma mutex_init_call:
  assumes "kernel_inv k" "tlist k (Suspend (Mutex m)) = []"
  shows "\<exists>e k'. rt_mutex_init m nm flg k = Some (e, k') \<and> call_done c k k'"
proof -
  note inv = inv_cases [OF assms(1)]
  obtain k1 where k1: "rt_object_init (Ipc_obj (Mutex m)) RT_Object_Class_Mutex nm k = Some k1" "kernel_ok 0 k1" "rescheduled k k1"
    "rt_current_thread k1 = None \<longleftrightarrow> rt_current_thread k = None" "\<forall>d u. asleep d u k \<longrightarrow> asleep d u k1"
    "timers k1 = timers k" "rt_timer_list k1 = rt_timer_list k" "mem k1 = mem k"
    "objects k1 = (objects k)(Ipc_obj (Mutex m) := \<lparr>obj_type = RT_Object_Class_Mutex OR RT_Object_Class_Static, obj_name = take RT_NAME_MAX nm\<rparr>)"
    "rt_current_thread k1 = rt_current_thread k \<or> (\<exists>c. running k1 c)"
    by (rule object_init_ok [OF inv(1)])
  let ?k = "upd_mutex m (\<lambda>_. \<lparr>mx_flag = flg, mx_value = 1, original_priority = 0xff, hold = 0, owner = None\<rparr>) k1"
  have l: "tlist k1 (Suspend (Mutex m)) = []" using assms(2) rescheduled_lists(1) [OF k1(3)] by simp
  have "sem_ok k1" "mutex_ok k1" using sem_keep.keep_object_init [OF k1(1) inv(2)] mutex_keep.keep_object_init [OF k1(1) inv(3)] .
  then have "sem_ok ?k" "mutex_ok ?k" using l by (simp_all add: mutex_ok_def mutex_free_def)
  moreover have e: "rt_mutex_init m nm flg k = Some (RT_EOK, ?k)"
    using k1(1) empty_list_init [OF assms(2) k1(3)] by (simp add: rt_mutex_init_def)
  ultimately have "call_done c k ?k" using k1 tick_call.frame_mutex_init [OF e] by (intro call_doneI) simp_all
  then show ?thesis using e by blast
qed

lemma detach_resumes:
  assumes "kernel_inv k"
  obtains k1 where "rt_ipc_list_resume_all (Suspend p) k = Some k1" "call_done c k (rt_object_detach ob k1)"
    "tlist k1 (Suspend p) = []"
    "\<forall>t \<in> set (tlist k (Suspend p)). runnable k1 t \<and> error (threads k1 t) = - RT_ERROR"
proof -
  note inv = inv_cases [OF assms]
  obtain k1 where k1: "rt_ipc_list_resume_all (Suspend p) k = Some k1" "kernel_ok 0 k1" "tlist k1 (Suspend p) = []"
    "\<forall>q. q \<noteq> p \<longrightarrow> tlist k1 (Suspend q) = tlist k (Suspend q)" "rt_current_thread k1 = rt_current_thread k"
    "\<forall>d u. asleep d u k \<longrightarrow> asleep d u k1"
    "\<forall>t \<in> set (tlist k (Suspend p)). runnable k1 t \<and> error (threads k1 t) = - RT_ERROR"
    using resume_all_ok [OF inv(1), of p] by blast
  have fr: "sems k1 = sems k" "mutexes k1 = mutexes k" "rt_tick k1 = rt_tick k"
    using sems_thread.frame_resume_all [OF k1(1)] mutexes_thread.frame_resume_all [OF k1(1)] tick_thread.frame_resume_all [OF k1(1)]
    by simp_all
  have l: "tlist k1 (Suspend q) = tlist k (Suspend q) \<or> tlist k1 (Suspend q) = []" for q using k1(3,4) by (cases "q = p") auto
  have "sem_ok k1" using inv(2) l fr(1) unfolding sem_ok_def by metis
  moreover have "mutex_ok k1" using inv(3) l fr(2) unfolding mutex_ok_def by metis
  ultimately have "call_done c k (rt_object_detach ob k1)"
    using k1 fr by (intro call_doneI) (simp_all add: sem_keep.keep_object_detach mutex_keep.keep_object_detach)
  then show thesis using k1 by (intro that [of k1]) simp_all
qed

lemma ipc_detach_call:
  assumes "kernel_inv k"
  shows "\<exists>e k'. rt_sem_detach s k = Some (e, k') \<and> call_done c k k'"
    "\<exists>e k'. rt_mutex_detach m k = Some (e, k') \<and> call_done c k k'"
proof -
  obtain k1 where k1: "rt_ipc_list_resume_all (Suspend (Sem s)) k = Some k1" "call_done c k (rt_object_detach (Ipc_obj (Sem s)) k1)"
    by (rule detach_resumes [OF assms])
  then show "\<exists>e k'. rt_sem_detach s k = Some (e, k') \<and> call_done c k k'" by (simp add: rt_sem_detach_def)
  obtain k1 where k1: "rt_ipc_list_resume_all (Suspend (Mutex m)) k = Some k1" "call_done c k (rt_object_detach (Ipc_obj (Mutex m)) k1)"
    by (rule detach_resumes [OF assms])
  then show "\<exists>e k'. rt_mutex_detach m k = Some (e, k') \<and> call_done c k k'" by (simp add: rt_mutex_detach_def)
qed

lemma sem_take_call:
  assumes "kernel_inv k" "allowed k (Sem_take s time)"
  shows "\<exists>r k'. rt_sem_take s time k = Some (r, k') \<and> call_done c k k'"
proof -
  obtain t where a: "running k t" "ipc_flag_ok (sem_flag (sems k s))" "wait_time_ok time" using assms(2) by auto
  obtain r k' where k': "rt_sem_take s time k = Some (r, k')" "kernel_inv k'" "rt_current_thread k' \<noteq> None"
    "\<forall>d u. asleep d u k \<longrightarrow> asleep d u k'" "take_outcome k s t time r k'"
    by (rule sem_take_ok [OF assms(1) a])
  then have "call_done c k k'" using tick_call.frame_sem_take [OF k'(1)] by (simp add: call_done_def)
  then show ?thesis using k'(1) by blast
qed

lemma sem_release_call:
  assumes "kernel_inv k" "rt_current_thread k \<noteq> None"
  shows "\<exists>e k'. rt_sem_release s k = Some (e, k') \<and> call_done c k k'"
proof -
  obtain k' where k': "rt_sem_release s k = Some (RT_EOK, k')" "kernel_inv k'" "rt_current_thread k' \<noteq> None"
    "\<forall>d u. asleep d u k \<longrightarrow> asleep d u k'"
    using sem_release_ok [OF assms, of s] by metis
  then have "call_done c k k'" using tick_call.frame_sem_release [OF k'(1)] by (simp add: call_done_def)
  then show ?thesis using k'(1) by blast
qed

lemma sem_control_call:
  assumes "kernel_inv k" "rt_current_thread k \<noteq> None"
  shows "\<exists>e k'. rt_sem_control s cmd arg k = Some (e, k') \<and> call_done c k k'"
proof -
  obtain e k' where k': "rt_sem_control s cmd arg k = Some (e, k')" "kernel_inv k'" "rt_current_thread k' \<noteq> None"
    "\<forall>d u. asleep d u k \<longrightarrow> asleep d u k'"
    by (rule sem_control_ok [OF assms])
  then have "call_done c k k'" using tick_call.frame_sem_control [OF k'(1)] by (simp add: call_done_def)
  then show ?thesis using k'(1) by blast
qed

lemma mutex_take_call:
  assumes "kernel_inv k" "allowed k (Mutex_take m time)"
  shows "\<exists>r k'. rt_mutex_take m time k = Some (r, k') \<and> call_done c k k'"
proof -
  obtain t where a: "running k t" "ipc_flag_ok (mx_flag (mutexes k m))" "wait_time_ok time"
    "owner (mutexes k m) = Some t \<longrightarrow> hold (mutexes k m) \<noteq> 255" using assms(2) by auto
  obtain r k' where k': "rt_mutex_take m time k = Some (r, k')" "kernel_inv k'" "rt_current_thread k' \<noteq> None"
    "\<forall>d u. asleep d u k \<longrightarrow> asleep d u k'"
    using mutex_take_ok [OF assms(1) a] by metis
  then have "call_done c k k'" using tick_call.frame_mutex_take [OF k'(1)] by (simp add: call_done_def)
  then show ?thesis using k'(1) by blast
qed

lemma mutex_release_call:
  assumes "kernel_inv k" "rt_current_thread k \<noteq> None"
  shows "\<exists>e k'. rt_mutex_release m k = Some (e, k') \<and> call_done c k k'"
proof -
  obtain t where t: "rt_current_thread k = Some t" using assms(2) by auto
  obtain e k' where k': "rt_mutex_release m k = Some (e, k')" "kernel_inv k'" "rt_current_thread k' \<noteq> None"
    "\<forall>d u. asleep d u k \<longrightarrow> asleep d u k'"
    using mutex_release_ok [OF assms(1) t, of m] by metis
  then have "call_done c k k'" using tick_call.frame_mutex_release [OF k'(1)] by (simp add: call_done_def)
  then show ?thesis using k'(1) by blast
qed

text \<open>Every allowed call but the tick.\<close>

lemma call_returns:
  assumes "kernel_inv k" "allowed k c" "c \<noteq> Tick"
  shows "\<exists>k'. kernel_call usr texit c k = Some k' \<and> call_done c k k'"
proof (cases c)
  case (Thread_init t nm ent param start sz prio tick)
  then show ?thesis using thread_init_call [OF assms(1)] assms(2) by simp
next
  case (Thread_startup t)
  then show ?thesis using startup_call [OF assms(1), of t c] assms(2) by auto
next
  case (Thread_suspend t)
  then show ?thesis using suspend_call [OF assms(1), of t c] by auto
next
  case (Thread_resume t)
  then show ?thesis using resume_call [OF assms(1), of t] by auto
next
  case (Thread_sleep n)
  then obtain t where t: "running k t" "n < 0x7fffffff" using assms(2) by auto
  obtain k' where "thread_block t n k = Some k'" "call_done c k k'" by (rule block_call [OF assms(1) t])
  then show ?thesis using Thread_sleep t by (simp add: rt_thread_sleep_def running_def)
next
  case (Thread_mdelay ms)
  then obtain t where t: "running k t" "rt_tick_from_millisecond ms < 0x7fffffff" using assms(2) by auto
  obtain k' where "thread_block t (rt_tick_from_millisecond ms) k = Some k'" "call_done c k k'" by (rule block_call [OF assms(1) t])
  then show ?thesis using Thread_mdelay t by (simp add: rt_thread_mdelay_def rt_thread_sleep_def running_def)
next
  case (Thread_delay_until tick inc)
  then obtain t where t: "running k t" "rt_tick k - tick + inc < 0x7fffffff" using assms(2) by auto
  obtain k' where "thread_block t (rt_tick k - tick + inc) k = Some k'" "call_done c k k'" by (rule block_call [OF assms(1) t])
  then show ?thesis using Thread_delay_until t unchanged_call [OF assms(1)]
    by (auto simp: rt_thread_delay_until_def running_def Let_def)
next
  case Thread_yield
  then show ?thesis using yield_call [OF assms(1), of c] assms(2) by (auto simp: rt_thread_yield_def)
next
  case (Thread_set_priority t p)
  then show ?thesis using priority_call [OF assms(1), of p t c] assms(2) by auto
next
  case (Thread_detach t)
  then show ?thesis using close_call(1) [OF assms(1), of t] assms(2) by auto
next
  case (Thread_delete t)
  then show ?thesis using close_call(2) [OF assms(1), of t] assms(2) by auto
next
  case Thread_exit
  then show ?thesis using exit_call [OF assms(1)] assms(2) by auto
next
  case (Timer_init n nm f p time flg)
  then show ?thesis using timer_init_call [OF assms(1)] assms(2) by simp
next
  case (Timer_start n)
  then show ?thesis using timer_call(1) [OF assms(1)] assms(2) by simp
next
  case (Timer_stop n)
  then show ?thesis using timer_call(2) [OF assms(1)] by simp
next
  case (Timer_control n cmd arg)
  then show ?thesis using timer_call(3) [OF assms(1), of n cmd arg c] assms(2) by simp
next
  case (Timer_detach n)
  then show ?thesis using timer_call(4) [OF assms(1)] by simp
next
  case Enter_critical
  then show ?thesis using critical_call(1) [OF assms(1)] by simp
next
  case Exit_critical
  then show ?thesis using critical_call(2) [OF assms(1)] by simp
next
  case Scheduler_start
  then show ?thesis using start_call [OF assms(1)] assms(2) by simp
next
  case Tick
  then show ?thesis using assms(3) by simp
next
  case (Sem_init s nm v flg)
  then show ?thesis using sem_init_call [OF assms(1), of s nm v flg c] assms(2) by auto
next
  case (Sem_take s time)
  then show ?thesis using sem_take_call [OF assms(1), of s time c] assms(2) by auto
next
  case (Sem_release s)
  then show ?thesis using sem_release_call [OF assms(1), of s c] assms(2) by auto
next
  case (Sem_control s cmd arg)
  then show ?thesis using sem_control_call [OF assms(1), of s cmd arg c] assms(2) by auto
next
  case (Sem_detach s)
  then show ?thesis using ipc_detach_call(1) [OF assms(1), of s c] by auto
next
  case (Mutex_init m nm flg)
  then show ?thesis using mutex_init_call [OF assms(1), of m nm flg c] assms(2) by auto
next
  case (Mutex_take m time)
  then show ?thesis using mutex_take_call [OF assms(1), of m time c] assms(2) by auto
next
  case (Mutex_release m)
  then show ?thesis using mutex_release_call [OF assms(1), of m c] assms(2) by auto
next
  case (Mutex_detach m)
  then show ?thesis using ipc_detach_call(2) [OF assms(1), of m c] by auto
qed

section \<open>The tick interrupt\<close>

definition callbacks_keep :: "(u32 \<Rightarrow> nat \<Rightarrow> kernel \<Rightarrow> kernel option) \<Rightarrow> bool" where
  "callbacks_keep usr \<longleftrightarrow> (\<forall>f p k k'. usr f p k = Some k' \<longrightarrow> (sem_ok k \<longrightarrow> sem_ok k') \<and> (mutex_ok k \<longrightarrow> mutex_ok k'))"

lemma tick_returns:
  assumes "kernel_inv k" "rt_current_thread k \<noteq> None" "callbacks_ok usr" "callbacks_keep usr"
  obtains k' where "SysTick_Handler usr k = Some k'" "kernel_inv k'" "rt_current_thread k' \<noteq> None" "rt_tick k' = rt_tick k + 1"
    "callbacks_quiet usr \<longrightarrow> (\<forall>t. runnable k t \<longrightarrow> runnable k' t) \<and>
       (\<forall>d t. asleep d t k \<longrightarrow> (if sint (d - rt_tick k) \<le> 1 then runnable k' t else asleep d t k'))"
proof -
  note inv = inv_cases [OF assms(1)]
  obtain k' where k': "SysTick_Handler usr k = Some k'" "kernel_ok 1 k'" "rt_current_thread k' \<noteq> None" "rt_tick k' = rt_tick k + 1"
    "callbacks_quiet usr \<longrightarrow> (\<forall>t. runnable k t \<longrightarrow> runnable k' t) \<and>
       (\<forall>d t. asleep d t k \<longrightarrow> (if sint (d - rt_tick k) \<le> 1 then runnable k' t else asleep d t k'))"
    by (rule systick_ok [OF inv(1) assms(2,3)])
  have "sem_ok k'" by (rule sem_keep.keep_systick [OF _ k'(1) inv(2)]) (use assms(4) in \<open>simp add: callbacks_keep_def\<close>)
  moreover have "mutex_ok k'" by (rule mutex_keep.keep_systick [OF _ k'(1) inv(3)]) (use assms(4) in \<open>simp add: callbacks_keep_def\<close>)
  ultimately have "kernel_inv k'" using kernel_ok_mono [OF k'(2), of 0] by (simp add: kernel_inv_def)
  then show thesis using k' by (intro that [of k'])
qed

section \<open>The kernel as a state machine\<close>

text \<open>
  The state the boot code leaves to \<open>rt_system_timer_init\<close> and \<open>rt_system_scheduler_init\<close>: no thread has been started,
  nobody waits, and the mutexes have the fields that \<open>rt_mutex_init\<close> gives them.
\<close>

definition before_boot :: "kernel \<Rightarrow> bool" where
  "before_boot k \<longleftrightarrow> rt_current_thread k = None \<and> (\<forall>t. \<not> live k t) \<and> (\<forall>p. tlist k (Suspend p) = []) \<and>
     (\<forall>i. 32 \<le> i \<longrightarrow> tlist k (Ready i) = []) \<and> (\<forall>m. mutex_free (mutexes k m))"

inductive kernel_reach :: "(u32 \<Rightarrow> nat \<Rightarrow> kernel \<Rightarrow> kernel option) \<Rightarrow> u32 \<Rightarrow> kernel \<Rightarrow> bool" for usr texit where
  reach_boot: "before_boot k \<Longrightarrow> kernel_reach usr texit (rt_system_timer_init (rt_system_scheduler_init k))"
| reach_call: "kernel_reach usr texit k \<Longrightarrow> allowed k c \<Longrightarrow> kernel_call usr texit c k = Some k' \<Longrightarrow> kernel_reach usr texit k'"

lemma boot_inv:
  assumes "before_boot k"
  shows "kernel_inv (rt_system_timer_init (rt_system_scheduler_init k))" (is "kernel_inv ?k")
proof -
  have f: "threads ?k = threads k" "rt_current_thread ?k = None" "rt_timer_list ?k = []" "rt_thread_ready_priority_group ?k = 0"
    "sems ?k = sems k" "mutexes ?k = mutexes k" "timers ?k = timers k"
    using assms by (simp_all add: rt_system_timer_init_def rt_system_scheduler_init_def before_boot_def)
  have l: "tlist ?k h = []" for h
    using assms by (cases h) (auto simp: rt_system_timer_init_def rt_system_scheduler_init_def before_boot_def not_less)
  have n: "\<not> live ?k t" for t using assms f(1) by (simp add: live_def before_boot_def)
  have "thread_ok ?k t" for t using n [of t] by (simp add: thread_ok_def live_def)
  then have "sched_ok ?k" using l f(4) by (simp add: sched_but_def queues_ok_def group_ok_def)
  moreover have "timer_links ?k" using n f(3) by (simp add: timer_links_def)
  ultimately have "kernel_ok 0 ?k" using f(2,3) by (simp add: kernel_ok_def cur_ok_def timer_window_def)
  moreover have "sem_ok ?k" "mutex_ok ?k" using l f(6) assms by (simp_all add: sem_ok_def mutex_ok_def before_boot_def)
  ultimately show ?thesis by (simp add: kernel_inv_def)
qed

lemma call_inv:
  assumes "kernel_inv k" "allowed k c" "callbacks_ok usr" "callbacks_keep usr"
  shows "\<exists>k'. kernel_call usr texit c k = Some k' \<and> kernel_inv k' \<and> (rt_current_thread k \<noteq> None \<longrightarrow> rt_current_thread k' \<noteq> None)"
proof (cases "c = Tick")
  case True
  then have "rt_current_thread k \<noteq> None" using assms(2) by simp
  then show ?thesis using tick_returns [OF assms(1) _ assms(3,4)] True by (metis kernel_call.simps(21))
next
  case False
  then show ?thesis using call_returns [OF assms(1,2), of usr texit] by (auto simp: call_done_def)
qed

lemma reach_inv:
  assumes "kernel_reach usr texit k" "callbacks_ok usr" "callbacks_keep usr"
  shows "kernel_inv k"
  using assms(1)
proof induction
  case (reach_boot k)
  then show ?case by (rule boot_inv)
next
  case (reach_call k c k')
  then show ?case using call_inv [OF reach_call.IH reach_call.hyps(2) assms(2,3), of texit] by auto
qed

section \<open>Sequences of calls and ticks\<close>

fun kernel_run :: "(u32 \<Rightarrow> nat \<Rightarrow> kernel \<Rightarrow> kernel option) \<Rightarrow> u32 \<Rightarrow> kcall list \<Rightarrow> kernel \<Rightarrow> kernel option" where
  "kernel_run usr texit [] k = Some k"
| "kernel_run usr texit (c # cs) k =
    (if allowed k c then do { k \<leftarrow> kernel_call usr texit c k; kernel_run usr texit cs k } else None)"

lemma run_append:
  "kernel_run usr texit (cs @ ds) k = do { k \<leftarrow> kernel_run usr texit cs k; kernel_run usr texit ds k }"
  by (induction cs arbitrary: k) (simp_all split: bind_splits)

definition ticks :: "kcall list \<Rightarrow> nat" where
  "ticks cs = count_list cs Tick"

lemma ticks_simps [simp]: "ticks [] = 0" "ticks (c # cs) = (if c = Tick then Suc (ticks cs) else ticks cs)"
  "ticks (cs @ ds) = ticks cs + ticks ds"
  by (simp_all add: ticks_def)

lemma sint_pred: "- (2 ^ 31) < sint (w :: u32) \<Longrightarrow> sint (w - 1) = sint w - 1"
  using sint_minus [of w 1] sint_bounds(2) [of w] by simp

text \<open>A sleeping thread sleeps on until its time has come, whatever the other threads call.\<close>

lemma stays_asleep:
  assumes "callbacks_ok usr" "callbacks_keep usr" "callbacks_quiet usr"
  shows "kernel_inv k \<Longrightarrow> asleep d t k \<Longrightarrow> kernel_run usr texit cs k = Some k' \<Longrightarrow> \<forall>c \<in> set cs. \<not> wakes c t \<Longrightarrow>
    int (ticks cs) < max 1 (sint (d - rt_tick k)) \<Longrightarrow> kernel_inv k' \<and> asleep d t k' \<and>
      sint (d - rt_tick k') = sint (d - rt_tick k) - int (ticks cs)"
proof (induction cs arbitrary: k)
  case Nil
  then show ?case by simp
next
  case (Cons c cs)
  from Cons.prems(3) obtain k1 where k1: "allowed k c" "kernel_call usr texit c k = Some k1" "kernel_run usr texit cs k1 = Some k'"
    by (auto split: if_splits bind_splits)
  show ?case
  proof (cases "c = Tick")
    case True
    then have cur: "rt_current_thread k \<noteq> None" using k1(1) by simp
    obtain k2 where k2: "SysTick_Handler usr k = Some k2" "kernel_inv k2" "rt_current_thread k2 \<noteq> None" "rt_tick k2 = rt_tick k + 1"
      "callbacks_quiet usr \<longrightarrow> (\<forall>t. runnable k t \<longrightarrow> runnable k2 t) \<and>
         (\<forall>d t. asleep d t k \<longrightarrow> (if sint (d - rt_tick k) \<le> 1 then runnable k2 t else asleep d t k2))"
      by (rule tick_returns [OF Cons.prems(1) cur assms(1,2)])
    have e: "k2 = k1" using True k1(2) k2(1) by simp
    have r: "1 < sint (d - rt_tick k)" using Cons.prems(5) True by auto
    then have s: "sint (d - rt_tick k1) = sint (d - rt_tick k) - 1"
      using sint_pred [of "d - rt_tick k"] k2(4) e by (simp add: diff_diff_eq)
    have "asleep d t k1" using k2(5) assms(3) Cons.prems(2) r e by auto
    then have "kernel_inv k' \<and> asleep d t k' \<and> sint (d - rt_tick k') = sint (d - rt_tick k1) - int (ticks cs)"
      using Cons.IH [OF _ _ k1(3)] k2(2) e Cons.prems(4,5) s True r by simp
    then show ?thesis using s True by simp
  next
    case False
    then have d: "call_done c k k1" using call_returns [OF Cons.prems(1) k1(1), of usr texit] k1(2) by simp
    then have "asleep d t k1" "kernel_inv k1" "rt_tick k1 = rt_tick k" using Cons.prems(2,4) by (auto simp: call_done_def)
    then show ?thesis using Cons.IH [OF _ _ k1(3)] Cons.prems(4,5) False by simp
  qed
qed

lemma wakes_at_last:
  assumes "callbacks_ok usr" "callbacks_keep usr" "callbacks_quiet usr" "kernel_inv k" "asleep d t k"
    "kernel_run usr texit (cs @ [Tick]) k = Some k'" "\<forall>c \<in> set cs. \<not> wakes c t"
    "int (ticks cs) + 1 = max 1 (sint (d - rt_tick k))"
  shows "runnable k' t"
proof -
  obtain k1 where k1: "kernel_run usr texit cs k = Some k1" "rt_current_thread k1 \<noteq> None" "SysTick_Handler usr k1 = Some k'"
    using assms(6) by (auto simp: run_append split: bind_splits if_splits)
  have "int (ticks cs) < max 1 (sint (d - rt_tick k))" using assms(8) by simp
  then have a: "kernel_inv k1" "asleep d t k1" "sint (d - rt_tick k1) = sint (d - rt_tick k) - int (ticks cs)"
    using stays_asleep [OF assms(1,2,3,4,5) k1(1) assms(7)] by simp_all
  then have "sint (d - rt_tick k1) \<le> 1" using assms(8) by linarith
  moreover obtain k2 where k2: "SysTick_Handler usr k1 = Some k2"
    "callbacks_quiet usr \<longrightarrow> (\<forall>t. runnable k1 t \<longrightarrow> runnable k2 t) \<and>
       (\<forall>d t. asleep d t k1 \<longrightarrow> (if sint (d - rt_tick k1) \<le> 1 then runnable k2 t else asleep d t k2))"
    by (rule tick_returns [OF a(1) k1(2) assms(1,2)])
  ultimately show ?thesis using a(2) k1(3) assms(3) by auto
qed

lemma run_inv:
  assumes "callbacks_ok usr" "callbacks_keep usr"
  shows "kernel_inv k \<Longrightarrow> kernel_run usr texit cs k = Some k' \<Longrightarrow>
    kernel_inv k' \<and> (rt_current_thread k \<noteq> None \<longrightarrow> rt_current_thread k' \<noteq> None)"
proof (induction cs arbitrary: k)
  case (Cons c cs)
  from Cons.prems(2) obtain k1 where k1: "allowed k c" "kernel_call usr texit c k = Some k1" "kernel_run usr texit cs k1 = Some k'"
    by (auto split: if_splits bind_splits)
  then have "kernel_inv k1 \<and> (rt_current_thread k \<noteq> None \<longrightarrow> rt_current_thread k1 \<noteq> None)"
    using call_inv [OF Cons.prems(1) k1(1) assms, of texit] by auto
  then show ?case using Cons.IH [OF _ k1(3)] by blast
qed simp

text \<open>A call that sleeps, and the state it leaves.\<close>

lemma sleep_ok:
  assumes "kernel_inv k" "running k t" "n < 0x7fffffff"
  obtains k' where "rt_thread_sleep n k = Some k'" "kernel_inv k'" "asleep (rt_tick k + n) t k'" "rt_tick k' = rt_tick k"
    "rt_current_thread k' \<noteq> None" "rt_scheduler_lock_nest k = 0 \<longrightarrow> highest_runs k'"
proof -
  note inv = inv_cases [OF assms(1)]
  have c: "rt_current_thread k = Some t" using assms(2) by (simp add: running_def)
  obtain k' where k': "thread_block t n k = Some k'" "kernel_ok 0 k'" "asleep (rt_tick k + n) t k'"
    "\<forall>d u. asleep d u k \<longrightarrow> asleep d u k'" "rt_current_thread k' \<noteq> None"
    "rt_scheduler_lock_nest k = 0 \<longrightarrow> highest_runs k'"
    by (rule block_ok [OF inv(1) _ _ running_runnable [OF assms(2)] c assms(3)]) simp_all
  have "kernel_inv k'"
    using k'(2) sem_keep.keep_block [OF k'(1) inv(2)] mutex_keep.keep_block [OF k'(1) inv(3)] by (simp add: kernel_inv_def)
  then show thesis using k' c tick_thread.frame_block [OF k'(1)] by (intro that [of k']) (simp_all add: rt_thread_sleep_def)
qed

end
