(* ===== verification/Kernel_Example.thy ===== *)
theory Kernel_Example
  imports Kernel_Run
begin

text \<open>
  A small running system: the idle thread 0, a running thread 1 and a ready thread 2 of the same priority; thread 3 waits
  for semaphore 1, thread 4 sleeps with 7 ticks to go, and mutex 1 is held by thread 1.
\<close>

definition demo_thread :: "tid \<Rightarrow> u8 \<Rightarrow> u8 \<Rightarrow> rt_thread" where
  "demo_thread t st p = \<lparr>entry = 0x90001001, parameter = 0, sp = 0x20001300 + 0x400 * of_nat t, stack_addr = 0x20001000 + 0x400 * of_nat t,
     stack_size = 0x400, error = 0, stat = st, current_priority = p, init_priority = p, number_mask = push_bit (unat p) 1,
     init_tick = 10, remaining_tick = 1, cleanup = 0, user_data = 0\<rparr>"

definition demo :: kernel where
  "demo = \<lparr>rt_tick = 0xfffffffe,
     threads = (\<lambda>t. if t = 0 then demo_thread 0 RT_THREAD_READY 31 else if t = 1 then demo_thread 1 RT_THREAD_RUNNING 10
       else if t = 2 then demo_thread 2 RT_THREAD_READY 10 else if t = 3 then demo_thread 3 RT_THREAD_SUSPEND 5
       else if t = 4 then demo_thread 4 RT_THREAD_SUSPEND 6 else demo_thread 5 RT_THREAD_INIT 20),
     tlist = (\<lambda>h. if h = Ready 31 then [0] else if h = Ready 10 then [2] else if h = Suspend (Sem 1) then [3] else []),
     rt_thread_ready_priority_group = 0x80000400, rt_scheduler_lock_nest = 0, rt_current_thread = Some 1,
     rt_current_priority = 10, rt_interrupt_nest = 0,
     timers = (\<lambda>tm. case tm of
         Thread_timer t \<Rightarrow> if t = 4 then \<lparr>tm_flag = 1, timeout_func = Rt_thread_timeout, tm_parameter = t, tm_init_tick = 9, timeout_tick = 5\<rparr>
           else \<lparr>tm_flag = 0, timeout_func = Rt_thread_timeout, tm_parameter = t, tm_init_tick = 0, timeout_tick = 0\<rparr>
       | Timer n \<Rightarrow> \<lparr>tm_flag = 2, timeout_func = User_timeout 0x90002001, tm_parameter = n, tm_init_tick = 3, timeout_tick = 0\<rparr>),
     rt_timer_list = [Thread_timer 4],
     sems = (\<lambda>s. \<lparr>sem_flag = RT_IPC_FLAG_PRIO, sem_value = (if s = 0 then 2 else 0)\<rparr>),
     mutexes = (\<lambda>m. if m = 1 then \<lparr>mx_flag = 1, mx_value = 0, original_priority = 10, hold = 1, owner = Some 1\<rparr>
       else \<lparr>mx_flag = 1, mx_value = 1, original_priority = 0xff, hold = 0, owner = None\<rparr>),
     objects = (\<lambda>_. \<lparr>obj_type = 0x81, obj_name = ''demo''\<rparr>), object_list = (\<lambda>_. []), mem = (\<lambda>_. 0x23)\<rparr>"

lemma demo_stat: "stat (threads demo t) = (if t = 0 \<or> t = 2 then 1 else if t = 1 then 3 else if t = 3 \<or> t = 4 then 2 else 0)"
  by (simp add: demo_def demo_thread_def)

lemma demo_priority:
  "current_priority (threads demo t) = (if t = 0 then 31 else if t = 1 \<or> t = 2 then 10 else if t = 3 then 5 else if t = 4 then 6 else 20)"
  by (simp add: demo_def demo_thread_def)

lemma demo_lists:
  "tlist demo h = (if h = Ready 31 then [0] else if h = Ready 10 then [2] else if h = Suspend (Sem 1) then [3] else [])"
  "rt_current_thread demo = Some 1" "rt_thread_ready_priority_group demo = 0x80000400" "rt_timer_list demo = [Thread_timer 4]"
  "rt_tick demo = 0xfffffffe" "rt_scheduler_lock_nest demo = 0" "sem_flag (sems demo s) = 1"
  "sem_value (sems demo s) = (if s = 0 then 2 else 0)" "mx_flag (mutexes demo m) = 1"
  "hold (mutexes demo m) = (if m = 1 then 1 else 0)" "owner (mutexes demo m) = (if m = 1 then Some 1 else None)"
  "mx_value (mutexes demo m) = (if m = 1 then 0 else 1)"
  "original_priority (mutexes demo m) = (if m = 1 then 10 else 0xff)"
  by (simp_all add: demo_def)

lemma demo_timers:
  "tm_flag (timers demo (Thread_timer t)) = (if t = 4 then 1 else 0)" "tm_parameter (timers demo (Thread_timer t)) = t"
  "timeout_func (timers demo (Thread_timer t)) = Rt_thread_timeout" "timeout_tick (timers demo (Thread_timer 4)) = 5"
  "timeout_func (timers demo (Timer n)) = User_timeout 0x90002001" "tm_flag (timers demo (Timer n)) = 2" "tm_init_tick (timers demo (Timer n)) = 3"
  by (simp_all add: demo_def)

lemma demo_thread_fields: "prio_ok (threads demo t)" "t \<le> 4 \<Longrightarrow> rt_scheduler_stack_check t demo"
proof -
  show "prio_ok (threads demo t)" by (simp add: prio_ok_def demo_def demo_thread_def)
  assume "t \<le> 4"
  then have "t = 0 \<or> t = 1 \<or> t = 2 \<or> t = 3 \<or> t = 4" by auto
  then show "rt_scheduler_stack_check t demo" by (auto simp: rt_scheduler_stack_check_def demo_def demo_thread_def Let_def)
qed

lemma demo_thread_ok: "thread_ok demo t"
  using demo_thread_fields [of t] by (auto simp: thread_ok_def live_def demo_stat demo_priority demo_lists)

lemma demo_group: "bit (0x80000400 :: int) i \<longleftrightarrow> i = 31 \<or> i = 10"
proof -
  have "(0x80000400 :: int) = push_bit 31 1 OR push_bit 10 1" by simp
  then have "bit (0x80000400 :: int) i \<longleftrightarrow> bit (push_bit 31 (1 :: int)) i \<or> bit (push_bit 10 (1 :: int)) i"
    by (simp only: bit_or_iff)
  then show ?thesis by (auto simp: bit_push_bit_iff bit_1_iff simp del: push_bit_of_1)
qed

lemma demo_sched: "sched_ok demo"
proof -
  have "queues_ok demo" by (auto simp: queues_ok_def demo_lists)
  moreover have "group_ok demo" by (auto simp: group_ok_def demo_lists demo_group)
  moreover have "place_ok h (threads demo t)" if "t \<in> set (tlist demo h)" for h t
    using that by (auto simp: demo_lists place_ok_def demo_stat demo_priority split: if_splits)
  ultimately show ?thesis by (simp add: sched_but_def demo_thread_ok)
qed

lemma demo_kernel_ok: "kernel_ok 0 demo"
proof -
  have "cur_ok demo" by (simp add: cur_ok_def demo_lists demo_stat)
  moreover have "due_in demo (Thread_timer 4) = 7" by (simp add: due_in_def demo_lists demo_timers)
  then have "timer_window 0 demo" by (simp add: timer_window_def demo_lists)
  moreover have "timer_links demo" by (simp add: timer_links_def demo_lists demo_timers demo_stat ttimer_ok_def)
  ultimately show ?thesis using demo_sched by (simp add: kernel_ok_def)
qed

lemma demo_inv: "kernel_inv demo"
  using demo_kernel_ok by (auto simp: kernel_inv_def sem_ok_def mutex_ok_def mutex_free_def mutex_held_def demo_lists)

lemma demo_running: "running demo 1"
  by (simp add: running_def demo_lists demo_stat)

lemma demo_asleep: "asleep 5 4 demo"
  by (simp add: asleep_def demo_lists demo_stat demo_timers)

text \<open>An application without timer functions of its own.\<close>

definition no_callback :: "u32 \<Rightarrow> nat \<Rightarrow> kernel \<Rightarrow> kernel option" where
  "no_callback f p k = Some k"

lemma no_callback_ok: "callbacks_ok no_callback" "callbacks_keep no_callback" "callbacks_quiet no_callback"
  by (auto simp: callbacks_ok_def callbacks_keep_def callbacks_quiet_def no_callback_def)

text \<open>
  An application whose timer function releases the semaphore of its number, as the completion of a periodic job would. A
  thread that it wakes loses its timer, so it is not quiet.
\<close>

definition release_callback :: "u32 \<Rightarrow> nat \<Rightarrow> kernel \<Rightarrow> kernel option" where
  "release_callback f s k = map_option snd (rt_sem_release s k)"

lemma resume_timers:
  assumes "rt_thread_resume t k = Some (e, k')"
  shows "set (rt_timer_list k') \<subseteq> set (rt_timer_list k)" "timeout_tick (timers k' tm) = timeout_tick (timers k tm)"
    "timers k' (Timer n) = timers k (Timer n)"
proof -
  let ?k = "snd (rt_timer_stop (Thread_timer t) (tlist_remove t k))"
  have "k' = k \<or> (timers k' = timers ?k \<and> rt_timer_list k' = rt_timer_list ?k)"
    using assms timers_frame.frame_insert [of t ?k k'] timer_list_frame.frame_insert [of t ?k k']
    by (auto simp: rt_thread_resume_def Let_def split: if_splits bind_splits)
  then show "set (rt_timer_list k') \<subseteq> set (rt_timer_list k)" "timeout_tick (timers k' tm) = timeout_tick (timers k tm)"
    "timers k' (Timer n) = timers k (Timer n)"
    by (auto simp: rt_timer_stop_def upd_timer_def timer_remove_def split: if_splits)
qed

lemma due_mono:
  assumes "set (rt_timer_list k') \<subseteq> set (rt_timer_list k)" "\<And>tm. timeout_tick (timers k' tm) = timeout_tick (timers k tm)"
    "rt_tick k' = rt_tick k"
  shows "due k' \<subseteq> due k"
  using assms(1) by (auto simp: due_def due_in_def assms(2,3))

lemma release_callback_ok: "callbacks_ok release_callback"
proof -
  have "\<exists>k'. release_callback f s k = Some k' \<and> kernel_ok (- 1) k' \<and> rt_current_thread k' \<noteq> None \<and> rt_tick k' = rt_tick k \<and>
      due k' \<subseteq> due k \<and> (\<forall>n. user_timer_ok (timers k (Timer n)) \<longrightarrow> user_timer_ok (timers k' (Timer n)))"
    if g: "kernel_ok (- 1) k" "rt_current_thread k \<noteq> None" for f s k
  proof (cases "tlist k (Suspend (Sem s))")
    case Nil
    let ?k = "upd_sem s (\<lambda>sm. sm\<lparr>sem_value := sem_value sm + 1\<rparr>) k"
    have "due ?k \<subseteq> due k" by (rule due_mono) (simp_all add: upd_sem_def)
    then show ?thesis using Nil g by (intro exI [of _ ?k]) (simp add: release_callback_def rt_sem_release_def upd_sem_def [of _ _ k])
  next
    case (Cons t ts)
    obtain k1 where k1: "rt_ipc_list_resume (Suspend (Sem s)) k = Some k1" "kernel_ok (- 1) k1" "runnable k1 t"
      "threads k1 = (threads k)(t := (threads k t)\<lparr>stat := stat (threads k1 t)\<rparr>)"
      "tlist k1 (Suspend (Sem s)) = ts" "\<forall>q. q \<noteq> Sem s \<longrightarrow> tlist k1 (Suspend q) = tlist k (Suspend q)"
      "rt_current_thread k1 = rt_current_thread k" "\<forall>d u. asleep d u k \<longrightarrow> asleep d u k1"
      by (rule ipc_resume_ok [OF g(1) Cons])
    obtain c where "rt_current_thread k1 = Some c" using k1(7) g(2) by auto
    then obtain k' c' where k': "rt_schedule k1 = Some k'" "kernel_ok (- 1) k'" "rescheduled k1 k'" "rt_current_thread k' = Some c'"
      "rt_scheduler_lock_nest k1 = 0 \<longrightarrow> highest_runs k'" "\<forall>d u. asleep d u k1 \<longrightarrow> asleep d u k'"
      by (rule schedule_ok [OF k1(2)])
    obtain e where r: "rt_thread_resume t k = Some (e, k1)" using k1(1) Cons by (auto simp: rt_ipc_list_resume_def)
    note same = timers_frame.frame_schedule [OF k'(1)] timer_list_frame.frame_schedule [OF k'(1)] tick_frame.frame_schedule [OF k'(1)]
    have "due k' \<subseteq> due k" by (rule due_mono) (use resume_timers [OF r] tick_thread.frame_list_resume [OF k1(1)] same in simp_all)
    then show ?thesis using k1(1) k' Cons resume_timers(3) [OF r] tick_thread.frame_list_resume [OF k1(1)] same
      by (intro exI [of _ k']) (simp add: release_callback_def rt_sem_release_def)
  qed
  then show ?thesis by (simp add: callbacks_ok_def)
qed

lemma release_keeps:
  assumes "rt_sem_release s k = Some (e, k')"
  shows "sem_ok k \<Longrightarrow> sem_ok k'" "mutex_ok k \<Longrightarrow> mutex_ok k'"
proof -
  consider (up) "tlist k (Suspend (Sem s)) = []" "k' = upd_sem s (\<lambda>sm. sm\<lparr>sem_value := sem_value sm + 1\<rparr>) k"
    | (wake) t i k1 where "rt_thread_resume t k = Some (i, k1)" "rt_schedule k1 = Some k'"
    using assms by (auto simp: rt_sem_release_def rt_ipc_list_resume_def split: if_splits bind_splits list.splits)
  then have "(sem_ok k \<longrightarrow> sem_ok k') \<and> (mutex_ok k \<longrightarrow> mutex_ok k')"
  proof cases
    case up
    then show ?thesis by (simp add: sem_ok_def mutex_ok_def upd_sem_def)
  next
    case wake
    then show ?thesis
      using sem_keep.keep_schedule [OF wake(2) sem_keep.keep_resume [OF wake(1)]]
        mutex_keep.keep_schedule [OF wake(2) mutex_keep.keep_resume [OF wake(1)]] by blast
  qed
  then show "sem_ok k \<Longrightarrow> sem_ok k'" "mutex_ok k \<Longrightarrow> mutex_ok k'" by blast+
qed

lemma release_callback_keep: "callbacks_keep release_callback"
  unfolding callbacks_keep_def release_callback_def using release_keeps by auto

end
