(* ===== verification/Kernel_Props.thy ===== *)
theory Kernel_Props
  imports Kernel_Example
begin

text \<open>
  Properties of the scheduler, of the threads and of the timers.
\<close>

section \<open>The kernel as a whole\<close>

lemma inv_ready_lists:
  assumes "kernel_inv k"
  shows "t \<in> set (tlist k (Ready p)) \<longleftrightarrow> tstate k t = RT_THREAD_READY \<and> tprio k t = p"
    "bit (rt_thread_ready_priority_group k) p \<longleftrightarrow> tlist k (Ready p) \<noteq> []" "distinct (tlist k h)"
    "tstate k t = RT_THREAD_RUNNING \<Longrightarrow> rt_current_thread k = Some t"
proof -
  have so: "sched_ok k" using assms by (simp add: kernel_inv_def kernel_ok_def)
  show "t \<in> set (tlist k (Ready p)) \<longleftrightarrow> tstate k t = RT_THREAD_READY \<and> tprio k t = p"
    using in_ready(2,3) [OF so, of t p] ready_in_list [OF so, of t] by auto
  show "bit (rt_thread_ready_priority_group k) p \<longleftrightarrow> tlist k (Ready p) \<noteq> []" "distinct (tlist k h)"
    using so by (simp_all add: sched_but_def group_ok_def queues_ok_def)
  show "tstate k t = RT_THREAD_RUNNING \<Longrightarrow> rt_current_thread k = Some t" by (rule running_is_current [OF so]) simp_all
qed

text \<open>
  C5. From the initialisation on, whatever sequence of permitted calls and ticks is executed, and whatever the timer functions
  do that keeps to their contract, the kernel keeps its invariant. In particular each ready list holds exactly the ready threads of its
  priority, each once, the priority bitmap marks exactly the lists that are not empty, no two threads run, and a
  semaphore or mutex that is available has no waiting threads.
\<close>

theorem kernel_reachable:
  assumes "callbacks_ok usr" "callbacks_keep usr" "kernel_reach usr texit k"
  shows "kernel_inv k \<and> (t \<in> set (tlist k (Ready p)) \<longleftrightarrow> tstate k t = RT_THREAD_READY \<and> tprio k t = p) \<and>
     (bit (rt_thread_ready_priority_group k) p \<longleftrightarrow> tlist k (Ready p) \<noteq> []) \<and> distinct (tlist k h) \<and>
     (tstate k t = RT_THREAD_RUNNING \<and> tstate k u = RT_THREAD_RUNNING \<longrightarrow> t = u) \<and>
     (0 < sem_value (sems k s) \<longrightarrow> tlist k (Suspend (Sem s)) = []) \<and>
     (owner (mutexes k m) = None \<longrightarrow> tlist k (Suspend (Mutex m)) = [])"
proof (intro conjI)
  have inv: "kernel_inv k" by (rule reach_inv [OF assms(3,1,2)])
  note r = inv_ready_lists [OF inv] and i = inv_cases [OF inv]
  show "kernel_inv k" by (rule inv)
  show "t \<in> set (tlist k (Ready p)) \<longleftrightarrow> tstate k t = RT_THREAD_READY \<and> tprio k t = p"
    "bit (rt_thread_ready_priority_group k) p \<longleftrightarrow> tlist k (Ready p) \<noteq> []" "distinct (tlist k h)" by (rule r)+
  show "tstate k t = RT_THREAD_RUNNING \<and> tstate k u = RT_THREAD_RUNNING \<longrightarrow> t = u" using r(4) [of t] r(4) [of u] by auto
  show "0 < sem_value (sems k s) \<longrightarrow> tlist k (Suspend (Sem s)) = []" using i(2) by (simp add: sem_ok_def)
  show "owner (mutexes k m) = None \<longrightarrow> tlist k (Suspend (Mutex m)) = []"
    using mutex_okD [OF i(3), of m] by (auto simp: mutex_held_def)
qed

text \<open>The blank memory at power-up, and a system booted from it with one thread.\<close>

definition blank :: kernel where
  "blank = demo\<lparr>threads := (\<lambda>_. demo_thread 0 RT_THREAD_INIT 0), tlist := (\<lambda>_. []), rt_current_thread := None, rt_timer_list := [],
     mutexes := (\<lambda>_. \<lparr>mx_flag = 1, mx_value = 1, original_priority = 0xff, hold = 0, owner = None\<rparr>)\<rparr>"

lemma blank_boot: "before_boot blank"
  by (simp add: before_boot_def blank_def live_def demo_thread_def mutex_free_def)

lemma booted:
  obtains k t where "kernel_reach usr 0x90000400 k" "running k t"
proof -
  let ?k0 = "rt_system_timer_init (rt_system_scheduler_init blank)"
  have r0: "kernel_reach usr 0x90000400 ?k0" by (rule reach_boot [OF blank_boot])
  have i0: "kernel_inv ?k0" by (rule boot_inv [OF blank_boot])
  have f: "threads ?k0 = (\<lambda>_. demo_thread 0 RT_THREAD_INIT 0)" "rt_current_thread ?k0 = None" "tlist ?k0 Defunct = []"
    by (simp_all add: rt_system_timer_init_def rt_system_scheduler_init_def blank_def)
  have a1: "unused ?k0 1" "stack_area ?k0 0x20001000 0x400" "unat (10 :: u8) < 32"
    using f by (simp_all add: unused_def stack_area_def live_def demo_thread_def)
  obtain k1 where k1: "rt_thread_init 0x90000400 1 ''main'' 0x90001001 0 0x20001000 0x400 10 5 ?k0 = Some k1" "kernel_ok 0 k1" "startable k1 1"
    "rt_current_thread k1 = None \<longleftrightarrow> rt_current_thread ?k0 = None" "\<forall>d u. asleep d u ?k0 \<longrightarrow> asleep d u k1"
    "rt_current_thread k1 \<noteq> Some 1" "init_priority (threads k1 1) = 10"
    "\<exists>stk. sp (threads k1 1) = stk \<and> (stk + 68) AND 7 = 0 \<and> load32 (mem k1) (stk + 36) = 0 \<and> load32 (mem k1) (stk + 56) = 0x90000400 \<and>
       load32 (mem k1) (stk + 60) = 0x90001001 \<and> load32 (mem k1) (stk + 64) = 0x01000000"
    by (rule thread_init_ok [OF inv_cases(1) [OF i0] a1])
  have r1: "kernel_reach usr 0x90000400 k1"
    by (rule reach_call [OF r0, of "Thread_init 1 ''main'' 0x90001001 0 0x20001000 0x400 10 5"]) (use a1 k1(1) in simp_all)
  obtain k2 where k2: "rt_thread_startup 1 k1 = Some (RT_EOK, k2)" "kernel_ok 0 k2" "runnable k2 1"
    "\<forall>d u. asleep d u k1 \<longrightarrow> asleep d u k2" "rt_current_thread k1 = None \<longleftrightarrow> rt_current_thread k2 = None"
    "rt_current_thread k1 \<noteq> None \<and> rt_scheduler_lock_nest k1 = 0 \<longrightarrow> highest_runs k2"
    by (rule startup_ok [OF k1(2,3,6)])
  have r2: "kernel_reach usr 0x90000400 k2"
    by (rule reach_call [OF r1, of "Thread_startup 1"]) (use k1(3,6) k2(1) in simp_all)
  have c2: "rt_current_thread k2 = None" using k1(4) k2(5) f(2) by simp
  note so = kernel_okD(1) [OF k2(2)]
  have rdy: "tstate k2 1 = RT_THREAD_READY" using k2(3) running_is_current [OF so, of 1] c2 by (auto simp: runnable_def)
  then have "tlist k2 (Ready (tprio k2 1)) \<noteq> []" using ready_in_list [OF so, of 1] by auto
  then have g: "rt_thread_ready_priority_group k2 \<noteq> 0" using so by (auto simp: sched_but_def group_ok_def)
  obtain to k3 where k3: "rt_system_scheduler_start k2 = Some k3" "kernel_ok 0 k3" "running k3 to" "highest_runs k3"
    "tstate k2 to = RT_THREAD_READY" "\<forall>d u. asleep d u k2 \<longrightarrow> asleep d u k3"
    by (rule start_ok [OF k2(2) c2 g])
  have r3: "kernel_reach usr 0x90000400 k3"
    by (rule reach_call [OF r2, of Scheduler_start]) (use c2 g k3(1) in simp_all)
  from r3 k3(3) show thesis by (rule that)
qed

theorem kernel_reachable_witness:
  "\<exists>k t. kernel_reach release_callback 0x90000400 k \<and> running k t \<and> kernel_inv k \<and>
     (t \<in> set (tlist k (Ready 10)) \<longleftrightarrow> tstate k t = RT_THREAD_READY \<and> tprio k t = 10)"
proof -
  obtain k t where "kernel_reach release_callback 0x90000400 k" "running k t" by (rule booted)
  then show ?thesis
    using kernel_reachable [OF release_callback_ok release_callback_keep, of "0x90000400" k t 10 Defunct t 0 0] by blast
qed

text \<open>
  C6. In every state that satisfies the invariant, every call of \<open>kcall\<close> that \<open>allowed\<close> permits returns: it never indexes the
  ready lists out of range, takes the first thread of an empty list, uses a null thread or stops in the stack check, and the
  loops over timers and waiting threads end. It keeps the invariant, and there is a current thread afterwards if there was one.
\<close>

theorem kernel_call_returns:
  assumes "callbacks_ok usr" "callbacks_keep usr" "kernel_inv k" "allowed k c"
  shows "\<exists>k'. kernel_call usr texit c k = Some k' \<and> kernel_inv k' \<and> (rt_current_thread k \<noteq> None \<longrightarrow> rt_current_thread k' \<noteq> None)"
  by (rule call_inv [OF assms(3,4,1,2)])

theorem kernel_call_returns_witness:
  "(\<exists>k'. kernel_call release_callback 0 (Sem_take 1 25) demo = Some k' \<and> kernel_inv k' \<and> rt_current_thread k' \<noteq> None) \<and>
   (\<exists>k'. kernel_call release_callback 0 Tick demo = Some k' \<and> kernel_inv k' \<and> rt_current_thread k' \<noteq> None)"
proof -
  have "allowed demo (Sem_take 1 25)" using demo_running by (auto simp: demo_lists ipc_flag_ok_def wait_time_ok_def)
  moreover have "allowed demo Tick" by (simp add: demo_lists)
  ultimately show ?thesis
    using kernel_call_returns [OF release_callback_ok release_callback_keep demo_inv, of _ 0] by (auto simp: demo_lists simp del: kernel_call.simps)
qed

section \<open>Scheduling\<close>

text \<open>
  C7. With the scheduler unlocked, \<open>rt_schedule\<close> returns and the current thread is afterwards a runnable thread of the highest
  priority (the smallest number) among all runnable threads, if there is one.
\<close>

theorem schedule_picks_highest:
  assumes "kernel_inv k" "rt_current_thread k = Some c" "rt_scheduler_lock_nest k = 0"
  shows "\<exists>k' c'. rt_schedule k = Some k' \<and> rt_current_thread k' = Some c' \<and> kernel_inv k' \<and>
     (\<forall>t. runnable k t \<longrightarrow> runnable k c' \<and> tprio k c' \<le> tprio k t)"
proof -
  note inv = inv_cases [OF assms(1)]
  obtain k' c' where k': "rt_schedule k = Some k'" "kernel_ok 0 k'" "rescheduled k k'" "rt_current_thread k' = Some c'"
    "rt_scheduler_lock_nest k = 0 \<longrightarrow> highest_runs k'" "\<forall>d u. asleep d u k \<longrightarrow> asleep d u k'"
    by (rule schedule_ok [OF inv(1) assms(2)])
  have i: "kernel_inv k'"
    using k'(2) sem_keep.keep_schedule [OF k'(1) inv(2)] mutex_keep.keep_schedule [OF k'(1) inv(3)] by (simp add: kernel_inv_def)
  note same = rescheduled_thread(1,8) [OF k'(3)]
  have "runnable k c' \<and> tprio k c' \<le> tprio k t" if t: "runnable k t" for t
  proof (cases "tstate k' t = RT_THREAD_READY")
    case True
    then have "tstate k' c' = RT_THREAD_RUNNING" "tprio k' c' \<le> tprio k' t" using k'(4,5) assms(3) by (auto simp: highest_runs_def)
    then show ?thesis using same by (simp add: runnable_def [of k']) (metis runnable_def)
  next
    case False
    then have "tstate k' t = RT_THREAD_RUNNING" using t same(2) [of t] by (simp add: runnable_def [of k'])
    then have "t = c'" using running_is_current [OF kernel_okD(1) [OF k'(2)], of t] k'(4) by simp
    then show ?thesis using t by simp
  qed
  then show ?thesis using k' i by blast
qed

theorem schedule_picks_highest_witness:
  "\<exists>k' c'. rt_schedule demo = Some k' \<and> rt_current_thread k' = Some c' \<and> tprio demo c' \<le> 10"
proof -
  have "runnable demo 1" using demo_running by (rule running_runnable)
  then show ?thesis using schedule_picks_highest [OF demo_inv, of 1] demo_priority [of 1] by (fastforce simp: demo_lists)
qed

text \<open>A running thread whose time slice is over goes behind the other ready threads of its priority.\<close>

lemma schedule_rotates:
  assumes "kernel_ok 0 k" "rt_scheduler_lock_nest k = 0" "running k t" "stat (threads k t) AND RT_THREAD_STAT_YIELD \<noteq> 0"
    "tlist k (Ready (tprio k t)) = u # us" "\<forall>i < tprio k t. tlist k (Ready i) = []"
  obtains k' where "rt_schedule k = Some k'" "running k' u" "tlist k' (Ready (tprio k t)) = us @ [t]"
    "threads k' t = demoted (threads k t)" "tstate k' t = RT_THREAD_READY"
proof -
  have c: "rt_current_thread k = Some t" "tstate k t = RT_THREAD_RUNNING" using assms(3) by (simp_all add: running_def)
  note ok = kernel_okD(1,2) [OF assms(1)]
  have ne: "u \<noteq> t" using in_ready(2) [OF ok(1), of u "tprio k t"] assms(5) c(2) by auto
  have g: "rt_thread_ready_priority_group k \<noteq> 0" using ok(1) assms(5) by (auto simp: sched_but_def group_ok_def)
  have "\<not> schedule_stays k t"
    using assms(2,4-6) g unfolding schedule_stays_def by force
  then obtain k' p to r where k': "rt_schedule k = Some k'" "tlist k (Ready p) = to # r" "\<forall>i<p. tlist k (Ready i) = []" "to \<noteq> t"
    "tstate k t = RT_THREAD_RUNNING \<longrightarrow> p \<le> tprio k t" "rt_current_thread k' = Some to"
    "threads k' = (threads k)(t := demoted (threads k t), to := promoted (threads k to))"
    "tlist k' = (\<lambda>h. removeAll to ((if tstate k t = RT_THREAD_RUNNING
        then (tlist k)(Ready (tprio k t) := tlist k (Ready (tprio k t)) @ [t]) else tlist k) h))"
    using schedule_outcome [OF ok c(1)] by blast
  have "\<not> p < tprio k t" using k'(2) assms(6) by auto
  then have "p = tprio k t" using k'(5) c(2) by simp
  then have to: "to = u" "r = us" using k'(2) assms(5) by simp_all
  have "distinct (u # us)" using ok(1) assms(5) unfolding sched_but_def queues_ok_def by metis
  then show thesis
    using k' c(2) assms(5) to ne by (intro that [of k']) (simp_all add: running_def removeAll_id demoted_def)
qed

text \<open>
  C15. Threads of equal priority take turns: while no thread of a higher priority is ready and the scheduler is unlocked, when the
  last tick of its time slice has passed, the running thread goes to the end of the ready list of its priority, with a new time slice, and the first thread of that list runs.
  Before the last tick no switch happens.
\<close>

theorem time_slice_rotates:
  assumes "kernel_inv k" "rt_scheduler_lock_nest k = 0" "running k t" "tlist k (Ready (tprio k t)) = u # us"
    "\<forall>i < tprio k t. tlist k (Ready i) = []"
  shows "(remaining_tick (threads k t) = 1 \<longrightarrow>
      (\<exists>k'. time_slice k = Some k' \<and> running k' u \<and> tlist k' (Ready (tprio k t)) = us @ [t] \<and>
         remaining_tick (threads k' t) = init_tick (threads k t) \<and> tstate k' t = RT_THREAD_READY)) \<and>
    (remaining_tick (threads k t) \<noteq> 1 \<longrightarrow>
      time_slice k = Some (upd_thread t (\<lambda>th. th\<lparr>remaining_tick := remaining_tick th - 1\<rparr>) k))"
proof (intro conjI impI)
  have cur: "rt_current_thread k = Some t" "tstate k t = RT_THREAD_RUNNING" using assms(3) by (simp_all add: running_def)
  show "time_slice k = Some (upd_thread t (\<lambda>th. th\<lparr>remaining_tick := remaining_tick th - 1\<rparr>) k)" if "remaining_tick (threads k t) \<noteq> 1"
    using that cur by (simp add: time_slice_def Let_def)
  assume last: "remaining_tick (threads k t) = 1"
  let ?f = "\<lambda>th. th\<lparr>remaining_tick := init_tick th, stat := stat th OR RT_THREAD_STAT_YIELD\<rparr>"
  let ?k = "upd_thread t ?f (upd_thread t (\<lambda>th. th\<lparr>remaining_tick := remaining_tick th - 1\<rparr>) k)"
  have "kernel_ok 0 (upd_thread t (\<lambda>th. th\<lparr>remaining_tick := remaining_tick th - 1\<rparr>) k)"
    by (rule plain_update [OF inv_cases(1) [OF assms(1)]]) (use cur in simp_all)
  then have ok: "kernel_ok 0 ?k" by (rule plain_update) (use cur in simp_all)
  have "rt_scheduler_lock_nest ?k = 0" "running ?k t" "stat (threads ?k t) AND RT_THREAD_STAT_YIELD \<noteq> 0"
    "tlist ?k (Ready (tprio ?k t)) = u # us" "\<forall>i < tprio ?k t. tlist ?k (Ready i) = []"
    using assms cur by (simp_all add: running_def word_ao_absorbs)
  then obtain k' where k': "rt_schedule ?k = Some k'" "running k' u" "tlist k' (Ready (tprio ?k t)) = us @ [t]"
    "threads k' t = demoted (threads ?k t)" "tstate k' t = RT_THREAD_READY"
    by (rule schedule_rotates [OF ok])
  moreover have "time_slice k = Some k'" using k'(1) cur last by (simp add: time_slice_def rt_thread_yield_def Let_def)
  ultimately show "\<exists>k'. time_slice k = Some k' \<and> running k' u \<and> tlist k' (Ready (tprio k t)) = us @ [t] \<and>
      remaining_tick (threads k' t) = init_tick (threads k t) \<and> tstate k' t = RT_THREAD_READY"
    using cur by (intro exI [of _ k']) (simp add: demoted_def)
qed

theorem time_slice_rotates_witness:
  "\<exists>k'. time_slice demo = Some k' \<and> running k' 2 \<and> tlist k' (Ready 10) = [1] \<and> remaining_tick (threads k' 1) = 10"
proof -
  have p: "tprio demo 1 = 10" "remaining_tick (threads demo 1) = 1" "init_tick (threads demo 1) = 10"
    by (simp_all add: demo_def demo_thread_def)
  show ?thesis using time_slice_rotates [OF demo_inv _ demo_running, of 2 "[]"] by (simp add: p demo_lists del: One_nat_def) blast
qed

text \<open>
  \<open>rt_thread_yield\<close> does not give the processor to a ready thread of the same priority, although it is meant to: unless a
  thread of a higher priority is ready, or the time slice has just run out, it returns without any effect.
\<close>

theorem yield_keeps_processor:
  assumes "kernel_inv k" "running k t" "stat (threads k t) AND RT_THREAD_STAT_YIELD = 0"
    "\<forall>u. tstate k u = RT_THREAD_READY \<longrightarrow> tprio k t \<le> tprio k u"
  shows "rt_thread_yield k = Some (RT_EOK, k)"
proof -
  note ok = kernel_okD [OF inv_cases(1) [OF assms(1)]]
  have c: "rt_current_thread k = Some t" "tstate k t = RT_THREAD_RUNNING" using assms(2) by (simp_all add: running_def)
  have "schedule_stays k t" if g: "rt_thread_ready_priority_group k \<noteq> 0"
  proof -
    obtain to p r where h: "get_highest_priority_thread k = Some (to, p)" "tlist k (Ready p) = to # r" "p < 32"
      "\<And>i. i < p \<Longrightarrow> tlist k (Ready i) = []"
      by (rule highest_thread [OF ok(1) g]) blast
    have "tprio k t \<le> p" using inv_ready_lists(1) [OF assms(1), of to p] assms(4) h(2) by auto
    then show ?thesis unfolding schedule_stays_def using h(2,4) c(2) assms(3) by (metis le_neq_implies_less)
  qed
  then have s: "schedule_stays k t" by (auto simp: schedule_stays_def)
  have "rt_schedule k = Some k"
    using schedule_outcome [OF ok(1,2) c(1)] s by blast
  then show ?thesis by (simp add: rt_thread_yield_def)
qed

theorem yield_keeps_processor_witness:
  "tstate demo 2 = RT_THREAD_READY \<and> tprio demo 2 = tprio demo 1 \<and> rt_thread_yield demo = Some (RT_EOK, demo)"
proof -
  have "tprio demo 1 \<le> tprio demo u" if "tstate demo u = RT_THREAD_READY" for u
    using that by (auto simp: demo_stat demo_priority split: if_splits)
  then show ?thesis using yield_keeps_processor [OF demo_inv demo_running] by (simp add: demo_stat demo_priority)
qed

section \<open>Time\<close>

lemma sint_of_small: "n < 0x7fffffff \<Longrightarrow> sint (n :: u32) = int (unat n)"
  using sint_small [of n] by (simp add: word_less_def)

text \<open>
  C8. A thread that calls \<open>rt_thread_sleep\<close> for \<open>n\<close> ticks sleeps through the next \<open>n - 1\<close> tick interrupts, whatever
  permitted calls the other threads make meanwhile (as long as nobody resumes, detaches or deletes it), and is runnable again after the \<open>n\<close>-th; a sleep of
  0 ticks lasts until the next tick. The functions of application timers are assumed to leave the threads alone (\<open>callbacks_quiet\<close>), and \<open>n\<close> is below
  half the range of the tick counter. This holds across the wrap-around of the tick counter.
\<close>

theorem sleep_wakes_on_time:
  assumes "callbacks_ok usr" "callbacks_keep usr" "callbacks_quiet usr"
    and "kernel_inv k" "running k t" "n < 0x7fffffff" "rt_thread_sleep n k = Some k1"
    and "kernel_run usr texit cs k1 = Some k2" "\<forall>c \<in> set cs. \<not> wakes c t" "ticks cs < max 1 (unat n)"
  shows "tstate k2 t = RT_THREAD_SUSPEND \<and>
    (ticks cs + 1 = max 1 (unat n) \<longrightarrow> (\<exists>k3. SysTick_Handler usr k2 = Some k3 \<and> runnable k3 t))"
proof -
  obtain k' where k': "rt_thread_sleep n k = Some k'" "kernel_inv k'" "asleep (rt_tick k + n) t k'" "rt_tick k' = rt_tick k"
    "rt_current_thread k' \<noteq> None" "rt_scheduler_lock_nest k = 0 \<longrightarrow> highest_runs k'"
    by (rule sleep_ok [OF assms(4-6)])
  have e: "k' = k1" using k'(1) assms(7) by simp
  have s: "sint (rt_tick k + n - rt_tick k1) = int (unat n)" using k'(4) e sint_of_small [OF assms(6)] by simp
  have lt: "int (ticks cs) < max 1 (sint (rt_tick k + n - rt_tick k1))" 
  proof -
    have "int (ticks cs) < int (max 1 (unat n))" using assms(10) by (simp only: of_nat_less_iff)
    then show ?thesis unfolding s by (simp only: of_nat_max of_nat_1)
  qed
  have a: "kernel_inv k2 \<and> asleep (rt_tick k + n) t k2 \<and>
      sint (rt_tick k + n - rt_tick k2) = sint (rt_tick k + n - rt_tick k1) - int (ticks cs)"
    by (rule stays_asleep [OF assms(1-3) _ _ assms(8,9) lt]) (use k'(2,3) e in simp_all)
  have c: "rt_current_thread k2 \<noteq> None" using run_inv [OF assms(1,2) _ assms(8)] k'(2,5) e by simp
  obtain k3 where k3: "SysTick_Handler usr k2 = Some k3" by (rule tick_returns [OF _ c assms(1,2)]) (use a in simp)
  have "runnable k3 t" if last: "ticks cs + 1 = max 1 (unat n)"
  proof (rule wakes_at_last [OF assms(1-3)])
    show "kernel_inv k1" "asleep (rt_tick k + n) t k1" using k'(2,3) e by simp_all
    show "kernel_run usr texit (cs @ [Tick]) k1 = Some k3" using assms(8) k3 c by (simp add: run_append)
    show "\<forall>c \<in> set cs. \<not> wakes c t" by (rule assms(9))
    show "int (ticks cs) + 1 = max 1 (sint (rt_tick k + n - rt_tick k1))" unfolding s using last by linarith
  qed
  then show ?thesis using a k3 asleep_suspended by blast
qed

theorem sleep_wakes_on_time_witness:
  "\<exists>k1 k2 k3. rt_thread_sleep 2 demo = Some k1 \<and> SysTick_Handler no_callback k1 = Some k2 \<and> tstate k2 1 = RT_THREAD_SUSPEND \<and>
     SysTick_Handler no_callback k2 = Some k3 \<and> runnable k3 1"
proof -
  obtain k1 where k1: "rt_thread_sleep 2 demo = Some k1" "kernel_inv k1" "asleep (rt_tick demo + 2) 1 k1" "rt_tick k1 = rt_tick demo"
    "rt_current_thread k1 \<noteq> None" "rt_scheduler_lock_nest demo = 0 \<longrightarrow> highest_runs k1"
    by (rule sleep_ok [OF demo_inv demo_running, of 2]) simp_all
  obtain k2 where k2: "SysTick_Handler no_callback k1 = Some k2" by (rule tick_returns [OF k1(2,5) no_callback_ok(1,2)])
  have "kernel_run no_callback 0 [Tick] k1 = Some k2" using k1(5) k2 by simp
  then show ?thesis
    using sleep_wakes_on_time [OF no_callback_ok demo_inv demo_running _ k1(1), of 0 "[Tick]" k2] k1(1) k2 by (auto simp: wakes_def)
qed

text \<open>
  C16. \<open>rt_timer_start\<close> puts the timer behind all timers due no later and before all that are due later, by the
  signed distance from the present tick, which stays right when the tick counter wraps around. Every running timer is due within
  [0, 0x7fffffff) ticks, and the timer started is due in exactly its period.
\<close>

theorem timer_start_order:
  assumes "kernel_inv k" "tm_init_tick (timers k tm) < 0x7fffffff"
  defines "ts \<equiv> removeAll tm (rt_timer_list k)" and "v \<equiv> uint (tm_init_tick (timers k tm))"
  shows "rt_timer_list (rt_timer_start tm k) = takeWhile (\<lambda>u. due_in k u \<le> v) ts @ tm # dropWhile (\<lambda>u. due_in k u \<le> v) ts \<and>
    sorted (map (due_in (rt_timer_start tm k)) (rt_timer_list (rt_timer_start tm k))) \<and> distinct (rt_timer_list (rt_timer_start tm k)) \<and>
    due_in (rt_timer_start tm k) tm = v \<and>
    (\<forall>u \<in> set (rt_timer_list (rt_timer_start tm k)). 0 \<le> due_in (rt_timer_start tm k) u \<and> due_in (rt_timer_start tm k) u < 0x7fffffff)"
proof -
  have w: "timer_window 0 k" by (rule kernel_okD(3) [OF inv_cases(1) [OF assms(1)]])
  note s = timer_start_list [OF w _ assms(2), simplified, folded ts_def v_def]
  show ?thesis using s by (simp add: timer_window_def Let_def)
qed

theorem timer_start_order_witness:
  "rt_timer_list (rt_timer_start (Timer 1) demo) = [Timer 1, Thread_timer 4] \<and> due_in (rt_timer_start (Timer 1) demo) (Timer 1) = 3"
proof -
  have d: "due_in demo (Thread_timer 4) = 7" by (simp add: due_in_def demo_lists demo_timers)
  show ?thesis using timer_start_order [OF demo_inv, of "Timer 1"] d by (simp add: demo_timers demo_lists del: One_nat_def)
qed

text \<open>
  C17. \<open>rt_timer_check\<close> ends, when timers are periodic and when their functions call the kernel within their contract
  (\<open>callbacks_ok\<close>: they return, keep the invariant and make no other timer due), and leaves no due timer behind. If these functions leave
  the threads alone, every thread whose timer was due is runnable afterwards, and a sleeping thread whose time has not come sleeps on.
\<close>

theorem timer_check_ends:
  assumes "callbacks_ok usr" "kernel_ok (- 1) k" "rt_current_thread k \<noteq> None"
  shows "\<exists>k'. rt_timer_check usr k = Some k' \<and> kernel_ok 1 k' \<and> (\<forall>tm \<in> set (rt_timer_list k'). 0 < due_in k' tm) \<and>
    (callbacks_quiet usr \<longrightarrow>
      (\<forall>t. Thread_timer t \<in> set (rt_timer_list k) \<and> due_in k (Thread_timer t) \<le> 0 \<longrightarrow> runnable k' t) \<and>
      (\<forall>d t. asleep d t k \<and> 0 < due_in k (Thread_timer t) \<longrightarrow> asleep d t k'))"
proof -
  obtain k' where k': "timer_check_loop usr (rt_tick k) k = Some k'" "kernel_ok 1 k'"
    "callbacks_quiet usr \<longrightarrow> (\<forall>t. Thread_timer t \<in> due k \<longrightarrow> runnable k' t) \<and> (\<forall>t. runnable k t \<longrightarrow> runnable k' t) \<and>
       (\<forall>d t. asleep d t k \<longrightarrow> Thread_timer t \<notin> due k \<longrightarrow> asleep d t k')"
    using check_loop [OF assms(2,3,1)] by blast
  have "\<forall>tm \<in> set (rt_timer_list k'). 0 < due_in k' tm"
    using kernel_okD(3) [OF k'(2)] by (fastforce simp: timer_window_def)
  then show ?thesis using k' unfolding rt_timer_check_def by (intro exI [of _ k']) (auto simp: due_def)
qed

theorem timer_check_ends_witness:
  "\<exists>k'. rt_timer_check no_callback demo = Some k' \<and> asleep 5 4 k'"
proof -
  have "due_in demo (Thread_timer 4) = 7" by (simp add: due_in_def demo_lists demo_timers)
  then show ?thesis
    using timer_check_ends [OF no_callback_ok(1) kernel_ok_mono [OF demo_kernel_ok]] no_callback_ok(3) demo_asleep
    by (fastforce simp: demo_lists)
qed

text \<open>
  C39. \<open>rt_thread_delay_until\<close> is meant to delay until \<open>inc\<close> ticks after the time \<open>*tick\<close>. It adds the time
  that has passed instead of subtracting it: a thread that calls it \<open>elapsed\<close> ticks after \<open>*tick\<close> sleeps until twice as
  many ticks after the time it should wake.
\<close>

theorem delay_until_oversleeps:
  fixes since :: u32
  assumes "kernel_inv k" "running k t"
  defines "elapsed \<equiv> rt_tick k - since"
  assumes "elapsed < inc" "elapsed + inc < 0x7fffffff"
  shows "\<exists>k'. rt_thread_delay_until since inc k = Some (True, elapsed + inc, k') \<and> kernel_inv k' \<and>
    asleep (since + inc + 2 * elapsed) t k'"
proof -
  have c: "rt_current_thread k = Some t" using assms(2) by (simp add: running_def)
  obtain k' where k': "rt_thread_sleep (elapsed + inc) k = Some k'" "kernel_inv k'" "asleep (rt_tick k + (elapsed + inc)) t k'"
    "rt_tick k' = rt_tick k" "rt_current_thread k' \<noteq> None" "rt_scheduler_lock_nest k = 0 \<longrightarrow> highest_runs k'"
    by (rule sleep_ok [OF assms(1,2,5)])
  have "rt_tick k = since + elapsed" by (simp add: elapsed_def)
  then have "rt_tick k + (elapsed + inc) = since + inc + 2 * elapsed" by simp
  then have "asleep (since + inc + 2 * elapsed) t k'" using k'(3) by (simp only:)
  moreover have "rt_thread_delay_until since inc k = Some (True, elapsed + inc, k')"
    using k'(1) c assms(4) by (simp add: rt_thread_delay_until_def rt_thread_sleep_def Let_def flip: elapsed_def)
  ultimately show ?thesis using k'(2) by blast
qed

theorem delay_until_oversleeps_witness:
  "\<exists>k'. rt_thread_delay_until 0xfffffff8 100 demo = Some (True, 106, k') \<and> asleep 104 1 k'"
proof -
  have e: "rt_tick demo - 0xfffffff8 = 6" by (simp add: demo_lists)
  have f: "(6 :: u32) + 100 = 106" "(0xfffffff8 :: u32) + 100 + 2 * 6 = 104" by simp_all
  have "\<exists>k'. rt_thread_delay_until 0xfffffff8 100 demo = Some (True, 6 + 100, k') \<and> kernel_inv k' \<and> asleep (0xfffffff8 + 100 + 2 * 6) 1 k'"
    by (rule delay_until_oversleeps [OF demo_inv demo_running, of "0xfffffff8" 100, unfolded e]) simp_all
  then show ?thesis unfolding f by blast
qed

text \<open>
  C38. \<open>rt_thread_init\<close> prepares an unused control block so that it can be started. Its saved context lies at the end of the
  stack area, 8-byte aligned behind the frame, and makes the first switch to the thread begin at the entry with the parameter in
  \<open>r0\<close>, the return address \<open>rt_thread_exit\<close> and the Thumb state; no sleeping thread is disturbed.
\<close>

theorem thread_init_frame:
  assumes "kernel_inv k" "unused k t" "stack_area k start sz" "unat prio < 32"
  shows "\<exists>k'. rt_thread_init texit t nm ent param start sz prio tick k = Some k' \<and> kernel_inv k' \<and> startable k' t \<and>
    (sp (threads k' t) + 68) AND 7 = 0 \<and> load32 (mem k') (sp (threads k' t) + 36) = param \<and>
    load32 (mem k') (sp (threads k' t) + 56) = texit \<and> load32 (mem k') (sp (threads k' t) + 60) = ent \<and>
    load32 (mem k') (sp (threads k' t) + 64) = 0x01000000 \<and> (\<forall>d u. asleep d u k \<longrightarrow> asleep d u k')"
proof -
  note inv = inv_cases [OF assms(1)]
  obtain k' where k': "rt_thread_init texit t nm ent param start sz prio tick k = Some k'" "kernel_ok 0 k'" "startable k' t"
    "rt_current_thread k' = None \<longleftrightarrow> rt_current_thread k = None" "\<forall>d u. asleep d u k \<longrightarrow> asleep d u k'"
    "rt_current_thread k' \<noteq> Some t" "init_priority (threads k' t) = prio"
    "\<exists>stk. sp (threads k' t) = stk \<and> (stk + 68) AND 7 = 0 \<and> load32 (mem k') (stk + 36) = param \<and> load32 (mem k') (stk + 56) = texit \<and>
       load32 (mem k') (stk + 60) = ent \<and> load32 (mem k') (stk + 64) = 0x01000000"
    by (rule thread_init_ok [OF inv(1) assms(2-4)])
  have "kernel_inv k'"
    using k'(2) sem_keep.keep_thread_init [OF k'(1) inv(2)] mutex_keep.keep_thread_init [OF k'(1) inv(3)] by (simp add: kernel_inv_def)
  then show ?thesis using k' by auto
qed

theorem thread_init_frame_witness:
  "\<exists>k'. rt_thread_init 0x90000400 5 ''shell'' 0x90003001 7 0x20010002 0x203 20 10 demo = Some k' \<and> startable k' 5 \<and>
    load32 (mem k') (sp (threads k' 5) + 60) = 0x90003001 \<and> load32 (mem k') (sp (threads k' 5) + 36) = 7"
proof -
  have "unused demo 5" by (simp add: unused_def demo_stat demo_lists)
  moreover have "stack_area demo 0x20010002 0x203"
    by (auto simp: stack_area_def live_def demo_stat demo_def demo_thread_def split: if_splits)
  ultimately show ?thesis
    using thread_init_frame [OF demo_inv, of 5 "0x20010002" "0x203" 20 "0x90000400" "''shell''" "0x90003001" 7 10] by auto
qed

section \<open>Conversions\<close>

text \<open>A thousand ticks a second: the conversion of a time in milliseconds is the identity, and -1 stands for every negative time.\<close>

lemma tick_from_millisecond_id:
  assumes "0 \<le> ms" "ms < 2 ^ 31"
  shows "uint (rt_tick_from_millisecond ms) = ms"
proof -
  have "(1000 * (ms mod 1000) + 999) div 1000 = ms mod 1000" by (simp add: div_add1_eq)
  then have "rt_tick_from_millisecond ms = of_int (1000 * (ms div 1000)) + of_int (ms mod 1000)"
    using assms(1) by (simp only: rt_tick_from_millisecond_def not_less [symmetric] if_False)
  then have "rt_tick_from_millisecond ms = of_int (1000 * (ms div 1000) + ms mod 1000)" by (simp only: of_int_add)
  also have "1000 * (ms div 1000) + ms mod 1000 = ms" by simp
  finally show ?thesis using assms by (simp add: uint_word_of_int take_bit_eq_mod)
qed

lemma tick_from_millisecond_negative: "ms < 0 \<Longrightarrow> rt_tick_from_millisecond ms = 0xffffffff"
  by (simp add: rt_tick_from_millisecond_def)

end
