(* ===== verification/Rt_List.thy ===== *)
theory Rt_List
  imports Dl_Ring Ipc_Defs
begin

text \<open>
  The lists of \<open>rtservice.h\<close>, pointer by pointer, and the two loops of the kernel that walk them. A list is a ring through
  its head; the relation \<open>holds\<close> says which sequences of nodes the links represent. The interface \<open>node_lists\<close>
  states the operations by what they do to the sequences, which is how the theory \<open>Kernel_Defs\<close> has them.
\<close>

section \<open>The links\<close>

datatype ('h, 'n) node = Head 'h | Node 'n

record 'p links =
  l_next :: "'p \<Rightarrow> 'p"
  l_prev :: "'p \<Rightarrow> 'p"

definition set_next :: "'p \<Rightarrow> 'p \<Rightarrow> 'p links \<Rightarrow> 'p links" where
  "set_next x v s = s\<lparr>l_next := (l_next s)(x := v)\<rparr>"

definition set_prev :: "'p \<Rightarrow> 'p \<Rightarrow> 'p links \<Rightarrow> 'p links" where
  "set_prev x v s = s\<lparr>l_prev := (l_prev s)(x := v)\<rparr>"

definition rt_list_init :: "'p \<Rightarrow> 'p links \<Rightarrow> 'p links" where
  "rt_list_init l s = set_next l l (set_prev l l s)"

definition rt_list_insert_after :: "'p \<Rightarrow> 'p \<Rightarrow> 'p links \<Rightarrow> 'p links" where
  "rt_list_insert_after l n s =
    (let s = set_prev (l_next s l) n s;
         s = set_next n (l_next s l) s;
         s = set_next l n s
     in set_prev n l s)"

definition rt_list_insert_before :: "'p \<Rightarrow> 'p \<Rightarrow> 'p links \<Rightarrow> 'p links" where
  "rt_list_insert_before l n s =
    (let s = set_next (l_prev s l) n s;
         s = set_prev n (l_prev s l) s;
         s = set_prev l n s
     in set_next n l s)"

definition rt_list_remove :: "'p \<Rightarrow> 'p links \<Rightarrow> 'p links" where
  "rt_list_remove n s =
    (let s = set_prev (l_next s n) (l_prev s n) s;
         s = set_next (l_prev s n) (l_next s n) s
     in set_next n n (set_prev n n s))"

definition rt_list_isempty :: "'p \<Rightarrow> 'p links \<Rightarrow> bool" where
  "rt_list_isempty l s \<longleftrightarrow> l_next s l = l"

partial_function (option) list_len_loop :: "'p \<Rightarrow> 'p \<Rightarrow> u32 \<Rightarrow> 'p links \<Rightarrow> u32 option" where
  "list_len_loop l p len s = (if l_next s p \<noteq> l then list_len_loop l (l_next s p) (len + 1) s else Some len)"

definition rt_list_len :: "'p \<Rightarrow> 'p links \<Rightarrow> u32 option" where
  "rt_list_len l s = list_len_loop l l 0 s"

lemma set_links_simps [simp]:
  "l_next (set_next x v s) = (l_next s)(x := v)" "l_prev (set_next x v s) = l_prev s"
  "l_prev (set_prev x v s) = (l_prev s)(x := v)" "l_next (set_prev x v s) = l_next s"
  by (simp_all add: set_next_def set_prev_def)

section \<open>The loops that keep a list sorted\<close>

text \<open>\<open>RT_IPC_FLAG_PRIO\<close> in \<open>rt_ipc_list_suspend\<close>: from the node \<open>n\<close> on, for the new node \<open>t\<close>.\<close>

partial_function (option) prio_loop ::
    "('n \<Rightarrow> 'a :: linorder) \<Rightarrow> 'h \<Rightarrow> 'n \<Rightarrow> ('h, 'n) node \<Rightarrow> ('h, 'n) node links \<Rightarrow> ('h, 'n) node links option" where
  "prio_loop prio h t n s =
    (case n of
       Head i \<Rightarrow> if i = h then Some (rt_list_insert_before (Head h) (Node t) s) else None
     | Node u \<Rightarrow> if prio t < prio u then Some (rt_list_insert_before n (Node t) s)
                 else prio_loop prio h t (l_next s n) s)"

text \<open>The loop of \<open>rt_timer_start\<close> from the node \<open>row\<close> on; the timer goes behind the node where it stops.\<close>

partial_function (option) row_loop ::
    "('n \<Rightarrow> u32) \<Rightarrow> 'h \<Rightarrow> 'n \<Rightarrow> ('h, 'n) node \<Rightarrow> ('h, 'n) node links \<Rightarrow> ('h, 'n) node links option" where
  "row_loop due h t row s =
    (if row \<noteq> l_prev s (Head h)
     then case l_next s row of
            Head _ \<Rightarrow> None
          | Node u \<Rightarrow> if due u - due t = 0 then row_loop due h t (l_next s row) s
                      else if due u - due t < RT_TICK_MAX div 2 then Some (rt_list_insert_after row (Node t) s)
                      else row_loop due h t (l_next s row) s
     else Some (rt_list_insert_after row (Node t) s))"

section \<open>What the links hold\<close>

definition ring_of :: "('h \<Rightarrow> 'n list) \<Rightarrow> 'h \<Rightarrow> ('h, 'n) node list" where
  "ring_of f h = Head h # map Node (f h)"

definition holds :: "('h, 'n) node links \<Rightarrow> ('h \<Rightarrow> 'n list) \<Rightarrow> bool" where
  "holds s f \<longleftrightarrow> (\<forall>h. dl_ring (l_next s) (l_prev s) (ring_of f h)) \<and>
     (\<forall>h h' t. t \<in> set (f h) \<longrightarrow> t \<in> set (f h') \<longrightarrow> h = h') \<and>
     (\<forall>t. (\<forall>h. t \<notin> set (f h)) \<longrightarrow> l_next s (Node t) = Node t \<and> l_prev s (Node t) = Node t)"

lemma set_ring_of: "x \<in> set (ring_of f h) \<longleftrightarrow> x = Head h \<or> (\<exists>t \<in> set (f h). x = Node t)"
  by (auto simp: ring_of_def)

lemma holds_distinct: "holds s f \<Longrightarrow> distinct (f h)"
  using dl_ring_distinct by (fastforce simp: holds_def ring_of_def distinct_map)

lemma holds_update:
  assumes "holds s f" "dl_ring (l_next s') (l_prev s') (ring_of (f(h := xs)) h)"
    "\<And>x. x \<notin> insert (Node t) (set (ring_of f h)) \<Longrightarrow> l_next s' x = l_next s x \<and> l_prev s' x = l_prev s x"
    "\<And>h'. h' \<noteq> h \<Longrightarrow> t \<notin> set (f h')" "set xs - {t} = set (f h) - {t}"
    "t \<notin> set xs \<Longrightarrow> l_next s' (Node t) = Node t \<and> l_prev s' (Node t) = Node t"
  shows "holds s' (f(h := xs))"
proof -
  have d: "u \<in> set (f h1) \<Longrightarrow> u \<in> set (f h2) \<Longrightarrow> h1 = h2" for u h1 h2 using assms(1) by (auto simp: holds_def)
  have sx: "u \<noteq> t \<Longrightarrow> u \<in> set xs \<longleftrightarrow> u \<in> set (f h)" for u using assms(5) by blast
  have "dl_ring (l_next s') (l_prev s') (ring_of (f(h := xs)) h')" for h'
  proof (cases "h' = h")
    case False
    have "dl_ring (l_next s') (l_prev s') (ring_of f h') = dl_ring (l_next s) (l_prev s) (ring_of f h')"
      by (rule dl_ring_cong, rule assms(3)) (use False assms(4) d in \<open>auto simp: ring_of_def\<close>)
    then show ?thesis using assms(1) False by (simp add: holds_def ring_of_def)
  qed (use assms(2) in simp)
  moreover have "h1 = h2" if "u \<in> set ((f(h := xs)) h1)" "u \<in> set ((f(h := xs)) h2)" for u h1 h2
  proof (cases "u = t")
    case True
    then have "h1 = h" "h2 = h" using that assms(4) [of h1] assms(4) [of h2] by (auto split: if_splits)
    then show ?thesis by simp
  next
    case False
    then have "u \<in> set (f h1)" "u \<in> set (f h2)" using that sx by (simp_all split: if_splits)
    then show ?thesis by (rule d)
  qed
  moreover have "l_next s' (Node u) = Node u \<and> l_prev s' (Node u) = Node u" if u: "\<forall>h'. u \<notin> set ((f(h := xs)) h')" for u
  proof (cases "u = t")
    case False
    have "u \<notin> set (f h')" for h' using u sx [OF False] by (auto split: if_splits)
    then show ?thesis using assms(1) assms(3) [of "Node u"] False by (auto simp: holds_def set_ring_of)
  qed (use assms(6) u in \<open>auto split: if_splits\<close>)
  ultimately show ?thesis unfolding holds_def by (intro conjI allI impI) (assumption | blast)+
qed

section \<open>The operations\<close>

lemma insert_after_ring:
  assumes "dl_ring (l_next s) (l_prev s) (p @ a # ys)" "n \<notin> set (p @ a # ys)"
  shows "dl_ring (l_next (rt_list_insert_after a n s)) (l_prev (rt_list_insert_after a n s)) (p @ a # n # ys)"
    "x \<notin> insert n (set (p @ a # ys)) \<Longrightarrow>
       l_next (rt_list_insert_after a n s) x = l_next s x \<and> l_prev (rt_list_insert_after a n s) x = l_prev s x"
proof -
  have b: "l_next s a \<in> set (p @ a # ys)" using dl_ring_closed [OF assms(1)] by simp
  then have ne: "l_next s a \<noteq> n" using assms(2) by metis
  have e: "l_next (rt_list_insert_after a n s) = (l_next s)(n := l_next s a, a := n)"
    "l_prev (rt_list_insert_after a n s) = (l_prev s)(n := a, l_next s a := n)"
    using ne by (simp_all add: rt_list_insert_after_def Let_def fun_upd_twist)
  show "dl_ring (l_next (rt_list_insert_after a n s)) (l_prev (rt_list_insert_after a n s)) (p @ a # n # ys)"
    unfolding e by (rule dl_ring_insert [OF assms]) simp
  show "l_next (rt_list_insert_after a n s) x = l_next s x \<and> l_prev (rt_list_insert_after a n s) x = l_prev s x"
    if "x \<notin> insert n (set (p @ a # ys))"
    using that b unfolding e by auto
qed

lemma insert_before_after:
  assumes "dl_ring (l_next s) (l_prev s) xs" "l \<in> set xs" "n \<notin> set xs"
  shows "rt_list_insert_before l n s = rt_list_insert_after (l_prev s l) n s"
proof -
  have i: "l_next s (l_prev s l) = l" by (rule dl_ring_inverse(2) [OF assms(1,2)])
  have "l_prev s l \<noteq> n" "l \<noteq> n" using dl_ring_closed(2) [OF assms(1,2)] assms(2,3) by auto
  then have "(l_next s)(l_prev s l := n, n := l) = (l_next s)(n := l, l_prev s l := n)"
    "(l_prev s)(n := l_prev s l, l := n) = (l_prev s)(l := n, n := l_prev s l)" by (simp_all add: fun_upd_twist)
  then show ?thesis using \<open>l \<noteq> n\<close> \<open>l_prev s l \<noteq> n\<close>
    by (simp add: rt_list_insert_before_def rt_list_insert_after_def Let_def i set_next_def set_prev_def fun_upd_twist)
qed

lemma remove_ring:
  assumes "dl_ring (l_next s) (l_prev s) (p @ a # n # ys)"
  shows "dl_ring (l_next (rt_list_remove n s)) (l_prev (rt_list_remove n s)) (p @ a # ys)"
    "x \<notin> set (p @ a # n # ys) \<Longrightarrow> l_next (rt_list_remove n s) x = l_next s x \<and> l_prev (rt_list_remove n s) x = l_prev s x"
    "l_next (rt_list_remove n s) n = n" "l_prev (rt_list_remove n s) n = n"
proof -
  have a: "l_prev s n = a" by (rule dl_ring_next(2) [OF assms])
  have d: "distinct (p @ a # n # ys)" by (rule dl_ring_distinct [OF assms])
  have b: "l_next s n \<in> set (p @ a # n # ys)" using dl_ring_closed(1) [OF assms] by simp
  have "l_prev s (l_next s n) = n" using dl_ring_inverse(1) [OF assms] by simp
  then have bn: "l_next s n \<noteq> n" using a d by auto
  have an: "a \<noteq> n" using d by auto
  have e: "l_next (rt_list_remove n s) = (l_next s)(a := l_next s n, n := n)"
    "l_prev (rt_list_remove n s) = (l_prev s)(l_next s n := a, n := n)"
    using a bn an by (simp_all add: rt_list_remove_def Let_def)
  have "n \<notin> set (p @ a # ys)" using d by auto
  then show "dl_ring (l_next (rt_list_remove n s)) (l_prev (rt_list_remove n s)) (p @ a # ys)"
    unfolding e using dl_ring_remove [OF assms refl] by simp
  show "x \<notin> set (p @ a # n # ys) \<Longrightarrow> l_next (rt_list_remove n s) x = l_next s x \<and> l_prev (rt_list_remove n s) x = l_prev s x"
    using b unfolding e by auto
  show "l_next (rt_list_remove n s) n = n" "l_prev (rt_list_remove n s) n = n" unfolding e by simp_all
qed

lemma holds_ring: "holds s f \<Longrightarrow> dl_ring (l_next s) (l_prev s) (ring_of f h)"
  by (simp add: holds_def)

lemma holds_insert_after:
  assumes "holds s f" "\<And>h'. t \<notin> set (f h')" "ring_of f h = p @ a # ys" "ring_of (f(h := xs)) h = p @ a # Node t # ys"
  shows "holds (rt_list_insert_after a (Node t) s) (f(h := xs))"
proof -
  have r: "dl_ring (l_next s) (l_prev s) (p @ a # ys)" using holds_ring [OF assms(1), of h] assms(3) by simp
  have n: "Node t \<notin> set (p @ a # ys)" using assms(2) [of h] by (simp flip: assms(3) add: set_ring_of)
  have "u \<in> set xs \<longleftrightarrow> u \<in> insert t (set (f h))" for u
  proof -
    have "u \<in> set xs \<longleftrightarrow> Node u \<in> set (ring_of (f(h := xs)) h)" by (simp add: set_ring_of)
    also have "\<dots> \<longleftrightarrow> u = t \<or> Node u \<in> set (ring_of f h)" unfolding assms(3,4) by auto
    finally show ?thesis by (simp add: set_ring_of)
  qed
  then have e: "set xs = insert t (set (f h))" by blast
  note ins = insert_after_ring [OF r n]
  show ?thesis
  proof (rule holds_update [OF assms(1)])
    show "dl_ring (l_next (rt_list_insert_after a (Node t) s)) (l_prev (rt_list_insert_after a (Node t) s)) (ring_of (f(h := xs)) h)"
      unfolding assms(4) by (rule ins(1))
    show "l_next (rt_list_insert_after a (Node t) s) x = l_next s x \<and> l_prev (rt_list_insert_after a (Node t) s) x = l_prev s x"
      if "x \<notin> insert (Node t) (set (ring_of f h))" for x using that unfolding assms(3) by (rule ins(2))
    show "t \<notin> set (f h')" for h' by (rule assms(2))
    show "set xs - {t} = set (f h) - {t}" "t \<notin> set xs \<Longrightarrow> l_next (rt_list_insert_after a (Node t) s) (Node t) = Node t \<and>
        l_prev (rt_list_insert_after a (Node t) s) (Node t) = Node t" using e by auto
  qed
qed

lemma cut_last: "xs \<noteq> [] \<Longrightarrow> butlast xs @ last xs # ys = xs @ ys"
  using append_butlast_last_id [of xs] by (metis append_Cons append_Nil append_assoc)

lemma holds_push_front:
  assumes "holds s f" "\<And>h'. t \<notin> set (f h')"
  shows "holds (rt_list_insert_after (Head h) (Node t) s) (f(h := t # f h))"
  by (rule holds_insert_after [OF assms, of _ "[]"]) (simp_all add: ring_of_def)

lemma holds_insert_behind:
  assumes "holds s f" "\<And>h'. t \<notin> set (f h')" "f h = us @ u # vs"
  shows "holds (rt_list_insert_after (Node u) (Node t) s) (f(h := us @ u # t # vs))"
  by (rule holds_insert_after [OF assms(1,2), of h "Head h # map Node us"]) (simp_all add: ring_of_def assms(3))

lemma holds_insert_before:
  assumes "holds s f" "\<And>h'. t \<notin> set (f h')" "l \<in> set (ring_of f h)" "ring_of f h = p @ l_prev s l # ys"
    "ring_of (f(h := xs)) h = p @ l_prev s l # Node t # ys"
  shows "holds (rt_list_insert_before l (Node t) s) (f(h := xs))"
proof -
  have n: "Node t \<notin> set (ring_of f h)" using assms(2) by (simp add: set_ring_of)
  show ?thesis unfolding insert_before_after [OF holds_ring [OF assms(1)] assms(3) n]
    by (rule holds_insert_after [OF assms(1,2,4,5)])
qed

lemma holds_push_back:
  assumes "holds s f" "\<And>h'. t \<notin> set (f h')"
  shows "holds (rt_list_insert_before (Head h) (Node t) s) (f(h := f h @ [t]))"
proof -
  have l: "l_prev s (Head h) = last (ring_of f h)" using dl_ring_last(2) holds_ring [OF assms(1), of h] by (fastforce simp: ring_of_def)
  have n: "ring_of f h \<noteq> []" by (simp add: ring_of_def)
  show ?thesis
  proof (rule holds_insert_before [OF assms])
    show "Head h \<in> set (ring_of f h)" by (simp add: ring_of_def)
    show "ring_of f h = butlast (ring_of f h) @ l_prev s (Head h) # []" unfolding l cut_last [OF n] by simp
    show "ring_of (f(h := f h @ [t])) h = butlast (ring_of f h) @ l_prev s (Head h) # Node t # []"
      unfolding l cut_last [OF n] by (simp add: ring_of_def)
  qed
qed

lemma holds_insert_ahead:
  assumes "holds s f" "\<And>h'. t \<notin> set (f h')" "f h = us @ u # vs"
  shows "holds (rt_list_insert_before (Node u) (Node t) s) (f(h := us @ t # u # vs))"
proof -
  let ?q = "Head h # map Node us"
  have r: "ring_of f h = butlast ?q @ last ?q # Node u # map Node vs" unfolding cut_last [OF list.distinct(2)] by (simp add: ring_of_def assms(3))
  have "l_prev s (Node u) = last ?q" using dl_ring_next(2) holds_ring [OF assms(1), of h] unfolding r by metis
  moreover have "ring_of (f(h := us @ t # u # vs)) h = butlast ?q @ last ?q # Node t # Node u # map Node vs"
    unfolding cut_last [OF list.distinct(2)] by (simp add: ring_of_def)
  ultimately show ?thesis using r by (intro holds_insert_before [OF assms(1,2)]) (simp_all add: set_ring_of assms(3))
qed

lemma holds_remove:
  assumes "holds s f"
  shows "holds (rt_list_remove (Node t) s) (\<lambda>h. removeAll t (f h))"
proof (cases "\<exists>h. t \<in> set (f h)")
  case False
  then have "l_next s (Node t) = Node t" "l_prev s (Node t) = Node t" using assms by (auto simp: holds_def)
  then have "rt_list_remove (Node t) s = s" by (simp add: rt_list_remove_def Let_def set_next_def set_prev_def fun_upd_idem)
  moreover have "(\<lambda>h. removeAll t (f h)) = f" using False by (simp add: fun_eq_iff)
  ultimately show ?thesis using assms by simp
next
  case True
  then obtain h us vs where f: "f h = us @ t # vs" by (auto simp: in_set_conv_decomp)
  have d: "distinct (f h)" by (rule holds_distinct [OF assms])
  have o: "h' \<noteq> h \<Longrightarrow> t \<notin> set (f h')" for h' using assms f unfolding holds_def by (metis in_set_conv_decomp)
  then have e: "(\<lambda>h. removeAll t (f h)) = f(h := us @ vs)" using d f by (auto simp: fun_eq_iff)
  let ?q = "Head h # map Node us"
  have q: "butlast ?q @ last ?q # xs = ?q @ xs" for xs by (rule cut_last) simp
  have r: "ring_of f h = butlast ?q @ last ?q # Node t # map Node vs" unfolding q by (simp add: ring_of_def f)
  note rem = remove_ring [OF holds_ring [OF assms, of h, unfolded r]]
  show ?thesis unfolding e
  proof (rule holds_update [OF assms])
    have "ring_of (f(h := us @ vs)) h = butlast ?q @ last ?q # map Node vs" unfolding q by (simp add: ring_of_def)
    then show "dl_ring (l_next (rt_list_remove (Node t) s)) (l_prev (rt_list_remove (Node t) s)) (ring_of (f(h := us @ vs)) h)"
      using rem(1) by simp
    show "l_next (rt_list_remove (Node t) s) x = l_next s x \<and> l_prev (rt_list_remove (Node t) s) x = l_prev s x"
      if "x \<notin> insert (Node t) (set (ring_of f h))" for x using that rem(2) unfolding r by blast
    show "t \<notin> set (f h')" if "h' \<noteq> h" for h' using that by (rule o)
    show "set (us @ vs) - {t} = set (f h) - {t}" using f by auto
    show "l_next (rt_list_remove (Node t) s) (Node t) = Node t \<and> l_prev (rt_list_remove (Node t) s) (Node t) = Node t"
      using rem(3,4) by simp
  qed
qed

lemma holds_empty:
  assumes "holds s f"
  shows "rt_list_isempty (Head h) s \<longleftrightarrow> f h = []"
proof (cases "f h")
  case Nil
  then show ?thesis using holds_ring [OF assms, of h] by (simp add: ring_of_def dl_ring_singleton rt_list_isempty_def)
next
  case (Cons t ts)
  then have "dl_ring (l_next s) (l_prev s) ([] @ Head h # Node t # map Node ts)" using holds_ring [OF assms, of h] by (simp add: ring_of_def)
  then show ?thesis using dl_ring_next(1) Cons by (fastforce simp: rt_list_isempty_def)
qed

section \<open>The interface\<close>

text \<open>
  What a list promises: a state \<open>s\<close> represents the sequences \<open>f\<close>, and every operation changes one sequence. The client
  needs no more: to queue a node again, wherever it was, is a removal and an insertion at the end.
\<close>

locale node_lists =
  fixes rep :: "'s \<Rightarrow> ('h \<Rightarrow> 'n list) \<Rightarrow> bool"
    and is_empty :: "'h \<Rightarrow> 's \<Rightarrow> bool"
    and push_front push_back :: "'h \<Rightarrow> 'n \<Rightarrow> 's \<Rightarrow> 's"
    and put_ahead put_behind :: "'n \<Rightarrow> 'n \<Rightarrow> 's \<Rightarrow> 's"
    and take_out :: "'n \<Rightarrow> 's \<Rightarrow> 's"
  assumes empty_law: "rep s f \<Longrightarrow> is_empty h s \<longleftrightarrow> f h = []"
    and front_law: "rep s f \<Longrightarrow> (\<And>h'. t \<notin> set (f h')) \<Longrightarrow> rep (push_front h t s) (f(h := t # f h))"
    and back_law: "rep s f \<Longrightarrow> (\<And>h'. t \<notin> set (f h')) \<Longrightarrow> rep (push_back h t s) (f(h := f h @ [t]))"
    and ahead_law: "rep s f \<Longrightarrow> (\<And>h'. t \<notin> set (f h')) \<Longrightarrow> f h = us @ u # vs \<Longrightarrow> rep (put_ahead u t s) (f(h := us @ t # u # vs))"
    and behind_law: "rep s f \<Longrightarrow> (\<And>h'. t \<notin> set (f h')) \<Longrightarrow> f h = us @ u # vs \<Longrightarrow> rep (put_behind u t s) (f(h := us @ u # t # vs))"
    and out_law: "rep s f \<Longrightarrow> rep (take_out t s) (\<lambda>h. removeAll t (f h))"
begin

lemma requeue_rep:
  assumes "rep s f"
  shows "rep (push_back h t (take_out t s)) ((\<lambda>h. removeAll t (f h))(h := removeAll t (f h) @ [t]))"
  using back_law [OF out_law [OF assms, of t], of t h] by simp

text \<open>An insertion before the first node that satisfies a condition, at the end if there is none.\<close>

lemma insert_where:
  assumes "rep s f" "\<And>h'. t \<notin> set (f h')"
  shows "rep (case dropWhile (\<lambda>u. \<not> P u) (f h) of [] \<Rightarrow> push_back h t s | u # _ \<Rightarrow> put_ahead u t s)
    (f(h := takeWhile (\<lambda>u. \<not> P u) (f h) @ t # dropWhile (\<lambda>u. \<not> P u) (f h)))"
proof (cases "dropWhile (\<lambda>u. \<not> P u) (f h)")
  case Nil
  then have tw: "takeWhile (\<lambda>u. \<not> P u) (f h) = f h" by (metis append_Nil2 takeWhile_dropWhile_id)
  show ?thesis using back_law [OF assms, of h] by (simp only: Nil tw list.case)
next
  case (Cons u us)
  then have "f h = takeWhile (\<lambda>u. \<not> P u) (f h) @ u # us" by (metis takeWhile_dropWhile_id)
  from ahead_law [OF assms this] show ?thesis using Cons by simp
qed

end

interpretation rt_lists: node_lists holds "\<lambda>h. rt_list_isempty (Head h)" "\<lambda>h t. rt_list_insert_after (Head h) (Node t)"
  "\<lambda>h t. rt_list_insert_before (Head h) (Node t)" "\<lambda>u t. rt_list_insert_before (Node u) (Node t)"
  "\<lambda>u t. rt_list_insert_after (Node u) (Node t)" "\<lambda>t. rt_list_remove (Node t)"
  by unfold_locales (rule holds_empty holds_push_front holds_push_back holds_insert_ahead holds_insert_behind holds_remove; assumption)+

section \<open>Walking a list\<close>

lemma holds_next:
  assumes "holds s f"
  shows "f h = us @ u # v # vs \<Longrightarrow> l_next s (Node u) = Node v" "f h = us @ [u] \<Longrightarrow> l_next s (Node u) = Head h"
    "f h = u # vs \<Longrightarrow> l_next s (Head h) = Node u" "f h = [] \<Longrightarrow> l_next s (Head h) = Head h"
    "l_prev s (Head h) = last (ring_of f h)"
proof -
  note r = holds_ring [OF assms, of h]
  show "l_next s (Node u) = Node v" if "f h = us @ u # v # vs"
    using r that dl_ring_next(1) [of "l_next s" "l_prev s" "Head h # map Node us"] by (simp add: ring_of_def)
  show "l_next s (Node u) = Head h" if "f h = us @ [u]"
    using r that dl_ring_last(1) [of "l_next s" "l_prev s" "Head h" "map Node us @ [Node u]"] by (simp add: ring_of_def)
  show "l_next s (Head h) = Node u" if "f h = u # vs"
    using r that dl_ring_next(1) [of "l_next s" "l_prev s" "[]"] by (simp add: ring_of_def)
  show "l_next s (Head h) = Head h" if "f h = []" using r that by (simp add: ring_of_def dl_ring_singleton)
  show "l_prev s (Head h) = last (ring_of f h)" using r dl_ring_last(2) by (fastforce simp: ring_of_def)
qed

lemma list_len_walk:
  assumes "holds s f" "f h = us @ u # vs"
  shows "list_len_loop (Head h) (Node u) n s = Some (n + of_nat (length vs))"
  using assms(2)
proof (induction vs arbitrary: us u n)
  case Nil
  then show ?case using holds_next(2) [OF assms(1), of h us u] by (subst list_len_loop.simps) simp
next
  case (Cons v vs)
  then have "list_len_loop (Head h) (Node v) (n + 1) s = Some (n + 1 + of_nat (length vs))" by (intro Cons.IH [of "us @ [u]"]) simp
  then show ?case using holds_next(1) [OF assms(1) Cons.prems] by (subst list_len_loop.simps) (simp add: add.assoc)
qed

lemma list_len_holds:
  assumes "holds s f"
  shows "rt_list_len (Head h) s = Some (of_nat (length (f h)))"
proof (cases "f h")
  case Nil
  then show ?thesis using holds_next(4) [OF assms] unfolding rt_list_len_def by (subst list_len_loop.simps) simp
next
  case (Cons u us)
  then show ?thesis using holds_next(3) [OF assms Cons] list_len_walk [OF assms, of h "[]" u us 1] unfolding rt_list_len_def
    by (subst list_len_loop.simps) simp
qed

text \<open>The loop over the priorities stops at the first waiting thread of lower urgency.\<close>

lemma prio_walk:
  assumes "holds s f" "f h = us @ vs"
  shows "prio_loop prio h t (case vs of [] \<Rightarrow> Head h | v # _ \<Rightarrow> Node v) s =
    Some (case dropWhile (\<lambda>u. \<not> prio t < prio u) vs of [] \<Rightarrow> rt_list_insert_before (Head h) (Node t) s
          | u # _ \<Rightarrow> rt_list_insert_before (Node u) (Node t) s)"
  using assms(2)
proof (induction vs arbitrary: us)
  case Nil
  then show ?case by (subst prio_loop.simps) simp
next
  case (Cons v vs)
  have "l_next s (Node v) = (case vs of [] \<Rightarrow> Head h | v # _ \<Rightarrow> Node v)"
    using holds_next(1,2) [OF assms(1)] Cons.prems by (cases vs) simp_all
  moreover have "prio_loop prio h t (case vs of [] \<Rightarrow> Head h | v # _ \<Rightarrow> Node v) s =
    Some (case dropWhile (\<lambda>u. \<not> prio t < prio u) vs of [] \<Rightarrow> rt_list_insert_before (Head h) (Node t) s
          | u # _ \<Rightarrow> rt_list_insert_before (Node u) (Node t) s)"
    using Cons.prems by (intro Cons.IH [of "us @ [v]"]) simp
  ultimately show ?case by (subst prio_loop.simps) simp
qed

lemma prio_loop_holds:
  assumes "holds s f" "\<And>h'. t \<notin> set (f h')"
  obtains s' where "prio_loop prio h t (l_next s (Head h)) s = Some s'"
    "holds s' (f(h := takeWhile (\<lambda>u. \<not> prio t < prio u) (f h) @ t # dropWhile (\<lambda>u. \<not> prio t < prio u) (f h)))"
proof -
  have n: "l_next s (Head h) = (case f h of [] \<Rightarrow> Head h | v # _ \<Rightarrow> Node v)"
    using holds_next(3,4) [OF assms(1)] by (cases "f h") simp_all
  show thesis
    using prio_walk [OF assms(1), of h "[]" "f h" prio t] rt_lists.insert_where [OF assms, where P = "\<lambda>u. prio t < prio u" and h = h]
    by (intro that) (simp_all add: n)
qed

text \<open>The loop over the timers stops behind the last one that is not due later.\<close>

lemma row_walk:
  fixes due :: "'n \<Rightarrow> u32" and t :: 'n and f :: "'h \<Rightarrow> 'n list"
  assumes "holds s f" "ring_of f h = rs @ r # map Node vs"
  defines "P \<equiv> \<lambda>u. due u - due t = 0 \<or> \<not> due u - due t < RT_TICK_MAX div 2"
  shows "row_loop due h t r s = Some (rt_list_insert_after (last (r # map Node (takeWhile P vs))) (Node t) s)"
  using assms(2)
proof (induction vs arbitrary: rs r)
  case Nil
  then have "r = l_prev s (Head h)" using holds_next(5) [OF assms(1), of h] by simp
  then show ?case by (subst row_loop.simps) simp
next
  case (Cons v vs)
  have "dl_ring (l_next s) (l_prev s) (rs @ r # Node v # map Node vs)" using holds_ring [OF assms(1), of h] Cons.prems by simp
  note d = dl_ring_next(1) [OF this] dl_ring_distinct [OF this]
  have "last (ring_of f h) = last (Node v # map Node vs)" using Cons.prems by simp
  then have "r \<noteq> l_prev s (Head h)" using holds_next(5) [OF assms(1), of h] d(2) last_in_set [of "Node v # map Node vs"]
    by (auto simp del: last.simps)
  moreover have "row_loop due h t (Node v) s = Some (rt_list_insert_after (last (Node v # map Node (takeWhile P vs))) (Node t) s)"
    using Cons.prems by (intro Cons.IH [of "rs @ [r]"]) simp
  ultimately show ?case using d(1) by (subst row_loop.simps) (simp add: P_def)
qed

lemma row_loop_holds:
  fixes due :: "'n \<Rightarrow> u32" and t :: 'n and f :: "'h \<Rightarrow> 'n list"
  assumes "holds s f" "\<And>h'. t \<notin> set (f h')"
  defines "P \<equiv> \<lambda>u. due u - due t = 0 \<or> \<not> due u - due t < RT_TICK_MAX div 2"
  obtains s' where "row_loop due h t (Head h) s = Some s'" "holds s' (f(h := takeWhile P (f h) @ t # dropWhile P (f h)))"
proof -
  let ?q = "Head h # map Node (takeWhile P (f h))"
  have w: "row_loop due h t (Head h) s = Some (rt_list_insert_after (last ?q) (Node t) s)"
    unfolding P_def by (rule row_walk [OF assms(1), of h "[]"]) (simp add: ring_of_def)
  have "holds (rt_list_insert_after (last ?q) (Node t) s) (f(h := takeWhile P (f h) @ t # dropWhile P (f h)))"
  proof (rule holds_insert_after [OF assms(1,2)])
    have "map Node (takeWhile P (f h)) @ map Node (dropWhile P (f h)) = (map Node (f h) :: ('h, 'n) node list)"
      by (simp flip: map_append)
    then show "ring_of f h = butlast ?q @ last ?q # map Node (dropWhile P (f h))"
      unfolding cut_last [OF list.distinct(2)] by (simp add: ring_of_def)
    show "ring_of (f(h := takeWhile P (f h) @ t # dropWhile P (f h))) h =
        butlast ?q @ last ?q # Node t # map Node (dropWhile P (f h))"
      unfolding cut_last [OF list.distinct(2)] by (simp add: ring_of_def)
  qed
  with w show thesis by (rule that)
qed

end
