(* ===== verification/Ffs_Table.thy ===== *)
theory Ffs_Table
  imports Sched_Inv
begin

text \<open>
  \<open>__rt_ffs\<close> of \<open>kservice.c\<close>, which looks the bytes of its argument up in a table. The configuration compiles the
  processor's instruction instead (\<open>rt_ffs\<close>); both find the same bit.
\<close>

definition lowest_bit_bitmap :: "nat list" where
  "lowest_bit_bitmap =
   [0, 0, 1, 0, 2, 0, 1, 0, 3, 0, 1, 0, 2, 0, 1, 0,
    4, 0, 1, 0, 2, 0, 1, 0, 3, 0, 1, 0, 2, 0, 1, 0,
    5, 0, 1, 0, 2, 0, 1, 0, 3, 0, 1, 0, 2, 0, 1, 0,
    4, 0, 1, 0, 2, 0, 1, 0, 3, 0, 1, 0, 2, 0, 1, 0,
    6, 0, 1, 0, 2, 0, 1, 0, 3, 0, 1, 0, 2, 0, 1, 0,
    4, 0, 1, 0, 2, 0, 1, 0, 3, 0, 1, 0, 2, 0, 1, 0,
    5, 0, 1, 0, 2, 0, 1, 0, 3, 0, 1, 0, 2, 0, 1, 0,
    4, 0, 1, 0, 2, 0, 1, 0, 3, 0, 1, 0, 2, 0, 1, 0,
    7, 0, 1, 0, 2, 0, 1, 0, 3, 0, 1, 0, 2, 0, 1, 0,
    4, 0, 1, 0, 2, 0, 1, 0, 3, 0, 1, 0, 2, 0, 1, 0,
    5, 0, 1, 0, 2, 0, 1, 0, 3, 0, 1, 0, 2, 0, 1, 0,
    4, 0, 1, 0, 2, 0, 1, 0, 3, 0, 1, 0, 2, 0, 1, 0,
    6, 0, 1, 0, 2, 0, 1, 0, 3, 0, 1, 0, 2, 0, 1, 0,
    4, 0, 1, 0, 2, 0, 1, 0, 3, 0, 1, 0, 2, 0, 1, 0,
    5, 0, 1, 0, 2, 0, 1, 0, 3, 0, 1, 0, 2, 0, 1, 0,
    4, 0, 1, 0, 2, 0, 1, 0, 3, 0, 1, 0, 2, 0, 1, 0]"

definition rt_ffs_table :: "u32 \<Rightarrow> nat" where
  "rt_ffs_table value =
    (if value = 0 then 0
     else if value AND 0xff \<noteq> 0 then lowest_bit_bitmap ! unat (value AND 0xff) + 1
     else if value AND 0xff00 \<noteq> 0 then lowest_bit_bitmap ! unat (drop_bit 8 (value AND 0xff00)) + 9
     else if value AND 0xff0000 \<noteq> 0 then lowest_bit_bitmap ! unat (drop_bit 16 (value AND 0xff0000)) + 17
     else lowest_bit_bitmap ! unat (drop_bit 24 (value AND 0xff000000)) + 25)"

lemma ffs_eqI:
  assumes "i < 32" "bit v i" "\<And>j. j < i \<Longrightarrow> \<not> bit v j"
  shows "rt_ffs v = i + 1"
proof -
  have v: "v \<noteq> 0" using assms(2) by auto
  have "\<not> i < rt_ffs v - 1" using rt_ffs_least(3) [OF v] assms(2) by blast
  moreover have "\<not> rt_ffs v - 1 < i" using rt_ffs_least(1) [OF v] assms(3) by blast
  ultimately show ?thesis using rt_ffs_0 [of v] v by simp
qed

lemma table_all: "list_all (\<lambda>b. let i = lowest_bit_bitmap ! b in i < 8 \<and> odd (b div 2 ^ i) \<and> b mod 2 ^ i = 0) [1..<256]"
  by code_simp

lemma table_byte:
  assumes "0 < b" "b < 256"
  shows "lowest_bit_bitmap ! b < 8" "bit b (lowest_bit_bitmap ! b)" "j < lowest_bit_bitmap ! b \<Longrightarrow> \<not> bit b j"
proof -
  let ?i = "lowest_bit_bitmap ! b"
  have t: "?i < 8" "odd (b div 2 ^ ?i)" "b mod 2 ^ ?i = 0" using table_all assms by (auto simp: list_all_iff Let_def)
  then show "?i < 8" "bit b ?i" by (simp_all add: bit_iff_odd)
  have "take_bit ?i b = 0" using t(3) by (simp add: take_bit_eq_mod)
  then show "j < ?i \<Longrightarrow> \<not> bit b j" by (metis bit_0_eq bit_take_bit_iff bot_apply bot_bool_def)
qed

lemma bit_ff: "bit (0xff :: int) j \<longleftrightarrow> j < 8"
proof -
  have "bit (mask 8 :: int) j \<longleftrightarrow> j < 8" by (simp add: bit_mask_iff)
  then show ?thesis by (simp add: mask_eq_exp_minus_1)
qed

text \<open>The byte at position \<open>k\<close>, when the bits below it are clear.\<close>

lemma table_at:
  assumes "k \<le> 24" "v AND mask k = 0" "v AND push_bit k 0xff \<noteq> 0"
  shows "rt_ffs v = lowest_bit_bitmap ! unat (drop_bit k (v AND push_bit k 0xff)) + k + 1"
proof -
  define w where "w = drop_bit k (v AND push_bit k 0xff)"
  let ?b = "unat w"
  have bw: "bit w j \<longleftrightarrow> j < 8 \<and> bit v (k + j)" for j using assms(1) by (auto simp: w_def bit_simps bit_ff)
  have low: "\<not> bit v j" if "j < k" for j
  proof
    assume "bit v j"
    then have "bit (v AND mask k) j" using that assms(1) by (simp add: bit_simps)
    then show False using assms(2) by simp
  qed
  have bb: "bit ?b j \<longleftrightarrow> bit w j" for j by (simp add: bit_simps)
  have "w \<noteq> 0"
  proof
    assume "w = 0"
    then have n: "\<not> (j < 8 \<and> bit v (k + j))" for j using bw [of j] by simp
    have "v AND push_bit k 0xff = 0"
    proof (rule bit_word_eqI)
      fix j
      show "bit (v AND push_bit k 0xff) j = bit (0 :: u32) j" using n [of "j - k"] by (auto simp: bit_simps bit_ff)
    qed
    then show False using assms(3) by simp
  qed
  then have pos: "0 < ?b" by (simp add: unat_gt_0)
  have w8: "take_bit 8 w = w" by (rule bit_word_eqI) (auto simp: bit_take_bit_iff bw)
  have "?b < 256" using take_bit_nat_less_exp [of 8 ?b] arg_cong [OF w8, of unat] by (simp add: unsigned_take_bit_eq)
  note t = table_byte [OF pos this]
  let ?i = "lowest_bit_bitmap ! ?b"
  have "rt_ffs v = (k + ?i) + 1"
  proof (rule ffs_eqI)
    show "k + ?i < 32" using t(1) assms(1) by simp
    show "bit v (k + ?i)" using t(2) bb bw by simp
    show "\<not> bit v j" if "j < k + ?i" for j
    proof (cases "j < k")
      case False
      then have "\<not> bit ?b (j - k)" using that by (intro t(3)) simp
      then show ?thesis using bb bw [of "j - k"] that t(1) False by simp
    qed (rule low)
  qed
  then show ?thesis by (simp add: w_def)
qed

lemma table_step:
  assumes "v AND mask k = 0" "v AND push_bit k 0xff = 0" "k \<le> 24"
  shows "v AND mask (k + 8) = (0 :: u32)"
proof (rule bit_word_eqI)
  fix j
  assume j: "j < LENGTH(32)"
  show "bit (v AND mask (k + 8)) j \<longleftrightarrow> bit (0 :: u32) j"
  proof (cases "j < k")
    case True
    then have "bit (v AND mask k) j = bit (v AND mask (k + 8)) j" using j by (simp add: bit_simps)
    then show ?thesis using assms(1) by simp
  next
    case False
    then have "bit (v AND push_bit k 0xff) j = bit (v AND mask (k + 8)) j" using j by (auto simp: bit_simps bit_ff)
    then show ?thesis using assms(2) by simp
  qed
qed

lemma ffs_table_equiv: "rt_ffs_table v = rt_ffs v"
proof -
  consider (zero) "v = 0" | (b0) "v \<noteq> 0" "v AND 0xff \<noteq> 0" | (b8) "v AND 0xff = 0" "v AND 0xff00 \<noteq> 0"
    | (b16) "v AND 0xff = 0" "v AND 0xff00 = 0" "v AND 0xff0000 \<noteq> 0"
    | (b24) "v \<noteq> 0" "v AND 0xff = 0" "v AND 0xff00 = 0" "v AND 0xff0000 = 0" by auto
  then show ?thesis
  proof cases
    case zero
    then show ?thesis by (simp add: rt_ffs_table_def rt_ffs_0)
  next
    case b0
    then show ?thesis using table_at [of 0 v] by (simp add: rt_ffs_table_def)
  next
    case b8
    then have "v \<noteq> 0" by auto
    moreover have "v AND mask 8 = 0" using b8(1) by (simp add: mask_eq_exp_minus_1)
    ultimately show ?thesis using b8 table_at [of 8 v] by (simp add: rt_ffs_table_def push_bit_eq_mult)
  next
    case b16
    then have "v \<noteq> 0" by auto
    moreover have "v AND mask 16 = 0" using table_step [of v 8] b16(1,2) by (simp add: mask_eq_exp_minus_1 push_bit_eq_mult)
    ultimately show ?thesis using b16 table_at [of 16 v] by (simp add: rt_ffs_table_def push_bit_eq_mult)
  next
    case b24
    have "v AND mask 16 = 0" using table_step [of v 8] b24(2,3) by (simp add: mask_eq_exp_minus_1 push_bit_eq_mult)
    then have m: "v AND mask 24 = 0" using table_step [of v 16] b24(4) by (simp add: mask_eq_exp_minus_1 push_bit_eq_mult)
    have "v AND mask (24 + 8) = v" by (rule bit_word_eqI) (auto simp: bit_simps)
    then have "v AND push_bit 24 0xff \<noteq> 0" using table_step [OF m] b24(1) by auto
    then show ?thesis using b24 m table_at [of 24 v] by (simp add: rt_ffs_table_def push_bit_eq_mult)
  qed
qed

end
