(* ===== verification/Kernel_Ipc_Props.thy ===== *)
theory Kernel_Ipc_Props
  imports Kernel_Example Rt_List Ffs_Table
begin

text \<open>
  Properties of semaphores, mutexes and lists.
\<close>

section \<open>Semaphores\<close>







text \<open>The count is a 16-bit number: at 65535 a release makes the semaphore empty.\<close>

lemma semaphore_count_wraps:
  "sem_value (sems k s) = 0xffff \<Longrightarrow> tlist k (Suspend (Sem s)) = [] \<Longrightarrow>
   rt_sem_release s k = Some (RT_EOK, upd_sem s (\<lambda>sm. sm\<lparr>sem_value := 0\<rparr>) k)"
proof -
  have z: "(65536 :: u16) = 0" by simp
  show "sem_value (sems k s) = 0xffff \<Longrightarrow> tlist k (Suspend (Sem s)) = [] \<Longrightarrow>
      rt_sem_release s k = Some (RT_EOK, upd_sem s (\<lambda>sm. sm\<lparr>sem_value := 0\<rparr>) k)"
    by (simp add: rt_sem_release_def upd_sem_def z)
qed

section \<open>Mutexes\<close>




lemma mutex_release_result:
  assumes "rt_current_thread k = Some t" "rt_mutex_release m k = Some (e, k')"
  shows "owner (mutexes k m) \<noteq> Some t \<Longrightarrow> mutexes k' = mutexes k"
    "owner (mutexes k m) = Some t \<Longrightarrow> hold (mutexes k m) \<noteq> 1 \<Longrightarrow> hold (mutexes k' m) = hold (mutexes k m) - 1"
  using assms by (auto simp: rt_mutex_release_def Let_def)

text \<open>
  C10. Only the owner can release a mutex; a call of another thread fails and leaves all mutexes as they are. The last release gives
  the owner the priority back that it had when it took the mutex and hands the mutex to the first waiting thread, which becomes
  runnable; without one the mutex is free. An earlier release only counts down.
\<close>

theorem mutex_release_hands_over:
  assumes "kernel_inv k" "rt_current_thread k = Some t"
  shows "\<exists>e k'. rt_mutex_release m k = Some (e, k') \<and> kernel_inv k' \<and> (e = RT_EOK \<longleftrightarrow> owner (mutexes k m) = Some t) \<and>
    (owner (mutexes k m) \<noteq> Some t \<longrightarrow> mutexes k' = mutexes k) \<and>
    (owner (mutexes k m) = Some t \<and> hold (mutexes k m) = 1 \<longrightarrow>
      current_priority (threads k' t) = original_priority (mutexes k m) \<and>
      owner (mutexes k' m) = (case tlist k (Suspend (Mutex m)) of [] \<Rightarrow> None | w # _ \<Rightarrow> Some w) \<and>
      (\<forall>w ws. tlist k (Suspend (Mutex m)) = w # ws \<longrightarrow> runnable k' w \<and> tlist k' (Suspend (Mutex m)) = ws)) \<and>
    (owner (mutexes k m) = Some t \<and> hold (mutexes k m) \<noteq> 1 \<longrightarrow>
      owner (mutexes k' m) = Some t \<and> hold (mutexes k' m) = hold (mutexes k m) - 1)"
proof -
  obtain e k' where k': "rt_mutex_release m k = Some (e, k')" "kernel_inv k'" "rt_current_thread k' \<noteq> None"
    "\<forall>d u. asleep d u k \<longrightarrow> asleep d u k'"
    "e = RT_EOK \<longleftrightarrow> owner (mutexes k m) = Some t"
    "owner (mutexes k m) = Some t \<and> hold (mutexes k m) = 1 \<longrightarrow>
       current_priority (threads k' t) = original_priority (mutexes k m) \<and>
       owner (mutexes k' m) = (case tlist k (Suspend (Mutex m)) of [] \<Rightarrow> None | w # _ \<Rightarrow> Some w) \<and>
       (\<forall>w ws. tlist k (Suspend (Mutex m)) = w # ws \<longrightarrow> runnable k' w \<and> tlist k' (Suspend (Mutex m)) = ws \<and>
          (rt_scheduler_lock_nest k = 0 \<longrightarrow> highest_runs k'))"
    "owner (mutexes k m) = Some t \<and> hold (mutexes k m) \<noteq> 1 \<longrightarrow> owner (mutexes k' m) = Some t"
    by (rule mutex_release_ok [OF assms])
  then show ?thesis
    using mutex_release_result [OF assms(2) k'(1)] by (intro exI [of _ e] exI [of _ k']) simp
qed

theorem mutex_release_hands_over_witness:
  "\<exists>k'. rt_mutex_release 1 demo = Some (RT_EOK, k') \<and> owner (mutexes k' 1) = None \<and> current_priority (threads k' 1) = 10"
  using mutex_release_hands_over [OF demo_inv, of 1 1] by (auto simp: demo_lists simp del: One_nat_def)

text \<open>
  The nesting count of a mutex has 8 bits and is not checked: an owner that has taken it 255 times and
  takes it twice more loses it with a single release, while 256 takes are still open.
\<close>

theorem mutex_hold_wraps:
  assumes "rt_current_thread k = Some t" "owner (mutexes k m) = Some t" "hold (mutexes k m) = 255"
    "original_priority (mutexes k m) = current_priority (threads k t)" "tlist k (Suspend (Mutex m)) = []"
  shows "\<exists>k'. do { (_, k) \<leftarrow> rt_mutex_take m time k; (_, k) \<leftarrow> rt_mutex_take m time k; rt_mutex_release m k } = Some (RT_EOK, k') \<and>
    owner (mutexes k' m) = None"
  using assms by (simp add: rt_mutex_take_def rt_mutex_release_def mutex_handover_def Let_def)

theorem mutex_hold_wraps_witness:
  "\<exists>k'. do { (_, k) \<leftarrow> rt_mutex_take 1 0 (upd_mutex 1 (\<lambda>mx. mx\<lparr>hold := 255\<rparr>) demo); (_, k) \<leftarrow> rt_mutex_take 1 0 k; rt_mutex_release 1 k } =
    Some (RT_EOK, k') \<and> owner (mutexes k' 1) = None"
  by (rule mutex_hold_wraps [where t = 1]) (simp_all add: demo_lists demo_priority)

section \<open>Lists\<close>

text \<open>
  C40. The list links of \<open>rtservice.h\<close> implement the sequences of the kernel model. Where the links hold the lists of
  threads, the pointer operations give links that hold the lists after the model's step: \<open>rt_list_remove\<close> for leaving
  every list, insertion before the head for joining the end of a ready list or of a queue, insertion after it for the list
  of closed threads, and the loop over the priorities of \<open>rt_ipc_list_suspend\<close> for a queue sorted by priority; the
  loop of \<open>rt_timer_start\<close> implements \<open>timer_insert\<close> in the same way.
\<close>

theorem list_links_refine:
  assumes "holds s (tlist k)" "\<And>h. t \<notin> set (tlist k h)" "holds s' (\<lambda>_ :: unit. rt_timer_list k)" "tm \<notin> set (rt_timer_list k)"
  shows "holds (rt_list_remove (Node u) s) (tlist (tlist_remove u k)) \<and>
    holds (rt_list_insert_before (Head h) (Node t) s) ((tlist k)(h := tlist k h @ [t])) \<and>
    holds (rt_list_insert_after (Head Defunct) (Node t) s) ((tlist k)(Defunct := t # tlist k Defunct)) \<and>
    (\<exists>s''. prio_loop (\<lambda>u. current_priority (threads k u)) h t (l_next s (Head h)) s = Some s'' \<and>
       holds s'' ((tlist k)(h := prio_insert (threads k) t (tlist k h)))) \<and>
    (\<exists>s''. row_loop (\<lambda>u. timeout_tick (timers k u)) () tm (Head ()) s' = Some s'' \<and>
       holds s'' (\<lambda>_. timer_insert (timers k) (timeout_tick (timers k tm)) tm (rt_timer_list k)))"
proof (intro conjI)
  have "tlist (tlist_remove u k) = (\<lambda>h. removeAll u (tlist k h))" by (simp add: fun_eq_iff)
  then show "holds (rt_list_remove (Node u) s) (tlist (tlist_remove u k))" using rt_lists.out_law [OF assms(1), of u] by simp
  show "holds (rt_list_insert_before (Head h) (Node t) s) ((tlist k)(h := tlist k h @ [t]))" by (rule rt_lists.back_law [OF assms(1,2)])
  show "holds (rt_list_insert_after (Head Defunct) (Node t) s) ((tlist k)(Defunct := t # tlist k Defunct))"
    by (rule rt_lists.front_law [OF assms(1,2)])
  let ?p = "\<lambda>u. current_priority (threads k u)"
  obtain s1 where "prio_loop ?p h t (l_next s (Head h)) s = Some s1"
    "holds s1 ((tlist k)(h := takeWhile (\<lambda>u. \<not> ?p t < ?p u) (tlist k h) @ t # dropWhile (\<lambda>u. \<not> ?p t < ?p u) (tlist k h)))"
    by (rule prio_loop_holds [OF assms(1,2)])
  then show "\<exists>s''. prio_loop ?p h t (l_next s (Head h)) s = Some s'' \<and>
      holds s'' ((tlist k)(h := prio_insert (threads k) t (tlist k h)))"
    unfolding prio_insert_split by (auto simp: not_less)
  let ?P = "\<lambda>u. timeout_tick (timers k u) - timeout_tick (timers k tm) = 0 \<or>
    \<not> timeout_tick (timers k u) - timeout_tick (timers k tm) < RT_TICK_MAX div 2"
  obtain s2 where "row_loop (\<lambda>u. timeout_tick (timers k u)) () tm (Head ()) s' = Some s2"
    "holds s2 ((\<lambda>_. rt_timer_list k)(() := takeWhile ?P (rt_timer_list k) @ tm # dropWhile ?P (rt_timer_list k)))"
    by (rule row_loop_holds [OF assms(3,4)])
  moreover have "timer_insert (timers k) (timeout_tick (timers k tm)) tm (rt_timer_list k) =
      takeWhile ?P (rt_timer_list k) @ tm # dropWhile ?P (rt_timer_list k)"
    by (rule timer_insert_split) (simp only: half)
  moreover have "(\<lambda>_. rt_timer_list k)(() := xs) = (\<lambda>_. xs)" for xs by (simp add: fun_eq_iff)
  ultimately show "\<exists>s''. row_loop (\<lambda>u. timeout_tick (timers k u)) () tm (Head ()) s' = Some s'' \<and>
      holds s'' (\<lambda>_. timer_insert (timers k) (timeout_tick (timers k tm)) tm (rt_timer_list k))" by simp
qed

text \<open>Links that hold the lists of the example: each head points to its first node, each node to the head.\<close>

definition demo_links :: "(list_head, tid) node links" where
  "demo_links = (let f = (\<lambda>x. if x = Head (Ready 31) then Node 0 else if x = Node 0 then Head (Ready 31)
      else if x = Head (Ready 10) then Node 2 else if x = Node 2 then Head (Ready 10)
      else if x = Head (Suspend (Sem 1)) then Node 3 else if x = Node 3 then Head (Suspend (Sem 1)) else x)
    in \<lparr>l_next = f, l_prev = f\<rparr>)"

definition demo_rows :: "(unit, timer_ref) node links" where
  "demo_rows = (let f = (\<lambda>x. if x = Head () then Node (Thread_timer 4) else if x = Node (Thread_timer 4) then Head () else x)
    in \<lparr>l_next = f, l_prev = f\<rparr>)"

lemma two_node_ring: "a \<noteq> b \<Longrightarrow> dl_ring nx pv [a, b] \<longleftrightarrow> nx a = b \<and> nx b = a \<and> pv a = b \<and> pv b = a"
  by (auto simp: dl_ring_def)

lemma demo_links_hold: "holds demo_links (tlist demo)"
proof -
  have "dl_ring (l_next demo_links) (l_prev demo_links) (ring_of (tlist demo) h)" for h
    by (simp add: ring_of_def demo_lists two_node_ring dl_ring_singleton demo_links_def Let_def)
  moreover have "h = h'" if "t \<in> set (tlist demo h)" "t \<in> set (tlist demo h')" for h h' t
    using that by (simp add: demo_lists split: if_splits)
  moreover have "l_next demo_links (Node t) = Node t \<and> l_prev demo_links (Node t) = Node t" if n: "\<forall>h. t \<notin> set (tlist demo h)" for t
  proof -
    have "t \<noteq> 0" using spec [OF n, of "Ready 31"] by (simp add: demo_lists)
    moreover have "t \<noteq> 2" using spec [OF n, of "Ready 10"] by (simp add: demo_lists)
    moreover have "t \<noteq> 3" using spec [OF n, of "Suspend (Sem 1)"] by (simp add: demo_lists)
    ultimately show ?thesis by (simp add: demo_links_def Let_def)
  qed
  ultimately show ?thesis unfolding holds_def by blast
qed

lemma demo_rows_hold: "holds demo_rows (\<lambda>_. rt_timer_list demo)"
  by (auto simp: holds_def demo_lists ring_of_def two_node_ring demo_rows_def Let_def)

theorem list_links_refine_witness:
  "holds (rt_list_insert_before (Head (Ready 10)) (Node 7) demo_links) ((tlist demo)(Ready 10 := [2, 7])) \<and>
   (\<exists>s. prio_loop (\<lambda>u. current_priority (threads demo u)) (Ready 10) 7 (Node 2) demo_links = Some s \<and>
      holds s ((tlist demo)(Ready 10 := [2, 7])))"
proof -
  have n: "7 \<notin> set (tlist demo h)" for h by (simp add: demo_lists)
  have t: "Timer 1 \<notin> set (rt_timer_list demo)" by (simp add: demo_lists)
  have x: "l_next demo_links (Head (Ready 10)) = Node 2" by (simp add: demo_links_def Let_def)
  have p: "prio_insert (threads demo) 7 (tlist demo (Ready 10)) = [2, 7]" "tlist demo (Ready 10) @ [7] = [2, 7]"
    by (simp_all add: demo_priority demo_lists)
  show ?thesis using list_links_refine [OF demo_links_hold n demo_rows_hold t, of _ "Ready 10", unfolded x p] by blast
qed

end
