(* ===== verification/Spec2Isabelle.thy ===== *)
theory Spec2Isabelle
  imports Hal_Qspi_Props Hal_Qspi_IT_Props W25qxx_Props Boot Flash_Chip Flash_Prg_Props Ringbuffer_Heap
    Kernel_Props Kernel_Ipc_Props
begin

text \<open>
  A verification library for the STM32H750 bootloader and its flash-programming algorithm.

  \<^bold>\<open>The program.\<close> The internal flash of the STM32H750 is small, so the application
  lives in an external W25Q64 flash on the QUADSPI controller. Two programs share that flash. The
  bootloader (\<open>src/Bootloader/bootloader_for_weact\<close>) initialises the controller and the
  flash, switches the controller to memory-mapped mode and jumps into the application at 0x90000000. The flash
  algorithm (\<open>src/FlashAlgorithm/flm_h750\<close>) is loaded by a debugger and erases, programs
  and verifies the flash. Both are built on the vendor's HAL drivers, of which each has its own
  copy; the bootloader runs on RT-Thread, the flash algorithm on the bare chip with interrupts
  and the time base off.

  \<^bold>\<open>The model.\<close> Memory-mapped hardware is a parameter, a record \<open>'h mmio\<close> of
  functions for reading and writing registers, the data register, the mapped flash and the time base;
  every theorem holds for all hardware unless it names a condition. A driver call
  maps a world (\<open>qworld\<close>: the handle \<open>hq\<close>, byte-addressed memory \<open>mem\<close>, the hardware
  \<open>hw\<close>) to a status and a world. Integers have the width the C code gives them. A
  call that can wait for the hardware has an option as its result, \<open>None\<close> for a call that
  never returns; no fuel is used. The recording hardware \<open>log_io\<close> adds a log of the
  register traffic to any hardware, so that theorems can say what was written and in which order.

  \<^bold>\<open>The theories.\<close>
  \<^item> \<open>Prelude\<close>: integer types, memory as a function on addresses, lemmas on words and partial results.
  \<^item> \<open>Qspi_Regs\<close>, \<open>Hal_Qspi_Defs\<close>: registers, bit fields and register access macros; the blocking
    interface of \<open>stm32h7xx_hal_qspi.c\<close>, function by function.
  \<^item> \<open>Hal_Qspi\<close>, \<open>Hal_Qspi_Ops\<close>, \<open>Hal_Qspi_State\<close>, \<open>Hal_Qspi_Machine\<close>: the relation \<open>bus\<close> between hardware
    states and the traffic that joins them; the outcome of each operation; the locale
    \<open>guarded\<close> (an operation is refused without effect on a handle that is not ready, and
    releases the lock), interpreted for every operation; the locale \<open>board_hook\<close> for the
    hooks of the board; the wait loop; reachable states of the handle.
  \<^item> \<open>Hal_Qspi_Props\<close>: register traffic of commands, transmissions and receptions, time-outs,
    termination of the wait loop, the invariant of call sequences, abort and initialisation.
  \<^item> \<open>Hal_Qspi_IT\<close>, \<open>Hal_Qspi_IT_Props\<close>: the interrupt-driven interface and the interrupt handler. Interrupts
    come after arbitrary evolutions of the hardware: transfers stay inside their buffer and in order,
    completion is reported once, an abort stops the transfer.
  \<^item> \<open>Hal_Gpio\<close>: the GPIO driver (\<open>stm32h7xx_hal_gpio.c\<close>) and the pin configuration it produces.
  \<^item> \<open>W25qxx_Defs\<close>, \<open>W25qxx\<close>, \<open>W25qxx_Traffic\<close>, \<open>W25qxx_Pages\<close>, \<open>W25qxx_Props\<close>: the flash driver of
    the bootloader (\<open>applications/w25qxx.c\<close>). The command traffic of each operation; a write is cut
    into page programs none of which crosses a page; failures are reported and the flash is left alone
    when the controller is not ready.
  \<^item> \<open>Flash_Chip\<close>: the flash chip as an abstract store that interprets the traffic (erase to FF, program by clearing bits,
    wrap-around inside a page); the locale \<open>flash_store\<close> says what a driver promises of it,
    and the drivers of both programs interpret it.
  \<^item> \<open>Boot\<close>: \<open>applications/main.c\<close> up to the jump, and the time functions of \<open>drivers/drv_common.c\<close>.
  \<^item> \<open>Flm_Hal\<close>, \<open>Flm_W25q\<close>, \<open>Flm_Equiv\<close>: the driver copies of the flash algorithm, in which the time-outs are
    commented out, and their agreement with the bootloader's drivers on hardware whose clock stands still.
  \<^item> \<open>Flash_Prg\<close>, \<open>Flash_Prg_Props\<close>: \<open>Flash/FlashPrg.c\<close> and \<open>FlashDev.c\<close>: what the debugger's calls do to the flash,
    what \<open>Verify\<close> reports and which failures are not reported.
  \<^item> \<open>Ringbuffer\<close>, \<open>Ringbuffer_Props\<close>: the ring buffer of the device drivers
    (\<open>rt-thread/components/drivers/src/ringbuffer.c\<close>) as an implementation of a byte queue, stated
    as the locale \<open>byte_queue\<close>.
  \<^item> \<open>Kservice\<close>: the memory and string functions of the kernel (\<open>rt-thread/src/kservice.c\<close>), which work word by word
    on aligned areas, against their byte-wise meaning.
  \<^item> \<open>Dl_Ring\<close>: circular doubly linked lists in a store, with insertion, removal and neighbours.
  \<^item> \<open>Memheap_Defs\<close>: the kernel heap (\<open>rt-thread/src/memheap.c\<close>, the configured implementation of \<open>rt_malloc\<close>), function by function.
    Headers and heap objects are records in a store indexed by address; a failed assertion or a lock
    that is held is the result \<open>None\<close>.
  \<^item> \<open>Memheap_Inv\<close>, \<open>Memheap_Alloc\<close>, \<open>Memheap_Free\<close>, \<open>Memheap_Init\<close>, \<open>Memheap_Realloc\<close>: the invariant of the heap (the blocks
    tile the pool, headers form one ring and free headers another, no two free blocks are
    neighbours, the free bytes are counted) and its preservation by each operation.
  \<^item> \<open>Alloc_Interface\<close>: the locale \<open>allocator\<close>, what a client may rely on: a state predicate, the set of live blocks, allocation and
    release. \<open>Memheap_Live\<close> interprets it on \<open>rt_memheap_alloc\<close> and \<open>rt_memheap_free\<close>,
    \<open>Memheap_Sys\<close> on \<open>rt_malloc\<close> and \<open>rt_free\<close>; the aligned allocation, \<open>rt_calloc\<close> and \<open>rt_strdup\<close> are clients.
  \<^item> \<open>Memheap_Props\<close>: the system heap as a state machine: disjoint live blocks in every reachable state, no
    leaks, the exact condition of failure, and the sizes for which the arithmetic wraps around.
  \<^item> \<open>Ringbuffer_Heap\<close>: creation and destruction of ring buffers on the system heap.
  \<^item> \<open>Kernel_Defs\<close>, \<open>Ipc_Defs\<close>: the kernel, function by function: scheduler, threads, timers, tick and
    objects; semaphores and mutexes (\<open>rt-thread/src/scheduler.c\<close>, \<open>thread.c\<close>, \<open>timer.c\<close>, \<open>clock.c\<close>, \<open>object.c\<close>,
    \<open>irq.c\<close>, \<open>ipc.c\<close>, \<open>libcpu/arm/cortex-m7/cpuport.c\<close>). The state is the record \<open>kernel\<close>.
  \<^item> \<open>Sched_Inv\<close>, \<open>Scheduler\<close>, \<open>Timer_List\<close>, \<open>Thread_Ops\<close>, \<open>Thread_Life\<close>, \<open>Thread_Close\<close>, \<open>Thread_Init\<close>: the invariant (each live thread is
    in the one list its state demands, the priority bitmap agrees with the ready lists, the timers are sorted and
    belong to their threads, no stack has overflowed) and what each operation keeps of it. The locales \<open>sched_frame\<close>,
    \<open>timer_frame\<close> and \<open>thread_frame\<close> state once which parts of the state the operations leave alone.
  \<^item> \<open>Timer_Check\<close>, \<open>Tick\<close>: the timer interrupt. The loop over the due timers ends; sleeping threads wake at their tick.
  \<^item> \<open>Ipc_Ops\<close>, \<open>Ipc_Wait\<close>, \<open>Ipc_Sync\<close>: waiting for semaphores and mutexes, with the locale \<open>waiting\<close> for what shortening a
    queue keeps.
  \<^item> \<open>Kernel_Calls\<close>, \<open>Kernel_Run\<close>: the interface as a machine: the calls (\<open>kcall\<close>), when they are permitted (\<open>allowed\<close>),
    reachable states, and runs of many calls. \<open>Kernel_Example\<close>: a small running system.
  \<^item> \<open>Rt_List\<close>, \<open>Ffs_Table\<close>: the linked lists of \<open>include/rtservice.h\<close> as an implementation of the sequences the kernel model uses
    (locale \<open>node_lists\<close>), and the table version of \<open>__rt_ffs\<close>.
  \<^item> \<open>Kernel_Props\<close>, \<open>Kernel_Ipc_Props\<close>: the scheduler picks a runnable thread of the highest priority, threads of equal
    priority take turns, sleepers wake on time, semaphores refine an abstract counter with a queue, mutexes exclude and hand
    over, and what \<open>rt_thread_delay_until\<close> and \<open>rt_thread_yield\<close> do instead of what their comments say.

  \<^bold>\<open>Assumptions.\<close> Local structures that the C code leaves partly uninitialised are an argument
  (\<open>locals\<close>), so the statements hold for any stack contents. The loop of the reset and
  initialisation code that waits on the hardware may run forever, and the theorems on it say when
  it returns. The clock configuration of the flash algorithm and the MDMA controller are
  parameters. The pool of the heap is word-aligned, holds at least 60 bytes and does
  not overlap the heap object; the properties of \<open>rt_malloc\<close> are for a system with one heap, which is
  the one \<open>rt_hw_board_init\<close> creates; callers write only inside their live blocks and ask for sizes that
  do not wrap around (\<open>heap_step\<close>). The kernel's properties are for states that satisfy \<open>kernel_inv\<close>, which the first theorem of \<open>Kernel_Props\<close>
  shows for all states after the initialisation, in which no thread is alive, no list of waiting threads is filled and
  mutexes are as \<open>rt_mutex_init\<close> leaves them (\<open>before_boot\<close>). The functions of application timers are a parameter; \<open>callbacks_ok\<close>
  and \<open>callbacks_keep\<close> say what the kernel relies on (they return and keep the invariant), \<open>callbacks_quiet\<close> that they leave the
  threads alone. An interrupt comes between two calls and a call of \<open>rt_schedule\<close> takes effect at once; a call that waits is split
  at \<open>rt_schedule\<close> into what it does before and after. What threads store in memory is not part of the model.

  \<^bold>\<open>Assertions.\<close> The configuration leaves \<open>RT_DEBUG\<close> undefined, so \<open>RT_ASSERT\<close> expands to nothing. The models of the heap
  and of the ring buffer check the assertions nevertheless and stop with \<open>None\<close> where one fails: their theorems show that a
  call returns and so that its assertions hold, and then the model and the compiled code agree. The model of the
  scheduler, threads, timers, semaphores and mutexes has no assertions; there \<open>None\<close> is a call that does not return or that the C
  language leaves undefined.

  \<^bold>\<open>Not modelled.\<close> Console output; the start-up code of the board and of the kernel; of the kernel the
  creation of objects on the heap, events, mailboxes and message queues, memory pools, devices, signals, hooks, the idle thread's
  cleanup of closed threads, software timers, several processors and the assembly code of the context switch; the shell; the drivers of
  peripherals that the boot sequence does not use; the functions that program the MDMA
  controller; the vendor's clock drivers; registration of callbacks, which the configuration
  compiles out.
\<close>

end
